(* ===== verification/Prelude.thy ===== *)
theory Prelude
  imports Main "HOL-Library.Word"
begin

unbundle bit_operations_syntax

text \<open>
  Shared vocabulary of the development: machine integer types, byte memory with
  \<open>memcpy\<close>-style reads and writes, the little-endian layout in which the C code copies
  integers to and from packets, network byte order of ports, and the two generic
  interfaces (transition systems with an invariant, bounded FIFO queues) that several
  components provide.

  Conventions used by every theory: \<open>uint8_t\<close>, \<open>uint16_t\<close>, \<open>uint32_t\<close> and \<open>uint64_t\<close> are
  words of that width wherever they can wrap; array lengths and offsets that the code
  keeps small are natural numbers; C status codes are \<^typ>\<open>int\<close>. The target is a
  little-endian machine, as in the wire contract.
\<close>

section \<open>Types\<close>

type_synonym u8 = "8 word"
type_synonym u16 = "16 word"
type_synonym u32 = "32 word"
type_synonym u64 = "64 word"
type_synonym bytes = "8 word list"

named_theorems mem_simps "reads after writes of byte memory"
named_theorems wire_simps "lengths and round trips of the wire encodings"

section \<open>Byte memory\<close>

text \<open>\<open>memcpy(out, d + off, n)\<close> and \<open>memcpy(d + off, bs, length bs)\<close>.\<close>

definition mem_read :: "nat \<Rightarrow> nat \<Rightarrow> 'a list \<Rightarrow> 'a list" where
  "mem_read off n d = take n (drop off d)"

definition mem_write :: "nat \<Rightarrow> 'a list \<Rightarrow> 'a list \<Rightarrow> 'a list" where
  "mem_write off bs d = take off d @ bs @ drop (off + length bs) d"

text \<open>Little-endian bytes of a word and back; \<open>htons\<close> and \<open>ntohs\<close> swap the two bytes.\<close>

primrec le_bytes :: "nat \<Rightarrow> 'a::len word \<Rightarrow> bytes" where
  "le_bytes 0 w = []"
| "le_bytes (Suc n) w = ucast w # le_bytes n (drop_bit 8 w)"

fun le_word :: "bytes \<Rightarrow> 'a::len word" where
  "le_word [] = 0"
| "le_word (b # bs) = ucast b OR push_bit 8 (le_word bs)"

definition htons :: "u16 \<Rightarrow> u16" where
  "htons w = push_bit 8 w OR drop_bit 8 w"

abbreviation ntohs :: "u16 \<Rightarrow> u16" where
  "ntohs \<equiv> htons"

text \<open>The \<open>for\<close> loops that fold a function over the indices of an array.\<close>

definition zipxor :: "bytes \<Rightarrow> bytes \<Rightarrow> bytes" where
  "zipxor xs ys = map (\<lambda>(a, b). a XOR b) (zip xs ys)"

text \<open>
  The fields of \<open>struct sockaddr_in6\<close> (28 bytes) in an address buffer: the family, the port in
  network byte order and the 16 address bytes.
\<close>

abbreviation SOCKADDR_IN6_SIZE :: nat where "SOCKADDR_IN6_SIZE \<equiv> 28"
abbreviation SOCKADDR_IN_SIZE :: nat where "SOCKADDR_IN_SIZE \<equiv> 16"

definition sin6_family :: "bytes \<Rightarrow> bytes" where
  "sin6_family a = mem_read 0 2 a"

definition sin6_port :: "bytes \<Rightarrow> u16" where
  "sin6_port a = le_word (mem_read 2 2 a)"

definition sin6_addr :: "bytes \<Rightarrow> bytes" where
  "sin6_addr a = mem_read 8 16 a"

definition set_sin6_port :: "u16 \<Rightarrow> bytes \<Rightarrow> bytes" where
  "set_sin6_port p a = mem_write 2 (le_bytes 2 p) a"

section \<open>Reads after writes\<close>

lemma length_mem_read [mem_simps]: "length (mem_read off n d) = min n (length d - off)"
  by (simp add: mem_read_def min.commute)

lemma length_mem_write [mem_simps]:
  "off + length bs \<le> length d \<Longrightarrow> length (mem_write off bs d) = length d"
  by (simp add: mem_write_def)

lemma mem_read_same [mem_simps]:
  "\<lbrakk> off + length bs \<le> length d; n = length bs \<rbrakk> \<Longrightarrow> mem_read off n (mem_write off bs d) = bs"
  by (simp add: mem_read_def mem_write_def)

lemma mem_read_before [mem_simps]:
  "\<lbrakk> off + n \<le> off'; off' \<le> length d \<rbrakk> \<Longrightarrow> mem_read off n (mem_write off' bs d) = mem_read off n d"
  by (rule nth_equalityI) (auto simp: mem_read_def mem_write_def nth_append)

lemma mem_read_after [mem_simps]:
  assumes "off' + length bs \<le> off" and "off' + length bs \<le> length d"
  shows "mem_read off n (mem_write off' bs d) = mem_read off n d"
proof -
  have "drop off (mem_write off' bs d) = drop (off - (off' + length bs)) (drop (off' + length bs) d)"
    using assms by (simp add: mem_write_def)
  also have "\<dots> = drop off d" using assms by simp
  finally show ?thesis by (simp add: mem_read_def)
qed

lemma nth_mem_write_same [mem_simps]:
  "\<lbrakk> off \<le> i; i < off + length bs; off + length bs \<le> length d \<rbrakk>
   \<Longrightarrow> mem_write off bs d ! i = bs ! (i - off)"
  by (auto simp: mem_write_def nth_append)

lemma nth_mem_write_before [mem_simps]:
  "\<lbrakk> i < off; off \<le> length d \<rbrakk> \<Longrightarrow> mem_write off bs d ! i = d ! i"
  by (simp add: mem_write_def nth_append)

lemma nth_mem_write_after [mem_simps]:
  "\<lbrakk> off + length bs \<le> i; off + length bs \<le> length d; i < length d \<rbrakk>
   \<Longrightarrow> mem_write off bs d ! i = d ! i"
  by (auto simp: mem_write_def nth_append)

lemma nth_mem_read [mem_simps]:
  "\<lbrakk> i < n; off + i < length d \<rbrakk> \<Longrightarrow> mem_read off n d ! i = d ! (off + i)"
  by (simp add: mem_read_def)

lemma mem_read_mem_read [mem_simps]:
  "a + b \<le> n \<Longrightarrow> mem_read a b (mem_read off n d) = mem_read (off + a) b d"
  by (rule nth_equalityI) (auto simp: mem_read_def add_ac)

lemma mem_read_append_split:
  "mem_read off (m + n) d = mem_read off m d @ mem_read (off + m) n d"
  by (simp add: mem_read_def take_add add.commute)

lemma mem_read_Suc0 [mem_simps]:
  "off < length d \<Longrightarrow> mem_read off (Suc 0) d = [d ! off]"
  by (simp add: mem_read_def take_Suc hd_drop_conv_nth)

section \<open>Little-endian round trips\<close>

lemma length_le_bytes [simp]: "length (le_bytes n w) = n"
  by (induction n arbitrary: w) auto

lemma nth_le_bytes: "i < n \<Longrightarrow> le_bytes n w ! i = ucast (drop_bit (8 * i) w)"
proof (induction n arbitrary: w i)
  case (Suc n)
  then show ?case
    by (cases i) (simp_all add: drop_bit_drop_bit add.commute)
qed simp

lemma bit_le_word:
  "bit (le_word bs :: 'a::len word) k \<longleftrightarrow>
     k < LENGTH('a) \<and> k div 8 < length bs \<and> bit (bs ! (k div 8)) (k mod 8)"
proof (induction bs arbitrary: k)
  case (Cons b bs)
  show ?case
  proof (cases "k < 8")
    case True
    then show ?thesis
      by (auto simp: bit_or_iff bit_push_bit_iff bit_ucast_iff)
  next
    case False
    have d: "k div 8 = Suc ((k - 8) div 8)" and m: "k mod 8 = (k - 8) mod 8"
      using False by (simp_all add: le_div_geq le_mod_geq)
    have "\<not> bit b k" using False by (auto dest: bit_imp_le_length)
    then show ?thesis
      using False Cons.IH [of "k - 8"] d m
      by (auto simp: bit_or_iff bit_push_bit_iff bit_ucast_iff)
  qed
qed simp

lemma le_word_le_bytes [wire_simps]:
  fixes w :: "'a::len word"
  assumes "LENGTH('a) \<le> 8 * n"
  shows "(le_word (le_bytes n w) :: 'a word) = w"
proof (rule bit_word_eqI)
  fix k assume k: "k < LENGTH('a)"
  then have "k div 8 < n" using assms by linarith
  moreover have "8 * (k div 8) + k mod 8 = k" by simp
  ultimately show "bit (le_word (le_bytes n w) :: 'a word) k \<longleftrightarrow> bit w k"
    using k by (simp add: bit_le_word nth_le_bytes bit_ucast_iff bit_drop_bit_eq)
qed

lemma le_bytes_le_word [wire_simps]:
  assumes "length bs = n" and "8 * n \<le> LENGTH('a::len)"
  shows "le_bytes n (le_word bs :: 'a word) = bs"
proof (rule nth_equalityI)
  fix i assume "i < length (le_bytes n (le_word bs :: 'a word))"
  then have i: "i < n" by simp
  show "le_bytes n (le_word bs :: 'a word) ! i = bs ! i"
  proof (rule bit_word_eqI)
    fix k assume "k < LENGTH(8)"
    then have k: "k < 8" by simp
    have "(8 * i + k) div 8 = i" and "(8 * i + k) mod 8 = k" and "8 * i + k < LENGTH('a)"
      using k i assms by auto
    then show "bit (le_bytes n (le_word bs :: 'a word) ! i) k \<longleftrightarrow> bit (bs ! i) k"
      using i k assms by (simp add: nth_le_bytes bit_ucast_iff bit_drop_bit_eq bit_le_word)
  qed
qed (use assms in simp)

lemma htons_htons [simp]: "htons (htons w) = w"
  by (rule bit_word_eqI) (auto simp: htons_def bit_simps)

lemma sin6_set_port:
  assumes "SOCKADDR_IN6_SIZE \<le> length a"
  shows "sin6_port (set_sin6_port p a) = p" "sin6_addr (set_sin6_port p a) = sin6_addr a"
    "sin6_family (set_sin6_port p a) = sin6_family a" "length (set_sin6_port p a) = length a"
  using assms
  by (simp_all add: sin6_port_def set_sin6_port_def sin6_addr_def sin6_family_def mem_simps wire_simps)

lemma htons_inj [simp]: "htons a = htons b \<longleftrightarrow> a = b"
  by (metis htons_htons)

section \<open>XOR of byte strings\<close>

lemma length_zipxor [simp]: "length (zipxor xs ys) = min (length xs) (length ys)"
  by (simp add: zipxor_def)

lemma nth_zipxor: "\<lbrakk> i < length xs; i < length ys \<rbrakk> \<Longrightarrow> zipxor xs ys ! i = xs ! i XOR ys ! i"
  by (simp add: zipxor_def)

lemma zipxor_cancel [simp]: "length xs \<le> length ys \<Longrightarrow> zipxor (zipxor xs ys) ys = xs"
  by (rule nth_equalityI) (auto simp: nth_zipxor xor.assoc)

section \<open>Circular indices\<close>

lemma mod_wrap: "(a::nat) < 2 * n \<Longrightarrow> a mod n = (if a < n then a else a - n)"
  by (auto simp: le_mod_geq)

lemma mod_inj_window:
  assumes "(i::nat) mod n = j mod n" and "a \<le> i" "i < a + n" and "a \<le> j" "j < a + n"
  shows "i = j"
proof -
  have "i = j" if "i \<le> j" "i mod n = j mod n" "a \<le> i" "j < a + n" for i j
  proof -
    have "n dvd j - i"
      using that by (metis mod_eq_dvd_iff_nat)
    moreover have "j - i < n" using that by linarith
    ultimately have "j - i = 0" by (metis dvd_imp_le gr0I not_le)
    with that show ?thesis by simp
  qed
  with assms show ?thesis by (metis nat_le_linear)
qed

section \<open>Transition systems with an invariant\<close>

text \<open>
  A component whose behaviour is a step relation: the states reachable from its start
  states, and the rule that an inductive invariant holds in all of them.
\<close>

inductive reach :: "('s \<Rightarrow> bool) \<Rightarrow> ('s \<Rightarrow> 's \<Rightarrow> bool) \<Rightarrow> 's \<Rightarrow> bool"
  for start step where
  reach_start: "start s \<Longrightarrow> reach start step s"
| reach_step: "\<lbrakk> reach start step s; step s t \<rbrakk> \<Longrightarrow> reach start step t"

locale invariant_system =
  fixes start :: "'s \<Rightarrow> bool"
    and step :: "'s \<Rightarrow> 's \<Rightarrow> bool"
    and inv :: "'s \<Rightarrow> bool"
  assumes inv_start: "start s \<Longrightarrow> inv s"
    and inv_step: "\<lbrakk> inv s; step s t \<rbrakk> \<Longrightarrow> inv t"
begin

lemma reach_inv: "reach start step s \<Longrightarrow> inv s"
  by (induction rule: reach.induct) (auto intro: inv_start inv_step)

lemma reach_imp: "\<lbrakk> reach start step s; \<And>s. inv s \<Longrightarrow> P s \<rbrakk> \<Longrightarrow> P s"
  by (blast dest: reach_inv)

end

end
