(* ===== verification/Spsc_Ring.thy ===== *)
theory Spsc_Ring
  imports Prelude
begin

text \<open>
  The single-producer single-consumer ring of \<open>lib/core/ring.h\<close>: the sequential
  operations, their refinement to a bounded FIFO queue, and the interleaved execution of
  one producer and one consumer thread, one atomic load or store per step.
\<close>

section \<open>Data and operations\<close>

abbreviation RING_SIZE :: nat where
  "RING_SIZE \<equiv> 1024"

record 'a spsc_ring =
  slots :: "'a list"
  write_idx :: u32
  read_idx :: u32

definition ring_init :: "'a spsc_ring \<Rightarrow> 'a spsc_ring" where
  "ring_init r = r\<lparr>write_idx := 0, read_idx := 0\<rparr>"

definition ring_next :: "u32 \<Rightarrow> u32" where
  "ring_next w = (w + 1) AND 1023"

definition ring_push :: "'a spsc_ring \<Rightarrow> 'a \<Rightarrow> int \<times> 'a spsc_ring" where
  "ring_push r item =
     (let w = write_idx r;
          nxt = ring_next w;
          rd = read_idx r
      in if nxt = rd then (-1, r)
         else (0, r\<lparr>slots := (slots r)[unat w := item], write_idx := nxt\<rparr>))"

definition ring_pop :: "'a spsc_ring \<Rightarrow> 'a option \<times> 'a spsc_ring" where
  "ring_pop r =
     (let rd = read_idx r;
          w = write_idx r
      in if rd = w then (None, r)
         else (Some (slots r ! unat rd), r\<lparr>read_idx := ring_next rd\<rparr>))"

text \<open>The queue a ring stands for: the slots from \<open>read_idx\<close> up to \<open>write_idx\<close>.\<close>

definition ring_count :: "'a spsc_ring \<Rightarrow> nat" where
  "ring_count r = (unat (write_idx r) + RING_SIZE - unat (read_idx r)) mod RING_SIZE"

definition ring_contents :: "'a spsc_ring \<Rightarrow> 'a list" where
  "ring_contents r = map (\<lambda>i. slots r ! ((unat (read_idx r) + i) mod RING_SIZE)) [0..<ring_count r]"

definition ring_ok :: "'a spsc_ring \<Rightarrow> bool" where
  "ring_ok r \<longleftrightarrow> length (slots r) = RING_SIZE \<and> unat (write_idx r) < RING_SIZE \<and>
     unat (read_idx r) < RING_SIZE"

section \<open>The queue interface\<close>

text \<open>
  What the scheduler, the demultiplexer and the workers rely on: a queue of bounded
  capacity that refuses a push when it is full (status -1) and returns its items in the
  order they were accepted.
\<close>

datatype 'a qop = QPush 'a | QPop

locale bounded_fifo =
  fixes push :: "'q \<Rightarrow> 'a \<Rightarrow> int \<times> 'q"
    and pop :: "'q \<Rightarrow> 'a option \<times> 'q"
    and contents :: "'q \<Rightarrow> 'a list"
    and ok :: "'q \<Rightarrow> bool"
    and cap :: nat
  assumes push_accept: "\<lbrakk> ok q; length (contents q) < cap \<rbrakk> \<Longrightarrow>
      \<exists>q'. push q x = (0, q') \<and> contents q' = contents q @ [x] \<and> ok q'"
    and push_full: "\<lbrakk> ok q; \<not> length (contents q) < cap \<rbrakk> \<Longrightarrow> push q x = (-1, q)"
    and pop_empty: "\<lbrakk> ok q; contents q = [] \<rbrakk> \<Longrightarrow> pop q = (None, q)"
    and pop_item: "\<lbrakk> ok q; contents q = x # xs \<rbrakk> \<Longrightarrow>
      \<exists>q'. pop q = (Some x, q') \<and> contents q' = xs \<and> ok q'"
    and bounded: "ok q \<Longrightarrow> length (contents q) \<le> cap"
begin

lemma ok_push: "ok q \<Longrightarrow> ok (snd (push q x))"
  using push_accept [of q x] push_full [of q x] by (cases "length (contents q) < cap") auto

lemma ok_pop: "ok q \<Longrightarrow> ok (snd (pop q))"
  using pop_empty [of q] pop_item [of q] by (cases "contents q") fastforce+

lemma contents_push:
  "ok q \<Longrightarrow> contents (snd (push q x)) = contents q @ (if fst (push q x) = 0 then [x] else [])"
  using push_accept [of q x] push_full [of q x] by (cases "length (contents q) < cap") auto

lemma push_status: "ok q \<Longrightarrow> fst (push q x) = (if length (contents q) < cap then 0 else -1)"
  using push_accept [of q x] push_full [of q x] by auto

lemma pop_contents:
  "ok q \<Longrightarrow> contents q = (case fst (pop q) of None \<Rightarrow> [] | Some x \<Rightarrow> [x]) @ contents (snd (pop q))"
  using pop_empty [of q] pop_item [of q] by (cases "contents q") fastforce+

lemma pop_None_iff: "ok q \<Longrightarrow> fst (pop q) = None \<longleftrightarrow> contents q = []"
  using pop_empty [of q] pop_item [of q] by (cases "contents q") fastforce+

text \<open>A run of operations: the accepted items, the returned items, the final queue.\<close>

fun run :: "'a qop list \<Rightarrow> 'q \<Rightarrow> 'a list \<times> 'a list \<times> 'q" where
  "run [] q = ([], [], q)"
| "run (QPush x # os) q =
     (let (st, q1) = push q x; (ins, outs, q2) = run os q1
      in ((if st = 0 then [x] else []) @ ins, outs, q2))"
| "run (QPop # os) q =
     (let (it, q1) = pop q; (ins, outs, q2) = run os q1
      in (ins, (case it of None \<Rightarrow> [] | Some x \<Rightarrow> [x]) @ outs, q2))"

lemma run_fifo:
  "\<lbrakk> ok q; run os q = (ins, outs, q') \<rbrakk> \<Longrightarrow> ok q' \<and> outs @ contents q' = contents q @ ins"
proof (induction os arbitrary: q ins outs q')
  case Nil
  then show ?case by simp
next
  case (Cons a os)
  show ?case
  proof (cases a)
    case (QPush x)
    obtain st q1 where p: "push q x = (st, q1)" by fastforce
    obtain ins2 outs2 q2 where r: "run os q1 = (ins2, outs2, q2)" by (metis prod_cases3)
    have "ok q1" using ok_push [OF Cons.prems(1), of x] p by simp
    from Cons.IH [OF this r] contents_push [OF Cons.prems(1), of x] Cons.prems(2) p r QPush
    show ?thesis by auto
  next
    case QPop
    obtain it q1 where p: "pop q = (it, q1)" by fastforce
    obtain ins2 outs2 q2 where r: "run os q1 = (ins2, outs2, q2)" by (metis prod_cases3)
    have "ok q1" using ok_pop [OF Cons.prems(1)] p by simp
    from Cons.IH [OF this r] pop_contents [OF Cons.prems(1)] Cons.prems(2) p r QPop
    show ?thesis by auto
  qed
qed

end

section \<open>The ring implements the queue interface\<close>

lemma unat_ring_next: "unat (ring_next w) = Suc (unat w) mod RING_SIZE"
proof -
  have "(w + 1) AND 1023 = take_bit 10 (w + 1)"
    by (simp add: take_bit_eq_mask mask_eq_exp_minus_1)
  then have "unat (ring_next w) = unat (w + 1) mod 1024"
    by (simp only: ring_next_def unsigned_take_bit_eq) (simp add: take_bit_eq_mod)
  also have "\<dots> = (Suc (unat w) mod 2 ^ 32) mod 1024"
    by (simp add: unat_word_ariths)
  also have "\<dots> = Suc (unat w) mod 1024"
    by (rule mod_mod_cancel) simp
  finally show ?thesis .
qed

lemma ring_next_less [simp]: "unat (ring_next w) < RING_SIZE"
  by (simp add: unat_ring_next)

lemma ring_next_eq_iff:
  "unat v < RING_SIZE \<Longrightarrow> ring_next w = v \<longleftrightarrow> Suc (unat w) mod RING_SIZE = unat v"
  by (metis unat_ring_next word_unat_eq_iff)

lemma ring_ok_bounds:
  assumes "ring_ok r"
  shows "length (slots r) = RING_SIZE" "unat (write_idx r) < RING_SIZE" "unat (read_idx r) < RING_SIZE"
  using assms by (simp_all add: ring_ok_def)

lemma ring_next_wrap:
  "unat w < RING_SIZE \<Longrightarrow> unat (ring_next w) = (if Suc (unat w) < RING_SIZE then Suc (unat w) else 0)"
  by (auto simp: unat_ring_next mod_Suc)

lemma ring_count_wrap:
  "ring_ok r \<Longrightarrow> ring_count r =
     (if unat (read_idx r) \<le> unat (write_idx r) then unat (write_idx r) - unat (read_idx r)
      else unat (write_idx r) + RING_SIZE - unat (read_idx r))"
  using ring_ok_bounds [of r] by (auto simp: ring_count_def mod_wrap)

lemma ring_count_bound: "ring_count r < RING_SIZE"
  by (simp add: ring_count_def)

lemma length_ring_contents [simp]: "length (ring_contents r) = ring_count r"
  by (simp add: ring_contents_def)

lemma ring_count_full:
  assumes "ring_ok r"
  shows "ring_next (write_idx r) = read_idx r \<longleftrightarrow> ring_count r = RING_SIZE - 1"
  unfolding word_unat_eq_iff ring_count_wrap [OF assms]
  using ring_ok_bounds [OF assms] by (auto simp: ring_next_wrap)

lemma ring_count_empty:
  assumes "ring_ok r"
  shows "read_idx r = write_idx r \<longleftrightarrow> ring_count r = 0"
  unfolding word_unat_eq_iff ring_count_wrap [OF assms]
  using ring_ok_bounds [OF assms] by auto

lemma ring_slot_wrap:
  "\<lbrakk> ring_ok r; i < RING_SIZE \<rbrakk> \<Longrightarrow> (unat (read_idx r) + i) mod RING_SIZE =
     (if unat (read_idx r) + i < RING_SIZE then unat (read_idx r) + i
      else unat (read_idx r) + i - RING_SIZE)"
  using ring_ok_bounds [of r] by (simp add: mod_wrap)

lemma ring_slot_write:
  assumes "ring_ok r" and "i \<le> ring_count r"
  shows "(unat (read_idx r) + i) mod RING_SIZE = unat (write_idx r) \<longleftrightarrow> i = ring_count r"
proof -
  have "i < RING_SIZE" using assms ring_count_wrap [OF assms(1)] ring_ok_bounds [OF assms(1)]
    by (auto split: if_splits)
  with assms show ?thesis
    using ring_ok_bounds [OF assms(1)]
    by (auto simp: ring_slot_wrap ring_count_wrap split: if_splits)
qed

lemma ring_push_contents:
  assumes ok: "ring_ok r" and nf: "ring_count r < RING_SIZE - 1"
  shows "\<exists>r'. ring_push r x = (0, r') \<and> ring_contents r' = ring_contents r @ [x] \<and> ring_ok r'"
proof -
  let ?w = "unat (write_idx r)" and ?rd = "unat (read_idx r)"
  define r' where "r' = r\<lparr>slots := (slots r)[?w := x], write_idx := ring_next (write_idx r)\<rparr>"
  have b: "length (slots r) = RING_SIZE" "?w < RING_SIZE" "?rd < RING_SIZE"
    using ok by (simp_all add: ring_ok_def)
  have push: "ring_push r x = (0, r')"
    using nf ring_count_full [OF ok] by (simp add: ring_push_def Let_def r'_def)
  have ok': "ring_ok r'"
    using b by (simp add: ring_ok_def r'_def)
  have cnt: "ring_count r' = Suc (ring_count r)"
    unfolding ring_count_wrap [OF ok'] ring_count_wrap [OF ok]
    using nf [unfolded ring_count_wrap [OF ok]] b
    by (auto simp: r'_def ring_next_wrap split: if_splits)
  have "ring_contents r' = ring_contents r @ [x]"
  proof -
    have "slots r' ! ((?rd + i) mod RING_SIZE) = slots r ! ((?rd + i) mod RING_SIZE)"
      if "i < ring_count r" for i
      using that ring_slot_write [OF ok, of i] by (auto simp: r'_def)
    moreover have "slots r' ! ((?rd + ring_count r) mod RING_SIZE) = x"
      using b ring_slot_write [OF ok, of "ring_count r"] by (simp add: r'_def)
    moreover have "read_idx r' = read_idx r" by (simp add: r'_def)
    ultimately show ?thesis by (simp add: ring_contents_def cnt)
  qed
  then show ?thesis using push ok' by blast
qed

lemma ring_pop_contents:
  assumes ok: "ring_ok r" and c: "ring_contents r = x # xs"
  shows "\<exists>r'. ring_pop r = (Some x, r') \<and> ring_contents r' = xs \<and> ring_ok r'"
proof -
  let ?w = "unat (write_idx r)" and ?rd = "unat (read_idx r)"
  define r' where "r' = r\<lparr>read_idx := ring_next (read_idx r)\<rparr>"
  have b: "length (slots r) = RING_SIZE" "?w < RING_SIZE" "?rd < RING_SIZE"
    using ok by (simp_all add: ring_ok_def)
  have n: "ring_count r = Suc (length xs)"
    using c length_ring_contents [of r] by simp
  have "ring_contents r = slots r ! ?rd #
      map (\<lambda>i. slots r ! ((?rd + Suc i) mod RING_SIZE)) [0..<length xs]"
    unfolding ring_contents_def n using b
    by (simp add: upt_conv_Cons map_Suc_upt [symmetric] del: upt_Suc)
  then have hd: "x = slots r ! ?rd"
    and tl: "xs = map (\<lambda>i. slots r ! ((?rd + Suc i) mod RING_SIZE)) [0..<length xs]"
    using c by simp_all
  have ok': "ring_ok r'"
    using b by (simp add: ring_ok_def r'_def)
  have "ring_count r' = length xs"
    unfolding ring_count_wrap [OF ok']
    using n [unfolded ring_count_wrap [OF ok]] b
    by (auto simp: r'_def ring_next_wrap split: if_splits)
  then have "ring_contents r' = xs"
    using tl by (simp add: ring_contents_def r'_def unat_ring_next mod_simps)
  moreover have "ring_pop r = (Some x, r')"
    using n ring_count_empty [OF ok] hd by (simp add: ring_pop_def r'_def Let_def)
  ultimately show ?thesis using ok' by blast
qed

interpretation spsc: bounded_fifo ring_push ring_pop ring_contents ring_ok "RING_SIZE - 1"
proof (unfold_locales, goal_cases)
  case (1 q x)
  then show ?case using ring_push_contents [of q x] by simp
next
  case (2 q x)
  then have "ring_count q = RING_SIZE - 1"
    using ring_count_bound [of q] by simp
  then show ?case using 2 ring_count_full [of q] by (simp add: ring_push_def)
next
  case (3 q)
  then have "ring_count q = 0" by (metis length_ring_contents list.size(3))
  then show ?case using 3 ring_count_empty [of q] by (simp add: ring_pop_def)
next
  case (4 q x xs)
  then show ?case by (rule ring_pop_contents)
next
  case (5 q)
  then show ?case using ring_count_bound [of q] by simp
qed

lemma ring_init_ok: "length (slots r) = RING_SIZE \<Longrightarrow> ring_ok (ring_init r) \<and> ring_contents (ring_init r) = []"
  by (simp add: ring_ok_def ring_init_def ring_contents_def ring_count_def)

section \<open>Properties\<close>

text \<open>
  C16: The ring is a bounded FIFO queue. Over any sequence of pushes and pops on a well-formed
  ring, the items popped followed by the items still queued are exactly the items queued at
  first followed by the accepted pushes, in that order, and the ring stays well-formed.
\<close>

theorem ring_run_fifo:
  assumes "ring_ok r" and "spsc.run os r = (ins, outs, r')"
  shows "ring_ok r' \<and> outs @ ring_contents r' = ring_contents r @ ins"
  using spsc.run_fifo [OF assms] .

definition ring_sample :: "nat spsc_ring" where
  "ring_sample = \<lparr>slots = replicate 1024 0, write_idx = 1023, read_idx = 1023\<rparr>"

lemma ring_sample_facts:
  "ring_ok ring_sample"
  "spsc.run [QPush 5, QPush 6, QPop, QPush 7] ring_sample =
     ([5, 6, 7], [5], \<lparr>slots = ((replicate 1024 0)[1023 := 5])[0 := 6, 1 := 7], write_idx = 2, read_idx = 0\<rparr>)"
  by (simp_all add: ring_sample_def ring_ok_def ring_push_def ring_pop_def ring_next_def Let_def)

theorem ring_run_fifo_witness:
  "ring_ok \<lparr>slots = ((replicate 1024 (0::nat))[1023 := 5])[0 := 6, 1 := 7], write_idx = 2, read_idx = 0\<rparr> \<and>
   [5::nat] @ ring_contents \<lparr>slots = ((replicate 1024 0)[1023 := 5])[0 := 6, 1 := 7], write_idx = 2, read_idx = 0\<rparr> =
     ring_contents ring_sample @ [5, 6, 7]"
  using ring_run_fifo [OF ring_sample_facts] .

end
