(* ===== verification/Ring_Threads.thy ===== *)
theory Ring_Threads
  imports Spsc_Ring
begin

text \<open>
  The ring of \<open>lib/core/ring.h\<close> shared by one producer and one consumer thread. Each rule
  of \<open>ring_step\<close> is one shared-memory access of \<open>ring_push\<close> or \<open>ring_pop\<close> (the
  atomic operations of \<open>lib/core/atomic.h\<close> are sequentially consistent), so a run is any
  interleaving of the two bodies. \<open>published\<close> and \<open>consumed\<close> record, for the statements
  only, the items made visible by a store to \<open>write_idx\<close> and the items released by a store
  to \<open>read_idx\<close>.
\<close>

section \<open>State and steps\<close>

datatype 'a prod_pc = PIdle | PLoadedW 'a u32 | PReady 'a u32 | PStored 'a u32

datatype 'a cons_pc = CIdle | CLoadedR u32 | CReady u32 | CTaken u32 'a

record 'a ring_sys =
  ring :: "'a spsc_ring"
  prod :: "'a prod_pc"
  cons :: "'a cons_pc"
  published :: "'a list"
  consumed :: "'a list"

definition ring_sys_start :: "'a ring_sys \<Rightarrow> bool" where
  "ring_sys_start s \<longleftrightarrow> length (slots (ring s)) = RING_SIZE \<and> write_idx (ring s) = 0 \<and>
     read_idx (ring s) = 0 \<and> prod s = PIdle \<and> cons s = CIdle \<and> published s = [] \<and> consumed s = []"

inductive ring_step :: "'a ring_sys \<Rightarrow> 'a ring_sys \<Rightarrow> bool" where
  push_load_w: "prod s = PIdle \<Longrightarrow> ring_step s (s\<lparr>prod := PLoadedW x (write_idx (ring s))\<rparr>)"
| push_full: "\<lbrakk> prod s = PLoadedW x w; ring_next w = read_idx (ring s) \<rbrakk> \<Longrightarrow>
     ring_step s (s\<lparr>prod := PIdle\<rparr>)"
| push_room: "\<lbrakk> prod s = PLoadedW x w; ring_next w \<noteq> read_idx (ring s) \<rbrakk> \<Longrightarrow>
     ring_step s (s\<lparr>prod := PReady x w\<rparr>)"
| push_slot: "prod s = PReady x w \<Longrightarrow>
     ring_step s (s\<lparr>ring := (ring s)\<lparr>slots := (slots (ring s))[unat w := x]\<rparr>, prod := PStored x w\<rparr>)"
| push_publish: "prod s = PStored x w \<Longrightarrow>
     ring_step s (s\<lparr>ring := (ring s)\<lparr>write_idx := ring_next w\<rparr>, prod := PIdle,
                    published := published s @ [x]\<rparr>)"
| pop_load_r: "cons s = CIdle \<Longrightarrow> ring_step s (s\<lparr>cons := CLoadedR (read_idx (ring s))\<rparr>)"
| pop_empty: "\<lbrakk> cons s = CLoadedR rd; rd = write_idx (ring s) \<rbrakk> \<Longrightarrow>
     ring_step s (s\<lparr>cons := CIdle\<rparr>)"
| pop_some: "\<lbrakk> cons s = CLoadedR rd; rd \<noteq> write_idx (ring s) \<rbrakk> \<Longrightarrow>
     ring_step s (s\<lparr>cons := CReady rd\<rparr>)"
| pop_read: "cons s = CReady rd \<Longrightarrow>
     ring_step s (s\<lparr>cons := CTaken rd (slots (ring s) ! unat rd)\<rparr>)"
| pop_release: "cons s = CTaken rd x \<Longrightarrow>
     ring_step s (s\<lparr>ring := (ring s)\<lparr>read_idx := ring_next rd\<rparr>, cons := CIdle,
                    consumed := consumed s @ [x]\<rparr>)"

section \<open>The invariant\<close>

text \<open>
  The indices are the numbers of published and consumed items modulo the ring size, at most
  1023 items are in flight, and the slots between the indices hold exactly the published
  items not yet consumed. A producer past its check has room left; a consumer past its
  check has an item to take.
\<close>

definition ring_data_inv :: "'a ring_sys \<Rightarrow> bool" where
  "ring_data_inv s \<longleftrightarrow>
     length (slots (ring s)) = RING_SIZE \<and>
     unat (write_idx (ring s)) = length (published s) mod RING_SIZE \<and>
     unat (read_idx (ring s)) = length (consumed s) mod RING_SIZE \<and>
     length (consumed s) \<le> length (published s) \<and>
     length (published s) < length (consumed s) + RING_SIZE \<and>
     take (length (consumed s)) (published s) = consumed s \<and>
     (\<forall>i. length (consumed s) \<le> i \<and> i < length (published s) \<longrightarrow>
        slots (ring s) ! (i mod RING_SIZE) = published s ! i)"

definition prod_inv :: "'a ring_sys \<Rightarrow> bool" where
  "prod_inv s \<longleftrightarrow> (case prod s of
       PIdle \<Rightarrow> True
     | PLoadedW x w \<Rightarrow> w = write_idx (ring s)
     | PReady x w \<Rightarrow> w = write_idx (ring s) \<and>
         length (published s) + 1 < length (consumed s) + RING_SIZE
     | PStored x w \<Rightarrow> w = write_idx (ring s) \<and> slots (ring s) ! unat w = x \<and>
         length (published s) + 1 < length (consumed s) + RING_SIZE)"

definition cons_inv :: "'a ring_sys \<Rightarrow> bool" where
  "cons_inv s \<longleftrightarrow> (case cons s of
       CIdle \<Rightarrow> True
     | CLoadedR rd \<Rightarrow> rd = read_idx (ring s)
     | CReady rd \<Rightarrow> rd = read_idx (ring s) \<and> length (consumed s) < length (published s)
     | CTaken rd x \<Rightarrow> rd = read_idx (ring s) \<and> length (consumed s) < length (published s) \<and>
         x = published s ! length (consumed s))"

definition ring_sys_inv :: "'a ring_sys \<Rightarrow> bool" where
  "ring_sys_inv s \<longleftrightarrow> ring_data_inv s \<and> prod_inv s \<and> cons_inv s"

lemmas ring_inv_defs = ring_sys_inv_def ring_data_inv_def prod_inv_def cons_inv_def

text \<open>The producer's assertion does not read the consumer's program counter, nor conversely.\<close>

lemma ring_inv_frames [simp]:
  "ring_data_inv (s\<lparr>prod := p\<rparr>) = ring_data_inv s"
  "ring_data_inv (s\<lparr>cons := c\<rparr>) = ring_data_inv s"
  "prod_inv (s\<lparr>cons := c\<rparr>) = prod_inv s"
  "cons_inv (s\<lparr>prod := p\<rparr>) = cons_inv s"
  by (simp_all add: ring_data_inv_def prod_inv_def cons_inv_def split: prod_pc.split cons_pc.split)

lemma mod_neq_window:
  "\<lbrakk> a \<le> (i::nat); i < j; j < a + n \<rbrakk> \<Longrightarrow> i mod n \<noteq> j mod n"
  using mod_inj_window [of i n j a] by auto

lemma ring_room:
  assumes "ring_data_inv s" and "ring_next (write_idx (ring s)) \<noteq> read_idx (ring s)"
  shows "length (published s) + 1 < length (consumed s) + RING_SIZE"
proof (rule ccontr)
  assume "\<not> ?thesis"
  with assms(1) have "Suc (length (published s)) = length (consumed s) + RING_SIZE"
    by (simp add: ring_data_inv_def)
  then have "Suc (length (published s)) mod RING_SIZE = length (consumed s) mod RING_SIZE"
    by simp
  then have "unat (ring_next (write_idx (ring s))) = unat (read_idx (ring s))"
    using assms(1) by (simp add: ring_data_inv_def unat_ring_next mod_Suc_eq)
  with assms(2) show False by (simp add: word_unat_eq_iff)
qed

lemma ring_some:
  assumes "ring_data_inv s" and "read_idx (ring s) \<noteq> write_idx (ring s)"
  shows "length (consumed s) < length (published s)"
proof (rule ccontr)
  assume "\<not> ?thesis"
  with assms(1) have "length (consumed s) = length (published s)"
    unfolding ring_data_inv_def by linarith
  with assms(1) have "unat (read_idx (ring s)) = unat (write_idx (ring s))"
    unfolding ring_data_inv_def by argo
  with assms(2) show False by (simp add: word_unat_eq_iff)
qed

lemma push_slot_inv:
  assumes inv: "ring_sys_inv s" and p: "prod s = PReady x w"
  shows "ring_sys_inv (s\<lparr>ring := (ring s)\<lparr>slots := (slots (ring s))[unat w := x]\<rparr>, prod := PStored x w\<rparr>)"
proof -
  let ?n = "length (published s)" and ?c = "length (consumed s)"
  have w: "unat w = ?n mod RING_SIZE" and room: "?n + 1 < ?c + RING_SIZE"
    and ln: "length (slots (ring s)) = RING_SIZE"
    using inv p by (simp_all add: ring_inv_defs)
  have "(slots (ring s))[unat w := x] ! (i mod RING_SIZE) = published s ! i"
    if "?c \<le> i" "i < ?n" for i
  proof -
    have "i mod RING_SIZE \<noteq> unat w"
      unfolding w using mod_neq_window [of ?c i ?n RING_SIZE] that room by simp
    then show ?thesis
      using inv that by (simp add: ring_inv_defs)
  qed
  then show ?thesis
    using inv p w ln by (auto simp: ring_inv_defs split: cons_pc.splits)
qed

lemma push_publish_inv:
  assumes inv: "ring_sys_inv s" and p: "prod s = PStored x w"
  shows "ring_sys_inv (s\<lparr>ring := (ring s)\<lparr>write_idx := ring_next w\<rparr>, prod := PIdle,
           published := published s @ [x]\<rparr>)"
proof -
  let ?n = "length (published s)" and ?c = "length (consumed s)"
  have w: "w = write_idx (ring s)" "unat w = ?n mod RING_SIZE" "slots (ring s) ! (?n mod RING_SIZE) = x"
    and room: "?n + 1 < ?c + RING_SIZE"
    using inv p by (auto simp: ring_inv_defs)
  have "slots (ring s) ! (i mod RING_SIZE) = (published s @ [x]) ! i"
    if "?c \<le> i" "i < Suc ?n" for i
    using that inv w by (cases "i = ?n") (auto simp: ring_inv_defs nth_append)
  then show ?thesis
    using inv p w room
    by (auto simp: ring_inv_defs unat_ring_next mod_Suc_eq nth_append split: cons_pc.splits)
qed

lemma pop_release_inv:
  assumes inv: "ring_sys_inv s" and c: "cons s = CTaken rd x"
  shows "ring_sys_inv (s\<lparr>ring := (ring s)\<lparr>read_idx := ring_next rd\<rparr>, cons := CIdle,
           consumed := consumed s @ [x]\<rparr>)"
proof -
  let ?c = "length (consumed s)"
  have rd: "unat rd = ?c mod RING_SIZE" and lt: "?c < length (published s)"
    and x: "x = published s ! ?c" and tk: "take ?c (published s) = consumed s"
    using inv c by (simp_all add: ring_inv_defs)
  have "take (Suc ?c) (published s) = consumed s @ [x]"
    using tk lt x by (metis take_Suc_conv_app_nth)
  then show ?thesis
    using inv c rd lt
    by (auto simp: ring_inv_defs unat_ring_next mod_Suc_eq split: prod_pc.splits)
qed

lemma ring_step_inv: "\<lbrakk> ring_step s t; ring_sys_inv s \<rbrakk> \<Longrightarrow> ring_sys_inv t"
proof (induction rule: ring_step.induct)
  case (push_room s x w)
  then have "w = write_idx (ring s)" and "ring_data_inv s"
    by (simp_all add: ring_sys_inv_def prod_inv_def)
  with push_room have "length (published s) + 1 < length (consumed s) + RING_SIZE"
    using ring_room by blast
  with push_room \<open>w = write_idx (ring s)\<close> show ?case by (simp add: ring_sys_inv_def) (simp add: prod_inv_def)
next
  case (push_slot s x w)
  show ?case using push_slot_inv push_slot by (iprover)
next
  case (push_publish s x w)
  show ?case using push_publish_inv push_publish by (iprover)
next
  case (pop_some s rd)
  then have "rd = read_idx (ring s)" and "ring_data_inv s"
    by (simp_all add: ring_sys_inv_def cons_inv_def)
  with pop_some have "length (consumed s) < length (published s)"
    using ring_some by blast
  with pop_some \<open>rd = read_idx (ring s)\<close> show ?case by (simp add: ring_sys_inv_def) (simp add: cons_inv_def)
next
  case (pop_read s rd)
  then have "slots (ring s) ! unat rd = published s ! length (consumed s)"
    by (simp add: ring_sys_inv_def cons_inv_def ring_data_inv_def)
  with pop_read show ?case by (simp add: ring_sys_inv_def) (simp add: cons_inv_def)
next
  case (pop_release s rd x)
  show ?case using pop_release_inv pop_release by (iprover)
qed (simp_all add: ring_sys_inv_def, simp_all add: prod_inv_def cons_inv_def)

lemma ring_start_inv: "ring_sys_start s \<Longrightarrow> ring_sys_inv s"
  by (simp add: ring_sys_start_def ring_inv_defs)

interpretation ring_threads: invariant_system ring_sys_start ring_step ring_sys_inv
  by unfold_locales (blast intro: ring_start_inv ring_step_inv)+

section \<open>No interleaving loses, duplicates or reorders an item\<close>

lemma ring_threads_prefix:
  assumes "reach ring_sys_start ring_step s"
  shows "\<exists>rest. published s = consumed s @ rest \<and> length rest < RING_SIZE \<and>
           rest = map (\<lambda>i. slots (ring s) ! ((unat (read_idx (ring s)) + i) mod RING_SIZE)) [0..<length rest]"
proof -
  let ?c = "length (consumed s)" and ?rest = "drop (length (consumed s)) (published s)"
  have inv: "ring_data_inv s"
    using ring_threads.reach_inv [OF assms] by (simp add: ring_sys_inv_def)
  then have 1: "published s = consumed s @ ?rest"
    by (metis ring_data_inv_def append_take_drop_id)
  have "?rest ! i = slots (ring s) ! ((unat (read_idx (ring s)) + i) mod RING_SIZE)"
    if "i < length ?rest" for i
    using inv that by (simp add: ring_data_inv_def mod_simps)
  then have "?rest = map (\<lambda>i. slots (ring s) ! ((unat (read_idx (ring s)) + i) mod RING_SIZE)) [0..<length ?rest]"
    by (auto intro!: nth_equalityI)
  moreover have "length ?rest < RING_SIZE" using inv by (auto simp: ring_data_inv_def)
  ultimately show ?thesis using 1 by blast
qed

section \<open>Property\<close>

text \<open>
  C15: One producer thread and one consumer thread may interleave their accesses to the ring in
  any way: in every reachable state the consumed items are a prefix of the published ones, and
  the published items not yet consumed, fewer than 1024, are in the slots after the read index
  in order. Nothing is lost, duplicated or reordered.
\<close>

theorem ring_threads_linear:
  assumes "reach ring_sys_start ring_step s"
  shows "\<exists>rest. published s = consumed s @ rest \<and> length rest < RING_SIZE \<and>
           rest = map (\<lambda>i. slots (ring s) ! ((unat (read_idx (ring s)) + i) mod RING_SIZE)) [0..<length rest]"
  using assms by (rule ring_threads_prefix)

definition ring_sys_sample :: "nat prod_pc \<Rightarrow> nat list \<Rightarrow> u32 \<Rightarrow> nat list \<Rightarrow> nat ring_sys" where
  "ring_sys_sample p xs w pub = \<lparr>ring = \<lparr>slots = xs, write_idx = w, read_idx = 0\<rparr>, prod = p,
     cons = CIdle, published = pub, consumed = []\<rparr>"

lemma ring_sys_sample_reach:
  "reach ring_sys_start ring_step (ring_sys_sample PIdle ((replicate 1024 0)[0 := 7]) 1 [7])"
proof -
  let ?R = "reach ring_sys_start ring_step" and ?z = "replicate 1024 (0::nat)"
  have "?R (ring_sys_sample PIdle ?z 0 [])"
    by (rule reach_start) (simp add: ring_sys_start_def ring_sys_sample_def)
  from reach_step [OF this push_load_w [of _ 7]] have "?R (ring_sys_sample (PLoadedW 7 0) ?z 0 [])"
    by (simp add: ring_sys_sample_def)
  from reach_step [OF this push_room [of _ 7 0]] have "?R (ring_sys_sample (PReady 7 0) ?z 0 [])"
    by (simp add: ring_sys_sample_def ring_next_def)
  from reach_step [OF this push_slot [of _ 7 0]] have "?R (ring_sys_sample (PStored 7 0) (?z[0 := 7]) 0 [])"
    by (simp add: ring_sys_sample_def)
  from reach_step [OF this push_publish [of _ 7 0]] show ?thesis
    by (simp add: ring_sys_sample_def ring_next_def)
qed

theorem ring_threads_linear_witness:
  "let s = ring_sys_sample PIdle ((replicate 1024 0)[0 := 7]) 1 [7] in
   \<exists>rest. published s = consumed s @ rest \<and> length rest < RING_SIZE \<and>
     rest = map (\<lambda>i. slots (ring s) ! ((unat (read_idx (ring s)) + i) mod RING_SIZE)) [0..<length rest]"
  using ring_threads_linear [OF ring_sys_sample_reach] unfolding Let_def .

end
