(* ===== verification/Resilience_Ctx.thy ===== *)
theory Resilience_Ctx
  imports Complex_Main Prelude
begin

text \<open>
  Per-session path metrics of \<open>lib/core/resilience_ctx.c\<close>: packet counters, the loss window,
  the round-trip estimate, path selection and the timer that degrades silent paths. The
  forward error correction of the same file is in \<open>Fec\<close>.

  \<open>loss_rate\<close> is a \<open>float\<close> that only ever holds \<open>k / 64\<close>, which a \<open>float\<close> represents exactly;
  it is kept as a rational number. The literals \<open>0.3f\<close> and \<open>0.5f\<close> it is compared with
  separate the same multiples of 1/64 as 3/10 and 1/2.
\<close>

section \<open>Data\<close>

abbreviation RESILIENCE_MAX_PATHS :: nat where "RESILIENCE_MAX_PATHS \<equiv> 4"
abbreviation RESILIENCE_FEC_GROUP :: nat where "RESILIENCE_FEC_GROUP \<equiv> 4"
abbreviation RESILIENCE_LOSS_WINDOW :: nat where "RESILIENCE_LOSS_WINDOW \<equiv> 64"
abbreviation FEC_MAX_PAYLOAD :: nat where "FEC_MAX_PAYLOAD \<equiv> 1400"

datatype path_state = PATH_UNKNOWN | PATH_ACTIVE | PATH_DEGRADED | PATH_DOWN

record path_metrics =
  packets_sent :: u32
  packets_recv :: u32
  packets_lost :: u32
  rtt_ns :: u64
  rtt_min_ns :: u64
  rtt_max_ns :: u64
  jitter_ns :: u64
  loss_rate :: rat
  path_state :: path_state
  last_activity_ms :: u64
  last_probe_ms :: u64
  loss_window :: "u8 list"
  loss_window_pos :: u32
  path_last_seq :: u32
  path_recv_bitmap :: u64
  peer_port :: u16

record resilience =
  paths :: "path_metrics list"
  path_count :: nat
  active_path :: nat
  multipath_enabled :: bool
  heartbeat_interval_ms :: u32
  reconnect_timeout_ms :: u32
  max_reconnect_attempts :: u32
  last_heartbeat_ms :: u64
  start_time_ms :: u64
  fec_enabled :: bool
  fec_group_size :: nat
  fec_group_pos :: nat
  fec_parity_buf :: bytes
  fec_parity_len :: nat
  fec_group_start_seq :: u32
  fec_channel_id :: u8
  fec_buf_ptrs :: "bytes list"
  fec_buf_lens :: "nat list"
  fec_rx_parity :: bytes
  fec_rx_parity_len :: nat
  fec_rx_group_start_seq :: u32
  fec_rx_group_size :: nat
  fec_rx_channel_id :: u8
  fec_rx_have_parity :: bool
  fec_rx_seqs :: "u32 list"

section \<open>Operations\<close>

text \<open>The all-zero structures that \<open>memset\<close> leaves.\<close>

definition path_metrics_zero :: path_metrics where
  "path_metrics_zero = \<lparr>packets_sent = 0, packets_recv = 0, packets_lost = 0, rtt_ns = 0,
     rtt_min_ns = 0, rtt_max_ns = 0, jitter_ns = 0, loss_rate = 0, path_state = PATH_UNKNOWN,
     last_activity_ms = 0, last_probe_ms = 0, loss_window = replicate RESILIENCE_LOSS_WINDOW 0,
     loss_window_pos = 0, path_last_seq = 0, path_recv_bitmap = 0, peer_port = 0\<rparr>"

definition resilience_zero :: resilience where
  "resilience_zero = \<lparr>paths = replicate RESILIENCE_MAX_PATHS path_metrics_zero, path_count = 0,
     active_path = 0, multipath_enabled = False, heartbeat_interval_ms = 0,
     reconnect_timeout_ms = 0, max_reconnect_attempts = 0, last_heartbeat_ms = 0,
     start_time_ms = 0, fec_enabled = False, fec_group_size = 0, fec_group_pos = 0,
     fec_parity_buf = replicate FEC_MAX_PAYLOAD 0, fec_parity_len = 0, fec_group_start_seq = 0,
     fec_channel_id = 0, fec_buf_ptrs = replicate RESILIENCE_FEC_GROUP (replicate FEC_MAX_PAYLOAD 0),
     fec_buf_lens = replicate RESILIENCE_FEC_GROUP 0, fec_rx_parity = replicate FEC_MAX_PAYLOAD 0,
     fec_rx_parity_len = 0, fec_rx_group_start_seq = 0, fec_rx_group_size = 0,
     fec_rx_channel_id = 0, fec_rx_have_parity = False,
     fec_rx_seqs = replicate RESILIENCE_FEC_GROUP 0\<rparr>"

definition resilience_init :: resilience where
  "resilience_init = resilience_zero\<lparr>path_count := 1, active_path := 0,
     heartbeat_interval_ms := 1000, reconnect_timeout_ms := 5000, max_reconnect_attempts := 3,
     paths := map (\<lambda>p. p\<lparr>path_state := PATH_UNKNOWN\<rparr>) (paths resilience_zero),
     fec_enabled := True, fec_group_size := RESILIENCE_FEC_GROUP, fec_group_pos := 0\<rparr>"

definition update_loss_rate :: "path_metrics \<Rightarrow> path_metrics" where
  "update_loss_rate p =
     (let total = length (loss_window p);
          lost = length (filter (\<lambda>b. b \<noteq> 0) (loss_window p))
      in p\<lparr>loss_rate := (if total > 0 then of_nat lost / of_nat total else 0)\<rparr>)"

text \<open>\<open>&r->paths[i]\<close> updated in place.\<close>

definition path_update :: "nat \<Rightarrow> (path_metrics \<Rightarrow> path_metrics) \<Rightarrow> resilience \<Rightarrow> resilience" where
  "path_update i f r = r\<lparr>paths := (paths r)[i := f (paths r ! i)]\<rparr>"

definition resilience_record_tx :: "resilience \<Rightarrow> nat \<Rightarrow> resilience" where
  "resilience_record_tx r path_idx =
     (if path_idx \<ge> RESILIENCE_MAX_PATHS then r
      else path_update path_idx (\<lambda>p. p\<lparr>packets_sent := packets_sent p + 1\<rparr>) r)"

definition window_put :: "u8 \<Rightarrow> path_metrics \<Rightarrow> path_metrics" where
  "window_put b p = p\<lparr>loss_window := (loss_window p)[unat (loss_window_pos p mod 64) := b],
                       loss_window_pos := loss_window_pos p + 1\<rparr>"

definition record_rtt :: "u64 \<Rightarrow> path_metrics \<Rightarrow> path_metrics" where
  "record_rtt rtt p =
     (if rtt > 0 then
        (let prev = rtt_ns p in
         p\<lparr>rtt_min_ns := (if rtt_min_ns p = 0 \<or> rtt < rtt_min_ns p then rtt else rtt_min_ns p),
           rtt_max_ns := (if rtt > rtt_max_ns p then rtt else rtt_max_ns p),
           rtt_ns := (if prev > 0 then (prev * 7 + rtt) div 8 else rtt),
           jitter_ns := (if jitter_ns p > 0
              then (jitter_ns p * 7 + (if rtt > prev then rtt - prev else prev - rtt)) div 8
              else 0)\<rparr>)
      else p)"

definition resilience_record_rx :: "resilience \<Rightarrow> nat \<Rightarrow> u64 \<Rightarrow> resilience" where
  "resilience_record_rx r path_idx rtt =
     (if path_idx \<ge> RESILIENCE_MAX_PATHS then r
      else path_update path_idx
        (\<lambda>p. (record_rtt rtt (update_loss_rate
                (window_put 0 (p\<lparr>packets_recv := packets_recv p + 1\<rparr>))))
              \<lparr>path_state := PATH_ACTIVE\<rparr>) r)"

definition loss_state :: "path_metrics \<Rightarrow> path_metrics" where
  "loss_state p =
     (let p1 = (if loss_rate p > 3 / 10 then p\<lparr>path_state := PATH_DEGRADED\<rparr> else p)
      in if loss_rate p1 > 1 / 2 then p1\<lparr>path_state := PATH_DOWN\<rparr> else p1)"

definition resilience_record_loss :: "resilience \<Rightarrow> nat \<Rightarrow> resilience" where
  "resilience_record_loss r path_idx =
     (if path_idx \<ge> RESILIENCE_MAX_PATHS then r
      else path_update path_idx
        (\<lambda>p. loss_state (update_loss_rate (window_put 1 (p\<lparr>packets_lost := packets_lost p + 1\<rparr>)))) r)"

definition select_step :: "resilience \<Rightarrow> nat \<Rightarrow> nat \<times> rat \<Rightarrow> nat \<times> rat" where
  "select_step r i acc =
     (if path_state (paths r ! i) = PATH_ACTIVE \<and> loss_rate (paths r ! i) < snd acc
      then (i, loss_rate (paths r ! i)) else acc)"

definition resilience_select_path :: "resilience \<Rightarrow> nat" where
  "resilience_select_path r =
     (if path_count r = 0 then 0
      else if \<not> multipath_enabled r then active_path r
      else fst (fold (select_step r) [0..<path_count r]
                  (active_path r, loss_rate (paths r ! active_path r))))"

definition tick_path :: "u64 \<Rightarrow> resilience \<Rightarrow> path_metrics \<Rightarrow> bool \<times> path_metrics" where
  "tick_path now r p =
     (let idle = now - last_activity_ms p;
          c1 = path_state p = PATH_ACTIVE \<and> idle > ucast (heartbeat_interval_ms r * 3);
          p1 = (if c1 then p\<lparr>path_state := PATH_DEGRADED\<rparr> else p);
          c2 = path_state p1 = PATH_DEGRADED \<and> idle > ucast (reconnect_timeout_ms r);
          p2 = (if c2 then p1\<lparr>path_state := PATH_DOWN\<rparr> else p1)
      in (c1 \<or> c2, p2))"

definition tick_step :: "u64 \<Rightarrow> nat \<Rightarrow> int \<times> resilience \<Rightarrow> int \<times> resilience" where
  "tick_step now i acc =
     (let (changed, r) = acc; (c, p) = tick_path now r (paths r ! i)
      in (if c then 1 else changed, r\<lparr>paths := (paths r)[i := p]\<rparr>))"

definition resilience_tick :: "resilience \<Rightarrow> u64 \<Rightarrow> int \<times> resilience" where
  "resilience_tick r now = fold (tick_step now) [0..<path_count r] (0, r)"

section \<open>Well-formedness\<close>

definition path_ok :: "path_metrics \<Rightarrow> bool" where
  "path_ok p \<longleftrightarrow> length (loss_window p) = RESILIENCE_LOSS_WINDOW"

definition resilience_ok :: "resilience \<Rightarrow> bool" where
  "resilience_ok r \<longleftrightarrow>
     length (paths r) = RESILIENCE_MAX_PATHS \<and> path_count r \<le> RESILIENCE_MAX_PATHS \<and>
     active_path r < RESILIENCE_MAX_PATHS \<and> (\<forall>p \<in> set (paths r). path_ok p) \<and>
     length (fec_parity_buf r) = FEC_MAX_PAYLOAD \<and> length (fec_rx_parity r) = FEC_MAX_PAYLOAD \<and>
     length (fec_buf_ptrs r) = RESILIENCE_FEC_GROUP \<and>
     (\<forall>b \<in> set (fec_buf_ptrs r). length b = FEC_MAX_PAYLOAD) \<and>
     length (fec_buf_lens r) = RESILIENCE_FEC_GROUP \<and>
     (\<forall>l \<in> set (fec_buf_lens r). l \<le> FEC_MAX_PAYLOAD) \<and>
     length (fec_rx_seqs r) = RESILIENCE_FEC_GROUP \<and> fec_rx_parity_len r \<le> FEC_MAX_PAYLOAD"

lemma resilience_init_ok: "resilience_ok resilience_init"
  by (simp add: resilience_ok_def resilience_init_def resilience_zero_def path_metrics_zero_def path_ok_def)

lemma path_update_ok:
  assumes "resilience_ok r" and "\<And>p. path_ok p \<Longrightarrow> path_ok (f p)" and "i < RESILIENCE_MAX_PATHS"
  shows "resilience_ok (path_update i f r)"
proof -
  have "path_ok (paths r ! i)" using assms by (simp add: resilience_ok_def)
  with assms show ?thesis
    by (auto simp: resilience_ok_def path_update_def dest!: set_update_subset_insert [THEN subsetD])
qed

lemma path_ok_simps [simp]:
  "path_ok (window_put b p) = path_ok p"
  "path_ok (update_loss_rate p) = path_ok p"
  "path_ok (record_rtt rtt p) = path_ok p"
  "path_ok (loss_state p) = path_ok p"
  "path_ok (p\<lparr>path_state := s\<rparr>) = path_ok p"
  "path_ok (p\<lparr>packets_sent := n\<rparr>) = path_ok p"
  "path_ok (p\<lparr>packets_recv := n\<rparr>) = path_ok p"
  "path_ok (p\<lparr>packets_lost := n\<rparr>) = path_ok p"
  by (simp_all add: path_ok_def window_put_def update_loss_rate_def record_rtt_def loss_state_def Let_def)

lemma resilience_record_ok:
  assumes "resilience_ok r"
  shows "resilience_ok (resilience_record_tx r i)" "resilience_ok (resilience_record_rx r i rtt)"
    "resilience_ok (resilience_record_loss r i)"
  using assms
  by (auto simp: resilience_record_tx_def resilience_record_rx_def resilience_record_loss_def
      intro!: path_update_ok)

section \<open>The loss rate is the share of losses among the last 64 outcomes\<close>

text \<open>
  The outcomes of a path, oldest first: \<open>True\<close> for a loss, \<open>False\<close> for a packet received.
\<close>

definition record_outcome :: "nat \<Rightarrow> bool \<Rightarrow> resilience \<Rightarrow> resilience" where
  "record_outcome i lost r = (if lost then resilience_record_loss r i else resilience_record_rx r i 0)"

definition last_outcomes :: "bool list \<Rightarrow> bool list" where
  "last_outcomes h = drop (length h - RESILIENCE_LOSS_WINDOW) h"

definition outcome_byte :: "bool \<Rightarrow> u8" where
  "outcome_byte b = (if b then 1 else 0)"

definition window_inv :: "bool list \<Rightarrow> path_metrics \<Rightarrow> bool" where
  "window_inv h p \<longleftrightarrow> length (loss_window p) = RESILIENCE_LOSS_WINDOW \<and>
     loss_window_pos p = of_nat (length h) \<and>
     (\<forall>j < RESILIENCE_LOSS_WINDOW. length h \<le> j \<longrightarrow> loss_window p ! j = 0) \<and>
     (\<forall>k < length h. length h \<le> k + RESILIENCE_LOSS_WINDOW \<longrightarrow>
        loss_window p ! (k mod RESILIENCE_LOSS_WINDOW) = outcome_byte (h ! k))"

lemma window_pos: "unat ((of_nat n :: u32) mod 64) = n mod RESILIENCE_LOSS_WINDOW"
  by (simp add: unat_mod unat_of_nat mod_mod_cancel)

lemma window_inv_put:
  assumes inv: "window_inv h p"
  shows "window_inv (h @ [b]) (window_put (outcome_byte b) p)"
proof -
  let ?n = "length h"
  have l: "length (loss_window p) = 64" and pos: "unat (loss_window_pos p mod 64) = ?n mod 64"
    using inv window_pos [of ?n] by (simp_all add: window_inv_def)
  have "k mod 64 \<noteq> ?n mod 64" if "k < ?n" "Suc ?n \<le> k + 64" for k
    using mod_inj_window [of k 64 ?n k] that by auto
  then show ?thesis
    using inv l pos
    by (auto simp: window_inv_def window_put_def nth_append nth_list_update less_Suc_eq) blast
qed

lemma window_lost_count:
  assumes inv: "window_inv h p"
  shows "length (filter (\<lambda>b. b \<noteq> 0) (loss_window p)) = length (filter (\<lambda>a. a) (last_outcomes h))"
proof -
  let ?n = "length h" and ?w = "loss_window p"
  let ?K = "{k. ?n - 64 \<le> k \<and> k < ?n \<and> h ! k}"
  have l: "length ?w = 64" using inv by (simp add: window_inv_def)
  have val: "?w ! (k mod 64) \<noteq> 0 \<longleftrightarrow> h ! k" if "?n - 64 \<le> k" "k < ?n" for k
    using inv that by (simp add: window_inv_def outcome_byte_def)
  have "\<exists>k \<in> ?K. j = k mod 64" if "j < 64" "?w ! j \<noteq> 0" for j
  proof -
    have jn: "j < ?n" using inv that by (auto simp: window_inv_def)
    define k where "k = j + 64 * ((?n - 1 - j) div 64)"
    have "k < ?n" "?n - 64 \<le> k" "k mod 64 = j"
      using jn that(1) unfolding k_def by simp_all
    then show ?thesis using val that by blast
  qed
  then have "{j. j < length ?w \<and> ?w ! j \<noteq> 0} = (\<lambda>k. k mod 64) ` ?K"
    using val l by (auto simp: image_iff)
  moreover have "inj_on (\<lambda>k. k mod 64) ?K"
    by (rule inj_onI) (rule mod_inj_window [where a = "?n - 64" and n = 64], auto)
  ultimately have "length (filter (\<lambda>b. b \<noteq> 0) ?w) = card ?K"
    by (simp add: length_filter_conv_card card_image)
  also have "?K = (\<lambda>i. ?n - 64 + i) ` {i. i < length (last_outcomes h) \<and> last_outcomes h ! i}"
  proof (intro equalityI subsetI)
    fix k assume "k \<in> ?K"
    then show "k \<in> (\<lambda>i. ?n - 64 + i) ` {i. i < length (last_outcomes h) \<and> last_outcomes h ! i}"
      by (intro image_eqI [of _ _ "k - (?n - 64)"]) (auto simp: last_outcomes_def)
  qed (auto simp: last_outcomes_def)
  also have "card \<dots> = length (filter (\<lambda>a. a) (last_outcomes h))"
    by (simp add: card_image length_filter_conv_card)
  finally show ?thesis .
qed

lemma record_outcome_path:
  assumes "i < length (paths r)" "length (paths r) = RESILIENCE_MAX_PATHS" "window_inv h (paths r ! i)"
  shows "window_inv (h @ [b]) (paths (record_outcome i b r) ! i) \<and>
    length (paths (record_outcome i b r)) = RESILIENCE_MAX_PATHS \<and>
    loss_rate (paths (record_outcome i b r) ! i) = of_nat (length (filter (\<lambda>a. a) (last_outcomes (h @ [b])))) / 64"
proof -
  have w: "window_inv h (p\<lparr>packets_recv := n\<rparr>) = window_inv h p"
    "window_inv h (p\<lparr>packets_lost := n\<rparr>) = window_inv h p"
    "window_inv h (p\<lparr>path_state := st\<rparr>) = window_inv h p"
    "window_inv h (update_loss_rate p) = window_inv h p"
    "window_inv h (record_rtt 0 p) = window_inv h p"
    "window_inv h (loss_state p) = window_inv h p" for h n st p
    by (simp_all add: window_inv_def update_loss_rate_def record_rtt_def loss_state_def Let_def)
  have lr: "loss_rate (update_loss_rate p) = of_nat (length (filter (\<lambda>a. a) (last_outcomes h))) / 64"
    if "window_inv h p" for h p
    using that window_lost_count [OF that] by (simp add: update_loss_rate_def window_inv_def Let_def)
  have "loss_rate (loss_state p) = loss_rate p" "loss_rate (record_rtt 0 p) = loss_rate p" for p
    by (simp_all add: loss_state_def record_rtt_def Let_def)
  with assms show ?thesis
    using window_inv_put [of h _ b] w lr
    by (cases b) (simp_all add: record_outcome_def resilience_record_loss_def resilience_record_rx_def
        path_update_def outcome_byte_def)
qed

lemma loss_rate_history:
  assumes "i < RESILIENCE_MAX_PATHS"
  shows "let r = fold (record_outcome i) h resilience_init in
    window_inv h (paths r ! i) \<and> length (paths r) = RESILIENCE_MAX_PATHS \<and>
    loss_rate (paths r ! i) = of_nat (length (filter (\<lambda>a. a) (last_outcomes h))) / 64"
proof (induction h rule: rev_induct)
  case Nil
  have "paths resilience_init ! i = path_metrics_zero"
    using assms by (simp add: resilience_init_def resilience_zero_def path_metrics_zero_def nth_replicate del: replicate.simps)
  then show ?case
    by (simp add: window_inv_def path_metrics_zero_def last_outcomes_def)
      (simp add: resilience_init_def resilience_zero_def)
next
  case (snoc b h)
  then show ?case using record_outcome_path [of i _ h b] assms by (simp add: Let_def)
qed

section \<open>Path selection and the silence timer\<close>

lemma select_fold:
  assumes "fold (select_step r) is (b, l) = (b', l')" and "l = loss_rate (paths r ! b)"
  shows "l' = loss_rate (paths r ! b') \<and> l' \<le> l \<and>
    (b' = b \<or> b' \<in> set is \<and> path_state (paths r ! b') = PATH_ACTIVE) \<and>
    (\<forall>i \<in> set is. path_state (paths r ! i) = PATH_ACTIVE \<longrightarrow> l' \<le> loss_rate (paths r ! i))"
  using assms
proof (induction "is" arbitrary: b l)
  case (Cons i "is")
  obtain b1 l1 where s: "select_step r i (b, l) = (b1, l1)" by fastforce
  then have "l1 = loss_rate (paths r ! b1)" "l1 \<le> l"
    "b1 = b \<or> b1 = i \<and> path_state (paths r ! i) = PATH_ACTIVE"
    "path_state (paths r ! i) = PATH_ACTIVE \<longrightarrow> l1 \<le> loss_rate (paths r ! i)"
    using Cons.prems(2) by (auto simp: select_step_def split: if_splits)
  with Cons.IH [of b1 l1] Cons.prems s show ?case by auto
qed simp

lemma select_path_best:
  assumes "multipath_enabled r" and "path_count r > 0"
  shows "let b = resilience_select_path r in
    (b = active_path r \<or> b < path_count r \<and> path_state (paths r ! b) = PATH_ACTIVE) \<and>
    loss_rate (paths r ! b) \<le> loss_rate (paths r ! active_path r) \<and>
    (\<forall>i < path_count r. path_state (paths r ! i) = PATH_ACTIVE \<longrightarrow>
       loss_rate (paths r ! b) \<le> loss_rate (paths r ! i))"
proof -
  let ?i = "(active_path r, loss_rate (paths r ! active_path r))"
  obtain b l where f: "fold (select_step r) [0..<path_count r] ?i = (b, l)" by fastforce
  then show ?thesis
    using select_fold [OF f refl] assms by (auto simp: resilience_select_path_def Let_def)
qed

text \<open>How bad a path state is; the timer only ever makes it worse.\<close>

primrec badness :: "path_state \<Rightarrow> nat" where
  "badness PATH_UNKNOWN = 0"
| "badness PATH_ACTIVE = 1"
| "badness PATH_DEGRADED = 2"
| "badness PATH_DOWN = 3"

lemma tick_path_paths [simp]: "tick_path now (r\<lparr>paths := ps\<rparr>) p = tick_path now r p"
  by (simp add: tick_path_def)

lemma tick_fold:
  "n \<le> length (paths r) \<Longrightarrow> fold (tick_step now) [0..<n] (0, r) =
     (if \<exists>i < n. fst (tick_path now r (paths r ! i)) then 1 else 0,
      r\<lparr>paths := map (\<lambda>p. snd (tick_path now r p)) (take n (paths r)) @ drop n (paths r)\<rparr>)"
proof (induction n)
  case (Suc n)
  then have "drop n (paths r) = paths r ! n # drop (Suc n) (paths r)"
    and "take (Suc n) (paths r) = take n (paths r) @ [paths r ! n]"
    by (simp_all add: Cons_nth_drop_Suc take_Suc_conv_app_nth)
  with Suc show ?case
    by (auto simp: tick_step_def split_beta Let_def nth_append list_update_append less_Suc_eq)
qed simp

lemma resilience_tick_spec:
  assumes "resilience_ok r"
  shows "resilience_tick r now =
     (if \<exists>i < path_count r. fst (tick_path now r (paths r ! i)) then 1 else 0,
      r\<lparr>paths := map (\<lambda>p. snd (tick_path now r p)) (take (path_count r) (paths r)) @
                  drop (path_count r) (paths r)\<rparr>)"
  using assms tick_fold [of "path_count r" r now] by (simp add: resilience_tick_def resilience_ok_def)

lemma resilience_tick_ok:
  assumes "resilience_ok r"
  shows "resilience_ok (snd (resilience_tick r now))"
proof -
  have "path_ok (snd (tick_path now r p)) = path_ok p" for p
    by (simp add: tick_path_def Let_def)
  then show ?thesis
    using assms unfolding resilience_tick_spec [OF assms]
    by (auto simp: resilience_ok_def dest!: in_set_takeD in_set_dropD)
qed

lemma tick_path_worse:
  "badness (path_state p) \<le> badness (path_state (snd (tick_path now r p))) \<and>
   (fst (tick_path now r p) \<longleftrightarrow> path_state (snd (tick_path now r p)) \<noteq> path_state p)"
  by (cases "path_state p") (simp_all add: tick_path_def Let_def)

section \<open>The round-trip estimate\<close>

text \<open>
  The smoothed estimate stays between the smallest and the largest sample as long as the
  samples are far enough below 2^64 for \<open>prev * 7 + rtt_ns\<close> not to wrap.
\<close>

definition rtt_inv :: "path_metrics \<Rightarrow> bool" where
  "rtt_inv p \<longleftrightarrow> rtt_max_ns p < 2 ^ 61 \<and> (rtt_ns p = 0 \<and> rtt_min_ns p = 0 \<or>
     0 < rtt_min_ns p \<and> rtt_min_ns p \<le> rtt_ns p \<and> rtt_ns p \<le> rtt_max_ns p)"

lemma rtt_average:
  fixes a b :: u64
  assumes "a < 2 ^ 61" "b < 2 ^ 61"
  shows "unat ((a * 7 + b) div 8) = (unat a * 7 + unat b) div 8"
proof -
  have "unat a < 2 ^ 61" "unat b < 2 ^ 61"
    using assms by (simp_all add: word_less_nat_alt)
  then show ?thesis by (simp add: unat_div unat_word_ariths)
qed

lemma record_rtt_inv:
  assumes inv: "rtt_inv p" and "rtt < 2 ^ 61"
  shows "rtt_inv (record_rtt rtt p)"
proof (cases "rtt = 0 \<or> rtt_ns p = 0")
  case True
  then show ?thesis using assms
    by (auto simp: rtt_inv_def record_rtt_def Let_def word_neq_0_conv)
next
  case False
  let ?a = "(rtt_ns p * 7 + rtt) div 8"
  have b: "0 < rtt_min_ns p" "rtt_min_ns p \<le> rtt_ns p" "rtt_ns p \<le> rtt_max_ns p" "rtt_max_ns p < 2 ^ 61"
    using inv False by (auto simp: rtt_inv_def)
  then have "rtt_ns p < 2 ^ 61" by order
  note a = rtt_average [OF this assms(2)]
  have "?a \<le> (if rtt > rtt_max_ns p then rtt else rtt_max_ns p)"
    using b a unfolding word_le_nat_alt word_less_nat_alt by auto
  moreover have "(if rtt < rtt_min_ns p then rtt else rtt_min_ns p) \<le> ?a"
    using b a unfolding word_le_nat_alt word_less_nat_alt by auto
  ultimately show ?thesis using b False assms(2)
    by (auto simp: rtt_inv_def record_rtt_def Let_def word_neq_0_conv)
qed

text \<open>Jitter starts at 0 and no sample changes that.\<close>

lemma record_rtt_jitter: "jitter_ns p = 0 \<Longrightarrow> jitter_ns (record_rtt rtt p) = 0"
  by (simp add: record_rtt_def Let_def)

section \<open>Properties\<close>

text \<open>
  The loss rate of a path is exactly the share of losses among its last 64 outcomes: after
  any history of received and lost packets from initialisation, it is the number of losses in
  the last 64 of them, divided by 64.
\<close>

theorem loss_rate_exact:
  assumes "i < RESILIENCE_MAX_PATHS"
  shows "loss_rate (paths (fold (record_outcome i) h resilience_init) ! i) =
    of_nat (length (filter (\<lambda>a. a) (last_outcomes h))) / 64"
  using loss_rate_history [OF assms, of h] by (simp add: Let_def)

theorem loss_rate_exact_witness:
  "loss_rate (paths (fold (record_outcome 2) (replicate 70 True @ replicate 40 False) resilience_init) ! 2) = 24 / 64"
proof -
  have "length (filter (\<lambda>a. a) (last_outcomes (replicate 70 True @ replicate 40 False))) = 24"
    by (simp add: last_outcomes_def)
  then show ?thesis
    using loss_rate_exact [of 2 "replicate 70 True @ replicate 40 False"] by simp
qed

text \<open>
  Path selection is optimal: with multipath enabled the selected path is the active one
  or an ACTIVE path within range, and no ACTIVE path, nor the active one, has a lower loss
  rate.
\<close>

theorem select_path_optimal:
  assumes "multipath_enabled r" and "path_count r > 0"
  shows "(resilience_select_path r = active_path r \<or> resilience_select_path r < path_count r \<and>
      path_state (paths r ! resilience_select_path r) = PATH_ACTIVE) \<and>
    loss_rate (paths r ! resilience_select_path r) \<le> loss_rate (paths r ! active_path r) \<and>
    (\<forall>i < path_count r. path_state (paths r ! i) = PATH_ACTIVE \<longrightarrow>
       loss_rate (paths r ! resilience_select_path r) \<le> loss_rate (paths r ! i))"
  using select_path_best [OF assms] by (simp add: Let_def)

definition resilience_sample :: resilience where
  "resilience_sample = resilience_init\<lparr>multipath_enabled := True, path_count := 2, paths :=
     [path_metrics_zero\<lparr>path_state := PATH_DEGRADED, loss_rate := 1 / 2\<rparr>,
      path_metrics_zero\<lparr>path_state := PATH_ACTIVE, loss_rate := 1 / 4\<rparr>,
      path_metrics_zero, path_metrics_zero]\<rparr>"

theorem select_path_optimal_witness:
  "resilience_select_path resilience_sample = 1 \<and>
   loss_rate (paths resilience_sample ! resilience_select_path resilience_sample) \<le>
     loss_rate (paths resilience_sample ! active_path resilience_sample)"
proof -
  have h: "multipath_enabled resilience_sample" "path_count resilience_sample > 0"
    by (simp_all add: resilience_sample_def)
  have "resilience_select_path resilience_sample = 1"
    by (simp add: resilience_select_path_def resilience_sample_def resilience_init_def resilience_zero_def
        select_step_def upt_rec)
  then show ?thesis using select_path_optimal [OF h] by blast
qed

end
