(* ===== verification/Fec.thy ===== *)
theory Fec
  imports Resilience_Ctx "HOL-Library.Monad_Syntax"
begin

text \<open>
  The XOR forward error correction of \<open>lib/core/resilience_ctx.c\<close>. The transmit side folds a
  group of payloads into a parity packet; the receive side keeps the payloads of the current
  group and rebuilds one missing payload from the parity. \<open>None\<close> marks an access outside an
  array of the structure, where the C code has undefined behaviour.
\<close>

section \<open>Operations\<close>

text \<open>\<open>for (i = 0; i < len && i < MAX; i++) buf[i] ^= payload[i]\<close>.\<close>

fun xor_into :: "bytes \<Rightarrow> bytes \<Rightarrow> bytes" where
  "xor_into (b # bs) (p # ps) = (b XOR p) # xor_into bs ps"
| "xor_into bs [] = bs"
| "xor_into [] ps = []"

text \<open>\<open>for (i = 0; i < fec_group_size; i++) fec_buf_lens[i] = 0\<close>.\<close>

definition fec_clear_lens :: "resilience \<Rightarrow> resilience option" where
  "fec_clear_lens r =
     (if fec_group_size r > RESILIENCE_FEC_GROUP then None
      else Some (r\<lparr>fec_buf_lens := replicate (fec_group_size r) 0 @ drop (fec_group_size r) (fec_buf_lens r)\<rparr>))"

text \<open>The stores of one payload into slot \<open>pos\<close>, shared by both directions.\<close>

definition fec_store_slot :: "nat \<Rightarrow> bytes \<Rightarrow> resilience \<Rightarrow> resilience option" where
  "fec_store_slot pos payload r =
     (if pos \<ge> RESILIENCE_FEC_GROUP then None
      else let n = min (length payload) FEC_MAX_PAYLOAD in
        Some (r\<lparr>fec_buf_ptrs := (fec_buf_ptrs r)[pos := mem_write 0 (take n payload) (fec_buf_ptrs r ! pos)],
                fec_buf_lens := (fec_buf_lens r)[pos := n]\<rparr>))"

text \<open>
  The result is the status, the bytes written to \<open>parity_out\<close> (of length \<open>*parity_len\<close>) and
  the new state; \<open>*group_complete\<close> is 1 exactly when the status is.
\<close>

definition fec_tx_accumulate :: "resilience \<Rightarrow> bytes \<Rightarrow> u32 \<Rightarrow> u8 \<Rightarrow> (int \<times> bytes \<times> resilience) option" where
  "fec_tx_accumulate r payload seq channel_id =
     (if \<not> fec_enabled r \<or> fec_group_size r = 0 then Some (0, [], r)
      else do {
        r1 \<leftarrow> (if fec_group_pos r = 0
               then fec_clear_lens (r\<lparr>fec_group_start_seq := seq, fec_channel_id := channel_id,
                      fec_parity_len := 0, fec_parity_buf := replicate FEC_MAX_PAYLOAD 0\<rparr>)
               else Some r);
        r2 \<leftarrow> fec_store_slot (fec_group_pos r1) payload r1;
        let r3 = r2\<lparr>fec_parity_buf := xor_into (fec_parity_buf r2) payload,
                     fec_parity_len := max (fec_parity_len r2) (length payload),
                     fec_group_pos := fec_group_pos r2 + 1\<rparr>;
        if fec_group_pos r3 \<ge> fec_group_size r3
        then (if fec_parity_len r3 > FEC_MAX_PAYLOAD then None
              else do {
                let out = le_bytes 4 (fec_group_start_seq r3) @ [of_nat (fec_group_size r3), channel_id] @
                          take (fec_parity_len r3) (fec_parity_buf r3);
                r4 \<leftarrow> fec_clear_lens r3;
                Some (1, out, r4\<lparr>fec_group_pos := 0\<rparr>)
              })
        else Some (0, [], r3)
      })"

definition fec_rx_track :: "resilience \<Rightarrow> u32 \<Rightarrow> bytes \<Rightarrow> resilience option" where
  "fec_rx_track r seq payload =
     (if \<not> fec_enabled r \<or> fec_group_size r = 0 then Some r
      else let group_pos = unat seq mod fec_group_size r in do {
        r1 \<leftarrow> fec_store_slot group_pos payload r;
        Some (r1\<lparr>fec_rx_seqs := (fec_rx_seqs r1)[group_pos := seq]\<rparr>)
      })"

definition fec_rx_store_parity :: "resilience \<Rightarrow> bytes \<Rightarrow> resilience" where
  "fec_rx_store_parity r wire =
     (if length wire < 6 then r
      else let plen = min (length wire - 6) FEC_MAX_PAYLOAD in
        r\<lparr>fec_rx_group_start_seq := le_word (mem_read 0 4 wire),
          fec_rx_group_size := unat (wire ! 4), fec_rx_channel_id := wire ! 5,
          fec_rx_parity_len := plen,
          fec_rx_parity := mem_write 0 (mem_read 6 plen wire) (fec_rx_parity r),
          fec_rx_have_parity := True\<rparr>)"

definition fec_rx_clear_group :: "resilience \<Rightarrow> resilience" where
  "fec_rx_clear_group r = r\<lparr>fec_rx_have_parity := False, fec_rx_group_size := 0,
     fec_buf_lens := replicate RESILIENCE_FEC_GROUP 0, fec_rx_seqs := replicate RESILIENCE_FEC_GROUP 0\<rparr>"

text \<open>The first loop of \<open>fec_rx_rebuild\<close>: slots filled, last empty slot, foreign data seen.\<close>

definition fec_scan_slot :: "resilience \<Rightarrow> nat \<Rightarrow> nat \<times> nat \<times> bool \<Rightarrow> nat \<times> nat \<times> bool" where
  "fec_scan_slot r i acc =
     (let (filled, empty_slot, foreign) = acc;
          expected_seq = fec_rx_group_start_seq r + of_nat i
      in if fec_buf_lens r ! i > 0 \<and> fec_rx_seqs r ! i = expected_seq then (filled + 1, empty_slot, foreign)
         else if fec_buf_lens r ! i = 0 then (filled, i, foreign)
         else (filled, empty_slot, True))"

definition fec_xor_slot :: "resilience \<Rightarrow> nat \<Rightarrow> nat \<Rightarrow> bytes \<Rightarrow> bytes" where
  "fec_xor_slot r empty_slot i out =
     (if i = empty_slot \<or> fec_buf_lens r ! i = 0 then out
      else if fec_rx_seqs r ! i \<noteq> fec_rx_group_start_seq r + of_nat i then out
      else let xlen = min (fec_buf_lens r ! i) (fec_rx_parity_len r)
           in xor_into out (take xlen (fec_buf_ptrs r ! i)))"

text \<open>The payload written to \<open>out_payload\<close> has length \<open>*out_len\<close>; it is empty unless the status is 1.\<close>

definition fec_rx_rebuild :: "resilience \<Rightarrow> (int \<times> bytes \<times> u32 \<times> resilience) option" where
  "fec_rx_rebuild r =
     (if \<not> fec_rx_have_parity r \<or> fec_rx_group_size r = 0 then Some (0, [], 0, r)
      else if fec_rx_group_size r > RESILIENCE_FEC_GROUP then None
      else
        let gs = fec_rx_group_size r;
            (filled, empty_slot, foreign) = fold (fec_scan_slot r) [0..<gs] (0, 0, False)
        in if filled = gs then Some (0, [], 0, fec_rx_clear_group r)
           else if filled \<noteq> gs - 1 \<or> foreign then Some (0, [], 0, r)
           else
             let out = fold (fec_xor_slot r empty_slot) [0..<gs] (take (fec_rx_parity_len r) (fec_rx_parity r))
             in Some (1, out, fec_rx_group_start_seq r + of_nat empty_slot, fec_rx_clear_group r))"

section \<open>XOR of payloads\<close>

definition byte_at :: "bytes \<Rightarrow> nat \<Rightarrow> u8" where
  "byte_at p j = (if j < length p then p ! j else 0)"

text \<open>A payload cut or padded with zeros to a given length.\<close>

definition zero_pad :: "nat \<Rightarrow> bytes \<Rightarrow> bytes" where
  "zero_pad n p = map (byte_at p) [0..<n]"

definition xor_bytes :: "(nat \<Rightarrow> u8) \<Rightarrow> nat list \<Rightarrow> u8" where
  "xor_bytes f is = foldr (\<lambda>i a. f i XOR a) is 0"

definition max_len :: "bytes list \<Rightarrow> nat" where
  "max_len ps = foldr (\<lambda>p a. max (length p) a) ps 0"

lemma length_xor_into [simp]: "length (xor_into b p) = length b"
  by (induction b p rule: xor_into.induct) auto

lemma nth_xor_into: "j < length b \<Longrightarrow> xor_into b p ! j = b ! j XOR byte_at p j"
  by (induction b p arbitrary: j rule: xor_into.induct) (auto simp: byte_at_def nth_Cons split: nat.split)

lemma length_fold_xor [simp]: "length (fold (\<lambda>i b. xor_into b (f i)) is b) = length b"
  by (induction "is" arbitrary: b) auto

lemma xor_bytes_simps [simp]:
  "xor_bytes f [] = 0"
  "xor_bytes f (i # is) = f i XOR xor_bytes f is"
  "xor_bytes f (is @ js) = xor_bytes f is XOR xor_bytes f js"
  by (induction "is") (simp_all add: xor_bytes_def ac_simps)

lemma nth_fold_xor:
  "j < length b \<Longrightarrow> fold (\<lambda>i b. xor_into b (f i)) is b ! j = b ! j XOR xor_bytes (\<lambda>i. byte_at (f i) j) is"
  by (induction "is" arbitrary: b) (simp_all add: nth_xor_into ac_simps)

lemma xor_bytes_remove:
  "k \<in> set is \<Longrightarrow> xor_bytes f is = f k XOR xor_bytes f (remove1 k is)"
  by (induction "is") (auto simp: ac_simps)

lemma max_len_append [simp]: "max_len (ps @ [p]) = max (max_len ps) (length p)"
  by (induction ps) (auto simp: max_len_def)

lemma max_len_le: "(\<forall>p \<in> set ps. length p \<le> n) \<Longrightarrow> max_len ps \<le> n"
  by (induction ps) (auto simp: max_len_def)

lemma length_le_max_len: "p \<in> set ps \<Longrightarrow> length p \<le> max_len ps"
  by (induction ps) (auto simp: max_len_def)

section \<open>The transmit side\<close>

text \<open>
  \<open>parity_of ps\<close> is the parity buffer after a group \<open>ps\<close>; \<open>tx_group r s n ps\<close> says that the
  sender has collected \<open>ps\<close> of a group of \<open>n\<close> that started at sequence number \<open>s\<close>.
\<close>

definition parity_of :: "bytes list \<Rightarrow> bytes" where
  "parity_of ps = fold (\<lambda>i b. xor_into b (ps ! i)) [0..<length ps] (replicate FEC_MAX_PAYLOAD 0)"

definition parity_wire :: "u32 \<Rightarrow> u8 \<Rightarrow> bytes list \<Rightarrow> bytes" where
  "parity_wire s ch ps = le_bytes 4 s @ [of_nat (length ps), ch] @ take (max_len ps) (parity_of ps)"

definition tx_group :: "resilience \<Rightarrow> u32 \<Rightarrow> nat \<Rightarrow> bytes list \<Rightarrow> bool" where
  "tx_group r s n ps \<longleftrightarrow> fec_enabled r \<and> fec_group_size r = n \<and> n \<le> RESILIENCE_FEC_GROUP \<and>
     length ps < n \<and> fec_group_pos r = length ps \<and> length (fec_buf_lens r) = RESILIENCE_FEC_GROUP \<and>
     (ps \<noteq> [] \<longrightarrow> fec_group_start_seq r = s \<and> fec_parity_buf r = parity_of ps \<and>
        fec_parity_len r = max_len ps)"

lemma parity_of_Nil [simp]: "parity_of [] = replicate FEC_MAX_PAYLOAD 0"
  by (simp add: parity_of_def)

lemma parity_of_snoc: "parity_of (ps @ [p]) = xor_into (parity_of ps) p"
proof -
  have "fold (\<lambda>i b. xor_into b ((ps @ [p]) ! i)) [0..<length ps] z =
        fold (\<lambda>i b. xor_into b (ps ! i)) [0..<length ps] z" for z
    by (rule fold_cong) (auto simp: nth_append)
  then show ?thesis by (simp add: parity_of_def)
qed

lemma length_parity_of [simp]: "length (parity_of ps) = FEC_MAX_PAYLOAD"
  by (simp add: parity_of_def)

lemma nth_parity_of:
  "j < FEC_MAX_PAYLOAD \<Longrightarrow> parity_of ps ! j = xor_bytes (\<lambda>i. byte_at (ps ! i) j) [0..<length ps]"
  by (simp add: parity_of_def nth_fold_xor)

lemma fec_tx_accumulate_step:
  assumes g: "tx_group r s n ps" and p: "length p \<le> FEC_MAX_PAYLOAD" "\<forall>q \<in> set ps. length q \<le> FEC_MAX_PAYLOAD"
    and seq: "seq = s + of_nat (length ps)"
  shows "\<exists>r'. fec_tx_accumulate r p seq ch =
      Some (if length ps + 1 < n then (0, [], r') else (1, parity_wire s ch (ps @ [p]), r')) \<and>
    tx_group r' s n (if length ps + 1 < n then ps @ [p] else [])"
proof -
  have m: "max_len (ps @ [p]) \<le> FEC_MAX_PAYLOAD" using p max_len_le [of "ps @ [p]"] by auto
  have d: "fec_enabled r" "fec_group_size r = n" "0 < n" "n \<le> RESILIENCE_FEC_GROUP" "length ps < n"
    "fec_group_pos r = length ps" "length (fec_buf_lens r) = RESILIENCE_FEC_GROUP"
    using g by (auto simp: tx_group_def)
  note defs = fec_tx_accumulate_def fec_clear_lens_def fec_store_slot_def Let_def parity_wire_def
    parity_of_snoc tx_group_def
  show ?thesis
  proof (cases "ps = []")
    case True
    then show ?thesis using d m p seq by (auto simp: defs max_len_def le_Suc_eq parity_of_snoc [of "[]", simplified])
  next
    case False
    then show ?thesis using g d m p seq by (auto simp: defs le_Suc_eq)
  qed
qed

section \<open>The receive side\<close>

text \<open>
  \<open>rx_holds r s ps k\<close>: the receiver has the parity of the group \<open>ps\<close> that starts at \<open>s\<close> and every
  payload of it but number \<open>k\<close>.
\<close>

definition slot_holds :: "resilience \<Rightarrow> u32 \<Rightarrow> nat \<Rightarrow> bytes \<Rightarrow> bool" where
  "slot_holds r s i p \<longleftrightarrow> fec_buf_lens r ! i = length p \<and> fec_rx_seqs r ! i = s + of_nat i \<and>
     take (length p) (fec_buf_ptrs r ! i) = p"

definition parity_holds :: "resilience \<Rightarrow> u32 \<Rightarrow> bytes list \<Rightarrow> bool" where
  "parity_holds r s ps \<longleftrightarrow> fec_rx_have_parity r \<and> fec_rx_group_size r = length ps \<and>
     fec_rx_group_start_seq r = s \<and> fec_rx_parity_len r = max_len ps \<and>
     take (max_len ps) (fec_rx_parity r) = take (max_len ps) (parity_of ps)"

definition rx_holds :: "resilience \<Rightarrow> u32 \<Rightarrow> bytes list \<Rightarrow> nat \<Rightarrow> bool" where
  "rx_holds r s ps k \<longleftrightarrow> parity_holds r s ps \<and> length ps \<le> RESILIENCE_FEC_GROUP \<and> k < length ps \<and>
     fec_buf_lens r ! k = 0 \<and> (\<forall>i < length ps. i \<noteq> k \<longrightarrow> slot_holds r s i (ps ! i))"

lemma fec_scan_fold:
  assumes "rx_holds r s ps k" and "\<forall>p \<in> set ps. p \<noteq> []" and "n \<le> length ps"
  shows "fold (fec_scan_slot r) [0..<n] (0, 0, False) = (if k < n then n - 1 else n, if k < n then k else 0, False)"
  using assms(3)
proof (induction n)
  case (Suc n)
  then have "ps ! n \<noteq> []" using assms(2) by simp
  with Suc assms(1) show ?case
    by (cases "n = k") (auto simp: fec_scan_slot_def rx_holds_def slot_holds_def parity_holds_def)
qed simp

lemma fec_xor_fold:
  assumes h: "rx_holds r s ps k" and ne: "\<forall>p \<in> set ps. p \<noteq> []" and "n \<le> length ps"
  shows "fold (fec_xor_slot r k) [0..<n] b = fold (\<lambda>i b. xor_into b (ps ! i)) (remove1 k [0..<n]) b"
  using assms(3)
proof (induction n)
  case (Suc n)
  have "fec_xor_slot r k n b = (if n = k then b else xor_into b (ps ! n))" for b
  proof (cases "n = k")
    case False
    then have "slot_holds r s n (ps ! n)" "fec_rx_group_start_seq r = s" "fec_rx_parity_len r = max_len ps"
      using h Suc.prems by (auto simp: rx_holds_def parity_holds_def)
    moreover have "ps ! n \<noteq> []" "length (ps ! n) \<le> max_len ps"
      using ne Suc.prems length_le_max_len [of "ps ! n" ps] by simp_all
    ultimately show ?thesis using False by (simp add: fec_xor_slot_def slot_holds_def)
  qed (simp add: fec_xor_slot_def)
  with Suc show ?case by (auto simp: remove1_append remove1_idem)
qed simp

lemma fec_rx_rebuild_correct:
  assumes h: "rx_holds r s ps k"
    and ne: "\<forall>p \<in> set ps. p \<noteq> [] \<and> length p \<le> FEC_MAX_PAYLOAD"
    and len: "length (fec_rx_parity r) = FEC_MAX_PAYLOAD"
  shows "fec_rx_rebuild r =
    Some (1, zero_pad (max_len ps) (ps ! k), s + of_nat k, fec_rx_clear_group r)"
proof -
  let ?n = "length ps" and ?m = "max_len ps" and ?is = "remove1 k [0..<length ps]"
  have k: "k < ?n" "?n \<le> RESILIENCE_FEC_GROUP" "fec_rx_have_parity r" "fec_rx_group_size r = ?n"
    "fec_rx_group_start_seq r = s" "fec_rx_parity_len r = ?m"
    and par: "take ?m (fec_rx_parity r) = take ?m (parity_of ps)"
    using h by (auto simp: rx_holds_def parity_holds_def)
  have m: "?m \<le> FEC_MAX_PAYLOAD" using ne max_len_le [of ps] by blast
  have ne': "\<forall>p \<in> set ps. p \<noteq> []" using ne by blast
  let ?out = "fold (\<lambda>i b. xor_into b (ps ! i)) ?is (take ?m (parity_of ps))"
  have "?out = zero_pad ?m (ps ! k)"
  proof (rule nth_equalityI)
    fix j assume "j < length ?out"
    then have j: "j < ?m" using m by simp
    have "xor_bytes (\<lambda>i. byte_at (ps ! i) j) [0..<?n] =
        byte_at (ps ! k) j XOR xor_bytes (\<lambda>i. byte_at (ps ! i) j) ?is"
      using k by (intro xor_bytes_remove) simp
    then show "?out ! j = zero_pad ?m (ps ! k) ! j"
      using j m by (simp add: nth_fold_xor nth_parity_of zero_pad_def xor.assoc)
  qed (use m in \<open>simp add: zero_pad_def\<close>)
  then show ?thesis
    using k fec_scan_fold [OF h ne' order_refl] fec_xor_fold [OF h ne' order_refl] par
    by (auto simp: fec_rx_rebuild_def Let_def)
qed

section \<open>A group end to end\<close>

text \<open>
  The sender passes a list of payloads with consecutive sequence numbers through
  \<open>fec_tx_accumulate\<close> and sends the parity packets it gets; the receiver tracks the payloads
  whose indices are in a list, in any order.
\<close>

fun fec_send :: "resilience \<Rightarrow> u32 \<Rightarrow> u8 \<Rightarrow> bytes list \<Rightarrow> (bytes list \<times> resilience) option" where
  "fec_send r seq ch [] = Some ([], r)"
| "fec_send r seq ch (p # ps) = do {
     (st, wire, r1) \<leftarrow> fec_tx_accumulate r p seq ch;
     (ws, r2) \<leftarrow> fec_send r1 (seq + 1) ch ps;
     Some ((if st = 1 then [wire] else []) @ ws, r2) }"

fun fec_receive :: "resilience \<Rightarrow> u32 \<Rightarrow> bytes list \<Rightarrow> nat list \<Rightarrow> resilience option" where
  "fec_receive r s ps [] = Some r"
| "fec_receive r s ps (i # is) = do {
     r1 \<leftarrow> fec_rx_track r (s + of_nat i) (ps ! i);
     fec_receive r1 s ps is }"

lemma fec_send_group:
  assumes "tx_group r s n qs" and "\<forall>q \<in> set (qs @ ps). length q \<le> FEC_MAX_PAYLOAD"
    and "length qs + length ps = n" and "ps \<noteq> []"
  shows "\<exists>r'. fec_send r (s + of_nat (length qs)) ch ps = Some ([parity_wire s ch (qs @ ps)], r') \<and>
    tx_group r' s n []"
  using assms
proof (induction ps arbitrary: r qs)
  case (Cons p ps)
  obtain r1 where r1: "fec_tx_accumulate r p (s + of_nat (length qs)) ch =
      Some (if length qs + 1 < n then (0, [], r1) else (1, parity_wire s ch (qs @ [p]), r1))"
    "tx_group r1 s n (if length qs + 1 < n then qs @ [p] else [])"
    using fec_tx_accumulate_step [OF Cons.prems(1), of p _ ch] Cons.prems(2) by auto
  show ?case
  proof (cases "ps = []")
    case True
    then show ?thesis using r1 Cons.prems(3) by simp
  next
    case False
    then have "length qs + 1 < n" using Cons.prems(3) by (cases ps) auto
    then show ?thesis
      using r1 Cons.IH [of r1 "qs @ [p]"] Cons.prems False by (auto simp: add_ac)
  qed
qed simp

definition rx_fresh :: "resilience \<Rightarrow> nat \<Rightarrow> bool" where
  "rx_fresh r n \<longleftrightarrow> resilience_ok r \<and> fec_enabled r \<and> fec_group_size r = n \<and> 0 < n \<and>
     n \<le> RESILIENCE_FEC_GROUP"

lemma fec_rx_track_slot:
  assumes f: "rx_fresh r n" and i: "i < n" and p: "length p \<le> FEC_MAX_PAYLOAD"
    and al: "unat s mod n = 0" "unat s + n \<le> 2 ^ 32"
  shows "\<exists>r'. fec_rx_track r (s + of_nat i) p = Some r' \<and> rx_fresh r' n \<and> slot_holds r' s i p \<and>
    (\<forall>j q. j \<noteq> i \<longrightarrow> slot_holds r' s j q = slot_holds r s j q \<and> fec_buf_lens r' ! j = fec_buf_lens r ! j)"
proof -
  have "unat (s + of_nat i) = unat s + i"
    using i al f by (simp add: unat_word_ariths unat_of_nat rx_fresh_def)
  then have pos: "unat (s + of_nat i) mod n = i"
    using i al(1) by (metis add.left_neutral mod_add_left_eq mod_less)
  have ok: "i < length (fec_buf_ptrs r)" "i < length (fec_buf_lens r)" "i < length (fec_rx_seqs r)"
    "length (fec_buf_ptrs r ! i) = FEC_MAX_PAYLOAD"
    using f i by (auto simp: rx_fresh_def resilience_ok_def)
  show ?thesis
    using f i p ok pos
    by (auto simp: fec_rx_track_def fec_store_slot_def Let_def rx_fresh_def resilience_ok_def
        slot_holds_def mem_write_def dest!: set_update_subset_insert [THEN subsetD])
qed

lemma fec_receive_slots:
  assumes "rx_fresh r n" and "set is \<subseteq> {..<n}" and "length ps = n"
    and "\<forall>p \<in> set ps. length p \<le> FEC_MAX_PAYLOAD" and "unat s mod n = 0" "unat s + n \<le> 2 ^ 32"
  shows "\<exists>r'. fec_receive r s ps is = Some r' \<and> rx_fresh r' n \<and>
    (\<forall>i \<in> set is. slot_holds r' s i (ps ! i)) \<and>
    (\<forall>j q. j \<notin> set is \<longrightarrow> slot_holds r' s j q = slot_holds r s j q \<and> fec_buf_lens r' ! j = fec_buf_lens r ! j)"
  using assms
proof (induction "is" arbitrary: r)
  case (Cons i "is")
  then obtain r1 where r1: "fec_rx_track r (s + of_nat i) (ps ! i) = Some r1" "rx_fresh r1 n"
    "slot_holds r1 s i (ps ! i)"
    "\<forall>j q. j \<noteq> i \<longrightarrow> slot_holds r1 s j q = slot_holds r s j q \<and> fec_buf_lens r1 ! j = fec_buf_lens r ! j"
    using fec_rx_track_slot [of r n i "ps ! i" s] by auto
  then obtain r' where r': "fec_receive r1 s ps is = Some r'" "rx_fresh r' n"
    "\<forall>i \<in> set is. slot_holds r' s i (ps ! i)"
    "\<forall>j q. j \<notin> set is \<longrightarrow> slot_holds r' s j q = slot_holds r1 s j q \<and> fec_buf_lens r' ! j = fec_buf_lens r1 ! j"
    using Cons.IH [of r1] Cons.prems by auto
  moreover have "slot_holds r' s i (ps ! i)" using r1 r' by (cases "i \<in> set is") auto
  ultimately show ?case using r1 by (intro exI [of _ r']) simp
qed simp

lemma fec_rx_store_parity_holds:
  assumes "rx_fresh r n" and "max_len ps \<le> FEC_MAX_PAYLOAD" and "length ps < 256"
  shows "parity_holds (fec_rx_store_parity r (parity_wire s ch ps)) s ps"
proof -
  have "mem_read 0 4 (parity_wire s ch ps) = le_bytes 4 s"
    "mem_read 6 (max_len ps) (parity_wire s ch ps) = take (max_len ps) (parity_of ps)"
    "parity_wire s ch ps ! 4 = of_nat (length ps)"
    "length (parity_wire s ch ps) = max_len ps + 6"
    using assms by (simp_all add: parity_wire_def mem_read_def nth_append)
  then show ?thesis using assms
    by (simp add: parity_holds_def fec_rx_store_parity_def Let_def wire_simps unat_of_nat mem_write_def)
qed

lemma fec_store_parity_slots [simp]:
  "slot_holds (fec_rx_store_parity r w) s i p = slot_holds r s i p"
  "fec_buf_lens (fec_rx_store_parity r w) = fec_buf_lens r"
  by (simp_all add: slot_holds_def fec_rx_store_parity_def Let_def)

lemma fec_group_recovers:
  assumes snd: "tx_group tx s n []" and rcv: "rx_fresh rx n" "\<forall>i < n. fec_buf_lens rx ! i = 0"
    and ps: "length ps = n" "\<forall>p \<in> set ps. p \<noteq> [] \<and> length p \<le> FEC_MAX_PAYLOAD"
    and got: "k < n" "set is = {..<n} - {k}"
    and al: "unat s mod n = 0" "unat s + n \<le> 2 ^ 32"
  shows "\<exists>w tx' rx' rx''. fec_send tx s ch ps = Some ([w], tx') \<and> fec_receive rx s ps is = Some rx' \<and>
    fec_rx_rebuild (fec_rx_store_parity rx' w) =
      Some (1, zero_pad (max_len ps) (ps ! k), s + of_nat k, rx'')"
proof -
  have "ps \<noteq> []" using ps got by auto
  then obtain tx' where tx': "fec_send tx s ch ps = Some ([parity_wire s ch ps], tx')"
    using fec_send_group [OF snd, of ps ch] ps by auto
  obtain rx' where rx': "fec_receive rx s ps is = Some rx'" "rx_fresh rx' n"
    "\<forall>i \<in> set is. slot_holds rx' s i (ps ! i)" "fec_buf_lens rx' ! k = 0"
    using fec_receive_slots [OF rcv(1), of "is" ps s] got ps al rcv(2) by auto
  let ?r = "fec_rx_store_parity rx' (parity_wire s ch ps)"
  have m: "max_len ps \<le> FEC_MAX_PAYLOAD" using ps(2) max_len_le [of ps] by blast
  have "rx_holds ?r s ps k"
    using rx' got ps fec_rx_store_parity_holds [OF rx'(2) m, of s ch]
    by (auto simp: rx_holds_def rx_fresh_def)
  moreover have "length (fec_rx_parity ?r) = FEC_MAX_PAYLOAD"
    using rx'(2) m by (simp add: fec_rx_store_parity_def Let_def rx_fresh_def resilience_ok_def mem_write_def
        parity_wire_def mem_read_def)
  ultimately show ?thesis using tx' rx'(1) fec_rx_rebuild_correct [of ?r s ps k] ps(2) by blast
qed

section \<open>The two directions share their slots\<close>

text \<open>
  \<open>fec_buf_ptrs\<close> and \<open>fec_buf_lens\<close> serve the sender and the receiver of the same session. A
  packet sent at the start of a transmit group clears the lengths of every slot, so a group
  that could be rebuilt before the transmission cannot be rebuilt after it.
\<close>

lemma fec_scan_le:
  "fold (fec_scan_slot r) is (a, b, f) = (a', b', f') \<Longrightarrow>
     a' \<le> a + length (filter (\<lambda>i. fec_buf_lens r ! i > 0) is)"
proof (induction "is" arbitrary: a b f)
  case (Cons i "is")
  obtain a1 b1 f1 where s: "fec_scan_slot r i (a, b, f) = (a1, b1, f1)" by (metis prod_cases3)
  then have "a1 \<le> a + (if fec_buf_lens r ! i > 0 then 1 else 0)"
    by (auto simp: fec_scan_slot_def Let_def split: if_splits)
  then show ?case using Cons.IH [of a1 b1 f1] Cons.prems s by auto
qed simp

lemma fec_tx_wipes_rx:
  assumes h: "rx_holds r s ps k" and n: "length ps = RESILIENCE_FEC_GROUP"
    and tx: "fec_enabled r" "fec_group_size r = RESILIENCE_FEC_GROUP" "fec_group_pos r = 0"
      "length (fec_buf_lens r) = RESILIENCE_FEC_GROUP"
  shows "\<exists>r'. fec_tx_accumulate r q seq ch = Some (0, [], r') \<and> fec_rx_rebuild r' = Some (0, [], 0, r')"
proof -
  define r' where "r' = r\<lparr>fec_group_start_seq := seq, fec_channel_id := ch,
    fec_parity_len := length q, fec_parity_buf := xor_into (replicate FEC_MAX_PAYLOAD 0) q,
    fec_buf_ptrs := (fec_buf_ptrs r)[0 := mem_write 0 (take (min (length q) FEC_MAX_PAYLOAD) q) (fec_buf_ptrs r ! 0)],
    fec_buf_lens := (replicate 4 0)[0 := min (length q) FEC_MAX_PAYLOAD], fec_group_pos := 1\<rparr>"
  have acc: "fec_tx_accumulate r q seq ch = Some (0, [], r')"
    using tx by (simp add: fec_tx_accumulate_def fec_clear_lens_def fec_store_slot_def Let_def r'_def)
  obtain a b f where sc: "fold (fec_scan_slot r') [0..<4] (0, 0, False) = (a, b, f)" by (metis prod_cases3)
  have "[0..<4] = [0, 1, 2, 3::nat]" by (simp add: upt_rec)
  then have "a \<le> 1" using fec_scan_le [OF sc] by (simp add: r'_def split: if_splits)
  moreover have "fec_rx_have_parity r'" "fec_rx_group_size r' = 4"
    using h n by (simp_all add: r'_def rx_holds_def parity_holds_def)
  ultimately have "fec_rx_rebuild r' = Some (0, [], 0, r')"
    using sc by (simp add: fec_rx_rebuild_def Let_def)
  then show ?thesis using acc by blast
qed

section \<open>Properties\<close>

text \<open>
  C23: Forward error correction recovers any single lost packet of a group. The sender passes
  the \<open>n\<close> payloads of a group through \<open>fec_tx_accumulate\<close>, which yields exactly one parity
  packet; a receiver that tracks all payloads but number \<open>k\<close>, in any order and with
  duplicates, and then stores the parity, rebuilds payload \<open>k\<close> with its sequence number, padded
  with zeros to the longest payload of the group. The group must start at a multiple of its
  size that leaves room below 2^32, as the receiver files packets by \<open>seq % group_size\<close>.
\<close>

theorem fec_recovers_single_loss:
  assumes "tx_group tx s n []" and "rx_fresh rx n" and "\<forall>i < n. fec_buf_lens rx ! i = 0"
    and "length ps = n" and "\<forall>p \<in> set ps. p \<noteq> [] \<and> length p \<le> FEC_MAX_PAYLOAD"
    and "k < n" and "set is = {..<n} - {k}" and "unat s mod n = 0" and "unat s + n \<le> 2 ^ 32"
  shows "\<exists>w tx' rx' rx''. fec_send tx s ch ps = Some ([w], tx') \<and> fec_receive rx s ps is = Some rx' \<and>
    fec_rx_rebuild (fec_rx_store_parity rx' w) =
      Some (1, zero_pad (max_len ps) (ps ! k), s + of_nat k, rx'')"
  using assms by (rule fec_group_recovers)

lemma fec_init_groups:
  "tx_group resilience_init s 4 []" "rx_fresh resilience_init 4"
  "\<forall>i < 4. fec_buf_lens resilience_init ! i = 0"
  using resilience_init_ok
  by (simp_all add: tx_group_def rx_fresh_def resilience_init_def resilience_zero_def nth_replicate del: replicate.simps)

theorem fec_recovers_single_loss_witness:
  "\<exists>w tx' rx' rx''. fec_send resilience_init 8 3 [[1], [2, 3], [4], [5, 6, 7]] = Some ([w], tx') \<and>
     fec_receive resilience_init 8 [[1], [2, 3], [4], [5, 6, 7]] [3, 0, 2, 0] = Some rx' \<and>
     fec_rx_rebuild (fec_rx_store_parity rx' w) = Some (1, [2, 3, 0], 9, rx'')"
proof -
  have "zero_pad (max_len [[1], [2, 3], [4], [5, 6, 7]]) ([[1], [2, 3], [4], [5, 6, 7]] ! 1) = [2, 3, 0]"
    by (simp add: zero_pad_def max_len_def byte_at_def upt_rec)
  moreover have "set [3, 0, 2, 0] = {..<4} - {1::nat}" by auto
  ultimately show ?thesis
    using fec_recovers_single_loss [OF fec_init_groups, of "[[1], [2, 3], [4], [5, 6, 7]]" 1 "[3, 0, 2, 0]" 8 3]
    by simp
qed

text \<open>
  The transmit and the receive side of one session share their slots, and this breaks
  recovery: if the receiver holds the parity and all payloads of a group but one, sending one
  packet that opens a transmit group makes the group unrecoverable.
\<close>

theorem fec_transmit_destroys_receive:
  assumes "rx_holds r s ps k" and "length ps = RESILIENCE_FEC_GROUP"
    and "fec_enabled r" "fec_group_size r = RESILIENCE_FEC_GROUP" "fec_group_pos r = 0"
    and "length (fec_buf_lens r) = RESILIENCE_FEC_GROUP"
  shows "\<exists>r'. fec_tx_accumulate r q sq ch = Some (0, [], r') \<and> fec_rx_rebuild r' = Some (0, [], 0, r')"
  using assms by (rule fec_tx_wipes_rx)

definition fec_rx_sample :: resilience where
  "fec_rx_sample = resilience_init\<lparr>fec_rx_have_parity := True, fec_rx_group_size := 4,
     fec_rx_group_start_seq := 8, fec_rx_parity_len := 1, fec_rx_parity := parity_of [[1], [2], [3], [4]],
     fec_buf_lens := [1, 0, 1, 1], fec_rx_seqs := [8, 0, 10, 11], fec_buf_ptrs := [[1], [0], [3], [4]]\<rparr>"

lemma fec_rx_sample_facts:
  "rx_holds fec_rx_sample 8 [[1], [2], [3], [4]] 1" "length [[1], [2], [3], [4::u8]] = RESILIENCE_FEC_GROUP"
  "fec_enabled fec_rx_sample" "fec_group_size fec_rx_sample = RESILIENCE_FEC_GROUP"
  "fec_group_pos fec_rx_sample = 0" "length (fec_buf_lens fec_rx_sample) = RESILIENCE_FEC_GROUP"
proof -
  show "rx_holds fec_rx_sample 8 [[1], [2], [3], [4]] 1"
    by (simp add: rx_holds_def parity_holds_def slot_holds_def fec_rx_sample_def max_len_def All_less_Suc)
qed (simp_all add: fec_rx_sample_def resilience_init_def)

theorem fec_transmit_destroys_receive_witness:
  "\<exists>r'. fec_tx_accumulate fec_rx_sample [42] 1 3 = Some (0, [], r') \<and> fec_rx_rebuild r' = Some (0, [], 0, r')"
  using fec_transmit_destroys_receive [OF fec_rx_sample_facts] .

end
