(* ===== verification/Packet_Pool.thy ===== *)
theory Packet_Pool
  imports Prelude
begin

text \<open>
  The packet buffers of \<open>lib/core/packet.h\<close> and their pool, \<open>lib/core/pool.c\<close>: a static array
  of buffers and a stack of free indices under an atomic \<open>top\<close>. A pointer into the pool is
  the index of its buffer. The first part treats the operations as atomic, which is how the
  single-threaded callers see them, and shows that they implement an allocator; the second
  part gives every atomic access its own step and exhibits an interleaving of two threads in
  which the allocator hands out a buffer twice.
\<close>

section \<open>Buffers and the pool\<close>

abbreviation MAX_PACKET_SIZE :: nat where
  "MAX_PACKET_SIZE \<equiv> 1500"

abbreviation PACKET_POOL_SIZE :: nat where
  "PACKET_POOL_SIZE \<equiv> 4096"

record packet_buf =
  addr :: bytes
  addr_len :: nat
  len :: nat
  data :: bytes

type_synonym buf_ptr = nat

record pool =
  pool_mem :: "buf_ptr \<Rightarrow> packet_buf"
  free_stack :: "buf_ptr list"
  top :: nat

text \<open>\<open>malloc\<close> leaves the buffers with arbitrary contents, given as the argument.\<close>

definition pool_init :: "(buf_ptr \<Rightarrow> packet_buf) \<Rightarrow> pool" where
  "pool_init mem = \<lparr>pool_mem = mem, free_stack = [0..<PACKET_POOL_SIZE], top = PACKET_POOL_SIZE\<rparr>"

definition pool_get :: "pool \<Rightarrow> buf_ptr option \<times> pool" where
  "pool_get p =
     (let t = top p in
      if t = 0 then (None, p)
      else let new_t = t - 1 in (Some (free_stack p ! new_t), p\<lparr>top := new_t\<rparr>))"

definition pool_return :: "buf_ptr \<Rightarrow> pool \<Rightarrow> pool" where
  "pool_return idx p =
     (let t = top p in
      if t \<ge> PACKET_POOL_SIZE then p
      else p\<lparr>free_stack := (free_stack p)[t := idx], top := t + 1\<rparr>)"

definition pool_free_count :: "pool \<Rightarrow> nat" where
  "pool_free_count p = top p"

text \<open>A store through a buffer pointer.\<close>

definition buf_update :: "buf_ptr \<Rightarrow> (packet_buf \<Rightarrow> packet_buf) \<Rightarrow> pool \<Rightarrow> pool" where
  "buf_update b f p = p\<lparr>pool_mem := (pool_mem p)(b := f (pool_mem p b))\<rparr>"

section \<open>Well-formedness\<close>

definition buf_ok :: "packet_buf \<Rightarrow> bool" where
  "buf_ok b \<longleftrightarrow> length (addr b) = 32 \<and> length (data b) = MAX_PACKET_SIZE"

definition free_bufs :: "pool \<Rightarrow> buf_ptr list" where
  "free_bufs p = take (top p) (free_stack p)"

definition pool_ok :: "pool \<Rightarrow> bool" where
  "pool_ok p \<longleftrightarrow> length (free_stack p) = PACKET_POOL_SIZE \<and> top p \<le> PACKET_POOL_SIZE \<and>
     distinct (free_bufs p) \<and> set (free_bufs p) \<subseteq> {..<PACKET_POOL_SIZE}"

section \<open>The allocator interface\<close>

text \<open>
  What a client may assume of the pool: a buffer it gets was free and is free no longer, a
  buffer it returns is free again, and nothing else changes hands.
\<close>

locale buffer_allocator =
  fixes get :: "'p \<Rightarrow> 'b option \<times> 'p"
    and give :: "'b \<Rightarrow> 'p \<Rightarrow> 'p"
    and free :: "'p \<Rightarrow> 'b set"
    and valid :: "'b set"
    and ok :: "'p \<Rightarrow> bool"
  assumes get_some: "\<lbrakk> ok p; free p \<noteq> {} \<rbrakk> \<Longrightarrow>
      \<exists>b p'. get p = (Some b, p') \<and> b \<in> free p \<and> free p' = free p - {b} \<and> ok p'"
    and get_none: "\<lbrakk> ok p; free p = {} \<rbrakk> \<Longrightarrow> get p = (None, p)"
    and give_free: "\<lbrakk> ok p; b \<in> valid; b \<notin> free p \<rbrakk> \<Longrightarrow> free (give b p) = insert b (free p) \<and> ok (give b p)"
    and free_valid: "ok p \<Longrightarrow> free p \<subseteq> valid"
begin

lemma get_SomeD:
  assumes "ok p" and "get p = (Some b, p')"
  shows "b \<in> free p \<and> free p' = free p - {b} \<and> ok p'"
  using assms get_some [of p] get_none [of p] by (cases "free p = {}") auto

lemma get_NoneD: "\<lbrakk> ok p; get p = (None, p') \<rbrakk> \<Longrightarrow> p' = p \<and> free p = {}"
  using get_some [of p] get_none [of p] by (cases "free p = {}") auto

lemma ok_get: "ok p \<Longrightarrow> ok (snd (get p))"
  by (metis get_SomeD get_NoneD option.exhaust prod.exhaust_sel)

lemma get_give:
  assumes "ok p" and "get p = (Some b, p')"
  shows "ok (give b p') \<and> free (give b p') = free p"
proof -
  have "b \<in> free p" "free p' = free p - {b}" "ok p'"
    using get_SomeD [OF assms] by simp_all
  then show ?thesis using give_free [of p' b] free_valid [OF assms(1)] by auto
qed

text \<open>Gets in a row hand out pairwise different buffers.\<close>

fun get_many :: "nat \<Rightarrow> 'p \<Rightarrow> 'b list \<times> 'p" where
  "get_many 0 p = ([], p)"
| "get_many (Suc n) p =
     (case get p of
        (None, p') \<Rightarrow> ([], p')
      | (Some b, p') \<Rightarrow> let (bs, p'') = get_many n p' in (b # bs, p''))"

lemma get_many_distinct:
  "\<lbrakk> ok p; get_many n p = (bs, p') \<rbrakk> \<Longrightarrow>
     distinct bs \<and> set bs \<subseteq> free p \<and> free p' = free p - set bs \<and> ok p'"
proof (induction n arbitrary: p bs p')
  case (Suc n)
  show ?case
  proof (cases "get p")
    case (Pair x p1)
    show ?thesis
    proof (cases x)
      case None
      then show ?thesis using Suc.prems Pair get_NoneD [of p p1] by auto
    next
      case (Some b)
      obtain bs1 p2 where r: "get_many n p1 = (bs1, p2)" by fastforce
      have "b \<in> free p" "free p1 = free p - {b}" "ok p1"
        using get_SomeD [OF Suc.prems(1)] Pair Some by simp_all
      moreover have "bs = b # bs1" "p' = p2" using Suc.prems Pair Some r by simp_all
      ultimately show ?thesis using Suc.IH [OF _ r] by auto
    qed
  qed
qed simp

end

lemma free_bufs_get:
  assumes "pool_ok p" and "top p \<noteq> 0"
  shows "free_bufs p = free_bufs (p\<lparr>top := top p - 1\<rparr>) @ [free_stack p ! (top p - 1)]"
proof -
  have "top p - 1 < length (free_stack p)" using assms by (auto simp: pool_ok_def)
  from take_Suc_conv_app_nth [OF this] show ?thesis using assms(2) by (simp add: free_bufs_def)
qed

lemma free_bufs_return:
  assumes "pool_ok p" and "top p < PACKET_POOL_SIZE"
  shows "free_bufs (pool_return b p) = free_bufs p @ [b]"
  using assms by (simp add: pool_return_def Let_def free_bufs_def pool_ok_def take_Suc_conv_app_nth)

lemma pool_room:
  assumes "pool_ok p" and "b < PACKET_POOL_SIZE" and "b \<notin> set (free_bufs p)"
  shows "top p < PACKET_POOL_SIZE"
proof -
  have "card (insert b (set (free_bufs p))) \<le> card {..<PACKET_POOL_SIZE}"
    using assms by (intro card_mono) (auto simp: pool_ok_def)
  moreover have "card (set (free_bufs p)) = top p"
    using assms(1) by (simp add: pool_ok_def distinct_card free_bufs_def)
  ultimately show ?thesis using assms(3) by simp
qed

interpretation packet_pool: buffer_allocator pool_get pool_return "set \<circ> free_bufs"
  "{..<PACKET_POOL_SIZE}" pool_ok
proof (unfold_locales, goal_cases)
  case (1 p)
  then have t: "top p \<noteq> 0" by (auto simp: free_bufs_def)
  let ?p' = "p\<lparr>top := top p - 1\<rparr>" and ?b = "free_stack p ! (top p - 1)"
  have d: "free_bufs p = free_bufs ?p' @ [?b]" by (rule free_bufs_get [OF 1(1) t])
  then have "pool_ok ?p'" using 1(1) unfolding pool_ok_def by auto
  moreover have "pool_get p = (Some ?b, ?p')" using t by (simp add: pool_get_def Let_def)
  ultimately show ?case using d 1(1) by (auto simp: pool_ok_def)
next
  case (2 p)
  then have "top p = 0" by (auto simp: free_bufs_def pool_ok_def)
  then show ?case by (simp add: pool_get_def)
next
  case (3 p b)
  then have "top p < PACKET_POOL_SIZE" using pool_room [of p b] by simp
  with 3 show ?case using free_bufs_return [of p b]
    by (auto simp: pool_ok_def pool_return_def Let_def)
next
  case (4 p)
  then show ?case by (simp add: pool_ok_def)
qed

lemma pool_init_ok: "pool_ok (pool_init mem) \<and> set (free_bufs (pool_init mem)) = {..<PACKET_POOL_SIZE}"
  by (simp add: pool_ok_def pool_init_def free_bufs_def atLeast0LessThan)

lemma free_bufs_buf_update [simp]: "free_bufs (buf_update b f p) = free_bufs p"
  by (simp add: free_bufs_def buf_update_def)

lemma pool_ok_buf_update [simp]: "pool_ok (buf_update b f p) = pool_ok p"
  by (simp add: pool_ok_def free_bufs_def buf_update_def)

lemma pool_mem_buf_update [simp]: "pool_mem (buf_update b f p) b = f (pool_mem p b)"
  by (simp add: buf_update_def)

lemma pool_get_mem: "pool_mem (snd (pool_get p)) = pool_mem p"
  by (simp add: pool_get_def Let_def)

lemma pool_return_mem [simp]: "pool_mem (pool_return b p) = pool_mem p"
  by (simp add: pool_return_def Let_def)

section \<open>Returning a buffer twice\<close>

text \<open>The pool does not notice a second return: the next two gets hand out the same buffer.\<close>

lemma double_return_aliases:
  assumes "length (free_stack p) = PACKET_POOL_SIZE" and "top p + 2 \<le> PACKET_POOL_SIZE"
  shows "fst (pool_get (pool_return b (pool_return b p))) = Some b \<and>
         fst (pool_get (snd (pool_get (pool_return b (pool_return b p))))) = Some b"
  using assms by (simp add: pool_get_def pool_return_def Let_def)

section \<open>The pool shared by threads\<close>

text \<open>
  The \<open>for\<close> loops of \<open>pool_get\<close> and \<open>pool_return\<close> at the granularity of their accesses to
  \<open>top\<close> and \<open>free_stack\<close>. A thread of \<open>pool_get\<close> that won its compare-and-swap still has to
  read \<open>free_stack[new_t]\<close>; a thread of \<open>pool_return\<close> writes the slot before its own.
\<close>

datatype pool_pc =
    TIdle
  | GetLoaded nat
  | GetWon nat
  | RetStart buf_ptr
  | RetLoaded buf_ptr nat
  | RetStored buf_ptr nat

record pool_sys =
  stack :: "buf_ptr list"
  stop :: nat
  pc :: "nat \<Rightarrow> pool_pc"
  holds :: "nat \<Rightarrow> buf_ptr list"

definition pool_sys_start :: "pool_sys \<Rightarrow> bool" where
  "pool_sys_start s \<longleftrightarrow> stack s = [0..<PACKET_POOL_SIZE] \<and> stop s = PACKET_POOL_SIZE \<and>
     (\<forall>i. pc s i = TIdle) \<and> (\<forall>i. holds s i = [])"

inductive pool_step :: "pool_sys \<Rightarrow> pool_sys \<Rightarrow> bool" where
  get_load: "\<lbrakk> pc s i = TIdle; stop s \<noteq> 0 \<rbrakk> \<Longrightarrow> pool_step s (s\<lparr>pc := (pc s)(i := GetLoaded (stop s))\<rparr>)"
| get_cas: "\<lbrakk> pc s i = GetLoaded t; stop s = t \<rbrakk> \<Longrightarrow>
     pool_step s (s\<lparr>stop := t - 1, pc := (pc s)(i := GetWon (t - 1))\<rparr>)"
| get_retry: "\<lbrakk> pc s i = GetLoaded t; stop s \<noteq> t \<rbrakk> \<Longrightarrow> pool_step s (s\<lparr>pc := (pc s)(i := TIdle)\<rparr>)"
| get_read: "pc s i = GetWon n \<Longrightarrow>
     pool_step s (s\<lparr>pc := (pc s)(i := TIdle), holds := (holds s)(i := stack s ! n # holds s i)\<rparr>)"
| ret_start: "\<lbrakk> pc s i = TIdle; holds s i = b # bs \<rbrakk> \<Longrightarrow>
     pool_step s (s\<lparr>pc := (pc s)(i := RetStart b), holds := (holds s)(i := bs)\<rparr>)"
| ret_load: "\<lbrakk> pc s i = RetStart b; stop s < PACKET_POOL_SIZE \<rbrakk> \<Longrightarrow>
     pool_step s (s\<lparr>pc := (pc s)(i := RetLoaded b (stop s))\<rparr>)"
| ret_drop: "\<lbrakk> pc s i = RetStart b; stop s \<ge> PACKET_POOL_SIZE \<rbrakk> \<Longrightarrow>
     pool_step s (s\<lparr>pc := (pc s)(i := TIdle)\<rparr>)"
| ret_store: "pc s i = RetLoaded b t \<Longrightarrow>
     pool_step s (s\<lparr>stack := (stack s)[t := b], pc := (pc s)(i := RetStored b t)\<rparr>)"
| ret_cas: "\<lbrakk> pc s i = RetStored b t; stop s = t \<rbrakk> \<Longrightarrow>
     pool_step s (s\<lparr>stop := t + 1, pc := (pc s)(i := TIdle)\<rparr>)"
| ret_retry: "\<lbrakk> pc s i = RetStored b t; stop s \<noteq> t \<rbrakk> \<Longrightarrow>
     pool_step s (s\<lparr>pc := (pc s)(i := RetStart b)\<rparr>)"


text \<open>
  The same steps as a function of the thread that runs next and, for an idle thread, of
  whether it returns a buffer or asks for one; a schedule is a list of such choices.
\<close>

definition pool_next :: "nat \<times> bool \<Rightarrow> pool_sys \<Rightarrow> pool_sys" where
  "pool_next c s =
     (let i = fst c; set_pc = (\<lambda>x. (pc s)(i := x)) in
      case pc s i of
        TIdle \<Rightarrow>
          if snd c
          then (case holds s i of
                  [] \<Rightarrow> s
                | b # bs \<Rightarrow> s\<lparr>pc := set_pc (RetStart b), holds := (holds s)(i := bs)\<rparr>)
          else if stop s = 0 then s else s\<lparr>pc := set_pc (GetLoaded (stop s))\<rparr>
      | GetLoaded t \<Rightarrow>
          if stop s = t then s\<lparr>stop := t - 1, pc := set_pc (GetWon (t - 1))\<rparr>
          else s\<lparr>pc := set_pc TIdle\<rparr>
      | GetWon n \<Rightarrow> s\<lparr>pc := set_pc TIdle, holds := (holds s)(i := stack s ! n # holds s i)\<rparr>
      | RetStart b \<Rightarrow>
          if stop s < PACKET_POOL_SIZE then s\<lparr>pc := set_pc (RetLoaded b (stop s))\<rparr>
          else s\<lparr>pc := set_pc TIdle\<rparr>
      | RetLoaded b t \<Rightarrow> s\<lparr>stack := (stack s)[t := b], pc := set_pc (RetStored b t)\<rparr>
      | RetStored b t \<Rightarrow>
          if stop s = t then s\<lparr>stop := t + 1, pc := set_pc TIdle\<rparr>
          else s\<lparr>pc := set_pc (RetStart b)\<rparr>)"

lemma pool_next_step: "pool_step s (pool_next c s) \<or> pool_next c s = s"
  using pool_step.intros [of s "fst c"]
  by (cases "pc s (fst c)"; cases "holds s (fst c)") (simp_all add: pool_next_def Let_def)

lemma pool_schedule_reach:
  "reach pool_sys_start pool_step s \<Longrightarrow> reach pool_sys_start pool_step (fold pool_next cs s)"
proof (induction cs arbitrary: s)
  case (Cons c cs)
  then show ?case using pool_next_step [of s c] by (metis fold_simps(2) reach_step)
qed simp

text \<open>
  Thread 0 wins its compare-and-swap in \<open>pool_get\<close> and is overtaken: thread 1 returns its
  buffer into the very slot thread 0 is about to read, then allocates again.
\<close>

definition pool_race_schedule :: "(nat \<times> bool) list" where
  "pool_race_schedule =
     [(1, False), (1, False), (1, False), (0, False), (0, False),
      (1, True), (1, True), (1, True), (1, True), (0, False),
      (1, False), (1, False), (1, False)]"

lemma pool_race:
  "\<exists>s. reach pool_sys_start pool_step s \<and> pc s 0 = TIdle \<and> pc s 1 = TIdle \<and>
     4095 \<in> set (holds s 0) \<and> 4095 \<in> set (holds s 1)"
proof -
  obtain st where st: "st = [0..<PACKET_POOL_SIZE]" by blast
  have l: "length st = 4096" "st ! 4095 = 4095"
    unfolding st by (simp_all del: upt_rec_numeral)
  define s0 where "s0 = \<lparr>stack = st, stop = 4096, pc = \<lambda>_. TIdle, holds = \<lambda>_. []\<rparr>"
  have "reach pool_sys_start pool_step s0"
    by (rule reach_start) (simp add: pool_sys_start_def s0_def st del: upt_rec_numeral)
  then have "reach pool_sys_start pool_step (fold pool_next pool_race_schedule s0)"
    by (rule pool_schedule_reach)
  moreover have "fold pool_next pool_race_schedule s0 =
      \<lparr>stack = st[4094 := 4095], stop = 4094, pc = \<lambda>_. TIdle,
       holds = (\<lambda>_. [])(0 := [4095], 1 := [4095])\<rparr>"
    using l by (simp add: pool_race_schedule_def s0_def pool_next_def Let_def fun_eq_iff)
  ultimately show ?thesis by (intro exI [of _ "fold pool_next pool_race_schedule s0"]) simp
qed

section \<open>Properties\<close>

text \<open>
  Used by one thread at a time, the pool is a sound allocator: any number of allocations
  in a row from a well-formed pool returns pairwise different buffers, all of them free
  before and none of them free after, and nothing else leaves the free list.
\<close>

theorem pool_allocations_distinct:
  assumes "pool_ok p" and "packet_pool.get_many n p = (bs, p')"
  shows "distinct bs \<and> set bs \<subseteq> set (free_bufs p) \<and> set (free_bufs p') = set (free_bufs p) - set bs \<and> pool_ok p'"
  using packet_pool.get_many_distinct [OF assms] by simp

definition pool_sample :: pool where
  "pool_sample = \<lparr>pool_mem = (\<lambda>_. \<lparr>addr = [], addr_len = 0, len = 0, data = []\<rparr>),
     free_stack = replicate 4096 7, top = 1\<rparr>"

lemma pool_sample_facts:
  "pool_ok pool_sample"
  "packet_pool.get_many 2 pool_sample = ([7], pool_sample\<lparr>top := 0\<rparr>)"
  by (simp_all add: pool_sample_def pool_ok_def pool_get_def free_bufs_def Let_def numeral_2_eq_2)

theorem pool_allocations_distinct_witness:
  "distinct [7::nat] \<and> set [7] \<subseteq> set (free_bufs pool_sample) \<and>
   set (free_bufs (pool_sample\<lparr>top := 0\<rparr>)) = set (free_bufs pool_sample) - set [7] \<and> pool_ok (pool_sample\<lparr>top := 0\<rparr>)"
  using pool_allocations_distinct [OF pool_sample_facts] .

text \<open>
  Used by several threads, it is not: \<open>pool_get\<close> reads \<open>free_stack[new_t]\<close> only after its
  compare-and-swap, so a concurrent \<open>pool_return\<close> can overwrite the slot in between. There is
  a reachable state in which two threads hold the same buffer.
\<close>

theorem pool_double_allocation:
  "\<exists>s b. reach pool_sys_start pool_step s \<and> pc s 0 = TIdle \<and> pc s 1 = TIdle \<and>
     b \<in> set (holds s 0) \<and> b \<in> set (holds s 1)"
  using pool_race by blast

end
