(* ===== verification/Session.thy ===== *)
theory Session
  imports Fec Packet_Pool
begin

text \<open>
  The session structure of \<open>lib/core/session.h\<close> and the operations of \<open>lib/core/session.c\<close>: the
  zeroed session, reset with wiping of the secrets, the static session table and its lookups.
  The spin lock \<open>keys_guard\<close> is free in every state between two operations and is left out.
\<close>

section \<open>Data\<close>

abbreviation KEM_MLKEM_768_PK_SIZE :: nat where "KEM_MLKEM_768_PK_SIZE \<equiv> 1184"
abbreviation KEM_MLKEM_768_SK_SIZE :: nat where "KEM_MLKEM_768_SK_SIZE \<equiv> 2400"
abbreviation KEM_MLKEM_768_CT_SIZE :: nat where "KEM_MLKEM_768_CT_SIZE \<equiv> 1088"
abbreviation KEM_MLKEM_768_SS_SIZE :: nat where "KEM_MLKEM_768_SS_SIZE \<equiv> 32"
abbreviation KEM_TYPE_MLKEM_768 :: u8 where "KEM_TYPE_MLKEM_768 \<equiv> 1"
abbreviation MAX_SESSION_ENTRIES :: nat where "MAX_SESSION_ENTRIES \<equiv> 32"

abbreviation CTRL_HELLO :: u8 where "CTRL_HELLO \<equiv> 1"
abbreviation CTRL_ACCEPT :: u8 where "CTRL_ACCEPT \<equiv> 2"
abbreviation CTRL_PQ_KEM_INIT :: u8 where "CTRL_PQ_KEM_INIT \<equiv> 3"
abbreviation CTRL_PQ_KEM_RESPONSE :: u8 where "CTRL_PQ_KEM_RESPONSE \<equiv> 4"
abbreviation CTRL_IDENTITY_PROOF :: u8 where "CTRL_IDENTITY_PROOF \<equiv> 5"
abbreviation CTRL_SESSION_LOCKED :: u8 where "CTRL_SESSION_LOCKED \<equiv> 6"
abbreviation CTRL_HANDSHAKE_ERROR :: u8 where "CTRL_HANDSHAKE_ERROR \<equiv> 7"
abbreviation CTRL_PORT_HOP :: u8 where "CTRL_PORT_HOP \<equiv> 8"
abbreviation CTRL_PORT_HOP_ACK :: u8 where "CTRL_PORT_HOP_ACK \<equiv> 9"
abbreviation CTRL_HEARTBEAT :: u8 where "CTRL_HEARTBEAT \<equiv> 10"
abbreviation CTRL_HEARTBEAT_ACK :: u8 where "CTRL_HEARTBEAT_ACK \<equiv> 11"
abbreviation CTRL_RECONNECT :: u8 where "CTRL_RECONNECT \<equiv> 12"
abbreviation CTRL_RECONNECT_ACK :: u8 where "CTRL_RECONNECT_ACK \<equiv> 13"
abbreviation CTRL_ROUTE_DATA :: u8 where "CTRL_ROUTE_DATA \<equiv> 14"
abbreviation CTRL_REKEY_INIT :: u8 where "CTRL_REKEY_INIT \<equiv> 15"
abbreviation CTRL_REKEY_CONFIRM :: u8 where "CTRL_REKEY_CONFIRM \<equiv> 16"

abbreviation HS_ERR_NONE :: u8 where "HS_ERR_NONE \<equiv> 0"
abbreviation HS_ERR_UNSUPPORTED_KEM :: u8 where "HS_ERR_UNSUPPORTED_KEM \<equiv> 1"
abbreviation HS_ERR_BAD_IDENTITY :: u8 where "HS_ERR_BAD_IDENTITY \<equiv> 2"
abbreviation HS_ERR_TIMEOUT :: u8 where "HS_ERR_TIMEOUT \<equiv> 3"
abbreviation HS_ERR_REPLAY :: u8 where "HS_ERR_REPLAY \<equiv> 4"
abbreviation HS_ERR_STATE_VIOLATION :: u8 where "HS_ERR_STATE_VIOLATION \<equiv> 5"

datatype session_state =
    SESSION_IDLE
  | SESSION_HANDSHAKE_START
  | SESSION_PQ_KEM_INIT_SENT
  | SESSION_PQ_KEM_RESPONSE_SENT
  | SESSION_IDENTITY_PROOF_SENT
  | SESSION_VERIFY
  | SESSION_LOCKED

datatype handshake_role = ROLE_UNASSIGNED | ROLE_INITIATOR | ROLE_RESPONDER

record handshake_crypto =
  kem_type :: u8
  kem_public_key :: bytes
  kem_secret_key :: bytes
  peer_public_key :: bytes
  kem_ciphertext :: bytes
  kem_shared_secret :: bytes
  our_identity_key :: bytes
  peer_identity_key :: bytes
  identity_verified :: bool
  transcript_hash :: bytes
  messages_exchanged :: u32
  handshake_start_ms :: u32
  last_message_ms :: u32
  timeout_ms :: u32
  last_error :: u8

record session_keys =
  session_key :: bytes
  channel_keys :: "bytes list"
  key_epoch :: u64

record session =
  session_id :: u64
  sess_addr :: bytes
  sess_addr_len :: nat
  last_seq :: u32
  recv_bitmap :: u64
  sess_state :: session_state
  sess_role :: handshake_role
  hs :: handshake_crypto
  keys :: session_keys
  resilience :: resilience
  handshake_complete :: bool
  fec_recovered :: "buf_ptr option"
  peer_addrs :: "bytes list"
  peer_addr_lens :: "nat list"
  local_port :: u16
  hop_target_port :: u16
  hop_start_ms :: u64
  reconnect_attempts :: u32
  last_heartbeat_rx_ms :: u64
  reconnect_pending :: bool
  reconnect_start_ms :: u64
  ignore_heartbeats_until_ms :: u64

datatype session_dir = SESSION_DIR_OUTBOUND | SESSION_DIR_INBOUND

section \<open>Initialisation, wiping and reset\<close>

definition handshake_crypto_zero :: handshake_crypto where
  "handshake_crypto_zero = \<lparr>kem_type = 0, kem_public_key = replicate KEM_MLKEM_768_PK_SIZE 0,
     kem_secret_key = replicate KEM_MLKEM_768_SK_SIZE 0,
     peer_public_key = replicate KEM_MLKEM_768_PK_SIZE 0,
     kem_ciphertext = replicate KEM_MLKEM_768_CT_SIZE 0,
     kem_shared_secret = replicate KEM_MLKEM_768_SS_SIZE 0,
     our_identity_key = replicate 32 0, peer_identity_key = replicate 32 0,
     identity_verified = False, transcript_hash = replicate 32 0, messages_exchanged = 0,
     handshake_start_ms = 0, last_message_ms = 0, timeout_ms = 0, last_error = 0\<rparr>"

definition session_keys_zero :: session_keys where
  "session_keys_zero = \<lparr>session_key = replicate 32 0,
     channel_keys = replicate 6 (replicate 32 0), key_epoch = 0\<rparr>"

definition session_zero :: session where
  "session_zero = \<lparr>session_id = 0, sess_addr = replicate 32 0, sess_addr_len = 0, last_seq = 0,
     recv_bitmap = 0, sess_state = SESSION_IDLE, sess_role = ROLE_UNASSIGNED,
     hs = handshake_crypto_zero, keys = session_keys_zero, resilience = resilience_zero,
     handshake_complete = False, fec_recovered = None,
     peer_addrs = replicate RESILIENCE_MAX_PATHS (replicate 32 0),
     peer_addr_lens = replicate RESILIENCE_MAX_PATHS 0, local_port = 0, hop_target_port = 0,
     hop_start_ms = 0, reconnect_attempts = 0, last_heartbeat_rx_ms = 0,
     reconnect_pending = False, reconnect_start_ms = 0, ignore_heartbeats_until_ms = 0\<rparr>"

definition session_init :: session where
  "session_init = session_zero\<lparr>sess_state := SESSION_IDLE, sess_role := ROLE_UNASSIGNED,
     resilience := resilience_init\<rparr>"

definition session_zero_secrets :: "session \<Rightarrow> session" where
  "session_zero_secrets s = s\<lparr>
     hs := (hs s)\<lparr>kem_secret_key := replicate KEM_MLKEM_768_SK_SIZE 0,
                  kem_shared_secret := replicate KEM_MLKEM_768_SS_SIZE 0\<rparr>,
     keys := session_keys_zero\<rparr>"

text \<open>The fields that survive a reset are read before the structure is cleared.\<close>

definition session_reset :: "session \<Rightarrow> session" where
  "session_reset s = session_zero\<lparr>
     local_port := local_port s, session_id := session_id s, sess_addr_len := sess_addr_len s,
     sess_addr := sess_addr s, peer_addrs := peer_addrs s, peer_addr_lens := peer_addr_lens s,
     sess_state := SESSION_IDLE, sess_role := ROLE_UNASSIGNED, resilience := resilience_init\<rparr>"

definition session_register_path :: "session \<Rightarrow> nat \<Rightarrow> bytes \<Rightarrow> int \<times> session" where
  "session_register_path s path_idx a =
     (if path_idx \<ge> RESILIENCE_MAX_PATHS then (-1, s)
      else if length a > 32 then (-1, s)
      else (0, s\<lparr>peer_addrs := (peer_addrs s)[path_idx := mem_write 0 a (peer_addrs s ! path_idx)],
                 peer_addr_lens := (peer_addr_lens s)[path_idx := length a]\<rparr>))"

definition session_is_ready_for_data :: "session \<Rightarrow> bool" where
  "session_is_ready_for_data s \<longleftrightarrow> sess_state s = SESSION_LOCKED \<and> handshake_complete s"

section \<open>The session table\<close>

text \<open>A session pointer is its index in \<open>g_session_pool\<close>.\<close>

record session_entry =
  sess_ref :: "nat option"
  entry_dir :: session_dir
  in_use :: bool

record session_table =
  sess_pool :: "session list"
  entries :: "session_entry list"
  session_count :: nat

definition session_entry_zero :: session_entry where
  "session_entry_zero = \<lparr>sess_ref = None, entry_dir = SESSION_DIR_OUTBOUND, in_use = False\<rparr>"

definition session_table_init :: "session_table \<Rightarrow> session_table" where
  "session_table_init t = t\<lparr>entries := replicate MAX_SESSION_ENTRIES session_entry_zero, session_count := 0\<rparr>"

definition entry_matches :: "session_table \<Rightarrow> (session \<Rightarrow> bool) \<Rightarrow> session_entry \<Rightarrow> bool" where
  "entry_matches t P e = (in_use e \<and> (case sess_ref e of None \<Rightarrow> False | Some i \<Rightarrow> P (sess_pool t ! i)))"

definition session_find :: "session_table \<Rightarrow> (session \<Rightarrow> bool) \<Rightarrow> nat option" where
  "session_find t P = (case find (entry_matches t P) (entries t) of Some e \<Rightarrow> sess_ref e | None \<Rightarrow> None)"

definition session_find_by_id :: "session_table \<Rightarrow> u64 \<Rightarrow> nat option" where
  "session_find_by_id t sid = session_find t (\<lambda>s. session_id s = sid)"

definition session_find_by_addr :: "session_table \<Rightarrow> bytes \<Rightarrow> nat option" where
  "session_find_by_addr t a =
     session_find t (\<lambda>s. sess_addr_len s = length a \<and> take (length a) (sess_addr s) = a)"

text \<open>An address longer than the 32-byte field overruns it in the C code; the callers pass at most 32.\<close>

definition session_alloc_for_peer :: "session_table \<Rightarrow> bytes \<Rightarrow> session_dir \<Rightarrow> (nat option \<times> session_table) option" where
  "session_alloc_for_peer t a dir =
     (if session_count t \<ge> MAX_SESSION_ENTRIES then Some (None, t)
      else if length a > 32 then None
      else let idx = session_count t;
               s = session_init\<lparr>sess_addr := mem_write 0 a (sess_addr session_init), sess_addr_len := length a\<rparr>
           in Some (Some idx, t\<lparr>session_count := idx + 1,
                sess_pool := (sess_pool t)[idx := s],
                entries := (entries t)[idx := \<lparr>sess_ref = Some idx, entry_dir = dir, in_use = True\<rparr>]\<rparr>))"

section \<open>Invariants\<close>

definition hs_ok :: "handshake_crypto \<Rightarrow> bool" where
  "hs_ok h \<longleftrightarrow> length (kem_public_key h) = KEM_MLKEM_768_PK_SIZE \<and>
     length (kem_secret_key h) = KEM_MLKEM_768_SK_SIZE \<and>
     length (peer_public_key h) = KEM_MLKEM_768_PK_SIZE \<and>
     length (kem_ciphertext h) = KEM_MLKEM_768_CT_SIZE \<and>
     length (kem_shared_secret h) = KEM_MLKEM_768_SS_SIZE \<and>
     length (our_identity_key h) = 32 \<and> length (peer_identity_key h) = 32 \<and>
     length (transcript_hash h) = 32"

definition keys_ok :: "session_keys \<Rightarrow> bool" where
  "keys_ok k \<longleftrightarrow> length (session_key k) = 32 \<and> length (channel_keys k) = 6 \<and>
     (\<forall>c \<in> set (channel_keys k). length c = 32)"

definition session_ok :: "session \<Rightarrow> bool" where
  "session_ok s \<longleftrightarrow> length (sess_addr s) = 32 \<and> sess_addr_len s \<le> 32 \<and> hs_ok (hs s) \<and> keys_ok (keys s) \<and>
     resilience_ok (resilience s) \<and> length (peer_addrs s) = RESILIENCE_MAX_PATHS \<and>
     (\<forall>a \<in> set (peer_addrs s). length a = 32) \<and> length (peer_addr_lens s) = RESILIENCE_MAX_PATHS \<and>
     (\<forall>l \<in> set (peer_addr_lens s). l \<le> 32)"

definition secrets_wiped :: "session \<Rightarrow> bool" where
  "secrets_wiped s \<longleftrightarrow> keys s = session_keys_zero \<and>
     kem_secret_key (hs s) = replicate KEM_MLKEM_768_SK_SIZE 0 \<and>
     kem_shared_secret (hs s) = replicate KEM_MLKEM_768_SS_SIZE 0"

definition table_ok :: "session_table \<Rightarrow> bool" where
  "table_ok t \<longleftrightarrow> length (sess_pool t) = MAX_SESSION_ENTRIES \<and> length (entries t) = MAX_SESSION_ENTRIES \<and>
     session_count t \<le> MAX_SESSION_ENTRIES \<and>
     (\<forall>i < MAX_SESSION_ENTRIES. in_use (entries t ! i) = (i < session_count t)) \<and>
     (\<forall>i < session_count t. sess_ref (entries t ! i) = Some i \<and> session_ok (sess_pool t ! i))"

lemma session_zero_ok:
  "hs_ok handshake_crypto_zero" "keys_ok session_keys_zero"
  by (simp_all add: hs_ok_def handshake_crypto_zero_def keys_ok_def session_keys_zero_def)

lemma session_init_ok [simp]: "session_ok session_init"
  by (auto simp: session_ok_def session_init_def session_zero_def session_zero_ok resilience_init_ok)

lemma session_reset_ok: "session_ok s \<Longrightarrow> session_ok (session_reset s)"
  by (auto simp: session_ok_def session_reset_def session_zero_def session_zero_ok resilience_init_ok)

lemma session_zero_secrets_ok: "session_ok s \<Longrightarrow> session_ok (session_zero_secrets s)"
  by (simp add: session_ok_def session_zero_secrets_def session_zero_ok hs_ok_def)

lemma session_register_path_ok: "session_ok s \<Longrightarrow> session_ok (snd (session_register_path s i a))"
  by (auto simp: session_register_path_def session_ok_def mem_simps
      dest!: set_update_subset_insert [THEN subsetD])

section \<open>Reset\<close>

text \<open>Reset keeps the identity of the peer and leaves nothing of the old keys.\<close>

lemma session_reset_spec:
  "secrets_wiped (session_reset s) \<and> session_is_ready_for_data (session_reset s) = False \<and>
   session_id (session_reset s) = session_id s \<and> sess_addr (session_reset s) = sess_addr s \<and>
   sess_addr_len (session_reset s) = sess_addr_len s \<and> peer_addrs (session_reset s) = peer_addrs s \<and>
   peer_addr_lens (session_reset s) = peer_addr_lens s \<and> local_port (session_reset s) = local_port s"
  by (simp add: secrets_wiped_def session_reset_def session_zero_def handshake_crypto_zero_def
      session_is_ready_for_data_def)

lemma session_reset_secrets: "session_reset (session_zero_secrets s) = session_reset s"
  by (simp add: session_reset_def session_zero_secrets_def)

lemma session_reset_idem: "session_reset (session_reset s) = session_reset s"
  by (simp add: session_reset_def)

section \<open>Table lookups\<close>

lemma session_find_Some:
  assumes "table_ok t"
  shows "session_find t P = Some i \<longleftrightarrow>
    i < session_count t \<and> P (sess_pool t ! i) \<and> (\<forall>j < i. \<not> P (sess_pool t ! j))"
proof -
  have m: "entry_matches t P (entries t ! i) = (i < session_count t \<and> P (sess_pool t ! i))"
    if "i < MAX_SESSION_ENTRIES" for i
    using assms that by (auto simp: entry_matches_def table_ok_def split: option.splits)
  have l: "length (entries t) = MAX_SESSION_ENTRIES" "session_count t \<le> MAX_SESSION_ENTRIES"
    "\<forall>i < session_count t. sess_ref (entries t ! i) = Some i"
    using assms by (simp_all add: table_ok_def)
  show ?thesis
  proof
    assume "session_find t P = Some i"
    then obtain e where e: "find (entry_matches t P) (entries t) = Some e" "sess_ref e = Some i"
      by (auto simp: session_find_def split: option.splits)
    then obtain k where k: "k < 32" "entry_matches t P (entries t ! k)" "e = entries t ! k"
      "\<forall>j < k. \<not> entry_matches t P (entries t ! j)"
      using l by (auto simp: find_Some_iff)
    then have "k = i" using l m e by auto
    then show "i < session_count t \<and> P (sess_pool t ! i) \<and> (\<forall>j < i. \<not> P (sess_pool t ! j))"
      using k m by auto
  next
    assume i: "i < session_count t \<and> P (sess_pool t ! i) \<and> (\<forall>j < i. \<not> P (sess_pool t ! j))"
    then have "find (entry_matches t P) (entries t) = Some (entries t ! i)"
      using l m by (auto simp: find_Some_iff intro!: exI [of _ i])
    then show "session_find t P = Some i" using i l by (simp add: session_find_def)
  qed
qed

lemma session_find_None:
  assumes "table_ok t"
  shows "session_find t P = None \<longleftrightarrow> (\<forall>i < session_count t. \<not> P (sess_pool t ! i))"
proof
  assume n: "session_find t P = None"
  show "\<forall>i < session_count t. \<not> P (sess_pool t ! i)"
  proof (rule ccontr)
    assume "\<not> (\<forall>i < session_count t. \<not> P (sess_pool t ! i))"
    then obtain i where "i < session_count t" "P (sess_pool t ! i)" "\<forall>j < i. \<not> P (sess_pool t ! j)"
      using exists_least_iff [of "\<lambda>i. i < session_count t \<and> P (sess_pool t ! i)"] by (metis less_trans)
    then show False using n session_find_Some [OF assms, of P i] by simp
  qed
next
  assume "\<forall>i < session_count t. \<not> P (sess_pool t ! i)"
  then show "session_find t P = None"
    using session_find_Some [OF assms, of P] by (metis not_None_eq)
qed

lemma session_table_init_ok:
  "length (sess_pool t) = MAX_SESSION_ENTRIES \<Longrightarrow> table_ok (session_table_init t)"
  by (simp add: table_ok_def session_table_init_def session_entry_zero_def del: replicate.simps)

lemma session_alloc_ok:
  assumes "table_ok t" and "session_alloc_for_peer t a dir = Some (r, t')"
  shows "table_ok t'"
proof (cases "session_count t \<ge> MAX_SESSION_ENTRIES")
  case False
  then have "length a \<le> 32" and t': "t' = t\<lparr>session_count := session_count t + 1,
      sess_pool := (sess_pool t)[session_count t := session_init\<lparr>sess_addr := mem_write 0 a (sess_addr session_init),
         sess_addr_len := length a\<rparr>],
      entries := (entries t)[session_count t := \<lparr>sess_ref = Some (session_count t), entry_dir = dir, in_use = True\<rparr>]\<rparr>"
    using assms(2) by (auto simp: session_alloc_for_peer_def Let_def split: if_splits)
  moreover have "session_ok (session_init\<lparr>sess_addr := mem_write 0 a (sess_addr session_init), sess_addr_len := length a\<rparr>)"
    using \<open>length a \<le> 32\<close> session_init_ok by (simp add: session_ok_def mem_simps)
  ultimately show ?thesis
    using assms(1) False by (auto simp: table_ok_def nth_list_update less_Suc_eq)
qed (use assms in \<open>simp add: session_alloc_for_peer_def\<close>)

lemma session_alloc_pool:
  assumes "table_ok t" and "session_alloc_for_peer t a dir = Some (Some i, t')"
  shows "i = session_count t \<and> session_count t' = Suc i \<and>
    (\<forall>j < i. sess_pool t' ! j = sess_pool t ! j) \<and>
    sess_addr_len (sess_pool t' ! i) = length a \<and> take (length a) (sess_addr (sess_pool t' ! i)) = a"
  using assms
  by (auto simp: session_alloc_for_peer_def Let_def table_ok_def mem_write_def split: if_splits)

text \<open>
  A session allocated for a new address is the one its address finds; addresses already
  known keep their sessions.
\<close>

lemma session_alloc_find:
  assumes t: "table_ok t" and al: "session_alloc_for_peer t a dir = Some (Some i, t')"
  shows "session_find_by_addr t' b =
    (case session_find_by_addr t b of Some j \<Rightarrow> Some j | None \<Rightarrow> if b = a then Some i else None)"
proof -
  let ?P = "\<lambda>s. sess_addr_len s = length b \<and> take (length b) (sess_addr s) = b"
  note t' = session_alloc_ok [OF t al]
  note pool = session_alloc_pool [OF t al]
  have i: "?P (sess_pool t' ! i) \<longleftrightarrow> b = a" using pool by auto
  show ?thesis
  proof (cases "session_find t ?P")
    case None
    then have n: "\<forall>j < i. \<not> ?P (sess_pool t' ! j)"
      using session_find_None [OF t, of ?P] pool by simp
    show ?thesis
    proof (cases "b = a")
      case True
      then have "session_find t' ?P = Some i" using session_find_Some [OF t', of ?P] n i pool by simp
      then show ?thesis using None True by (simp add: session_find_by_addr_def)
    next
      case False
      then have "session_find t' ?P = None" using session_find_None [OF t', of ?P] n i pool
        by (simp add: less_Suc_eq)
      then show ?thesis using None False by (simp add: session_find_by_addr_def)
    qed
  next
    case (Some j)
    then have "session_find t' ?P = Some j"
      using session_find_Some [OF t, of ?P j] session_find_Some [OF t', of ?P j] pool by simp
    then show ?thesis using Some by (simp add: session_find_by_addr_def)
  qed
qed

lemma session_alloc_full:
  "session_alloc_for_peer t a dir = Some (None, t') \<longleftrightarrow> MAX_SESSION_ENTRIES \<le> session_count t \<and> t' = t"
  by (auto simp: session_alloc_for_peer_def Let_def)

section \<open>Properties\<close>

text \<open>
  Resetting a session leaves no key material: the session keys, the KEM secret key and
  the shared secret are all zero and the session no longer accepts data, while the session
  id, the peer addresses of all paths and the local port survive.
\<close>

theorem session_reset_wipes:
  "secrets_wiped (session_reset s) \<and> session_is_ready_for_data (session_reset s) = False \<and>
   session_id (session_reset s) = session_id s \<and> sess_addr (session_reset s) = sess_addr s \<and>
   sess_addr_len (session_reset s) = sess_addr_len s \<and> peer_addrs (session_reset s) = peer_addrs s \<and>
   peer_addr_lens (session_reset s) = peer_addr_lens s \<and> local_port (session_reset s) = local_port s"
  by (rule session_reset_spec)

text \<open>
  The session table maps addresses to sessions: after a successful allocation for
  address \<open>a\<close>, an address that already had a session still finds it, \<open>a\<close> finds the new session
  if it had none, and no other address finds anything new; the table stays well-formed.
\<close>

theorem session_alloc_lookup:
  assumes "table_ok t" and "session_alloc_for_peer t a dir = Some (Some i, t')"
  shows "table_ok t' \<and> session_find_by_addr t' b =
    (case session_find_by_addr t b of Some j \<Rightarrow> Some j | None \<Rightarrow> if b = a then Some i else None)"
  using session_alloc_ok [OF assms] session_alloc_find [OF assms, of b] by blast

definition table_sample :: session_table where
  "table_sample = session_table_init \<lparr>sess_pool = replicate 32 session_init, entries = [], session_count = 0\<rparr>"

lemma table_sample_facts:
  "table_ok table_sample"
  "session_alloc_for_peer table_sample [1, 2] SESSION_DIR_INBOUND = Some (Some 0,
     snd (the (session_alloc_for_peer table_sample [1, 2] SESSION_DIR_INBOUND)))"
  by (simp add: table_sample_def session_table_init_ok)
    (simp add: session_alloc_for_peer_def table_sample_def session_table_init_def Let_def)

theorem session_alloc_lookup_witness:
  "let t' = snd (the (session_alloc_for_peer table_sample [1, 2] SESSION_DIR_INBOUND)) in
   table_ok t' \<and> session_find_by_addr t' [1, 2] = Some 0"
proof -
  have "session_find_by_addr table_sample [1, 2] = None"
    using session_find_None [OF table_sample_facts(1)]
    by (simp add: session_find_by_addr_def table_sample_def session_table_init_def)
  then show ?thesis using session_alloc_lookup [OF table_sample_facts, of "[1, 2]"] by (simp add: Let_def)
qed

end
