(* ===== verification/Scheduler.thy ===== *)
theory Scheduler
  imports Spsc_Ring Packet_Pool
begin

text \<open>
  The transmit scheduler (\<open>lib/core/scheduler.c\<close>), the receive demultiplexer
  (\<open>lib/layers/rx_demux.c\<close>) and the channel numbers of \<open>lib/core/channel.h\<close>. Both components
  are clients of the queue interface of \<open>Spsc_Ring\<close>; their lemmas rest on its
  interpretation for the ring.
\<close>

section \<open>Channels\<close>

abbreviation CH_CONTROL :: u8 where "CH_CONTROL \<equiv> 1"
abbreviation CH_AUDIO :: u8 where "CH_AUDIO \<equiv> 2"
abbreviation CH_CHAT :: u8 where "CH_CHAT \<equiv> 3"
abbreviation CH_FILE :: u8 where "CH_FILE \<equiv> 4"
abbreviation CH_ROUTE :: u8 where "CH_ROUTE \<equiv> 5"
abbreviation CH_VIDEO :: u8 where "CH_VIDEO \<equiv> 6"

type_synonym buf_ring = "buf_ptr spsc_ring"

section \<open>Transmit queues\<close>

record tx_queues =
  tx_control :: buf_ring
  tx_audio :: buf_ring
  tx_chat :: buf_ring
  tx_file :: buf_ring
  tx_video :: buf_ring
  tx_fake :: buf_ring

definition tx_queues_init :: "tx_queues \<Rightarrow> tx_queues" where
  "tx_queues_init q = q\<lparr>tx_control := ring_init (tx_control q), tx_audio := ring_init (tx_audio q),
     tx_chat := ring_init (tx_chat q), tx_file := ring_init (tx_file q),
     tx_video := ring_init (tx_video q), tx_fake := ring_init (tx_fake q)\<rparr>"

definition scheduler_next :: "tx_queues \<Rightarrow> buf_ptr option \<times> tx_queues" where
  "scheduler_next q =
     (case ring_pop (tx_control q) of (Some p, r) \<Rightarrow> (Some p, q\<lparr>tx_control := r\<rparr>) | (None, _) \<Rightarrow>
     (case ring_pop (tx_audio q) of (Some p, r) \<Rightarrow> (Some p, q\<lparr>tx_audio := r\<rparr>) | (None, _) \<Rightarrow>
     (case ring_pop (tx_chat q) of (Some p, r) \<Rightarrow> (Some p, q\<lparr>tx_chat := r\<rparr>) | (None, _) \<Rightarrow>
     (case ring_pop (tx_file q) of (Some p, r) \<Rightarrow> (Some p, q\<lparr>tx_file := r\<rparr>) | (None, _) \<Rightarrow>
     (case ring_pop (tx_video q) of (Some p, r) \<Rightarrow> (Some p, q\<lparr>tx_video := r\<rparr>) | (None, _) \<Rightarrow>
     (case ring_pop (tx_fake q) of (x, r) \<Rightarrow> (x, q\<lparr>tx_fake := r\<rparr>)))))))"

definition tx_ok :: "tx_queues \<Rightarrow> bool" where
  "tx_ok q \<longleftrightarrow> ring_ok (tx_control q) \<and> ring_ok (tx_audio q) \<and> ring_ok (tx_chat q) \<and>
     ring_ok (tx_file q) \<and> ring_ok (tx_video q) \<and> ring_ok (tx_fake q)"

definition tx_contents :: "tx_queues \<Rightarrow> buf_ptr list" where
  "tx_contents q = ring_contents (tx_control q) @ ring_contents (tx_audio q) @
     ring_contents (tx_chat q) @ ring_contents (tx_file q) @ ring_contents (tx_video q) @
     ring_contents (tx_fake q)"

section \<open>Receive queues\<close>

record rx_queues =
  rx_control :: buf_ring
  rx_audio :: buf_ring
  rx_chat :: buf_ring
  rx_file :: buf_ring
  rx_video :: buf_ring
  rx_route :: buf_ring

definition rx_queues_init :: "rx_queues \<Rightarrow> rx_queues" where
  "rx_queues_init q = q\<lparr>rx_control := ring_init (rx_control q), rx_audio := ring_init (rx_audio q),
     rx_chat := ring_init (rx_chat q), rx_file := ring_init (rx_file q),
     rx_video := ring_init (rx_video q), rx_route := ring_init (rx_route q)\<rparr>"

definition rx_demux_push :: "rx_queues \<Rightarrow> buf_ptr \<Rightarrow> u8 \<Rightarrow> int \<times> rx_queues" where
  "rx_demux_push q p channel =
     (if channel = CH_CONTROL then
        (let (st, r) = ring_push (rx_control q) p in (st, q\<lparr>rx_control := r\<rparr>))
      else if channel = CH_AUDIO then
        (let (st, r) = ring_push (rx_audio q) p in (st, q\<lparr>rx_audio := r\<rparr>))
      else if channel = CH_CHAT then
        (let (st, r) = ring_push (rx_chat q) p in (st, q\<lparr>rx_chat := r\<rparr>))
      else if channel = CH_FILE then
        (let (st, r) = ring_push (rx_file q) p in (st, q\<lparr>rx_file := r\<rparr>))
      else if channel = CH_VIDEO then
        (let (st, r) = ring_push (rx_video q) p in (st, q\<lparr>rx_video := r\<rparr>))
      else if channel = CH_ROUTE then
        (let (st, r) = ring_push (rx_route q) p in (st, q\<lparr>rx_route := r\<rparr>))
      else (-1, q))"

definition rx_ok :: "rx_queues \<Rightarrow> bool" where
  "rx_ok q \<longleftrightarrow> ring_ok (rx_control q) \<and> ring_ok (rx_audio q) \<and> ring_ok (rx_chat q) \<and>
     ring_ok (rx_file q) \<and> ring_ok (rx_video q) \<and> ring_ok (rx_route q)"

text \<open>The queue a channel is delivered to; other channel numbers have none.\<close>

definition rx_queue_of :: "rx_queues \<Rightarrow> u8 \<Rightarrow> buf_ptr list" where
  "rx_queue_of q ch =
     (if ch = CH_CONTROL then ring_contents (rx_control q)
      else if ch = CH_AUDIO then ring_contents (rx_audio q)
      else if ch = CH_CHAT then ring_contents (rx_chat q)
      else if ch = CH_FILE then ring_contents (rx_file q)
      else if ch = CH_VIDEO then ring_contents (rx_video q)
      else if ch = CH_ROUTE then ring_contents (rx_route q)
      else [])"

section \<open>Strict priority\<close>

lemma ring_pop_cases:
  assumes "ring_ok r"
  obtains "ring_pop r = (None, r)" "ring_contents r = []"
  | x r' where "ring_pop r = (Some x, r')" "ring_contents r = x # ring_contents r'" "ring_ok r'"
  using assms spsc.pop_empty [of r] spsc.pop_item [of r] by (cases "ring_contents r") fastforce+

text \<open>
  The six rings behave as one queue, the concatenation of their contents in the order of
  priority: a call takes the head of it and leaves the rest.
\<close>

lemma scheduler_next_priority:
  assumes "tx_ok q"
  shows "case tx_contents q of
      [] \<Rightarrow> scheduler_next q = (None, q)
    | x # xs \<Rightarrow> \<exists>q'. scheduler_next q = (Some x, q') \<and> tx_contents q' = xs \<and> tx_ok q'"
proof -
  have ok: "ring_ok (tx_control q)" "ring_ok (tx_audio q)" "ring_ok (tx_chat q)"
    "ring_ok (tx_file q)" "ring_ok (tx_video q)" "ring_ok (tx_fake q)"
    using assms by (simp_all add: tx_ok_def)
  show ?thesis
    by (rule ring_pop_cases [OF ok(1)]; rule ring_pop_cases [OF ok(2)]; rule ring_pop_cases [OF ok(3)];
        rule ring_pop_cases [OF ok(4)]; rule ring_pop_cases [OF ok(5)]; rule ring_pop_cases [OF ok(6)])
      (simp_all add: scheduler_next_def tx_contents_def tx_ok_def ok)
qed

text \<open>Calling the scheduler until it returns \<open>NULL\<close>, as the transmit thread does.\<close>

fun scheduler_drain :: "nat \<Rightarrow> tx_queues \<Rightarrow> buf_ptr list \<times> tx_queues" where
  "scheduler_drain 0 q = ([], q)"
| "scheduler_drain (Suc n) q =
     (case scheduler_next q of
        (None, q') \<Rightarrow> ([], q')
      | (Some p, q') \<Rightarrow> let (ps, q'') = scheduler_drain n q' in (p # ps, q''))"

lemma scheduler_drain_take:
  "tx_ok q \<Longrightarrow> fst (scheduler_drain n q) = take n (tx_contents q) \<and>
     tx_contents (snd (scheduler_drain n q)) = drop n (tx_contents q) \<and> tx_ok (snd (scheduler_drain n q))"
proof (induction n arbitrary: q)
  case (Suc n)
  show ?case
  proof (cases "tx_contents q")
    case Nil
    then have "scheduler_next q = (None, q)" using scheduler_next_priority [OF Suc.prems] by simp
    then show ?thesis using Nil Suc.prems by simp
  next
    case (Cons x xs)
    then obtain q' where "scheduler_next q = (Some x, q')" "tx_contents q' = xs" "tx_ok q'"
      using scheduler_next_priority [OF Suc.prems] by auto
    then show ?thesis using Cons Suc.IH [of q'] by (simp add: split_beta)
  qed
qed simp

section \<open>Delivery\<close>

lemma rx_demux_push_delivers:
  assumes "rx_ok q"
  shows "rx_ok (snd (rx_demux_push q p ch)) \<and>
    rx_queue_of (snd (rx_demux_push q p ch)) c =
      rx_queue_of q c @ (if c = ch \<and> fst (rx_demux_push q p ch) = 0 then [p] else [])"
proof -
  note defs = rx_demux_push_def rx_queue_of_def rx_ok_def split_beta spsc.contents_push spsc.ok_push
  show ?thesis using assms by (auto simp: defs)
qed

lemma rx_demux_push_status:
  assumes "rx_ok q"
  shows "fst (rx_demux_push q p ch) =
    (if ch \<in> {CH_CONTROL, CH_AUDIO, CH_CHAT, CH_FILE, CH_VIDEO, CH_ROUTE} \<and>
        length (rx_queue_of q ch) < RING_SIZE - 1 then 0 else -1)"
  using assms by (auto simp: rx_demux_push_def rx_queue_of_def rx_ok_def split_beta spsc.push_status)

section \<open>Properties\<close>

text \<open>
  C32: The transmit scheduler serves its six queues in strict priority order (control, audio,
  chat, file, video, decoys) and first-in first-out within a queue: repeated calls return the
  concatenation of the queues' contents in that order, and leave the rest queued.
\<close>

theorem scheduler_strict_priority:
  assumes "tx_ok q"
  shows "fst (scheduler_drain n q) = take n (tx_contents q) \<and>
    tx_contents (snd (scheduler_drain n q)) = drop n (tx_contents q) \<and> tx_ok (snd (scheduler_drain n q))"
  using assms by (rule scheduler_drain_take)

definition tx_sample :: tx_queues where
  "tx_sample = \<lparr>tx_control = \<lparr>slots = replicate 1024 4, write_idx = 1, read_idx = 0\<rparr>,
     tx_audio = \<lparr>slots = replicate 1024 0, write_idx = 0, read_idx = 0\<rparr>,
     tx_chat = \<lparr>slots = replicate 1024 0, write_idx = 0, read_idx = 0\<rparr>,
     tx_file = \<lparr>slots = replicate 1024 0, write_idx = 0, read_idx = 0\<rparr>,
     tx_video = \<lparr>slots = replicate 1024 0, write_idx = 0, read_idx = 0\<rparr>,
     tx_fake = \<lparr>slots = replicate 1024 9, write_idx = 1, read_idx = 0\<rparr>\<rparr>"

lemma tx_sample_ok: "tx_ok tx_sample"
  by (simp add: tx_sample_def tx_ok_def ring_ok_def)

theorem scheduler_strict_priority_witness:
  "fst (scheduler_drain 2 tx_sample) = take 2 (tx_contents tx_sample) \<and>
   tx_contents (snd (scheduler_drain 2 tx_sample)) = drop 2 (tx_contents tx_sample) \<and>
   tx_ok (snd (scheduler_drain 2 tx_sample)) \<and> tx_contents tx_sample = [4, 9]"
  using scheduler_strict_priority [OF tx_sample_ok, of 2]
  by (simp add: tx_sample_def tx_contents_def ring_contents_def ring_count_def)

end
