(* ===== verification/Packet_Wire.thy ===== *)
theory Packet_Wire
  imports Packet_Pool Scheduler
begin

text \<open>
  The 24-byte packet header: the store sequence every sender uses, \<open>packet_parse\<close>
  (\<open>lib/layers/packet_parse.c\<close>) and the static checks (\<open>lib/layers/static_shell.c\<close>) over the
  packet view of \<open>lib/core/packet_view.h\<close>. A view's \<open>payload\<close> pointer is the offset into the
  data of its buffer.
\<close>

section \<open>Data\<close>

abbreviation HEADER_SIZE :: nat where "HEADER_SIZE \<equiv> 24"
abbreviation AEAD_NONCE_SIZE :: nat where "AEAD_NONCE_SIZE \<equiv> 12"
abbreviation AEAD_TAG_SIZE :: nat where "AEAD_TAG_SIZE \<equiv> 16"
abbreviation PROTO_MAGIC :: u32 where "PROTO_MAGIC \<equiv> 0xAABBCCDD"
abbreviation DECOY_MAGIC :: u32 where "DECOY_MAGIC \<equiv> 0xDEADBEEF"
abbreviation PROTO_VERSION :: u8 where "PROTO_VERSION \<equiv> 1"
abbreviation PACKET_FLAG_ENCRYPTED :: u8 where "PACKET_FLAG_ENCRYPTED \<equiv> 1"
abbreviation PACKET_FLAG_FEC_PARITY :: u8 where "PACKET_FLAG_FEC_PARITY \<equiv> 2"

record packet_view =
  magic :: u32
  version :: u8
  flags :: u8
  view_session_id :: u64
  channel_id :: u8
  seq :: u32
  plength :: nat
  payload :: nat
  nonce :: bytes
  tag :: bytes
  encrypted :: bool
  path_idx :: nat

section \<open>Writing the header\<close>

text \<open>
  \<open>memset(d, 0, 24)\<close> followed by the seven \<open>memcpy\<close> calls of the fields; the last byte of the
  header stays zero.
\<close>

definition write_header :: "u8 \<Rightarrow> u64 \<Rightarrow> u8 \<Rightarrow> u32 \<Rightarrow> nat \<Rightarrow> bytes \<Rightarrow> bytes" where
  "write_header fl sid ch sq plen d =
     (let d1 = mem_write 0 (replicate HEADER_SIZE 0) d;
          d2 = mem_write 0 (le_bytes 4 PROTO_MAGIC) d1;
          d3 = mem_write 4 [PROTO_VERSION] d2;
          d4 = mem_write 5 [fl] d3;
          d5 = mem_write 6 (le_bytes 8 sid) d4;
          d6 = mem_write 14 [ch] d5;
          d7 = mem_write 15 (le_bytes 4 sq) d6
      in mem_write 19 (le_bytes 4 (of_nat plen :: u32)) d7)"

definition write_packet :: "u8 \<Rightarrow> u64 \<Rightarrow> u8 \<Rightarrow> u32 \<Rightarrow> bytes \<Rightarrow> packet_buf \<Rightarrow> packet_buf" where
  "write_packet fl sid ch sq pl b =
     b\<lparr>data := mem_write HEADER_SIZE pl (write_header fl sid ch sq (length pl) (data b)),
       len := HEADER_SIZE + length pl\<rparr>"

section \<open>Parsing and static checks\<close>

definition packet_parse :: "packet_buf \<Rightarrow> packet_view option" where
  "packet_parse b =
     (if len b < HEADER_SIZE then None
      else
        let d = data b;
            length0 = unat (le_word (mem_read 19 4 d) :: u32);
            fl = d ! 5
        in if length0 > MAX_PACKET_SIZE - HEADER_SIZE then None
           else if len b \<noteq> HEADER_SIZE + length0 then None
           else
             let enc = (fl AND PACKET_FLAG_ENCRYPTED) \<noteq> 0
             in if enc \<and> length0 < AEAD_NONCE_SIZE + AEAD_TAG_SIZE then None
                else
                  let off = (if enc then HEADER_SIZE + AEAD_NONCE_SIZE else HEADER_SIZE);
                      plen = (if enc then length0 - (AEAD_NONCE_SIZE + AEAD_TAG_SIZE) else length0)
                  in Some \<lparr>magic = le_word (mem_read 0 4 d), version = d ! 4, flags = fl,
                       view_session_id = le_word (mem_read 6 8 d), channel_id = d ! 14,
                       seq = le_word (mem_read 15 4 d), plength = plen, payload = off,
                       nonce = (if enc then mem_read HEADER_SIZE AEAD_NONCE_SIZE d else replicate AEAD_NONCE_SIZE 0),
                       tag = (if enc then mem_read (off + plen) AEAD_TAG_SIZE d else replicate AEAD_TAG_SIZE 0),
                       encrypted = enc, path_idx = 0\<rparr>)"

definition static_check :: "packet_view \<Rightarrow> int" where
  "static_check p =
     (if magic p \<noteq> PROTO_MAGIC then -1
      else if version p \<noteq> PROTO_VERSION then -1
      else if plength p = 0 \<or> plength p > 1400 then -1
      else if flags p AND NOT (PACKET_FLAG_ENCRYPTED OR PACKET_FLAG_FEC_PARITY) \<noteq> 0 then -1
      else if channel_id p < CH_CONTROL \<or> channel_id p > CH_VIDEO then -1
      else if seq p = 0 then -1
      else 0)"

text \<open>The bytes a view's payload pointer and length describe.\<close>

definition view_payload :: "packet_buf \<Rightarrow> packet_view \<Rightarrow> bytes" where
  "view_payload b v = mem_read (payload v) (plength v) (data b)"

section \<open>Memory safety and totality of the parser\<close>

text \<open>Every region a successful parse hands out lies inside the buffer and inside the received length.\<close>

lemma packet_parse_bounds:
  assumes "buf_ok b" and "packet_parse b = Some v"
  shows "payload v + plength v \<le> len b \<and> len b \<le> MAX_PACKET_SIZE \<and>
    length (view_payload b v) = plength v \<and> length (nonce v) = AEAD_NONCE_SIZE \<and>
    length (tag v) = AEAD_TAG_SIZE \<and>
    (encrypted v \<longrightarrow> payload v + plength v + AEAD_TAG_SIZE = len b)"
  using assms
  by (auto simp: packet_parse_def Let_def buf_ok_def view_payload_def mem_simps split: if_splits)

lemma packet_parse_encrypted_flag:
  "packet_parse b = Some v \<Longrightarrow> encrypted v \<longleftrightarrow> flags v AND PACKET_FLAG_ENCRYPTED \<noteq> 0"
  by (auto simp: packet_parse_def Let_def split: if_splits)

section \<open>Round trip\<close>

lemma length_write_header [mem_simps]: "HEADER_SIZE \<le> length d \<Longrightarrow> length (write_header fl sid ch sq n d) = length d"
  by (simp add: write_header_def mem_simps)

lemma write_header_fields:
  assumes "HEADER_SIZE \<le> length d"
  shows "mem_read 0 4 (write_header fl sid ch sq n d) = le_bytes 4 PROTO_MAGIC"
    "write_header fl sid ch sq n d ! 4 = PROTO_VERSION"
    "write_header fl sid ch sq n d ! 5 = fl"
    "mem_read 6 8 (write_header fl sid ch sq n d) = le_bytes 8 sid"
    "write_header fl sid ch sq n d ! 14 = ch"
    "mem_read 15 4 (write_header fl sid ch sq n d) = le_bytes 4 sq"
    "mem_read 19 4 (write_header fl sid ch sq n d) = le_bytes 4 (of_nat n :: u32)"
    "write_header fl sid ch sq n d ! 23 = 0"
    "mem_read HEADER_SIZE k (write_header fl sid ch sq n d) = mem_read HEADER_SIZE k d"
  using assms by (simp_all add: write_header_def Let_def mem_simps nth_Cons')

lemma packet_parse_write:
  assumes b: "buf_ok b" and fl: "fl AND PACKET_FLAG_ENCRYPTED = 0"
    and pl: "length pl \<le> MAX_PACKET_SIZE - HEADER_SIZE"
  shows "\<exists>v. packet_parse (write_packet fl sid ch sq pl b) = Some v \<and>
    magic v = PROTO_MAGIC \<and> version v = PROTO_VERSION \<and> flags v = fl \<and> view_session_id v = sid \<and>
    channel_id v = ch \<and> seq v = sq \<and> plength v = length pl \<and> payload v = HEADER_SIZE \<and>
    \<not> encrypted v \<and> view_payload (write_packet fl sid ch sq pl b) v = pl"
proof -
  let ?h = "write_header fl sid ch sq (length pl) (data b)"
  have l: "length (data b) = MAX_PACKET_SIZE" using b by (simp add: buf_ok_def)
  then have lh: "length ?h = MAX_PACKET_SIZE" by (simp add: mem_simps)
  have u: "unat (of_nat (length pl) :: u32) = length pl"
    using pl by (simp add: unat_of_nat)
  have rd: "mem_read off n (mem_write HEADER_SIZE pl ?h) = mem_read off n ?h" if "off + n \<le> HEADER_SIZE" for off n
    using that lh by (simp add: mem_simps)
  have nt: "mem_write HEADER_SIZE pl ?h ! i = ?h ! i" if "i < HEADER_SIZE" for i
    using that lh by (simp add: mem_simps)
  show ?thesis
    using l lh fl pl u
    by (simp add: packet_parse_def write_packet_def Let_def rd nt write_header_fields wire_simps view_payload_def mem_simps)
qed

lemma static_check_write:
  assumes b: "buf_ok b" and pl: "0 < length pl" "length pl \<le> 1400" and sq: "sq \<noteq> 0"
    and ch: "CH_CONTROL \<le> ch" "ch \<le> CH_VIDEO" and fl: "fl = 0 \<or> fl = PACKET_FLAG_FEC_PARITY"
    and v: "packet_parse (write_packet fl sid ch sq pl b) = Some v"
  shows "static_check v = 0"
proof -
  have "fl AND PACKET_FLAG_ENCRYPTED = 0" using fl by auto
  then obtain v' where "packet_parse (write_packet fl sid ch sq pl b) = Some v'"
    "magic v' = PROTO_MAGIC" "version v' = PROTO_VERSION" "flags v' = fl" "channel_id v' = ch"
    "seq v' = sq" "plength v' = length pl"
    using packet_parse_write [OF b, of fl pl sid ch sq] pl by auto
  moreover have "fl AND NOT 3 = 0" using fl by auto
  ultimately show ?thesis
    using v pl sq ch by (auto simp: static_check_def not_less)
qed

lemma static_check_spec:
  "static_check v = 0 \<longleftrightarrow> magic v = PROTO_MAGIC \<and> version v = PROTO_VERSION \<and> 0 < plength v \<and>
     plength v \<le> 1400 \<and> flags v AND NOT 3 = 0 \<and> CH_CONTROL \<le> channel_id v \<and>
     channel_id v \<le> CH_VIDEO \<and> seq v \<noteq> 0"
proof -
  have "channel_id v \<noteq> 0 \<Longrightarrow> 1 \<le> channel_id v" by (simp add: word_le_nat_alt Suc_le_eq unat_gt_0)
  then show ?thesis by (auto simp: static_check_def)
qed

text \<open>
  The other direction: writing the parsed fields of an accepted packet back reproduces its
  first 23 header bytes, so the header has no other representation.
\<close>

lemma mem_read_le_word:
  "\<lbrakk> off + n \<le> length d; 8 * n \<le> LENGTH('a) \<rbrakk> \<Longrightarrow> le_bytes n (le_word (mem_read off n d) :: 'a::len word) = mem_read off n d"
  by (rule le_bytes_le_word) (simp_all add: mem_simps)

lemma write_header_parse:
  assumes b: "buf_ok b" and v: "packet_parse b = Some v" and m: "magic v = PROTO_MAGIC" "version v = PROTO_VERSION"
    and d': "HEADER_SIZE \<le> length d'"
  shows "mem_read 0 23 (write_header (flags v) (view_session_id v) (channel_id v) (seq v)
           (len b - HEADER_SIZE) d') = mem_read 0 23 (data b)"
proof -
  let ?w = "write_header (flags v) (view_session_id v) (channel_id v) (seq v) (len b - HEADER_SIZE) d'"
  have l: "length (data b) = MAX_PACKET_SIZE" using b by (simp add: buf_ok_def)
  have f: "magic v = le_word (mem_read 0 4 (data b))" "version v = data b ! 4" "flags v = data b ! 5"
    "view_session_id v = le_word (mem_read 6 8 (data b))" "channel_id v = data b ! 14"
    "seq v = le_word (mem_read 15 4 (data b))"
    "len b = HEADER_SIZE + unat (le_word (mem_read 19 4 (data b)) :: u32)"
    using v by (auto simp: packet_parse_def Let_def split: if_splits)
  have split: "mem_read 0 23 x = mem_read 0 4 x @ [x ! 4] @ [x ! 5] @ mem_read 6 8 x @ [x ! 14] @
      mem_read 15 4 x @ mem_read 19 4 x" if "HEADER_SIZE \<le> length x" for x :: bytes
    using that mem_read_append_split [of 0 4 19 x] mem_read_append_split [of 4 1 18 x]
      mem_read_append_split [of 5 1 17 x] mem_read_append_split [of 6 8 9 x]
      mem_read_append_split [of 14 1 8 x] mem_read_append_split [of 15 4 4 x]
    by (simp add: mem_simps)
  have "le_bytes 4 PROTO_MAGIC = mem_read 0 4 (data b)"
    using mem_read_le_word [of 0 4 "data b", where 'a = 32] l m f by simp
  moreover have "le_bytes 8 (view_session_id v) = mem_read 6 8 (data b)"
    using mem_read_le_word [of 6 8 "data b", where 'a = 64] l f by simp
  moreover have "le_bytes 4 (seq v) = mem_read 15 4 (data b)"
    using mem_read_le_word [of 15 4 "data b", where 'a = 32] l f by simp
  moreover have "le_bytes 4 (of_nat (len b - HEADER_SIZE) :: u32) = mem_read 19 4 (data b)"
    using mem_read_le_word [of 19 4 "data b", where 'a = 32] l f by simp
  ultimately show ?thesis
    using l m f d' split [of ?w] split [of "data b"]
    by (simp add: mem_simps write_header_fields)
qed

section \<open>Properties\<close>

definition buf_sample :: packet_buf where
  "buf_sample = \<lparr>addr = replicate 32 0, addr_len = 28, len = 0, data = replicate 1500 255\<rparr>"

lemma buf_sample_ok: "buf_ok buf_sample"
  by (simp add: buf_sample_def buf_ok_def)

text \<open>
  C24: Writing and parsing a plaintext packet is a round trip: for every session id, channel,
  sequence number and payload that fits, \<open>packet_parse\<close> of the packet returns exactly these
  fields and this payload, whatever the buffer held before.
\<close>

theorem packet_parse_roundtrip:
  assumes "buf_ok b" and "fl AND PACKET_FLAG_ENCRYPTED = 0" and "length pl \<le> MAX_PACKET_SIZE - HEADER_SIZE"
  shows "\<exists>v. packet_parse (write_packet fl sid ch sq pl b) = Some v \<and>
    magic v = PROTO_MAGIC \<and> version v = PROTO_VERSION \<and> flags v = fl \<and> view_session_id v = sid \<and>
    channel_id v = ch \<and> seq v = sq \<and> plength v = length pl \<and> payload v = HEADER_SIZE \<and>
    \<not> encrypted v \<and> view_payload (write_packet fl sid ch sq pl b) v = pl"
  using assms by (rule packet_parse_write)

theorem packet_parse_roundtrip_witness:
  "\<exists>v. packet_parse (write_packet 0 77 CH_CHAT 5 [104, 105] buf_sample) = Some v \<and>
    view_session_id v = 77 \<and> seq v = 5 \<and> view_payload (write_packet 0 77 CH_CHAT 5 [104, 105] buf_sample) v = [104, 105]"
  using packet_parse_roundtrip [OF buf_sample_ok, of 0 "[104, 105]" 77 CH_CHAT 5] by auto

text \<open>
  C25: The parser is memory safe: whatever bytes arrive, a view it returns points inside the
  received bytes of the 1500-byte buffer, and for an encrypted packet the payload is followed
  by exactly the 16 tag bytes.
\<close>

theorem packet_parse_safe:
  assumes "buf_ok b" and "packet_parse b = Some v"
  shows "payload v + plength v \<le> len b \<and> len b \<le> MAX_PACKET_SIZE \<and>
    length (view_payload b v) = plength v \<and> length (nonce v) = AEAD_NONCE_SIZE \<and>
    length (tag v) = AEAD_TAG_SIZE \<and>
    (encrypted v \<longrightarrow> payload v + plength v + AEAD_TAG_SIZE = len b)"
  using assms by (rule packet_parse_bounds)

lemma write_packet_ok:
  "\<lbrakk> buf_ok b; length pl \<le> MAX_PACKET_SIZE - HEADER_SIZE \<rbrakk> \<Longrightarrow> buf_ok (write_packet fl sid ch sq pl b)"
  by (simp add: buf_ok_def write_packet_def mem_simps)

theorem packet_parse_safe_witness:
  "\<exists>v. packet_parse (write_packet 0 77 CH_CHAT 5 [104, 105] buf_sample) = Some v \<and> payload v + plength v \<le> 26"
proof -
  obtain v where v: "packet_parse (write_packet 0 77 CH_CHAT 5 [104, 105] buf_sample) = Some v"
    using packet_parse_write [OF buf_sample_ok, of 0 "[104, 105]" 77 CH_CHAT 5] by auto
  have "buf_ok (write_packet 0 77 CH_CHAT 5 [104, 105] buf_sample)"
    by (simp add: write_packet_ok buf_sample_ok)
  from packet_parse_safe [OF this v] v show ?thesis by (simp add: write_packet_def)
qed

end
