(* ===== verification/Seq_Check.thy ===== *)
theory Seq_Check
  imports Session Packet_Wire
begin

text \<open>
  The replay window of \<open>lib/layers/seq_check.c\<close>: the highest sequence number seen and a 64-bit
  map of the numbers below it. The window is related to the set of all sequence numbers
  accepted so far; the lemmas of the interface \<open>replay_filter\<close> then give at-most-once
  acceptance over any sequence of packets.
\<close>

section \<open>Operations\<close>

abbreviation REPLAY_WINDOW_SIZE :: u32 where "REPLAY_WINDOW_SIZE \<equiv> 64"

type_synonym window = "u32 \<times> u64"

definition seq_check_bitmap :: "u32 \<Rightarrow> window \<Rightarrow> int \<times> window" where
  "seq_check_bitmap sq w =
     (let (last, bitmap) = w in
      if sq = 0 then (-1, w)
      else if last = 0 then (0, (sq, 1))
      else if sq > last then
        (let diff = sq - last;
             b1 = (if diff \<ge> REPLAY_WINDOW_SIZE then 0 else push_bit (unat diff) bitmap)
         in (0, (sq, b1 OR 1)))
      else
        (let offset = last - sq in
         if offset \<ge> REPLAY_WINDOW_SIZE then (-1, w)
         else
           let b1 = (if bitmap = 0 then 1 else bitmap);
               mask = push_bit (unat offset) 1
           in if b1 AND mask \<noteq> 0 then (-1, (last, b1))
              else (0, (last, b1 OR mask))))"

definition seq_check :: "session \<Rightarrow> packet_view \<Rightarrow> int \<times> session" where
  "seq_check s p =
     (let sq = seq p in
      if sq = 0 then (-1, s)
      else if multipath_enabled (resilience s) \<and> path_idx p < path_count (resilience s) then
        (let path = paths (resilience s) ! path_idx p;
             (st, (l, b)) = seq_check_bitmap sq (path_last_seq path, path_recv_bitmap path)
         in (st, s\<lparr>resilience := path_update (path_idx p)
                    (\<lambda>m. m\<lparr>path_last_seq := l, path_recv_bitmap := b\<rparr>) (resilience s)\<rparr>))
      else
        (let (st, (l, b)) = seq_check_bitmap sq (last_seq s, recv_bitmap s)
         in (st, s\<lparr>last_seq := l, recv_bitmap := b\<rparr>)))"

section \<open>The replay interface\<close>

text \<open>
  \<open>rel w A\<close>: the filter state \<open>w\<close> stands for the set \<open>A\<close> of everything accepted so far.
\<close>

locale replay_filter =
  fixes check :: "'a \<Rightarrow> 'w \<Rightarrow> int \<times> 'w"
    and rel :: "'w \<Rightarrow> 'a set \<Rightarrow> bool"
  assumes accepted: "\<lbrakk> rel w A; check x w = (0, w') \<rbrakk> \<Longrightarrow> x \<notin> A \<and> rel w' (insert x A)"
    and rejected: "\<lbrakk> rel w A; check x w = (st, w'); st \<noteq> 0 \<rbrakk> \<Longrightarrow> rel w' A"
begin

fun accept_run :: "'a list \<Rightarrow> 'w \<Rightarrow> 'a list \<times> 'w" where
  "accept_run [] w = ([], w)"
| "accept_run (x # xs) w =
     (let (st, w1) = check x w; (ys, w2) = accept_run xs w1
      in (if st = 0 then x # ys else ys, w2))"

lemma accept_run_distinct:
  "\<lbrakk> rel w A; accept_run xs w = (ys, w') \<rbrakk> \<Longrightarrow> distinct ys \<and> set ys \<inter> A = {} \<and> rel w' (A \<union> set ys)"
proof (induction xs arbitrary: w A ys)
  case (Cons x xs)
  obtain st w1 where c: "check x w = (st, w1)" by fastforce
  obtain ys1 w2 where r: "accept_run xs w1 = (ys1, w2)" by fastforce
  show ?case
  proof (cases "st = 0")
    case True
    then have "x \<notin> A" "rel w1 (insert x A)" using accepted Cons.prems c by auto
    moreover have "ys = x # ys1" "w' = w2" using Cons.prems c r True by simp_all
    ultimately show ?thesis using Cons.IH [of w1 "insert x A"] r by (auto simp: insert_commute)
  next
    case False
    then have "rel w1 A" using rejected Cons.prems c by auto
    then show ?thesis using Cons.IH [of w1 A] Cons.prems c r False by auto
  qed
qed simp

lemma replay_rejected: "\<lbrakk> rel w A; x \<in> A; check x w = (st, w') \<rbrakk> \<Longrightarrow> st \<noteq> 0"
  using accepted by blast

end

section \<open>The window implements it\<close>

text \<open>
  Bit \<open>i\<close> of the map stands for \<open>last - i\<close>. Everything accepted is at most \<open>last\<close>, and of the
  64 numbers up to \<open>last\<close> exactly those with their bit set were accepted.
\<close>

definition window_rel :: "window \<Rightarrow> u32 set \<Rightarrow> bool" where
  "window_rel w A \<longleftrightarrow>
     (let (last, bitmap) = w in
      (last = 0 \<and> A = {}) \<or>
      (last \<noteq> 0 \<and> last \<in> A \<and> 0 \<notin> A \<and> (\<forall>x \<in> A. unat x \<le> unat last) \<and>
       (\<forall>i < 64. bit bitmap i \<longleftrightarrow> i < unat last \<and> of_nat (unat last - i) \<in> A)))"

lemma unat_sub_le: "unat (b :: u32) \<le> unat a \<Longrightarrow> unat (a - b) = unat a - unat b"
  by (simp add: unat_sub word_le_nat_alt)

lemma unat_back: "unat (of_nat (unat a - i) :: u32) = unat (a :: u32) - i"
proof -
  have "unat a < 2 ^ LENGTH(32)" by (rule unsigned_less)
  then show ?thesis by (simp add: unat_of_nat)
qed

lemma of_nat_back_eq: "of_nat (unat a - i) = (x :: u32) \<longleftrightarrow> unat (a :: u32) - i = unat x"
  by (metis unat_back word_unat_eq_iff)

lemma window_rel_first: "sq \<noteq> 0 \<Longrightarrow> window_rel (sq, 1) {sq}"
  by (auto simp: window_rel_def bit_1_iff unat_gt_0 of_nat_back_eq)

lemma window_rel_forward:
  assumes r: "window_rel (ls, bm) A" and l: "ls \<noteq> 0" "ls < sq"
  shows "sq \<notin> A \<and> window_rel (sq, (if sq - ls \<ge> 64 then 0 else push_bit (unat (sq - ls)) bm) OR 1) (insert sq A)"
proof -
  have u: "unat ls < unat sq" using l(2) by (simp add: word_less_nat_alt)
  have A: "ls \<in> A" "0 \<notin> A" "\<forall>x \<in> A. unat x \<le> unat ls"
    "\<forall>i < 64. bit bm i \<longleftrightarrow> i < unat ls \<and> of_nat (unat ls - i) \<in> A"
    using r l(1) by (auto simp: window_rel_def)
  have d: "unat (sq - ls) = unat sq - unat ls" using u by (simp add: unat_sub_le)
  have nA: "of_nat (unat sq - i) \<notin> A" if "i < unat sq - unat ls" for i
  proof -
    have "unat (of_nat (unat sq - i) :: u32) = unat sq - i"
      by (rule unat_back)
    then show ?thesis using A(3) that by fastforce
  qed
  define b' where "b' = (if sq - ls \<ge> 64 then 0 else push_bit (unat (sq - ls)) bm) OR (1 :: u64)"
  have b': "bit b' i \<longleftrightarrow> i = 0 \<or> unat sq - unat ls \<le> i \<and> bit bm (i - (unat sq - unat ls))" if "i < 64" for i
    using that u by (auto simp: b'_def bit_or_iff bit_1_iff bit_push_bit_iff d word_le_nat_alt)
  have "bit b' i \<longleftrightarrow> i < unat sq \<and> of_nat (unat sq - i) \<in> insert sq A" if i: "i < 64" for i
  proof (cases "unat sq - unat ls \<le> i")
    case True
    then have "unat ls - (i - (unat sq - unat ls)) = unat sq - i" "i - (unat sq - unat ls) < 64"
      and "i < unat sq \<longleftrightarrow> i - (unat sq - unat ls) < unat ls" using u i by linarith+
    moreover have "of_nat (unat sq - i) \<noteq> sq"
      using True u unfolding of_nat_back_eq by auto
    ultimately show ?thesis using b' [OF i] A(4) True u by auto
  next
    case False
    have "of_nat (unat sq - i) = sq \<longleftrightarrow> i = 0"
      using False u unfolding of_nat_back_eq by auto
    then show ?thesis using b' [OF i] nA [of i] False u by auto
  qed
  moreover have "sq \<notin> A" using nA [of 0] u by simp
  moreover have "sq \<noteq> 0" "\<forall>x \<in> A. unat x \<le> unat sq" using u A(3) by (auto simp: less_imp_le dest: le_less_trans)
  ultimately show ?thesis using A(2) unfolding b'_def [symmetric] by (simp add: window_rel_def)
qed

lemma window_rel_backward:
  assumes r: "window_rel (ls, bm) A" and l: "ls \<noteq> 0" "sq \<noteq> 0" "sq \<le> ls" "ls - sq < 64"
  shows "bm \<noteq> 0 \<and> (bit bm (unat (ls - sq)) \<longleftrightarrow> sq \<in> A) \<and>
    window_rel (ls, bm OR 2 ^ unat (ls - sq)) (insert sq A)"
proof -
  have u: "unat sq \<le> unat ls" using l(3) by (simp add: word_le_nat_alt)
  have d: "unat (ls - sq) = unat ls - unat sq" using u by (simp add: unat_sub_le)
  have w: "unat ls - unat sq < 64" using l(4) d by (simp add: word_less_nat_alt)
  have A: "ls \<in> A" "0 \<notin> A" "\<forall>x \<in> A. unat x \<le> unat ls"
    "\<forall>i < 64. bit bm i \<longleftrightarrow> i < unat ls \<and> of_nat (unat ls - i) \<in> A"
    using r l(1) by (auto simp: window_rel_def)
  have pos: "0 < unat sq" using l(2) by (simp add: unat_gt_0)
  have "bit bm 0" using A l(1) by (simp add: unat_gt_0)
  then have "bm \<noteq> 0" by auto
  moreover have "bit bm (unat ls - unat sq) \<longleftrightarrow> sq \<in> A"
    using A(4) w u pos by simp
  moreover have "bit (bm OR 2 ^ (unat ls - unat sq)) i \<longleftrightarrow> i < unat ls \<and> of_nat (unat ls - i) \<in> insert sq A"
    if "i < 64" for i
    using A(4) that u w pos by (auto simp: bit_or_iff bit_exp_iff of_nat_back_eq)
  ultimately show ?thesis using A u l d by (simp add: window_rel_def)
qed

lemma seq_check_bitmap_spec:
  assumes r: "window_rel w A" and c: "seq_check_bitmap sq w = (st, w')"
  shows "(st = 0 \<longleftrightarrow> sq \<noteq> 0 \<and> sq \<notin> A \<and> (fst w = 0 \<or> unat (fst w) < unat sq + 64)) \<and>
    window_rel w' (if st = 0 then insert sq A else A) \<and> (st = 0 \<or> st = -1)"
proof -
  obtain ls bm where w: "w = (ls, bm)" by fastforce
  consider "sq = 0" | "sq \<noteq> 0" "ls = 0" | "sq \<noteq> 0" "ls \<noteq> 0" "ls < sq"
    | "sq \<noteq> 0" "ls \<noteq> 0" "\<not> ls < sq" "ls - sq \<ge> 64" | "sq \<noteq> 0" "ls \<noteq> 0" "\<not> ls < sq" "ls - sq < 64"
    by fastforce
  then show ?thesis
  proof cases
    case 1
    then show ?thesis using c r w by (auto simp: seq_check_bitmap_def)
  next
    case 2
    then have "A = {}" using r w by (auto simp: window_rel_def)
    then show ?thesis using 2 c w window_rel_first [of sq] by (auto simp: seq_check_bitmap_def)
  next
    case 3
    then have "unat ls < unat sq" by (simp add: word_less_nat_alt)
    then show ?thesis
      using window_rel_forward [of ls bm A sq] r 3 c w by (auto simp: seq_check_bitmap_def Let_def)
  next
    case 4
    then have "unat sq \<le> unat ls" by (simp add: word_le_nat_alt not_less)
    then have "\<not> unat ls < unat sq + 64" using 4 unat_sub_le [of sq ls] by (simp add: word_le_nat_alt)
    then show ?thesis using 4 c r w by (auto simp: seq_check_bitmap_def Let_def)
  next
    case 5
    then have le: "sq \<le> ls" by simp
    then have "unat sq \<le> unat ls" by (simp add: word_le_nat_alt)
    then have lt: "unat ls < unat sq + 64" using 5 unat_sub_le [of sq ls] by (simp add: word_less_nat_alt)
    note b = window_rel_backward [of ls bm A sq, OF _ 5(2,1) le 5(4)]
    have m: "bm AND 2 ^ unat (ls - sq) = 0 \<longleftrightarrow> sq \<notin> A"
      using b r w by (simp add: and_exp_eq_0_iff_not_bit)
    show ?thesis
      using 5 b c r w lt m by (auto simp: seq_check_bitmap_def Let_def not_le split: if_splits)
  qed
qed

interpretation replay_window: replay_filter seq_check_bitmap window_rel
proof (unfold_locales, goal_cases)
  case (1 w A x w')
  then show ?case using seq_check_bitmap_spec [of w A x 0 w'] by simp
next
  case (2 w A x st w')
  then show ?case using seq_check_bitmap_spec [of w A x st w'] by presburger
qed

section \<open>Sessions\<close>

text \<open>
  With one path the session itself is the filter. With multipath each path has its own
  window.
\<close>

definition session_window_rel :: "session \<Rightarrow> u32 set \<Rightarrow> bool" where
  "session_window_rel s A \<longleftrightarrow> \<not> multipath_enabled (resilience s) \<and> window_rel (last_seq s, recv_bitmap s) A"

lemma seq_check_single:
  "\<not> multipath_enabled (resilience s) \<Longrightarrow> seq_check s p =
     (let (st, (l, b)) = seq_check_bitmap (seq p) (last_seq s, recv_bitmap s)
      in (st, s\<lparr>last_seq := l, recv_bitmap := b\<rparr>))"
  by (auto simp: seq_check_def seq_check_bitmap_def Let_def)

lemma seq_check_session_spec:
  assumes r: "session_window_rel s A" and c: "seq_check s p = (st, s')"
  shows "(st = 0 \<longleftrightarrow> seq p \<noteq> 0 \<and> seq p \<notin> A \<and> (last_seq s = 0 \<or> unat (last_seq s) < unat (seq p) + 64)) \<and>
    session_window_rel s' (if st = 0 then insert (seq p) A else A) \<and>
    s' = s\<lparr>last_seq := last_seq s', recv_bitmap := recv_bitmap s'\<rparr>"
proof -
  obtain l b where q: "seq_check_bitmap (seq p) (last_seq s, recv_bitmap s) = (st, (l, b))"
    and s': "s' = s\<lparr>last_seq := l, recv_bitmap := b\<rparr>"
    using c r by (auto simp: seq_check_single session_window_rel_def split: prod.splits)
  then show ?thesis
    using seq_check_bitmap_spec [OF _ q, of A] r by (auto simp: session_window_rel_def)
qed

text \<open>
  The window that decides on packets of path \<open>i\<close>: that of the path if there are several, else that of the session. What
  was accepted under one of them stays known there, whatever else is checked.
\<close>

definition window_at :: "session \<Rightarrow> nat \<Rightarrow> window" where
  "window_at s i =
     (if multipath_enabled (resilience s) \<and> i < path_count (resilience s)
      then (path_last_seq (paths (resilience s) ! i), path_recv_bitmap (paths (resilience s) ! i))
      else (last_seq s, recv_bitmap s))"

definition paths_fit :: "session \<Rightarrow> bool" where
  "paths_fit s \<longleftrightarrow> path_count (resilience s) \<le> length (paths (resilience s))"

lemma window_at_same:
  "\<lbrakk> resilience s = resilience t; last_seq s = last_seq t; recv_bitmap s = recv_bitmap t \<rbrakk> \<Longrightarrow> window_at s = window_at t \<and> paths_fit s = paths_fit t"
  by (auto simp: window_at_def paths_fit_def)

lemma seq_check_window:
  assumes c: "seq_check s p = (st, s')" and f: "paths_fit s" and r: "window_rel (window_at s i) A"
  shows "paths_fit s' \<and> (\<exists>B. A \<subseteq> B \<and> window_rel (window_at s' i) B \<and> (st = 0 \<and> i = path_idx p \<longrightarrow> seq p \<notin> A \<and> seq p \<in> B))"
proof -
  let ?j = "path_idx p"
  obtain st' l b where q: "seq_check_bitmap (seq p) (window_at s ?j) = (st', (l, b))" by (metis prod_cases3)
  define w where "w = (l, b)"
  have s': "st = st' \<and> paths_fit s' \<and> window_at s' ?j = w \<and>
      (window_at s' i = w \<and> window_at s i = window_at s ?j \<or> window_at s' i = window_at s i)"
  proof (cases "seq p = 0")
    case True
    then have "s' = s" "st = -1" "st' = -1" "w = window_at s ?j" using c q by (auto simp: seq_check_def seq_check_bitmap_def w_def)
    then show ?thesis using f by simp
  next
    case z: False
    show ?thesis
    proof (cases "multipath_enabled (resilience s) \<and> ?j < path_count (resilience s)")
      case True
      let ?m = "\<lambda>m. m\<lparr>path_last_seq := l, path_recv_bitmap := b\<rparr>"
      have e: "st = st'" "s' = s\<lparr>resilience := path_update ?j ?m (resilience s)\<rparr>"
        using c q z True by (simp_all add: seq_check_def window_at_def)
      have "?j < length (paths (resilience s))" using True f by (simp add: paths_fit_def)
      then show ?thesis using True f unfolding e(2) w_def
        by (cases "i = ?j") (simp_all add: e(1) window_at_def paths_fit_def path_update_def)
    next
      case False
      then have "st = st'" "s' = s\<lparr>last_seq := l, recv_bitmap := b\<rparr>"
        using c q z by (auto simp: seq_check_def window_at_def)
      then show ?thesis using False f by (auto simp: window_at_def paths_fit_def w_def)
    qed
  qed
  show ?thesis
  proof (cases "window_at s i = window_at s ?j \<and> window_at s' i = w")
    case True
    then have "window_rel w (if st = 0 then insert (seq p) A else A)" "st = 0 \<longrightarrow> seq p \<notin> A"
      using seq_check_bitmap_spec [OF _ q, of A] r s' w_def by auto
    then show ?thesis using s' True by (intro conjI exI [of _ "if st = 0 then insert (seq p) A else A"]) auto
  next
    case False
    then have "window_at s' i = window_at s i" "i \<noteq> ?j" using s' by auto
    then show ?thesis using s' r by auto
  qed
qed

text \<open>
  The windows of two paths know nothing of each other: with multipath enabled, a packet
  already accepted on one path is accepted once more when it arrives on another path whose
  window has not passed it.
\<close>

lemma seq_check_cross_path:
  assumes mp: "multipath_enabled (resilience s)" "i < path_count (resilience s)" "j < path_count (resilience s)"
    and ok: "resilience_ok (resilience s)" and ij: "i \<noteq> j" and nz: "sq \<noteq> 0"
    and fresh: "path_last_seq (paths (resilience s) ! i) < sq" "path_last_seq (paths (resilience s) ! j) < sq"
  shows "fst (seq_check s (p\<lparr>seq := sq, path_idx := i\<rparr>)) = 0 \<and>
    fst (seq_check (snd (seq_check s (p\<lparr>seq := sq, path_idx := i\<rparr>))) (p\<lparr>seq := sq, path_idx := j\<rparr>)) = 0"
proof -
  have fwd: "\<exists>w. seq_check_bitmap sq (l, b) = (0, w)" if "l < sq" for l b
    using that nz by (auto simp: seq_check_bitmap_def Let_def)
  have l: "i < length (paths (resilience s))" "j < length (paths (resilience s))"
    using ok mp by (auto simp: resilience_ok_def)
  obtain l' b' where "seq_check_bitmap sq (path_last_seq (paths (resilience s) ! i),
      path_recv_bitmap (paths (resilience s) ! i)) = (0, (l', b'))"
    using fwd [OF fresh(1)] by (metis prod.exhaust)
  moreover obtain w where "seq_check_bitmap sq (path_last_seq (paths (resilience s) ! j),
      path_recv_bitmap (paths (resilience s) ! j)) = (0, w)"
    using fwd [OF fresh(2)] by blast
  ultimately show ?thesis
    using mp ij nz l by (simp add: seq_check_def path_update_def Let_def split: prod.splits)
qed

section \<open>Properties\<close>

text \<open>
  C14: Replay protection accepts every sequence number at most once. Whatever sequence numbers
  arrive, in whatever order, the numbers the window accepts are pairwise different and were
  not accepted before, and the window still stands for the set of everything accepted.
\<close>

theorem replay_at_most_once:
  assumes "window_rel w A" and "replay_window.accept_run sqs w = (acc, w')"
  shows "distinct acc \<and> set acc \<inter> A = {} \<and> window_rel w' (A \<union> set acc)"
  using replay_window.accept_run_distinct [OF assms] .

lemma replay_sample:
  "window_rel (0, 0) {}"
  "replay_window.accept_run [5, 3, 5, 70, 3, 6, 7] (0, 0) =
     ([5, 3, 70, 7], (70, 0x8000000000000001))"
  by (simp_all add: window_rel_def seq_check_bitmap_def Let_def)

theorem replay_at_most_once_witness:
  "distinct [5, 3, 70, 7 :: u32] \<and> window_rel (70, 0x8000000000000001) {5, 3, 70, 7}"
  using replay_at_most_once [OF replay_sample] by simp

text \<open>
  The window rejects nothing else: a session with one path accepts a packet exactly when
  its sequence number is not zero, was not accepted before and is less than 64 behind the
  highest accepted one. The check changes nothing but the window.
\<close>

theorem seq_check_exact:
  assumes "session_window_rel s A" and "seq_check s p = (st, s')"
  shows "(st = 0 \<longleftrightarrow> seq p \<noteq> 0 \<and> seq p \<notin> A \<and> (last_seq s = 0 \<or> unat (last_seq s) < unat (seq p) + 64)) \<and>
    session_window_rel s' (if st = 0 then insert (seq p) A else A) \<and>
    s' = s\<lparr>last_seq := last_seq s', recv_bitmap := recv_bitmap s'\<rparr>"
  using assms by (rule seq_check_session_spec)

definition view_sample :: packet_view where
  "view_sample = \<lparr>magic = PROTO_MAGIC, version = 1, flags = 0, view_session_id = 9, channel_id = CH_CHAT,
     seq = 4, plength = 1, payload = 24, nonce = replicate 12 0, tag = replicate 16 0,
     encrypted = False, path_idx = 0\<rparr>"

lemma seq_check_sample:
  "session_window_rel session_init {}"
  "seq_check session_init view_sample = (0, session_init\<lparr>last_seq := 4, recv_bitmap := 1\<rparr>)"
  by (simp_all add: session_window_rel_def window_rel_def session_init_def session_zero_def
      resilience_init_def resilience_zero_def seq_check_def seq_check_bitmap_def view_sample_def)

theorem seq_check_exact_witness:
  "session_window_rel (session_init\<lparr>last_seq := 4, recv_bitmap := 1\<rparr>) {4}"
  using seq_check_exact [OF seq_check_sample] by (simp add: view_sample_def)

text \<open>
  With multipath enabled the windows of the paths are independent, so replay protection
  does not hold across paths: a packet accepted on path \<open>i\<close> is accepted a second time when it
  arrives on path \<open>j\<close>.
\<close>

theorem replay_across_paths:
  assumes "multipath_enabled (resilience s)" "i < path_count (resilience s)" "j < path_count (resilience s)"
    and "resilience_ok (resilience s)" and "i \<noteq> j" and "sq \<noteq> 0"
    and "path_last_seq (paths (resilience s) ! i) < sq" "path_last_seq (paths (resilience s) ! j) < sq"
  shows "fst (seq_check s (p\<lparr>seq := sq, path_idx := i\<rparr>)) = 0 \<and>
    fst (seq_check (snd (seq_check s (p\<lparr>seq := sq, path_idx := i\<rparr>))) (p\<lparr>seq := sq, path_idx := j\<rparr>)) = 0"
  using assms by (rule seq_check_cross_path)

definition multipath_sample :: session where
  "multipath_sample = session_init\<lparr>resilience := resilience_init\<lparr>multipath_enabled := True, path_count := 2\<rparr>\<rparr>"

lemma multipath_sample_facts:
  "multipath_enabled (resilience multipath_sample)" "0 < path_count (resilience multipath_sample)"
  "1 < path_count (resilience multipath_sample)" "resilience_ok (resilience multipath_sample)"
  "path_last_seq (paths (resilience multipath_sample) ! 0) < 4"
  "path_last_seq (paths (resilience multipath_sample) ! 1) < 4"
  using resilience_init_ok
  by (simp_all add: multipath_sample_def resilience_ok_def resilience_init_def resilience_zero_def
      path_metrics_zero_def)

theorem replay_across_paths_witness:
  "fst (seq_check (snd (seq_check multipath_sample (view_sample\<lparr>seq := 4, path_idx := 0\<rparr>)))
     (view_sample\<lparr>seq := 4, path_idx := 1\<rparr>)) = 0"
  using replay_across_paths [OF multipath_sample_facts(1,2,3,4) _ _ multipath_sample_facts(5,6)] by simp

end
