(* ===== verification/Filters.thy ===== *)
theory Filters
  imports Session Packet_Wire
begin

text \<open>
  The three stateful filters in front of the session: the rate limiter of
  \<open>lib/layers/offensive.c\<close>, the header scoring of \<open>lib/layers/anti_analysis.c\<close> and the address
  lists of \<open>lib/layers/kernel_filter.c\<close>. The first two keep a table of at most 256 sources with
  the same find, evict and create steps; the interface \<open>source_table\<close> states what both
  promise. A table is the list of its live entries, so the \<open>count\<close> fields are list lengths.
\<close>

section \<open>Sources\<close>

type_synonym source_key = "bytes \<times> u16"

text \<open>
  The address and port extracted from \<open>buf->addr\<close>: 16 bytes of the IPv6 address, or, for a
  shorter \<open>sockaddr_in\<close>, the 16 bytes from its address field on.
\<close>

definition packet_source :: "packet_buf \<Rightarrow> source_key option" where
  "packet_source b =
     (if addr_len b \<ge> SOCKADDR_IN6_SIZE then Some (sin6_addr (addr b), ntohs (sin6_port (addr b)))
      else if addr_len b \<ge> SOCKADDR_IN_SIZE then Some (mem_read 4 16 (addr b), ntohs (sin6_port (addr b)))
      else None)"

fun find_index :: "('a \<Rightarrow> bool) \<Rightarrow> 'a list \<Rightarrow> nat option" where
  "find_index P [] = None"
| "find_index P (x # xs) = (if P x then Some 0 else map_option Suc (find_index P xs))"

text \<open>The scan for the entry with the smallest time stamp, the first one of equals.\<close>

definition oldest_index :: "('a \<Rightarrow> u64) \<Rightarrow> 'a list \<Rightarrow> nat" where
  "oldest_index f xs =
     fst (fold (\<lambda>i (k, t). if f (xs ! i) < t then (i, f (xs ! i)) else (k, t)) [1..<length xs] (0, f (xs ! 0)))"

text \<open>\<open>sources[i] = sources[count - 1]; count--\<close>.\<close>

definition remove_swap :: "nat \<Rightarrow> 'a list \<Rightarrow> 'a list" where
  "remove_swap i xs = butlast (xs[i := last xs])"

section \<open>Rate limiter\<close>

abbreviation OFF_MAX_SOURCES :: nat where "OFF_MAX_SOURCES \<equiv> 256"

record off_source =
  off_addr :: bytes
  off_port :: u16
  rate_count :: u32
  window_start_ms :: u64

record offensive =
  off_sources :: "off_source list"
  total_decoys :: u32
  total_noise :: u32
  reserve_pool :: u32

definition offensive_init :: offensive where
  "offensive_init = \<lparr>off_sources = [], total_decoys = 0, total_noise = 0, reserve_pool = 64\<rparr>"

definition off_key :: "off_source \<Rightarrow> source_key" where
  "off_key s = (off_addr s, off_port s)"

definition off_find_or_create :: "u64 \<Rightarrow> source_key \<Rightarrow> offensive \<Rightarrow> nat option \<times> offensive" where
  "off_find_or_create now k g =
     (case find_index (\<lambda>s. off_key s = k) (off_sources g) of
        Some i \<Rightarrow> (Some i, g)
      | None \<Rightarrow>
          let xs = (if length (off_sources g) \<ge> OFF_MAX_SOURCES
                    then remove_swap (oldest_index window_start_ms (off_sources g)) (off_sources g)
                    else off_sources g);
              s = \<lparr>off_addr = fst k, off_port = snd k, rate_count = 0, window_start_ms = now\<rparr>
          in (Some (length xs), g\<lparr>off_sources := xs @ [s]\<rparr>))"

definition off_rate_limited :: "u64 \<Rightarrow> off_source \<Rightarrow> bool \<times> off_source" where
  "off_rate_limited now s =
     (let s1 = (if now - window_start_ms s > 1000 then s\<lparr>rate_count := 0, window_start_ms := now\<rparr> else s);
          s2 = s1\<lparr>rate_count := rate_count s1 + 1\<rparr>
      in (rate_count s2 > 100, s2))"

definition off_trusted :: "packet_view \<Rightarrow> bool" where
  "off_trusted p \<longleftrightarrow> view_session_id p \<noteq> 0 \<and> channel_id p \<ge> 1 \<and> channel_id p \<le> 6 \<and>
     magic p = PROTO_MAGIC \<and> version p = 1"

text \<open>\<open>now\<close> is \<open>time(NULL) * 1000\<close>.\<close>

definition offensive_check :: "u64 \<Rightarrow> packet_buf \<Rightarrow> packet_view \<Rightarrow> offensive \<Rightarrow> int \<times> offensive" where
  "offensive_check now b p g =
     (case packet_source b of
        None \<Rightarrow> (0, g)
      | Some k \<Rightarrow>
          (case off_find_or_create now k g of
             (None, g1) \<Rightarrow> (0, g1)
           | (Some i, g1) \<Rightarrow>
               if off_trusted p then (0, g1)
               else
                 let (limited, s) = off_rate_limited now (off_sources g1 ! i);
                     g2 = g1\<lparr>off_sources := (off_sources g1)[i := s]\<rparr>
                 in (if limited then -1 else 0, g2)))"

text \<open>The sixteen random bytes are an argument.\<close>

definition offensive_build_decoy :: "bytes \<Rightarrow> bytes \<Rightarrow> pool \<Rightarrow> buf_ptr option \<times> pool" where
  "offensive_build_decoy crap target p =
     (case pool_get p of
        (None, p1) \<Rightarrow> (None, p1)
      | (Some b, p1) \<Rightarrow>
          let decoy_len = 24 + unat (crap ! 0) mod 32
          in (Some b, buf_update b (\<lambda>x.
               x\<lparr>data := mem_write 16 (replicate (decoy_len - 16) (crap ! 1))
                          (mem_write 4 (take 12 crap) (mem_write 0 (le_bytes 4 DECOY_MAGIC) (data x))),
                 len := decoy_len, addr := mem_write 0 target (addr x), addr_len := length target\<rparr>) p1))"

definition offensive_tick :: "offensive \<Rightarrow> offensive" where
  "offensive_tick g =
     (if \<exists>s \<in> set (off_sources g). rate_count s > 50
      then g\<lparr>total_decoys := total_decoys g + 1\<rparr> else g)"

section \<open>Header scoring\<close>

abbreviation AA_MAX_SOURCES :: nat where "AA_MAX_SOURCES \<equiv> 256"

record aa_source =
  aa_addr :: bytes
  aa_port :: u16
  score :: u32
  last_seen_ms :: u64
  bad_packets :: u32
  total_packets :: u32

record anti_analysis =
  aa_sources :: "aa_source list"
  last_evict_ms :: u64
  evict_interval_ms :: u64
  drops_medium :: u32
  drops_high :: u32
  delayed_packets :: u32

definition anti_analysis_init :: anti_analysis where
  "anti_analysis_init = \<lparr>aa_sources = [], last_evict_ms = 0, evict_interval_ms = 10000,
     drops_medium = 0, drops_high = 0, delayed_packets = 0\<rparr>"

definition aa_key :: "aa_source \<Rightarrow> source_key" where
  "aa_key s = (aa_addr s, aa_port s)"

definition aa_new :: "u64 \<Rightarrow> source_key \<Rightarrow> aa_source" where
  "aa_new now k = \<lparr>aa_addr = fst k, aa_port = snd k, score = 0, last_seen_ms = now,
     bad_packets = 0, total_packets = 0\<rparr>"

definition aa_find_or_create :: "u64 \<Rightarrow> source_key \<Rightarrow> anti_analysis \<Rightarrow> nat option \<times> anti_analysis" where
  "aa_find_or_create now k aa =
     (case find_index (\<lambda>s. aa_key s = k) (aa_sources aa) of
        Some i \<Rightarrow> (Some i, aa)
      | None \<Rightarrow>
          let aa1 = (if length (aa_sources aa) \<ge> AA_MAX_SOURCES \<and> now - last_evict_ms aa \<ge> evict_interval_ms aa
                     then aa\<lparr>aa_sources := remove_swap (oldest_index last_seen_ms (aa_sources aa)) (aa_sources aa),
                              last_evict_ms := now\<rparr>
                     else aa)
          in if length (aa_sources aa1) \<ge> AA_MAX_SOURCES then (None, aa1)
             else (Some (length (aa_sources aa1)),
                   aa1\<lparr>aa_sources := aa_sources aa1 @ [aa_new now k]\<rparr>))"

definition aa_is_bad :: "packet_view \<Rightarrow> bool" where
  "aa_is_bad p \<longleftrightarrow> magic p \<noteq> PROTO_MAGIC \<or> version p \<noteq> 1 \<or>
     (flags p \<noteq> 0 \<and> flags p \<noteq> PACKET_FLAG_ENCRYPTED \<and> flags p \<noteq> 2) \<or>
     channel_id p < 1 \<or> channel_id p > 5 \<or> seq p = 0"

definition aa_score :: "u64 \<Rightarrow> bool \<Rightarrow> aa_source \<Rightarrow> aa_source" where
  "aa_score now bad s =
     (let s1 = s\<lparr>total_packets := total_packets s + 1, last_seen_ms := now\<rparr>
      in if bad then s1\<lparr>bad_packets := bad_packets s1 + 1, score := (bad_packets s1 + 1) * 10\<rparr>
         else if score s1 > 0 then s1\<lparr>score := score s1 - 1\<rparr> else s1)"

definition anti_analysis_check :: "u64 \<Rightarrow> packet_buf \<Rightarrow> packet_view \<Rightarrow> anti_analysis \<Rightarrow> int \<times> anti_analysis" where
  "anti_analysis_check now b p aa =
     (case packet_source b of
        None \<Rightarrow> (0, aa)
      | Some k \<Rightarrow>
          (case aa_find_or_create now k aa of
             (None, aa1) \<Rightarrow> (0, aa1)
           | (Some i, aa1) \<Rightarrow>
               let s = aa_score now (aa_is_bad p) (aa_sources aa1 ! i);
                   aa2 = aa1\<lparr>aa_sources := (aa_sources aa1)[i := s]\<rparr>
               in if score s \<ge> 100 then (-1, aa2\<lparr>drops_high := drops_high aa2 + 1\<rparr>)
                  else if score s \<ge> 50
                  then (-1, aa2\<lparr>drops_medium := drops_medium aa2 + 1, delayed_packets := delayed_packets aa2 + 1\<rparr>)
                  else (0, aa2)))"

section \<open>Address lists\<close>

abbreviation KF_MAX_LIST :: nat where "KF_MAX_LIST \<equiv> 64"

record kernel_filter =
  whitelist :: "bytes list"
  blocklist :: "bytes list"
  bound_port :: u16
  drops_port :: u32
  drops_size :: u32
  drops_blocked :: u32
  passes :: u32

text \<open>Every entry below the count is \<open>valid\<close>, so an entry is its 16 address bytes.\<close>

definition kernel_filter_init :: kernel_filter where
  "kernel_filter_init = \<lparr>whitelist = [], blocklist = [], bound_port = 0, drops_port = 0,
     drops_size = 0, drops_blocked = 0, passes = 0\<rparr>"

definition kernel_filter_whitelist_add :: "bytes \<Rightarrow> kernel_filter \<Rightarrow> int \<times> kernel_filter" where
  "kernel_filter_whitelist_add a kf =
     (if length (whitelist kf) \<ge> KF_MAX_LIST then (-1, kf)
      else (0, kf\<lparr>whitelist := whitelist kf @ [take 16 a]\<rparr>))"

definition kernel_filter_blocklist_add :: "bytes \<Rightarrow> kernel_filter \<Rightarrow> int \<times> kernel_filter" where
  "kernel_filter_blocklist_add a kf =
     (if length (blocklist kf) \<ge> KF_MAX_LIST then (-1, kf)
      else (0, kf\<lparr>blocklist := blocklist kf @ [take 16 a]\<rparr>))"

definition kernel_filter_set_bound_port :: "u16 \<Rightarrow> kernel_filter \<Rightarrow> kernel_filter" where
  "kernel_filter_set_bound_port p kf = kf\<lparr>bound_port := p\<rparr>"

definition kernel_filter_check :: "packet_buf \<Rightarrow> kernel_filter \<Rightarrow> int \<times> kernel_filter" where
  "kernel_filter_check b kf =
     (if len b < 24 \<or> len b > MAX_PACKET_SIZE then (-1, kf\<lparr>drops_size := drops_size kf + 1\<rparr>)
      else
        let src = packet_source b;
            src_port = (case src of None \<Rightarrow> 0 | Some (_, p) \<Rightarrow> p);
            listed = (\<lambda>l. case src of None \<Rightarrow> False | Some (a, _) \<Rightarrow> a \<in> set l)
        in if whitelist kf \<noteq> [] \<and> src \<noteq> None \<and> \<not> listed (whitelist kf)
           then (-1, kf\<lparr>drops_blocked := drops_blocked kf + 1\<rparr>)
           else if listed (blocklist kf) then (-1, kf\<lparr>drops_blocked := drops_blocked kf + 1\<rparr>)
           else if bound_port kf > 0 \<and> src_port > 0 \<and> src_port \<noteq> bound_port kf
           then (-1, kf\<lparr>drops_port := drops_port kf + 1\<rparr>)
           else (0, kf\<lparr>passes := passes kf + 1\<rparr>))"

section \<open>Lists\<close>

lemma find_index_Some:
  "find_index P xs = Some i \<Longrightarrow> i < length xs \<and> P (xs ! i)"
  by (induction xs arbitrary: i) (auto split: if_splits)

lemma find_index_None: "find_index P xs = None \<longleftrightarrow> (\<forall>x \<in> set xs. \<not> P x)"
  by (induction xs) auto

lemma find_index_key:
  assumes "distinct (map key xs)" "i < length xs"
  shows "find_index (\<lambda>x. key x = key (xs ! i)) xs = Some i"
proof -
  obtain j where j: "find_index (\<lambda>x. key x = key (xs ! i)) xs = Some j"
    using assms(2) find_index_None [of "\<lambda>x. key x = key (xs ! i)" xs] by (cases "find_index (\<lambda>x. key x = key (xs ! i)) xs") auto
  then have "j < length xs" "map key xs ! j = map key xs ! i"
    using find_index_Some [OF j] assms(2) by simp_all
  then show ?thesis using assms j by (metis length_map nth_eq_iff_index_eq)
qed

lemma set_remove_swap: "\<lbrakk> i < length xs \<rbrakk> \<Longrightarrow> set (remove_swap i xs) \<subseteq> set xs"
  by (cases "xs = []") (auto simp: remove_swap_def dest!: in_set_butlastD set_update_subset_insert [THEN subsetD])

lemma length_remove_swap [simp]: "length (remove_swap i xs) = length xs - 1"
  by (simp add: remove_swap_def)

lemma map_remove_swap: "xs \<noteq> [] \<Longrightarrow> map f (remove_swap i xs) = remove_swap i (map f xs)"
  by (simp add: remove_swap_def map_butlast map_update last_map)

lemma distinct_remove_swap:
  assumes "distinct xs" "i < length xs"
  shows "distinct (remove_swap i xs) \<and> set (remove_swap i xs) = set xs - {xs ! i}"
proof -
  obtain ys y where xs: "xs = ys @ [y]" using assms(2) by (cases xs rule: rev_cases) auto
  show ?thesis
  proof (cases "i = length ys")
    case True
    then show ?thesis using assms xs by (auto simp: remove_swap_def)
  next
    case False
    then have i: "i < length ys" using assms(2) xs by simp
    then have "remove_swap i xs = ys[i := y]" using xs by (simp add: remove_swap_def list_update_append butlast_append)
    moreover have "set (ys[i := y]) = insert y (set ys - {ys ! i})"
      using assms(1) xs i by (simp add: set_update_distinct)
    moreover have "distinct (ys[i := y])" using assms(1) xs i by (intro distinct_list_update) auto
    ultimately show ?thesis using assms(1) xs i by (auto simp: nth_append)
  qed
qed

lemma oldest_fold:
  fixes f :: "'a \<Rightarrow> u64"
  assumes "fold (\<lambda>i (k, t). if f (xs ! i) < t then (i, f (xs ! i)) else (k, t)) is (a, f (xs ! a)) = (b, t)"
  shows "t = f (xs ! b) \<and> (b = a \<or> b \<in> set is) \<and> f (xs ! b) \<le> f (xs ! a) \<and> (\<forall>i \<in> set is. f (xs ! b) \<le> f (xs ! i))"
  using assms
proof (induction "is" arbitrary: a)
  case (Cons i "is")
  show ?case
  proof (cases "f (xs ! i) < f (xs ! a)")
    case True
    then show ?thesis using Cons.IH [of i] Cons.prems by (auto intro: order.trans order.strict_implies_order)
  next
    case False
    then show ?thesis using Cons.IH [of a] Cons.prems by auto
  qed
qed simp

lemma oldest_index_min:
  assumes "xs \<noteq> []"
  shows "oldest_index f xs < length xs \<and> (\<forall>i < length xs. f (xs ! oldest_index f xs) \<le> f (xs ! i))"
proof -
  obtain b t where r: "fold (\<lambda>i (k, t). if f (xs ! i) < t then (i, f (xs ! i)) else (k, t)) [1..<length xs] (0, f (xs ! 0)) = (b, t)"
    by fastforce
  note s = oldest_fold [OF r]
  have "f (xs ! b) \<le> f (xs ! i)" if "i < length xs" for i
    using s that by (cases "i = 0") auto
  then show ?thesis using s r assms by (auto simp: oldest_index_def)
qed

lemma evict_keys:
  assumes "xs \<noteq> []" and "distinct (map key xs)"
  shows "distinct (map key (remove_swap (oldest_index f xs) xs)) \<and>
    set (map key (remove_swap (oldest_index f xs) xs)) \<subseteq> set (map key xs)"
proof -
  have "oldest_index f xs < length (map key xs)" using oldest_index_min [OF assms(1), of f] by simp
  from distinct_remove_swap [OF assms(2) this] show ?thesis
    unfolding map_remove_swap [OF assms(1)] by auto
qed

section \<open>The source tables\<close>

locale source_table =
  fixes find_or_create :: "u64 \<Rightarrow> 'k \<Rightarrow> 't \<Rightarrow> nat option \<times> 't"
    and keys_of :: "'t \<Rightarrow> 'k list"
    and cap :: nat
  assumes known: "\<lbrakk> distinct (keys_of t); i < length (keys_of t); keys_of t ! i = k \<rbrakk> \<Longrightarrow>
      find_or_create now k t = (Some i, t)"
    and unknown: "\<lbrakk> distinct (keys_of t); length (keys_of t) \<le> cap; k \<notin> set (keys_of t);
        find_or_create now k t = (r, t') \<rbrakk> \<Longrightarrow>
      distinct (keys_of t') \<and> length (keys_of t') \<le> cap \<and> set (keys_of t') \<subseteq> insert k (set (keys_of t)) \<and>
      (\<forall>i. r = Some i \<longrightarrow> i < length (keys_of t') \<and> keys_of t' ! i = k)"
begin

definition table_ok :: "'t \<Rightarrow> bool" where
  "table_ok t \<longleftrightarrow> distinct (keys_of t) \<and> length (keys_of t) \<le> cap"

lemma find_or_create_ok:
  assumes "table_ok t" and "find_or_create now k t = (r, t')"
  shows "table_ok t' \<and> set (keys_of t') \<subseteq> insert k (set (keys_of t)) \<and>
    (\<forall>i. r = Some i \<longrightarrow> i < length (keys_of t') \<and> keys_of t' ! i = k)"
proof (cases "k \<in> set (keys_of t)")
  case True
  then obtain i where "i < length (keys_of t)" "keys_of t ! i = k" by (auto simp: in_set_conv_nth)
  then show ?thesis using assms known [of t i k now] by (auto simp: table_ok_def)
next
  case False
  then show ?thesis using assms unknown [of t k now r t'] by (simp add: table_ok_def)
qed

text \<open>A source that was found is found again at the same place, without a change.\<close>

lemma find_again:
  assumes "table_ok t" and "find_or_create now k t = (Some i, t')"
  shows "find_or_create now' k t' = (Some i, t')"
  using find_or_create_ok [OF assms] known [of t' i k now'] by (simp add: table_ok_def)

end

interpretation off_table: source_table off_find_or_create "\<lambda>g. map off_key (off_sources g)" OFF_MAX_SOURCES
proof (unfold_locales, goal_cases)
  case (1 g i k now)
  then show ?case using find_index_key [of off_key "off_sources g" i] by (auto simp: off_find_or_create_def)
next
  case (2 g k now r g')
  let ?xs = "off_sources g"
  let ?ys = "if length ?xs \<ge> OFF_MAX_SOURCES then remove_swap (oldest_index window_start_ms ?xs) ?xs else ?xs"
  have n: "find_index (\<lambda>s. off_key s = k) ?xs = None" using 2(3) by (auto simp: find_index_None)
  have g': "off_sources g' = ?ys @ [\<lparr>off_addr = fst k, off_port = snd k, rate_count = 0, window_start_ms = now\<rparr>]"
    "r = Some (length ?ys)"
    using 2(4) n by (auto simp: off_find_or_create_def Let_def)
  then have k': "map off_key (off_sources g') = map off_key ?ys @ [k]" by (simp add: off_key_def)
  have "distinct (map off_key ?ys) \<and> set (map off_key ?ys) \<subseteq> set (map off_key ?xs) \<and> length ?ys < OFF_MAX_SOURCES"
    using 2(1,2) evict_keys [of ?xs off_key window_start_ms] by (cases "?xs = []") auto
  then show ?case using 2(3) unfolding k' g'(2) by (auto simp: nth_append simp del: set_map)
qed

interpretation aa_table: source_table aa_find_or_create "\<lambda>g. map aa_key (aa_sources g)" AA_MAX_SOURCES
proof (unfold_locales, goal_cases)
  case (1 g i k now)
  then show ?case using find_index_key [of aa_key "aa_sources g" i] by (auto simp: aa_find_or_create_def)
next
  case (2 g k now r g')
  let ?xs = "aa_sources g"
  let ?e = "length ?xs \<ge> AA_MAX_SOURCES \<and> now - last_evict_ms g \<ge> evict_interval_ms g"
  let ?ys = "if ?e then remove_swap (oldest_index last_seen_ms ?xs) ?xs else ?xs"
  have n: "find_index (\<lambda>s. aa_key s = k) ?xs = None" using 2(3) by (auto simp: find_index_None)
  have g': "(aa_sources g' = ?ys \<and> r = None) \<or> (length ?ys < AA_MAX_SOURCES \<and> r = Some (length ?ys) \<and>
      aa_sources g' = ?ys @ [aa_new now k])"
    using 2(4) n by (auto simp: aa_find_or_create_def Let_def split: if_splits)
  then have k': "(map aa_key (aa_sources g') = map aa_key ?ys \<and> r = None) \<or>
      (length ?ys < AA_MAX_SOURCES \<and> r = Some (length ?ys) \<and> map aa_key (aa_sources g') = map aa_key ?ys @ [k])"
    by (auto simp: aa_key_def aa_new_def)
  have "distinct (map aa_key ?ys) \<and> set (map aa_key ?ys) \<subseteq> set (map aa_key ?xs) \<and> length ?ys \<le> AA_MAX_SOURCES"
    using 2(1,2) evict_keys [of ?xs aa_key last_seen_ms] by (cases "?xs = []") auto
  then show ?case using 2(3) k' by (elim disjE conjE) (auto simp: nth_append simp del: set_map)
qed

section \<open>What the filters let through\<close>

text \<open>The address lists: the exact condition for a packet to pass, and one counter per outcome.\<close>

lemma kernel_filter_check_spec:
  "fst (kernel_filter_check b kf) = 0 \<longleftrightarrow> 24 \<le> len b \<and> len b \<le> MAX_PACKET_SIZE \<and>
     (case packet_source b of
        None \<Rightarrow> True
      | Some (a, p) \<Rightarrow> (whitelist kf = [] \<or> a \<in> set (whitelist kf)) \<and> a \<notin> set (blocklist kf) \<and>
          (bound_port kf = 0 \<or> p = 0 \<or> p = bound_port kf))"
  by (auto simp: kernel_filter_check_def Let_def word_gt_0 split: option.splits)

lemma kernel_filter_check_counts:
  "let kf' = snd (kernel_filter_check b kf) in
   drops_size kf' + drops_blocked kf' + drops_port kf' + passes kf' =
     drops_size kf + drops_blocked kf + drops_port kf + passes kf + 1 \<and>
   whitelist kf' = whitelist kf \<and> blocklist kf' = blocklist kf \<and> bound_port kf' = bound_port kf"
  by (simp add: kernel_filter_check_def Let_def)

text \<open>The rate limiter: the hundred-and-first untrusted packet of a window is the first one dropped.\<close>

lemma off_rate_limited_run:
  assumes "now - window_start_ms s \<le> 1000" and "unat (rate_count s) + n < 2 ^ 32" and "0 < n"
  shows "fst (off_rate_limited now (((\<lambda>x. snd (off_rate_limited now x)) ^^ (n - 1)) s)) \<longleftrightarrow>
    unat (rate_count s) + n > 100"
proof -
  have step: "((\<lambda>x. snd (off_rate_limited now x)) ^^ m) s = s\<lparr>rate_count := rate_count s + of_nat m\<rparr>" for m
  proof (induction m)
    case (Suc m)
    then show ?case using assms(1) by (simp add: off_rate_limited_def Let_def not_less add_ac)
  qed simp
  have "unat (rate_count s + of_nat n) = unat (rate_count s) + n"
    using assms(2) by (simp add: unat_word_ariths unat_of_nat)
  moreover have "rate_count s + of_nat (n - 1) + 1 = rate_count s + of_nat n"
    using assms(3) by (cases n) (simp_all add: add_ac)
  ultimately show ?thesis
    using assms(1) unfolding step by (simp add: off_rate_limited_def Let_def word_less_nat_alt word_le_nat_alt not_less add.assoc)
qed

lemma offensive_check_trusted: "off_trusted p \<Longrightarrow> fst (offensive_check now b p g) = 0"
  by (auto simp: offensive_check_def off_find_or_create_def Let_def split: option.splits)

text \<open>A decoy never passes for a packet of the protocol.\<close>

lemma decoy_rejected:
  assumes "buf_ok (pool_mem p b)" and "length crap = 16" and "length target \<le> 32"
    and "offensive_build_decoy crap target p = (Some b, p')" and "packet_parse (pool_mem p' b) = Some v"
  shows "static_check v = -1"
proof -
  define n where "n = 24 + unat (crap ! 0) mod 32"
  have n: "n \<le> 55" unfolding n_def by simp
  obtain p1 where g: "pool_get p = (Some b, p1)"
    using assms(4) by (auto simp: offensive_build_decoy_def Let_def split: prod.splits option.splits)
  have "pool_mem p1 b = pool_mem p b" using pool_get_mem [of p] g by simp
  then have d: "data (pool_mem p' b) = mem_write 16 (replicate (n - 16) (crap ! 1))
      (mem_write 4 (take 12 crap) (mem_write 0 (le_bytes 4 DECOY_MAGIC) (data (pool_mem p b))))"
    using assms(4) g by (auto simp: offensive_build_decoy_def Let_def n_def)
  have "length (data (pool_mem p b)) = MAX_PACKET_SIZE" using assms(1) by (simp add: buf_ok_def)
  then have "mem_read 0 4 (data (pool_mem p' b)) = le_bytes 4 DECOY_MAGIC"
    unfolding d using n assms(2) by (simp add: mem_simps)
  then have "magic v = DECOY_MAGIC"
    using assms(5) by (auto simp: packet_parse_def Let_def wire_simps split: if_splits)
  then show ?thesis by (simp add: static_check_def)
qed

text \<open>
  Header scoring: a source whose entry has no score is not dropped and keeps no score as long
  as its packets are well-formed, and the \<open>n\<close>-th bad packet in a row of a new source is dropped
  from the fifth on.
\<close>

lemma aa_score_good: "score s = 0 \<Longrightarrow> score (aa_score now False s) = 0"
  by (simp add: aa_score_def Let_def)

lemma aa_score_bad_run:
  assumes "bad_packets s = 0"
  shows "bad_packets ((aa_score now True ^^ n) s) = of_nat n \<and>
    (0 < n \<longrightarrow> score ((aa_score now True ^^ n) s) = of_nat n * 10)"
  using assms by (induction n) (simp_all add: aa_score_def Let_def algebra_simps)

lemma anti_analysis_check_found:
  assumes "packet_source b = Some k" and "aa_find_or_create now k aa = (Some i, aa1)"
  shows "fst (anti_analysis_check now b p aa) = (if score (aa_score now (aa_is_bad p) (aa_sources aa1 ! i)) \<ge> 50 then -1 else 0) \<and>
    aa_sources (snd (anti_analysis_check now b p aa)) = (aa_sources aa1)[i := aa_score now (aa_is_bad p) (aa_sources aa1 ! i)]"
  using assms by (auto simp: anti_analysis_check_def Let_def word_le_nat_alt)

lemma aa_new_simps [simp]: "aa_key (aa_new now k) = k" "bad_packets (aa_new now k) = 0"
  by (simp_all add: aa_key_def aa_new_def)

lemma aa_key_score [simp]: "aa_key (aa_score now bad s) = aa_key s"
  by (simp add: aa_key_def aa_score_def Let_def)

text \<open>Every packet on the video channel is scored as bad, although the static checks accept it.\<close>

lemma aa_video_bad: "channel_id p = CH_VIDEO \<Longrightarrow> aa_is_bad p"
  by (simp add: aa_is_bad_def)

lemma aa_key_run [simp]: "aa_key ((aa_score now bad ^^ n) s) = aa_key s"
  by (induction n) simp_all

lemma anti_analysis_bad_run:
  assumes src: "packet_source b = Some k" and bad: "aa_is_bad p"
  shows "aa_sources (((\<lambda>aa. snd (anti_analysis_check now b p aa)) ^^ Suc n) anti_analysis_init) =
    [(aa_score now True ^^ Suc n) (aa_new now k)]"
proof (induction n)
  case 0
  have "aa_find_or_create now k anti_analysis_init = (Some 0, anti_analysis_init\<lparr>aa_sources := [aa_new now k]\<rparr>)"
    by (simp add: aa_find_or_create_def anti_analysis_init_def)
  then show ?case using anti_analysis_check_found [OF src, of now anti_analysis_init 0] bad by simp
next
  case (Suc n)
  let ?aa = "((\<lambda>aa. snd (anti_analysis_check now b p aa)) ^^ Suc n) anti_analysis_init"
  have "aa_find_or_create now k ?aa = (Some 0, ?aa)"
    by (simp add: aa_find_or_create_def Suc del: funpow.simps)
  from anti_analysis_check_found [OF src this, of p] show ?case using Suc bad by simp
qed

section \<open>Properties\<close>

text \<open>
  The address filter passes exactly the packets of legal size whose source is on the
  whitelist (when there is one), not on the blocklist and, when a port is bound, comes from
  that port; each packet moves exactly one of the four counters.
\<close>

theorem kernel_filter_exact:
  "(fst (kernel_filter_check b kf) = 0 \<longleftrightarrow> 24 \<le> len b \<and> len b \<le> MAX_PACKET_SIZE \<and>
     (case packet_source b of
        None \<Rightarrow> True
      | Some (a, p) \<Rightarrow> (whitelist kf = [] \<or> a \<in> set (whitelist kf)) \<and> a \<notin> set (blocklist kf) \<and>
          (bound_port kf = 0 \<or> p = 0 \<or> p = bound_port kf))) \<and>
   (let kf' = snd (kernel_filter_check b kf) in
    drops_size kf' + drops_blocked kf' + drops_port kf' + passes kf' =
      drops_size kf + drops_blocked kf + drops_port kf + passes kf + 1)"
  using kernel_filter_check_spec [of b kf] kernel_filter_check_counts [of b kf] by (simp add: Let_def)

text \<open>
  Header scoring shuts the video channel down: a source that sends nothing but packets on
  channel 6, which the static checks accept, has every packet from the fifth on dropped.
\<close>

theorem video_source_dropped:
  assumes "packet_source b = Some k" and "channel_id p = CH_VIDEO" and "5 \<le> n" and "n < 1000"
  shows "fst (anti_analysis_check now b p
    (((\<lambda>aa. snd (anti_analysis_check now b p aa)) ^^ (n - 1)) anti_analysis_init)) = -1"
proof -
  obtain m where m: "n = Suc (Suc m)" using assms(3) by (cases n; cases "n - 1") auto
  let ?aa = "((\<lambda>aa. snd (anti_analysis_check now b p aa)) ^^ Suc m) anti_analysis_init"
  note run = anti_analysis_bad_run [OF assms(1) aa_video_bad [OF assms(2)], where now = now]
  have "aa_find_or_create now k ?aa = (Some 0, ?aa)"
    by (simp add: aa_find_or_create_def run del: funpow.simps)
  moreover have "score (aa_score now True ((aa_score now True ^^ Suc m) (aa_new now k))) = of_nat n * 10"
    using aa_score_bad_run [where s = "aa_new now k" and now = now and n = n] m by simp
  moreover have "50 \<le> (of_nat n * 10 :: u32)"
    using assms(3,4) by (simp add: word_le_nat_alt unat_word_ariths unat_of_nat)
  ultimately show ?thesis
    using anti_analysis_check_found [OF assms(1), of now ?aa 0 ?aa p] aa_video_bad [OF assms(2)] run [of m] m
    by simp
qed

definition video_view_sample :: packet_view where
  "video_view_sample = \<lparr>magic = PROTO_MAGIC, version = 1, flags = 1, view_session_id = 9,
     channel_id = CH_VIDEO, seq = 4, plength = 1, payload = 36, nonce = replicate 12 0,
     tag = replicate 16 0, encrypted = True, path_idx = 0\<rparr>"

theorem video_source_dropped_witness:
  "static_check video_view_sample = 0 \<and> fst (anti_analysis_check 0 buf_sample video_view_sample
    (((\<lambda>aa. snd (anti_analysis_check 0 buf_sample video_view_sample aa)) ^^ (7 - 1)) anti_analysis_init)) = -1"
proof -
  have "\<exists>k. packet_source buf_sample = Some k" by (simp add: packet_source_def buf_sample_def)
  then obtain k where k: "packet_source buf_sample = Some k" by blast
  have "fst (anti_analysis_check 0 buf_sample video_view_sample
    (((\<lambda>aa. snd (anti_analysis_check 0 buf_sample video_view_sample aa)) ^^ (7 - 1)) anti_analysis_init)) = -1"
    by (rule video_source_dropped [OF k, of _ 7]) (simp_all add: video_view_sample_def)
  then show ?thesis by (simp add: static_check_def video_view_sample_def)
qed

end
