(* ===== verification/Session_Gate.thy ===== *)
theory Session_Gate
  imports Session Packet_Wire
begin

text \<open>
  The session gate of \<open>lib/layers/session_gate.c\<close>: which control messages a session takes in
  which handshake state, and which data packets a locked session takes from which peer.
\<close>

section \<open>The gate\<close>

text \<open>\<open>p->payload[0]\<close>.\<close>

definition view_opcode :: "packet_buf \<Rightarrow> packet_view \<Rightarrow> u8" where
  "view_opcode b p = data b ! payload p"

definition path_port_matches :: "session \<Rightarrow> packet_buf \<Rightarrow> nat \<Rightarrow> bool" where
  "path_port_matches s b i \<longleftrightarrow>
     peer_addr_lens s ! i \<noteq> 0 \<and> sin6_port (peer_addrs s ! i) = sin6_port (addr b)"

definition session_check :: "session \<Rightarrow> packet_buf \<Rightarrow> packet_view \<Rightarrow> int \<times> packet_view" where
  "session_check s b p =
     (if channel_id p = CH_CONTROL then
        (let opc = view_opcode b p in
         if sess_state s = SESSION_LOCKED then (0, p)
         else if sess_role s = ROLE_RESPONDER \<and>
                 (sess_state s = SESSION_IDLE \<or> sess_state s = SESSION_HANDSHAKE_START) then
           (if opc = CTRL_HELLO then (0, p) else if opc = CTRL_PQ_KEM_INIT then (0, p) else (-1, p))
         else if sess_role s = ROLE_INITIATOR \<and>
                 (sess_state s = SESSION_HANDSHAKE_START \<and> opc = CTRL_ACCEPT \<or>
                  sess_state s = SESSION_PQ_KEM_INIT_SENT \<and> opc = CTRL_PQ_KEM_RESPONSE \<or>
                  sess_state s = SESSION_PQ_KEM_RESPONSE_SENT \<and> opc = CTRL_IDENTITY_PROOF \<or>
                  sess_state s = SESSION_IDENTITY_PROOF_SENT \<and> opc = CTRL_SESSION_LOCKED) then (0, p)
         else if sess_role s = ROLE_RESPONDER \<and>
                 (sess_state s = SESSION_PQ_KEM_RESPONSE_SENT \<and> opc = CTRL_IDENTITY_PROOF \<or>
                  sess_state s = SESSION_IDENTITY_PROOF_SENT \<and> opc = CTRL_SESSION_LOCKED) then (0, p)
         else (-1, p))
      else if sess_state s \<noteq> SESSION_LOCKED then (-1, p)
      else if sess_addr_len s = 0 then (-1, p)
      else if session_id s \<noteq> 0 \<and> view_session_id p \<noteq> session_id s then (-1, p)
      else if addr_len b \<noteq> sess_addr_len s then (-1, p)
      else if sin6_family (addr b) \<noteq> sin6_family (sess_addr s) then (-1, p)
      else if sin6_addr (addr b) \<noteq> sin6_addr (sess_addr s) then (-1, p)
      else if multipath_enabled (resilience s) then
        (case find (path_port_matches s b) [0..<path_count (resilience s)] of
           Some i \<Rightarrow> (0, p\<lparr>path_idx := i\<rparr>)
         | None \<Rightarrow> (-1, p))
      else if sin6_port (addr b) \<noteq> sin6_port (sess_addr s) then (-1, p)
      else (0, p\<lparr>path_idx := 0\<rparr>))"

section \<open>Data packets\<close>

text \<open>A packet comes from the session's peer: same address family and address, and a known port.\<close>

definition from_peer :: "session \<Rightarrow> packet_buf \<Rightarrow> bool" where
  "from_peer s b \<longleftrightarrow> addr_len b = sess_addr_len s \<and> sin6_family (addr b) = sin6_family (sess_addr s) \<and>
     sin6_addr (addr b) = sin6_addr (sess_addr s) \<and>
     (if multipath_enabled (resilience s)
      then \<exists>i < path_count (resilience s). path_port_matches s b i
      else sin6_port (addr b) = sin6_port (sess_addr s))"

lemma find_upt_None: "find P [0..<n] = None \<longleftrightarrow> (\<forall>i < n. \<not> P i)"
  by (auto simp: find_None_iff)

lemma session_check_data:
  assumes "channel_id p \<noteq> CH_CONTROL"
  shows "fst (session_check s b p) = 0 \<longleftrightarrow> sess_state s = SESSION_LOCKED \<and> sess_addr_len s \<noteq> 0 \<and>
    (session_id s = 0 \<or> view_session_id p = session_id s) \<and> from_peer s b"
  using assms
  by (auto simp: session_check_def from_peer_def find_upt_None split: option.splits)
    (auto simp: find_Some_iff)

lemma session_check_view:
  "session_check s b p = (0, p') \<Longrightarrow> p' = p\<lparr>path_idx := path_idx p'\<rparr> \<and>
     (channel_id p \<noteq> CH_CONTROL \<and> multipath_enabled (resilience s) \<longrightarrow> path_idx p' < path_count (resilience s))"
  by (auto simp: session_check_def Let_def find_Some_iff split: if_splits option.splits)

section \<open>Control packets\<close>

text \<open>The opcodes an unfinished handshake takes, by role and state.\<close>

definition handshake_opcodes :: "handshake_role \<Rightarrow> session_state \<Rightarrow> u8 set" where
  "handshake_opcodes role st =
     (case (role, st) of
        (ROLE_INITIATOR, SESSION_HANDSHAKE_START) \<Rightarrow> {CTRL_ACCEPT}
      | (ROLE_INITIATOR, SESSION_PQ_KEM_INIT_SENT) \<Rightarrow> {CTRL_PQ_KEM_RESPONSE}
      | (ROLE_INITIATOR, SESSION_PQ_KEM_RESPONSE_SENT) \<Rightarrow> {CTRL_IDENTITY_PROOF}
      | (ROLE_INITIATOR, SESSION_IDENTITY_PROOF_SENT) \<Rightarrow> {CTRL_SESSION_LOCKED}
      | (ROLE_RESPONDER, SESSION_IDLE) \<Rightarrow> {CTRL_HELLO, CTRL_PQ_KEM_INIT}
      | (ROLE_RESPONDER, SESSION_HANDSHAKE_START) \<Rightarrow> {CTRL_HELLO, CTRL_PQ_KEM_INIT}
      | (ROLE_RESPONDER, SESSION_PQ_KEM_RESPONSE_SENT) \<Rightarrow> {CTRL_IDENTITY_PROOF}
      | (ROLE_RESPONDER, SESSION_IDENTITY_PROOF_SENT) \<Rightarrow> {CTRL_SESSION_LOCKED}
      | _ \<Rightarrow> {})"

lemma session_check_control:
  assumes "channel_id p = CH_CONTROL"
  shows "fst (session_check s b p) = 0 \<longleftrightarrow>
    sess_state s = SESSION_LOCKED \<or> view_opcode b p \<in> handshake_opcodes (sess_role s) (sess_state s)"
  using assms
  by (cases "sess_role s"; cases "sess_state s")
    (auto simp: session_check_def handshake_opcodes_def Let_def)

section \<open>Registered paths\<close>







section \<open>Properties\<close>





text \<open>
  Control packets are gated by the handshake only. Before the session is locked, exactly
  the opcodes of the current role and state pass. Once it is locked every control packet
  passes, from any address and with any session id.
\<close>

theorem session_gate_control:
  assumes "channel_id p = CH_CONTROL"
  shows "(sess_state s \<noteq> SESSION_LOCKED \<longrightarrow> (fst (session_check s b p) = 0 \<longleftrightarrow>
      view_opcode b p \<in> handshake_opcodes (sess_role s) (sess_state s))) \<and>
    (sess_state s = SESSION_LOCKED \<longrightarrow> fst (session_check s b' p) = 0)"
  using session_check_control [OF assms] by blast

theorem session_gate_control_witness:
  "fst (session_check (session_init\<lparr>sess_state := SESSION_LOCKED, session_id := 9\<rparr>) buf_sample
     \<lparr>magic = PROTO_MAGIC, version = 1, flags = 0, view_session_id = 1234, channel_id = CH_CONTROL,
      seq = 4, plength = 1, payload = 24, nonce = replicate 12 0, tag = replicate 16 0,
      encrypted = False, path_idx = 0\<rparr>) = 0"
  using session_gate_control [of "\<lparr>magic = PROTO_MAGIC, version = 1, flags = 0, view_session_id = 1234,
      channel_id = CH_CONTROL, seq = 4, plength = 1, payload = 24, nonce = replicate 12 0,
      tag = replicate 16 0, encrypted = False, path_idx = 0\<rparr>"
      "session_init\<lparr>sess_state := SESSION_LOCKED, session_id := 9\<rparr>" buf_sample buf_sample]
  by simp

end
