(* ===== verification/Crypto.thy ===== *)
theory Crypto
  imports Prelude
begin

text \<open>
  The cryptographic wrappers of \<open>lib/crypto\<close>: AEAD (\<open>aead.c\<close>), HKDF and the session key
  derivation (\<open>hkdf.c\<close>), the KEM front end (\<open>kem.c\<close>) and the identity key store
  (\<open>secure_store.c\<close>). The primitives come from mbedTLS and liboqs; they are the fields of a
  record \<open>crypto_lib\<close> that every definition takes as its first argument. What the code relies
  on is the predicate \<open>crypto_lib_ok\<close>: output lengths, that decryption inverts encryption and
  accepts nothing else, and that decapsulation inverts encapsulation. Random choices of the
  libraries are an argument \<open>seed\<close>.
\<close>

section \<open>The libraries\<close>

text \<open>
  \<open>hmac_sha256\<close> is \<open>mbedtls_md_hmac\<close>, also for the streaming calls, which are defined to
  process the concatenation of their updates; \<open>None\<close> is a library failure.
  \<open>chachapoly_encrypt\<close> returns ciphertext and tag in one buffer; \<open>chachapoly_decrypt\<close> returns
  whether the tag matched and what it left in the output buffer.
\<close>

record crypto_lib =
  hmac_sha256 :: "bytes \<Rightarrow> bytes \<Rightarrow> bytes option"
  sha256 :: "bytes \<Rightarrow> bytes"
  chachapoly_encrypt :: "bytes \<Rightarrow> bytes \<Rightarrow> bytes \<Rightarrow> bytes \<Rightarrow> bytes option"
  chachapoly_decrypt :: "bytes \<Rightarrow> bytes \<Rightarrow> bytes \<Rightarrow> bytes \<Rightarrow> bool \<times> bytes"
  oqs_keypair :: "u8 \<Rightarrow> nat \<Rightarrow> (bytes \<times> bytes) option"
  oqs_encaps :: "u8 \<Rightarrow> nat \<Rightarrow> bytes \<Rightarrow> (bytes \<times> bytes) option"
  oqs_decaps :: "u8 \<Rightarrow> bytes \<Rightarrow> bytes \<Rightarrow> bytes option"

abbreviation HKDF_HASH_SIZE :: nat where "HKDF_HASH_SIZE \<equiv> 32"
abbreviation HKDF_MAX_OKM_LEN :: nat where "HKDF_MAX_OKM_LEN \<equiv> 8160"
abbreviation CRYPTO_MAX_PACKET :: nat where "CRYPTO_MAX_PACKET \<equiv> 1500"
abbreviation CRYPTO_TAG_SIZE :: nat where "CRYPTO_TAG_SIZE \<equiv> 16"

section \<open>AEAD\<close>

text \<open>Status, ciphertext and tag; the outputs are written only when the status is 0.\<close>

definition aead_encrypt :: "crypto_lib \<Rightarrow> bytes \<Rightarrow> bytes \<Rightarrow> bytes \<Rightarrow> bytes \<Rightarrow> int \<times> bytes \<times> bytes" where
  "aead_encrypt L key nonce aad plain =
     (if length plain + CRYPTO_TAG_SIZE > CRYPTO_MAX_PACKET then (-1, [], [])
      else case chachapoly_encrypt L key nonce aad plain of
             None \<Rightarrow> (-1, [], [])
           | Some out \<Rightarrow> (0, take (length plain) out, drop (length plain) out))"

definition aead_decrypt :: "crypto_lib \<Rightarrow> bytes \<Rightarrow> bytes \<Rightarrow> bytes \<Rightarrow> bytes \<Rightarrow> bytes \<Rightarrow> int \<times> bytes" where
  "aead_decrypt L key nonce aad cipher tag =
     (if length cipher + CRYPTO_TAG_SIZE > CRYPTO_MAX_PACKET then (-1, cipher)
      else let (ok, out) = chachapoly_decrypt L key nonce aad (cipher @ tag)
           in (if ok then 0 else -1, out))"

section \<open>HKDF\<close>

definition hkdf_extract :: "crypto_lib \<Rightarrow> bytes \<Rightarrow> bytes \<Rightarrow> bytes option" where
  "hkdf_extract L salt ikm =
     hmac_sha256 L (if salt = [] then replicate HKDF_HASH_SIZE 0 else salt) ikm"

text \<open>
  The loop of \<open>hkdf_expand\<close>: \<open>n\<close> bytes are still to be written, \<open>T\<close> is the previous block (empty
  at first) and \<open>c\<close> the 8-bit counter, which must not wrap to 0.
\<close>

function hkdf_expand_loop :: "crypto_lib \<Rightarrow> bytes \<Rightarrow> bytes \<Rightarrow> nat \<Rightarrow> bytes \<Rightarrow> u8 \<Rightarrow> bytes option" where
  "hkdf_expand_loop L prk info n T c =
     (if n = 0 then Some []
      else if c = 0 then None
      else case hmac_sha256 L prk (T @ info @ [c]) of
             None \<Rightarrow> None
           | Some T' \<Rightarrow>
               (case hkdf_expand_loop L prk info (n - min n HKDF_HASH_SIZE) T' (c + 1) of
                  None \<Rightarrow> None
                | Some rest \<Rightarrow> Some (take (min n HKDF_HASH_SIZE) T' @ rest)))"
  by pat_completeness auto
termination by (relation "measure (\<lambda>(L, prk, info, n, T, c). n)") auto

declare hkdf_expand_loop.simps [simp del]

definition hkdf_expand :: "crypto_lib \<Rightarrow> bytes \<Rightarrow> bytes \<Rightarrow> nat \<Rightarrow> bytes option" where
  "hkdf_expand L prk info okm_len =
     (if length prk < HKDF_HASH_SIZE then None
      else if okm_len = 0 \<or> okm_len > HKDF_MAX_OKM_LEN then None
      else hkdf_expand_loop L prk info okm_len [] 1)"

definition hkdf :: "crypto_lib \<Rightarrow> bytes \<Rightarrow> bytes \<Rightarrow> bytes \<Rightarrow> nat \<Rightarrow> bytes option" where
  "hkdf L salt ikm info okm_len =
     (case hkdf_extract L salt ikm of None \<Rightarrow> None | Some prk \<Rightarrow> hkdf_expand L prk info okm_len)"

definition ascii :: "string \<Rightarrow> bytes" where
  "ascii s = map of_char s"

definition LABEL_SESSION :: bytes where
  "LABEL_SESSION = ascii ''SCv1 session key''"

definition channel_label :: "nat \<Rightarrow> bytes" where
  "channel_label i = ascii (''SCv1 channel key '' @ [char_of (48 + i)])"

text \<open>
  Status, session key and channel keys. On a failure after the extraction both key buffers
  are wiped; before it they are untouched.
\<close>

definition derive_session_keys :: "crypto_lib \<Rightarrow> bytes \<Rightarrow> bytes \<Rightarrow> bytes \<times> bytes list \<Rightarrow> int \<times> bytes \<times> bytes list" where
  "derive_session_keys L secret hash old =
     (if secret = [] \<or> hash = [] then (-1, old)
      else case hkdf_extract L hash secret of
             None \<Rightarrow> (-1, old)
           | Some prk \<Rightarrow>
               (case (hkdf_expand L prk LABEL_SESSION 32,
                      those (map (\<lambda>i. hkdf_expand L prk (channel_label i) 32) [0..<6])) of
                  (Some sk, Some cks) \<Rightarrow> (0, sk, cks)
                | _ \<Rightarrow> (-1, replicate 32 0, replicate 6 (replicate 32 0))))"

section \<open>KEM\<close>

definition kem_get_sizes :: "u8 \<Rightarrow> nat \<times> nat \<times> nat \<times> nat" where
  "kem_get_sizes t =
     (if t = 1 then (1184, 2400, 1088, 32)
      else if t = 2 then (1568, 3168, 1568, 32)
      else (0, 0, 0, 0))"

definition kem_init :: "u8 \<Rightarrow> int" where
  "kem_init t = (if t \<noteq> 1 \<and> t \<noteq> 2 then -1 else 0)"

text \<open>The public and secret key written on success, for output buffers of the given sizes.\<close>

definition kem_keypair :: "crypto_lib \<Rightarrow> nat \<Rightarrow> u8 \<Rightarrow> nat \<Rightarrow> nat \<Rightarrow> (bytes \<times> bytes) option" where
  "kem_keypair L seed t pk_size sk_size =
     (let (expected_pk, expected_sk, _, _) = kem_get_sizes t in
      if pk_size < expected_pk \<or> sk_size < expected_sk then None
      else if t = 1 \<or> t = 2 then oqs_keypair L t seed else None)"

definition kem_encapsulate :: "crypto_lib \<Rightarrow> nat \<Rightarrow> bytes \<Rightarrow> nat \<Rightarrow> nat \<Rightarrow> (bytes \<times> bytes) option" where
  "kem_encapsulate L seed pk ct_size ss_size =
     (if length pk = 1184 then (if ct_size < 1088 \<or> ss_size < 32 then None else oqs_encaps L 1 seed pk)
      else if length pk = 1568 then (if ct_size < 1568 \<or> ss_size < 32 then None else oqs_encaps L 2 seed pk)
      else None)"

definition kem_decapsulate :: "crypto_lib \<Rightarrow> bytes \<Rightarrow> bytes \<Rightarrow> nat \<Rightarrow> bytes option" where
  "kem_decapsulate L sk ct ss_size =
     (if length sk = 2400 then (if length ct < 1088 \<or> ss_size < 32 then None else oqs_decaps L 1 sk ct)
      else if length sk = 3168 then (if length ct < 1568 \<or> ss_size < 32 then None else oqs_decaps L 2 sk ct)
      else None)"

fun crypto_secure_memcmp :: "bytes \<Rightarrow> bytes \<Rightarrow> u8 \<Rightarrow> u8" where
  "crypto_secure_memcmp (a # as) (b # bs) diff = crypto_secure_memcmp as bs (diff OR (a XOR b))"
| "crypto_secure_memcmp _ _ diff = diff"

section \<open>Identity key store\<close>

record secure_store =
  identity_key :: bytes
  key_initialized :: bool

definition g_fallback_key :: bytes where
  "g_fallback_key = [0x6b, 0xe5, 0x79, 0x3e, 0x7a, 0x1f, 0x2c, 0xd4, 0x91, 0x82, 0x5a, 0x0d,
     0x3b, 0xf8, 0x44, 0x97, 0x1c, 0x63, 0xae, 0x90, 0xf5, 0x28, 0xbb, 0x50,
     0xcf, 0x21, 0x65, 0xde, 0x09, 0x74, 0x80, 0x3e]"

definition hex_digit :: "char \<Rightarrow> int option" where
  "hex_digit c =
     (let n = of_char c :: int in
      if 48 \<le> n \<and> n \<le> 57 then Some (n - 48)
      else if 97 \<le> n \<and> n \<le> 102 then Some (n - 87)
      else if 65 \<le> n \<and> n \<le> 70 then Some (n - 55)
      else None)"

text \<open>
  \<open>strtol\<close> in base 16 on a two-character string, \<open>None\<close> when it does not consume both. A leading
  white-space character or sign is legal.
\<close>

definition strtol16 :: "char \<Rightarrow> char \<Rightarrow> int option" where
  "strtol16 c d =
     (let n = of_char c :: int in
      case (hex_digit c, hex_digit d) of
        (Some h, Some l) \<Rightarrow> Some (16 * h + l)
      | (None, Some l) \<Rightarrow>
          if n = 32 \<or> 9 \<le> n \<and> n \<le> 13 \<or> n = 43 then Some l
          else if n = 45 then Some (- l)
          else None
      | _ \<Rightarrow> None)"

fun hex_pairs :: "string \<Rightarrow> bytes option" where
  "hex_pairs [] = Some []"
| "hex_pairs [c] = None"
| "hex_pairs (c # d # s) =
     (case (strtol16 c d, hex_pairs s) of (Some v, Some bs) \<Rightarrow> Some (of_int v # bs) | _ \<Rightarrow> None)"

definition hex_to_bytes :: "string \<Rightarrow> nat \<Rightarrow> bytes option" where
  "hex_to_bytes s n = (if length s \<noteq> n * 2 then None else hex_pairs s)"

text \<open>The environment variable \<open>IDENTITY_KEY\<close> is an argument; memory locking has no effect on the state.\<close>

definition secure_store_init :: "string option \<Rightarrow> secure_store \<Rightarrow> secure_store" where
  "secure_store_init env s =
     (if key_initialized s then s
      else \<lparr>identity_key = (case env of
              None \<Rightarrow> g_fallback_key
            | Some e \<Rightarrow> if length e = 64
                then (case hex_to_bytes e 32 of None \<Rightarrow> g_fallback_key | Some k \<Rightarrow> k)
                else g_fallback_key),
            key_initialized = True\<rparr>)"

definition secure_store_set_key :: "string option \<Rightarrow> bytes \<Rightarrow> secure_store \<Rightarrow> int \<times> secure_store" where
  "secure_store_set_key env key s =
     (if length key \<noteq> 32 then (-1, s)
      else (0, (secure_store_init env s)\<lparr>identity_key := key\<rparr>))"

definition secure_store_get_identity_key :: "string option \<Rightarrow> secure_store \<Rightarrow> bytes \<times> secure_store" where
  "secure_store_get_identity_key env s = (let s' = secure_store_init env s in (identity_key s', s'))"

definition secure_store_shutdown :: "secure_store \<Rightarrow> secure_store" where
  "secure_store_shutdown s =
     (if \<not> key_initialized s then s
      else s\<lparr>identity_key := replicate 32 0, key_initialized := False\<rparr>)"

section \<open>What the code relies on\<close>

definition crypto_lib_ok :: "crypto_lib \<Rightarrow> bool" where
  "crypto_lib_ok L \<longleftrightarrow>
     (\<forall>k d. \<exists>h. hmac_sha256 L k d = Some h \<and> length h = 32) \<and>
     (\<forall>d. length (sha256 L d) = 32) \<and>
     (\<forall>k n a p. length k = 32 \<and> length n = 12 \<longrightarrow>
        (\<exists>c. chachapoly_encrypt L k n a p = Some c \<and> length c = length p + 16 \<and>
             chachapoly_decrypt L k n a c = (True, p))) \<and>
     (\<forall>k n a c p. chachapoly_decrypt L k n a c = (True, p) \<longrightarrow> chachapoly_encrypt L k n a p = Some c) \<and>
     (\<forall>k n a c. length (snd (chachapoly_decrypt L k n a c)) = length c - 16) \<and>
     (\<forall>s. \<exists>pk sk. oqs_keypair L 1 s = Some (pk, sk) \<and> length pk = 1184 \<and> length sk = 2400 \<and>
        (\<forall>s'. \<exists>ct ss. oqs_encaps L 1 s' pk = Some (ct, ss) \<and> length ct = 1088 \<and> length ss = 32 \<and>
           oqs_decaps L 1 sk ct = Some ss)) \<and>
     (\<forall>s pk ct ss. oqs_encaps L 1 s pk = Some (ct, ss) \<longrightarrow> length ct = 1088 \<and> length ss = 32) \<and>
     (\<forall>sk ct ss. oqs_decaps L 1 sk ct = Some ss \<longrightarrow> length ss = 32)"

lemma crypto_lib_okD:
  assumes "crypto_lib_ok L"
  shows "\<exists>h. hmac_sha256 L k d = Some h \<and> length h = 32"
    and "length (sha256 L d) = 32"
    and "\<lbrakk> length k = 32; length n = 12 \<rbrakk> \<Longrightarrow> \<exists>c. chachapoly_encrypt L k n a p = Some c \<and>
      length c = length p + 16 \<and> chachapoly_decrypt L k n a c = (True, p)"
    and "chachapoly_decrypt L k n a c = (True, p) \<Longrightarrow> chachapoly_encrypt L k n a p = Some c"
    and "length (snd (chachapoly_decrypt L k n a c)) = length c - 16"
    and "\<exists>pk sk. oqs_keypair L 1 s = Some (pk, sk) \<and> length pk = 1184 \<and> length sk = 2400 \<and>
      (\<forall>s'. \<exists>ct ss. oqs_encaps L 1 s' pk = Some (ct, ss) \<and> length ct = 1088 \<and> length ss = 32 \<and>
         oqs_decaps L 1 sk ct = Some ss)"
    and "oqs_encaps L 1 s pk = Some (ct, ss) \<Longrightarrow> length ct = 1088 \<and> length ss = 32"
    and "oqs_decaps L 1 sk ct = Some ss \<Longrightarrow> length ss = 32"
proof -
  note ok = assms [unfolded crypto_lib_ok_def]
  note rest = ok [THEN conjunct2, THEN conjunct2, THEN conjunct2, THEN conjunct2]
  show "\<exists>h. hmac_sha256 L k d = Some h \<and> length h = 32" using ok [THEN conjunct1] by blast
  show "length (sha256 L d) = 32" using ok [THEN conjunct2, THEN conjunct1] by blast
  show "\<lbrakk> length k = 32; length n = 12 \<rbrakk> \<Longrightarrow> \<exists>c. chachapoly_encrypt L k n a p = Some c \<and>
      length c = length p + 16 \<and> chachapoly_decrypt L k n a c = (True, p)"
    using ok [THEN conjunct2, THEN conjunct2, THEN conjunct1] by blast
  show "chachapoly_decrypt L k n a c = (True, p) \<Longrightarrow> chachapoly_encrypt L k n a p = Some c"
    using ok [THEN conjunct2, THEN conjunct2, THEN conjunct2, THEN conjunct1] by blast
  show "length (snd (chachapoly_decrypt L k n a c)) = length c - 16" using rest [THEN conjunct1] by blast
  show "\<exists>pk sk. oqs_keypair L 1 s = Some (pk, sk) \<and> length pk = 1184 \<and> length sk = 2400 \<and>
      (\<forall>s'. \<exists>ct ss. oqs_encaps L 1 s' pk = Some (ct, ss) \<and> length ct = 1088 \<and> length ss = 32 \<and>
         oqs_decaps L 1 sk ct = Some ss)"
    using rest [THEN conjunct2, THEN conjunct1] by blast
  show "oqs_encaps L 1 s pk = Some (ct, ss) \<Longrightarrow> length ct = 1088 \<and> length ss = 32"
    using rest [THEN conjunct2, THEN conjunct2, THEN conjunct1] by blast
  show "oqs_decaps L 1 sk ct = Some ss \<Longrightarrow> length ss = 32"
    using rest [THEN conjunct2, THEN conjunct2, THEN conjunct2] by blast
qed

section \<open>AEAD lemmas\<close>

lemma aead_roundtrip:
  assumes "crypto_lib_ok L" "length k = 32" "length n = 12" "length p \<le> CRYPTO_MAX_PACKET - CRYPTO_TAG_SIZE"
  shows "\<exists>c t. aead_encrypt L k n a p = (0, c, t) \<and> length c = length p \<and> length t = CRYPTO_TAG_SIZE \<and>
    aead_decrypt L k n a c t = (0, p)"
proof -
  obtain out where "chachapoly_encrypt L k n a p = Some out" "length out = length p + 16"
    "chachapoly_decrypt L k n a out = (True, p)"
    using crypto_lib_okD(3) [OF assms(1-3)] by blast
  then show ?thesis using assms(4) by (simp add: aead_encrypt_def aead_decrypt_def)
qed

text \<open>Whatever decrypts is the encryption of the result under the same key, nonce and associated data.\<close>

lemma aead_decrypt_exact:
  assumes L: "crypto_lib_ok L" and d: "aead_decrypt L k n a c t = (0, p)" and t: "length t = CRYPTO_TAG_SIZE"
  shows "aead_encrypt L k n a p = (0, c, t)"
proof -
  have lc: "length c + CRYPTO_TAG_SIZE \<le> CRYPTO_MAX_PACKET" and
    dec: "chachapoly_decrypt L k n a (c @ t) = (True, p)"
    using d by (auto simp: aead_decrypt_def split: if_splits prod.splits)
  then have "length p = length c"
    using crypto_lib_okD(5) [OF L, of k n a "c @ t"] t by simp
  then show ?thesis
    using crypto_lib_okD(4) [OF L dec] lc by (simp add: aead_encrypt_def)
qed

lemma aead_decrypt_length:
  assumes "crypto_lib_ok L" "length t = CRYPTO_TAG_SIZE" "aead_decrypt L k n a c t = (st, p)"
  shows "length p = length c"
  using assms crypto_lib_okD(5) [OF assms(1), of k n a "c @ t"]
  by (auto simp: aead_decrypt_def split: if_splits prod.splits)

section \<open>HKDF is RFC 5869\<close>

text \<open>The blocks \<open>T(i) = HMAC(prk, T(i - 1) | info | i)\<close> of the standard.\<close>

primrec hkdf_T :: "crypto_lib \<Rightarrow> bytes \<Rightarrow> bytes \<Rightarrow> nat \<Rightarrow> bytes" where
  "hkdf_T L prk info 0 = []"
| "hkdf_T L prk info (Suc i) = the (hmac_sha256 L prk (hkdf_T L prk info i @ info @ [of_nat (Suc i)]))"

lemma length_hkdf_T: "crypto_lib_ok L \<Longrightarrow> 0 < i \<Longrightarrow> length (hkdf_T L prk info i) = 32"
proof -
  assume "crypto_lib_ok L" "0 < i"
  then show ?thesis
    using crypto_lib_okD(1) [of L prk "hkdf_T L prk info (i - 1) @ info @ [of_nat i]"] by (cases i) auto
qed

lemma hkdf_expand_loop_rfc:
  assumes "crypto_lib_ok L" and "n \<le> 32 * (255 - i)"
  shows "hkdf_expand_loop L prk info n (hkdf_T L prk info i) (of_nat (Suc i)) =
    Some (take n (concat (map (hkdf_T L prk info) [Suc i..<256])))"
  using assms(2)
proof (induction n arbitrary: i rule: less_induct)
  case (less n)
  show ?case
  proof (cases "n = 0")
    case True
    then show ?thesis by (simp add: hkdf_expand_loop.simps)
  next
    case False
    then have i: "i < 255" using less.prems by (cases "i < 255") auto
    let ?T = "hkdf_T L prk info"
    have c: "(of_nat (Suc i) :: u8) \<noteq> 0"
      using i by (simp add: word_unat_eq_iff unat_of_nat del: of_nat_Suc)
    have h: "hmac_sha256 L prk (?T i @ info @ [of_nat (Suc i)]) = Some (?T (Suc i))"
      using crypto_lib_okD(1) [OF assms(1), of prk "?T i @ info @ [of_nat (Suc i)]"] by auto
    have len: "length (?T (Suc i)) = 32" using length_hkdf_T [OF assms(1), of "Suc i" prk info] by simp
    have r: "hkdf_expand_loop L prk info (n - min n 32) (?T (Suc i)) (of_nat (Suc i) + 1) =
        Some (take (n - min n 32) (concat (map ?T [Suc (Suc i)..<256])))"
      using less.IH [of "n - min n 32" "Suc i"] less.prems False by (simp add: add.commute)
    have "take n (?T (Suc i) @ ys) = take (min n 32) (?T (Suc i)) @ take (n - min n 32) ys" for ys
      using len by (simp add: min_def del: hkdf_T.simps)
    moreover have "concat (map ?T [Suc i..<256]) = ?T (Suc i) @ concat (map ?T [Suc (Suc i)..<256])"
      using i by (simp add: upt_conv_Cons del: hkdf_T.simps upt_rec_numeral)
    ultimately show ?thesis
      unfolding hkdf_expand_loop.simps [of L prk info n] using False c h r
      by (simp del: hkdf_T.simps upt_rec_numeral of_nat_Suc)
  qed
qed

lemma length_concat_const:
  "(\<forall>i \<in> set is. length (f i) = m) \<Longrightarrow> length (concat (map f is)) = m * length is"
  by (induction "is") auto

lemma hkdf_expand_rfc:
  assumes "crypto_lib_ok L" "32 \<le> length prk" "0 < n" "n \<le> HKDF_MAX_OKM_LEN"
  shows "hkdf_expand L prk info n = Some (take n (concat (map (hkdf_T L prk info) [1..<256])))"
  using assms hkdf_expand_loop_rfc [OF assms(1), of n 0 prk info]
  by (simp add: hkdf_expand_def del: upt_rec_numeral)

lemma hkdf_expand_length:
  assumes "crypto_lib_ok L" "32 \<le> length prk" "0 < n" "n \<le> 32"
  shows "\<exists>k. hkdf_expand L prk info n = Some k \<and> length k = n"
proof -
  have "length (concat (map (hkdf_T L prk info) [1..<256])) = 32 * length [1..<256]"
    by (rule length_concat_const) (simp add: length_hkdf_T [OF assms(1)] del: upt_rec_numeral)
  then show ?thesis using hkdf_expand_rfc [OF assms(1-3)] assms(4) by (simp del: upt_rec_numeral)
qed

lemma those_Some: "(\<forall>i \<in> set is. \<exists>k. f i = Some k \<and> P k) \<Longrightarrow> \<exists>ks. those (map f is) = Some ks \<and>
    length ks = length is \<and> (\<forall>k \<in> set ks. P k)"
  by (induction "is") auto

lemma derive_session_keys_ok:
  assumes "crypto_lib_ok L" "secret \<noteq> []" "hash \<noteq> []"
  shows "\<exists>sk cks. derive_session_keys L secret hash old = (0, sk, cks) \<and> length sk = 32 \<and>
    length cks = 6 \<and> (\<forall>c \<in> set cks. length c = 32)"
proof -
  obtain prk where prk: "hkdf_extract L hash secret = Some prk" "length prk = 32"
    using crypto_lib_okD(1) [OF assms(1)] unfolding hkdf_extract_def by blast
  have ex: "\<exists>k. hkdf_expand L prk info 32 = Some k \<and> length k = 32" for info
    using hkdf_expand_length [OF assms(1), of prk 32] prk(2) by simp
  have "\<exists>ks. those (map (\<lambda>i. hkdf_expand L prk (channel_label i) 32) [0..<6]) = Some ks \<and>
      length ks = length [0..<6] \<and> (\<forall>k \<in> set ks. length k = 32)"
    by (rule those_Some) (use ex in blast)
  then show ?thesis using ex [of LABEL_SESSION] prk assms(2,3)
    by (auto simp: derive_session_keys_def simp del: upt_rec_numeral)
qed

text \<open>The derived keys are a function of the secret and the transcript hash alone.\<close>

lemma derive_session_keys_old:
  assumes "crypto_lib_ok L" "secret \<noteq> []" "hash \<noteq> []"
  shows "derive_session_keys L secret hash old = derive_session_keys L secret hash old'"
  using derive_session_keys_ok [OF assms, of old] assms(2,3)
  by (auto simp: derive_session_keys_def split: option.splits)

section \<open>Comparison and wiping\<close>

lemma secure_memcmp_zero:
  "length as = length bs \<Longrightarrow> crypto_secure_memcmp as bs d = 0 \<longleftrightarrow> d = 0 \<and> as = bs"
proof (induction as bs arbitrary: d rule: list_induct2)
  case (Cons a as b bs)
  have "(d OR (a XOR b) = 0) = (d = 0 \<and> a = b)"
    by (auto simp: bit_eq_iff bit_or_iff bit_xor_iff)
  then show ?case using Cons.IH by simp
qed simp

lemma secure_store_init_length:
  "\<lbrakk> key_initialized s \<Longrightarrow> length (identity_key s) = 32 \<rbrakk> \<Longrightarrow> length (identity_key (secure_store_init env s)) = 32"
proof -
  have "hex_pairs s = Some bs \<Longrightarrow> length s = 2 * length bs" for s bs
    by (induction s arbitrary: bs rule: hex_pairs.induct) (auto split: option.splits)
  then have "hex_to_bytes e 32 = Some k \<Longrightarrow> length k = 32" for e k
    by (fastforce simp: hex_to_bytes_def split: if_splits)
  then show "\<lbrakk> key_initialized s \<Longrightarrow> length (identity_key s) = 32 \<rbrakk> \<Longrightarrow> ?thesis"
    by (auto simp: secure_store_init_def g_fallback_key_def split: option.splits)
qed

section \<open>An instance\<close>

text \<open>
  A library that satisfies \<open>crypto_lib_ok\<close>, for evaluation: the identity cipher with a tag that
  depends on key, nonce and associated data, and a KEM whose ciphertext carries the secret.
\<close>

definition sample_sum :: "bytes \<Rightarrow> u8" where
  "sample_sum bs = foldr (+) bs 0"

definition sample_tag :: "bytes \<Rightarrow> bytes \<Rightarrow> bytes \<Rightarrow> bytes" where
  "sample_tag k n a = replicate 16 (sample_sum k + 3 * sample_sum n + 5 * sample_sum a)"

definition sample_lib :: crypto_lib where
  "sample_lib = \<lparr>hmac_sha256 = (\<lambda>k d. Some (replicate 32 (sample_sum k + 3 * sample_sum d))),
     sha256 = (\<lambda>d. replicate 32 (7 + sample_sum d)),
     chachapoly_encrypt = (\<lambda>k n a p. Some (p @ sample_tag k n a)),
     chachapoly_decrypt = (\<lambda>k n a c.
       (16 \<le> length c \<and> drop (length c - 16) c = sample_tag k n a, take (length c - 16) c)),
     oqs_keypair = (\<lambda>t s. Some (replicate 1184 (of_nat s), replicate 2400 (of_nat s))),
     oqs_encaps = (\<lambda>t s pk. Some (replicate 1088 (of_nat s), replicate 32 (of_nat s + 1))),
     oqs_decaps = (\<lambda>t sk ct. Some (replicate 32 (hd ct + 1)))\<rparr>"

lemma sample_lib_ok: "crypto_lib_ok sample_lib"
  by (auto simp: crypto_lib_ok_def sample_lib_def sample_tag_def) (metis append_take_drop_id)

end
