(* ===== verification/Session_Enc.thy ===== *)
theory Session_Enc
  imports Session Packet_Wire Crypto
begin

text \<open>
  Packet encryption, \<open>lib/layers/session_enc.c\<close>: the associated data built from the header and
  the channel key, the nonce built from session id, channel and sequence number, encryption
  in place of an outgoing packet and decryption in place of an incoming one. \<open>None\<close> marks a
  write past the end of the packet buffer.
\<close>

section \<open>Operations\<close>

text \<open>
  The header with the ENCRYPTED flag cleared, XORed with the channel key for channels below 6.
\<close>

definition build_aad :: "bytes \<Rightarrow> u8 \<Rightarrow> session \<Rightarrow> bytes" where
  "build_aad d ch s =
     (let aad = (mem_read 0 HEADER_SIZE d)[5 := d ! 5 AND NOT PACKET_FLAG_ENCRYPTED]
      in if ch < 6
         then zipxor aad (map (\<lambda>i. channel_keys (keys s) ! unat ch ! (i mod 32)) [0..<HEADER_SIZE])
         else aad)"

definition session_enc_check ::
    "crypto_lib \<Rightarrow> packet_buf \<Rightarrow> packet_view \<Rightarrow> session \<Rightarrow> int \<times> packet_buf \<times> packet_view \<times> session" where
  "session_enc_check L b p s =
     (if sess_state s \<noteq> SESSION_LOCKED then (0, b, p, s)
      else if channel_id p = CH_CONTROL then (0, b, p, s)
      else
        let (ret, out) = aead_decrypt L (session_key (keys s)) (nonce p) (build_aad (data b) (channel_id p) s)
                           (view_payload b p) (tag p);
            b' = b\<lparr>data := mem_write (payload p) out (data b)\<rparr>
        in if ret \<noteq> 0 then (-1, b', p, s\<lparr>hs := (hs s)\<lparr>last_error := HS_ERR_BAD_IDENTITY\<rparr>\<rparr>)
           else (0, b', p\<lparr>encrypted := False\<rparr>, s))"

definition enc_nonce :: "u64 \<Rightarrow> u8 \<Rightarrow> u32 \<Rightarrow> bytes" where
  "enc_nonce sid ch sq = le_bytes 8 sid @ [ch, 0, ucast (drop_bit 8 sq), ucast sq]"

definition session_enc_apply ::
    "crypto_lib \<Rightarrow> packet_buf \<Rightarrow> packet_view \<Rightarrow> session \<Rightarrow> (int \<times> packet_buf) option" where
  "session_enc_apply L b p s =
     (if sess_state s \<noteq> SESSION_LOCKED then Some (0, b)
      else if channel_id p = CH_CONTROL then Some (0, b)
      else
        let plain = view_payload b p;
            enc_len = AEAD_NONCE_SIZE + plength p + AEAD_TAG_SIZE;
            d1 = mem_write 19 (le_bytes 4 (of_nat enc_len :: u32)) (data b);
            aad = build_aad d1 (channel_id p) s;
            n = enc_nonce (session_id s) (channel_id p) (seq p);
            (ret, cipher, t) = aead_encrypt L (session_key (keys s)) n aad plain
        in if ret \<noteq> 0 then Some (-1, b\<lparr>data := d1\<rparr>)
           else if HEADER_SIZE + enc_len > MAX_PACKET_SIZE then None
           else
             let d2 = mem_write (HEADER_SIZE + AEAD_NONCE_SIZE) cipher d1;
                 d3 = d2[5 := d2 ! 5 OR PACKET_FLAG_ENCRYPTED];
                 d4 = mem_write HEADER_SIZE n d3;
                 d5 = mem_write (HEADER_SIZE + AEAD_NONCE_SIZE + plength p) t d4
             in Some (0, b\<lparr>data := d5, len := HEADER_SIZE + enc_len\<rparr>))"

section \<open>The associated data\<close>

lemma length_build_aad: "HEADER_SIZE \<le> length d \<Longrightarrow> length (build_aad d ch s) = HEADER_SIZE"
  by (simp add: build_aad_def Let_def mem_simps)

lemma and_not_idem: "(x OR y) AND NOT y = x AND NOT (y :: u8)"
  by (rule bit_word_eqI) (auto simp: bit_simps)

lemma and_not_one: "(x OR 1) AND - 2 = x AND (- 2 :: u8)"
  using and_not_idem [of x 1] by simp

text \<open>The header with the ENCRYPTED flag set has the same associated data as without.\<close>

lemma build_aad_flag:
  assumes "mem_read 0 HEADER_SIZE d' = (mem_read 0 HEADER_SIZE d)[5 := d ! 5 OR PACKET_FLAG_ENCRYPTED]"
    and "HEADER_SIZE \<le> length d" "HEADER_SIZE \<le> length d'" and "keys s' = keys s"
  shows "build_aad d' ch s' = build_aad d ch s"
proof -
  have "d' ! 5 = mem_read 0 HEADER_SIZE d' ! 5" using assms(3) by (simp add: mem_simps)
  also have "\<dots> = d ! 5 OR PACKET_FLAG_ENCRYPTED" using assms(1,2) by (simp add: mem_simps)
  finally show ?thesis using assms(1,4) by (simp add: build_aad_def Let_def and_not_one)
qed

section \<open>Round trip\<close>

lemma length_enc_nonce [simp]: "length (enc_nonce sid ch sq) = AEAD_NONCE_SIZE"
  by (simp add: enc_nonce_def)

lemma or_and_mask: "(x OR 1) AND 1 = (1 :: u8)"
  by (rule bit_word_eqI) (auto simp: bit_simps)

lemma mem_read_list_update: "i < off \<or> off + n \<le> i \<Longrightarrow> mem_read off n (d[i := x]) = mem_read off n d"
  by (rule nth_equalityI) (auto simp: mem_read_def nth_list_update)

lemma mem_read_list_update_in:
  "\<lbrakk> off \<le> i; i < off + n \<rbrakk> \<Longrightarrow> mem_read off n (d[i := x]) = (mem_read off n d)[i - off := x]"
  by (simp add: mem_read_def drop_update_swap take_update_swap)

text \<open>
  The buffer that \<open>session_enc_apply\<close> leaves, as a function of the old data, the nonce, the
  ciphertext and the tag, and what a reader finds in it.
\<close>

definition enc_data :: "bytes \<Rightarrow> nat \<Rightarrow> bytes \<Rightarrow> bytes \<Rightarrow> bytes \<Rightarrow> bytes" where
  "enc_data d plen n c t =
     (let d1 = mem_write 19 (le_bytes 4 (of_nat (28 + plen) :: u32)) d;
          d2 = mem_write 36 c d1;
          d3 = d2[5 := d2 ! 5 OR PACKET_FLAG_ENCRYPTED]
      in mem_write (36 + plen) t (mem_write HEADER_SIZE n d3))"

lemma enc_data_reads:
  assumes "length d = MAX_PACKET_SIZE" "length n = 12" "length c = plen" "length t = 16" "52 + plen \<le> MAX_PACKET_SIZE"
  shows "length (enc_data d plen n c t) = MAX_PACKET_SIZE"
    and "off + k \<le> 5 \<or> 6 \<le> off \<and> off + k \<le> 19 \<Longrightarrow> mem_read off k (enc_data d plen n c t) = mem_read off k d"
    and "i < 19 \<Longrightarrow> enc_data d plen n c t ! i = (if i = 5 then d ! 5 OR PACKET_FLAG_ENCRYPTED else d ! i)"
    and "mem_read 19 4 (enc_data d plen n c t) = le_bytes 4 (of_nat (28 + plen) :: u32)"
    and "mem_read HEADER_SIZE 12 (enc_data d plen n c t) = n"
    and "mem_read 36 plen (enc_data d plen n c t) = c"
    and "mem_read (36 + plen) 16 (enc_data d plen n c t) = t"
    and "mem_read 0 HEADER_SIZE (enc_data d plen n c t) =
      (mem_read 0 HEADER_SIZE (mem_write 19 (le_bytes 4 (of_nat (28 + plen) :: u32)) d))[5 := d ! 5 OR PACKET_FLAG_ENCRYPTED]"
  using assms by (auto simp: enc_data_def Let_def mem_simps mem_read_list_update mem_read_list_update_in nth_list_update)

lemma packet_parse_plain:
  assumes "packet_parse b = Some v" "\<not> encrypted v"
  shows "payload v = HEADER_SIZE \<and> len b = HEADER_SIZE + plength v \<and> plength v \<le> 1476"
  using assms by (auto simp: packet_parse_def Let_def split: if_splits)

lemma session_enc_apply_packet:
  assumes L: "crypto_lib_ok L" and s: "session_ok s" "sess_state s = SESSION_LOCKED"
    and b: "buf_ok b" and v: "packet_parse b = Some v" "\<not> encrypted v"
    and ch: "channel_id v \<noteq> CH_CONTROL" and pl: "plength v \<le> 1448"
  shows "\<exists>b' v'. session_enc_apply L b v s = Some (0, b') \<and> buf_ok b' \<and> packet_parse b' = Some v' \<and>
    encrypted v' \<and> magic v' = magic v \<and> version v' = version v \<and> flags v' = flags v OR PACKET_FLAG_ENCRYPTED \<and>
    view_session_id v' = view_session_id v \<and> channel_id v' = channel_id v \<and> seq v' = seq v \<and>
    plength v' = plength v \<and> payload v' = 36 \<and> nonce v' = enc_nonce (session_id s) (channel_id v) (seq v) \<and>
    aead_decrypt L (session_key (keys s)) (nonce v') (build_aad (data b') (channel_id v) s) (view_payload b' v') (tag v') =
      (0, view_payload b v) \<and> addr b' = addr b \<and> addr_len b' = addr_len b"
proof -
  define d1 where "d1 = mem_write 19 (le_bytes 4 (of_nat (28 + plength v) :: u32)) (data b)"
  define n where "n = enc_nonce (session_id s) (channel_id v) (seq v)"
  have ld: "length (data b) = MAX_PACKET_SIZE" using b by (simp add: buf_ok_def)
  have plain: "length (view_payload b v) = plength v" using packet_parse_bounds [OF b v(1)] by simp
  obtain c t where ct: "aead_encrypt L (session_key (keys s)) n (build_aad d1 (channel_id v) s) (view_payload b v) = (0, c, t)"
    "length c = plength v" "length t = 16"
    "aead_decrypt L (session_key (keys s)) n (build_aad d1 (channel_id v) s) c t = (0, view_payload b v)"
    using aead_roundtrip [OF L, of "session_key (keys s)" n "view_payload b v" "build_aad d1 (channel_id v) s"] s(1) pl plain
    by (auto simp: session_ok_def keys_ok_def n_def)
  define d' where "d' = enc_data (data b) (plength v) n c t"
  have ln: "length n = 12" by (simp add: n_def)
  note rd = enc_data_reads [OF ld ln ct(2,3), folded d'_def]
  let ?b' = "b\<lparr>data := d', len := 52 + plength v\<rparr>"
  have ap: "session_enc_apply L b v s = Some (0, ?b')"
    using s(2) ch ct(1,2) pl
    by (simp add: session_enc_apply_def Let_def n_def [symmetric] d1_def d'_def enc_data_def)
  have aad: "build_aad d' (channel_id v) s = build_aad d1 (channel_id v) s"
    by (rule build_aad_flag) (use rd pl ld in \<open>simp_all add: d1_def mem_simps\<close>)
  have u: "unat (of_nat (28 + plength v) :: u32) = 28 + plength v"
    using pl by (simp add: unat_of_nat del: of_nat_add)
  have pv: "magic v = le_word (mem_read 0 4 (data b))" "version v = data b ! 4" "flags v = data b ! 5"
    "view_session_id v = le_word (mem_read 6 8 (data b))" "channel_id v = data b ! 14"
    "seq v = le_word (mem_read 15 4 (data b))"
    using v(1) by (auto simp: packet_parse_def Let_def split: if_splits)
  define v' where "v' = v\<lparr>flags := flags v OR PACKET_FLAG_ENCRYPTED, payload := 36, nonce := n, tag := t, encrypted := True, path_idx := 0\<rparr>"
  have pa: "packet_parse ?b' = Some v'"
    using pl u rd pv v(2)
    by (simp add: packet_parse_def Let_def wire_simps or_and_mask v'_def del: of_nat_add)
  have "view_payload ?b' v' = c" using rd pl by (simp add: view_payload_def v'_def)
  then show ?thesis
    using ap pa aad ct(4) b rd(1) pl by (auto simp: v'_def n_def buf_ok_def)
qed

lemma build_aad_keys: "keys s' = keys s \<Longrightarrow> build_aad d ch s' = build_aad d ch s"
  by (simp add: build_aad_def Let_def)

lemma session_enc_roundtrip:
  assumes L: "crypto_lib_ok L" and s: "session_ok s" "sess_state s = SESSION_LOCKED"
    and r: "sess_state r = SESSION_LOCKED" "keys r = keys s"
    and b: "buf_ok b" and v: "packet_parse b = Some v" "\<not> encrypted v"
    and ch: "channel_id v \<noteq> CH_CONTROL" and pl: "plength v \<le> 1448"
  shows "\<exists>b' v' b'' v''. session_enc_apply L b v s = Some (0, b') \<and> packet_parse b' = Some v' \<and> encrypted v' \<and>
    channel_id v' = channel_id v \<and> seq v' = seq v \<and> view_session_id v' = view_session_id v \<and>
    session_enc_check L b' v' r = (0, b'', v'', r) \<and> \<not> encrypted v'' \<and> view_payload b'' v'' = view_payload b v"
proof -
  obtain b' v' where e: "session_enc_apply L b v s = Some (0, b')" "buf_ok b'" "packet_parse b' = Some v'"
    "encrypted v'" "view_session_id v' = view_session_id v" "channel_id v' = channel_id v" "seq v' = seq v"
    "plength v' = plength v" "payload v' = 36"
    "aead_decrypt L (session_key (keys s)) (nonce v') (build_aad (data b') (channel_id v) s) (view_payload b' v') (tag v') =
      (0, view_payload b v)"
    using session_enc_apply_packet [OF L s b v ch pl] by blast
  let ?b'' = "b'\<lparr>data := mem_write 36 (view_payload b v) (data b')\<rparr>" and ?v'' = "v'\<lparr>encrypted := False\<rparr>"
  have "session_enc_check L b' v' r = (0, ?b'', ?v'', r)"
    using r ch e(6,9,10) build_aad_keys [OF r(2)] by (simp add: session_enc_check_def)
  moreover have "view_payload ?b'' ?v'' = view_payload b v"
    using e(2,8,9) pl packet_parse_bounds [OF b v(1)] by (simp add: view_payload_def buf_ok_def mem_simps)
  ultimately show ?thesis using e by fastforce
qed

section \<open>Authenticity\<close>

text \<open>
  A data packet that a locked session accepts is exactly what encrypting the decrypted payload
  under the session key gives, with the nonce of the packet and with the packet's own header
  as associated data.
\<close>

lemma session_enc_check_authentic:
  assumes L: "crypto_lib_ok L" and st: "sess_state s = SESSION_LOCKED" and ch: "channel_id p \<noteq> CH_CONTROL"
    and b: "buf_ok b" "packet_parse b = Some p" and c: "session_enc_check L b p s = (0, b', p', s')"
  shows "s' = s \<and> p' = p\<lparr>encrypted := False\<rparr> \<and> len b' = len b \<and> mem_read 0 HEADER_SIZE (data b') = mem_read 0 HEADER_SIZE (data b) \<and>
    aead_encrypt L (session_key (keys s)) (nonce p) (build_aad (data b) (channel_id p) s) (view_payload b' p') =
      (0, view_payload b p, tag p)"
proof -
  obtain out where d: "aead_decrypt L (session_key (keys s)) (nonce p) (build_aad (data b) (channel_id p) s)
      (view_payload b p) (tag p) = (0, out)"
    and b': "b' = b\<lparr>data := mem_write (payload p) out (data b)\<rparr>" "p' = p\<lparr>encrypted := False\<rparr>" "s' = s"
    using c st ch by (auto simp: session_enc_check_def Let_def split: prod.splits if_splits)
  note bounds = packet_parse_bounds [OF b]
  have off: "HEADER_SIZE \<le> payload p"
    using b(2) by (auto simp: packet_parse_def Let_def split: if_splits)
  have lo: "length out = plength p"
    using aead_decrypt_length [OF L _ d] bounds by simp
  have ld: "length (data b) = MAX_PACKET_SIZE" using b(1) by (simp add: buf_ok_def)
  have "view_payload b' p' = out"
    using b' lo ld bounds by (simp add: view_payload_def mem_simps)
  moreover have "mem_read 0 HEADER_SIZE (data b') = mem_read 0 HEADER_SIZE (data b)"
    using b' off ld bounds by (simp add: mem_simps)
  ultimately show ?thesis using aead_decrypt_exact [OF L d] bounds b' by simp
qed

section \<open>Nonces\<close>

lemma low16_eq_iff:
  "(ucast (drop_bit 8 x) :: u8) = ucast (drop_bit 8 y) \<and> (ucast x :: u8) = ucast y \<longleftrightarrow>
   take_bit 16 x = take_bit 16 (y :: u32)"
proof
  assume h: "(ucast (drop_bit 8 x) :: u8) = ucast (drop_bit 8 y) \<and> (ucast x :: u8) = ucast y"
  have lo: "bit x k = bit y k" if "k < 8" for k
    using arg_cong [OF conjunct2 [OF h], of "\<lambda>w. bit w k"] that by (simp add: bit_ucast_iff)
  have hi: "bit x (8 + k) = bit y (8 + k)" if "k < 8" for k
    using arg_cong [OF conjunct1 [OF h], of "\<lambda>w. bit w k"] that by (simp add: bit_ucast_iff bit_drop_bit_eq)
  show "take_bit 16 x = take_bit 16 y"
  proof (rule bit_word_eqI)
    fix k
    show "bit (take_bit 16 x) k = bit (take_bit 16 y) k"
      using lo [of k] hi [of "k - 8"] by (cases "k < 8") (auto simp: bit_take_bit_iff)
  qed
next
  assume h: "take_bit 16 x = take_bit 16 y"
  have b: "bit x k = bit y k" if "k < 16" for k
    using arg_cong [OF h, of "\<lambda>w. bit w k"] that by (simp add: bit_take_bit_iff)
  show "(ucast (drop_bit 8 x) :: u8) = ucast (drop_bit 8 y) \<and> (ucast x :: u8) = ucast y"
    by (intro conjI bit_word_eqI) (simp_all add: bit_ucast_iff bit_drop_bit_eq b)
qed

lemma le_bytes_inj8: "le_bytes 8 a = le_bytes 8 b \<longleftrightarrow> a = (b :: u64)"
proof
  assume "le_bytes 8 a = le_bytes 8 b"
  then have "(le_word (le_bytes 8 a) :: u64) = le_word (le_bytes 8 b)" by simp
  then show "a = b" by (simp add: le_word_le_bytes)
qed simp

lemma enc_nonce_eq_iff:
  "enc_nonce sid ch sq = enc_nonce sid' ch' sq' \<longleftrightarrow>
     sid = sid' \<and> ch = ch' \<and> take_bit 16 sq = take_bit 16 sq'"
  using low16_eq_iff [of sq sq'] by (auto simp: enc_nonce_def le_bytes_inj8)

section \<open>Properties\<close>

definition enc_buf_sample :: packet_buf where
  "enc_buf_sample = write_packet 0 9 CH_CHAT 5 [104, 105] buf_sample"

definition enc_session_sample :: session where
  "enc_session_sample = session_init\<lparr>sess_state := SESSION_LOCKED, session_id := 9\<rparr>"

lemma enc_session_sample_ok:
  "session_ok enc_session_sample" "sess_state enc_session_sample = SESSION_LOCKED"
  using session_init_ok by (simp_all add: enc_session_sample_def session_ok_def)

lemma enc_buf_sample_view:
  "\<exists>v. packet_parse enc_buf_sample = Some v \<and> \<not> encrypted v \<and> channel_id v = CH_CHAT \<and> plength v = 2 \<and>
     view_payload enc_buf_sample v = [104, 105]"
  using packet_parse_write [OF buf_sample_ok, of 0 "[104, 105]" 9 CH_CHAT 5]
  by (auto simp: enc_buf_sample_def)

lemma enc_buf_sample_ok: "buf_ok enc_buf_sample"
  by (simp add: enc_buf_sample_def write_packet_ok buf_sample_ok)

text \<open>
  C12: Encryption and decryption of data packets are inverse: a parsed plaintext data packet
  of up to 1448 bytes, encrypted in place by a locked session, parses as an encrypted packet
  with the same session id, channel and sequence number, and a locked session with the same
  keys decrypts it to the original payload.
\<close>

theorem data_packet_roundtrip:
  assumes "crypto_lib_ok L" and "session_ok s" "sess_state s = SESSION_LOCKED"
    and "sess_state r = SESSION_LOCKED" "keys r = keys s"
    and "buf_ok b" and "packet_parse b = Some v" "\<not> encrypted v"
    and "channel_id v \<noteq> CH_CONTROL" and "plength v \<le> 1448"
  shows "\<exists>b' v' b'' v''. session_enc_apply L b v s = Some (0, b') \<and> packet_parse b' = Some v' \<and> encrypted v' \<and>
    channel_id v' = channel_id v \<and> seq v' = seq v \<and> view_session_id v' = view_session_id v \<and>
    session_enc_check L b' v' r = (0, b'', v'', r) \<and> \<not> encrypted v'' \<and> view_payload b'' v'' = view_payload b v"
  using assms by (rule session_enc_roundtrip)

theorem data_packet_roundtrip_witness:
  "\<exists>v b' v' b'' v''. packet_parse enc_buf_sample = Some v \<and>
    session_enc_apply sample_lib enc_buf_sample v enc_session_sample = Some (0, b') \<and> packet_parse b' = Some v' \<and>
    session_enc_check sample_lib b' v' enc_session_sample = (0, b'', v'', enc_session_sample) \<and>
    view_payload b'' v'' = [104, 105]"
proof -
  obtain v where v: "packet_parse enc_buf_sample = Some v" "\<not> encrypted v" "channel_id v = CH_CHAT" "plength v = 2"
    "view_payload enc_buf_sample v = [104, 105]"
    using enc_buf_sample_view by blast
  show ?thesis
    using data_packet_roundtrip [OF sample_lib_ok enc_session_sample_ok enc_session_sample_ok(2) refl
        enc_buf_sample_ok v(1,2)] v by auto
qed

text \<open>
  C13: Acceptance is authentication: if a locked session accepts a data packet, the ciphertext
  and tag in the packet are exactly the encryption of the resulting payload under the session
  key with the packet's nonce and with the packet's own header, bound to the channel key, as
  associated data; the session is not changed.
\<close>

theorem accepted_packet_authentic:
  assumes "crypto_lib_ok L" and "sess_state s = SESSION_LOCKED" and "channel_id p \<noteq> CH_CONTROL"
    and "buf_ok b" "packet_parse b = Some p" and "session_enc_check L b p s = (0, b', p', s')"
  shows "s' = s \<and> aead_encrypt L (session_key (keys s)) (nonce p) (build_aad (data b) (channel_id p) s)
      (view_payload b' p') = (0, view_payload b p, tag p)"
  using session_enc_check_authentic [OF assms] by blast

theorem accepted_packet_authentic_witness:
  "\<exists>b p b' p'. session_enc_check sample_lib b p enc_session_sample = (0, b', p', enc_session_sample) \<and>
    aead_encrypt sample_lib (session_key (keys enc_session_sample)) (nonce p)
      (build_aad (data b) (channel_id p) enc_session_sample) (view_payload b' p') = (0, view_payload b p, tag p)"
proof -
  obtain v where v: "packet_parse enc_buf_sample = Some v" "\<not> encrypted v" "channel_id v = CH_CHAT" "plength v = 2"
    using enc_buf_sample_view by blast
  have ch: "channel_id v \<noteq> CH_CONTROL" "plength v \<le> 1448" using v by simp_all
  obtain b p where e: "session_enc_apply sample_lib enc_buf_sample v enc_session_sample = Some (0, b)" "buf_ok b"
    "packet_parse b = Some p" "channel_id p = channel_id v"
    using session_enc_apply_packet [OF sample_lib_ok enc_session_sample_ok enc_buf_sample_ok v(1,2) ch] by blast
  obtain b' p' where "session_enc_check sample_lib b p enc_session_sample = (0, b', p', enc_session_sample)"
    using session_enc_roundtrip [OF sample_lib_ok enc_session_sample_ok enc_session_sample_ok(2) refl
        enc_buf_sample_ok v(1,2) ch] e by auto
  moreover from this have "aead_encrypt sample_lib (session_key (keys enc_session_sample)) (nonce p)
      (build_aad (data b) (channel_id p) enc_session_sample) (view_payload b' p') = (0, view_payload b p, tag p)"
    using accepted_packet_authentic [OF sample_lib_ok enc_session_sample_ok(2) _ e(2,3)] ch e(4) by simp
  ultimately show ?thesis by blast
qed

text \<open>
  The nonce is not unique. Encrypting two packets of the same channel whose sequence
  numbers agree in the low 16 bits, by the same session or by the two peers of one session
  (which share key and session id), puts the same nonce into both packets.
\<close>

theorem nonce_reuse:
  assumes "crypto_lib_ok L" and "session_ok s" "sess_state s = SESSION_LOCKED" and "session_ok r" "sess_state r = SESSION_LOCKED"
    and "session_id r = session_id s"
    and "buf_ok b" and "packet_parse b = Some v" "\<not> encrypted v" and "buf_ok c" and "packet_parse c = Some w" "\<not> encrypted w"
    and "channel_id v \<noteq> CH_CONTROL" "channel_id w = channel_id v" and "plength v \<le> 1448" "plength w \<le> 1448"
    and "take_bit 16 (seq w) = take_bit 16 (seq v)"
  shows "\<exists>b' v' c' w'. session_enc_apply L b v s = Some (0, b') \<and> packet_parse b' = Some v' \<and>
    session_enc_apply L c w r = Some (0, c') \<and> packet_parse c' = Some w' \<and> nonce v' = nonce w'"
proof -
  obtain b' v' where 1: "session_enc_apply L b v s = Some (0, b')" "packet_parse b' = Some v'"
    "nonce v' = enc_nonce (session_id s) (channel_id v) (seq v)"
    using session_enc_apply_packet [OF assms(1-3,7-9,13,15)] by blast
  obtain c' w' where 2: "session_enc_apply L c w r = Some (0, c')" "packet_parse c' = Some w'"
    "nonce w' = enc_nonce (session_id r) (channel_id w) (seq w)"
    using session_enc_apply_packet [OF assms(1,4,5,10-12) _ assms(16)] assms(13,14) by auto
  have "nonce v' = nonce w'" unfolding 1(3) 2(3) enc_nonce_eq_iff using assms(6,14,17) by simp
  with 1 2 show ?thesis by blast
qed

theorem nonce_reuse_witness:
  "\<exists>v w b' v' c' w'. packet_parse (write_packet 0 9 CH_CHAT 5 [104] buf_sample) = Some v \<and>
    packet_parse (write_packet 0 9 CH_CHAT 65541 [105] buf_sample) = Some w \<and>
    session_enc_apply sample_lib (write_packet 0 9 CH_CHAT 5 [104] buf_sample) v enc_session_sample = Some (0, b') \<and>
    packet_parse b' = Some v' \<and>
    session_enc_apply sample_lib (write_packet 0 9 CH_CHAT 65541 [105] buf_sample) w enc_session_sample = Some (0, c') \<and>
    packet_parse c' = Some w' \<and> nonce v' = nonce w'"
proof -
  let ?b = "write_packet 0 9 CH_CHAT 5 [104] buf_sample" and ?c = "write_packet 0 9 CH_CHAT 65541 [105] buf_sample"
  obtain v where v: "packet_parse ?b = Some v" "\<not> encrypted v" "channel_id v = CH_CHAT" "seq v = 5" "plength v = 1"
    using packet_parse_write [OF buf_sample_ok, of 0 "[104]" 9 CH_CHAT 5] by auto
  obtain w where w: "packet_parse ?c = Some w" "\<not> encrypted w" "channel_id w = CH_CHAT" "seq w = 65541" "plength w = 1"
    using packet_parse_write [OF buf_sample_ok, of 0 "[105]" 9 CH_CHAT 65541] by auto
  have ok: "buf_ok ?b" "buf_ok ?c" by (simp_all add: write_packet_ok buf_sample_ok)
  have "\<exists>b' v' c' w'. session_enc_apply sample_lib ?b v enc_session_sample = Some (0, b') \<and> packet_parse b' = Some v' \<and>
    session_enc_apply sample_lib ?c w enc_session_sample = Some (0, c') \<and> packet_parse c' = Some w' \<and> nonce v' = nonce w'"
    by (rule nonce_reuse [OF sample_lib_ok enc_session_sample_ok enc_session_sample_ok refl ok(1) v(1,2) ok(2) w(1,2)])
      (simp_all add: v w take_bit_eq_mask mask_eq_exp_minus_1)
  then show ?thesis using v w by blast
qed

end
