(* ===== verification/Pipeline.thy ===== *)
theory Pipeline
  imports Filters Session_Gate Session_Enc Seq_Check
begin

text \<open>
  The inbound and outbound packet pipelines: \<open>lib/layers/resilience.c\<close> (error correction on
  the receive path), \<open>lib/pipeline/pipeline_inbound.c\<close> and
  \<open>lib/pipeline/pipeline_outbound.c\<close>. The state is everything the inbound pipeline reads or
  writes: the packet pool, the three filters, the session, the receive queues and the fields
  of \<open>pipeline_ctx_t\<close>. \<open>None\<close> marks an access outside an array.
\<close>

section \<open>State\<close>

datatype pipeline_result =
    PIPELINE_OK
  | PIPELINE_DROP_PARSE
  | PIPELINE_DROP_OFFENSIVE
  | PIPELINE_DROP_ANTI
  | PIPELINE_DROP_STATIC
  | PIPELINE_DROP_KERNEL
  | PIPELINE_DROP_SESSION
  | PIPELINE_DROP_RESILIENCE
  | PIPELINE_DROP_SESSION_ENC
  | PIPELINE_DROP_SEQ
  | PIPELINE_DROP_CHANNEL
  | PIPELINE_DROP_DEMUX

record rx_world =
  w_pool :: pool
  w_off :: offensive
  w_aa :: anti_analysis
  w_kf :: kernel_filter
  w_sess :: session
  w_rxq :: rx_queues
  w_recovered :: "buf_ptr option"
  w_view :: packet_view

section \<open>Error correction on the receive path\<close>

definition try_rebuild :: "rx_world \<Rightarrow> (int \<times> rx_world) option" where
  "try_rebuild w = do {
     (ret, recon, recon_seq, r) \<leftarrow> fec_rx_rebuild (resilience (w_sess w));
     let w1 = w\<lparr>w_sess := (w_sess w)\<lparr>resilience := r\<rparr>\<rparr>;
     if ret \<le> 0 then Some (0, w1)
     else (case pool_get (w_pool w1) of
        (None, p) \<Rightarrow> Some (0, w1\<lparr>w_pool := p\<rparr>)
      | (Some rec, p) \<Rightarrow>
          let s = w_sess w1;
              fill = (\<lambda>x. (write_packet PACKET_FLAG_ENCRYPTED (session_id s)
                            (fec_rx_channel_id (resilience s)) recon_seq recon x)
                          \<lparr>addr := sess_addr s, addr_len := sess_addr_len s\<rparr>)
          in Some (1, w1\<lparr>w_pool := buf_update rec fill p, w_sess := s\<lparr>fec_recovered := Some rec\<rparr>\<rparr>)) }"

definition buf_body :: "packet_buf \<Rightarrow> bytes" where
  "buf_body b = mem_read HEADER_SIZE (len b - HEADER_SIZE) (data b)"

text \<open>The two blocks of \<open>resilience_check\<close>: tracking a data packet, storing a parity packet.\<close>

definition fec_rx_data :: "packet_view \<Rightarrow> bytes \<Rightarrow> rx_world \<Rightarrow> rx_world option" where
  "fec_rx_data v body w =
     (if fec_enabled (resilience (w_sess w)) \<and> encrypted v \<and> channel_id v \<noteq> CH_CONTROL
      then (case fec_rx_track (resilience (w_sess w)) (seq v) body of
              None \<Rightarrow> None
            | Some r \<Rightarrow> map_option snd (try_rebuild (w\<lparr>w_sess := (w_sess w)\<lparr>resilience := r\<rparr>\<rparr>)))
      else Some w)"

definition fec_rx_parity_packet :: "bytes \<Rightarrow> rx_world \<Rightarrow> rx_world option" where
  "fec_rx_parity_packet body w =
     (if length body \<ge> 6
      then map_option snd (try_rebuild (w\<lparr>w_sess := (w_sess w)\<lparr>resilience :=
             fec_rx_store_parity (resilience (w_sess w)) body\<rparr>\<rparr>))
      else Some w)"

definition resilience_check :: "buf_ptr \<Rightarrow> packet_view \<Rightarrow> rx_world \<Rightarrow> (int \<times> rx_world) option" where
  "resilience_check p v w =
     (if sess_state (w_sess w) \<noteq> SESSION_LOCKED then Some (0, w)
      else
        let w1 = w\<lparr>w_sess := (w_sess w)\<lparr>resilience := resilience_record_rx (resilience (w_sess w)) 0 0\<rparr>\<rparr>;
            body = buf_body (pool_mem (w_pool w) p)
        in (case fec_rx_data v body w1 of
              None \<Rightarrow> None
            | Some w2 \<Rightarrow>
                if flags v AND PACKET_FLAG_FEC_PARITY \<noteq> 0
                then (case fec_rx_parity_packet body w2 of
                        None \<Rightarrow> None
                      | Some w3 \<Rightarrow> Some (-1, w3\<lparr>w_pool := pool_return p (w_pool w3)\<rparr>))
                else Some (0, w2)))"

section \<open>Inbound\<close>

definition pipeline_inbound_pre_crypto ::
    "u64 \<Rightarrow> buf_ptr \<Rightarrow> rx_world \<Rightarrow> (pipeline_result \<times> rx_world) option" where
  "pipeline_inbound_pre_crypto now p w =
     (let b = pool_mem (w_pool w) p in
      case packet_parse b of
        None \<Rightarrow> Some (PIPELINE_DROP_PARSE, w)
      | Some view \<Rightarrow>
          let (r1, off) = offensive_check now b view (w_off w);
              w1 = w\<lparr>w_off := off\<rparr>
          in if r1 \<noteq> 0 then Some (PIPELINE_DROP_OFFENSIVE, w1)
          else let (r2, aa) = anti_analysis_check now b view (w_aa w1);
                   w2 = w1\<lparr>w_aa := aa\<rparr>
          in if r2 \<noteq> 0 then Some (PIPELINE_DROP_ANTI, w2)
          else if static_check view \<noteq> 0 then Some (PIPELINE_DROP_STATIC, w2)
          else let (r4, kf) = kernel_filter_check b (w_kf w2);
                   w4 = w2\<lparr>w_kf := kf\<rparr>
          in if r4 \<noteq> 0 then Some (PIPELINE_DROP_KERNEL, w4)
          else let (r5, view') = session_check (w_sess w4) b view
          in if r5 \<noteq> 0 then Some (PIPELINE_DROP_SESSION, w4)
          else (case resilience_check p view' w4 of
                  None \<Rightarrow> None
                | Some (r6, w6) \<Rightarrow>
                    if r6 \<noteq> 0 then Some (PIPELINE_DROP_RESILIENCE, w6)
                    else Some (PIPELINE_OK, w6\<lparr>w_view := view'\<rparr>)))"

text \<open>Decryption in place of the packet in buffer \<open>p\<close>.\<close>

definition world_enc_check :: "crypto_lib \<Rightarrow> buf_ptr \<Rightarrow> packet_view \<Rightarrow> rx_world \<Rightarrow> int \<times> packet_view \<times> rx_world" where
  "world_enc_check L p v w =
     (let (ret, b, v', s) = session_enc_check L (pool_mem (w_pool w) p) v (w_sess w)
      in (ret, v', w\<lparr>w_pool := buf_update p (\<lambda>_. b) (w_pool w), w_sess := s\<rparr>))"

definition world_seq_check :: "packet_view \<Rightarrow> rx_world \<Rightarrow> int \<times> rx_world" where
  "world_seq_check v w = (let (st, s) = seq_check (w_sess w) v in (st, w\<lparr>w_sess := s\<rparr>))"

definition process_fec_recovered :: "crypto_lib \<Rightarrow> buf_ptr \<Rightarrow> rx_world \<Rightarrow> int \<times> rx_world" where
  "process_fec_recovered L rec w =
     (case packet_parse (pool_mem (w_pool w) rec) of
        None \<Rightarrow> (-1, w)
      | Some v \<Rightarrow>
          if \<not> encrypted v then (-1, w)
          else let (ret, v', w1) = world_enc_check L rec v w
          in if ret \<noteq> 0 then (-1, w1)
          else let (st, w2) = world_seq_check v' w1
          in if st = 0 then (0, w2\<lparr>w_recovered := Some rec\<rparr>) else (-1, w2))"

definition take_recovered :: "crypto_lib \<Rightarrow> rx_world \<Rightarrow> rx_world" where
  "take_recovered L w =
     (case fec_recovered (w_sess w) of
        None \<Rightarrow> w
      | Some rec \<Rightarrow>
          let w1 = w\<lparr>w_sess := (w_sess w)\<lparr>fec_recovered := None\<rparr>\<rparr>;
              (ret, w2) = process_fec_recovered L rec w1
          in if ret = 0 then w2 else w2\<lparr>w_pool := pool_return rec (w_pool w2)\<rparr>)"

definition pipeline_inbound_post_crypto :: "crypto_lib \<Rightarrow> buf_ptr \<Rightarrow> rx_world \<Rightarrow> pipeline_result \<times> rx_world" where
  "pipeline_inbound_post_crypto L p w =
     (let w1 = take_recovered L w;
          view = w_view w1;
          (r, view', w2) = (if encrypted view then world_enc_check L p view w1 else (0, view, w1));
          w2 = w2\<lparr>w_view := view'\<rparr>
      in if r \<noteq> 0 then (PIPELINE_DROP_SESSION_ENC, w2)
         else let (st, w3) = world_seq_check view' w2
         in if st \<noteq> 0 then (PIPELINE_DROP_SEQ, w3)
         else let (st2, q) = rx_demux_push (w_rxq w3) p (channel_id view');
                  w4 = w3\<lparr>w_rxq := q\<rparr>
         in if st2 \<noteq> 0 then (PIPELINE_DROP_DEMUX, w4) else (PIPELINE_OK, w4))"

definition pipeline_inbound_process ::
    "crypto_lib \<Rightarrow> u64 \<Rightarrow> buf_ptr \<Rightarrow> rx_world \<Rightarrow> (pipeline_result \<times> rx_world) option" where
  "pipeline_inbound_process L now p w =
     (case pipeline_inbound_pre_crypto now p w of
        None \<Rightarrow> None
      | Some (res, w1) \<Rightarrow>
          if res \<noteq> PIPELINE_OK then Some (res, w1)
          else Some (pipeline_inbound_post_crypto L p w1))"

text \<open>
  The callers of the pipeline (\<open>process_ring_for_engine\<close> and the receive loops of
  \<open>lib/engine/transport_engine.c\<close>) return the buffer of every packet that was not accepted.
\<close>

definition engine_rx_packet :: "crypto_lib \<Rightarrow> u64 \<Rightarrow> buf_ptr \<Rightarrow> rx_world \<Rightarrow> (pipeline_result \<times> rx_world) option" where
  "engine_rx_packet L now p w =
     (case pipeline_inbound_process L now p (w\<lparr>w_recovered := None\<rparr>) of
        None \<Rightarrow> None
      | Some (res, w1) \<Rightarrow>
          Some (res, if res = PIPELINE_OK then w1 else w1\<lparr>w_pool := pool_return p (w_pool w1)\<rparr>))"

section \<open>Outbound\<close>

definition pipeline_outbound_process ::
    "crypto_lib \<Rightarrow> packet_buf \<Rightarrow> session \<Rightarrow> u32 \<Rightarrow> u8 \<Rightarrow> bytes \<Rightarrow> (int \<times> packet_buf) option" where
  "pipeline_outbound_process L b s sq ch pl =
     (if HEADER_SIZE + length pl > MAX_PACKET_SIZE then None
      else
        let b1 = write_packet 0 (session_id s) ch sq pl b
        in if ch \<noteq> CH_CONTROL
           then (case packet_parse b1 of
                   None \<Rightarrow> Some (-1, b1)
                 | Some v \<Rightarrow>
                     (case session_enc_apply L b1 v s of
                        None \<Rightarrow> None
                      | Some (r, b2) \<Rightarrow> if r \<noteq> 0 then Some (-1, b2) else Some (0, b2)))
           else Some (0, b1))"

section \<open>What the error correction may touch\<close>

text \<open>
  \<open>pool_frame p q q'\<close>: the pool lost at most free buffers, and the contents of \<open>p\<close> are the same if
  \<open>p\<close> was not free. \<open>fec_frame p w w'\<close>: only the resilience state, the pending recovered packet and the pool
  changed, and the replay windows of the paths did not.
\<close>

definition pool_frame :: "buf_ptr \<Rightarrow> pool \<Rightarrow> pool \<Rightarrow> bool" where
  "pool_frame p q q' \<longleftrightarrow> length (free_stack q') = length (free_stack q) \<and> top q' \<le> top q \<and>
     (pool_ok q \<longrightarrow> pool_ok q' \<and> set (free_bufs q') \<subseteq> set (free_bufs q) \<and>
        (p \<notin> set (free_bufs q) \<longrightarrow> pool_mem q' p = pool_mem q p))"

definition path_windows :: "resilience \<Rightarrow> bool \<times> nat \<times> window list" where
  "path_windows r = (multipath_enabled r, path_count r, map (\<lambda>m. (path_last_seq m, path_recv_bitmap m)) (paths r))"

definition fec_frame :: "buf_ptr \<Rightarrow> rx_world \<Rightarrow> rx_world \<Rightarrow> bool" where
  "fec_frame p w w' \<longleftrightarrow>
     (\<exists>r fr q. w' = w\<lparr>w_sess := (w_sess w)\<lparr>resilience := r, fec_recovered := fr\<rparr>, w_pool := q\<rparr> \<and>
        path_windows r = path_windows (resilience (w_sess w)) \<and> pool_frame p (w_pool w) q \<and>
        (pool_ok (w_pool w) \<and> p \<notin> set (free_bufs (w_pool w)) \<and> fec_recovered (w_sess w) \<noteq> Some p \<longrightarrow> fr \<noteq> Some p))"

lemma pool_frame_refl: "pool_frame p q q"
  by (simp add: pool_frame_def)

lemma pool_frame_trans: "\<lbrakk> pool_frame p a b; pool_frame p b c \<rbrakk> \<Longrightarrow> pool_frame p a c"
  by (auto simp: pool_frame_def)

lemma fec_frame_trans:
  assumes "fec_frame p a b" and "fec_frame p b c"
  shows "fec_frame p a c"
proof -
  obtain r fr q where b: "b = a\<lparr>w_sess := (w_sess a)\<lparr>resilience := r, fec_recovered := fr\<rparr>, w_pool := q\<rparr>"
    "path_windows r = path_windows (resilience (w_sess a))" "pool_frame p (w_pool a) q"
    "pool_ok (w_pool a) \<and> p \<notin> set (free_bufs (w_pool a)) \<and> fec_recovered (w_sess a) \<noteq> Some p \<longrightarrow> fr \<noteq> Some p"
    using assms(1) unfolding fec_frame_def by blast
  obtain r' fr' q' where c: "c = b\<lparr>w_sess := (w_sess b)\<lparr>resilience := r', fec_recovered := fr'\<rparr>, w_pool := q'\<rparr>"
    "path_windows r' = path_windows (resilience (w_sess b))" "pool_frame p (w_pool b) q'"
    "pool_ok (w_pool b) \<and> p \<notin> set (free_bufs (w_pool b)) \<and> fec_recovered (w_sess b) \<noteq> Some p \<longrightarrow> fr' \<noteq> Some p"
    using assms(2) unfolding fec_frame_def by blast
  have "pool_frame p (w_pool a) q'" using pool_frame_trans [OF b(3)] c(3) b(1) by simp
  moreover have "fr' \<noteq> Some p" if "pool_ok (w_pool a)" "p \<notin> set (free_bufs (w_pool a))" "fec_recovered (w_sess a) \<noteq> Some p"
    using that b c(4) by (auto simp: pool_frame_def)
  ultimately show ?thesis unfolding fec_frame_def using b(1,2) c(1,2)
    by (intro exI [of _ r'] exI [of _ fr'] exI [of _ q']) simp
qed

lemma fec_frame_res:
  "path_windows r = path_windows (resilience (w_sess w)) \<Longrightarrow>
   fec_frame p w (w\<lparr>w_sess := (w_sess w)\<lparr>resilience := r\<rparr>\<rparr>)"
  unfolding fec_frame_def
  by (intro exI [of _ r] exI [of _ "fec_recovered (w_sess w)"] exI [of _ "w_pool w"]) (simp add: pool_frame_refl)

lemma fec_rebuild_state:
  "fec_rx_rebuild r = Some (st, out, osq, r') \<Longrightarrow> r' = r \<or> r' = fec_rx_clear_group r"
  by (cases "fold (fec_scan_slot r) [0..<fec_rx_group_size r] (0, 0, False)")
    (simp add: fec_rx_rebuild_def Let_def split: if_splits)

lemma path_windows_multipath: "path_windows r = path_windows r' \<Longrightarrow> multipath_enabled r = multipath_enabled r'"
  by (simp add: path_windows_def)

lemma path_windows_at:
  assumes "path_windows (resilience s) = path_windows (resilience t)" "last_seq s = last_seq t" "recv_bitmap s = recv_bitmap t" "paths_fit t"
  shows "window_at s i = window_at t i" "paths_fit s"
proof -
  have w: "multipath_enabled (resilience s) = multipath_enabled (resilience t)" "path_count (resilience s) = path_count (resilience t)"
    "map (\<lambda>m. (path_last_seq m, path_recv_bitmap m)) (paths (resilience s)) = map (\<lambda>m. (path_last_seq m, path_recv_bitmap m)) (paths (resilience t))"
    using assms(1) by (simp_all add: path_windows_def)
  have l: "length (paths (resilience s)) = length (paths (resilience t))" using arg_cong [OF w(3), of length] by (simp only: length_map)
  then show "paths_fit s" using assms(4) w(2) by (simp add: paths_fit_def)
  show "window_at s i = window_at t i"
  proof (cases "i < path_count (resilience t)")
    case True
    then have "i < length (paths (resilience t))" using assms(4) by (simp add: paths_fit_def)
    then have "path_last_seq (paths (resilience s) ! i) = path_last_seq (paths (resilience t) ! i) \<and>
        path_recv_bitmap (paths (resilience s) ! i) = path_recv_bitmap (paths (resilience t) ! i)"
      using arg_cong [OF w(3), of "\<lambda>xs. xs ! i"] l by simp
    then show ?thesis unfolding window_at_def w(1,2) assms(2,3) by simp
  next
    case False
    then show ?thesis unfolding window_at_def w(1,2) assms(2,3) by simp
  qed
qed

lemma path_update_windows:
  "(\<And>m. path_last_seq (f m) = path_last_seq m \<and> path_recv_bitmap (f m) = path_recv_bitmap m) \<Longrightarrow>
   path_windows (path_update i f r) = path_windows r"
  by (cases "i < length (paths r)")
    (simp_all add: path_windows_def path_update_def map_update list_update_same_conv list_update_beyond)

lemma record_rx_windows [simp]: "path_windows (resilience_record_rx r i rtt) = path_windows r"
  unfolding resilience_record_rx_def
  by (simp add: path_update_windows record_rtt_def update_loss_rate_def window_put_def Let_def)

lemma fec_windows [simp]:
  "path_windows (fec_rx_store_parity r wire) = path_windows r" "path_windows (fec_rx_clear_group r) = path_windows r"
  by (simp_all add: path_windows_def fec_rx_store_parity_def fec_rx_clear_group_def Let_def)

lemma track_windows: "fec_rx_track r sq pl = Some r' \<Longrightarrow> path_windows r' = path_windows r"
  by (simp add: fec_rx_track_def fec_store_slot_def path_windows_def Let_def bind_eq_Some_conv split: if_splits) auto

lemma rebuild_windows: "fec_rx_rebuild r = Some (st, out, osq, r') \<Longrightarrow> path_windows r' = path_windows r"
  using fec_rebuild_state by fastforce

lemma pool_get_frame:
  assumes "pool_get q = (Some b, q')"
  shows "length (free_stack q') = length (free_stack q) \<and> top q' \<le> top q \<and>
    (pool_ok q \<longrightarrow> pool_ok q' \<and> set (free_bufs q') \<subseteq> set (free_bufs q) \<and> b \<in> set (free_bufs q)) \<and>
    pool_mem q' = pool_mem q"
proof -
  have "free_stack q' = free_stack q" "top q' \<le> top q" "pool_mem q' = pool_mem q"
    using assms by (auto simp: pool_get_def Let_def split: if_splits)
  then show ?thesis using packet_pool.get_SomeD [OF _ assms] by auto
qed

lemma try_rebuild_frame:
  assumes "try_rebuild w = Some (st, w')"
  shows "fec_frame p w w'"
proof -
  obtain ret recon sq r where rb: "fec_rx_rebuild (resilience (w_sess w)) = Some (ret, recon, sq, r)"
    using assms by (auto simp: try_rebuild_def bind_eq_Some_conv)
  let ?w1 = "w\<lparr>w_sess := (w_sess w)\<lparr>resilience := r\<rparr>\<rparr>"
  have 1: "fec_frame p w ?w1" using rebuild_windows [OF rb] by (rule fec_frame_res)
  show ?thesis
  proof (cases "ret \<le> 0")
    case True
    then have "w' = ?w1" using assms rb by (simp add: try_rebuild_def)
    with 1 show ?thesis by simp
  next
    case False
    show ?thesis
    proof (cases "pool_get (w_pool w)")
      case (Pair x q)
      show ?thesis
      proof (cases x)
        case None
        then have "q = w_pool w" using Pair by (auto simp: pool_get_def Let_def split: if_splits)
        then have "w' = ?w1" using assms rb False Pair None by (simp add: try_rebuild_def)
        with 1 show ?thesis by simp
      next
        case (Some rec)
        note g = pool_get_frame [OF Pair [unfolded Some]]
        obtain fill where w': "w' = ?w1\<lparr>w_pool := buf_update rec fill q,
            w_sess := (w_sess ?w1)\<lparr>fec_recovered := Some rec\<rparr>\<rparr>"
          using assms rb False Pair Some by (auto simp: try_rebuild_def Let_def)
        have "fec_frame p ?w1 w'"
          unfolding fec_frame_def w' using g
          by (intro exI [of _ r] exI [of _ "Some rec"] exI [of _ "buf_update rec fill q"])
            (auto simp: pool_frame_def buf_update_def free_bufs_def pool_ok_def)
        with 1 show ?thesis by (rule fec_frame_trans)
      qed
    qed
  qed
qed

lemma fec_rx_data_frame:
  assumes "fec_rx_data v body w = Some w'"
  shows "fec_frame p w w'"
proof (cases "fec_enabled (resilience (w_sess w)) \<and> encrypted v \<and> channel_id v \<noteq> CH_CONTROL")
  case True
  then obtain r x where r: "fec_rx_track (resilience (w_sess w)) (seq v) body = Some r"
    "try_rebuild (w\<lparr>w_sess := (w_sess w)\<lparr>resilience := r\<rparr>\<rparr>) = Some (x, w')"
    using assms by (auto simp: fec_rx_data_def split: option.splits)
  show ?thesis
    by (rule fec_frame_trans [OF fec_frame_res [OF track_windows [OF r(1)]] try_rebuild_frame [OF r(2)]])
next
  case False
  then show ?thesis using assms fec_frame_res [of "resilience (w_sess w)" w p] by (auto simp: fec_rx_data_def)
qed

lemma fec_rx_parity_frame:
  assumes "fec_rx_parity_packet body w = Some w'"
  shows "fec_frame p w w'"
proof (cases "length body \<ge> 6")
  case True
  let ?w2 = "w\<lparr>w_sess := (w_sess w)\<lparr>resilience := fec_rx_store_parity (resilience (w_sess w)) body\<rparr>\<rparr>"
  obtain x where x: "try_rebuild ?w2 = Some (x, w')"
    using assms True by (auto simp: fec_rx_parity_packet_def)
  have "fec_frame p w ?w2" by (rule fec_frame_res) simp
  then show ?thesis using try_rebuild_frame [OF x] fec_frame_trans by blast
next
  case False
  then show ?thesis using assms fec_frame_res [of "resilience (w_sess w)" w p] by (simp add: fec_rx_parity_packet_def)
qed

lemma resilience_check_spec:
  assumes "resilience_check p v w = Some (st, w')"
  shows "(st = 0 \<and> fec_frame p w w' \<and>
      (sess_state (w_sess w) = SESSION_LOCKED \<longrightarrow> flags v AND PACKET_FLAG_FEC_PARITY = 0)) \<or>
    (st = -1 \<and> sess_state (w_sess w) = SESSION_LOCKED \<and> flags v AND PACKET_FLAG_FEC_PARITY \<noteq> 0 \<and>
      (\<exists>w3. fec_frame p w w3 \<and> w' = w3\<lparr>w_pool := pool_return p (w_pool w3)\<rparr>))"
proof (cases "sess_state (w_sess w) = SESSION_LOCKED")
  case False
  then show ?thesis using assms fec_frame_res [of "resilience (w_sess w)" w p] by (simp add: resilience_check_def)
next
  case True
  let ?w1 = "w\<lparr>w_sess := (w_sess w)\<lparr>resilience := resilience_record_rx (resilience (w_sess w)) 0 0\<rparr>\<rparr>"
  obtain w2 where w2: "fec_rx_data v (buf_body (pool_mem (w_pool w) p)) ?w1 = Some w2"
    using assms True by (auto simp: resilience_check_def Let_def split: option.splits)
  have "fec_frame p w ?w1" by (rule fec_frame_res) simp
  then have f: "fec_frame p w w2" using fec_rx_data_frame [OF w2] fec_frame_trans by blast
  then show ?thesis
    using assms True w2 fec_rx_parity_frame [THEN fec_frame_trans [OF f]]
    by (auto simp: resilience_check_def Let_def split: option.splits if_splits)
qed

section \<open>The gate comes before everything that matters\<close>

text \<open>The verdicts of the three filters and of the static checks on a packet, with the state of the filters when it comes.\<close>

definition filters_pass :: "u64 \<Rightarrow> packet_buf \<Rightarrow> packet_view \<Rightarrow> rx_world \<Rightarrow> bool" where
  "filters_pass now b v w \<longleftrightarrow> fst (offensive_check now b v (w_off w)) = 0 \<and>
     fst (anti_analysis_check now b v (w_aa w)) = 0 \<and> static_check v = 0 \<and> fst (kernel_filter_check b (w_kf w)) = 0"

lemma pre_crypto_cases:
  assumes "pipeline_inbound_pre_crypto now p w = Some (res, w')"
  shows "(res \<in> {PIPELINE_DROP_PARSE, PIPELINE_DROP_OFFENSIVE, PIPELINE_DROP_ANTI, PIPELINE_DROP_STATIC,
        PIPELINE_DROP_KERNEL, PIPELINE_DROP_SESSION} \<and>
      (\<exists>off aa kf. w' = w\<lparr>w_off := off, w_aa := aa, w_kf := kf\<rparr>)) \<or>
    (\<exists>v v' off aa kf w6 st. packet_parse (pool_mem (w_pool w) p) = Some v \<and> filters_pass now (pool_mem (w_pool w) p) v w \<and>
      session_check (w_sess w) (pool_mem (w_pool w) p) v = (0, v') \<and>
      resilience_check p v' (w\<lparr>w_off := off, w_aa := aa, w_kf := kf\<rparr>) = Some (st, w6) \<and>
      (if st = 0 then res = PIPELINE_OK \<and> w' = w6\<lparr>w_view := v'\<rparr> else res = PIPELINE_DROP_RESILIENCE \<and> w' = w6))"
proof (cases "packet_parse (pool_mem (w_pool w) p)")
  case None
  then show ?thesis using assms
    by (intro disjI1 conjI exI [of _ "w_off w"] exI [of _ "w_aa w"] exI [of _ "w_kf w"])
      (simp_all add: pipeline_inbound_pre_crypto_def)
next
  case (Some v)
  let ?b = "pool_mem (w_pool w) p"
  obtain r1 off where o: "offensive_check now ?b v (w_off w) = (r1, off)" by fastforce
  obtain r2 aa where a: "anti_analysis_check now ?b v (w_aa w) = (r2, aa)" by fastforce
  obtain r4 kf where k: "kernel_filter_check ?b (w_kf w) = (r4, kf)" by fastforce
  obtain r5 v' where g: "session_check (w_sess w) ?b v = (r5, v')" by fastforce
  note d = pipeline_inbound_pre_crypto_def Let_def Some o a k g
  consider "r1 \<noteq> 0" | "r1 = 0" "r2 \<noteq> 0 \<or> static_check v \<noteq> 0"
    | "r1 = 0" "r2 = 0" "static_check v = 0" "r4 \<noteq> 0 \<or> r5 \<noteq> 0"
    | "r1 = 0" "r2 = 0" "static_check v = 0" "r4 = 0" "r5 = 0" by blast
  then show ?thesis
  proof cases
    case 1
    then show ?thesis using assms
      by (intro disjI1 conjI exI [of _ off] exI [of _ "w_aa w"] exI [of _ "w_kf w"]) (auto simp: d)
  next
    case 2
    then show ?thesis using assms
      by (intro disjI1 conjI exI [of _ off] exI [of _ aa] exI [of _ "w_kf w"]) (auto simp: d split: if_splits)
  next
    case 3
    then show ?thesis using assms
      by (intro disjI1 conjI exI [of _ off] exI [of _ aa] exI [of _ kf]) (auto simp: d split: if_splits)
  next
    case ok: 4
    obtain st w6 where rc: "resilience_check p v' (w\<lparr>w_off := off, w_aa := aa, w_kf := kf\<rparr>) = Some (st, w6)"
      using ok assms by (auto simp: d split: option.splits)
    then have "if st = 0 then res = PIPELINE_OK \<and> w' = w6\<lparr>w_view := v'\<rparr> else res = PIPELINE_DROP_RESILIENCE \<and> w' = w6"
      using ok assms by (auto simp: d split: if_splits)
    moreover have "filters_pass now ?b v w" using ok o a k by (simp add: filters_pass_def)
    ultimately show ?thesis using rc Some g ok by blast
  qed
qed

text \<open>After the gate: the session that a packet meets is still the one it was checked against.\<close>

lemma fec_frame_facts:
  assumes "fec_frame p w w'"
  shows "keys (w_sess w') = keys (w_sess w)" "sess_state (w_sess w') = sess_state (w_sess w)"
    "last_seq (w_sess w') = last_seq (w_sess w)" "recv_bitmap (w_sess w') = recv_bitmap (w_sess w)"
    "path_windows (resilience (w_sess w')) = path_windows (resilience (w_sess w))"
    "w_rxq w' = w_rxq w" "pool_frame p (w_pool w) (w_pool w')" "w_view w' = w_view w"
    "\<lbrakk> pool_ok (w_pool w); p \<notin> set (free_bufs (w_pool w)); fec_recovered (w_sess w) \<noteq> Some p \<rbrakk> \<Longrightarrow>
      fec_recovered (w_sess w') \<noteq> Some p"
  using assms unfolding fec_frame_def by auto

lemma inbound_ok:
  assumes "pipeline_inbound_process L now p w = Some (PIPELINE_OK, w')"
  shows "\<exists>v v'. packet_parse (pool_mem (w_pool w) p) = Some v \<and> filters_pass now (pool_mem (w_pool w) p) v w \<and>
    session_check (w_sess w) (pool_mem (w_pool w) p) v = (0, v') \<and>
    (sess_state (w_sess w) = SESSION_LOCKED \<longrightarrow> flags v' AND PACKET_FLAG_FEC_PARITY = 0) \<and>
    (\<exists>w1. fec_frame p w (w1\<lparr>w_off := w_off w, w_aa := w_aa w, w_kf := w_kf w\<rparr>) \<and>
       pipeline_inbound_post_crypto L p (w1\<lparr>w_view := v'\<rparr>) = (PIPELINE_OK, w'))"
proof -
  obtain res w1 where pre: "pipeline_inbound_pre_crypto now p w = Some (res, w1)"
    using assms by (auto simp: pipeline_inbound_process_def split: option.splits)
  then have res: "res = PIPELINE_OK" and post: "pipeline_inbound_post_crypto L p w1 = (PIPELINE_OK, w')"
    using assms by (auto simp: pipeline_inbound_process_def split: if_splits)
  from pre_crypto_cases [OF pre] res obtain v v' off aa kf w6 where
    v: "packet_parse (pool_mem (w_pool w) p) = Some v" "filters_pass now (pool_mem (w_pool w) p) v w"
      "session_check (w_sess w) (pool_mem (w_pool w) p) v = (0, v')"
    and rc: "resilience_check p v' (w\<lparr>w_off := off, w_aa := aa, w_kf := kf\<rparr>) = Some (0, w6)"
    and w1: "w1 = w6\<lparr>w_view := v'\<rparr>"
    by (auto split: if_splits)
  have fr: "fec_frame p (w\<lparr>w_off := off, w_aa := aa, w_kf := kf\<rparr>) w6"
    "sess_state (w_sess w) = SESSION_LOCKED \<longrightarrow> flags v' AND PACKET_FLAG_FEC_PARITY = 0"
    using resilience_check_spec [OF rc] by auto
  from fr(1) obtain r fr q where "w6 = w\<lparr>w_off := off, w_aa := aa, w_kf := kf,
      w_sess := (w_sess w)\<lparr>resilience := r, fec_recovered := fr\<rparr>, w_pool := q\<rparr>"
    "path_windows r = path_windows (resilience (w_sess w))" "pool_frame p (w_pool w) q"
    "pool_ok (w_pool w) \<and> p \<notin> set (free_bufs (w_pool w)) \<and> fec_recovered (w_sess w) \<noteq> Some p \<longrightarrow> fr \<noteq> Some p"
    unfolding fec_frame_def by auto
  then have "fec_frame p w (w6\<lparr>w_off := w_off w, w_aa := w_aa w, w_kf := w_kf w\<rparr>)"
    unfolding fec_frame_def by (intro exI [of _ r] exI [of _ fr] exI [of _ q]) simp
  then show ?thesis using v post w1 fr(2) by blast
qed

text \<open>
  The pending recovered packet is taken before the packet itself; it may decrypt and advance
  the window, but keeps the keys, the state and the queues.
\<close>

lemma session_enc_check_frame:
  "session_enc_check L b v s = (ret, b', v', s') \<Longrightarrow> keys s' = keys s \<and> sess_state s' = sess_state s \<and>
     resilience s' = resilience s \<and> last_seq s' = last_seq s \<and> recv_bitmap s' = recv_bitmap s \<and>
     channel_id v' = channel_id v \<and> seq v' = seq v \<and> path_idx v' = path_idx v \<and> plength v' = plength v \<and> payload v' = payload v"
  by (auto simp: session_enc_check_def Let_def split: if_splits prod.splits)

lemma seq_check_frame:
  "seq_check s v = (st, s') \<Longrightarrow> keys s' = keys s \<and> sess_state s' = sess_state s \<and>
     multipath_enabled (resilience s') = multipath_enabled (resilience s) \<and> session_id s' = session_id s"
  by (auto simp: seq_check_def Let_def path_update_def split: if_splits prod.splits)

lemma take_recovered_frame:
  "w_rxq (take_recovered L w) = w_rxq w \<and> w_view (take_recovered L w) = w_view w \<and>
   keys (w_sess (take_recovered L w)) = keys (w_sess w) \<and>
   sess_state (w_sess (take_recovered L w)) = sess_state (w_sess w) \<and>
   multipath_enabled (resilience (w_sess (take_recovered L w))) = multipath_enabled (resilience (w_sess w))"
proof (cases "fec_recovered (w_sess w)")
  case (Some rec)
  define w1 where "w1 = w\<lparr>w_sess := (w_sess w)\<lparr>fec_recovered := None\<rparr>\<rparr>"
  obtain ret w2 where pr: "process_fec_recovered L rec w1 = (ret, w2)" by fastforce
  have "w_rxq w2 = w_rxq w1 \<and> w_view w2 = w_view w1 \<and> keys (w_sess w2) = keys (w_sess w1) \<and>
      sess_state (w_sess w2) = sess_state (w_sess w1) \<and>
      multipath_enabled (resilience (w_sess w2)) = multipath_enabled (resilience (w_sess w1))"
    using pr
    by (auto simp: process_fec_recovered_def world_enc_check_def world_seq_check_def Let_def
        split: option.splits if_splits prod.splits dest!: session_enc_check_frame seq_check_frame)
  then show ?thesis using Some pr by (simp add: take_recovered_def w1_def [symmetric]) (simp add: w1_def)
qed (simp add: take_recovered_def)

lemma take_recovered_other:
  assumes "fec_recovered (w_sess w) \<noteq> Some p"
  shows "pool_mem (w_pool (take_recovered L w)) p = pool_mem (w_pool w) p"
proof (cases "fec_recovered (w_sess w)")
  case (Some rec)
  define w1 where "w1 = w\<lparr>w_sess := (w_sess w)\<lparr>fec_recovered := None\<rparr>\<rparr>"
  obtain ret w2 where pr: "process_fec_recovered L rec w1 = (ret, w2)" by fastforce
  have "p \<noteq> rec" using assms Some by simp
  then have "pool_mem (w_pool w2) p = pool_mem (w_pool w1) p"
    using pr by (auto simp: process_fec_recovered_def world_enc_check_def world_seq_check_def Let_def buf_update_def
        split: option.splits if_splits prod.splits)
  then show ?thesis using Some pr by (simp add: take_recovered_def w1_def [symmetric]) (simp add: w1_def)
qed (simp add: take_recovered_def)

lemma session_enc_check_decrypts:
  "\<lbrakk> fst (session_enc_check L b v s) = 0; sess_state s = SESSION_LOCKED; channel_id v \<noteq> CH_CONTROL \<rbrakk> \<Longrightarrow>
   fst (aead_decrypt L (session_key (keys s)) (nonce v) (build_aad (data b) (channel_id v) s) (view_payload b v) (tag v)) = 0"
  by (auto simp: session_enc_check_def Let_def split: if_splits prod.splits)

lemma post_crypto_ok:
  assumes "pipeline_inbound_post_crypto L p w = (PIPELINE_OK, w')" and "rx_ok (w_rxq w)"
  shows "rx_queue_of (w_rxq w') (channel_id (w_view w)) = rx_queue_of (w_rxq w) (channel_id (w_view w)) @ [p] \<and>
    (encrypted (w_view w) \<longrightarrow> fst (session_enc_check L (pool_mem (w_pool (take_recovered L w)) p) (w_view w)
       (w_sess (take_recovered L w))) = 0)"
proof -
  define w1 where "w1 = take_recovered L w"
  have f: "w_rxq w1 = w_rxq w" "w_view w1 = w_view w" using take_recovered_frame [of L w] by (simp_all add: w1_def)
  obtain r v' w2 where dec: "(if encrypted (w_view w1) then world_enc_check L p (w_view w1) w1 else (0, w_view w1, w1)) = (r, v', w2)"
    by (metis prod_cases3)
  have d: "w_rxq w2 = w_rxq w1" "channel_id v' = channel_id (w_view w1)"
    using dec by (auto simp: world_enc_check_def Let_def split: if_splits prod.splits dest!: session_enc_check_frame)
  obtain st w3 where sq: "world_seq_check v' (w2\<lparr>w_view := v'\<rparr>) = (st, w3)" by fastforce
  have w3: "w_rxq w3 = w_rxq w" using sq f d by (auto simp: world_seq_check_def Let_def split: prod.splits)
  obtain st2 q where dm: "rx_demux_push (w_rxq w3) p (channel_id v') = (st2, q)" by fastforce
  have *: "r = 0" "st2 = 0" "w_rxq w' = q"
    using assms(1) dec sq dm unfolding pipeline_inbound_post_crypto_def w1_def [symmetric] Let_def
    by (auto split: if_splits)
  have "rx_queue_of q (channel_id v') = rx_queue_of (w_rxq w) (channel_id v') @ [p]"
    using rx_demux_push_delivers [OF assms(2), of p "channel_id v'" "channel_id v'"] dm w3 * by simp
  moreover have "encrypted (w_view w) \<Longrightarrow> fst (session_enc_check L (pool_mem (w_pool w1) p) (w_view w) (w_sess w1)) = 0"
    using dec * f by (auto simp: world_enc_check_def Let_def split: prod.splits)
  ultimately show ?thesis using * d f by (simp add: w1_def)
qed

lemma enc_check_window:
  assumes "world_enc_check L p v w = (ret, v', w1)"
  shows "window_at (w_sess w1) = window_at (w_sess w)" "paths_fit (w_sess w1) = paths_fit (w_sess w)" "seq v' = seq v" "path_idx v' = path_idx v"
proof -
  obtain b s where e: "session_enc_check L (pool_mem (w_pool w) p) v (w_sess w) = (ret, b, v', s)" "w_sess w1 = s"
    using assms by (auto simp: world_enc_check_def Let_def split: prod.splits)
  note f = session_enc_check_frame [OF e(1)]
  show "window_at (w_sess w1) = window_at (w_sess w)" "paths_fit (w_sess w1) = paths_fit (w_sess w)"
    using f e(2) window_at_same [of s "w_sess w"] by simp_all
  show "seq v' = seq v" "path_idx v' = path_idx v" using f by simp_all
qed

lemma world_seq_window:
  assumes "world_seq_check v w = (st, w')" "paths_fit (w_sess w)" "window_rel (window_at (w_sess w) i) A"
  shows "paths_fit (w_sess w') \<and> (\<exists>B. A \<subseteq> B \<and> window_rel (window_at (w_sess w') i) B \<and>
    (st = 0 \<and> i = path_idx v \<longrightarrow> seq v \<notin> A \<and> seq v \<in> B))"
proof -
  have "seq_check (w_sess w) v = (st, w_sess w')" using assms(1) by (auto simp: world_seq_check_def Let_def split: prod.splits)
  from seq_check_window [OF this assms(2,3)] show ?thesis .
qed

lemma take_recovered_window:
  assumes f: "paths_fit (w_sess w)" and r: "window_rel (window_at (w_sess w) i) A"
  shows "paths_fit (w_sess (take_recovered L w)) \<and> (\<exists>B. A \<subseteq> B \<and> window_rel (window_at (w_sess (take_recovered L w)) i) B)"
proof (cases "fec_recovered (w_sess w)")
  case None
  then show ?thesis using f r by (auto simp: take_recovered_def)
next
  case (Some rec)
  define w1 where "w1 = w\<lparr>w_sess := (w_sess w)\<lparr>fec_recovered := None\<rparr>\<rparr>"
  have 1: "paths_fit (w_sess w1)" "window_rel (window_at (w_sess w1) i) A"
    using f r window_at_same [of "w_sess w1" "w_sess w"] by (simp_all add: w1_def)
  obtain ret w2 where pr: "process_fec_recovered L rec w1 = (ret, w2)" by fastforce
  have "paths_fit (w_sess w2) \<and> (\<exists>B. A \<subseteq> B \<and> window_rel (window_at (w_sess w2) i) B)"
  proof (cases "packet_parse (pool_mem (w_pool w1) rec)")
    case None
    then show ?thesis using pr 1 by (auto simp: process_fec_recovered_def)
  next
    case (Some v)
    obtain e v' w3 where e: "world_enc_check L rec v w1 = (e, v', w3)" by (metis prod_cases3)
    obtain st w4 where q: "world_seq_check v' w3 = (st, w4)" by fastforce
    have 3: "paths_fit (w_sess w3)" "window_rel (window_at (w_sess w3) i) A" using enc_check_window [OF e] 1 by simp_all
    have "w_sess w2 \<in> {w_sess w1, w_sess w3, w_sess w4}"
      using pr Some e q by (auto simp: process_fec_recovered_def split: if_splits)
    then show ?thesis using 1 3 world_seq_window [OF q 3] by auto
  qed
  then show ?thesis using Some pr by (simp add: take_recovered_def w1_def [symmetric])
qed

text \<open>The replay window that the accepted packet meets has seen everything that was accepted before, and afterwards it has seen the packet.\<close>

lemma post_crypto_fresh:
  assumes ok: "pipeline_inbound_post_crypto L p w = (PIPELINE_OK, w')" and f: "paths_fit (w_sess w)"
  shows "path_idx (w_view w') = path_idx (w_view w)"
    and "window_rel (window_at (w_sess w) (path_idx (w_view w))) A \<Longrightarrow> seq (w_view w) \<notin> A \<and>
      (\<exists>B. insert (seq (w_view w)) A \<subseteq> B \<and> window_rel (window_at (w_sess w') (path_idx (w_view w))) B)"
proof -
  define w1 where "w1 = take_recovered L w"
  have v: "w_view w1 = w_view w" using take_recovered_frame [of L w] by (simp add: w1_def)
  obtain e v' w2 where dec: "(if encrypted (w_view w1) then world_enc_check L p (w_view w1) w1 else (0, w_view w1, w1)) = (e, v', w2)"
    by (metis prod_cases3)
  have 2: "window_at (w_sess w2) = window_at (w_sess w1)" "paths_fit (w_sess w2) = paths_fit (w_sess w1)" "seq v' = seq (w_view w)"
    "path_idx v' = path_idx (w_view w)"
    using dec enc_check_window [of L p "w_view w1" w1 e v' w2] v by (auto split: if_splits)
  obtain st w3 where sq: "world_seq_check v' (w2\<lparr>w_view := v'\<rparr>) = (st, w3)" by fastforce
  obtain st2 q where dm: "rx_demux_push (w_rxq w3) p (channel_id v') = (st2, q)" by fastforce
  have *: "st = 0" "w' = w3\<lparr>w_rxq := q\<rparr>"
    using ok dec sq dm unfolding pipeline_inbound_post_crypto_def w1_def [symmetric] Let_def by (auto split: if_splits)
  have "w_view w3 = v'" using sq by (auto simp: world_seq_check_def Let_def split: prod.splits)
  then show "path_idx (w_view w') = path_idx (w_view w)" using * 2(4) by simp
  assume "window_rel (window_at (w_sess w) (path_idx (w_view w))) A"
  from take_recovered_window [OF f this, of L] obtain A1 where
    A1: "A \<subseteq> A1" "paths_fit (w_sess w1)" "window_rel (window_at (w_sess w1) (path_idx (w_view w))) A1"
    by (auto simp: w1_def)
  obtain B where "A1 \<subseteq> B" "window_rel (window_at (w_sess w3) (path_idx (w_view w))) B" "seq v' \<notin> A1" "seq v' \<in> B"
    using world_seq_window [OF sq, of "path_idx (w_view w)" A1] 2 A1(2,3) *(1) by auto
  then show "seq (w_view w) \<notin> A \<and> (\<exists>B. insert (seq (w_view w)) A \<subseteq> B \<and> window_rel (window_at (w_sess w') (path_idx (w_view w))) B)"
    using * 2(3) A1(1) by auto
qed

lemma post_crypto_results:
  "fst (pipeline_inbound_post_crypto L p w) \<in> {PIPELINE_DROP_SESSION_ENC, PIPELINE_DROP_SEQ, PIPELINE_DROP_DEMUX, PIPELINE_OK}"
proof -
  obtain r v' w2 where "(let view = w_view (take_recovered L w) in if encrypted view
      then world_enc_check L p view (take_recovered L w) else (0, view, take_recovered L w)) = (r, v', w2)"
    by (metis prod_cases3)
  then show ?thesis by (auto simp: pipeline_inbound_post_crypto_def Let_def split: prod.splits if_splits)
qed

section \<open>Packets that pass\<close>

text \<open>Without stored parity the error correction only records the packet.\<close>

definition fec_quiet :: "session \<Rightarrow> bool" where
  "fec_quiet s \<longleftrightarrow> \<not> fec_rx_have_parity (resilience s) \<and> fec_group_size (resilience s) \<le> RESILIENCE_FEC_GROUP \<and>
     fec_recovered s = None"

lemma resilience_check_quiet:
  assumes "fec_quiet (w_sess w)" and "flags v AND PACKET_FLAG_FEC_PARITY = 0"
  shows "\<exists>r. resilience_check p v w = Some (0, w\<lparr>w_sess := (w_sess w)\<lparr>resilience := r\<rparr>\<rparr>) \<and>
    multipath_enabled r = multipath_enabled (resilience (w_sess w))"
proof (cases "sess_state (w_sess w) = SESSION_LOCKED")
  case False
  then show ?thesis by (intro exI [of _ "resilience (w_sess w)"]) (simp add: resilience_check_def)
next
  case True
  let ?r1 = "resilience_record_rx (resilience (w_sess w)) 0 0" and ?body = "buf_body (pool_mem (w_pool w) p)"
  let ?w1 = "w\<lparr>w_sess := (w_sess w)\<lparr>resilience := ?r1\<rparr>\<rparr>"
  have q: "\<not> fec_rx_have_parity ?r1" "fec_group_size ?r1 \<le> 4"
    using assms(1) by (auto simp: fec_quiet_def resilience_record_rx_def path_update_def)
  have "\<exists>r. fec_rx_track ?r1 (seq v) ?body = Some r \<and> \<not> fec_rx_have_parity r"
  proof (cases "\<not> fec_enabled ?r1 \<or> fec_group_size ?r1 = 0")
    case False
    then have "unat (seq v) mod fec_group_size ?r1 < 4" using q(2) by (meson le_trans mod_less_divisor not_gr_zero less_le_trans)
    then show ?thesis using False q(1) by (simp add: fec_rx_track_def fec_store_slot_def Let_def)
  qed (use q in \<open>auto simp: fec_rx_track_def\<close>)
  then obtain r where r: "fec_rx_track ?r1 (seq v) ?body = Some r" "\<not> fec_rx_have_parity r" by blast
  have "try_rebuild (?w1\<lparr>w_sess := (w_sess ?w1)\<lparr>resilience := r\<rparr>\<rparr>) = Some (0, w\<lparr>w_sess := (w_sess w)\<lparr>resilience := r\<rparr>\<rparr>)"
    using r(2) by (simp add: try_rebuild_def fec_rx_rebuild_def)
  then have "\<exists>r. fec_rx_data v ?body ?w1 = Some (w\<lparr>w_sess := (w_sess w)\<lparr>resilience := r\<rparr>\<rparr>) \<and>
      multipath_enabled r = multipath_enabled (resilience (w_sess w))"
    using r(1) path_windows_multipath [OF track_windows [OF r(1)]] path_windows_multipath [OF record_rx_windows] by (auto simp: fec_rx_data_def)
  then show ?thesis using True assms(2) by (auto simp: resilience_check_def Let_def)
qed

lemma pre_crypto_pass:
  assumes v: "packet_parse (pool_mem (w_pool w) p) = Some v" and f: "filters_pass now (pool_mem (w_pool w) p) v w"
    and g: "session_check (w_sess w) (pool_mem (w_pool w) p) v = (0, v')"
    and q: "fec_quiet (w_sess w)" "flags v AND PACKET_FLAG_FEC_PARITY = 0"
  shows "\<exists>off aa kf r. pipeline_inbound_pre_crypto now p w = Some (PIPELINE_OK,
      w\<lparr>w_off := off, w_aa := aa, w_kf := kf, w_sess := (w_sess w)\<lparr>resilience := r\<rparr>, w_view := v'\<rparr>) \<and>
    multipath_enabled r = multipath_enabled (resilience (w_sess w))"
proof -
  let ?b = "pool_mem (w_pool w) p"
  obtain off where o: "offensive_check now ?b v (w_off w) = (0, off)" using f by (metis filters_pass_def prod.exhaust_sel)
  obtain aa where a: "anti_analysis_check now ?b v (w_aa w) = (0, aa)" using f by (metis filters_pass_def prod.exhaust_sel)
  obtain kf where k: "kernel_filter_check ?b (w_kf w) = (0, kf)" using f by (metis filters_pass_def prod.exhaust_sel)
  let ?w4 = "w\<lparr>w_off := off, w_aa := aa, w_kf := kf\<rparr>"
  have "flags v' = flags v" using session_check_view [OF g] by (metis packet_view.select_convs(3) packet_view.surjective packet_view.update_convs(12))
  then obtain r where r: "resilience_check p v' ?w4 = Some (0, ?w4\<lparr>w_sess := (w_sess ?w4)\<lparr>resilience := r\<rparr>\<rparr>)"
    "multipath_enabled r = multipath_enabled (resilience (w_sess ?w4))"
    using resilience_check_quiet [of ?w4 v' p] q by auto
  have "pipeline_inbound_pre_crypto now p w = Some (PIPELINE_OK,
      ?w4\<lparr>w_sess := (w_sess ?w4)\<lparr>resilience := r\<rparr>, w_view := v'\<rparr>)"
    using v o a k g r(1) f by (simp add: pipeline_inbound_pre_crypto_def filters_pass_def)
  then show ?thesis using r(2) by auto
qed

text \<open>
  The conditions under which a data packet with view \<open>v\<close> gets through: a locked single-path
  session that knows the peer, a fresh sequence number and room in the channel's queue.
\<close>

definition acceptable :: "u64 \<Rightarrow> buf_ptr \<Rightarrow> packet_view \<Rightarrow> u32 set \<Rightarrow> rx_world \<Rightarrow> bool" where
  "acceptable now p v A w \<longleftrightarrow>
     filters_pass now (pool_mem (w_pool w) p) v w \<and> flags v AND PACKET_FLAG_FEC_PARITY = 0 \<and>
     channel_id v \<noteq> CH_CONTROL \<and> sess_state (w_sess w) = SESSION_LOCKED \<and> sess_addr_len (w_sess w) \<noteq> 0 \<and>
     view_session_id v = session_id (w_sess w) \<and> from_peer (w_sess w) (pool_mem (w_pool w) p) \<and>
     fec_quiet (w_sess w) \<and> session_window_rel (w_sess w) A \<and> seq v \<notin> A \<and>
     (last_seq (w_sess w) = 0 \<or> unat (last_seq (w_sess w)) < unat (seq v) + 64) \<and>
     rx_ok (w_rxq w) \<and> length (rx_queue_of (w_rxq w) (channel_id v)) < RING_SIZE - 1"

lemma acceptable_pre:
  assumes ac: "acceptable now p v A w" and v: "packet_parse (pool_mem (w_pool w) p) = Some v"
  shows "\<exists>off aa kf r. pipeline_inbound_pre_crypto now p w = Some (PIPELINE_OK,
      w\<lparr>w_off := off, w_aa := aa, w_kf := kf, w_sess := (w_sess w)\<lparr>resilience := r\<rparr>, w_view := v\<rparr>) \<and>
    \<not> multipath_enabled r"
proof -
  let ?b = "pool_mem (w_pool w) p"
  have mp: "\<not> multipath_enabled (resilience (w_sess w))"
    using ac by (simp add: acceptable_def session_window_rel_def)
  have "path_idx v = 0" using v by (auto simp: packet_parse_def Let_def split: if_splits)
  then have "v\<lparr>path_idx := 0\<rparr> = v" by simp
  moreover have "fst (session_check (w_sess w) ?b v) = 0"
    using ac session_check_data [of v "w_sess w" ?b] by (simp add: acceptable_def)
  ultimately have "session_check (w_sess w) ?b v = (0, v)"
    using ac mp by (auto simp: session_check_def acceptable_def split: if_splits)
  from pre_crypto_pass [OF v _ this] show ?thesis using ac mp by (auto simp: acceptable_def)
qed

lemma world_seq_check_accept:
  assumes "acceptable now p v A w" and "\<not> multipath_enabled r"
    and "last_seq s = last_seq (w_sess w)" "recv_bitmap s = recv_bitmap (w_sess w)" "resilience s = r" "seq v' = seq v"
  shows "\<exists>s'. seq_check s v' = (0, s')"
proof -
  obtain st s' where c: "seq_check s v' = (st, s')" by fastforce
  have "session_window_rel s A" using assms by (simp add: acceptable_def session_window_rel_def)
  from seq_check_session_spec [OF this c] have "st = 0"
    using assms by (auto simp: acceptable_def filters_pass_def static_check_spec)
  then show ?thesis using c by blast
qed

lemma acceptable_push:
  assumes "acceptable now p v A w"
  shows "\<exists>q. rx_demux_push (w_rxq w) p (channel_id v) = (0, q) \<and>
    rx_queue_of q (channel_id v) = rx_queue_of (w_rxq w) (channel_id v) @ [p]"
proof -
  have ch: "CH_CONTROL \<le> channel_id v" "channel_id v \<le> CH_VIDEO"
    using assms by (auto simp: acceptable_def filters_pass_def static_check_spec)
  have "channel_id v \<in> {CH_CONTROL, CH_AUDIO, CH_CHAT, CH_FILE, CH_VIDEO, CH_ROUTE}"
  proof -
    have "unat (channel_id v) \<in> {1, 2, 3, 4, 5, 6}" using ch by (auto simp: word_le_nat_alt)
    then show ?thesis by (auto simp: word_unat_eq_iff)
  qed
  then have "fst (rx_demux_push (w_rxq w) p (channel_id v)) = 0"
    using assms rx_demux_push_status [of "w_rxq w" p "channel_id v"] by (simp add: acceptable_def)
  then show ?thesis
    using rx_demux_push_delivers [of "w_rxq w" p "channel_id v" "channel_id v"] assms
    by (cases "rx_demux_push (w_rxq w) p (channel_id v)") (simp add: acceptable_def)
qed

lemma acceptable_plain:
  assumes ac: "acceptable now p v A w" and v: "packet_parse (pool_mem (w_pool w) p) = Some v" "\<not> encrypted v"
  shows "\<exists>w'. pipeline_inbound_process L now p w = Some (PIPELINE_OK, w') \<and>
    pool_mem (w_pool w') p = pool_mem (w_pool w) p \<and> w_view w' = v \<and>
    rx_queue_of (w_rxq w') (channel_id v) = rx_queue_of (w_rxq w) (channel_id v) @ [p]"
proof -
  obtain off aa kf r where pre: "pipeline_inbound_pre_crypto now p w = Some (PIPELINE_OK,
      w\<lparr>w_off := off, w_aa := aa, w_kf := kf, w_sess := (w_sess w)\<lparr>resilience := r\<rparr>, w_view := v\<rparr>)"
    "\<not> multipath_enabled r"
    using acceptable_pre [OF ac v(1)] by blast
  define w1 where "w1 = w\<lparr>w_off := off, w_aa := aa, w_kf := kf, w_sess := (w_sess w)\<lparr>resilience := r\<rparr>, w_view := v\<rparr>"
  have nr: "take_recovered L w1 = w1"
    using ac by (simp add: take_recovered_def w1_def acceptable_def fec_quiet_def)
  obtain s' where sq: "seq_check (w_sess w1) v = (0, s')"
    using world_seq_check_accept [OF ac pre(2), of "w_sess w1" v] by (auto simp: w1_def)
  obtain q where q: "rx_demux_push (w_rxq w) p (channel_id v) = (0, q)"
    "rx_queue_of q (channel_id v) = rx_queue_of (w_rxq w) (channel_id v) @ [p]"
    using acceptable_push [OF ac] by blast
  have "pipeline_inbound_post_crypto L p w1 = (PIPELINE_OK, w1\<lparr>w_view := v, w_sess := s', w_rxq := q\<rparr>)"
    using nr v(2) sq q(1) by (simp add: pipeline_inbound_post_crypto_def world_seq_check_def w1_def)
  then show ?thesis using pre(1) q(2) by (simp add: pipeline_inbound_process_def w1_def)
qed

lemma acceptable_encrypted:
  assumes ac: "acceptable now p v A w" and v: "packet_parse (pool_mem (w_pool w) p) = Some v" "encrypted v"
    and dec: "\<And>s. \<lbrakk> sess_state s = SESSION_LOCKED; keys s = keys (w_sess w) \<rbrakk> \<Longrightarrow>
      session_enc_check L (pool_mem (w_pool w) p) v s = (0, b', v', s)"
  shows "\<exists>w'. pipeline_inbound_process L now p w = Some (PIPELINE_OK, w') \<and>
    pool_mem (w_pool w') p = b' \<and> w_view w' = v' \<and>
    rx_queue_of (w_rxq w') (channel_id v) = rx_queue_of (w_rxq w) (channel_id v) @ [p]"
proof -
  obtain off aa kf r where pre: "pipeline_inbound_pre_crypto now p w = Some (PIPELINE_OK,
      w\<lparr>w_off := off, w_aa := aa, w_kf := kf, w_sess := (w_sess w)\<lparr>resilience := r\<rparr>, w_view := v\<rparr>)"
    "\<not> multipath_enabled r"
    using acceptable_pre [OF ac v(1)] by blast
  define w1 where "w1 = w\<lparr>w_off := off, w_aa := aa, w_kf := kf, w_sess := (w_sess w)\<lparr>resilience := r\<rparr>, w_view := v\<rparr>"
  have nr: "take_recovered L w1 = w1"
    using ac by (simp add: take_recovered_def w1_def acceptable_def fec_quiet_def)
  have d: "session_enc_check L (pool_mem (w_pool w) p) v (w_sess w1) = (0, b', v', w_sess w1)"
    using ac by (intro dec) (simp_all add: w1_def acceptable_def)
  have v': "seq v' = seq v" "channel_id v' = channel_id v" using session_enc_check_frame [OF d] by simp_all
  obtain s' where sq: "seq_check (w_sess w1) v' = (0, s')"
    using world_seq_check_accept [OF ac pre(2), of "w_sess w1" v'] v' by (auto simp: w1_def)
  obtain q where q: "rx_demux_push (w_rxq w) p (channel_id v) = (0, q)"
    "rx_queue_of q (channel_id v) = rx_queue_of (w_rxq w) (channel_id v) @ [p]"
    using acceptable_push [OF ac] by blast
  have wd: "world_enc_check L p v w1 = (0, v', w1\<lparr>w_pool := buf_update p (\<lambda>_. b') (w_pool w1)\<rparr>)"
    using d by (simp add: world_enc_check_def w1_def)
  have "pipeline_inbound_post_crypto L p w1 = (PIPELINE_OK,
      w1\<lparr>w_pool := buf_update p (\<lambda>_. b') (w_pool w1), w_view := v', w_sess := s', w_rxq := q\<rparr>)"
    using nr v(2) v' sq q(1) wd by (simp add: pipeline_inbound_post_crypto_def world_seq_check_def w1_def)
  then show ?thesis using pre(1) q(2) by (simp add: pipeline_inbound_process_def w1_def)
qed

lemma packet_parse_cong: "\<lbrakk> data b = data c; len b = len c \<rbrakk> \<Longrightarrow> packet_parse b = packet_parse c"
  by (simp only: packet_parse_def)

lemma session_enc_check_cong:
  "data b = data c \<Longrightarrow> session_enc_check L b v s = (ret, b', v', s') \<Longrightarrow>
   session_enc_check L c v s = (ret, c\<lparr>data := data b'\<rparr>, v', s')"
  by (auto simp: session_enc_check_def view_payload_def Let_def split: if_splits prod.splits)

text \<open>The sender's side: what goes out on the wire for a payload.\<close>

lemma outbound_data:
  assumes L: "crypto_lib_ok L" and s: "session_ok s" "sess_state s = SESSION_LOCKED"
    and b: "buf_ok b" and ch: "ch \<noteq> CH_CONTROL" and pl: "length pl \<le> 1448"
  shows "\<exists>b' v'. pipeline_outbound_process L b s sq ch pl = Some (0, b') \<and> buf_ok b' \<and> packet_parse b' = Some v' \<and>
    encrypted v' \<and> flags v' = PACKET_FLAG_ENCRYPTED \<and> magic v' = PROTO_MAGIC \<and> version v' = PROTO_VERSION \<and>
    view_session_id v' = session_id s \<and> channel_id v' = ch \<and> seq v' = sq \<and> plength v' = length pl \<and>
    (\<forall>r. sess_state r = SESSION_LOCKED \<and> keys r = keys s \<longrightarrow>
       (\<exists>b'' v''. session_enc_check L b' v' r = (0, b'', v'', r) \<and> view_payload b'' v'' = pl))"
proof -
  let ?b1 = "write_packet 0 (session_id s) ch sq pl b"
  have p: "length pl \<le> MAX_PACKET_SIZE - HEADER_SIZE" using pl by simp
  obtain v where v: "packet_parse ?b1 = Some v" "magic v = PROTO_MAGIC" "version v = PROTO_VERSION" "flags v = 0"
    "view_session_id v = session_id s" "channel_id v = ch" "seq v = sq" "plength v = length pl"
    "\<not> encrypted v" "view_payload ?b1 v = pl"
    using packet_parse_write [OF b, of 0 pl "session_id s" ch sq] p by auto
  have ok: "buf_ok ?b1" using write_packet_ok [OF b p] .
  obtain b' v' where e: "session_enc_apply L ?b1 v s = Some (0, b')" "buf_ok b'" "packet_parse b' = Some v'"
    "encrypted v'" "magic v' = magic v" "version v' = version v" "flags v' = flags v OR PACKET_FLAG_ENCRYPTED"
    "view_session_id v' = view_session_id v" "channel_id v' = channel_id v" "seq v' = seq v" "plength v' = plength v"
    using session_enc_apply_packet [OF L s ok v(1,9)] v(6,8) ch pl by auto
  have "\<exists>b'' v''. session_enc_check L b' v' r = (0, b'', v'', r) \<and> view_payload b'' v'' = pl"
    if "sess_state r = SESSION_LOCKED" "keys r = keys s" for r
    using session_enc_roundtrip [OF L s that ok v(1,9)] v(6,8,10) ch pl e(1,3) by auto
  moreover have "pipeline_outbound_process L b s sq ch pl = Some (0, b')"
    using ch pl v(1) e(1) by (simp add: pipeline_outbound_process_def)
  ultimately show ?thesis using e v by auto
qed

section \<open>A sample world\<close>

text \<open>One locked session whose peer is the all-zero address, empty queues and filters, and a packet in buffer 3.\<close>

definition empty_ring :: buf_ring where
  "empty_ring = \<lparr>slots = replicate 1024 0, write_idx = 0, read_idx = 0\<rparr>"

definition world_sample :: "packet_buf \<Rightarrow> rx_world" where
  "world_sample b = \<lparr>w_pool = \<lparr>pool_mem = (\<lambda>_. b), free_stack = replicate 4096 7, top = 1\<rparr>,
     w_off = offensive_init, w_aa = anti_analysis_init, w_kf = kernel_filter_init,
     w_sess = session_init\<lparr>sess_state := SESSION_LOCKED, session_id := 9, sess_addr_len := 28\<rparr>,
     w_rxq = \<lparr>rx_control = empty_ring, rx_audio = empty_ring, rx_chat = empty_ring, rx_file = empty_ring,
              rx_video = empty_ring, rx_route = empty_ring\<rparr>,
     w_recovered = None, w_view = video_view_sample\<rparr>"

lemma world_sample_pool: "pool_ok (w_pool (world_sample b))" "3 \<notin> set (free_bufs (w_pool (world_sample b)))"
  by (simp_all add: world_sample_def pool_ok_def free_bufs_def)

lemma world_sample_passes:
  assumes "addr b = addr buf_sample" "addr_len b = 28" "len b \<le> MAX_PACKET_SIZE" "24 \<le> len b"
    and "static_check v = 0" "flags v = 0 \<or> flags v = PACKET_FLAG_ENCRYPTED \<or> flags v = PACKET_FLAG_FEC_PARITY"
    and "channel_id v = CH_CHAT" "view_session_id v = 9"
  shows "filters_pass 0 b v (world_sample b)" "from_peer (w_sess (world_sample b)) b"
proof -
  have st: "magic v = PROTO_MAGIC" "version v = 1" "seq v \<noteq> 0" using assms(5) by (auto simp: static_check_spec)
  have ps: "packet_source b = Some (sin6_addr (addr buf_sample), ntohs (sin6_port (addr buf_sample)))"
    using assms(1,2) by (simp add: packet_source_def)
  have nb: "\<not> aa_is_bad v" using st assms(6,7) by (auto simp: aa_is_bad_def)
  show "filters_pass 0 b v (world_sample b)"
    using assms st ps nb
    by (auto simp: filters_pass_def offensive_check_trusted off_trusted_def world_sample_def anti_analysis_check_def
        aa_find_or_create_def anti_analysis_init_def aa_score_def aa_new_def kernel_filter_check_spec kernel_filter_init_def Let_def)
  show "from_peer (w_sess (world_sample b)) b"
    using assms(1,2) by (simp add: from_peer_def world_sample_def session_init_def session_zero_def buf_sample_def
        resilience_init_def resilience_zero_def)
qed

lemma world_sample_acceptable:
  assumes "addr b = addr buf_sample" "addr_len b = 28" "len b \<le> MAX_PACKET_SIZE" "24 \<le> len b"
    and "static_check v = 0" "flags v = 0 \<or> flags v = PACKET_FLAG_ENCRYPTED" "channel_id v = CH_CHAT"
      "view_session_id v = 9"
  shows "acceptable 0 3 v {} (world_sample b)"
proof -
  let ?w = "world_sample b"
  have st: "seq v \<noteq> 0" using assms(5) by (auto simp: static_check_spec)
  have "filters_pass 0 b v ?w" "from_peer (w_sess ?w) b" using assms by (auto intro!: world_sample_passes)
  moreover have "flags v AND PACKET_FLAG_FEC_PARITY = 0" using assms(6) by auto
  moreover have "fec_quiet (w_sess ?w)" "session_window_rel (w_sess ?w) {}" "last_seq (w_sess ?w) = 0"
    by (simp_all add: fec_quiet_def session_window_rel_def window_rel_def world_sample_def session_init_def
        session_zero_def resilience_init_def resilience_zero_def)
  moreover have "rx_ok (w_rxq ?w)" "rx_queue_of (w_rxq ?w) CH_CHAT = []"
    by (simp_all add: rx_ok_def rx_queue_of_def world_sample_def empty_ring_def ring_ok_def ring_contents_def ring_count_def)
  moreover have "pool_mem (w_pool ?w) 3 = b" by (simp add: world_sample_def)
  ultimately show ?thesis
    using assms st by (simp add: acceptable_def) (simp add: world_sample_def session_init_def)
qed

section \<open>Properties\<close>

text \<open>
  C5: Nothing unauthenticated touches the session: a packet that the parser, the filters, the
  static checks or the session gate reject leaves the session, the packet pool and the
  receive queues exactly as they were.
\<close>

theorem rejected_packet_no_effect:
  assumes "pipeline_inbound_process L now p w = Some (res, w')"
    and "res \<in> {PIPELINE_DROP_PARSE, PIPELINE_DROP_OFFENSIVE, PIPELINE_DROP_ANTI, PIPELINE_DROP_STATIC,
        PIPELINE_DROP_KERNEL, PIPELINE_DROP_SESSION}"
  shows "w_sess w' = w_sess w \<and> w_pool w' = w_pool w \<and> w_rxq w' = w_rxq w \<and> w_recovered w' = w_recovered w"
proof -
  obtain res1 w1 where pre: "pipeline_inbound_pre_crypto now p w = Some (res1, w1)"
    using assms(1) by (auto simp: pipeline_inbound_process_def split: option.splits)
  show ?thesis
  proof (cases "res1 = PIPELINE_OK")
    case True
    have "res = fst (pipeline_inbound_post_crypto L p w1)"
      using assms(1) pre True by (simp add: pipeline_inbound_process_def)
    then have "res \<in> {PIPELINE_DROP_SESSION_ENC, PIPELINE_DROP_SEQ, PIPELINE_DROP_DEMUX, PIPELINE_OK}"
      using post_crypto_results by simp
    then show ?thesis using assms(2) by auto
  next
    case False
    then have "res1 = res" "w1 = w'" using assms(1) pre by (auto simp: pipeline_inbound_process_def)
    then show ?thesis using pre_crypto_cases [OF pre] assms(2) by (auto split: if_splits)
  qed
qed

theorem rejected_packet_no_effect_witness:
  "\<exists>w'. pipeline_inbound_process sample_lib 0 3 (world_sample buf_sample) = Some (PIPELINE_DROP_PARSE, w') \<and>
     w_sess w' = w_sess (world_sample buf_sample) \<and> w_pool w' = w_pool (world_sample buf_sample)"
proof -
  have "pipeline_inbound_process sample_lib 0 3 (world_sample buf_sample) = Some (PIPELINE_DROP_PARSE, world_sample buf_sample)"
    by (simp add: pipeline_inbound_process_def pipeline_inbound_pre_crypto_def world_sample_def packet_parse_def buf_sample_def)
  then show ?thesis using rejected_packet_no_effect by blast
qed

text \<open>
  C4: Every data packet the pipeline accepts went through all checks: the rate limit, the analysis filter, the static checks and
  the address lists let it pass, it is no parity packet, the session is locked, the packet carries the session's id (unless that is 0,
  which takes any) and comes from that session's peer, it decrypted under the session's keys if it is
  encrypted, and its sequence number is not among those accepted before on its path. It is then appended to the queue of its
  channel, and the replay window has recorded its number.
\<close>

theorem accepted_packet_checked:
  assumes "pipeline_inbound_process L now p w = Some (PIPELINE_OK, w')" and "rx_ok (w_rxq w)"
    and "packet_parse (pool_mem (w_pool w) p) = Some v" and "channel_id v \<noteq> CH_CONTROL"
    and "pool_ok (w_pool w)" "p \<notin> set (free_bufs (w_pool w))" "fec_recovered (w_sess w) \<noteq> Some p" and "paths_fit (w_sess w)"
    and "window_rel (window_at (w_sess w) (path_idx (w_view w'))) A"
  shows "fst (offensive_check now (pool_mem (w_pool w) p) v (w_off w)) = 0 \<and>
    fst (anti_analysis_check now (pool_mem (w_pool w) p) v (w_aa w)) = 0 \<and> static_check v = 0 \<and>
    fst (kernel_filter_check (pool_mem (w_pool w) p) (w_kf w)) = 0 \<and> flags v AND PACKET_FLAG_FEC_PARITY = 0 \<and>
    sess_state (w_sess w) = SESSION_LOCKED \<and> (session_id (w_sess w) = 0 \<or> view_session_id v = session_id (w_sess w)) \<and>
    from_peer (w_sess w) (pool_mem (w_pool w) p) \<and>
    (encrypted v \<longrightarrow> fst (aead_decrypt L (session_key (keys (w_sess w))) (nonce v)
       (build_aad (data (pool_mem (w_pool w) p)) (channel_id v) (w_sess w))
       (view_payload (pool_mem (w_pool w) p) v) (tag v)) = 0) \<and>
    seq v \<notin> A \<and> (\<exists>B. insert (seq v) A \<subseteq> B \<and> window_rel (window_at (w_sess w') (path_idx (w_view w'))) B) \<and>
    rx_queue_of (w_rxq w') (channel_id v) = rx_queue_of (w_rxq w) (channel_id v) @ [p]"
proof -
  let ?b = "pool_mem (w_pool w) p"
  obtain v' w1 where s: "filters_pass now ?b v w" "session_check (w_sess w) ?b v = (0, v')"
    and f: "fec_frame p w (w1\<lparr>w_off := w_off w, w_aa := w_aa w, w_kf := w_kf w\<rparr>)"
      "sess_state (w_sess w) = SESSION_LOCKED \<longrightarrow> flags v' AND PACKET_FLAG_FEC_PARITY = 0"
    and post: "pipeline_inbound_post_crypto L p (w1\<lparr>w_view := v'\<rparr>) = (PIPELINE_OK, w')"
    using inbound_ok [OF assms(1)] assms(3) by auto
  obtain i where v': "v' = v\<lparr>path_idx := i\<rparr>" using session_check_view [OF s(2)] by metis
  note ff = fec_frame_facts [OF f(1), simplified]
  let ?w1 = "w1\<lparr>w_view := v'\<rparr>"
  have b: "pool_mem (w_pool (take_recovered L ?w1)) p = ?b"
    using take_recovered_other [of ?w1 p L] ff assms(5-7) by (simp add: pool_frame_def)
  have locked: "sess_state (w_sess w) = SESSION_LOCKED"
    using s(2) session_check_data [OF assms(4), of "w_sess w" ?b] by simp
  have "fst (aead_decrypt L (session_key (keys (w_sess w))) (nonce v) (build_aad (data ?b) (channel_id v) (w_sess w))
      (view_payload ?b v) (tag v)) = 0" if "encrypted v"
  proof -
    have "fst (session_enc_check L ?b v' (w_sess (take_recovered L ?w1))) = 0"
      using post_crypto_ok [OF post] that v' b ff assms(2) by simp
    from session_enc_check_decrypts [OF this] show ?thesis
      using take_recovered_frame [of L ?w1] ff locked assms(4) v'
        build_aad_keys [of "w_sess (take_recovered L ?w1)" "w_sess w" "data ?b" "channel_id v"]
      by (simp add: view_payload_def)
  qed
  moreover have "seq v \<notin> A \<and> (\<exists>B. insert (seq v) A \<subseteq> B \<and> window_rel (window_at (w_sess w') (path_idx (w_view w'))) B)"
  proof -
    have w: "window_at (w_sess w1) k = window_at (w_sess w) k" "paths_fit (w_sess w1)" for k
      using path_windows_at [of "w_sess w1" "w_sess w"] ff assms(8) by simp_all
    have f1: "paths_fit (w_sess ?w1)" using w(2) by simp
    have "path_idx (w_view w') = path_idx v'" using post_crypto_fresh(1) [OF post f1] by simp
    then show ?thesis using post_crypto_fresh(2) [OF post f1, of A] w(1) assms(9) v' by simp
  qed
  ultimately show ?thesis
    using post_crypto_ok [OF post] assms(2,4) s f(2) locked session_check_data [OF assms(4), of "w_sess w" ?b] v' ff by (simp add: filters_pass_def)
qed

definition chat_sample :: packet_buf where
  "chat_sample = write_packet 0 9 CH_CHAT 5 [104, 105] buf_sample"

lemma chat_sample_view:
  "\<exists>v. packet_parse chat_sample = Some v \<and> \<not> encrypted v \<and> channel_id v = CH_CHAT \<and>
     view_payload chat_sample v = [104, 105] \<and> acceptable 0 3 v {} (world_sample chat_sample)"
proof -
  obtain v where v: "packet_parse chat_sample = Some v" "flags v = 0" "view_session_id v = 9" "channel_id v = CH_CHAT"
    "\<not> encrypted v" "view_payload chat_sample v = [104, 105]"
    using packet_parse_write [OF buf_sample_ok, of 0 "[104, 105]" 9 CH_CHAT 5] by (auto simp: chat_sample_def)
  have "static_check v = 0"
    using static_check_write [OF buf_sample_ok, of "[104, 105]" 5 CH_CHAT 0 9 v] v(1) by (simp add: chat_sample_def)
  then have "acceptable 0 3 v {} (world_sample chat_sample)"
    using v by (intro world_sample_acceptable) (simp_all add: chat_sample_def write_packet_def, simp_all add: buf_sample_def)
  then show ?thesis using v by blast
qed

theorem accepted_packet_checked_witness:
  "\<exists>v w'. packet_parse chat_sample = Some v \<and>
     pipeline_inbound_process sample_lib 0 3 (world_sample chat_sample) = Some (PIPELINE_OK, w') \<and>
     static_check v = 0 \<and> from_peer (w_sess (world_sample chat_sample)) chat_sample \<and>
     (\<exists>B. seq v \<in> B \<and> window_rel (window_at (w_sess w') (path_idx (w_view w'))) B) \<and>
     rx_queue_of (w_rxq w') CH_CHAT = rx_queue_of (w_rxq (world_sample chat_sample)) CH_CHAT @ [3]"
proof -
  let ?w = "world_sample chat_sample"
  obtain v where v: "packet_parse chat_sample = Some v" "\<not> encrypted v" "channel_id v = CH_CHAT" "acceptable 0 3 v {} ?w"
    using chat_sample_view by blast
  have m: "pool_mem (w_pool ?w) 3 = chat_sample" by (simp add: world_sample_def)
  obtain w' where w': "pipeline_inbound_process sample_lib 0 3 ?w = Some (PIPELINE_OK, w')"
    using acceptable_plain [OF v(4)] v m by auto
  have a: "rx_ok (w_rxq ?w)" "fec_recovered (w_sess ?w) \<noteq> Some 3" "session_window_rel (w_sess ?w) {}"
    using v(4) by (simp_all add: acceptable_def fec_quiet_def)
  then have "window_rel (window_at (w_sess ?w) (path_idx (w_view w'))) {}" by (simp add: session_window_rel_def window_at_def)
  moreover have "paths_fit (w_sess ?w)"
    by (simp add: paths_fit_def world_sample_def session_init_def session_zero_def resilience_init_def resilience_zero_def)
  ultimately show ?thesis
    using accepted_packet_checked [OF w' a(1), of v "{}"] world_sample_pool v m w' a(2) by auto
qed

text \<open>
  Encryption is not enforced on reception: a locked session accepts a data packet without
  the ENCRYPTED flag. If it passes the filters, carries the session id, comes from the peer's
  address and has a fresh sequence number, the pipeline accepts it and delivers its bytes
  without decrypting or authenticating anything.
\<close>

theorem plaintext_data_accepted:
  assumes "acceptable now p v A w" and "packet_parse (pool_mem (w_pool w) p) = Some v" "\<not> encrypted v"
  shows "\<exists>w'. pipeline_inbound_process L now p w = Some (PIPELINE_OK, w') \<and>
    pool_mem (w_pool w') p = pool_mem (w_pool w) p \<and> w_view w' = v \<and>
    rx_queue_of (w_rxq w') (channel_id v) = rx_queue_of (w_rxq w) (channel_id v) @ [p]"
  using assms by (rule acceptable_plain)

theorem plaintext_data_accepted_witness:
  "\<exists>v w'. packet_parse chat_sample = Some v \<and> \<not> encrypted v \<and>
     pipeline_inbound_process sample_lib 0 3 (world_sample chat_sample) = Some (PIPELINE_OK, w') \<and>
     view_payload (pool_mem (w_pool w') 3) (w_view w') = [104, 105]"
proof -
  let ?w = "world_sample chat_sample"
  obtain v where v: "packet_parse chat_sample = Some v" "\<not> encrypted v" "view_payload chat_sample v = [104, 105]" "acceptable 0 3 v {} ?w"
    using chat_sample_view by blast
  have m: "pool_mem (w_pool ?w) 3 = chat_sample" by (simp add: world_sample_def)
  show ?thesis using plaintext_data_accepted [OF v(4), of sample_lib] v m by auto
qed

text \<open>
  C1: End to end: a payload of 1 to 1400 bytes that a locked session sends on a data channel
  is delivered. The outbound pipeline yields a packet, and a locked session with the same
  keys, to which the packet is acceptable, accepts it, appends it to the queue of its channel
  and leaves exactly the payload in the buffer.
\<close>

theorem data_delivery:
  assumes "crypto_lib_ok L" and "session_ok s" "sess_state s = SESSION_LOCKED" and "buf_ok b"
    and "ch \<noteq> CH_CONTROL" and "length pl \<le> 1400"
    and "pipeline_outbound_process L b s sq ch pl = Some (0, c)" and "packet_parse c = Some v"
    and "data (pool_mem (w_pool w) p) = data c" "len (pool_mem (w_pool w) p) = len c"
    and "keys (w_sess w) = keys s" and "acceptable now p v A w"
  shows "\<exists>w'. pipeline_inbound_process L now p w = Some (PIPELINE_OK, w') \<and>
    view_payload (pool_mem (w_pool w') p) (w_view w') = pl \<and>
    rx_queue_of (w_rxq w') ch = rx_queue_of (w_rxq w) ch @ [p]"
proof -
  let ?b = "pool_mem (w_pool w) p"
  have pl: "length pl \<le> 1448" using assms(6) by simp
  obtain v' where o: "encrypted v" "channel_id v = ch" and
    dec: "\<forall>r. sess_state r = SESSION_LOCKED \<and> keys r = keys s \<longrightarrow>
       (\<exists>b'' v''. session_enc_check L c v r = (0, b'', v'', r) \<and> view_payload b'' v'' = pl)"
    using outbound_data [OF assms(1-5) pl, of sq] assms(7,8) by auto
  have v: "packet_parse ?b = Some v" using packet_parse_cong [OF assms(9,10)] assms(8) by simp
  have k: "sess_state (w_sess w) = SESSION_LOCKED" using assms(12) by (simp add: acceptable_def)
  obtain b0 v0 where d0: "session_enc_check L c v (w_sess w) = (0, b0, v0, w_sess w)" "view_payload b0 v0 = pl"
    using dec k assms(11) by blast
  have d1: "session_enc_check L ?b v r = (0, ?b\<lparr>data := data b0\<rparr>, v0, r)"
    if "sess_state r = SESSION_LOCKED" "keys r = keys (w_sess w)" for r
  proof -
    have "session_enc_check L c v r = (0, b0, v0, r)"
      using d0(1) that k build_aad_keys [OF that(2), of "data c" "channel_id v"]
      by (auto simp: session_enc_check_def Let_def split: if_splits prod.splits)
    then show ?thesis using session_enc_check_cong [of c ?b L v r 0 b0 v0 r] assms(9) by simp
  qed
  have "view_payload (?b\<lparr>data := data b0\<rparr>) v0 = pl" using d0(2) by (simp add: view_payload_def)
  then show ?thesis using acceptable_encrypted [OF assms(12) v o(1) d1] o(2) by auto
qed

lemma session_enc_apply_addr:
  "session_enc_apply L b v s = Some (r, c) \<Longrightarrow> addr c = addr b \<and> addr_len c = addr_len b"
  by (auto simp: session_enc_apply_def Let_def split: if_splits prod.splits)

lemma outbound_addr:
  "pipeline_outbound_process L b s sq ch pl = Some (r, c) \<Longrightarrow> addr c = addr b \<and> addr_len c = addr_len b"
  by (auto simp: pipeline_outbound_process_def write_packet_def Let_def split: if_splits option.splits
      dest!: session_enc_apply_addr)

theorem data_delivery_witness:
  "\<exists>c w'. pipeline_outbound_process sample_lib buf_sample enc_session_sample 5 CH_CHAT [104, 105] = Some (0, c) \<and>
     pipeline_inbound_process sample_lib 0 3 (world_sample c) = Some (PIPELINE_OK, w') \<and>
     view_payload (pool_mem (w_pool w') 3) (w_view w') = [104, 105] \<and> rx_queue_of (w_rxq w') CH_CHAT = [3]"
proof -
  obtain c v where o: "pipeline_outbound_process sample_lib buf_sample enc_session_sample 5 CH_CHAT [104, 105] = Some (0, c)"
    "buf_ok c" "packet_parse c = Some v" "flags v = PACKET_FLAG_ENCRYPTED" "magic v = PROTO_MAGIC" "version v = PROTO_VERSION"
    "view_session_id v = session_id enc_session_sample" "channel_id v = CH_CHAT" "seq v = 5" "plength v = length [104, 105 :: u8]"
    using outbound_data [OF sample_lib_ok enc_session_sample_ok buf_sample_ok, of CH_CHAT "[104, 105]" 5] by auto
  have st: "static_check v = 0" using o by (simp add: static_check_spec)
  have "24 \<le> len c" "len c \<le> MAX_PACKET_SIZE" using o(2,3) by (auto simp: buf_ok_def packet_parse_def Let_def split: if_splits)
  then have ac: "acceptable 0 3 v {} (world_sample c)"
    using o st outbound_addr [OF o(1)]
    by (intro world_sample_acceptable) (simp_all add: enc_session_sample_def, simp_all add: buf_sample_def)
  have m: "pool_mem (w_pool (world_sample c)) 3 = c" "keys (w_sess (world_sample c)) = keys enc_session_sample"
    "rx_queue_of (w_rxq (world_sample c)) CH_CHAT = []"
    by (simp_all add: world_sample_def enc_session_sample_def rx_queue_of_def empty_ring_def ring_contents_def ring_count_def)
  show ?thesis
    using data_delivery [OF sample_lib_ok enc_session_sample_ok buf_sample_ok _ _ o(1,3) _ _ m(2) ac] o(1) m by auto
qed

lemma pool_return_twice:
  assumes "length (free_stack q) = PACKET_POOL_SIZE" "top q + 2 \<le> PACKET_POOL_SIZE"
  shows "count_list (free_bufs (pool_return p (pool_return p q))) p \<ge> 2 \<and> \<not> pool_ok (pool_return p (pool_return p q))"
proof -
  have t: "free_bufs (pool_return p (pool_return p q)) = free_bufs q @ [p, p]"
    using assms by (simp add: pool_return_def free_bufs_def Let_def take_Suc_conv_app_nth)
  then have "\<not> distinct (free_bufs (pool_return p (pool_return p q)))" by simp
  then show ?thesis using t by (simp add: pool_ok_def)
qed

lemma resilience_drop_returns:
  assumes "pipeline_inbound_process L now p w = Some (PIPELINE_DROP_RESILIENCE, w')"
  shows "\<exists>q. w_pool w' = pool_return p q \<and> pool_frame p (w_pool w) q"
proof -
  obtain res w1 where pre: "pipeline_inbound_pre_crypto now p w = Some (res, w1)"
    using assms by (auto simp: pipeline_inbound_process_def split: option.splits)
  have "res = PIPELINE_DROP_RESILIENCE \<and> w1 = w'"
    using assms pre post_crypto_results [of L p w1] by (auto simp: pipeline_inbound_process_def split: if_splits)
  then obtain off aa kf st v' where rc: "resilience_check p v' (w\<lparr>w_off := off, w_aa := aa, w_kf := kf\<rparr>) = Some (st, w')" "st \<noteq> 0"
    using pre_crypto_cases [OF pre] by (auto split: if_splits)
  then show ?thesis using resilience_check_spec [OF rc(1)] fec_frame_facts(7) by fastforce
qed

text \<open>
  A parity packet is freed twice. On a parity packet the resilience layer returns the
  buffer to the pool and reports a drop, and the engine returns it again: the buffer is then
  twice on the free list, so that the pool can hand it to two owners.
\<close>

theorem parity_packet_freed_twice:
  assumes "engine_rx_packet L now p w = Some (PIPELINE_DROP_RESILIENCE, w')"
    and "pool_ok (w_pool w)" "top (w_pool w) + 2 \<le> PACKET_POOL_SIZE"
  shows "count_list (free_bufs (w_pool w')) p \<ge> 2 \<and> \<not> pool_ok (w_pool w')"
proof -
  obtain w1 where pre: "pipeline_inbound_process L now p (w\<lparr>w_recovered := None\<rparr>) = Some (PIPELINE_DROP_RESILIENCE, w1)"
    and w': "w' = w1\<lparr>w_pool := pool_return p (w_pool w1)\<rparr>"
    using assms(1) by (auto simp: engine_rx_packet_def split: option.splits)
  obtain q where q: "w_pool w1 = pool_return p q" "pool_frame p (w_pool w) q"
    using resilience_drop_returns [OF pre] by auto
  have "length (free_stack q) = PACKET_POOL_SIZE" "top q + 2 \<le> PACKET_POOL_SIZE"
    using q(2) assms(2,3) by (auto simp: pool_frame_def pool_ok_def)
  then show ?thesis using pool_return_twice [of q p] w' q(1) by simp
qed

definition parity_sample :: packet_buf where
  "parity_sample = write_packet PACKET_FLAG_FEC_PARITY 9 CH_CHAT 5 [1] buf_sample"

lemma parity_sample_dropped:
  "\<exists>w'. engine_rx_packet sample_lib 0 3 (world_sample parity_sample) = Some (PIPELINE_DROP_RESILIENCE, w')"
proof -
  let ?w = "world_sample parity_sample"
  obtain v where v: "packet_parse parity_sample = Some v" "flags v = PACKET_FLAG_FEC_PARITY" "view_session_id v = 9"
    "channel_id v = CH_CHAT" "\<not> encrypted v" "magic v = PROTO_MAGIC" "version v = PROTO_VERSION" "seq v = 5"
    using packet_parse_write [OF buf_sample_ok, of PACKET_FLAG_FEC_PARITY "[1]" 9 CH_CHAT 5] by (auto simp: parity_sample_def)
  have st: "static_check v = 0"
    using static_check_write [OF buf_sample_ok, of "[1]" 5 CH_CHAT PACKET_FLAG_FEC_PARITY 9 v] v(1) by (simp add: parity_sample_def)
  have p: "filters_pass 0 parity_sample v ?w" "from_peer (w_sess ?w) parity_sample"
    using v st by (auto intro!: world_sample_passes simp: parity_sample_def write_packet_def buf_sample_def)
  have m: "pool_mem (w_pool ?w) 3 = parity_sample" "\<not> multipath_enabled (resilience (w_sess ?w))" "sess_addr_len (w_sess ?w) = 28"
      "sess_state (w_sess ?w) = SESSION_LOCKED" "session_id (w_sess ?w) = 9"
    by (simp_all add: world_sample_def session_init_def session_zero_def resilience_init_def resilience_zero_def)
  have "fst (session_check (w_sess ?w) parity_sample v) = 0"
    using session_check_data [of v "w_sess ?w" parity_sample] v p m by simp
  then obtain v' where g: "session_check (w_sess ?w) parity_sample v = (0, v')" by (metis prod.exhaust_sel)
  obtain i where v': "v' = v\<lparr>path_idx := i\<rparr>" using session_check_view [OF g] by metis
  obtain off where o: "offensive_check 0 parity_sample v (w_off ?w) = (0, off)" using p(1) by (metis filters_pass_def prod.exhaust_sel)
  obtain aa where a: "anti_analysis_check 0 parity_sample v (w_aa ?w) = (0, aa)" using p(1) by (metis filters_pass_def prod.exhaust_sel)
  obtain kf where k: "kernel_filter_check parity_sample (w_kf ?w) = (0, kf)" using p(1) by (metis filters_pass_def prod.exhaust_sel)
  have "length (buf_body parity_sample) < 6" 
    by (simp add: buf_body_def mem_read_def parity_sample_def write_packet_def)
  then have "\<exists>w6. resilience_check 3 v' (?w\<lparr>w_off := off, w_aa := aa, w_kf := kf\<rparr>) = Some (-1, w6)"
    using v v' m by (simp add: resilience_check_def fec_rx_data_def fec_rx_parity_packet_def)
  then obtain w6 where "pipeline_inbound_pre_crypto 0 3 ?w = Some (PIPELINE_DROP_RESILIENCE, w6)"
    using v(1) o a k g st m by (auto simp: pipeline_inbound_pre_crypto_def)
  moreover have "?w\<lparr>w_recovered := None\<rparr> = ?w" by (simp add: world_sample_def)
  ultimately show ?thesis by (simp add: engine_rx_packet_def pipeline_inbound_process_def)
qed

theorem parity_packet_freed_twice_witness:
  "\<exists>w'. engine_rx_packet sample_lib 0 3 (world_sample parity_sample) = Some (PIPELINE_DROP_RESILIENCE, w') \<and>
     \<not> pool_ok (w_pool w')"
proof -
  have "top (w_pool (world_sample parity_sample)) + 2 \<le> PACKET_POOL_SIZE" by (simp add: world_sample_def)
  then show ?thesis
    using parity_sample_dropped parity_packet_freed_twice [OF _ world_sample_pool(1)] by blast
qed

end
