(* ===== verification/Handshake.thy ===== *)
theory Handshake
  imports Session_Gate Crypto Seq_Check
begin

text \<open>
  The six-message handshake of \<open>lib/handshake/handshake.c\<close>: HELLO, ACCEPT, PQ_KEM_INIT,
  PQ_KEM_RESPONSE, IDENTITY_PROOF and SESSION_LOCKED. Each side hashes every message it sends
  or receives into a transcript; the session keys are derived from the KEM secret and the
  transcript. Random session ids and KEM seeds are arguments, and so is the identity key
  that \<open>secure_store_get_identity_key\<close> returns. Every session has KEM type 0 (before
  initialisation) or 1, so the arrays of the session have the sizes of ML-KEM-768.
\<close>

section \<open>Messages\<close>

abbreviation HS_OK :: int where "HS_OK \<equiv> 0"
abbreviation HS_ERROR :: int where "HS_ERROR \<equiv> -1"
abbreviation HS_NEED_MORE :: int where "HS_NEED_MORE \<equiv> 1"
abbreviation HS_COMPLETE :: int where "HS_COMPLETE \<equiv> 2"
abbreviation PHASE2_HANDSHAKE_TIMEOUT_MS :: u32 where "PHASE2_HANDSHAKE_TIMEOUT_MS \<equiv> 30000"

record handshake_stats =
  attempts_total :: u32
  successes :: u32
  failures_timeout :: u32
  failures_identity :: u32
  failures_replay :: u32
  failures_state :: u32

text \<open>
  The store sequence of most builders: \<open>version\<close> and \<open>flags\<close> are 4-byte integers there, whose
  upper bytes the later stores overwrite.
\<close>

definition ctrl_header :: "u64 \<Rightarrow> u32 \<Rightarrow> nat \<Rightarrow> bytes \<Rightarrow> bytes" where
  "ctrl_header sid sq plen d =
     (let d1 = mem_write 0 (replicate HEADER_SIZE 0) d;
          d2 = mem_write 0 (le_bytes 4 PROTO_MAGIC) d1;
          d3 = mem_write 4 (le_bytes 4 (1 :: u32)) d2;
          d4 = mem_write 5 (le_bytes 4 (0 :: u32)) d3;
          d5 = mem_write 6 (le_bytes 8 sid) d4;
          d6 = mem_write 14 [CH_CONTROL] d5;
          d7 = mem_write 15 (le_bytes 4 sq) d6
      in mem_write 19 (le_bytes 4 (of_nat plen :: u32)) d7)"

definition ctrl_packet :: "u64 \<Rightarrow> u32 \<Rightarrow> bytes \<Rightarrow> packet_buf \<Rightarrow> packet_buf" where
  "ctrl_packet sid sq pl b =
     b\<lparr>data := mem_write HEADER_SIZE pl (ctrl_header sid sq (length pl) (data b)), len := HEADER_SIZE + length pl\<rparr>"

lemma ctrl_header_eq:
  assumes "HEADER_SIZE \<le> length d"
  shows "ctrl_header sid sq n d = write_header 0 sid CH_CONTROL sq n d"
proof (rule nth_equalityI)
  show "length (ctrl_header sid sq n d) = length (write_header 0 sid CH_CONTROL sq n d)"
    using assms by (simp add: ctrl_header_def write_header_def mem_simps)
  fix i assume "i < length (ctrl_header sid sq n d)"
  then have i: "i < length d" using assms by (simp add: ctrl_header_def mem_simps)
  have le: "le_bytes 4 (1 :: u32) = [1, 0, 0, 0]" "le_bytes 4 (0 :: u32) = [0, 0, 0, 0]"
    by (simp_all add: eval_nat_numeral)
  consider "i < 4" | "i = 4" | "i = 5" | "6 \<le> i" "i < 14" | "i = 14" | "15 \<le> i" "i < 19" | "19 \<le> i" "i < 23"
    | "i = 23" | "24 \<le> i" by linarith
  then show "ctrl_header sid sq n d ! i = write_header 0 sid CH_CONTROL sq n d ! i"
    using assms i by cases (simp_all add: ctrl_header_def write_header_def Let_def mem_simps le)
qed

lemma ctrl_packet_eq: "HEADER_SIZE \<le> length (data b) \<Longrightarrow> ctrl_packet sid sq pl b = write_packet 0 sid CH_CONTROL sq pl b"
  by (simp add: ctrl_packet_def write_packet_def ctrl_header_eq)

section \<open>Keys and transcript\<close>

text \<open>The proof key and nonce: SHA-256 over label, secret and transcript, then over \<open>nonce\<close> and that key.\<close>

definition derive_id_proof_key :: "crypto_lib \<Rightarrow> bytes \<Rightarrow> bytes \<Rightarrow> bytes \<Rightarrow> bytes \<times> bytes" where
  "derive_id_proof_key L shared_secret transcript label =
     (let out_key = sha256 L (label @ shared_secret @ transcript);
          buf = sha256 L (ascii ''nonce'' @ out_key)
      in (out_key, take 12 buf))"

text \<open>
  The status of \<open>mbedtls_md_hmac\<close> is not looked at; its documented failures (bad input, no
  memory) would leave the output buffer as it was, here zero.
\<close>

definition md_hmac :: "crypto_lib \<Rightarrow> bytes \<Rightarrow> bytes \<Rightarrow> bytes" where
  "md_hmac L key d = (case hmac_sha256 L key d of Some h \<Rightarrow> h | None \<Rightarrow> replicate 32 0)"

definition update_transcript :: "crypto_lib \<Rightarrow> session \<Rightarrow> bytes \<Rightarrow> session" where
  "update_transcript L s d = s\<lparr>hs := (hs s)\<lparr>transcript_hash := sha256 L (transcript_hash (hs s) @ d),
     messages_exchanged := messages_exchanged (hs s) + 1\<rparr>\<rparr>"

definition set_last_error :: "u8 \<Rightarrow> session \<Rightarrow> session" where
  "set_last_error e s = s\<lparr>hs := (hs s)\<lparr>last_error := e\<rparr>\<rparr>"

definition verify_state_transition :: "session \<Rightarrow> u8 \<Rightarrow> int \<times> session" where
  "verify_state_transition s received_opcode =
     (let expect = (\<lambda>expected.
        if sess_state s \<noteq> expected then (-1, set_last_error HS_ERR_STATE_VIOLATION s) else (0, s))
      in if sess_role s = ROLE_INITIATOR then
           (if received_opcode = CTRL_HELLO then (-1, set_last_error HS_ERR_STATE_VIOLATION s)
            else if received_opcode = CTRL_ACCEPT then expect SESSION_HANDSHAKE_START
            else if received_opcode = CTRL_PQ_KEM_RESPONSE then expect SESSION_PQ_KEM_INIT_SENT
            else if received_opcode = CTRL_IDENTITY_PROOF then expect SESSION_PQ_KEM_RESPONSE_SENT
            else if received_opcode = CTRL_SESSION_LOCKED then expect SESSION_IDENTITY_PROOF_SENT
            else (-1, s))
         else
           (if received_opcode = CTRL_HELLO then
              (if sess_state s \<noteq> SESSION_IDLE \<and> sess_state s \<noteq> SESSION_HANDSHAKE_START then (-1, s) else (0, s))
            else if received_opcode = CTRL_PQ_KEM_INIT then expect SESSION_HANDSHAKE_START
            else if received_opcode = CTRL_IDENTITY_PROOF then expect SESSION_PQ_KEM_RESPONSE_SENT
            else if received_opcode = CTRL_SESSION_LOCKED then expect SESSION_IDENTITY_PROOF_SENT
            else (-1, s)))"

section \<open>Initialisation\<close>

text \<open>\<open>sid\<close> is what \<open>kem_random_bytes\<close> leaves in the session id.\<close>

definition handshake_init_initiator ::
    "u64 \<Rightarrow> bytes \<Rightarrow> u8 \<Rightarrow> session \<Rightarrow> handshake_stats \<Rightarrow> int \<times> session \<times> handshake_stats" where
  "handshake_init_initiator sid id_key kem_t s st =
     (if kem_t \<noteq> KEM_TYPE_MLKEM_768 then (-1, s, st)
      else
        let s1 = session_reset s;
            s2 = s1\<lparr>sess_role := ROLE_INITIATOR, sess_state := SESSION_HANDSHAKE_START, session_id := sid,
                    hs := (hs s1)\<lparr>kem_type := kem_t, timeout_ms := PHASE2_HANDSHAKE_TIMEOUT_MS, messages_exchanged := 0,
                                  our_identity_key := id_key, transcript_hash := replicate 32 0\<rparr>\<rparr>
        in (0, s2, st\<lparr>attempts_total := attempts_total st + 1\<rparr>))"

definition handshake_init_responder :: "bytes \<Rightarrow> u8 \<Rightarrow> session \<Rightarrow> int \<times> session" where
  "handshake_init_responder id_key kem_t s =
     (if kem_t \<noteq> KEM_TYPE_MLKEM_768 then (-1, s)
      else
        let s1 = session_reset s
        in (0, s1\<lparr>sess_role := ROLE_RESPONDER, sess_state := SESSION_HANDSHAKE_START,
                  hs := (hs s1)\<lparr>kem_type := kem_t, timeout_ms := PHASE2_HANDSHAKE_TIMEOUT_MS, messages_exchanged := 0,
                                our_identity_key := id_key, transcript_hash := replicate 32 0\<rparr>\<rparr>))"

section \<open>Building messages\<close>

text \<open>
  A builder takes the session, the buffer \<open>out\<close> and the sequence counter and returns the status
  and all three. The sequence number is taken as soon as the header is started.
\<close>

type_synonym build_result = "int \<times> session \<times> packet_buf \<times> u32"

definition handshake_build_hello :: "crypto_lib \<Rightarrow> pool \<Rightarrow> session \<Rightarrow> u32 \<Rightarrow> buf_ptr option \<times> pool \<times> session \<times> u32" where
  "handshake_build_hello L q s sq =
     (case pool_get q of
        (None, q1) \<Rightarrow> (None, q1, s, sq)
      | (Some p, q1) \<Rightarrow>
          (Some p, buf_update p (write_packet 0 0 CH_CONTROL sq [CTRL_HELLO]) q1, update_transcript L s [CTRL_HELLO], sq + 1))"

definition handshake_build_accept :: "crypto_lib \<Rightarrow> u64 \<Rightarrow> session \<Rightarrow> packet_buf \<Rightarrow> u32 \<Rightarrow> build_result" where
  "handshake_build_accept L sid s out sq =
     (let pl = CTRL_ACCEPT # le_bytes 8 sid
      in (0, update_transcript L (s\<lparr>session_id := sid\<rparr>) pl, write_packet 0 sid CH_CONTROL sq pl out, sq + 1))"

definition handshake_build_kem_init :: "crypto_lib \<Rightarrow> nat \<Rightarrow> session \<Rightarrow> packet_buf \<Rightarrow> u32 \<Rightarrow> build_result" where
  "handshake_build_kem_init L seed s out sq =
     (let (pk_size, sk_size, _, _) = kem_get_sizes (kem_type (hs s))
      in if pk_size = 0 \<or> sk_size = 0 then (-1, s, out, sq)
         else if kem_init (kem_type (hs s)) \<noteq> 0 then (-1, s, out, sq)
         else case kem_keypair L seed (kem_type (hs s)) pk_size sk_size of
                None \<Rightarrow> (-1, s\<lparr>hs := (hs s)\<lparr>kem_secret_key := replicate sk_size 0\<rparr>\<rparr>, out, sq)
              | Some (pk, sk) \<Rightarrow>
                  let s1 = s\<lparr>hs := (hs s)\<lparr>kem_public_key := pk, kem_secret_key := sk\<rparr>\<rparr>;
                      pl = CTRL_PQ_KEM_INIT # pk
                  in (0, (update_transcript L s1 pl)\<lparr>sess_state := SESSION_PQ_KEM_INIT_SENT\<rparr>,
                      ctrl_packet (session_id s) sq pl out, sq + 1))"

text \<open>\<open>derive_session_keys\<close> on the fields of a session.\<close>

definition sess_derive_keys :: "crypto_lib \<Rightarrow> bytes \<Rightarrow> session \<Rightarrow> int \<times> session" where
  "sess_derive_keys L secret s =
     (let (ret, sk, cks) = derive_session_keys L secret (transcript_hash (hs s)) (session_key (keys s), channel_keys (keys s))
      in (ret, s\<lparr>keys := (keys s)\<lparr>session_key := sk, channel_keys := cks\<rparr>\<rparr>))"

definition handshake_build_kem_response :: "crypto_lib \<Rightarrow> nat \<Rightarrow> session \<Rightarrow> packet_buf \<Rightarrow> u32 \<Rightarrow> build_result" where
  "handshake_build_kem_response L seed s out sq =
     (let (pk_size, _, ct_size, ss_size) = kem_get_sizes (kem_type (hs s))
      in if ct_size = 0 \<or> ss_size = 0 then (-1, s, out, sq)
         else case kem_encapsulate L seed (take pk_size (peer_public_key (hs s))) ct_size ss_size of
                None \<Rightarrow> (-1, s, out, sq)
              | Some (ciphertext, shared_secret) \<Rightarrow>
                  let (ret, s1) = sess_derive_keys L shared_secret s
                  in if ret \<noteq> 0 then (-1, s1, out, sq)
                     else let s2 = s1\<lparr>hs := (hs s1)\<lparr>kem_shared_secret := shared_secret\<rparr>\<rparr>;
                              pl = CTRL_PQ_KEM_RESPONSE # ciphertext
                          in (0, (update_transcript L s2 pl)\<lparr>sess_state := SESSION_PQ_KEM_RESPONSE_SENT\<rparr>,
                              ctrl_packet (session_id s) sq pl out, sq + 1))"

text \<open>The encrypted identity proof: \<open>key | HMAC(key, transcript)\<close> under the proof key; opcode, nonce, cipher, tag.\<close>

definition proof_payload :: "crypto_lib \<Rightarrow> u8 \<Rightarrow> string \<Rightarrow> session \<Rightarrow> bytes option" where
  "proof_payload L opc label s =
     (let sig = md_hmac L (our_identity_key (hs s)) (transcript_hash (hs s));
          proof_plain = our_identity_key (hs s) @ sig;
          (proof_key, n) = derive_id_proof_key L (kem_shared_secret (hs s)) (transcript_hash (hs s)) (ascii label);
          (ret, cipher, t) = aead_encrypt L proof_key n [] proof_plain
      in if ret \<noteq> 0 then None else Some (opc # n @ cipher @ t))"

definition handshake_build_identity :: "crypto_lib \<Rightarrow> session \<Rightarrow> packet_buf \<Rightarrow> u32 \<Rightarrow> build_result" where
  "handshake_build_identity L s out sq =
     (case proof_payload L CTRL_IDENTITY_PROOF ''pqcomm-id-proof'' s of
        None \<Rightarrow> (-1, s, out\<lparr>data := mem_write 0 (replicate HEADER_SIZE 0) (data out)\<rparr>, sq + 1)
      | Some pl \<Rightarrow>
          (0, (update_transcript L s pl)\<lparr>sess_state := SESSION_IDENTITY_PROOF_SENT\<rparr>,
           ctrl_packet (session_id s) sq pl out, sq + 1))"

text \<open>\<open>crypto_secure_wipe\<close> of the KEM secrets once the keys are derived.\<close>

definition wipe_kem_secrets :: "session \<Rightarrow> session" where
  "wipe_kem_secrets s =
     (let (_, sk_size, _, _) = kem_get_sizes (kem_type (hs s))
      in s\<lparr>hs := (hs s)\<lparr>kem_secret_key := mem_write 0 (replicate sk_size 0) (kem_secret_key (hs s)),
                      kem_shared_secret := mem_write 0 (replicate 32 0) (kem_shared_secret (hs s))\<rparr>\<rparr>)"

definition handshake_build_locked :: "crypto_lib \<Rightarrow> session \<Rightarrow> packet_buf \<Rightarrow> u32 \<Rightarrow> build_result" where
  "handshake_build_locked L s out sq =
     (case proof_payload L CTRL_SESSION_LOCKED ''pqcomm-lock-proof'' s of
        None \<Rightarrow> (-1, s, out\<lparr>data := mem_write 0 (replicate HEADER_SIZE 0) (data out)\<rparr>, sq + 1)
      | Some pl \<Rightarrow>
          let out1 = ctrl_packet (session_id s) sq pl out;
              (ret, s2) = sess_derive_keys L (kem_shared_secret (hs s)) (update_transcript L s pl)
          in if ret \<noteq> 0 then (-1, s2, out1, sq + 1)
             else (0, (wipe_kem_secrets s2)\<lparr>sess_state := SESSION_LOCKED, handshake_complete := True\<rparr>, out1, sq + 1))"

definition handshake_build_error :: "u8 \<Rightarrow> session \<Rightarrow> packet_buf \<Rightarrow> u32 \<Rightarrow> build_result" where
  "handshake_build_error error_code s out sq =
     (0, s, ctrl_packet (session_id s) sq [CTRL_HANDSHAKE_ERROR, error_code] out, sq + 1)"

section \<open>Processing messages\<close>

text \<open>
  Checking the proof in a received message \<open>pl\<close> against the transcript before it: the session
  with the peer's key stored and, on success, marked verified. The received nonce is copied
  and then overwritten by the derived one.
\<close>

definition check_proof :: "crypto_lib \<Rightarrow> string \<Rightarrow> bytes \<Rightarrow> bytes \<Rightarrow> session \<Rightarrow> bool \<times> session" where
  "check_proof L label pre pl s =
     (let t = mem_read (1 + 12 + 64) 16 pl;
          (proof_key, n) = derive_id_proof_key L (kem_shared_secret (hs s)) pre (ascii label);
          (ret, plain) = aead_decrypt L proof_key n [] (mem_read (1 + 12) 64 pl) t
      in if ret \<noteq> 0 then (False, s)
         else let s1 = s\<lparr>hs := (hs s)\<lparr>peer_identity_key := take 32 plain\<rparr>\<rparr>;
                  expected_sig = md_hmac L (peer_identity_key (hs s1)) pre
              in if mem_read 32 32 plain \<noteq> expected_sig then (False, s1)
                 else (True, s1\<lparr>hs := (hs s1)\<lparr>identity_verified := True\<rparr>\<rparr>))"

definition identity_failure :: "session \<Rightarrow> handshake_stats \<Rightarrow> int \<times> session \<times> handshake_stats" where
  "identity_failure s st = (HS_ERROR, set_last_error HS_ERR_BAD_IDENTITY s, st\<lparr>failures_identity := failures_identity st + 1\<rparr>)"

definition state_failure :: "session \<Rightarrow> handshake_stats \<Rightarrow> int \<times> session \<times> handshake_stats" where
  "state_failure s st = (HS_ERROR, set_last_error HS_ERR_STATE_VIOLATION s, st\<lparr>failures_state := failures_state st + 1\<rparr>)"

text \<open>The \<open>switch\<close> of \<open>handshake_process_message\<close>, after the transcript was updated.\<close>

definition hs_dispatch ::
    "crypto_lib \<Rightarrow> bytes \<Rightarrow> bytes \<Rightarrow> session \<Rightarrow> handshake_stats \<Rightarrow> int \<times> session \<times> handshake_stats" where
  "hs_dispatch L pre pl s st =
     (let opc = pl ! 0 in
      if opc = CTRL_HELLO then
        (if sess_role s = ROLE_RESPONDER then (HS_NEED_MORE, s, st)
         else (HS_ERROR, set_last_error HS_ERR_STATE_VIOLATION s, st))
      else if opc = CTRL_ACCEPT then
        (HS_NEED_MORE, if length pl \<ge> 9 then s\<lparr>session_id := le_word (mem_read 1 8 pl)\<rparr> else s, st)
      else if opc = CTRL_PQ_KEM_INIT then
        (if length pl < 1 + KEM_MLKEM_768_PK_SIZE then (HS_ERROR, s, st)
         else (HS_NEED_MORE, s\<lparr>hs := (hs s)\<lparr>peer_public_key := mem_read 1 KEM_MLKEM_768_PK_SIZE pl\<rparr>\<rparr>, st))
      else if opc = CTRL_PQ_KEM_RESPONSE then
        (if length pl < 1 + KEM_MLKEM_768_CT_SIZE then (HS_ERROR, s, st)
         else case kem_decapsulate L (kem_secret_key (hs s)) (mem_read 1 KEM_MLKEM_768_CT_SIZE pl) 32 of
                None \<Rightarrow> (HS_ERROR, s\<lparr>hs := (hs s)\<lparr>kem_shared_secret := replicate 32 0\<rparr>\<rparr>, st)
              | Some ss \<Rightarrow> (HS_NEED_MORE, s\<lparr>hs := (hs s)\<lparr>kem_shared_secret := ss\<rparr>\<rparr>, st))
      else if opc = CTRL_IDENTITY_PROOF then
        (if length pl < 93 then (HS_ERROR, s, st)
         else let (ok, s1) = check_proof L ''pqcomm-id-proof'' pre pl s
              in if \<not> ok then identity_failure s1 st else (HS_NEED_MORE, s1, st))
      else if opc = CTRL_SESSION_LOCKED then
        (if length pl < 93 then identity_failure s st
         else let (ok, s1) = check_proof L ''pqcomm-lock-proof'' pre pl s
              in if \<not> ok then identity_failure s1 st
                 else let (ret, s2) = sess_derive_keys L (kem_shared_secret (hs s1)) s1
                      in if ret \<noteq> 0 then (HS_ERROR, s2, st)
                         else (HS_COMPLETE,
                               (wipe_kem_secrets s2)\<lparr>sess_state := SESSION_LOCKED, handshake_complete := True\<rparr>,
                               st\<lparr>successes := successes st + 1\<rparr>))
      else (HS_ERROR, s, st))"

text \<open>The packet itself is not looked at, only the view's payload \<open>pl\<close>.\<close>

definition handshake_process_message ::
    "crypto_lib \<Rightarrow> bytes \<Rightarrow> session \<Rightarrow> handshake_stats \<Rightarrow> int \<times> session \<times> handshake_stats" where
  "handshake_process_message L pl s st =
     (if length pl < 1 then (HS_ERROR, set_last_error HS_ERR_STATE_VIOLATION s, st)
      else if sess_state s = SESSION_LOCKED \<and> (pl ! 0 = CTRL_PQ_KEM_INIT \<or> pl ! 0 = CTRL_PQ_KEM_RESPONSE)
      then state_failure s st
      else let (ret, s1) = verify_state_transition s (pl ! 0)
           in if ret \<noteq> 0 then state_failure s1 st
              else hs_dispatch L (transcript_hash (hs s1)) pl (update_transcript L s1 pl) st)"

section \<open>Running the handshake\<close>

text \<open>
  The state a runner works on: the session, the global statistics, the packet pool and the
  sequence counter. The result is the response buffer, if any.
\<close>

record hs_world =
  hw_sess :: session
  hw_stats :: handshake_stats
  hw_pool :: pool
  hw_seq :: u32

definition hs_respond :: "(session \<Rightarrow> packet_buf \<Rightarrow> u32 \<Rightarrow> build_result) \<Rightarrow> hs_world \<Rightarrow> buf_ptr option \<times> hs_world" where
  "hs_respond build w =
     (case pool_get (hw_pool w) of
        (None, q) \<Rightarrow> (None, w\<lparr>hw_pool := q\<rparr>)
      | (Some p, q) \<Rightarrow>
          let (ret, s, b, sq) = build (hw_sess w) (pool_mem q p) (hw_seq w);
              w1 = w\<lparr>hw_sess := s, hw_seq := sq, hw_pool := buf_update p (\<lambda>_. b) q\<rparr>
          in if ret \<noteq> 0 then (None, w1\<lparr>hw_pool := pool_return p (hw_pool w1)\<rparr>) else (Some p, w1))"

definition handshake_run_as_initiator :: "crypto_lib \<Rightarrow> nat \<Rightarrow> packet_buf \<Rightarrow> hs_world \<Rightarrow> buf_ptr option \<times> hs_world" where
  "handshake_run_as_initiator L seed inp w =
     (case packet_parse inp of
        None \<Rightarrow> (None, w)
      | Some view \<Rightarrow>
          let pl = view_payload inp view;
              (result, s, st) = handshake_process_message L pl (hw_sess w) (hw_stats w);
              w1 = w\<lparr>hw_sess := s, hw_stats := st\<rparr>
          in if result = HS_ERROR then (None, w1\<lparr>hw_sess := session_reset s\<rparr>)
             else if result = HS_NEED_MORE then
               (if pl ! 0 = CTRL_ACCEPT then hs_respond (handshake_build_kem_init L seed) w1
                else if pl ! 0 = CTRL_PQ_KEM_RESPONSE then hs_respond (handshake_build_identity L) w1
                else (None, w1))
             else (None, w1))"

definition handshake_run_as_responder :: "crypto_lib \<Rightarrow> u64 \<Rightarrow> nat \<Rightarrow> packet_buf \<Rightarrow> hs_world \<Rightarrow> buf_ptr option \<times> hs_world" where
  "handshake_run_as_responder L sid seed inp w =
     (case packet_parse inp of
        None \<Rightarrow> (None, w)
      | Some view \<Rightarrow>
          let pl = view_payload inp view;
              (result, s, st) = handshake_process_message L pl (hw_sess w) (hw_stats w);
              w1 = w\<lparr>hw_sess := s, hw_stats := st\<rparr>
          in if result = HS_ERROR then (None, w1\<lparr>hw_sess := session_reset s\<rparr>)
             else if result = HS_NEED_MORE then
               (if pl ! 0 = CTRL_HELLO then hs_respond (handshake_build_accept L sid) w1
                else if pl ! 0 = CTRL_PQ_KEM_INIT then hs_respond (handshake_build_kem_response L seed) w1
                else if pl ! 0 = CTRL_IDENTITY_PROOF then hs_respond (handshake_build_locked L) w1
                else (None, w1))
             else (None, w1))"

definition handshake_check_timeout :: "session \<Rightarrow> u32 \<Rightarrow> int" where
  "handshake_check_timeout s now =
     (if handshake_start_ms (hs s) = 0 then 0
      else if now - handshake_start_ms (hs s) > timeout_ms (hs s) then -1
      else 0)"

definition handshake_state_name :: "session_state \<Rightarrow> string" where
  "handshake_state_name st = (case st of
     SESSION_IDLE \<Rightarrow> ''IDLE'' | SESSION_HANDSHAKE_START \<Rightarrow> ''START''
   | SESSION_PQ_KEM_INIT_SENT \<Rightarrow> ''KEM_INIT_SENT'' | SESSION_PQ_KEM_RESPONSE_SENT \<Rightarrow> ''KEM_RESP_SENT''
   | SESSION_IDENTITY_PROOF_SENT \<Rightarrow> ''ID_PROOF_SENT'' | SESSION_LOCKED \<Rightarrow> ''LOCKED'' | _ \<Rightarrow> ''UNKNOWN'')"

definition handshake_error_name :: "u8 \<Rightarrow> string" where
  "handshake_error_name e =
     (if e = HS_ERR_NONE then ''NONE'' else if e = HS_ERR_UNSUPPORTED_KEM then ''UNSUPPORTED_KEM''
      else if e = HS_ERR_BAD_IDENTITY then ''BAD_IDENTITY'' else if e = HS_ERR_TIMEOUT then ''TIMEOUT''
      else if e = HS_ERR_REPLAY then ''REPLAY'' else if e = HS_ERR_STATE_VIOLATION then ''STATE_VIOLATION''
      else ''UNKNOWN'')"

section \<open>Messages on the wire\<close>

definition carries :: "packet_buf \<Rightarrow> bytes \<Rightarrow> bool" where
  "carries b pl \<longleftrightarrow> (\<exists>v. packet_parse b = Some v \<and> view_payload b v = pl)"

lemma write_packet_carries:
  assumes "buf_ok b" "length pl \<le> MAX_PACKET_SIZE - HEADER_SIZE"
  shows "carries (write_packet 0 sid ch sq pl b) pl" "buf_ok (write_packet 0 sid ch sq pl b)"
  using packet_parse_write [OF assms(1) _ assms(2), of 0 sid ch sq] write_packet_ok [OF assms]
  by (auto simp: carries_def)

lemma ctrl_packet_carries:
  assumes "buf_ok b" "length pl \<le> MAX_PACKET_SIZE - HEADER_SIZE"
  shows "carries (ctrl_packet sid sq pl b) pl" "buf_ok (ctrl_packet sid sq pl b)"
  using write_packet_carries [OF assms, of sid CH_CONTROL sq] ctrl_packet_eq [of b sid sq pl] assms(1)
  by (simp_all add: buf_ok_def)

text \<open>A builder that takes the session from \<open>s\<close> to \<open>s'\<close> and writes a message with payload \<open>pl\<close>.\<close>

definition builds :: "(session \<Rightarrow> packet_buf \<Rightarrow> u32 \<Rightarrow> build_result) \<Rightarrow> session \<Rightarrow> session \<Rightarrow> bytes \<Rightarrow> bool" where
  "builds f s s' pl \<longleftrightarrow>
     (\<forall>b sq. buf_ok b \<longrightarrow> (\<exists>b' sq'. f s b sq = (0, s', b', sq') \<and> buf_ok b' \<and> carries b' pl))"

definition pool_ready :: "nat \<Rightarrow> pool \<Rightarrow> bool" where
  "pool_ready n q \<longleftrightarrow> n \<le> top q \<and> (\<forall>p. buf_ok (pool_mem q p))"

lemma pool_get_ready:
  assumes "pool_ready (Suc n) q"
  shows "\<exists>p q'. pool_get q = (Some p, q') \<and> pool_ready n q' \<and> pool_mem q' = pool_mem q"
  using assms by (auto simp: pool_get_def pool_ready_def Let_def)

lemma pool_ready_update: "\<lbrakk> pool_ready n q; buf_ok b \<rbrakk> \<Longrightarrow> pool_ready n (buf_update p (\<lambda>_. b) q)"
  by (simp add: pool_ready_def buf_update_def)

lemma hs_respond_ok:
  assumes "builds f (hw_sess w) s' pl" "pool_ready (Suc n) (hw_pool w)"
  shows "\<exists>p w'. hs_respond f w = (Some p, w') \<and> hw_sess w' = s' \<and> hw_stats w' = hw_stats w \<and>
    pool_ready n (hw_pool w') \<and> carries (pool_mem (hw_pool w') p) pl"
proof -
  obtain p q' where q: "pool_get (hw_pool w) = (Some p, q')" "pool_ready n q'" "pool_mem q' = pool_mem (hw_pool w)"
    using pool_get_ready [OF assms(2)] by blast
  have "buf_ok (pool_mem q' p)" using q(2) by (simp add: pool_ready_def)
  then obtain b' sq' where "f (hw_sess w) (pool_mem q' p) (hw_seq w) = (0, s', b', sq')" "buf_ok b'" "carries b' pl"
    using assms(1) unfolding builds_def by blast
  then show ?thesis using q pool_ready_update by (auto simp: hs_respond_def)
qed

section \<open>Proofs of identity\<close>

lemma md_hmac_length: "crypto_lib_ok L \<Longrightarrow> length (md_hmac L k d) = 32"
  using crypto_lib_okD(1) [of L k d] by (auto simp: md_hmac_def)

lemma derive_id_proof_key_length:
  assumes "crypto_lib_ok L"
  shows "length (fst (derive_id_proof_key L ss t l)) = 32" "length (snd (derive_id_proof_key L ss t l)) = 12"
  using crypto_lib_okD(2) [OF assms] by (simp_all add: derive_id_proof_key_def Let_def)

lemma proof_roundtrip:
  assumes L: "crypto_lib_ok L" and "length (our_identity_key (hs s)) = 32"
  shows "\<exists>pl. proof_payload L opc label s = Some pl \<and> length pl = 93 \<and> pl ! 0 = opc \<and>
    (\<forall>r. kem_shared_secret (hs r) = kem_shared_secret (hs s) \<longrightarrow>
      check_proof L label (transcript_hash (hs s)) pl r =
        (True, r\<lparr>hs := (hs r)\<lparr>peer_identity_key := our_identity_key (hs s), identity_verified := True\<rparr>\<rparr>))"
proof -
  let ?id = "our_identity_key (hs s)" and ?T = "transcript_hash (hs s)"
  let ?sig = "md_hmac L ?id ?T"
  obtain k n where kn: "derive_id_proof_key L (kem_shared_secret (hs s)) ?T (ascii label) = (k, n)" by fastforce
  then have len: "length k = 32" "length n = 12" using derive_id_proof_key_length [OF L] by (metis fst_conv, metis snd_conv)
  have plain: "length (?id @ ?sig) = 64" using assms md_hmac_length [OF L] by simp
  obtain c t where e: "aead_encrypt L k n [] (?id @ ?sig) = (0, c, t)" "length c = 64" "length t = 16"
    "aead_decrypt L k n [] c t = (0, ?id @ ?sig)"
    using aead_roundtrip [OF L len, of "?id @ ?sig" "[]"] plain by auto
  let ?pl = "opc # n @ c @ t"
  have r: "mem_read 13 64 ?pl = c" "mem_read 77 16 ?pl = t" using len e by (simp_all add: mem_read_def)
  have p: "mem_read 32 32 (?id @ ?sig) = ?sig" "take 32 (?id @ ?sig) = ?id"
    using assms md_hmac_length [OF L] by (simp_all add: mem_read_def)
  show ?thesis
    using e kn len r p by (intro exI [of _ ?pl]) (simp add: proof_payload_def check_proof_def)
qed


section \<open>One message at a time\<close>

text \<open>Where a side stands: its role, state, transcript and identity key.\<close>

definition hs_at :: "session \<Rightarrow> handshake_role \<Rightarrow> session_state \<Rightarrow> bytes \<Rightarrow> bytes \<Rightarrow> bool" where
  "hs_at s r st T idk \<longleftrightarrow> sess_role s = r \<and> sess_state s = st \<and> transcript_hash (hs s) = T \<and>
     our_identity_key (hs s) = idk \<and> length idk = 32 \<and> length T = 32 \<and> kem_type (hs s) = KEM_TYPE_MLKEM_768 \<and>
     key_epoch (keys s) = 0 \<and> length (kem_secret_key (hs s)) = KEM_MLKEM_768_SK_SIZE \<and>
     length (kem_shared_secret (hs s)) = KEM_MLKEM_768_SS_SIZE"

text \<open>The transcript after one more message.\<close>

abbreviation (input) hash_msg :: "crypto_lib \<Rightarrow> bytes \<Rightarrow> bytes \<Rightarrow> bytes" where
  "hash_msg L T pl \<equiv> sha256 L (T @ pl)"

lemma init_at:
  assumes "length idk = 32"
  shows "handshake_init_initiator sid idk KEM_TYPE_MLKEM_768 s st = (0, s', st') \<Longrightarrow>
      hs_at s' ROLE_INITIATOR SESSION_HANDSHAKE_START (replicate 32 0) idk"
    and "handshake_init_responder idk KEM_TYPE_MLKEM_768 s = (0, s') \<Longrightarrow>
      hs_at s' ROLE_RESPONDER SESSION_HANDSHAKE_START (replicate 32 0) idk"
  using assms
  by (auto simp: handshake_init_initiator_def handshake_init_responder_def hs_at_def session_reset_def session_zero_def
      handshake_crypto_zero_def session_keys_zero_def)

lemma hs_at_transcript:
  "\<lbrakk> crypto_lib_ok L; hs_at s r st T idk \<rbrakk> \<Longrightarrow> hs_at (update_transcript L s pl) r st (hash_msg L T pl) idk"
  by (simp add: hs_at_def update_transcript_def crypto_lib_okD(2))

lemma hello_step:
  assumes L: "crypto_lib_ok L" and at: "hs_at s ROLE_INITIATOR SESSION_HANDSHAKE_START T idk" and q: "pool_ready (Suc n) q"
  shows "\<exists>p q' s' sq'. handshake_build_hello L q s sq = (Some p, q', s', sq') \<and> pool_ready n q' \<and>
    carries (pool_mem q' p) [CTRL_HELLO] \<and> hs_at s' ROLE_INITIATOR SESSION_HANDSHAKE_START (hash_msg L T [CTRL_HELLO]) idk"
proof -
  obtain p q' where g: "pool_get q = (Some p, q')" "pool_ready n q'" "pool_mem q' = pool_mem q"
    using pool_get_ready [OF q] by blast
  have "buf_ok (pool_mem q' p)" using g(2) by (simp add: pool_ready_def)
  then have "carries (write_packet 0 0 CH_CONTROL sq [CTRL_HELLO] (pool_mem q' p)) [CTRL_HELLO]"
    "pool_ready n (buf_update p (write_packet 0 0 CH_CONTROL sq [CTRL_HELLO]) q')"
    using write_packet_carries [of "pool_mem q' p" "[CTRL_HELLO]"] g(2) by (simp_all add: pool_ready_def buf_update_def)
  then show ?thesis using g hs_at_transcript [OF L at, of "[CTRL_HELLO]"] by (simp add: handshake_build_hello_def)
qed

lemma run_initiator_respond:
  assumes "carries inp pl" and "handshake_process_message L pl (hw_sess w) (hw_stats w) = (HS_NEED_MORE, s, st)"
    and "f = (if pl ! 0 = CTRL_ACCEPT then handshake_build_kem_init L seed else handshake_build_identity L)"
    and "pl ! 0 = CTRL_ACCEPT \<or> pl ! 0 = CTRL_PQ_KEM_RESPONSE" and "builds f s s' pl'" and "pool_ready (Suc n) (hw_pool w)"
  shows "\<exists>p w'. handshake_run_as_initiator L seed inp w = (Some p, w') \<and> hw_sess w' = s' \<and>
    pool_ready n (hw_pool w') \<and> carries (pool_mem (hw_pool w') p) pl'"
proof -
  let ?w1 = "w\<lparr>hw_sess := s, hw_stats := st\<rparr>"
  obtain v where v: "packet_parse inp = Some v" "view_payload inp v = pl" using assms(1) by (auto simp: carries_def)
  have "handshake_run_as_initiator L seed inp w = hs_respond f ?w1"
    using v assms(2-4) by (auto simp: handshake_run_as_initiator_def)
  then show ?thesis using hs_respond_ok [of f ?w1 s' pl' n] assms(5,6) by auto
qed

lemma run_responder_respond:
  assumes "carries inp pl" and "handshake_process_message L pl (hw_sess w) (hw_stats w) = (HS_NEED_MORE, s, st)"
    and "f = (if pl ! 0 = CTRL_HELLO then handshake_build_accept L sid
       else if pl ! 0 = CTRL_PQ_KEM_INIT then handshake_build_kem_response L seed else handshake_build_locked L)"
    and "pl ! 0 = CTRL_HELLO \<or> pl ! 0 = CTRL_PQ_KEM_INIT \<or> pl ! 0 = CTRL_IDENTITY_PROOF"
    and "builds f s s' pl'" and "pool_ready (Suc n) (hw_pool w)"
  shows "\<exists>p w'. handshake_run_as_responder L sid seed inp w = (Some p, w') \<and> hw_sess w' = s' \<and>
    pool_ready n (hw_pool w') \<and> carries (pool_mem (hw_pool w') p) pl'"
proof -
  let ?w1 = "w\<lparr>hw_sess := s, hw_stats := st\<rparr>"
  obtain v where v: "packet_parse inp = Some v" "view_payload inp v = pl" using assms(1) by (auto simp: carries_def)
  have "handshake_run_as_responder L sid seed inp w = hs_respond f ?w1"
    using v assms(2-4) by (auto simp: handshake_run_as_responder_def)
  then show ?thesis using hs_respond_ok [of f ?w1 s' pl' n] assms(5,6) by auto
qed

text \<open>HELLO and ACCEPT.\<close>

lemma responder_hello:
  assumes L: "crypto_lib_ok L" and at: "hs_at (hw_sess w) ROLE_RESPONDER SESSION_HANDSHAKE_START T idk"
    and q: "pool_ready (Suc n) (hw_pool w)" and m: "carries inp [CTRL_HELLO]"
  shows "\<exists>p w'. handshake_run_as_responder L sid seed inp w = (Some p, w') \<and> pool_ready n (hw_pool w') \<and>
    carries (pool_mem (hw_pool w') p) (CTRL_ACCEPT # le_bytes 8 sid) \<and> session_id (hw_sess w') = sid \<and>
    hs_at (hw_sess w') ROLE_RESPONDER SESSION_HANDSHAKE_START
      (hash_msg L (hash_msg L T [CTRL_HELLO]) (CTRL_ACCEPT # le_bytes 8 sid)) idk"
proof -
  let ?s1 = "update_transcript L (hw_sess w) [CTRL_HELLO]" and ?pl = "CTRL_ACCEPT # le_bytes 8 sid"
  have pm: "handshake_process_message L [CTRL_HELLO] (hw_sess w) (hw_stats w) = (HS_NEED_MORE, ?s1, hw_stats w)"
    using at by (simp add: handshake_process_message_def verify_state_transition_def hs_dispatch_def hs_at_def Let_def update_transcript_def)
  have b: "builds (handshake_build_accept L sid) ?s1 (update_transcript L (?s1\<lparr>session_id := sid\<rparr>) ?pl) ?pl"
    using write_packet_carries [of _ ?pl] by (simp add: builds_def handshake_build_accept_def Let_def)
  have "hs_at (?s1\<lparr>session_id := sid\<rparr>) ROLE_RESPONDER SESSION_HANDSHAKE_START (hash_msg L T [CTRL_HELLO]) idk"
    using hs_at_transcript [OF L at, of "[CTRL_HELLO]"] by (simp add: hs_at_def)
  then have "hs_at (update_transcript L (?s1\<lparr>session_id := sid\<rparr>) ?pl) ROLE_RESPONDER SESSION_HANDSHAKE_START
      (hash_msg L (hash_msg L T [CTRL_HELLO]) ?pl) idk" by (rule hs_at_transcript [OF L])
  then show ?thesis
    using run_responder_respond [OF m pm refl _ _ q, of sid seed _ ?pl] b by (fastforce simp: update_transcript_def)
qed

lemma initiator_accept:
  assumes L: "crypto_lib_ok L" and at: "hs_at (hw_sess w) ROLE_INITIATOR SESSION_HANDSHAKE_START T idk"
    and q: "pool_ready (Suc n) (hw_pool w)" and m: "carries inp pl" "pl = CTRL_ACCEPT # le_bytes 8 sid"
    and kp: "oqs_keypair L KEM_TYPE_MLKEM_768 seed = Some (pk, sk)" "length pk = 1184" "length sk = 2400"
  shows "\<exists>p w'. handshake_run_as_initiator L seed inp w = (Some p, w') \<and> pool_ready n (hw_pool w') \<and>
    carries (pool_mem (hw_pool w') p) (CTRL_PQ_KEM_INIT # pk) \<and> session_id (hw_sess w') = sid \<and>
    kem_secret_key (hs (hw_sess w')) = sk \<and>
    hs_at (hw_sess w') ROLE_INITIATOR SESSION_PQ_KEM_INIT_SENT (hash_msg L (hash_msg L T pl) (CTRL_PQ_KEM_INIT # pk)) idk"
proof -
  let ?s0 = "update_transcript L (hw_sess w) pl" and ?pl = "CTRL_PQ_KEM_INIT # pk"
  let ?s1 = "?s0\<lparr>session_id := sid\<rparr>"
  have "mem_read 1 8 pl = le_bytes 8 sid" using m(2) by (simp add: mem_read_def)
  then have pm: "handshake_process_message L pl (hw_sess w) (hw_stats w) = (HS_NEED_MORE, ?s1, hw_stats w)"
    using at m(2) by (simp add: handshake_process_message_def verify_state_transition_def hs_dispatch_def hs_at_def Let_def wire_simps)
  have at1: "hs_at ?s0 ROLE_INITIATOR SESSION_HANDSHAKE_START (hash_msg L T pl) idk" by (rule hs_at_transcript [OF L at])
  let ?s2 = "?s1\<lparr>hs := (hs ?s1)\<lparr>kem_public_key := pk, kem_secret_key := sk\<rparr>\<rparr>"
  let ?s3 = "(update_transcript L ?s2 ?pl)\<lparr>sess_state := SESSION_PQ_KEM_INIT_SENT\<rparr>"
  have "kem_type (hs ?s1) = KEM_TYPE_MLKEM_768" using at1 by (simp add: hs_at_def)
  then have b: "builds (handshake_build_kem_init L seed) ?s1 ?s3 ?pl"
    using ctrl_packet_carries [of _ ?pl] kp
    by (simp add: builds_def handshake_build_kem_init_def kem_get_sizes_def kem_init_def kem_keypair_def Let_def)
  have "hs_at ?s3 ROLE_INITIATOR SESSION_PQ_KEM_INIT_SENT (hash_msg L (hash_msg L T pl) ?pl) idk"
    using at1 kp(3) crypto_lib_okD(2) [OF L] by (simp add: hs_at_def update_transcript_def)
  then show ?thesis
    using run_initiator_respond [OF m(1) pm refl _ _ q, of seed ?s3 ?pl] b m(2) by (fastforce simp: update_transcript_def)
qed

text \<open>The KEM messages.\<close>

lemma responder_kem_init:
  assumes L: "crypto_lib_ok L" and at: "hs_at (hw_sess w) ROLE_RESPONDER SESSION_HANDSHAKE_START T idk"
    and q: "pool_ready (Suc n) (hw_pool w)" and m: "carries inp pl" "pl = CTRL_PQ_KEM_INIT # pk" "length pk = 1184"
    and en: "oqs_encaps L KEM_TYPE_MLKEM_768 seed pk = Some (ct, ss)" "length ct = 1088" "length ss = 32"
  shows "\<exists>p w'. handshake_run_as_responder L sid seed inp w = (Some p, w') \<and> pool_ready n (hw_pool w') \<and>
    carries (pool_mem (hw_pool w') p) (CTRL_PQ_KEM_RESPONSE # ct) \<and> session_id (hw_sess w') = session_id (hw_sess w) \<and>
    kem_shared_secret (hs (hw_sess w')) = ss \<and>
    hs_at (hw_sess w') ROLE_RESPONDER SESSION_PQ_KEM_RESPONSE_SENT (hash_msg L (hash_msg L T pl) (CTRL_PQ_KEM_RESPONSE # ct)) idk"
proof -
  let ?s0 = "update_transcript L (hw_sess w) pl" and ?pl = "CTRL_PQ_KEM_RESPONSE # ct"
  let ?s1 = "?s0\<lparr>hs := (hs ?s0)\<lparr>peer_public_key := pk\<rparr>\<rparr>"
  have "mem_read 1 1184 pl = pk" using m(2,3) by (simp add: mem_read_def)
  then have pm: "handshake_process_message L pl (hw_sess w) (hw_stats w) = (HS_NEED_MORE, ?s1, hw_stats w)"
    using at m(2,3) by (simp add: handshake_process_message_def verify_state_transition_def hs_dispatch_def hs_at_def Let_def)
  have at1: "hs_at ?s0 ROLE_RESPONDER SESSION_HANDSHAKE_START (hash_msg L T pl) idk" by (rule hs_at_transcript [OF L at])
  obtain k cks where dk: "derive_session_keys L ss (hash_msg L T pl) (session_key (keys ?s1), channel_keys (keys ?s1)) = (0, k, cks)"
    using derive_session_keys_ok [OF L, of ss "hash_msg L T pl"] en(3) crypto_lib_okD(2) [OF L, of "T @ pl"] by fastforce
  let ?s2 = "?s1\<lparr>keys := (keys ?s1)\<lparr>session_key := k, channel_keys := cks\<rparr>\<rparr>"
  let ?s3 = "?s2\<lparr>hs := (hs ?s2)\<lparr>kem_shared_secret := ss\<rparr>\<rparr>"
  let ?s4 = "(update_transcript L ?s3 ?pl)\<lparr>sess_state := SESSION_PQ_KEM_RESPONSE_SENT\<rparr>"
  have "kem_type (hs ?s1) = KEM_TYPE_MLKEM_768" "transcript_hash (hs ?s1) = hash_msg L T pl" using at1 by (simp_all add: hs_at_def)
  then have b: "builds (handshake_build_kem_response L seed) ?s1 ?s4 ?pl"
    using ctrl_packet_carries [of _ ?pl] en m(3) dk
    by (simp add: builds_def handshake_build_kem_response_def kem_get_sizes_def kem_encapsulate_def sess_derive_keys_def Let_def)
  have "hs_at ?s4 ROLE_RESPONDER SESSION_PQ_KEM_RESPONSE_SENT (hash_msg L (hash_msg L T pl) ?pl) idk"
    using at1 en(3) crypto_lib_okD(2) [OF L] by (simp add: hs_at_def update_transcript_def)
  then show ?thesis
    using run_responder_respond [OF m(1) pm refl _ _ q, of sid seed ?s4 ?pl] b m(2) by (fastforce simp: update_transcript_def)
qed

lemma initiator_kem_response:
  assumes L: "crypto_lib_ok L" and at: "hs_at (hw_sess w) ROLE_INITIATOR SESSION_PQ_KEM_INIT_SENT T idk"
    and q: "pool_ready (Suc n) (hw_pool w)" and m: "carries inp pl" "pl = CTRL_PQ_KEM_RESPONSE # ct" "length ct = 1088"
    and de: "oqs_decaps L KEM_TYPE_MLKEM_768 (kem_secret_key (hs (hw_sess w))) ct = Some ss" "length ss = 32"
  shows "\<exists>p w' pl'. handshake_run_as_initiator L seed inp w = (Some p, w') \<and> pool_ready n (hw_pool w') \<and>
    carries (pool_mem (hw_pool w') p) pl' \<and> session_id (hw_sess w') = session_id (hw_sess w) \<and>
    kem_shared_secret (hs (hw_sess w')) = ss \<and> length pl' = 93 \<and> pl' ! 0 = CTRL_IDENTITY_PROOF \<and>
    (\<forall>r. kem_shared_secret (hs r) = ss \<longrightarrow> check_proof L ''pqcomm-id-proof'' (hash_msg L T pl) pl' r =
       (True, r\<lparr>hs := (hs r)\<lparr>peer_identity_key := idk, identity_verified := True\<rparr>\<rparr>)) \<and>
    hs_at (hw_sess w') ROLE_INITIATOR SESSION_IDENTITY_PROOF_SENT (hash_msg L (hash_msg L T pl) pl') idk"
proof -
  let ?s0 = "update_transcript L (hw_sess w) pl"
  let ?s1 = "?s0\<lparr>hs := (hs ?s0)\<lparr>kem_shared_secret := ss\<rparr>\<rparr>"
  have at0: "hs_at ?s0 ROLE_INITIATOR SESSION_PQ_KEM_INIT_SENT (hash_msg L T pl) idk" by (rule hs_at_transcript [OF L at])
  have k: "length (kem_secret_key (hs (hw_sess w))) = 2400" "kem_secret_key (hs ?s0) = kem_secret_key (hs (hw_sess w))"
    using at by (simp_all add: hs_at_def update_transcript_def)
  have "mem_read 1 1088 pl = ct" using m(2,3) by (simp add: mem_read_def)
  then have pm: "handshake_process_message L pl (hw_sess w) (hw_stats w) = (HS_NEED_MORE, ?s1, hw_stats w)"
    using at m(2,3) k de
    by (simp add: handshake_process_message_def verify_state_transition_def hs_dispatch_def hs_at_def kem_decapsulate_def Let_def)
  have s1: "transcript_hash (hs ?s1) = hash_msg L T pl" "our_identity_key (hs ?s1) = idk" "length idk = 32"
    using at0 by (simp_all add: hs_at_def)
  obtain pl' where pl': "proof_payload L CTRL_IDENTITY_PROOF ''pqcomm-id-proof'' ?s1 = Some pl'" "length pl' = 93"
    "pl' ! 0 = CTRL_IDENTITY_PROOF"
    "\<forall>r. kem_shared_secret (hs r) = ss \<longrightarrow> check_proof L ''pqcomm-id-proof'' (hash_msg L T pl) pl' r =
       (True, r\<lparr>hs := (hs r)\<lparr>peer_identity_key := idk, identity_verified := True\<rparr>\<rparr>)"
    using proof_roundtrip [OF L, of ?s1 CTRL_IDENTITY_PROOF "''pqcomm-id-proof''"] s1 by auto
  let ?s2 = "(update_transcript L ?s1 pl')\<lparr>sess_state := SESSION_IDENTITY_PROOF_SENT\<rparr>"
  have b: "builds (handshake_build_identity L) ?s1 ?s2 pl'"
    using ctrl_packet_carries [of _ pl'] pl'(1,2) by (simp add: builds_def handshake_build_identity_def)
  have "hs_at ?s2 ROLE_INITIATOR SESSION_IDENTITY_PROOF_SENT (hash_msg L (hash_msg L T pl) pl') idk"
    using at0 de(2) crypto_lib_okD(2) [OF L] by (simp add: hs_at_def update_transcript_def)
  then show ?thesis
    using run_initiator_respond [OF m(1) pm refl _ _ q, of seed ?s2 pl'] b m(2) pl' by (fastforce simp: update_transcript_def)
qed

text \<open>The proofs, and the final state: keys derived from secret and transcript, KEM secrets wiped.\<close>

definition agreed_keys :: "crypto_lib \<Rightarrow> bytes \<Rightarrow> bytes \<Rightarrow> session_keys" where
  "agreed_keys L ss T = (case derive_session_keys L ss T ([], []) of (_, k, cks) \<Rightarrow>
     \<lparr>session_key = k, channel_keys = cks, key_epoch = 0\<rparr>)"

definition hs_done :: "session \<Rightarrow> bytes \<Rightarrow> session_keys \<Rightarrow> bool" where
  "hs_done s peer k \<longleftrightarrow> sess_state s = SESSION_LOCKED \<and> handshake_complete s \<and> identity_verified (hs s) \<and>
     peer_identity_key (hs s) = peer \<and> keys s = k \<and>
     kem_secret_key (hs s) = replicate KEM_MLKEM_768_SK_SIZE 0 \<and> kem_shared_secret (hs s) = replicate KEM_MLKEM_768_SS_SIZE 0"

lemma sess_derive_keys_agreed:
  assumes L: "crypto_lib_ok L" and "length ss = 32" "length (transcript_hash (hs s)) = 32" "key_epoch (keys s) = 0"
  shows "sess_derive_keys L ss s = (0, s\<lparr>keys := agreed_keys L ss (transcript_hash (hs s))\<rparr>)"
proof -
  let ?T = "transcript_hash (hs s)" and ?old = "(session_key (keys s), channel_keys (keys s))"
  have ne: "ss \<noteq> []" "?T \<noteq> []" using assms(2,3) by auto
  obtain k cks where d: "derive_session_keys L ss ?T ([], []) = (0, k, cks)"
    using derive_session_keys_ok [OF L ne] by blast
  then have "derive_session_keys L ss ?T ?old = (0, k, cks)" using derive_session_keys_old [OF L ne, of ?old "([], [])"] by simp
  then show ?thesis using d assms(4) by (simp add: sess_derive_keys_def agreed_keys_def)
qed

lemma lock_session:
  assumes L: "crypto_lib_ok L" and at: "hs_at s r st T idk" and "kem_shared_secret (hs s) = ss"
    and "identity_verified (hs s)" "peer_identity_key (hs s) = peer"
  shows "\<exists>s'. sess_derive_keys L ss s = (0, s') \<and> session_id s' = session_id s \<and>
    hs_done ((wipe_kem_secrets s')\<lparr>sess_state := SESSION_LOCKED, handshake_complete := True\<rparr>) peer (agreed_keys L ss T)"
proof -
  have "sess_derive_keys L ss s = (0, s\<lparr>keys := agreed_keys L ss T\<rparr>)"
    using sess_derive_keys_agreed [OF L, of ss s] at assms(3) by (simp add: hs_at_def)
  then show ?thesis
    using at assms by (auto simp: hs_done_def wipe_kem_secrets_def kem_get_sizes_def hs_at_def mem_write_def)
qed

lemma wipe_session_id [simp]: "session_id (wipe_kem_secrets s) = session_id s"
  by (simp add: wipe_kem_secrets_def split: prod.splits)

lemma responder_identity:
  assumes L: "crypto_lib_ok L" and at: "hs_at (hw_sess w) ROLE_RESPONDER SESSION_PQ_KEM_RESPONSE_SENT T idk"
    and ss: "kem_shared_secret (hs (hw_sess w)) = ss"
    and q: "pool_ready (Suc n) (hw_pool w)" and m: "carries inp pl" "length pl = 93" "pl ! 0 = CTRL_IDENTITY_PROOF"
    and ok: "\<forall>r. kem_shared_secret (hs r) = ss \<longrightarrow> check_proof L ''pqcomm-id-proof'' T pl r =
       (True, r\<lparr>hs := (hs r)\<lparr>peer_identity_key := peer, identity_verified := True\<rparr>\<rparr>)"
  shows "\<exists>p w' pl'. handshake_run_as_responder L sid seed inp w = (Some p, w') \<and> pool_ready n (hw_pool w') \<and>
    carries (pool_mem (hw_pool w') p) pl' \<and> session_id (hw_sess w') = session_id (hw_sess w) \<and>
    length pl' = 93 \<and> pl' ! 0 = CTRL_SESSION_LOCKED \<and>
    (\<forall>r. kem_shared_secret (hs r) = ss \<longrightarrow> check_proof L ''pqcomm-lock-proof'' (hash_msg L T pl) pl' r =
       (True, r\<lparr>hs := (hs r)\<lparr>peer_identity_key := idk, identity_verified := True\<rparr>\<rparr>)) \<and>
    hs_done (hw_sess w') peer (agreed_keys L ss (hash_msg L (hash_msg L T pl) pl'))"
proof -
  let ?s0 = "update_transcript L (hw_sess w) pl"
  let ?s1 = "?s0\<lparr>hs := (hs ?s0)\<lparr>peer_identity_key := peer, identity_verified := True\<rparr>\<rparr>"
  have at1: "hs_at ?s1 ROLE_RESPONDER SESSION_PQ_KEM_RESPONSE_SENT (hash_msg L T pl) idk"
    using hs_at_transcript [OF L at, of pl] by (simp add: hs_at_def)
  have ss0: "kem_shared_secret (hs ?s0) = ss" using ss by (simp add: update_transcript_def)
  have pm: "handshake_process_message L pl (hw_sess w) (hw_stats w) = (HS_NEED_MORE, ?s1, hw_stats w)"
    using at m(2,3) ok ss0
    by (simp add: handshake_process_message_def verify_state_transition_def hs_dispatch_def hs_at_def Let_def)
  have s1: "transcript_hash (hs ?s1) = hash_msg L T pl" "our_identity_key (hs ?s1) = idk" "length idk = 32"
    using at1 by (simp_all add: hs_at_def)
  obtain pl' where pl': "proof_payload L CTRL_SESSION_LOCKED ''pqcomm-lock-proof'' ?s1 = Some pl'" "length pl' = 93"
    "pl' ! 0 = CTRL_SESSION_LOCKED"
    "\<forall>r. kem_shared_secret (hs r) = ss \<longrightarrow> check_proof L ''pqcomm-lock-proof'' (hash_msg L T pl) pl' r =
       (True, r\<lparr>hs := (hs r)\<lparr>peer_identity_key := idk, identity_verified := True\<rparr>\<rparr>)"
    using proof_roundtrip [OF L, of ?s1 CTRL_SESSION_LOCKED "''pqcomm-lock-proof''"] s1 ss0 by auto
  let ?s2 = "update_transcript L ?s1 pl'"
  obtain s3 where s3: "sess_derive_keys L ss ?s2 = (0, s3)" "session_id s3 = session_id ?s2"
    "hs_done ((wipe_kem_secrets s3)\<lparr>sess_state := SESSION_LOCKED, handshake_complete := True\<rparr>) peer
       (agreed_keys L ss (hash_msg L (hash_msg L T pl) pl'))"
    using lock_session [OF L hs_at_transcript [OF L at1, of pl'], of ss peer] ss0 by (auto simp: update_transcript_def)
  have b: "builds (handshake_build_locked L) ?s1
      ((wipe_kem_secrets s3)\<lparr>sess_state := SESSION_LOCKED, handshake_complete := True\<rparr>) pl'"
    using ctrl_packet_carries [of _ pl'] pl'(1,2) s3(1) ss0 by (simp add: builds_def handshake_build_locked_def)
  show ?thesis
    using run_responder_respond [OF m(1) pm refl _ _ q, of sid seed _ pl'] b m(3) pl' s3(2,3)
    by (fastforce simp: update_transcript_def)
qed

lemma initiator_locked:
  assumes L: "crypto_lib_ok L" and at: "hs_at (hw_sess w) ROLE_INITIATOR SESSION_IDENTITY_PROOF_SENT T idk"
    and ss: "kem_shared_secret (hs (hw_sess w)) = ss" and m: "carries inp pl" "length pl = 93" "pl ! 0 = CTRL_SESSION_LOCKED"
    and ok: "\<forall>r. kem_shared_secret (hs r) = ss \<longrightarrow> check_proof L ''pqcomm-lock-proof'' T pl r =
       (True, r\<lparr>hs := (hs r)\<lparr>peer_identity_key := peer, identity_verified := True\<rparr>\<rparr>)"
  shows "\<exists>w'. handshake_run_as_initiator L seed inp w = (None, w') \<and> session_id (hw_sess w') = session_id (hw_sess w) \<and>
    hs_done (hw_sess w') peer (agreed_keys L ss (hash_msg L T pl))"
proof -
  let ?s0 = "update_transcript L (hw_sess w) pl"
  let ?s1 = "?s0\<lparr>hs := (hs ?s0)\<lparr>peer_identity_key := peer, identity_verified := True\<rparr>\<rparr>"
  have at1: "hs_at ?s1 ROLE_INITIATOR SESSION_IDENTITY_PROOF_SENT (hash_msg L T pl) idk"
    using hs_at_transcript [OF L at, of pl] by (simp add: hs_at_def)
  have ss0: "kem_shared_secret (hs ?s0) = ss" using ss by (simp add: update_transcript_def)
  obtain s3 where s3: "sess_derive_keys L ss ?s1 = (0, s3)" "session_id s3 = session_id ?s1"
    "hs_done ((wipe_kem_secrets s3)\<lparr>sess_state := SESSION_LOCKED, handshake_complete := True\<rparr>) peer (agreed_keys L ss (hash_msg L T pl))"
    using lock_session [OF L at1, of ss peer] ss0 by auto
  have pm: "handshake_process_message L pl (hw_sess w) (hw_stats w) =
      (HS_COMPLETE, (wipe_kem_secrets s3)\<lparr>sess_state := SESSION_LOCKED, handshake_complete := True\<rparr>,
       (hw_stats w)\<lparr>successes := successes (hw_stats w) + 1\<rparr>)"
    using at m(2,3) ok ss0 s3(1)
    by (simp add: handshake_process_message_def verify_state_transition_def hs_dispatch_def hs_at_def Let_def)
  obtain v where "packet_parse inp = Some v" "view_payload inp v = pl" using m(1) by (auto simp: carries_def)
  then show ?thesis using pm s3(2,3) by (simp add: handshake_run_as_initiator_def update_transcript_def)
qed

section \<open>The whole exchange\<close>

text \<open>
  Both sides over a network that delivers: the content of the buffer one side returns is the
  packet the other side receives. \<open>None\<close> if a side has nothing to send before the end.
\<close>

definition sent :: "buf_ptr option \<times> hs_world \<Rightarrow> (packet_buf \<times> hs_world) option" where
  "sent r = (case r of (None, w) \<Rightarrow> None | (Some p, w) \<Rightarrow> Some (pool_mem (hw_pool w) p, w))"

definition send_hello :: "crypto_lib \<Rightarrow> hs_world \<Rightarrow> buf_ptr option \<times> hs_world" where
  "send_hello L w = (case handshake_build_hello L (hw_pool w) (hw_sess w) (hw_seq w) of (p, q, s, sq) \<Rightarrow>
     (p, w\<lparr>hw_pool := q, hw_sess := s, hw_seq := sq\<rparr>))"

definition handshake_exchange :: "crypto_lib \<Rightarrow> u64 \<Rightarrow> nat \<Rightarrow> nat \<Rightarrow> hs_world \<Rightarrow> hs_world \<Rightarrow> (hs_world \<times> hs_world) option" where
  "handshake_exchange L sid seedI seedR I R = do {
     (hello, I1) \<leftarrow> sent (send_hello L I);
     (accept, R1) \<leftarrow> sent (handshake_run_as_responder L sid seedR hello R);
     (kem_init, I2) \<leftarrow> sent (handshake_run_as_initiator L seedI accept I1);
     (kem_response, R2) \<leftarrow> sent (handshake_run_as_responder L sid seedR kem_init R1);
     (identity, I3) \<leftarrow> sent (handshake_run_as_initiator L seedI kem_response I2);
     (locked, R3) \<leftarrow> sent (handshake_run_as_responder L sid seedR identity R2);
     Some (snd (handshake_run_as_initiator L seedI locked I3), R3) }"

lemma sent_Some: "sent (Some p, w) = Some (pool_mem (hw_pool w) p, w)"
  by (simp add: sent_def)

text \<open>After four messages both sides hold the KEM secret and the same transcript.\<close>

lemma exchange_kem:
  assumes L: "crypto_lib_ok L" and ids: "length idI = 32" "length idR = 32"
    and I: "handshake_init_initiator sid0 idI KEM_TYPE_MLKEM_768 sI st = (0, hw_sess I, hw_stats I)" "pool_ready 3 (hw_pool I)"
    and R: "handshake_init_responder idR KEM_TYPE_MLKEM_768 sR = (0, hw_sess R)" "pool_ready 3 (hw_pool R)"
  shows "\<exists>m1 I1 m2 R1 m3 I2 m4 R2 T3 T4 ct ss. sent (send_hello L I) = Some (m1, I1) \<and>
    sent (handshake_run_as_responder L sid seedR m1 R) = Some (m2, R1) \<and>
    sent (handshake_run_as_initiator L seedI m2 I1) = Some (m3, I2) \<and>
    sent (handshake_run_as_responder L sid seedR m3 R1) = Some (m4, R2) \<and>
    session_id (hw_sess I2) = sid \<and> session_id (hw_sess R2) = sid \<and> pool_ready 1 (hw_pool I2) \<and> pool_ready 1 (hw_pool R2) \<and>
    carries m4 (CTRL_PQ_KEM_RESPONSE # ct) \<and> length ct = 1088 \<and> length ss = 32 \<and>
    oqs_decaps L 1 (kem_secret_key (hs (hw_sess I2))) ct = Some ss \<and> kem_shared_secret (hs (hw_sess R2)) = ss \<and>
    hs_at (hw_sess I2) ROLE_INITIATOR SESSION_PQ_KEM_INIT_SENT T3 idI \<and>
    hs_at (hw_sess R2) ROLE_RESPONDER SESSION_PQ_KEM_RESPONSE_SENT T4 idR \<and> T4 = hash_msg L T3 (CTRL_PQ_KEM_RESPONSE # ct)"
proof -
  let ?T0 = "replicate 32 (0 :: u8)"
  have n: "3 = Suc 2" "2 = Suc (Suc 0)" by simp_all
  obtain pk sk where kp: "oqs_keypair L 1 seedI = Some (pk, sk)" "length pk = 1184" "length sk = 2400"
    and "\<forall>s'. \<exists>ct ss. oqs_encaps L 1 s' pk = Some (ct, ss) \<and> length ct = 1088 \<and> length ss = 32 \<and> oqs_decaps L 1 sk ct = Some ss"
    using crypto_lib_okD(6) [OF L, of seedI] by blast
  then obtain ct ss where en: "oqs_encaps L 1 seedR pk = Some (ct, ss)" "length ct = 1088" "length ss = 32" "oqs_decaps L 1 sk ct = Some ss"
    by blast
  obtain p1 q1 s1 sq1 where m1: "handshake_build_hello L (hw_pool I) (hw_sess I) (hw_seq I) = (Some p1, q1, s1, sq1)"
    "pool_ready 2 q1" "carries (pool_mem q1 p1) [CTRL_HELLO]"
    "hs_at s1 ROLE_INITIATOR SESSION_HANDSHAKE_START (hash_msg L ?T0 [CTRL_HELLO]) idI"
    using hello_step [OF L init_at(1) [OF ids(1) I(1)] I(2) [unfolded n(1)]] by blast
  define I1 where "I1 = I\<lparr>hw_pool := q1, hw_sess := s1, hw_seq := sq1\<rparr>"
  have h1: "send_hello L I = (Some p1, I1)" "hw_pool I1 = q1" "hw_sess I1 = s1" using m1(1) by (simp_all add: send_hello_def I1_def)
  obtain p2 R1 T2 where m2: "handshake_run_as_responder L sid seedR (pool_mem q1 p1) R = (Some p2, R1)" "pool_ready 2 (hw_pool R1)"
    "carries (pool_mem (hw_pool R1) p2) (CTRL_ACCEPT # le_bytes 8 sid)" "session_id (hw_sess R1) = sid"
    "hs_at (hw_sess R1) ROLE_RESPONDER SESSION_HANDSHAKE_START T2 idR"
    "T2 = hash_msg L (hash_msg L ?T0 [CTRL_HELLO]) (CTRL_ACCEPT # le_bytes 8 sid)"
    using responder_hello [OF L init_at(2) [OF ids(2) R(1)] R(2) [unfolded n(1)] m1(3)] by blast
  obtain p3 I2 where m3: "handshake_run_as_initiator L seedI (pool_mem (hw_pool R1) p2) I1 = (Some p3, I2)" "pool_ready 1 (hw_pool I2)"
    "carries (pool_mem (hw_pool I2) p3) (CTRL_PQ_KEM_INIT # pk)" "session_id (hw_sess I2) = sid" "kem_secret_key (hs (hw_sess I2)) = sk"
    "hs_at (hw_sess I2) ROLE_INITIATOR SESSION_PQ_KEM_INIT_SENT (hash_msg L T2 (CTRL_PQ_KEM_INIT # pk)) idI"
    using initiator_accept [OF L m1(4) [folded h1(3)] m1(2) [folded h1(2), unfolded n(2)] m2(3) refl kp] m2(6) by auto
  obtain p4 R2 where "handshake_run_as_responder L sid seedR (pool_mem (hw_pool I2) p3) R1 = (Some p4, R2)" "pool_ready 1 (hw_pool R2)"
    "carries (pool_mem (hw_pool R2) p4) (CTRL_PQ_KEM_RESPONSE # ct)" "session_id (hw_sess R2) = sid" "kem_shared_secret (hs (hw_sess R2)) = ss"
    "hs_at (hw_sess R2) ROLE_RESPONDER SESSION_PQ_KEM_RESPONSE_SENT
       (hash_msg L (hash_msg L T2 (CTRL_PQ_KEM_INIT # pk)) (CTRL_PQ_KEM_RESPONSE # ct)) idR"
    using responder_kem_init [OF L m2(5) m2(2) [unfolded n(2)] m3(3) refl kp(2) en(1-3), of sid] m2(4) by auto
  note m4 = this
  have "sent (send_hello L I) = Some (pool_mem q1 p1, I1)"
    "sent (handshake_run_as_responder L sid seedR (pool_mem q1 p1) R) = Some (pool_mem (hw_pool R1) p2, R1)"
    "sent (handshake_run_as_initiator L seedI (pool_mem (hw_pool R1) p2) I1) = Some (pool_mem (hw_pool I2) p3, I2)"
    "sent (handshake_run_as_responder L sid seedR (pool_mem (hw_pool I2) p3) R1) = Some (pool_mem (hw_pool R2) p4, R2)"
    using h1 m2(1) m3(1) m4(1) by (simp_all add: sent_Some)
  note f = this m3(4) m4(4) m3(2) m4(2,3) en(2,3) en(4) [folded m3(5)] m4(5) m3(6) m4(6) refl
  show ?thesis by (intro exI conjI, (rule f)+)
qed

lemma exchange_agrees:
  assumes L: "crypto_lib_ok L" and ids: "length idI = 32" "length idR = 32"
    and I: "handshake_init_initiator sid0 idI KEM_TYPE_MLKEM_768 sI st = (0, hw_sess I, hw_stats I)" "pool_ready 3 (hw_pool I)"
    and R: "handshake_init_responder idR KEM_TYPE_MLKEM_768 sR = (0, hw_sess R)" "pool_ready 3 (hw_pool R)"
  shows "\<exists>I' R' k. handshake_exchange L sid seedI seedR I R = Some (I', R') \<and>
    session_id (hw_sess I') = sid \<and> session_id (hw_sess R') = sid \<and>
    hs_done (hw_sess I') idR k \<and> hs_done (hw_sess R') idI k"
proof -
  obtain m1 I1 m2 R1 m3 I2 m4 R2 T3 T4 ct ss where k: "sent (send_hello L I) = Some (m1, I1)"
    "sent (handshake_run_as_responder L sid seedR m1 R) = Some (m2, R1)"
    "sent (handshake_run_as_initiator L seedI m2 I1) = Some (m3, I2)"
    "sent (handshake_run_as_responder L sid seedR m3 R1) = Some (m4, R2)"
    and id: "session_id (hw_sess I2) = sid" "session_id (hw_sess R2) = sid"
    and p: "pool_ready (Suc 0) (hw_pool I2)" "pool_ready (Suc 0) (hw_pool R2)"
    and m4: "carries m4 (CTRL_PQ_KEM_RESPONSE # ct)" "length ct = 1088"
    and ss: "oqs_decaps L 1 (kem_secret_key (hs (hw_sess I2))) ct = Some ss" "length ss = 32" "kem_shared_secret (hs (hw_sess R2)) = ss"
    and at: "hs_at (hw_sess I2) ROLE_INITIATOR SESSION_PQ_KEM_INIT_SENT T3 idI"
      "hs_at (hw_sess R2) ROLE_RESPONDER SESSION_PQ_KEM_RESPONSE_SENT T4 idR"
    and T4: "T4 = hash_msg L T3 (CTRL_PQ_KEM_RESPONSE # ct)"
    using exchange_kem [OF L ids I R, of sid seedR seedI] unfolding One_nat_def by blast
  obtain p5 I3 pl5 T5 where m5: "handshake_run_as_initiator L seedI m4 I2 = (Some p5, I3)"
    "carries (pool_mem (hw_pool I3) p5) pl5" "session_id (hw_sess I3) = sid" "kem_shared_secret (hs (hw_sess I3)) = ss"
    "length pl5 = 93" "pl5 ! 0 = CTRL_IDENTITY_PROOF"
    "\<forall>r. kem_shared_secret (hs r) = ss \<longrightarrow> check_proof L ''pqcomm-id-proof'' T4 pl5 r =
       (True, r\<lparr>hs := (hs r)\<lparr>peer_identity_key := idI, identity_verified := True\<rparr>\<rparr>)"
    "hs_at (hw_sess I3) ROLE_INITIATOR SESSION_IDENTITY_PROOF_SENT T5 idI" "T5 = hash_msg L T4 pl5"
    using initiator_kem_response [OF L at(1) p(1) m4(1) refl m4(2) ss(1,2), of seedI] id T4 by metis
  obtain p6 R3 pl6 where m6: "handshake_run_as_responder L sid seedR (pool_mem (hw_pool I3) p5) R2 = (Some p6, R3)"
    "carries (pool_mem (hw_pool R3) p6) pl6" "session_id (hw_sess R3) = sid" "length pl6 = 93" "pl6 ! 0 = CTRL_SESSION_LOCKED"
    "\<forall>r. kem_shared_secret (hs r) = ss \<longrightarrow> check_proof L ''pqcomm-lock-proof'' T5 pl6 r =
       (True, r\<lparr>hs := (hs r)\<lparr>peer_identity_key := idR, identity_verified := True\<rparr>\<rparr>)"
    "hs_done (hw_sess R3) idI (agreed_keys L ss (hash_msg L T5 pl6))"
    using responder_identity [OF L at(2) ss(3) p(2) m5(2,5,6,7), of sid seedR] id m5(9) by metis
  obtain I4 where m7: "handshake_run_as_initiator L seedI (pool_mem (hw_pool R3) p6) I3 = (None, I4)" "session_id (hw_sess I4) = sid"
    "hs_done (hw_sess I4) idR (agreed_keys L ss (hash_msg L T5 pl6))"
    using initiator_locked [OF L m5(8,4) m6(2,4,5,6), of seedI] m5(3) by metis
  have "handshake_exchange L sid seedI seedR I R = Some (I4, R3)"
    using k m5(1) m6(1) m7(1) by (simp add: handshake_exchange_def sent_Some)
  then show ?thesis using m7(2,3) m6(3,7) by blast
qed

section \<open>What holds of a session whatever arrives\<close>

text \<open>
  The steps of one endpoint: starting a handshake, sending HELLO, and running either runner on
  an arbitrary packet, with arbitrary random choices and pool contents. Rekeying, which puts a new KEM key into a locked session, is no
  step of the handshake (see \<open>Rekey\<close>).
\<close>

inductive hs_step :: "crypto_lib \<Rightarrow> session \<Rightarrow> session \<Rightarrow> bool" for L where
  init_initiator: "\<lbrakk> handshake_init_initiator sid idk t s st = (r, s', st'); length idk = 32 \<rbrakk> \<Longrightarrow> hs_step L s s'"
| init_responder: "\<lbrakk> handshake_init_responder idk t s = (r, s'); length idk = 32 \<rbrakk> \<Longrightarrow> hs_step L s s'"
| hello: "handshake_build_hello L q s sq = (p, q', s', sq') \<Longrightarrow> hs_step L s s'"
| recv_initiator: "handshake_run_as_initiator L seed inp w = (p, w') \<Longrightarrow> hs_step L (hw_sess w) (hw_sess w')"
| recv_responder: "handshake_run_as_responder L sid seed inp w = (p, w') \<Longrightarrow> hs_step L (hw_sess w) (hw_sess w')"

definition hs_inv :: "session \<Rightarrow> bool" where
  "hs_inv s \<longleftrightarrow> (sess_state s \<noteq> SESSION_IDLE \<longrightarrow> kem_type (hs s) = KEM_TYPE_MLKEM_768) \<and>
     (sess_state s = SESSION_IDLE \<longrightarrow> sess_role s = ROLE_UNASSIGNED) \<and>
     length (kem_secret_key (hs s)) = KEM_MLKEM_768_SK_SIZE \<and> length (kem_shared_secret (hs s)) = KEM_MLKEM_768_SS_SIZE \<and>
     (handshake_complete s \<longleftrightarrow> sess_state s = SESSION_LOCKED) \<and>
     (sess_state s = SESSION_LOCKED \<longrightarrow> identity_verified (hs s) \<and>
        kem_secret_key (hs s) = replicate KEM_MLKEM_768_SK_SIZE 0 \<and> kem_shared_secret (hs s) = replicate KEM_MLKEM_768_SS_SIZE 0)"

text \<open>A session in the middle of a handshake.\<close>

abbreviation (input) mid_handshake :: "session \<Rightarrow> bool" where
  "mid_handshake s \<equiv> hs_inv s \<and> sess_state s \<noteq> SESSION_IDLE \<and> sess_state s \<noteq> SESSION_LOCKED"

lemma hs_inv_reset: "hs_inv (session_reset s)"
  by (simp add: hs_inv_def session_reset_def session_zero_def handshake_crypto_zero_def)

lemma hs_inv_transcript [simp]: "hs_inv (update_transcript L s pl) = hs_inv s"
  "sess_state (update_transcript L s pl) = sess_state s" "sess_role (update_transcript L s pl) = sess_role s"
  by (simp_all add: hs_inv_def update_transcript_def)

lemma verify_transition_ok:
  assumes "verify_state_transition s opc = (0, s')"
  shows "s' = s \<and> sess_state s \<noteq> SESSION_LOCKED \<and> (opc \<noteq> CTRL_HELLO \<longrightarrow> sess_state s \<noteq> SESSION_IDLE)"
  using assms by (auto simp: verify_state_transition_def Let_def split: if_splits)

lemma check_proof_frame:
  assumes "check_proof L label pre pl s = (ok, s')"
  shows "sess_state s' = sess_state s \<and> sess_role s' = sess_role s \<and> handshake_complete s' = handshake_complete s \<and>
    kem_type (hs s') = kem_type (hs s) \<and> kem_secret_key (hs s') = kem_secret_key (hs s) \<and>
    kem_shared_secret (hs s') = kem_shared_secret (hs s) \<and> (ok \<longrightarrow> identity_verified (hs s'))"
proof -
  obtain k n where kn: "derive_id_proof_key L (kem_shared_secret (hs s)) pre (ascii label) = (k, n)" by fastforce
  obtain ret plain where d: "aead_decrypt L k n [] (mem_read 13 64 pl) (mem_read 77 16 pl) = (ret, plain)" by fastforce
  show ?thesis using assms kn d by (auto simp: check_proof_def Let_def split: if_splits)
qed

lemma wiped_inv:
  assumes "mid_handshake s" "identity_verified (hs s)"
  shows "hs_inv ((wipe_kem_secrets s)\<lparr>sess_state := SESSION_LOCKED, handshake_complete := True\<rparr>)"
  using assms by (auto simp: hs_inv_def wipe_kem_secrets_def kem_get_sizes_def mem_write_def)

lemma sess_derive_keys_frame:
  "sess_derive_keys L ss s = (r, s') \<Longrightarrow> hs s' = hs s \<and> sess_state s' = sess_state s \<and> sess_role s' = sess_role s \<and>
     handshake_complete s' = handshake_complete s \<and> (hs_inv s' = hs_inv s)"
  by (auto simp: sess_derive_keys_def hs_inv_def split: prod.splits)

lemma check_proof_inv: "\<lbrakk> mid_handshake s; check_proof L label pre pl s = (ok, s') \<rbrakk> \<Longrightarrow> mid_handshake s'"
  using check_proof_frame [of L label pre pl s ok s'] by (simp add: hs_inv_def)

lemma kem_decapsulate_length:
  "\<lbrakk> crypto_lib_ok L; length sk = 2400; kem_decapsulate L sk ct n = Some ss \<rbrakk> \<Longrightarrow> length ss = 32"
  by (auto simp: kem_decapsulate_def split: if_splits dest: crypto_lib_okD(8))

text \<open>A message that is not an error leaves the invariant; the state moves on only when the handshake completes.\<close>

lemma dispatch_locked_inv:
  assumes "mid_handshake s" and "hs_dispatch L pre pl s st = (HS_COMPLETE, s', st')"
  shows "hs_inv s'"
proof -
  obtain ok s1 where c: "check_proof L ''pqcomm-lock-proof'' pre pl s = (ok, s1)" by fastforce
  obtain r s2 where d: "sess_derive_keys L (kem_shared_secret (hs s1)) s1 = (r, s2)" by fastforce
  have "s' = (wipe_kem_secrets s2)\<lparr>sess_state := SESSION_LOCKED, handshake_complete := True\<rparr> \<and> ok"
    using assms(2) c d
    by (auto simp: hs_dispatch_def identity_failure_def Let_def split: if_splits option.splits prod.splits)
  then show ?thesis
    using wiped_inv [of s2] check_proof_inv [OF assms(1) c] check_proof_frame [OF c] sess_derive_keys_frame [OF d] by simp
qed

lemma dispatch_more_inv:
  assumes L: "crypto_lib_ok L" and s: "hs_inv s" "sess_state s \<noteq> SESSION_LOCKED"
    and d: "hs_dispatch L pre pl s st = (HS_NEED_MORE, s', st')"
  shows "hs_inv s' \<and> sess_state s' = sess_state s \<and> sess_role s' = sess_role s \<and>
    (pl ! 0 = CTRL_IDENTITY_PROOF \<longrightarrow> identity_verified (hs s')) \<and> (pl ! 0 = CTRL_HELLO \<longrightarrow> sess_role s = ROLE_RESPONDER)"
proof (cases "pl ! 0 = CTRL_IDENTITY_PROOF")
  case True
  obtain ok s1 where c: "check_proof L ''pqcomm-id-proof'' pre pl s = (ok, s1)" by fastforce
  have "s' = s1 \<and> ok" using d c True by (auto simp: hs_dispatch_def identity_failure_def Let_def split: if_splits)
  then show ?thesis using check_proof_frame [OF c] s True by (simp add: hs_inv_def)
next
  case False
  have k: "length (kem_secret_key (hs s)) = 2400" using s(1) by (simp add: hs_inv_def)
  show ?thesis
    using d s False kem_decapsulate_length [OF L k]
    by (auto simp: hs_dispatch_def identity_failure_def hs_inv_def Let_def split: if_splits option.splits prod.splits)
qed

lemma dispatch_results: "fst (hs_dispatch L pre pl s st) \<in> {HS_ERROR, HS_NEED_MORE, HS_COMPLETE}"
  by (auto simp: hs_dispatch_def identity_failure_def Let_def split: if_splits option.splits prod.splits)

lemma process_inv:
  assumes L: "crypto_lib_ok L" and s: "hs_inv s" and p: "handshake_process_message L pl s st = (r, s', st')"
  shows "r = HS_ERROR \<or> r = HS_COMPLETE \<and> hs_inv s' \<or>
    r = HS_NEED_MORE \<and> mid_handshake s' \<and> (pl ! 0 = CTRL_IDENTITY_PROOF \<longrightarrow> identity_verified (hs s'))"
proof (cases "r = HS_ERROR")
  case False
  have v: "verify_state_transition s (pl ! 0) = (0, s)" and d: "hs_dispatch L (transcript_hash (hs s)) pl (update_transcript L s pl) st = (r, s', st')"
    using p False verify_transition_ok [of s "pl ! 0"]
    by (auto simp: handshake_process_message_def state_failure_def split: if_splits prod.splits)
  note t = verify_transition_ok [OF v]
  have "r \<in> {HS_NEED_MORE, HS_COMPLETE}" using dispatch_results [of L "transcript_hash (hs s)" pl "update_transcript L s pl" st] d False by simp
  moreover have "hs_inv s'" if "r = HS_COMPLETE"
  proof (rule dispatch_locked_inv)
    have "pl ! 0 \<noteq> CTRL_HELLO" using d that by (auto simp: hs_dispatch_def split: if_splits)
    then show "mid_handshake (update_transcript L s pl)" using s t by simp
    show "hs_dispatch L (transcript_hash (hs s)) pl (update_transcript L s pl) st = (HS_COMPLETE, s', st')" using d that by simp
  qed
  moreover have "mid_handshake s' \<and> (pl ! 0 = CTRL_IDENTITY_PROOF \<longrightarrow> identity_verified (hs s'))" if "r = HS_NEED_MORE"
  proof -
    have m: "hs_inv s' \<and> sess_state s' = sess_state s \<and>
        (pl ! 0 = CTRL_IDENTITY_PROOF \<longrightarrow> identity_verified (hs s')) \<and> (pl ! 0 = CTRL_HELLO \<longrightarrow> sess_role s = ROLE_RESPONDER)"
      using dispatch_more_inv [OF L _ _ d [unfolded that]] s t by simp
    have "sess_state s = SESSION_IDLE \<Longrightarrow> sess_role s = ROLE_UNASSIGNED" using s by (simp add: hs_inv_def)
    then show ?thesis using m t by auto
  qed
  ultimately show ?thesis by auto
qed simp

section \<open>The builders keep the invariant\<close>

lemma respond_inv:
  assumes "\<And>b sq r s' b' sq'. f s b sq = (r, s', b', sq') \<Longrightarrow> hs_inv s'" and "hs_inv s" "hw_sess w = s"
  shows "hs_inv (hw_sess (snd (hs_respond f w)))"
  using assms by (auto simp: hs_respond_def Let_def split: prod.splits option.splits)

lemma build_accept_inv: "\<lbrakk> mid_handshake s; handshake_build_accept L sid s b sq = (r, s', b', sq') \<rbrakk> \<Longrightarrow> hs_inv s'"
  by (auto simp: handshake_build_accept_def Let_def hs_inv_def update_transcript_def)

lemma build_kem_init_inv:
  assumes "crypto_lib_ok L" "mid_handshake s" "handshake_build_kem_init L seed s b sq = (r, s', b', sq')"
  shows "hs_inv s'"
proof -
  obtain pk sk where k: "oqs_keypair L 1 seed = Some (pk, sk)" "length sk = 2400" using crypto_lib_okD(6) [OF assms(1)] by blast
  then show ?thesis
    using assms(2,3)
    by (auto simp: handshake_build_kem_init_def kem_get_sizes_def kem_init_def kem_keypair_def hs_inv_def update_transcript_def Let_def)
qed

lemma build_kem_response_inv:
  assumes "crypto_lib_ok L" "mid_handshake s" "handshake_build_kem_response L seed s b sq = (r, s', b', sq')"
  shows "hs_inv s'"
proof (cases "kem_encapsulate L seed (take 1184 (peer_public_key (hs s))) 1088 32")
  case None
  then show ?thesis using assms(2,3) by (auto simp: handshake_build_kem_response_def kem_get_sizes_def hs_inv_def)
next
  case (Some e)
  obtain ct ss where e: "e = (ct, ss)" by fastforce
  have "length ss = 32" using Some e crypto_lib_okD(7) [OF assms(1)] by (auto simp: kem_encapsulate_def split: if_splits)
  moreover obtain ret s1 where d: "sess_derive_keys L ss s = (ret, s1)" by fastforce
  moreover note sess_derive_keys_frame [OF d]
  ultimately show ?thesis using assms(2,3) Some e
    by (auto simp: handshake_build_kem_response_def kem_get_sizes_def hs_inv_def update_transcript_def Let_def split: if_splits)
qed

lemma build_identity_inv:
  "\<lbrakk> mid_handshake s; handshake_build_identity L s b sq = (r, s', b', sq') \<rbrakk> \<Longrightarrow> hs_inv s'"
  by (auto simp: handshake_build_identity_def hs_inv_def update_transcript_def split: option.splits)

lemma build_locked_inv:
  assumes "mid_handshake s" "identity_verified (hs s)" "handshake_build_locked L s b sq = (r, s', b', sq')"
  shows "hs_inv s'"
proof (cases "proof_payload L CTRL_SESSION_LOCKED ''pqcomm-lock-proof'' s")
  case None
  then show ?thesis using assms by (simp add: handshake_build_locked_def)
next
  case (Some pl)
  obtain ret s2 where d: "sess_derive_keys L (kem_shared_secret (hs s)) (update_transcript L s pl) = (ret, s2)" by fastforce
  note f = sess_derive_keys_frame [OF d]
  have "mid_handshake s2 \<and> identity_verified (hs s2)"
    using f assms hs_inv_transcript [of L s pl] by (simp add: update_transcript_def)
  then show ?thesis using wiped_inv [of s2] assms(3) Some d by (auto simp: handshake_build_locked_def Let_def split: if_splits)
qed

lemma run_initiator_inv:
  assumes L: "crypto_lib_ok L" and s: "hs_inv (hw_sess w)"
  shows "hs_inv (hw_sess (snd (handshake_run_as_initiator L seed inp w)))"
proof (cases "packet_parse inp")
  case (Some v)
  let ?pl = "view_payload inp v"
  obtain r s' st' where p: "handshake_process_message L ?pl (hw_sess w) (hw_stats w) = (r, s', st')" by (metis prod_cases3)
  let ?w1 = "w\<lparr>hw_sess := s', hw_stats := st'\<rparr>"
  from process_inv [OF L s p] consider "r = HS_ERROR" | "r = HS_COMPLETE" "hs_inv s'" | "r = HS_NEED_MORE" "mid_handshake s'"
    by blast
  then show ?thesis
  proof cases
    case 3
    have "hs_inv (hw_sess (snd (hs_respond (handshake_build_kem_init L seed) ?w1)))"
      by (rule respond_inv [OF build_kem_init_inv [OF L 3(2)]]) (use 3 in simp_all)
    moreover have "hs_inv (hw_sess (snd (hs_respond (handshake_build_identity L) ?w1)))"
      by (rule respond_inv [OF build_identity_inv [OF 3(2)]]) (use 3 in simp_all)
    ultimately show ?thesis using 3 Some p by (simp add: handshake_run_as_initiator_def Let_def)
  qed (use Some p hs_inv_reset in \<open>simp_all add: handshake_run_as_initiator_def\<close>)
qed (simp add: handshake_run_as_initiator_def s)

lemma run_responder_inv:
  assumes L: "crypto_lib_ok L" and s: "hs_inv (hw_sess w)"
  shows "hs_inv (hw_sess (snd (handshake_run_as_responder L sid seed inp w)))"
proof (cases "packet_parse inp")
  case (Some v)
  let ?pl = "view_payload inp v"
  obtain r s' st' where p: "handshake_process_message L ?pl (hw_sess w) (hw_stats w) = (r, s', st')" by (metis prod_cases3)
  let ?w1 = "w\<lparr>hw_sess := s', hw_stats := st'\<rparr>"
  from process_inv [OF L s p] consider "r = HS_ERROR" | "r = HS_COMPLETE" "hs_inv s'"
    | "r = HS_NEED_MORE" "mid_handshake s'" "?pl ! 0 = CTRL_IDENTITY_PROOF \<longrightarrow> identity_verified (hs s')" by blast
  then show ?thesis
  proof cases
    case 3
    have "hs_inv (hw_sess (snd (hs_respond (handshake_build_accept L sid) ?w1)))"
      by (rule respond_inv [OF build_accept_inv [OF 3(2)]]) (use 3 in simp_all)
    moreover have "hs_inv (hw_sess (snd (hs_respond (handshake_build_kem_response L seed) ?w1)))"
      by (rule respond_inv [OF build_kem_response_inv [OF L 3(2)]]) (use 3 in simp_all)
    moreover have "hs_inv (hw_sess (snd (hs_respond (handshake_build_locked L) ?w1)))" if "?pl ! 0 = CTRL_IDENTITY_PROOF"
      by (rule respond_inv [OF build_locked_inv [OF 3(2)]]) (use 3 that in simp_all)
    ultimately show ?thesis using 3 Some p by (simp add: handshake_run_as_responder_def Let_def)
  qed (use Some p hs_inv_reset in \<open>simp_all add: handshake_run_as_responder_def\<close>)
qed (simp add: handshake_run_as_responder_def s)

lemma hs_step_inv:
  assumes "crypto_lib_ok L" "hs_inv s" "hs_step L s s'"
  shows "hs_inv s'"
  using assms(3,2)
proof cases
  case (init_initiator sid idk t st r st')
  then show ?thesis using assms(2) hs_inv_reset [of s]
    by (auto simp: handshake_init_initiator_def hs_inv_def Let_def session_reset_def session_zero_def split: if_splits)
next
  case (init_responder idk t r)
  then show ?thesis using assms(2) hs_inv_reset [of s]
    by (auto simp: handshake_init_responder_def hs_inv_def Let_def session_reset_def session_zero_def split: if_splits)
next
  case (hello q sq p q' sq')
  then show ?thesis using assms(2) by (auto simp: handshake_build_hello_def split: prod.splits option.splits)
next
  case (recv_initiator seed inp w p w')
  then show ?thesis using run_initiator_inv [OF assms(1), of w seed inp] assms(2) by simp
next
  case (recv_responder sid seed inp w p w')
  then show ?thesis using run_responder_inv [OF assms(1), of w sid seed inp] assms(2) by simp
qed

text \<open>The endpoint as a transition system with invariant, for every library that behaves.\<close>

interpretation hs_sys: invariant_system "\<lambda>s. s = session_init" "\<lambda>s s'. crypto_lib_ok L \<and> hs_step L s s'" hs_inv for L
proof unfold_locales
  show "s = session_init \<Longrightarrow> hs_inv s" for s
    by (simp add: hs_inv_def session_init_def session_zero_def handshake_crypto_zero_def)
  show "\<lbrakk> hs_inv s; crypto_lib_ok L \<and> hs_step L s t \<rbrakk> \<Longrightarrow> hs_inv t" for s t
    using hs_step_inv by blast
qed

section \<open>Sample endpoints\<close>

definition stats_zero :: handshake_stats where
  "stats_zero = \<lparr>attempts_total = 0, successes = 0, failures_timeout = 0, failures_identity = 0, failures_replay = 0, failures_state = 0\<rparr>"

definition hs_sample :: "session \<Rightarrow> handshake_stats \<Rightarrow> hs_world" where
  "hs_sample s st = \<lparr>hw_sess = s, hw_stats = st,
     hw_pool = \<lparr>pool_mem = (\<lambda>_. buf_sample), free_stack = replicate 4096 7, top = 3\<rparr>, hw_seq = 1\<rparr>"

definition initiator_sample :: hs_world where
  "initiator_sample = (case handshake_init_initiator 5 (replicate 32 11) KEM_TYPE_MLKEM_768 session_init stats_zero of
     (r, s, st) \<Rightarrow> hs_sample s st)"

definition responder_sample :: hs_world where
  "responder_sample = hs_sample (snd (handshake_init_responder (replicate 32 22) KEM_TYPE_MLKEM_768 session_init)) stats_zero"

lemma samples_ready:
  "handshake_init_initiator 5 (replicate 32 11) KEM_TYPE_MLKEM_768 session_init stats_zero =
     (0, hw_sess initiator_sample, hw_stats initiator_sample)"
  "handshake_init_responder (replicate 32 22) KEM_TYPE_MLKEM_768 session_init = (0, hw_sess responder_sample)"
  "pool_ready 3 (hw_pool initiator_sample)" "pool_ready 3 (hw_pool responder_sample)"
  using buf_sample_ok
  by (simp_all add: initiator_sample_def responder_sample_def hs_sample_def handshake_init_initiator_def
      handshake_init_responder_def pool_ready_def Let_def)

section \<open>Properties\<close>

text \<open>
  C2: Key agreement. If the network delivers the six messages, an initiator and a responder
  that start from their initialisation with three free buffers each both end ready for data,
  with the same session id, the same session and channel keys, the other side's identity key
  marked verified, and no KEM secret left. This holds for any two identity keys: the identity
  proof carries the key it is checked with.
\<close>

theorem handshake_key_agreement:
  assumes "crypto_lib_ok L" and "length idI = 32" "length idR = 32"
    and "handshake_init_initiator sid0 idI KEM_TYPE_MLKEM_768 sI st = (0, hw_sess I, hw_stats I)" "pool_ready 3 (hw_pool I)"
    and "handshake_init_responder idR KEM_TYPE_MLKEM_768 sR = (0, hw_sess R)" "pool_ready 3 (hw_pool R)"
  shows "\<exists>I' R'. handshake_exchange L sid seedI seedR I R = Some (I', R') \<and>
    session_is_ready_for_data (hw_sess I') \<and> session_is_ready_for_data (hw_sess R') \<and>
    session_id (hw_sess I') = sid \<and> session_id (hw_sess R') = sid \<and> keys (hw_sess I') = keys (hw_sess R') \<and>
    peer_identity_key (hs (hw_sess I')) = idR \<and> peer_identity_key (hs (hw_sess R')) = idI \<and>
    (\<forall>s \<in> {hw_sess I', hw_sess R'}. identity_verified (hs s) \<and>
      kem_secret_key (hs s) = replicate KEM_MLKEM_768_SK_SIZE 0 \<and> kem_shared_secret (hs s) = replicate KEM_MLKEM_768_SS_SIZE 0)"
proof -
  obtain I' R' k where "handshake_exchange L sid seedI seedR I R = Some (I', R')"
    "session_id (hw_sess I') = sid" "session_id (hw_sess R') = sid" "hs_done (hw_sess I') idR k" "hs_done (hw_sess R') idI k"
    using exchange_agrees [OF assms, of sid seedI seedR] by blast
  then show ?thesis by (intro exI [of _ I'] exI [of _ R']) (auto simp: hs_done_def session_is_ready_for_data_def)
qed

theorem handshake_key_agreement_witness:
  "\<exists>I' R'. handshake_exchange sample_lib 9 3 4 initiator_sample responder_sample = Some (I', R') \<and>
     session_is_ready_for_data (hw_sess I') \<and> session_is_ready_for_data (hw_sess R') \<and> keys (hw_sess I') = keys (hw_sess R') \<and>
     peer_identity_key (hs (hw_sess I')) = replicate 32 22"
  using handshake_key_agreement [OF sample_lib_ok _ _ samples_ready(1,3,2,4), of 9 3 4] by auto

text \<open>
  C3: Whatever packets arrive, in whatever order and with whatever contents, and whatever the
  endpoint starts: a session is ready for data only if the identity proof of the peer was
  accepted, and then neither the KEM secret key nor the KEM shared secret is left in it.
\<close>

theorem locked_session_verified:
  assumes "reach (\<lambda>s. s = session_init) (\<lambda>s s'. crypto_lib_ok L \<and> hs_step L s s') s"
  shows "(session_is_ready_for_data s \<longleftrightarrow> sess_state s = SESSION_LOCKED) \<and>
    (session_is_ready_for_data s \<longrightarrow> identity_verified (hs s) \<and>
       kem_secret_key (hs s) = replicate KEM_MLKEM_768_SK_SIZE 0 \<and> kem_shared_secret (hs s) = replicate KEM_MLKEM_768_SS_SIZE 0)"
  using hs_sys.reach_inv [OF assms] by (auto simp: hs_inv_def session_is_ready_for_data_def)

theorem locked_session_verified_witness:
  "\<exists>s. reach (\<lambda>s. s = session_init) (\<lambda>s s'. crypto_lib_ok sample_lib \<and> hs_step sample_lib s s') s \<and>
     sess_state s = SESSION_HANDSHAKE_START \<and> \<not> session_is_ready_for_data s"
proof -
  have "hs_step sample_lib session_init (hw_sess responder_sample)"
    by (rule hs_step.init_responder [OF samples_ready(2)]) simp
  then have r: "reach (\<lambda>s. s = session_init) (\<lambda>s s'. crypto_lib_ok sample_lib \<and> hs_step sample_lib s s') (hw_sess responder_sample)"
    using reach_step [OF reach_start] sample_lib_ok by (metis (mono_tags, lifting))
  have "sess_state (hw_sess responder_sample) = SESSION_HANDSHAKE_START"
    using init_at(2) [OF _ samples_ready(2)] by (simp add: hs_at_def)
  then show ?thesis using locked_session_verified [OF r] r by auto
qed




text \<open>
  A locked session does not survive a handshake message: any packet that reaches either
  runner on a locked session, from whomever and with whatever payload, is answered by nothing
  and resets the session to idle with all keys wiped.
\<close>

theorem handshake_message_kills_locked_session:
  assumes "sess_state (hw_sess w) = SESSION_LOCKED" and "packet_parse inp = Some v"
  shows "\<exists>w'. handshake_run_as_initiator L seed inp w = (None, w') \<and> handshake_run_as_responder L sid seed inp w = (None, w') \<and>
    sess_state (hw_sess w') = SESSION_IDLE \<and> secrets_wiped (hw_sess w') \<and> \<not> session_is_ready_for_data (hw_sess w')"
proof -
  let ?pl = "view_payload inp v"
  obtain r s st where p: "handshake_process_message L ?pl (hw_sess w) (hw_stats w) = (r, s, st)" by (metis prod_cases3)
  have "fst (verify_state_transition (hw_sess w) (?pl ! 0)) \<noteq> 0"
    using verify_transition_ok [of "hw_sess w" "?pl ! 0"] assms(1) by (metis prod.collapse)
  then have "r = HS_ERROR"
    using p by (auto simp: handshake_process_message_def state_failure_def split: if_splits prod.splits)
  then have "handshake_run_as_initiator L seed inp w = (None, w\<lparr>hw_stats := st, hw_sess := session_reset s\<rparr>)"
    "handshake_run_as_responder L sid seed inp w = (None, w\<lparr>hw_stats := st, hw_sess := session_reset s\<rparr>)"
    using assms(2) p by (simp_all add: handshake_run_as_initiator_def handshake_run_as_responder_def)
  moreover have "sess_state (session_reset s) = SESSION_IDLE" by (simp add: session_reset_def)
  ultimately show ?thesis using session_reset_spec [of s] by auto
qed

theorem handshake_message_kills_locked_session_witness:
  "\<exists>w'. handshake_run_as_responder sample_lib 9 0 (write_packet 0 0 CH_CONTROL 1 [99] buf_sample)
      (hs_sample (session_init\<lparr>sess_state := SESSION_LOCKED\<rparr>) stats_zero) = (None, w') \<and> sess_state (hw_sess w') = SESSION_IDLE"
proof -
  obtain v where "packet_parse (write_packet 0 0 CH_CONTROL 1 [99] buf_sample) = Some v"
    using packet_parse_write [OF buf_sample_ok, of 0 "[99]" 0 CH_CONTROL 1] by auto
  then show ?thesis
    using handshake_message_kills_locked_session [of "hs_sample (session_init\<lparr>sess_state := SESSION_LOCKED\<rparr>) stats_zero" _ v sample_lib 0 9]
    by (auto simp: hs_sample_def)
qed

end
