(* ===== verification/Endpoint.thy ===== *)
theory Endpoint
  imports Pipeline Handshake
begin

text \<open>
  What the control senders of the engine share (\<open>rekey.c\<close>, \<open>heartbeat.c\<close>, \<open>reconnect.c\<close>,
  \<open>port_hop.c\<close>): a session with its transmit queues, the packet pool and the sequence counter,
  and the steps "take a buffer, write header and payload, set the destination, queue the
  buffer or give it back".
\<close>

section \<open>State\<close>

record endpoint =
  ep_sess :: session
  ep_txq :: tx_queues
  ep_pool :: pool
  ep_seq :: u32

section \<open>Sending a control packet\<close>

text \<open>\<open>if (ring_push(&txq->control, p) != 0) pool_return(p)\<close>.\<close>

definition push_control :: "buf_ptr \<Rightarrow> endpoint \<Rightarrow> endpoint" where
  "push_control p e =
     (let (st, r) = ring_push (tx_control (ep_txq e)) p
      in if st \<noteq> 0 then e\<lparr>ep_pool := pool_return p (ep_pool e)\<rparr>
         else e\<lparr>ep_txq := (ep_txq e)\<lparr>tx_control := r\<rparr>\<rparr>)"

text \<open>\<open>memcpy(p->addr, a, n); p->addr_len = n\<close>.\<close>

definition set_dest :: "bytes \<Rightarrow> nat \<Rightarrow> packet_buf \<Rightarrow> packet_buf" where
  "set_dest a n b = b\<lparr>addr := mem_write 0 a (addr b), addr_len := n\<rparr>"

text \<open>A buffer is taken from the pool, filled using the next sequence number and queued.\<close>

definition send_filled :: "(u32 \<Rightarrow> packet_buf \<Rightarrow> packet_buf) \<Rightarrow> endpoint \<Rightarrow> int \<times> endpoint" where
  "send_filled fill e =
     (case pool_get (ep_pool e) of
        (None, q) \<Rightarrow> (-1, e\<lparr>ep_pool := q\<rparr>)
      | (Some p, q) \<Rightarrow>
          (0, push_control p (e\<lparr>ep_seq := ep_seq e + 1, ep_pool := buf_update p (fill (ep_seq e)) q\<rparr>)))"

definition send_control :: "bytes \<Rightarrow> bytes \<Rightarrow> nat \<Rightarrow> endpoint \<Rightarrow> int \<times> endpoint" where
  "send_control pl a n e =
     send_filled (\<lambda>sq b. set_dest a n (write_packet 0 (session_id (ep_sess e)) CH_CONTROL sq pl b)) e"

section \<open>What a send does\<close>

text \<open>A well-formed endpoint: no queued buffer is free at the same time.\<close>

definition ep_ok :: "endpoint \<Rightarrow> bool" where
  "ep_ok e \<longleftrightarrow> session_ok (ep_sess e) \<and> ring_ok (tx_control (ep_txq e)) \<and> pool_ok (ep_pool e) \<and>
     (\<forall>p. buf_ok (pool_mem (ep_pool e) p)) \<and>
     set (ring_contents (tx_control (ep_txq e))) \<inter> set (free_bufs (ep_pool e)) = {}"

text \<open>The packets waiting in the control queue, oldest first.\<close>

definition queued :: "endpoint \<Rightarrow> packet_buf list" where
  "queued e = map (pool_mem (ep_pool e)) (ring_contents (tx_control (ep_txq e)))"

text \<open>A packet on its way: a control packet of session \<open>sid\<close> with payload \<open>pl\<close> for destination \<open>a\<close>.\<close>

definition addressed :: "packet_buf \<Rightarrow> u64 \<Rightarrow> u32 \<Rightarrow> bytes \<Rightarrow> bytes \<Rightarrow> nat \<Rightarrow> bool" where
  "addressed b sid sq pl a n \<longleftrightarrow> buf_ok b \<and> take (length a) (addr b) = a \<and> addr_len b = n \<and>
     (\<exists>v. packet_parse b = Some v \<and> \<not> encrypted v \<and> view_payload b v = pl \<and> channel_id v = CH_CONTROL \<and>
        view_session_id v = sid \<and> seq v = sq)"

lemma addressed_write:
  assumes "buf_ok b" "length pl \<le> MAX_PACKET_SIZE - HEADER_SIZE" "length a \<le> 32"
  shows "addressed (set_dest a n (write_packet 0 sid CH_CONTROL sq pl b)) sid sq pl a n"
proof -
  let ?b = "write_packet 0 sid CH_CONTROL sq pl b"
  obtain v where v: "packet_parse ?b = Some v" "\<not> encrypted v" "view_payload ?b v = pl" "channel_id v = CH_CONTROL" "view_session_id v = sid" "seq v = sq"
    using packet_parse_write [OF assms(1) _ assms(2), of 0 sid CH_CONTROL sq] by auto
  have ok: "buf_ok ?b" using write_packet_ok [OF assms(1,2)] .
  have "packet_parse (set_dest a n ?b) = packet_parse ?b" by (rule packet_parse_cong) (simp_all add: set_dest_def)
  moreover have "view_payload (set_dest a n ?b) v = pl" using v by (simp add: view_payload_def set_dest_def)
  moreover have "buf_ok (set_dest a n ?b)" using ok assms(3) by (simp add: buf_ok_def set_dest_def mem_simps)
  moreover have "take (length a) (mem_write 0 a (addr ?b)) = a" by (simp add: mem_write_def)
  ultimately show ?thesis using v by (auto simp: addressed_def set_dest_def)
qed

lemma addressed_bytes:
  assumes "addressed b sid sq pl a n"
  shows "len b = HEADER_SIZE + length pl" "mem_read HEADER_SIZE (length pl) (data b) = pl" "length (data b) = MAX_PACKET_SIZE"
proof -
  obtain v where v: "buf_ok b" "packet_parse b = Some v" "\<not> encrypted v" "view_payload b v = pl"
    using assms by (auto simp: addressed_def)
  then have "payload v = HEADER_SIZE" "len b = HEADER_SIZE + plength v"
    by (auto simp: packet_parse_def Let_def split: if_splits)
  moreover have "length pl = plength v" using packet_parse_bounds [OF v(1,2)] v(4) by simp
  ultimately show "len b = HEADER_SIZE + length pl" "mem_read HEADER_SIZE (length pl) (data b) = pl"
    using v(4) by (simp_all add: view_payload_def)
  show "length (data b) = MAX_PACKET_SIZE" using v(1) by (simp add: buf_ok_def)
qed

text \<open>A payload that starts with an opcode, as the handlers read it at fixed offsets.\<close>

lemma addressed_opcode:
  assumes "addressed b sid sq (opc # x @ y) a n"
  shows "data b ! 24 = opc" "mem_read 25 (length x) (data b) = x" "mem_read (25 + length x) (length y) (data b) = y"
proof -
  let ?n = "Suc (length x + length y)"
  have r: "mem_read 24 ?n (data b) = opc # x @ y" and l: "length (data b) = MAX_PACKET_SIZE"
    using addressed_bytes [OF assms] by simp_all
  have "mem_read 24 ?n (data b) ! 0 = data b ! 24" using l by (intro nth_mem_read [of 0, simplified]) auto
  then show "data b ! 24 = opc" using r by simp
  have "mem_read 25 (length x) (data b) = mem_read 1 (length x) (mem_read 24 ?n (data b))" by (simp add: mem_simps)
  also have "\<dots> = x" unfolding r by (simp add: mem_read_def)
  finally show "mem_read 25 (length x) (data b) = x" .
  have "mem_read (25 + length x) (length y) (data b) = mem_read (1 + length x) (length y) (mem_read 24 ?n (data b))" by (simp add: mem_simps)
  also have "\<dots> = y" unfolding r by (simp add: mem_read_def)
  finally show "mem_read (25 + length x) (length y) (data b) = y" .
qed

lemma push_control_sess [simp]: "ep_sess (push_control p e) = ep_sess e"
  by (simp add: push_control_def split: prod.splits)

lemma send_filled_sess: "send_filled f e = (st, e') \<Longrightarrow> ep_sess e' = ep_sess e"
  by (auto simp: send_filled_def split: prod.splits option.splits)

lemma send_control_sess: "send_control pl a n e = (st, e') \<Longrightarrow> ep_sess e' = ep_sess e"
  unfolding send_control_def by (rule send_filled_sess)

lemma send_control_top:
  assumes "send_control pl a n e = (st, e')"
  shows "st = (if top (ep_pool e) = 0 then -1 else 0)" "top (ep_pool e) \<le> Suc (top (ep_pool e'))"
  using assms
  by (auto simp: send_control_def send_filled_def push_control_def pool_get_def pool_return_def buf_update_def Let_def
      split: if_splits prod.splits)

lemma send_filled_none:
  "\<lbrakk> ep_ok e; free_bufs (ep_pool e) = [] \<rbrakk> \<Longrightarrow> send_filled f e = (-1, e)"
  using packet_pool.get_none [of "ep_pool e"] by (simp add: send_filled_def ep_ok_def)

lemma send_filled_spec:
  assumes ok: "ep_ok e" and free: "free_bufs (ep_pool e) \<noteq> []"
    and fill: "\<And>b. buf_ok b \<Longrightarrow> buf_ok (f (ep_seq e) b) \<and> P (f (ep_seq e) b)"
  shows "\<exists>e'. send_filled f e = (0, e') \<and> ep_ok e' \<and> ep_sess e' = ep_sess e \<and> ep_seq e' = ep_seq e + 1 \<and>
    (if length (queued e) < RING_SIZE - 1 then \<exists>b. queued e' = queued e @ [b] \<and> P b
     else queued e' = queued e \<and> set (free_bufs (ep_pool e')) = set (free_bufs (ep_pool e)))"
proof -
  obtain p q where g: "pool_get (ep_pool e) = (Some p, q)"
    using packet_pool.get_some [of "ep_pool e"] ok free by (auto simp: ep_ok_def)
  note d = packet_pool.get_SomeD [of "ep_pool e" p q, simplified]
  have gm: "pool_mem q = pool_mem (ep_pool e)" using pool_get_mem [of "ep_pool e"] g by simp
  have pf: "p \<in> set (free_bufs (ep_pool e))" "set (free_bufs q) = set (free_bufs (ep_pool e)) - {p}" "pool_ok q"
    using d ok g by (auto simp: ep_ok_def)
  let ?e1 = "e\<lparr>ep_seq := ep_seq e + 1, ep_pool := buf_update p (f (ep_seq e)) q\<rparr>"
  let ?r = "tx_control (ep_txq e)"
  have sc: "send_filled f e = (0, push_control p ?e1)" using g by (simp add: send_filled_def)
  have new: "buf_ok (f (ep_seq e) (pool_mem q p))" "P (f (ep_seq e) (pool_mem q p))"
    using ok gm fill by (simp_all add: ep_ok_def)
  have pr: "p \<notin> set (ring_contents ?r)" using ok pf(1) by (auto simp: ep_ok_def)
  have bufs: "buf_ok (pool_mem (ep_pool ?e1) x)" for x
    using new(1) gm ok by (simp add: buf_update_def ep_ok_def)
  have old: "map (pool_mem (ep_pool ?e1)) (ring_contents ?r) = queued e"
    using pr gm by (auto simp: queued_def buf_update_def)
  have rok: "ring_ok ?r" using ok by (simp add: ep_ok_def)
  show ?thesis
  proof (cases "length (ring_contents ?r) < RING_SIZE - 1")
    case True
    then obtain r where r: "ring_push ?r p = (0, r)" "ring_contents r = ring_contents ?r @ [p]" "ring_ok r"
      using spsc.push_accept [OF rok] by blast
    then have e': "push_control p ?e1 = ?e1\<lparr>ep_txq := (ep_txq e)\<lparr>tx_control := r\<rparr>\<rparr>" by (simp add: push_control_def)
    have "ep_ok (push_control p ?e1)" using e' r pf ok bufs by (auto simp: ep_ok_def)
    then show ?thesis using sc e' r True new(2) old by (auto simp: queued_def)
  next
    case False
    have "ring_push ?r p = (-1, ?r)" using spsc.push_full [OF rok False] .
    then have e': "push_control p ?e1 = ?e1\<lparr>ep_pool := pool_return p (ep_pool ?e1)\<rparr>" by (simp add: push_control_def)
    have "p < PACKET_POOL_SIZE" using ok pf(1) by (auto simp: ep_ok_def pool_ok_def)
    then have f: "set (free_bufs (pool_return p (ep_pool ?e1))) = set (free_bufs (ep_pool e))" "pool_ok (pool_return p (ep_pool ?e1))"
      using packet_pool.give_free [of "ep_pool ?e1" p] pf by auto
    have "ep_ok (push_control p ?e1)" using e' f ok bufs by (simp add: ep_ok_def)
    then show ?thesis using sc e' f False old by (auto simp: queued_def)
  qed
qed

lemma send_control_spec:
  assumes "ep_ok e" and "free_bufs (ep_pool e) \<noteq> []"
    and "length pl \<le> MAX_PACKET_SIZE - HEADER_SIZE" "length a \<le> 32"
  shows "\<exists>e'. send_control pl a n e = (0, e') \<and> ep_ok e' \<and> ep_sess e' = ep_sess e \<and> ep_seq e' = ep_seq e + 1 \<and>
    (if length (queued e) < RING_SIZE - 1
     then \<exists>b. queued e' = queued e @ [b] \<and> addressed b (session_id (ep_sess e)) (ep_seq e) pl a n
     else queued e' = queued e \<and> set (free_bufs (ep_pool e')) = set (free_bufs (ep_pool e)))"
  unfolding send_control_def
  by (rule send_filled_spec [OF assms(1,2)]) (use addressed_write [OF _ assms(3,4)] in \<open>auto simp: addressed_def\<close>)

section \<open>Endpoints that can send\<close>

lemma queued_sess [simp]: "queued (e\<lparr>ep_sess := s\<rparr>) = queued e"
  by (simp add: queued_def)

lemma ep_ok_sess: "\<lbrakk> ep_ok e; session_ok s \<rbrakk> \<Longrightarrow> ep_ok (e\<lparr>ep_sess := s\<rparr>)"
  by (simp add: ep_ok_def)

text \<open>An endpoint that can send one more control packet.\<close>

definition can_send :: "endpoint \<Rightarrow> bool" where
  "can_send e \<longleftrightarrow> ep_ok e \<and> free_bufs (ep_pool e) \<noteq> [] \<and> length (queued e) < RING_SIZE - 1"


text \<open>A sample endpoint with one free buffer and empty queues.\<close>

definition ep_sample :: "session \<Rightarrow> endpoint" where
  "ep_sample s = \<lparr>ep_sess = s, ep_txq = \<lparr>tx_control = empty_ring, tx_audio = empty_ring, tx_chat = empty_ring,
     tx_file = empty_ring, tx_video = empty_ring, tx_fake = empty_ring\<rparr>,
     ep_pool = \<lparr>pool_mem = (\<lambda>_. buf_sample), free_stack = replicate 4096 7, top = 1\<rparr>, ep_seq = 1\<rparr>"

lemma ep_sample_can_send: "session_ok s \<Longrightarrow> can_send (ep_sample s)" "queued (ep_sample s) = []"
  using buf_sample_ok
  by (simp_all add: can_send_def ep_ok_def ep_sample_def queued_def empty_ring_def ring_ok_def ring_contents_def
      ring_count_def pool_ok_def free_bufs_def)

end
