(* ===== verification/Rekey.thy ===== *)
theory Rekey
  imports Endpoint
begin

text \<open>
  Key renewal of a locked session (\<open>lib/engine/rekey.c\<close>): REKEY_INIT carries the current epoch
  and a fresh KEM public key, REKEY_CONFIRM the next epoch and the ciphertext; both sides
  derive the keys of the next epoch from the KEM secret. The spin lock around the key update
  has no effect between two operations.
\<close>

section \<open>Messages\<close>

text \<open>
  The header stores of this file, without the \<open>memset\<close> of the other senders: byte 23 keeps what
  the buffer held. The payload is the opcode, the epoch and the KEM data.
\<close>

definition write_fields :: "u64 \<Rightarrow> u32 \<Rightarrow> nat \<Rightarrow> bytes \<Rightarrow> bytes" where
  "write_fields sid sq plen d =
     (let d2 = mem_write 0 (le_bytes 4 PROTO_MAGIC) d;
          d3 = mem_write 4 [1] d2;
          d4 = mem_write 5 [0] d3;
          d5 = mem_write 6 (le_bytes 8 sid) d4;
          d6 = mem_write 14 [CH_CONTROL] d5;
          d7 = mem_write 15 (le_bytes 4 sq) d6
      in mem_write 19 (le_bytes 4 (of_nat plen :: u32)) d7)"

definition rekey_payload :: "u8 \<Rightarrow> u64 \<Rightarrow> bytes \<Rightarrow> bytes" where
  "rekey_payload opc epoch x = opc # le_bytes 8 epoch @ x"

definition rekey_packet :: "u64 \<Rightarrow> bytes \<Rightarrow> u32 \<Rightarrow> packet_buf \<Rightarrow> packet_buf" where
  "rekey_packet sid pl sq b =
     b\<lparr>data := mem_write HEADER_SIZE pl (write_fields sid sq (length pl) (data b)), len := HEADER_SIZE + length pl\<rparr>"

section \<open>Operations\<close>

definition derive_rekey_keys :: "crypto_lib \<Rightarrow> session \<Rightarrow> bytes \<Rightarrow> int \<times> session" where
  "derive_rekey_keys L s shared_secret =
     (let epoch = key_epoch (keys s) + 1;
          ctxt = le_bytes 8 (session_id s) @ le_bytes 8 epoch @ replicate 24 0;
          (ret, sk, cks) = derive_session_keys L shared_secret ctxt ([], [])
      in if ret \<noteq> 0 then (-1, s)
         else (0, s\<lparr>keys := \<lparr>session_key = sk, channel_keys = cks, key_epoch = epoch\<rparr>\<rparr>))"

definition rekey_initiate :: "crypto_lib \<Rightarrow> nat \<Rightarrow> endpoint \<Rightarrow> int \<times> endpoint" where
  "rekey_initiate L seed e =
     (let s = ep_sess e in
      if sess_state s \<noteq> SESSION_LOCKED then (-1, e)
      else if kem_init KEM_TYPE_MLKEM_768 \<noteq> 0 then (-1, e)
      else case kem_keypair L seed KEM_TYPE_MLKEM_768 KEM_MLKEM_768_PK_SIZE KEM_MLKEM_768_SK_SIZE of
             None \<Rightarrow> (-1, e)
           | Some (pk, sk) \<Rightarrow>
               let fill = (\<lambda>sq b. set_dest (take (sess_addr_len s) (sess_addr s)) (sess_addr_len s)
                     (rekey_packet (session_id s) (rekey_payload CTRL_REKEY_INIT (key_epoch (keys s)) pk) sq b));
                   (st, e1) = send_filled fill e
               in if st \<noteq> 0 then (-1, e1)
                  else (0, e1\<lparr>ep_sess := s\<lparr>hs := (hs s)\<lparr>kem_secret_key := sk\<rparr>\<rparr>\<rparr>))"

text \<open>
  The handler reads opcode, epoch and KEM data at fixed offsets of the buffer. In the answer to
  REKEY_INIT the sequence number is taken before the buffer.
\<close>

definition rekey_handle_init :: "crypto_lib \<Rightarrow> nat \<Rightarrow> packet_buf \<Rightarrow> endpoint \<Rightarrow> int \<times> endpoint" where
  "rekey_handle_init L seed p e =
     (if le_word (mem_read 25 8 (data p)) \<noteq> key_epoch (keys (ep_sess e)) then (0, e)
      else case kem_encapsulate L seed (mem_read 33 KEM_MLKEM_768_PK_SIZE (data p)) KEM_MLKEM_768_CT_SIZE KEM_MLKEM_768_SS_SIZE of
             None \<Rightarrow> (-1, e)
           | Some (ct, ss) \<Rightarrow>
               let (ret, s1) = derive_rekey_keys L (ep_sess e) ss
               in if ret \<noteq> 0 then (-1, e)
                  else let e1 = e\<lparr>ep_sess := s1\<rparr>;
                           fill = (\<lambda>sq b. set_dest (take SOCKADDR_IN6_SIZE (addr p)) SOCKADDR_IN6_SIZE
                             (rekey_packet (session_id s1) (rekey_payload CTRL_REKEY_CONFIRM (key_epoch (keys s1)) ct) sq b));
                           (st, e2) = send_filled fill e1
                       in if st \<noteq> 0 then (-1, e2\<lparr>ep_seq := ep_seq e2 + 1\<rparr>) else (1, e2))"

definition rekey_handle_confirm :: "crypto_lib \<Rightarrow> packet_buf \<Rightarrow> endpoint \<Rightarrow> int \<times> endpoint" where
  "rekey_handle_confirm L p e =
     (let s = ep_sess e in
      if le_word (mem_read 25 8 (data p)) \<noteq> key_epoch (keys s) + 1 then (0, e)
      else case kem_decapsulate L (kem_secret_key (hs s)) (mem_read 33 KEM_MLKEM_768_CT_SIZE (data p)) KEM_MLKEM_768_SS_SIZE of
             None \<Rightarrow> (-1, e)
           | Some ss \<Rightarrow>
               let (ret, s1) = derive_rekey_keys L s ss
               in if ret \<noteq> 0 then (-1, e)
                  else (2, e\<lparr>ep_sess := s1\<lparr>hs := (hs s1)\<lparr>kem_secret_key := replicate KEM_MLKEM_768_SK_SIZE 0\<rparr>\<rparr>\<rparr>))"

definition rekey_handle :: "crypto_lib \<Rightarrow> nat \<Rightarrow> packet_buf \<Rightarrow> endpoint \<Rightarrow> int \<times> endpoint" where
  "rekey_handle L seed p e =
     (if sess_state (ep_sess e) \<noteq> SESSION_LOCKED then (-1, e)
      else let opc = data p ! 24 in
        if opc = CTRL_REKEY_INIT then rekey_handle_init L seed p e
        else if opc = CTRL_REKEY_CONFIRM then rekey_handle_confirm L p e
        else (0, e))"

section \<open>Lemmas\<close>

lemma rekey_packet_ok:
  assumes "buf_ok b" "length pl \<le> MAX_PACKET_SIZE - HEADER_SIZE" "length a \<le> 32"
  shows "buf_ok (set_dest a n (rekey_packet sid pl sq b)) \<and>
    mem_read HEADER_SIZE (length pl) (data (set_dest a n (rekey_packet sid pl sq b))) = pl \<and>
    take (length a) (addr (set_dest a n (rekey_packet sid pl sq b))) = a \<and>
    addr_len (set_dest a n (rekey_packet sid pl sq b)) = n"
  using assms by (simp add: buf_ok_def set_dest_def rekey_packet_def write_fields_def mem_simps) (simp add: mem_write_def)

text \<open>Reading the fixed offsets of a buffer that holds a payload.\<close>

definition holds :: "bytes \<Rightarrow> packet_buf \<Rightarrow> bool" where
  "holds pl b \<longleftrightarrow> buf_ok b \<and> mem_read HEADER_SIZE (length pl) (data b) = pl"

lemma holds_payload:
  assumes "holds (rekey_payload opc epoch x) b"
  shows "data b ! 24 = opc" "le_word (mem_read 25 8 (data b)) = epoch" "mem_read 33 (length x) (data b) = x"
proof -
  let ?n = "9 + length x"
  have r: "mem_read 24 ?n (data b) = opc # le_bytes 8 epoch @ x"
    using assms by (simp add: holds_def rekey_payload_def)
  have l: "length (data b) = MAX_PACKET_SIZE" using assms by (simp add: holds_def buf_ok_def)
  have "mem_read 24 ?n (data b) ! 0 = data b ! 24" using l by (intro nth_mem_read [of 0, simplified]) auto
  then show "data b ! 24 = opc" using r by simp
  have "mem_read 25 8 (data b) = mem_read 1 8 (mem_read 24 ?n (data b))" by (simp add: mem_simps)
  also have "\<dots> = le_bytes 8 epoch" unfolding r by (simp add: mem_read_def)
  finally show "le_word (mem_read 25 8 (data b)) = epoch" by (simp add: wire_simps)
  have "mem_read 33 (length x) (data b) = mem_read 9 (length x) (mem_read 24 ?n (data b))" by (simp add: mem_simps)
  also have "\<dots> = x" unfolding r by (simp add: mem_read_def)
  finally show "mem_read 33 (length x) (data b) = x" .
qed

text \<open>The keys of the next epoch as a function of session id, epoch and secret.\<close>

definition epoch_keys :: "crypto_lib \<Rightarrow> u64 \<Rightarrow> u64 \<Rightarrow> bytes \<Rightarrow> session_keys" where
  "epoch_keys L sid epoch ss =
     (case derive_session_keys L ss (le_bytes 8 sid @ le_bytes 8 epoch @ replicate 24 0) ([], []) of (_, sk, cks) \<Rightarrow>
        \<lparr>session_key = sk, channel_keys = cks, key_epoch = epoch\<rparr>)"

lemma derive_rekey_keys_spec:
  assumes "crypto_lib_ok L" "length ss = 32"
  shows "derive_rekey_keys L s ss = (0, s\<lparr>keys := epoch_keys L (session_id s) (key_epoch (keys s) + 1) ss\<rparr>) \<and>
    keys_ok (epoch_keys L (session_id s) (key_epoch (keys s) + 1) ss)"
proof -
  let ?c = "le_bytes 8 (session_id s) @ le_bytes 8 (key_epoch (keys s) + 1) @ replicate 24 (0 :: u8)"
  have "ss \<noteq> []" "?c \<noteq> []" using assms(2) by auto
  then obtain sk cks where "derive_session_keys L ss ?c ([], []) = (0, sk, cks)" "length sk = 32" "length cks = 6" "\<forall>c \<in> set cks. length c = 32"
    using derive_session_keys_ok [OF assms(1)] by blast
  then show ?thesis by (simp add: derive_rekey_keys_def epoch_keys_def keys_ok_def)
qed

lemma send_rekey:
  assumes "can_send e" "length pl \<le> MAX_PACKET_SIZE - HEADER_SIZE" "length a \<le> 32"
  shows "\<exists>e' m. send_filled (\<lambda>sq b. set_dest a n (rekey_packet sid pl sq b)) e = (0, e') \<and> ep_ok e' \<and>
    ep_sess e' = ep_sess e \<and> queued e' = queued e @ [m] \<and> holds pl m \<and> take (length a) (addr m) = a \<and> addr_len m = n"
  using send_filled_spec [of e "\<lambda>sq b. set_dest a n (rekey_packet sid pl sq b)"
      "\<lambda>m. holds pl m \<and> take (length a) (addr m) = a \<and> addr_len m = n"] assms(1) rekey_packet_ok [OF _ assms(2,3)]
  by (auto simp: can_send_def holds_def)

lemma rekey_initiate_step:
  assumes L: "crypto_lib_ok L" and e: "can_send e" "sess_state (ep_sess e) = SESSION_LOCKED"
    and kp: "oqs_keypair L 1 seed = Some (pk, sk)" "length pk = 1184" "length sk = 2400"
  shows "\<exists>e' m. rekey_initiate L seed e = (0, e') \<and> ep_ok e' \<and> queued e' = queued e @ [m] \<and>
    holds (rekey_payload CTRL_REKEY_INIT (key_epoch (keys (ep_sess e))) pk) m \<and>
    ep_sess e' = (ep_sess e)\<lparr>hs := (hs (ep_sess e))\<lparr>kem_secret_key := sk\<rparr>\<rparr>"
proof -
  let ?s = "ep_sess e"
  let ?pl = "rekey_payload CTRL_REKEY_INIT (key_epoch (keys ?s)) pk" and ?a = "take (sess_addr_len ?s) (sess_addr ?s)"
  have s: "session_ok ?s" using e(1) by (simp add: can_send_def ep_ok_def)
  have "length ?pl \<le> MAX_PACKET_SIZE - HEADER_SIZE" using kp(2) by (simp add: rekey_payload_def)
  moreover have "length ?a \<le> 32" using s by (simp add: session_ok_def)
  ultimately obtain e' m where "send_filled (\<lambda>sq b. set_dest ?a (sess_addr_len ?s) (rekey_packet (session_id ?s) ?pl sq b)) e = (0, e')"
    "ep_ok e'" "ep_sess e' = ?s" "queued e' = queued e @ [m]" "holds ?pl m"
    using send_rekey [OF e(1)] by blast
  moreover have "session_ok (?s\<lparr>hs := (hs ?s)\<lparr>kem_secret_key := sk\<rparr>\<rparr>)" using s kp(3) by (simp add: session_ok_def hs_ok_def)
  ultimately show ?thesis
    using e(2) kp ep_ok_sess by (auto simp: rekey_initiate_def kem_init_def kem_keypair_def kem_get_sizes_def Let_def)
qed

lemma rekey_init_step:
  assumes L: "crypto_lib_ok L" and e: "ep_ok e" "sess_state (ep_sess e) = SESSION_LOCKED"
    and m: "holds (rekey_payload CTRL_REKEY_INIT (key_epoch (keys (ep_sess e))) pk) m" "length pk = 1184"
    and en: "oqs_encaps L 1 seed pk = Some (ct, ss)" "length ct = 1088" "length ss = 32"
  shows "\<exists>st e'. rekey_handle L seed m e = (st, e') \<and>
    ep_sess e' = (ep_sess e)\<lparr>keys := epoch_keys L (session_id (ep_sess e)) (key_epoch (keys (ep_sess e)) + 1) ss\<rparr> \<and>
    (can_send e \<longrightarrow> st = 1 \<and> ep_ok e' \<and> (\<exists>r. queued e' = queued e @ [r] \<and> addr_len r = SOCKADDR_IN6_SIZE \<and>
       take SOCKADDR_IN6_SIZE (addr r) = take SOCKADDR_IN6_SIZE (addr m) \<and>
       holds (rekey_payload CTRL_REKEY_CONFIRM (key_epoch (keys (ep_sess e)) + 1) ct) r)) \<and>
    (free_bufs (ep_pool e) = [] \<longrightarrow> st = -1 \<and> queued e' = queued e)"
proof -
  let ?s = "ep_sess e" and ?ep = "key_epoch (keys (ep_sess e)) + 1"
  let ?s1 = "?s\<lparr>keys := epoch_keys L (session_id ?s) ?ep ss\<rparr>"
  let ?e1 = "e\<lparr>ep_sess := ?s1\<rparr>" and ?a = "take SOCKADDR_IN6_SIZE (addr m)"
  let ?pl = "rekey_payload CTRL_REKEY_CONFIRM ?ep ct"
  let ?f = "\<lambda>sq b. set_dest ?a SOCKADDR_IN6_SIZE (rekey_packet (session_id ?s) ?pl sq b)"
  have dk: "derive_rekey_keys L ?s ss = (0, ?s1)" "keys_ok (keys ?s1)" using derive_rekey_keys_spec [OF L en(3)] by simp_all
  have ek: "key_epoch (epoch_keys L (session_id ?s) ?ep ss) = ?ep" by (simp add: epoch_keys_def split: prod.splits)
  obtain st e2 where sd: "send_filled ?f ?e1 = (st, e2)" by fastforce
  have h: "rekey_handle L seed m e = (if st \<noteq> 0 then (-1, e2\<lparr>ep_seq := ep_seq e2 + 1\<rparr>) else (1, e2))"
    using e(2) holds_payload [OF m(1)] m(2) en dk(1) sd ek
    by (simp add: rekey_handle_def rekey_handle_init_def kem_encapsulate_def)
  have "session_ok ?s1" using e(1) dk(2) by (simp add: ep_ok_def session_ok_def)
  then have ok: "ep_ok ?e1" using ep_ok_sess [OF e(1)] by simp
  have sess: "ep_sess e2 = ?s1" using send_filled_sess [OF sd] by simp
  have full: "st = 0 \<and> ep_ok e2 \<and> (\<exists>r. queued e2 = queued e @ [r] \<and> addr_len r = SOCKADDR_IN6_SIZE \<and> take SOCKADDR_IN6_SIZE (addr r) = ?a \<and> holds ?pl r)"
    if "can_send e"
  proof -
    have "length (addr m) = 32" using m(1) by (simp add: holds_def buf_ok_def)
    moreover have "can_send ?e1" using that ok by (simp add: can_send_def)
    ultimately show ?thesis
      using send_rekey [of ?e1 ?pl ?a SOCKADDR_IN6_SIZE "session_id ?s"] sd en(2) by (auto simp: rekey_payload_def)
  qed
  have none: "st = -1 \<and> e2 = ?e1" if "free_bufs (ep_pool e) = []"
    using send_filled_none [OF ok, of ?f] that sd by simp
  have "queued (e2\<lparr>ep_seq := x\<rparr>) = queued e2" for x by (simp add: queued_def)
  then show ?thesis using h sess full none by (cases "st = 0") auto
qed

lemma rekey_confirm_step:
  assumes L: "crypto_lib_ok L" and e: "sess_state (ep_sess e) = SESSION_LOCKED" "length (kem_secret_key (hs (ep_sess e))) = 2400"
    and m: "holds (rekey_payload CTRL_REKEY_CONFIRM (key_epoch (keys (ep_sess e)) + 1) ct) m" "length ct = 1088"
    and de: "oqs_decaps L 1 (kem_secret_key (hs (ep_sess e))) ct = Some ss" "length ss = 32"
  shows "\<exists>e'. rekey_handle L seed m e = (2, e') \<and>
    keys (ep_sess e') = epoch_keys L (session_id (ep_sess e)) (key_epoch (keys (ep_sess e)) + 1) ss \<and>
    kem_secret_key (hs (ep_sess e')) = replicate KEM_MLKEM_768_SK_SIZE 0"
  using e holds_payload [OF m(1)] m(2) de derive_rekey_keys_spec [OF L de(2), of "ep_sess e"]
  by (simp add: rekey_handle_def rekey_handle_confirm_def kem_decapsulate_def Let_def)

section \<open>Properties\<close>

text \<open>
  C27: A renewal works: if a locked endpoint initiates, the peer with the same session id and
  epoch handles the message and the initiator handles the answer, then both hold the same
  keys of the next epoch and the initiator's KEM secret key is wiped.
\<close>

theorem rekey_agreement:
  assumes "crypto_lib_ok L" and "can_send A" "can_send B"
    and "sess_state (ep_sess A) = SESSION_LOCKED" "sess_state (ep_sess B) = SESSION_LOCKED"
    and "session_id (ep_sess A) = session_id (ep_sess B)" "key_epoch (keys (ep_sess A)) = key_epoch (keys (ep_sess B))"
  shows "\<exists>A1 m1 B1 m2 A2. rekey_initiate L seedA A = (0, A1) \<and> queued A1 = queued A @ [m1] \<and>
    rekey_handle L seedB m1 B = (1, B1) \<and> queued B1 = queued B @ [m2] \<and> rekey_handle L seedA m2 A1 = (2, A2) \<and>
    keys (ep_sess A2) = keys (ep_sess B1) \<and> key_epoch (keys (ep_sess B1)) = key_epoch (keys (ep_sess B)) + 1 \<and>
    kem_secret_key (hs (ep_sess A2)) = replicate KEM_MLKEM_768_SK_SIZE 0"
proof -
  obtain pk sk where kp: "oqs_keypair L 1 seedA = Some (pk, sk)" "length pk = 1184" "length sk = 2400"
    and "\<forall>s'. \<exists>ct ss. oqs_encaps L 1 s' pk = Some (ct, ss) \<and> length ct = 1088 \<and> length ss = 32 \<and> oqs_decaps L 1 sk ct = Some ss"
    using crypto_lib_okD(6) [OF assms(1), of seedA] by blast
  then obtain ct ss where en: "oqs_encaps L 1 seedB pk = Some (ct, ss)" "length ct = 1088" "length ss = 32" "oqs_decaps L 1 sk ct = Some ss"
    by blast
  obtain A1 m1 where a: "rekey_initiate L seedA A = (0, A1)" "queued A1 = queued A @ [m1]"
    "holds (rekey_payload CTRL_REKEY_INIT (key_epoch (keys (ep_sess B))) pk) m1"
    "ep_sess A1 = (ep_sess A)\<lparr>hs := (hs (ep_sess A))\<lparr>kem_secret_key := sk\<rparr>\<rparr>"
    using rekey_initiate_step [OF assms(1,2,4) kp] assms(7) by auto
  have "ep_ok B" using assms(3) by (simp add: can_send_def)
  then obtain B1 m2 where b: "rekey_handle L seedB m1 B = (1, B1)" "queued B1 = queued B @ [m2]"
    "ep_sess B1 = (ep_sess B)\<lparr>keys := epoch_keys L (session_id (ep_sess B)) (key_epoch (keys (ep_sess B)) + 1) ss\<rparr>"
    "holds (rekey_payload CTRL_REKEY_CONFIRM (key_epoch (keys (ep_sess B)) + 1) ct) m2"
    using rekey_init_step [OF assms(1) _ assms(5) a(3) kp(2) en(1-3)] assms(3) by auto
  have c: "\<exists>A2. rekey_handle L seedA m2 A1 = (2, A2) \<and>
      keys (ep_sess A2) = epoch_keys L (session_id (ep_sess B)) (key_epoch (keys (ep_sess B)) + 1) ss \<and>
      kem_secret_key (hs (ep_sess A2)) = replicate KEM_MLKEM_768_SK_SIZE 0"
    using rekey_confirm_step [OF assms(1), of A1 ct m2 ss seedA] a(4) b(4) assms(4,6,7) kp(3) en by simp
  have "key_epoch (epoch_keys L sid ep x) = ep" for sid ep x by (simp add: epoch_keys_def split: prod.splits)
  then show ?thesis using a(1,2) b c by auto
qed

theorem rekey_agreement_witness:
  "\<exists>A1 m1 B1 m2 A2. rekey_initiate sample_lib 3 (ep_sample enc_session_sample) = (0, A1) \<and> queued A1 = [m1] \<and>
     rekey_handle sample_lib 4 m1 (ep_sample enc_session_sample) = (1, B1) \<and> queued B1 = [m2] \<and>
     rekey_handle sample_lib 3 m2 A1 = (2, A2) \<and> keys (ep_sess A2) = keys (ep_sess B1) \<and> key_epoch (keys (ep_sess B1)) = 1"
proof -
  let ?e = "ep_sample enc_session_sample"
  have s: "ep_sess ?e = enc_session_sample" "key_epoch (keys enc_session_sample) = 0"
    by (simp_all add: ep_sample_def enc_session_sample_def session_init_def session_zero_def session_keys_zero_def)
  show ?thesis
    using rekey_agreement [OF sample_lib_ok ep_sample_can_send(1) ep_sample_can_send(1), of enc_session_sample enc_session_sample 3 4]
      s enc_session_sample_ok ep_sample_can_send(2) by auto
qed

text \<open>
  C36: A renewal needs no authentication: a packet from any address that carries the current
  epoch and a public key of the attacker passes the session gate and replaces the session keys
  by keys derived from a secret that the attacker's private key opens; the answer goes to the
  attacker's address.
\<close>

theorem rekey_hijack:
  assumes "crypto_lib_ok L" and "can_send e" "sess_state (ep_sess e) = SESSION_LOCKED"
    and "oqs_keypair L KEM_TYPE_MLKEM_768 seedM = Some (pk, sk)"
    and "holds (rekey_payload CTRL_REKEY_INIT (key_epoch (keys (ep_sess e))) pk) m"
    and "channel_id v = CH_CONTROL"
  shows "fst (session_check (ep_sess e) m v) = 0 \<and>
    (\<exists>e' r ct ss. rekey_handle L seed m e = (1, e') \<and> queued e' = queued e @ [r] \<and>
       take SOCKADDR_IN6_SIZE (addr r) = take SOCKADDR_IN6_SIZE (addr m) \<and> mem_read 33 KEM_MLKEM_768_CT_SIZE (data r) = ct \<and>
       oqs_decaps L KEM_TYPE_MLKEM_768 sk ct = Some ss \<and>
       keys (ep_sess e') = epoch_keys L (session_id (ep_sess e)) (key_epoch (keys (ep_sess e)) + 1) ss)"
proof -
  obtain ct ss where kp: "length pk = 1184" and en: "oqs_encaps L 1 seed pk = Some (ct, ss)" "length ct = 1088" "length ss = 32"
      "oqs_decaps L 1 sk ct = Some ss"
    using crypto_lib_okD(6) [OF assms(1), of seedM] assms(4) by (metis Pair_inject option.inject)
  have "ep_ok e" using assms(2) by (simp add: can_send_def)
  then obtain e' r where "rekey_handle L seed m e = (1, e')" "queued e' = queued e @ [r]"
    "take SOCKADDR_IN6_SIZE (addr r) = take SOCKADDR_IN6_SIZE (addr m)"
    "holds (rekey_payload CTRL_REKEY_CONFIRM (key_epoch (keys (ep_sess e)) + 1) ct) r"
    "ep_sess e' = (ep_sess e)\<lparr>keys := epoch_keys L (session_id (ep_sess e)) (key_epoch (keys (ep_sess e)) + 1) ss\<rparr>"
    using rekey_init_step [OF assms(1) _ assms(3,5) kp en(1-3)] assms(2) by blast
  moreover have "fst (session_check (ep_sess e) m v) = 0" using assms(3,6) by (simp add: session_check_def Let_def)
  ultimately show ?thesis using en(2,4) holds_payload(3) [of CTRL_REKEY_CONFIRM _ ct r] by auto
qed

lemma rekey_sample_holds:
  "\<exists>m pk sk. oqs_keypair sample_lib KEM_TYPE_MLKEM_768 5 = Some (pk, sk) \<and> holds (rekey_payload CTRL_REKEY_INIT 0 pk) m"
proof -
  let ?pl = "rekey_payload CTRL_REKEY_INIT 0 (replicate 1184 (of_nat 5))"
  have "holds ?pl (set_dest (replicate 28 1) 28 (rekey_packet 9 ?pl 7 buf_sample))"
    using rekey_packet_ok [OF buf_sample_ok, of ?pl "replicate 28 1" 28 9 7] by (simp add: holds_def rekey_payload_def)
  moreover have "oqs_keypair sample_lib KEM_TYPE_MLKEM_768 5 = Some (replicate 1184 (of_nat 5), replicate 2400 (of_nat 5))"
    by (simp add: sample_lib_def)
  ultimately show ?thesis by blast
qed

theorem rekey_hijack_witness:
  "\<exists>m e' ss. rekey_handle sample_lib 4 m (ep_sample enc_session_sample) = (1, e') \<and>
     keys (ep_sess e') = epoch_keys sample_lib 9 1 ss"
proof -
  let ?e = "ep_sample enc_session_sample"
  have s: "ep_sess ?e = enc_session_sample" "key_epoch (keys enc_session_sample) = 0" "session_id enc_session_sample = 9"
    by (simp_all add: ep_sample_def enc_session_sample_def session_init_def session_zero_def session_keys_zero_def)
  obtain m pk sk where m: "oqs_keypair sample_lib KEM_TYPE_MLKEM_768 5 = Some (pk, sk)" "holds (rekey_payload CTRL_REKEY_INIT 0 pk) m"
    using rekey_sample_holds by blast
  show ?thesis
    using rekey_hijack [OF sample_lib_ok ep_sample_can_send(1) _ m(1), of enc_session_sample m "video_view_sample\<lparr>channel_id := CH_CONTROL\<rparr>" 4]
      s m(2) enc_session_sample_ok by auto
qed

text \<open>
  With an empty pool the responder renews its keys and reports an error without an answer, so
  the two sides no longer agree.
\<close>

lemma rekey_desync:
  assumes "crypto_lib_ok L" and "ep_ok e" "sess_state (ep_sess e) = SESSION_LOCKED" "free_bufs (ep_pool e) = []"
    and "holds (rekey_payload CTRL_REKEY_INIT (key_epoch (keys (ep_sess e))) pk) m" "length pk = 1184"
    and "oqs_encaps L 1 seed pk = Some (ct, ss)" "length ct = 1088" "length ss = 32"
  shows "\<exists>e'. rekey_handle L seed m e = (-1, e') \<and> queued e' = queued e \<and>
    keys (ep_sess e') = epoch_keys L (session_id (ep_sess e)) (key_epoch (keys (ep_sess e)) + 1) ss"
  using rekey_init_step [OF assms(1-3,5-9)] assms(4) by auto

end
