(* ===== verification/Liveness.thy ===== *)
theory Liveness
  imports Endpoint
begin

text \<open>
  Keeping a locked session alive: heartbeats (\<open>lib/engine/heartbeat.c\<close>), reconnection after a
  path went down (\<open>lib/engine/reconnect.c\<close>) and port hopping (\<open>lib/layers/port_hop.c\<close>). Times are
  64-bit milliseconds that wrap; the products with 3 are 32-bit as in the code.
\<close>

section \<open>Heartbeats\<close>

text \<open>\<open>for (i < path_count) paths[i] = f(paths[i])\<close>; the code keeps \<open>path_count\<close> at most 4.\<close>

definition each_path :: "(path_metrics \<Rightarrow> path_metrics) \<Rightarrow> session \<Rightarrow> session" where
  "each_path f s = (let r = resilience s in
     s\<lparr>resilience := r\<lparr>paths := map f (take (path_count r) (paths r)) @ drop (path_count r) (paths r)\<rparr>\<rparr>)"

definition upd_sess :: "(session \<Rightarrow> session) \<Rightarrow> endpoint \<Rightarrow> endpoint" where
  "upd_sess f e = e\<lparr>ep_sess := f (ep_sess e)\<rparr>"

definition heartbeat_send :: "u64 \<Rightarrow> endpoint \<Rightarrow> int \<times> endpoint" where
  "heartbeat_send now e =
     (let s = ep_sess e in
      if sess_state s \<noteq> SESSION_LOCKED then (0, e)
      else let (st, e1) = send_control (CTRL_HEARTBEAT # le_bytes 8 (session_id s) @ le_bytes 8 now) (sess_addr s) (sess_addr_len s) e
           in if st \<noteq> 0 then (-1, e1)
              else (0, upd_sess (\<lambda>s. s\<lparr>resilience := (resilience s)\<lparr>last_heartbeat_ms := now\<rparr>\<rparr>) e1))"

definition seen :: "u64 \<Rightarrow> session \<Rightarrow> session" where
  "seen now s = each_path (\<lambda>p. p\<lparr>last_activity_ms := now\<rparr>) (s\<lparr>last_heartbeat_rx_ms := now\<rparr>)"

definition heartbeat_handle :: "packet_buf \<Rightarrow> u64 \<Rightarrow> endpoint \<Rightarrow> int \<times> endpoint" where
  "heartbeat_handle p now e =
     (if len p < 24 + 1 then (0, e)
      else if data p ! 24 = CTRL_HEARTBEAT then
        (if len p < 24 + 17 then (-1, e)
         else let ts = (le_word (mem_read 33 8 (data p)) :: u64);
                  e1 = upd_sess (seen now) e;
                  (st, e2) = send_control (CTRL_HEARTBEAT_ACK # le_bytes 8 (session_id (ep_sess e1)) @ le_bytes 8 ts) (addr p) (addr_len p) e1
              in if st \<noteq> 0 then (0, e2) else (1, e2))
      else if data p ! 24 = CTRL_HEARTBEAT_ACK then (1, upd_sess (seen now) e)
      else (0, e))"

definition heartbeat_tick :: "u64 \<Rightarrow> endpoint \<Rightarrow> int \<times> endpoint" where
  "heartbeat_tick now e =
     (let s = ep_sess e; r = resilience s in
      if sess_state s \<noteq> SESSION_LOCKED then (0, e)
      else if now - last_heartbeat_ms r \<ge> ucast (heartbeat_interval_ms r) then (1, snd (heartbeat_send now e))
      else (0, upd_sess (each_path (\<lambda>p. snd (tick_path now r p))) e))"

section \<open>Reconnection\<close>

abbreviation RECONNECT_RETRY_MS :: u64 where "RECONNECT_RETRY_MS \<equiv> 2000"

definition reconnect_send_request :: "endpoint \<Rightarrow> int \<times> endpoint" where
  "reconnect_send_request e =
     (let s = ep_sess e;
          (st, e1) = send_control (CTRL_RECONNECT # le_bytes 8 (session_id s) @ le_bytes 8 (ucast (last_seq s) :: u64))
                       (sess_addr s) (sess_addr_len s) e
      in if st \<noteq> 0 then (-1, e1)
         else (0, upd_sess (\<lambda>s. s\<lparr>reconnect_attempts := reconnect_attempts s + 1, reconnect_start_ms := 0\<rparr>) e1))"

definition reconnect_send_ack :: "bytes \<Rightarrow> endpoint \<Rightarrow> int \<times> endpoint" where
  "reconnect_send_ack dest e =
     send_control (CTRL_RECONNECT_ACK # le_bytes 8 (session_id (ep_sess e))) (take SOCKADDR_IN6_SIZE dest) SOCKADDR_IN6_SIZE e"

definition reestablish :: "u64 \<Rightarrow> session \<Rightarrow> session" where
  "reestablish now s =
     (each_path (\<lambda>p. p\<lparr>path_state := PATH_ACTIVE, last_activity_ms := now\<rparr>) s)\<lparr>reconnect_attempts := 0, reconnect_pending := False\<rparr>"

definition reconnect_handle :: "packet_buf \<Rightarrow> u64 \<Rightarrow> endpoint \<Rightarrow> int \<times> endpoint" where
  "reconnect_handle p now e =
     (let s = ep_sess e; same = ((le_word (mem_read 25 8 (data p)) :: u64) = session_id s) in
      if len p < 24 + 1 then (0, e)
      else if data p ! 24 = CTRL_RECONNECT then
        (if \<not> same then (0, e)
         else if sess_state s \<noteq> SESSION_LOCKED then (0, e)
         else (1, snd (reconnect_send_ack (addr p) (upd_sess (reestablish now) e))))
      else if data p ! 24 = CTRL_RECONNECT_ACK then
        (if \<not> same then (0, e)
         else if sess_state s \<noteq> SESSION_LOCKED then (0, e)
         else (1, upd_sess (reestablish now) e))
      else (0, e))"

definition any_down :: "session \<Rightarrow> bool" where
  "any_down s \<longleftrightarrow> (\<exists>p \<in> set (take (path_count (resilience s)) (paths (resilience s))). path_state p = PATH_DOWN)"

definition reconnect_tick :: "u64 \<Rightarrow> endpoint \<Rightarrow> int \<times> endpoint" where
  "reconnect_tick now e =
     (let s = ep_sess e in
      if sess_state s \<noteq> SESSION_LOCKED then (0, e)
      else if \<not> any_down s then (0, e)
      else if reconnect_attempts s \<ge> max_reconnect_attempts (resilience s)
      then (-1, upd_sess (\<lambda>s. (session_zero_secrets s)\<lparr>sess_state := SESSION_IDLE\<rparr>) e)
      else if reconnect_start_ms s = 0
      then (1, snd (reconnect_send_request (upd_sess (\<lambda>s. s\<lparr>reconnect_start_ms := now\<rparr>) e)))
      else if now - reconnect_start_ms s \<ge> RECONNECT_RETRY_MS
      then (1, snd (reconnect_send_request e))
      else (0, e))"

section \<open>Port hopping\<close>

definition port_hop_send_request :: "bytes \<Rightarrow> u16 \<Rightarrow> endpoint \<Rightarrow> int \<times> endpoint" where
  "port_hop_send_request peer_addr new_port e =
     (let (st, e1) = send_control (CTRL_PORT_HOP # le_bytes 2 (htons new_port) @ le_bytes 8 (session_id (ep_sess e)))
                       (take SOCKADDR_IN6_SIZE peer_addr) SOCKADDR_IN6_SIZE e
      in if st \<noteq> 0 then (-1, e1) else (0, upd_sess (\<lambda>s. s\<lparr>hop_target_port := new_port\<rparr>) e1))"

definition port_hop_send_ack :: "bytes \<Rightarrow> endpoint \<Rightarrow> int \<times> endpoint" where
  "port_hop_send_ack peer_addr e =
     send_control (CTRL_PORT_HOP_ACK # le_bytes 8 (session_id (ep_sess e))) (take SOCKADDR_IN6_SIZE peer_addr) SOCKADDR_IN6_SIZE e"

definition port_hop_handle :: "packet_buf \<Rightarrow> session \<Rightarrow> int \<times> session" where
  "port_hop_handle p s =
     (if len p < 25 then (0, s)
      else if data p ! 24 = CTRL_PORT_HOP then
        (if len p < 24 + 11 then (-1, s)
         else let new_port = ntohs (le_word (mem_read 25 2 (data p)));
                  s1 = s\<lparr>hop_target_port := new_port\<rparr>;
                  new_addr = set_sin6_port (htons new_port) (take SOCKADDR_IN6_SIZE (sess_addr s1));
                  n = path_count (resilience s1);
                  s2 = snd (session_register_path s1 n new_addr);
                  s3 = (if n < RESILIENCE_MAX_PATHS then s2\<lparr>resilience := (resilience s2)\<lparr>path_count := n + 1\<rparr>\<rparr> else s2)
              in (1, s3\<lparr>sess_addr := mem_write 0 new_addr (sess_addr s3), sess_addr_len := SOCKADDR_IN6_SIZE\<rparr>))
      else if data p ! 24 = CTRL_PORT_HOP_ACK then (if len p < 24 + 9 then (-1, s) else (2, s))
      else (0, s))"

section \<open>Lemmas\<close>

lemma each_path_each_path:
  "each_path g (each_path f s) = each_path (g \<circ> f) s"
  by (simp add: each_path_def Let_def take_map [symmetric]) (cases "path_count (resilience s) \<le> length (paths (resilience s))"; simp add: min_def)

lemma each_path_fields [simp]:
  "sess_state (each_path f s) = sess_state s" "session_id (each_path f s) = session_id s" "keys (each_path f s) = keys s"
  "path_count (resilience (each_path f s)) = path_count (resilience s)"
  "heartbeat_interval_ms (resilience (each_path f s)) = heartbeat_interval_ms (resilience s)"
  "reconnect_timeout_ms (resilience (each_path f s)) = reconnect_timeout_ms (resilience s)"
  "last_heartbeat_ms (resilience (each_path f s)) = last_heartbeat_ms (resilience s)"
  "last_heartbeat_rx_ms (each_path f s) = last_heartbeat_rx_ms s"
  by (simp_all add: each_path_def Let_def)

lemma tick_path_recent:
  "\<lbrakk> t - last_activity_ms p \<le> ucast (heartbeat_interval_ms r * 3); t - last_activity_ms p \<le> ucast (reconnect_timeout_ms r) \<rbrakk> \<Longrightarrow>
   snd (tick_path t r p) = p"
  by (auto simp: tick_path_def Let_def)

lemma heartbeat_handle_seen:
  "heartbeat_handle p now e = (1, e') \<Longrightarrow> ep_sess e' = seen now (ep_sess e)"
  by (auto simp: heartbeat_handle_def upd_sess_def Let_def split: if_splits prod.splits dest!: send_control_sess)

text \<open>A tick whose heartbeat is not due leaves every path alone that was active recently enough.\<close>

lemma tick_after_seen:
  assumes "t - now \<le> ucast (heartbeat_interval_ms (resilience s) * 3)" "t - now \<le> ucast (reconnect_timeout_ms (resilience s))"
  shows "each_path (\<lambda>p. snd (tick_path t (resilience (seen now s)) p)) (seen now s) = seen now s"
proof -
  let ?s = "s\<lparr>last_heartbeat_rx_ms := now\<rparr>" and ?f = "\<lambda>p. p\<lparr>last_activity_ms := now\<rparr>"
  have "snd (tick_path t (resilience (seen now s)) (?f p)) = ?f p" for p
    using assms by (intro tick_path_recent) (simp_all add: seen_def)
  then have "(\<lambda>p. snd (tick_path t (resilience (seen now s)) p)) \<circ> ?f = ?f" by (simp add: fun_eq_iff)
  then show ?thesis unfolding seen_def [of now s] each_path_each_path by simp
qed

lemma reconnect_request_step:
  assumes "top (ep_pool e) \<noteq> 0"
  shows "\<exists>e'. reconnect_send_request e = (0, e') \<and> top (ep_pool e) \<le> Suc (top (ep_pool e')) \<and>
    ep_sess e' = (ep_sess e)\<lparr>reconnect_attempts := reconnect_attempts (ep_sess e) + 1, reconnect_start_ms := 0\<rparr>"
proof -
  let ?s = "ep_sess e"
  obtain st e1 where s: "send_control (CTRL_RECONNECT # le_bytes 8 (session_id ?s) @ le_bytes 8 (ucast (last_seq ?s) :: u64))
      (sess_addr ?s) (sess_addr_len ?s) e = (st, e1)" by fastforce
  then show ?thesis using send_control_top [OF s] send_control_sess [OF s] assms
    by (simp add: reconnect_send_request_def upd_sess_def Let_def)
qed

lemma attempts_left:
  fixes a m :: u32
  assumes "a < m"
  shows "a + 1 \<le> m" "unat (m - (a + 1)) = unat (m - a) - 1"
proof -
  have "unat m < 2 ^ LENGTH(32)" by (rule unsigned_less)
  then have l: "unat a < unat m" "unat m < 2 ^ 32" using assms by (simp_all add: word_less_nat_alt)
  then have u: "unat (a + 1) = Suc (unat a)" by (simp add: unat_word_ariths(1))
  then show le: "a + 1 \<le> m" using l by (simp add: word_le_nat_alt)
  show "unat (m - (a + 1)) = unat (m - a) - 1" using u assms le by (simp add: unat_sub)
qed

text \<open>One tick with a path down and attempts left: a request goes out, whatever the time.\<close>

lemma reconnect_tick_step:
  assumes "sess_state (ep_sess e) = SESSION_LOCKED" "any_down (ep_sess e)" "reconnect_start_ms (ep_sess e) = 0"
    and "reconnect_attempts (ep_sess e) < max_reconnect_attempts (resilience (ep_sess e))" "top (ep_pool e) \<noteq> 0"
  shows "fst (reconnect_tick now e) = 1 \<and> top (ep_pool e) \<le> Suc (top (ep_pool (snd (reconnect_tick now e)))) \<and>
    ep_sess (snd (reconnect_tick now e)) = (ep_sess e)\<lparr>reconnect_attempts := reconnect_attempts (ep_sess e) + 1\<rparr>"
proof -
  let ?e1 = "upd_sess (\<lambda>s. s\<lparr>reconnect_start_ms := now\<rparr>) e"
  obtain e' where "reconnect_send_request ?e1 = (0, e')" "top (ep_pool ?e1) \<le> Suc (top (ep_pool e'))"
    "ep_sess e' = (ep_sess ?e1)\<lparr>reconnect_attempts := reconnect_attempts (ep_sess ?e1) + 1, reconnect_start_ms := 0\<rparr>"
    using reconnect_request_step [of ?e1] assms(5) by (auto simp: upd_sess_def)
  then show ?thesis using assms by (simp add: reconnect_tick_def upd_sess_def Let_def linorder_not_less [symmetric])
qed

lemma reconnect_exhausted:
  assumes "sess_state (ep_sess e) = SESSION_LOCKED" "any_down (ep_sess e)"
    and "reconnect_attempts (ep_sess e) \<ge> max_reconnect_attempts (resilience (ep_sess e))"
  shows "fst (reconnect_tick now e) = -1 \<and> sess_state (ep_sess (snd (reconnect_tick now e))) = SESSION_IDLE \<and>
    secrets_wiped (ep_sess (snd (reconnect_tick now e)))"
  using assms by (simp add: reconnect_tick_def upd_sess_def session_zero_secrets_def secrets_wiped_def Let_def)

section \<open>Properties\<close>

text \<open>
  Heartbeats keep a session up: after a heartbeat or its acknowledgement was handled at
  time \<open>now\<close>, a tick at a time \<open>t\<close> at most three intervals and at most the reconnect timeout
  later, with no own heartbeat due, changes nothing: no path is degraded or taken down.
\<close>

theorem heartbeat_keeps_paths:
  assumes "heartbeat_handle p now e = (1, e1)"
    and "t - now \<le> ucast (heartbeat_interval_ms (resilience (ep_sess e)) * 3)" "t - now \<le> ucast (reconnect_timeout_ms (resilience (ep_sess e)))"
    and "t - last_heartbeat_ms (resilience (ep_sess e)) < ucast (heartbeat_interval_ms (resilience (ep_sess e)))"
  shows "heartbeat_tick t e1 = (0, e1)"
proof -
  let ?s = "ep_sess e"
  have e1: "ep_sess e1 = seen now ?s" by (rule heartbeat_handle_seen [OF assms(1)])
  have "\<not> ucast (heartbeat_interval_ms (resilience (seen now ?s))) \<le> t - last_heartbeat_ms (resilience (seen now ?s))"
    using assms(4) by (simp add: seen_def not_le)
  then show ?thesis using e1 tick_after_seen [OF assms(2,3)] by (simp add: heartbeat_tick_def upd_sess_def Let_def)
qed

lemma heartbeat_roundtrip_step:
  assumes A: "can_send A" "sess_state (ep_sess A) = SESSION_LOCKED" and B: "can_send B"
  shows "\<exists>A1 m1 B1 m2. heartbeat_send t A = (0, A1) \<and> queued A1 = queued A @ [m1] \<and>
    heartbeat_handle m1 t1 B = (1, B1) \<and> queued B1 = queued B @ [m2] \<and> ep_sess B1 = seen t1 (ep_sess B) \<and>
    data m2 ! 24 = CTRL_HEARTBEAT_ACK \<and> len m2 = 41 \<and> le_word (mem_read 33 8 (data m2)) = t \<and>
    last_heartbeat_ms (resilience (ep_sess A1)) = t"
proof -
  let ?s = "ep_sess A" and ?r = "seen t1 (ep_sess B)"
  have ok: "session_ok ?s" "session_ok (ep_sess B)" using A B by (simp_all add: can_send_def ep_ok_def)
  obtain e1 m1 where 1: "send_control (CTRL_HEARTBEAT # le_bytes 8 (session_id ?s) @ le_bytes 8 t) (sess_addr ?s) (sess_addr_len ?s) A = (0, e1)"
    "ep_sess e1 = ?s" "queued e1 = queued A @ [m1]"
    "addressed m1 (session_id ?s) (ep_seq A) (CTRL_HEARTBEAT # le_bytes 8 (session_id ?s) @ le_bytes 8 t) (sess_addr ?s) (sess_addr_len ?s)"
    using send_control_spec [of A "CTRL_HEARTBEAT # le_bytes 8 (session_id ?s) @ le_bytes 8 t" "sess_addr ?s" "sess_addr_len ?s"] A ok
    by (auto simp: can_send_def session_ok_def)
  note o1 = addressed_opcode [OF 1(4)] addressed_bytes [OF 1(4)]
  have a1: "length (addr m1) \<le> 32" using 1(4) by (simp add: addressed_def buf_ok_def)
  let ?B = "upd_sess (seen t1) B" and ?pl = "CTRL_HEARTBEAT_ACK # le_bytes 8 (session_id (ep_sess B)) @ le_bytes 8 t"
  have "session_ok ?r" using ok(2)
    by (auto simp: session_ok_def seen_def each_path_def Let_def resilience_ok_def path_ok_def dest: in_set_takeD in_set_dropD)
  then have "ep_ok ?B" "queued ?B = queued B" "ep_pool ?B = ep_pool B"
    using B ep_ok_sess by (simp_all add: can_send_def upd_sess_def)
  then obtain e2 m2 where 2: "send_control ?pl (addr m1) (addr_len m1) ?B = (0, e2)" "ep_sess e2 = ?r" "queued e2 = queued B @ [m2]"
    "addressed m2 (session_id (ep_sess B)) (ep_seq B) ?pl (addr m1) (addr_len m1)"
    using send_control_spec [of ?B ?pl "addr m1" "addr_len m1"] B a1
    by (auto simp: can_send_def upd_sess_def seen_def)
  note o2 = addressed_opcode [OF 2(4)] addressed_bytes [OF 2(4)]
  have "heartbeat_handle m1 t1 B = (1, e2)"
    using o1 2(1) by (simp add: heartbeat_handle_def wire_simps Let_def) (simp add: upd_sess_def seen_def)
  moreover have "heartbeat_send t A = (0, upd_sess (\<lambda>s. s\<lparr>resilience := (resilience s)\<lparr>last_heartbeat_ms := t\<rparr>\<rparr>) e1)"
    using A(2) 1(1) by (simp add: heartbeat_send_def)
  ultimately show ?thesis using 1(2,3) 2(2,3) o2 by (auto simp: upd_sess_def wire_simps)
qed

text \<open>
  A heartbeat is answered with its own time stamp: the peer marks its paths alive and
  queues an acknowledgement echoing the sender's clock, and the sender accepts it.
\<close>

theorem heartbeat_roundtrip:
  assumes "can_send A" "sess_state (ep_sess A) = SESSION_LOCKED" "can_send B"
  shows "\<exists>A1 m1 B1 m2 A2. heartbeat_send t A = (0, A1) \<and> queued A1 = queued A @ [m1] \<and>
    heartbeat_handle m1 t1 B = (1, B1) \<and> queued B1 = queued B @ [m2] \<and> le_word (mem_read 33 8 (data m2)) = t \<and>
    heartbeat_handle m2 t2 A1 = (1, A2) \<and> last_heartbeat_rx_ms (ep_sess B1) = t1 \<and> last_heartbeat_rx_ms (ep_sess A2) = t2"
proof -
  obtain A1 m1 B1 m2 where h: "heartbeat_send t A = (0, A1)" "queued A1 = queued A @ [m1]" "heartbeat_handle m1 t1 B = (1, B1)"
    "queued B1 = queued B @ [m2]" "ep_sess B1 = seen t1 (ep_sess B)" "data m2 ! 24 = CTRL_HEARTBEAT_ACK" "len m2 = 41"
    "le_word (mem_read 33 8 (data m2)) = t"
    using heartbeat_roundtrip_step [OF assms, of t t1] by blast
  have "heartbeat_handle m2 t2 A1 = (1, upd_sess (seen t2) A1)" using h(6,7) by (simp add: heartbeat_handle_def)
  then show ?thesis using h by (auto simp: upd_sess_def seen_def)
qed

lemma sample_session_ep: "ep_sess (ep_sample s) = s" "ep_pool (ep_sample s) = \<lparr>pool_mem = (\<lambda>_. buf_sample), free_stack = replicate 4096 7, top = 1\<rparr>"
  by (simp_all add: ep_sample_def)

theorem heartbeat_roundtrip_witness:
  "\<exists>A1 m1 B1 m2 A2. heartbeat_send 100 (ep_sample enc_session_sample) = (0, A1) \<and> queued A1 = [m1] \<and>
     heartbeat_handle m1 120 (ep_sample enc_session_sample) = (1, B1) \<and> queued B1 = [m2] \<and>
     heartbeat_handle m2 140 A1 = (1, A2) \<and> last_heartbeat_rx_ms (ep_sess A2) = 140"
  using heartbeat_roundtrip [OF ep_sample_can_send(1) _ ep_sample_can_send(1), of enc_session_sample enc_session_sample 100 120 140]
    enc_session_sample_ok ep_sample_can_send(2) by (auto simp: sample_session_ep)

theorem heartbeat_keeps_paths_witness:
  "\<exists>m B1. heartbeat_handle m 120 (ep_sample enc_session_sample) = (1, B1) \<and> heartbeat_tick 500 B1 = (0, B1)"
proof -
  let ?e = "ep_sample enc_session_sample"
  obtain m B1 where h: "heartbeat_handle m 120 ?e = (1, B1)"
    using heartbeat_roundtrip_step [OF ep_sample_can_send(1) _ ep_sample_can_send(1), of enc_session_sample enc_session_sample 100 120]
      enc_session_sample_ok by (auto simp: sample_session_ep)
  have r: "heartbeat_interval_ms (resilience (ep_sess ?e)) = 1000" "reconnect_timeout_ms (resilience (ep_sess ?e)) = 5000"
    "last_heartbeat_ms (resilience (ep_sess ?e)) = 0"
    by (simp_all add: ep_sample_def enc_session_sample_def session_init_def session_zero_def resilience_init_def resilience_zero_def)
  have "heartbeat_tick 500 B1 = (0, B1)" by (rule heartbeat_keeps_paths [OF h]) (simp_all add: r)
  then show ?thesis using h by blast
qed

text \<open>Data does not count as activity: a path that just received a packet goes down with the old time stamp.\<close>

lemma data_is_not_activity:
  assumes "i < RESILIENCE_MAX_PATHS" "i < length (paths r)"
    and "now - last_activity_ms (paths r ! i) > ucast (heartbeat_interval_ms r * 3)"
      "now - last_activity_ms (paths r ! i) > ucast (reconnect_timeout_ms r)"
  shows "path_state (snd (tick_path now r (paths (resilience_record_rx r i rtt) ! i))) = PATH_DOWN"
  using assms
  by (simp add: resilience_record_rx_def path_update_def tick_path_def record_rtt_def update_loss_rate_def window_put_def Let_def)

text \<open>
  Reconnection does not wait between attempts: with a path down the requests go out on
  consecutive ticks whatever the clock says, and one tick after the last attempt the session
  is dropped and its keys wiped. The 2000 ms between two attempts never pass, because sending
  a request clears the start time.
\<close>

theorem reconnect_gives_up_at_once:
  assumes "sess_state (ep_sess e) = SESSION_LOCKED" "any_down (ep_sess e)" "reconnect_start_ms (ep_sess e) = 0"
    and "reconnect_attempts (ep_sess e) \<le> max_reconnect_attempts (resilience (ep_sess e))"
    and "n = unat (max_reconnect_attempts (resilience (ep_sess e)) - reconnect_attempts (ep_sess e))" "n \<le> top (ep_pool e)"
  shows "sess_state (ep_sess (((\<lambda>e. snd (reconnect_tick now e)) ^^ Suc n) e)) = SESSION_IDLE \<and>
    secrets_wiped (ep_sess (((\<lambda>e. snd (reconnect_tick now e)) ^^ Suc n) e))"
  using assms
proof (induction n arbitrary: e)
  case 0
  then have "reconnect_attempts (ep_sess e) = max_reconnect_attempts (resilience (ep_sess e))" by (simp add: unat_eq_zero)
  then show ?case using reconnect_exhausted [of e now] 0 by simp
next
  case (Suc n)
  let ?e1 = "snd (reconnect_tick now e)"
  have lt: "reconnect_attempts (ep_sess e) < max_reconnect_attempts (resilience (ep_sess e))"
    using Suc.prems(4,5) by (cases "reconnect_attempts (ep_sess e) = max_reconnect_attempts (resilience (ep_sess e))") auto
  then have step: "ep_sess ?e1 = (ep_sess e)\<lparr>reconnect_attempts := reconnect_attempts (ep_sess e) + 1\<rparr>"
    "top (ep_pool e) \<le> Suc (top (ep_pool ?e1))"
    using reconnect_tick_step [of e now] Suc.prems by auto
  have "n = unat (max_reconnect_attempts (resilience (ep_sess ?e1)) - reconnect_attempts (ep_sess ?e1))"
    "reconnect_attempts (ep_sess ?e1) \<le> max_reconnect_attempts (resilience (ep_sess ?e1))"
    using Suc.prems(5) step(1) attempts_left [OF lt] by simp_all
  then have "sess_state (ep_sess (((\<lambda>e. snd (reconnect_tick now e)) ^^ Suc n) ?e1)) = SESSION_IDLE \<and>
      secrets_wiped (ep_sess (((\<lambda>e. snd (reconnect_tick now e)) ^^ Suc n) ?e1))"
    using Suc.prems step by (intro Suc.IH) (simp_all add: any_down_def)
  then show ?case by (simp only: funpow_Suc_right o_apply)
qed

definition down_session_sample :: session where
  "down_session_sample = enc_session_sample\<lparr>reconnect_attempts := 2,
     resilience := (resilience enc_session_sample)\<lparr>paths := map (\<lambda>p. p\<lparr>path_state := PATH_DOWN\<rparr>) (paths (resilience enc_session_sample))\<rparr>\<rparr>"

theorem reconnect_gives_up_at_once_witness:
  "sess_state (ep_sess (((\<lambda>e. snd (reconnect_tick 7 e)) ^^ Suc 1) (ep_sample down_session_sample))) = SESSION_IDLE"
proof -
  let ?s = down_session_sample
  have s: "sess_state ?s = SESSION_LOCKED" "any_down ?s" "reconnect_start_ms ?s = 0" "reconnect_attempts ?s = 2"
    "max_reconnect_attempts (resilience ?s) = 3"
    by (simp_all add: down_session_sample_def enc_session_sample_def session_init_def session_zero_def resilience_init_def
        resilience_zero_def any_down_def)
  show ?thesis
    using reconnect_gives_up_at_once [of "ep_sample ?s" 1 7] s by (simp add: sample_session_ep)
qed

text \<open>
  Port hopping needs no authentication: a PORT_HOP packet from any address passes the gate
  of a locked session and moves the peer's port to the one it names, after which (without
  multipath) the session refuses the data of its real peer.
\<close>

theorem port_hop_hijack:
  assumes "session_ok s" "sess_state s = SESSION_LOCKED" "\<not> multipath_enabled (resilience s)"
    and "channel_id v = CH_CONTROL" "data p ! 24 = CTRL_PORT_HOP" "35 \<le> len p"
    and "sin6_port (addr g) \<noteq> le_word (mem_read 25 2 (data p))" "channel_id u \<noteq> CH_CONTROL"
  shows "fst (session_check s p v) = 0 \<and>
    (\<exists>s'. port_hop_handle p s = (1, s') \<and> sin6_port (sess_addr s') = le_word (mem_read 25 2 (data p)) \<and>
       sess_state s' = SESSION_LOCKED \<and> keys s' = keys s \<and> fst (session_check s' g u) = -1)"
proof -
  let ?port = "le_word (mem_read 25 2 (data p)) :: u16"
  let ?new = "set_sin6_port ?port (take SOCKADDR_IN6_SIZE (sess_addr s))"
  have l: "length (sess_addr s) = 32" "length ?new = 28"
    using assms(1) by (simp_all add: session_ok_def sin6_set_port(4))
  obtain s' where h: "port_hop_handle p s = (1, s')" "sess_addr s' = mem_write 0 ?new (sess_addr s)" "sess_state s' = SESSION_LOCKED"
    "keys s' = keys s" "\<not> multipath_enabled (resilience s')"
    using assms(2,3,5,6) by (simp add: port_hop_handle_def session_register_path_def Let_def)
  have "mem_read 2 2 (mem_write 0 ?new (sess_addr s)) = mem_read 2 2 ?new"
    using l by (simp add: mem_write_def mem_read_def)
  then have port: "sin6_port (sess_addr s') = ?port"
    using h(2) sin6_set_port(1) [of "take SOCKADDR_IN6_SIZE (sess_addr s)" ?port] l by (simp add: sin6_port_def)
  have "fst (session_check s' g u) = -1"
    using h(3,5) port assms(7,8) by (auto simp: session_check_def)
  then show ?thesis using h port assms(2,4) by (simp add: session_check_def Let_def)
qed

definition hop_sample :: packet_buf where
  "hop_sample = write_packet 0 0 CH_CONTROL 1 (CTRL_PORT_HOP # le_bytes 2 (htons 4000) @ le_bytes 8 (0 :: u64)) buf_sample"

theorem port_hop_hijack_witness:
  "\<exists>s'. port_hop_handle hop_sample enc_session_sample = (1, s') \<and> sin6_port (sess_addr s') = htons 4000 \<and>
     fst (session_check s' buf_sample video_view_sample) = -1"
proof -
  let ?pl = "CTRL_PORT_HOP # le_bytes 2 (htons 4000) @ le_bytes 8 (0 :: u64)"
  have a: "addressed (set_dest [] 0 hop_sample) 0 1 ?pl [] 0"
    unfolding hop_sample_def by (rule addressed_write [OF buf_sample_ok]) simp_all
  have d: "data hop_sample ! 24 = CTRL_PORT_HOP" "mem_read 25 2 (data hop_sample) = le_bytes 2 (htons 4000)" "len hop_sample = 35"
    using addressed_opcode(1,2) [OF a] addressed_bytes(1) [OF a] by (simp_all add: set_dest_def)
  have "htons 4000 = 40975" by (simp add: htons_def)
  moreover have "sin6_port (addr buf_sample) = 0" by (simp add: buf_sample_def sin6_port_def mem_read_def eval_nat_numeral)
  ultimately have "sin6_port (addr buf_sample) \<noteq> le_word (mem_read 25 2 (data hop_sample))"
    using d(2) by (simp add: wire_simps)
  moreover have "\<not> multipath_enabled (resilience enc_session_sample)"
    by (simp add: enc_session_sample_def session_init_def session_zero_def resilience_init_def resilience_zero_def)
  moreover have "channel_id video_view_sample \<noteq> CH_CONTROL" by (simp add: video_view_sample_def)
  ultimately show ?thesis
    using port_hop_hijack [OF enc_session_sample_ok, of "video_view_sample\<lparr>channel_id := CH_CONTROL\<rparr>" hop_sample buf_sample video_view_sample] d
    by (auto simp: wire_simps)
qed

end
