(* ===== verification/Keyed_Table.thy ===== *)
theory Keyed_Table
  imports Filters
begin

text \<open>
  The contract of the small fixed-size tables (routes, peers, room members): a finite map of
  bounded size. \<open>keyed_table\<close> has lookup and insertion, \<open>keyed_table_del\<close> also deletion. An
  insertion of a known key updates its entry; of a new key it takes a free slot or fails
  when the table is full. \<open>good k v x\<close> says that entry \<open>x\<close> is what storing \<open>v\<close> under \<open>k\<close> leaves.
\<close>

text \<open>\<open>snprintf(dst, n, "%s", s)\<close> keeps at most \<open>n - 1\<close> characters.\<close>

definition snprintf :: "nat \<Rightarrow> string \<Rightarrow> string" where
  "snprintf n s = take (n - 1) s"

lemma snprintf_short [simp]: "length s < n \<Longrightarrow> snprintf n s = s"
  by (simp add: snprintf_def)

lemma map_upd_card:
  "\<lbrakk> finite (dom m); m k = None \<rbrakk> \<Longrightarrow> card (dom (m(k \<mapsto> x))) = Suc (card (dom m))"
  by (simp add: card_insert_if domIff)

section \<open>Lists of entries with distinct keys\<close>

text \<open>The map a list of entries stands for, and how the updates of the C code change it.\<close>

definition kfind :: "('e \<Rightarrow> 'k) \<Rightarrow> 'e list \<Rightarrow> 'k \<Rightarrow> 'e option" where
  "kfind key xs k = (case find_index (\<lambda>e. key e = k) xs of None \<Rightarrow> None | Some i \<Rightarrow> Some (xs ! i))"

lemma kfind_Some:
  assumes "distinct (map key xs)"
  shows "kfind key xs k = Some e \<longleftrightarrow> e \<in> set xs \<and> key e = k"
proof
  assume "kfind key xs k = Some e"
  then show "e \<in> set xs \<and> key e = k" by (auto simp: kfind_def split: option.splits dest!: find_index_Some)
next
  assume e: "e \<in> set xs \<and> key e = k"
  then obtain i where "i < length xs" "xs ! i = e" by (auto simp: in_set_conv_nth)
  then show "kfind key xs k = Some e" using find_index_key [OF assms] e by (auto simp: kfind_def)
qed

lemma kfind_None: "kfind key xs k = None \<longleftrightarrow> k \<notin> key ` set xs"
  using find_index_None [of "\<lambda>e. key e = k" xs] by (auto simp: kfind_def split: option.splits)

lemma dom_kfind: "dom (kfind key xs) = key ` set xs"
proof (rule set_eqI)
  show "k \<in> dom (kfind key xs) \<longleftrightarrow> k \<in> key ` set xs" for k
    unfolding domIff kfind_None by simp
qed

lemma card_dom_kfind: "distinct (map key xs) \<Longrightarrow> finite (dom (kfind key xs)) \<and> card (dom (kfind key xs)) = length xs"
  using distinct_card [of "map key xs"] by (simp add: dom_kfind)

lemma kfind_eqI:
  assumes "distinct (map key xs)" and "\<And>k e. m k = Some e \<longleftrightarrow> e \<in> set xs \<and> key e = k"
  shows "kfind key xs = m"
proof
  show "kfind key xs k = m k" for k
    using kfind_Some [OF assms(1), of k] assms(2) [of k] by (metis option.exhaust)
qed

lemma kfind_snoc:
  assumes "distinct (map key xs)" "key x \<notin> key ` set xs"
  shows "distinct (map key (xs @ [x])) \<and> kfind key (xs @ [x]) = (kfind key xs)(key x \<mapsto> x)"
proof -
  have d: "distinct (map key (xs @ [x]))" using assms by simp
  have "((kfind key xs)(key x \<mapsto> x)) k = Some e \<longleftrightarrow> e \<in> set (xs @ [x]) \<and> key e = k" for k e
  proof (cases "k = key x")
    case True
    then have "\<not> (e \<in> set xs \<and> key e = k)" using assms(2) by (metis imageI)
    then show ?thesis using True by auto
  next
    case False
    then show ?thesis using kfind_Some [OF assms(1), of k e] by auto
  qed
  then show ?thesis using kfind_eqI [OF d] d by blast
qed

lemma kfind_update:
  assumes "distinct (map key xs)" "i < length xs" "key x = key (xs ! i)"
  shows "distinct (map key (xs[i := x])) \<and> kfind key (xs[i := x]) = (kfind key xs)(key x \<mapsto> x)"
proof -
  have "(map key xs)[i := key x] = map key xs" using assms(2,3) by (simp add: list_update_same_conv)
  then have d: "distinct (map key (xs[i := x]))" using assms(1) by (simp add: map_update)
  have s: "set (xs[i := x]) = insert x (set xs - {xs ! i})"
    using assms(1,2) by (simp add: set_update_distinct distinct_map)
  have u: "key e = key (xs ! i) \<longleftrightarrow> e = xs ! i" if "e \<in> set xs" for e
    using assms(1,2) that by (metis distinct_map inj_onD nth_mem)
  have "((kfind key xs)(key x \<mapsto> x)) k = Some e \<longleftrightarrow> e \<in> set (xs[i := x]) \<and> key e = k" for k e
    using kfind_Some [OF assms(1), of k e] u [of e] assms(3) s by auto
  then show ?thesis using kfind_eqI [OF d] d by blast
qed

lemma kfind_remove:
  assumes "distinct (map key xs)" "i < length xs" "distinct (map key ys)" "set ys = set xs - {xs ! i}"
  shows "kfind key ys = (kfind key xs)(key (xs ! i) := None)"
proof (rule kfind_eqI [OF assms(3)])
  fix k e
  have "key e = key (xs ! i) \<longleftrightarrow> e = xs ! i" if "e \<in> set xs" for e
    using assms(1,2) that by (metis distinct_map inj_onD nth_mem)
  then show "((kfind key xs)(key (xs ! i) := None)) k = Some e \<longleftrightarrow> e \<in> set ys \<and> key e = k"
    using assms(4) by (auto simp: kfind_Some [OF assms(1)])
qed

lemma kfind_remove_swap:
  assumes "distinct (map key xs)" "i < length xs"
  shows "distinct (map key (remove_swap i xs)) \<and> kfind key (remove_swap i xs) = (kfind key xs)(key (xs ! i) := None)"
proof -
  have ne: "xs \<noteq> []" using assms(2) by auto
  have d: "distinct (map key (remove_swap i xs))"
    using distinct_remove_swap [OF assms(1)] assms(2) by (simp add: map_remove_swap [OF ne])
  have "set (remove_swap i xs) = set xs - {xs ! i}" using distinct_remove_swap [of xs i] assms by (simp add: distinct_map)
  then show ?thesis using kfind_remove [OF assms d] d by simp
qed

text \<open>Removal by shifting the rest of the list one place down.\<close>

definition remove_shift :: "nat \<Rightarrow> 'a list \<Rightarrow> 'a list" where
  "remove_shift i xs = take i xs @ drop (Suc i) xs"

lemma kfind_remove_shift:
  assumes "distinct (map key xs)" "i < length xs"
  shows "distinct (map key (remove_shift i xs)) \<and> kfind key (remove_shift i xs) = (kfind key xs)(key (xs ! i) := None)"
proof -
  have xs: "xs = take i xs @ xs ! i # drop (Suc i) xs" using assms(2) by (rule id_take_nth_drop)
  have "distinct (map key (take i xs @ xs ! i # drop (Suc i) xs))" using assms(1) xs by simp
  then have d: "distinct (map key (remove_shift i xs))" "xs ! i \<notin> set (remove_shift i xs)"
    by (auto simp: remove_shift_def)
  have "set xs = insert (xs ! i) (set (remove_shift i xs))" by (subst xs) (auto simp: remove_shift_def)
  then have "set (remove_shift i xs) = set xs - {xs ! i}" using d(2) by auto
  then show ?thesis using kfind_remove [OF assms d(1)] d(1) by simp
qed

section \<open>The contract\<close>

locale keyed_table =
  fixes find :: "'t \<Rightarrow> 'k \<Rightarrow> 'e option"
    and put :: "'k \<Rightarrow> 'v \<Rightarrow> 't \<Rightarrow> int \<times> 't"
    and good :: "'k \<Rightarrow> 'v \<Rightarrow> 'e \<Rightarrow> bool"
    and valid :: "'k \<Rightarrow> bool"
    and ok :: "'t \<Rightarrow> bool"
    and cap :: nat
  assumes find_finite: "ok t \<Longrightarrow> finite (dom (find t)) \<and> card (dom (find t)) \<le> cap"
    and put_room: "\<lbrakk> ok t; valid k; find t k \<noteq> None \<or> card (dom (find t)) < cap \<rbrakk> \<Longrightarrow>
      \<exists>st t' x. put k v t = (st, t') \<and> 0 \<le> st \<and> ok t' \<and> find t' = (find t)(k \<mapsto> x) \<and> good k v x"
    and put_full: "\<lbrakk> ok t; valid k; find t k = None; card (dom (find t)) = cap \<rbrakk> \<Longrightarrow>
      \<exists>st. put k v t = (st, t) \<and> st < 0"
begin

text \<open>Insertion succeeds exactly when the key is known or there is room.\<close>

lemma put_status:
  "\<lbrakk> ok t; valid k \<rbrakk> \<Longrightarrow> 0 \<le> fst (put k v t) \<longleftrightarrow> find t k \<noteq> None \<or> card (dom (find t)) < cap"
  using put_room [of t k v] put_full [of t k v] find_finite [of t]
  by (cases "find t k \<noteq> None \<or> card (dom (find t)) < cap") fastforce+

lemma ok_put: "\<lbrakk> ok t; valid k \<rbrakk> \<Longrightarrow> ok (snd (put k v t))"
  using put_room [of t k v] put_full [of t k v] find_finite [of t]
  by (cases "find t k \<noteq> None \<or> card (dom (find t)) < cap") fastforce+

lemma find_put_other: "\<lbrakk> ok t; valid k; j \<noteq> k \<rbrakk> \<Longrightarrow> find (snd (put k v t)) j = find t j"
  using put_room [of t k v] put_full [of t k v] find_finite [of t]
  by (cases "find t k \<noteq> None \<or> card (dom (find t)) < cap") fastforce+

lemma find_put_same:
  "\<lbrakk> ok t; valid k; 0 \<le> fst (put k v t) \<rbrakk> \<Longrightarrow> \<exists>x. find (snd (put k v t)) k = Some x \<and> good k v x"
  using put_status [of t k v] put_room [of t k v] by fastforce

text \<open>A sequence of insertions: every key that fits is there in the end.\<close>

fun puts :: "('k \<times> 'v) list \<Rightarrow> 't \<Rightarrow> int list \<times> 't" where
  "puts [] t = ([], t)"
| "puts ((k, v) # xs) t =
     (let (st, t') = put k v t; (sts, t'') = puts xs t' in (st # sts, t''))"

lemma puts_all:
  "\<lbrakk> ok t; \<forall>x \<in> set xs. valid (fst x); card (dom (find t) \<union> fst ` set xs) \<le> cap; puts xs t = (sts, t') \<rbrakk> \<Longrightarrow>
   (\<forall>st \<in> set sts. 0 \<le> st) \<and> ok t' \<and> dom (find t') = dom (find t) \<union> fst ` set xs"
proof (induction xs arbitrary: t sts t')
  case (Cons x xs)
  obtain k v where x: "x = (k, v)" by fastforce
  have fin: "finite (dom (find t))" using find_finite [OF Cons.prems(1)] by simp
  have "insert k (dom (find t)) \<subseteq> dom (find t) \<union> fst ` set (x # xs)" using x by auto
  then have "card (insert k (dom (find t))) \<le> cap"
    using Cons.prems(3) card_mono [of "dom (find t) \<union> fst ` set (x # xs)"] fin by (metis finite_Un finite_imageI finite_set le_trans)
  then have room: "find t k \<noteq> None \<or> card (dom (find t)) < cap"
    using fin by (cases "find t k") (auto simp: card_insert_if domIff)
  obtain st t1 y where p: "put k v t = (st, t1)" "0 \<le> st" "ok t1" "find t1 = (find t)(k \<mapsto> y)"
    using put_room [OF Cons.prems(1) _ room] Cons.prems(2) x by fastforce
  obtain sts' where r: "puts xs t1 = (sts', t')" "sts = st # sts'"
    using Cons.prems(4) x p(1) by (auto split: prod.splits)
  have d: "dom (find t1) \<union> fst ` set xs = dom (find t) \<union> fst ` set (x # xs)" using p(4) x by auto
  show ?case using Cons.IH [OF p(3) _ _ r(1)] Cons.prems(2,3) d r(2) p(2) by simp
qed simp

end

locale keyed_table_del = keyed_table find put good valid ok cap
  for find :: "'t \<Rightarrow> 'k \<Rightarrow> 'e option"
    and put :: "'k \<Rightarrow> 'v \<Rightarrow> 't \<Rightarrow> int \<times> 't"
    and good :: "'k \<Rightarrow> 'v \<Rightarrow> 'e \<Rightarrow> bool"
    and valid :: "'k \<Rightarrow> bool"
    and ok :: "'t \<Rightarrow> bool"
    and cap :: nat +
  fixes del :: "'k \<Rightarrow> 't \<Rightarrow> int \<times> 't"
  assumes del_found: "\<lbrakk> ok t; find t k \<noteq> None \<rbrakk> \<Longrightarrow>
      \<exists>t'. del k t = (0, t') \<and> ok t' \<and> find t' = (find t)(k := None)"
    and del_missing: "\<lbrakk> ok t; find t k = None \<rbrakk> \<Longrightarrow> \<exists>st. del k t = (st, t) \<and> st < 0"
begin

lemma find_del: "ok t \<Longrightarrow> find (snd (del k t)) = (find t)(k := None)"
  using del_found [of t k] del_missing [of t k] by (cases "find t k") (fastforce simp: fun_eq_iff)+

lemma ok_del: "ok t \<Longrightarrow> ok (snd (del k t))"
  using del_found [of t k] del_missing [of t k] by (cases "find t k") fastforce+

text \<open>Deleting what was just inserted restores the map without the key.\<close>

lemma put_del: "\<lbrakk> ok t; valid k \<rbrakk> \<Longrightarrow> find (snd (del k (snd (put k v t)))) = (find t)(k := None)"
proof -
  assume t: "ok t" "valid k"
  have "find (snd (put k v t)) j = find t j" if "j \<noteq> k" for j using find_put_other [OF t that] .
  then show ?thesis using find_del [OF ok_put [OF t]] by (auto simp: fun_eq_iff)
qed

end

end
