(* ===== verification/Routing.thy ===== *)
theory Routing
  imports Endpoint Keyed_Table
begin

text \<open>
  Multi-hop forwarding: the table of known nodes (\<open>lib/relay/route_table.c\<close>) and the relay that
  unwraps a routed packet and sends its content on (\<open>lib/relay/relay.c\<close>). The table is an array
  of 16 entries with a count, so entries beyond the count keep their old contents; the
  \<open>float\<close> average of the loss rate is computed in \<^typ>\<open>rat\<close>.
\<close>

section \<open>Route table\<close>

abbreviation MAX_ROUTES :: nat where "MAX_ROUTES \<equiv> 16"

record route_entry =
  re_node_id :: u64
  re_session_id :: u64
  re_addr :: bytes
  re_addr_len :: u32
  re_loss_rate :: rat
  re_rtt_ns :: u64
  re_valid :: bool

record route_table =
  rt_entries :: "route_entry list"
  rt_count :: nat

definition route_table_init :: route_table where
  "route_table_init = \<lparr>rt_entries = replicate MAX_ROUTES \<lparr>re_node_id = 0, re_session_id = 0,
     re_addr = replicate SOCKADDR_IN6_SIZE 0, re_addr_len = 0, re_loss_rate = 0, re_rtt_ns = 0, re_valid = False\<rparr>, rt_count = 0\<rparr>"

definition route_table_find :: "route_table \<Rightarrow> u64 \<Rightarrow> nat option" where
  "route_table_find rt k = find_index (\<lambda>e. re_valid e \<and> re_node_id e = k) (take (rt_count rt) (rt_entries rt))"

text \<open>The address is only stored when the caller passes one (\<open>addr\<close> may be NULL).\<close>

definition set_route_addr :: "(bytes \<times> u32) option \<Rightarrow> route_entry \<Rightarrow> route_entry" where
  "set_route_addr a e = (case a of None \<Rightarrow> e | Some (ad, n) \<Rightarrow> e\<lparr>re_addr := ad, re_addr_len := n\<rparr>)"

definition route_table_add :: "u64 \<Rightarrow> u64 \<times> (bytes \<times> u32) option \<Rightarrow> route_table \<Rightarrow> int \<times> route_table" where
  "route_table_add k v rt =
     (let (sid, a) = v in
      if k = 0 then (-1, rt)
      else case route_table_find rt k of
        Some i \<Rightarrow>
          let e = set_route_addr a ((rt_entries rt ! i)\<lparr>re_session_id := sid\<rparr>)
          in (1, rt\<lparr>rt_entries := (rt_entries rt)[i := e\<lparr>re_loss_rate := 0, re_rtt_ns := 0\<rparr>]\<rparr>)
      | None \<Rightarrow>
          if rt_count rt \<ge> MAX_ROUTES then (-1, rt)
          else let i = rt_count rt;
                   e = set_route_addr a ((rt_entries rt ! i)\<lparr>re_node_id := k, re_session_id := sid\<rparr>)
               in (0, rt\<lparr>rt_count := i + 1, rt_entries := (rt_entries rt)[i := e\<lparr>re_loss_rate := 0, re_rtt_ns := 0, re_valid := True\<rparr>]\<rparr>))"

definition route_table_remove :: "u64 \<Rightarrow> route_table \<Rightarrow> int \<times> route_table" where
  "route_table_remove k rt =
     (case find_index (\<lambda>e. re_node_id e = k) (take (rt_count rt) (rt_entries rt)) of
        None \<Rightarrow> (-1, rt)
      | Some i \<Rightarrow>
          let es = (rt_entries rt)[i := (rt_entries rt ! i)\<lparr>re_valid := False\<rparr>]; n = rt_count rt - 1
          in (0, \<lparr>rt_entries = es[i := es ! n], rt_count = n\<rparr>))"

definition route_table_update_metrics :: "u64 \<Rightarrow> rat \<Rightarrow> u64 \<Rightarrow> route_table \<Rightarrow> route_table" where
  "route_table_update_metrics k loss rtt rt =
     (case route_table_find rt k of
        None \<Rightarrow> rt
      | Some i \<Rightarrow>
          let e = rt_entries rt ! i;
              l = (if re_loss_rate e > 0 then (re_loss_rate e * 7 + loss) / 8 else loss);
              r = (if re_rtt_ns e > 0 then (re_rtt_ns e * 7 + rtt) div 8 else rtt)
          in rt\<lparr>rt_entries := (rt_entries rt)[i := e\<lparr>re_loss_rate := l, re_rtt_ns := r\<rparr>]\<rparr>)"

section \<open>Relay\<close>

definition push_chat :: "buf_ptr \<Rightarrow> endpoint \<Rightarrow> endpoint" where
  "push_chat p e =
     (let (st, r) = ring_push (tx_chat (ep_txq e)) p
      in if st \<noteq> 0 then e\<lparr>ep_pool := pool_return p (ep_pool e)\<rparr>
         else e\<lparr>ep_txq := (ep_txq e)\<lparr>tx_chat := r\<rparr>\<rparr>)"

text \<open>
  The routed payload is the opcode, the destination node, the inner channel and the inner
  data. \<open>None\<close> is the write past the buffer of an oversized encryption.
\<close>

definition relay_forward_route ::
    "crypto_lib \<Rightarrow> packet_buf \<Rightarrow> packet_view \<Rightarrow> route_table \<Rightarrow> bytes \<Rightarrow> endpoint \<Rightarrow> (int \<times> endpoint) option" where
  "relay_forward_route L p v rt peer_addr e =
     (if plength v < 1 + 8 + 1 then Some (0, e)
      else
        let r = payload v; dest_node_id = (le_word (mem_read (r + 1) 8 (data p)) :: u64)
        in if data p ! r \<noteq> CTRL_ROUTE_DATA then Some (0, e)
           else if dest_node_id = 0 then Some (0, e)
           else case route_table_find rt dest_node_id of
             None \<Rightarrow> Some (1, e)
           | Some _ \<Rightarrow>
               let inner_channel = data p ! (r + 9);
                   inner_len = min 1024 (plength v - 1 - 8 - 1);
                   inner_data = mem_read (r + 10) inner_len (data p)
               in case pool_get (ep_pool e) of
                    (None, q) \<Rightarrow> Some (1, e\<lparr>ep_pool := q\<rparr>)
                  | (Some fwd, q) \<Rightarrow>
                      let sq = ep_seq e; e1 = e\<lparr>ep_seq := sq + 1\<rparr>;
                          b = write_packet 0 (session_id (ep_sess e)) inner_channel sq inner_data (pool_mem q fwd)
                      in case packet_parse b of
                           None \<Rightarrow> Some (1, e1\<lparr>ep_pool := pool_return fwd (buf_update fwd (\<lambda>_. b) q)\<rparr>)
                         | Some fv \<Rightarrow>
                             (case session_enc_apply L b fv (ep_sess e) of
                                None \<Rightarrow> None
                              | Some (st, b2) \<Rightarrow>
                                  if st \<noteq> 0 then Some (1, e1\<lparr>ep_pool := pool_return fwd (buf_update fwd (\<lambda>_. b2) q)\<rparr>)
                                  else Some (1, push_chat fwd (e1\<lparr>ep_pool :=
                                    buf_update fwd (\<lambda>_. set_dest (take SOCKADDR_IN6_SIZE peer_addr) SOCKADDR_IN6_SIZE b2) q\<rparr>))))"

text \<open>\<open>message\<close> is the string with its terminating zero byte.\<close>

definition relay_build_test_packet ::
    "crypto_lib \<Rightarrow> u64 \<Rightarrow> bytes \<Rightarrow> endpoint \<Rightarrow> (int \<times> buf_ptr option \<times> endpoint) option" where
  "relay_build_test_packet L dest_node_id message e =
     (case pool_get (ep_pool e) of
        (None, q) \<Rightarrow> Some (-1, None, e\<lparr>ep_pool := q\<rparr>)
      | (Some p, q) \<Rightarrow>
          let pl = CTRL_ROUTE_DATA # le_bytes 8 dest_node_id @ CH_CHAT # message;
              sq = ep_seq e; e1 = e\<lparr>ep_seq := sq + 1\<rparr>;
              b = write_packet 0 (session_id (ep_sess e)) CH_ROUTE sq pl (pool_mem q p)
          in if HEADER_SIZE + length pl > MAX_PACKET_SIZE then None
             else case packet_parse b of
               None \<Rightarrow> Some (-1, None, e1\<lparr>ep_pool := pool_return p (buf_update p (\<lambda>_. b) q)\<rparr>)
             | Some v \<Rightarrow>
                 (case session_enc_apply L b v (ep_sess e) of
                    None \<Rightarrow> None
                  | Some (st, b2) \<Rightarrow>
                      if st \<noteq> 0 then Some (-1, None, e1\<lparr>ep_pool := pool_return p (buf_update p (\<lambda>_. b2) q)\<rparr>)
                      else Some (0, Some p, e1\<lparr>ep_pool := buf_update p (\<lambda>_. b2) q\<rparr>)))"

section \<open>The route table is a finite map\<close>

definition rt_live :: "route_table \<Rightarrow> route_entry list" where
  "rt_live rt = take (rt_count rt) (rt_entries rt)"

definition rt_ok :: "route_table \<Rightarrow> bool" where
  "rt_ok rt \<longleftrightarrow> length (rt_entries rt) = MAX_ROUTES \<and> rt_count rt \<le> MAX_ROUTES \<and>
     distinct (map re_node_id (rt_live rt)) \<and> (\<forall>e \<in> set (rt_live rt). re_valid e \<and> re_node_id e \<noteq> 0)"

definition route_lookup :: "route_table \<Rightarrow> u64 \<Rightarrow> route_entry option" where
  "route_lookup rt k = map_option (\<lambda>i. rt_entries rt ! i) (route_table_find rt k)"

definition route_good :: "u64 \<Rightarrow> u64 \<times> (bytes \<times> u32) option \<Rightarrow> route_entry \<Rightarrow> bool" where
  "route_good k v x \<longleftrightarrow> re_node_id x = k \<and> re_session_id x = fst v \<and> re_loss_rate x = 0 \<and> re_rtt_ns x = 0 \<and>
     (\<forall>a n. snd v = Some (a, n) \<longrightarrow> re_addr x = a \<and> re_addr_len x = n)"

lemma rt_find_index:
  assumes "rt_ok rt"
  shows "route_table_find rt k = find_index (\<lambda>e. re_node_id e = k) (rt_live rt)"
proof -
  have "find_index (\<lambda>e. re_valid e \<and> re_node_id e = k) xs = find_index (\<lambda>e. re_node_id e = k) xs"
    if "\<forall>e \<in> set xs. re_valid e" for xs using that by (induction xs) auto
  then show ?thesis using assms by (auto simp: route_table_find_def rt_live_def rt_ok_def)
qed

lemma route_lookup_kfind: "rt_ok rt \<Longrightarrow> route_lookup rt = kfind re_node_id (rt_live rt)"
  by (rule ext) (auto simp: route_lookup_def kfind_def rt_find_index rt_live_def split: option.splits dest!: find_index_Some)

lemma rt_live_simps:
  assumes "rt_ok rt"
  shows "length (rt_live rt) = rt_count rt" "i < rt_count rt \<Longrightarrow> rt_live rt ! i = rt_entries rt ! i"
  using assms by (auto simp: rt_ok_def rt_live_def)

lemma rt_card: "rt_ok rt \<Longrightarrow> finite (dom (route_lookup rt)) \<and> card (dom (route_lookup rt)) = rt_count rt"
  using card_dom_kfind [of re_node_id "rt_live rt"] by (simp add: route_lookup_kfind rt_ok_def rt_live_def)

lemma set_route_addr_simps [simp]:
  "re_node_id (set_route_addr a e) = re_node_id e" "re_session_id (set_route_addr a e) = re_session_id e"
  "re_valid (set_route_addr a e) = re_valid e"
  by (auto simp: set_route_addr_def split: option.splits)

text \<open>Storing over entry \<open>i\<close> and appending an entry, on tables.\<close>

lemma rt_put_known:
  assumes "rt_ok rt" "route_table_find rt k = Some i" "re_node_id x = k" "re_valid x"
  shows "rt_ok (rt\<lparr>rt_entries := (rt_entries rt)[i := x]\<rparr>) \<and>
    route_lookup (rt\<lparr>rt_entries := (rt_entries rt)[i := x]\<rparr>) = (route_lookup rt)(k \<mapsto> x)"
proof -
  let ?t = "rt\<lparr>rt_entries := (rt_entries rt)[i := x]\<rparr>"
  have i: "i < length (rt_live rt)" "re_node_id (rt_live rt ! i) = k" "k \<noteq> 0"
    using find_index_Some [OF assms(2) [unfolded rt_find_index [OF assms(1)]]] assms(1) by (auto simp: rt_ok_def)
  have l: "rt_live ?t = (rt_live rt)[i := x]" by (simp add: rt_live_def take_update_swap)
  have u: "distinct (map re_node_id ((rt_live rt)[i := x])) \<and> kfind re_node_id ((rt_live rt)[i := x]) = (kfind re_node_id (rt_live rt))(k \<mapsto> x)"
    using kfind_update [of re_node_id "rt_live rt" i x] assms(1,3) i by (simp add: rt_ok_def)
  have ok: "rt_ok ?t" using assms i l u set_update_subset_insert [of "rt_live rt" i x] by (auto simp: rt_ok_def)
  then show ?thesis using u l by (simp add: route_lookup_kfind [OF ok] route_lookup_kfind [OF assms(1)])
qed

lemma rt_put_new:
  assumes "rt_ok rt" "route_table_find rt k = None" "re_node_id x = k" "re_valid x" "k \<noteq> 0" "rt_count rt < MAX_ROUTES"
  shows "rt_ok (rt\<lparr>rt_count := rt_count rt + 1, rt_entries := (rt_entries rt)[rt_count rt := x]\<rparr>) \<and>
    route_lookup (rt\<lparr>rt_count := rt_count rt + 1, rt_entries := (rt_entries rt)[rt_count rt := x]\<rparr>) = (route_lookup rt)(k \<mapsto> x)"
proof -
  let ?t = "rt\<lparr>rt_count := rt_count rt + 1, rt_entries := (rt_entries rt)[rt_count rt := x]\<rparr>"
  have n: "re_node_id x \<notin> re_node_id ` set (rt_live rt)"
    using assms(2,3) by (auto simp: rt_find_index [OF assms(1)] find_index_None)
  have l: "rt_live ?t = rt_live rt @ [x]"
    using assms(1,6) by (simp add: rt_live_def rt_ok_def take_Suc_conv_app_nth)
  have u: "distinct (map re_node_id (rt_live rt @ [x])) \<and> kfind re_node_id (rt_live rt @ [x]) = (kfind re_node_id (rt_live rt))(k \<mapsto> x)"
    using kfind_snoc [OF _ n] assms(1,3) by (simp add: rt_ok_def)
  have ok: "rt_ok ?t" using assms l u by (auto simp: rt_ok_def)
  show ?thesis using ok u unfolding route_lookup_kfind [OF ok] route_lookup_kfind [OF assms(1)] l by simp
qed

lemma route_good_set:
  "route_good k (sid, a) ((set_route_addr a (e\<lparr>re_node_id := k, re_session_id := sid\<rparr>))\<lparr>re_loss_rate := 0, re_rtt_ns := 0, re_valid := True\<rparr>)"
  "re_node_id e = k \<Longrightarrow> route_good k (sid, a) ((set_route_addr a (e\<lparr>re_session_id := sid\<rparr>))\<lparr>re_loss_rate := 0, re_rtt_ns := 0\<rparr>)"
  by (auto simp: route_good_def set_route_addr_def split: option.splits)

lemma route_add_room:
  assumes "rt_ok rt" "k \<noteq> 0" "route_lookup rt k \<noteq> None \<or> rt_count rt < MAX_ROUTES"
  shows "\<exists>st rt' x. route_table_add k v rt = (st, rt') \<and> 0 \<le> st \<and> rt_ok rt' \<and> route_lookup rt' = (route_lookup rt)(k \<mapsto> x) \<and> route_good k v x"
proof (cases "route_table_find rt k")
  case None
  then have c: "rt_count rt < MAX_ROUTES" using assms(3) by (simp add: route_lookup_def)
  then show ?thesis
    using None assms(2) rt_put_new [OF assms(1) None _ _ assms(2) c] route_good_set(1) [of k "fst v" "snd v"]
    by (auto simp: route_table_add_def Let_def split: prod.splits)
next
  case (Some i)
  then have "re_node_id (rt_entries rt ! i) = k" "re_valid (rt_entries rt ! i)"
    by (auto simp: route_table_find_def dest!: find_index_Some)
  then show ?thesis
    using Some assms(2) rt_put_known [OF assms(1) Some] route_good_set(2) [of "rt_entries rt ! i" k "fst v" "snd v"]
    by (auto simp: route_table_add_def Let_def split: prod.splits)
qed

lemma route_remove_found:
  assumes "rt_ok rt" "route_lookup rt k \<noteq> None"
  shows "\<exists>rt'. route_table_remove k rt = (0, rt') \<and> rt_ok rt' \<and> route_lookup rt' = (route_lookup rt)(k := None)"
proof -
  obtain i where f: "find_index (\<lambda>e. re_node_id e = k) (rt_live rt) = Some i"
    using assms by (auto simp: route_lookup_def rt_find_index)
  then have i: "i < length (rt_live rt)" "re_node_id (rt_live rt ! i) = k" by (auto dest: find_index_Some)
  define es where "es = (rt_entries rt)[i := (rt_entries rt ! i)\<lparr>re_valid := False\<rparr>]"
  define t where "t = \<lparr>rt_entries = es[i := es ! (rt_count rt - 1)], rt_count = rt_count rt - 1\<rparr>"
  have r: "route_table_remove k rt = (0, t)" using f by (simp add: route_table_remove_def rt_live_def t_def es_def Let_def)
  have n: "length (rt_entries rt) = MAX_ROUTES" "rt_count rt \<le> MAX_ROUTES" "i < rt_count rt" using assms(1) i by (auto simp: rt_ok_def rt_live_def)
  have ne: "take (rt_count rt) (rt_entries rt) \<noteq> []" using n by auto
  have l: "rt_live t = remove_swap i (rt_live rt)"
  proof (rule nth_equalityI)
    show "length (rt_live t) = length (remove_swap i (rt_live rt))" using n by (simp add: rt_live_def t_def es_def)
    fix j assume "j < length (rt_live t)"
    then have "j < rt_count rt - 1" by (simp add: rt_live_def t_def)
    then show "rt_live t ! j = remove_swap i (rt_live rt) ! j"
      using n by (auto simp: rt_live_def t_def es_def remove_swap_def nth_butlast nth_list_update last_conv_nth [OF ne])
  qed
  have u: "distinct (map re_node_id (rt_live t)) \<and> kfind re_node_id (rt_live t) = (kfind re_node_id (rt_live rt))(k := None)"
    using kfind_remove_swap [of re_node_id "rt_live rt" i] assms(1) i l by (simp add: rt_ok_def)
  have "set (rt_live t) \<subseteq> set (rt_live rt)" using set_remove_swap i(1) l by metis
  then have ok: "rt_ok t" using assms(1) u n by (auto simp: rt_ok_def t_def es_def)
  show ?thesis using r ok u by (simp add: route_lookup_kfind [OF ok] route_lookup_kfind [OF assms(1)])
qed

interpretation routes: keyed_table_del route_lookup route_table_add route_good "\<lambda>k. k \<noteq> 0" rt_ok MAX_ROUTES route_table_remove
proof unfold_locales
  fix t k v assume "rt_ok t" "k \<noteq> (0::u64)" "route_lookup t k = None" "card (dom (route_lookup t)) = MAX_ROUTES"
  then show "\<exists>st. route_table_add k v t = (st, t) \<and> st < 0"
    using rt_card [of t] by (auto simp: route_table_add_def route_lookup_def split: prod.splits)
next
  fix t k assume "rt_ok t" "route_lookup t k = None"
  then show "\<exists>st. route_table_remove k t = (st, t) \<and> st < 0"
    by (simp add: route_table_remove_def route_lookup_def rt_find_index rt_live_def [symmetric])
qed (use rt_card route_add_room route_remove_found in \<open>auto simp: rt_ok_def\<close>)

lemma metrics_find:
  assumes "rt_ok rt" "route_table_find rt k = Some i"
  shows "\<exists>x. route_table_update_metrics k loss rtt rt = rt\<lparr>rt_entries := (rt_entries rt)[i := x]\<rparr> \<and>
    re_node_id x = k \<and> re_valid x \<and> re_session_id x = re_session_id (rt_entries rt ! i)"
  using assms(2) find_index_Some [OF assms(2) [unfolded route_table_find_def]]
  by (auto simp: route_table_update_metrics_def Let_def)

text \<open>Any sequence of operations, on the table and on the map from node to session that it stands for.\<close>

datatype route_op = Add_Route u64 u64 "(bytes \<times> u32) option" | Remove_Route u64 | Metrics u64 rat u64

fun route_step :: "route_op \<Rightarrow> route_table \<Rightarrow> route_table" where
  "route_step (Add_Route k sid a) rt = snd (route_table_add k (sid, a) rt)"
| "route_step (Remove_Route k) rt = snd (route_table_remove k rt)"
| "route_step (Metrics k l r) rt = route_table_update_metrics k l r rt"

fun route_spec :: "route_op \<Rightarrow> (u64 \<rightharpoonup> u64) \<Rightarrow> (u64 \<rightharpoonup> u64)" where
  "route_spec (Add_Route k sid a) m = (if k \<noteq> 0 \<and> (k \<in> dom m \<or> card (dom m) < MAX_ROUTES) then m(k \<mapsto> sid) else m)"
| "route_spec (Remove_Route k) m = m(k := None)"
| "route_spec (Metrics k l r) m = m"

definition route_abs :: "route_table \<Rightarrow> u64 \<rightharpoonup> u64" where
  "route_abs rt k = map_option re_session_id (route_lookup rt k)"

lemma dom_route_abs [simp]: "dom (route_abs rt) = dom (route_lookup rt)"
  by (auto simp: route_abs_def dom_def)

lemma route_step_spec:
  assumes "rt_ok rt"
  shows "rt_ok (route_step oper rt) \<and> route_abs (route_step oper rt) = route_spec oper (route_abs rt)"
proof (cases oper)
  case (Add_Route k sid a)
  show ?thesis
  proof (cases "k \<noteq> 0 \<and> (route_lookup rt k \<noteq> None \<or> card (dom (route_lookup rt)) < MAX_ROUTES)")
    case True
    obtain st t x where "route_table_add k (sid, a) rt = (st, t)" "rt_ok t" "route_lookup t = (route_lookup rt)(k \<mapsto> x)" "route_good k (sid, a) x"
      using routes.put_room [OF assms, of k "(sid, a)"] True by blast
    moreover have "k \<in> dom (route_lookup rt) \<or> card (dom (route_lookup rt)) < MAX_ROUTES" using True by (auto simp: dom_def)
    ultimately show ?thesis using Add_Route True by (auto simp: route_abs_def route_good_def fun_eq_iff)
  next
    case False
    have "route_table_add k (sid, a) rt = (-1, rt)"
      using False rt_card [OF assms] by (auto simp: route_table_add_def route_lookup_def)
    then show ?thesis using Add_Route False assms by (auto simp: domIff)
  qed
next
  case (Remove_Route k)
  then show ?thesis using routes.find_del [OF assms, of k] routes.ok_del [OF assms, of k] by (auto simp: route_abs_def fun_eq_iff)
next
  case (Metrics k l r)
  show ?thesis
  proof (cases "route_table_find rt k")
    case None
    then show ?thesis using Metrics assms by (simp add: route_table_update_metrics_def)
  next
    case (Some i)
    then obtain x where x: "route_table_update_metrics k l r rt = rt\<lparr>rt_entries := (rt_entries rt)[i := x]\<rparr>"
      "re_node_id x = k" "re_valid x" "re_session_id x = re_session_id (rt_entries rt ! i)"
      using metrics_find [OF assms] by blast
    then show ?thesis
      using rt_put_known [OF assms Some x(2,3)] Metrics Some by (auto simp: route_abs_def fun_eq_iff route_lookup_def)
  qed
qed

lemma rt_ok_init: "rt_ok route_table_init" "route_abs route_table_init = Map.empty"
  by (auto simp: rt_ok_def route_table_init_def rt_live_def route_abs_def route_lookup_def route_table_find_def fun_eq_iff)

text \<open>
  C33: The route table refines a finite map of at most 16 nodes: after any sequence of
  \<open>route_table_add\<close>, \<open>route_table_remove\<close> and \<open>route_table_update_metrics\<close> calls the lookups are those of
  the map that the same sequence builds.
\<close>

theorem route_table_refines_map:
  "route_abs (fold route_step ops route_table_init) = fold route_spec ops Map.empty"
proof -
  have "rt_ok rt \<Longrightarrow> route_abs (fold route_step ops rt) = fold route_spec ops (route_abs rt)" for rt
    by (induction ops arbitrary: rt) (simp_all add: route_step_spec)
  then show ?thesis using rt_ok_init by metis
qed

section \<open>Relaying\<close>

text \<open>A routed payload as \<open>relay_build_test_packet\<close> lays it out.\<close>

definition routed :: "u64 \<Rightarrow> u8 \<Rightarrow> bytes \<Rightarrow> bytes" where
  "routed dest ch inner = CTRL_ROUTE_DATA # le_bytes 8 dest @ ch # inner"

lemma routed_fields:
  assumes "view_payload p v = routed dest ch inner" "plength v = 10 + length inner"
  shows "data p ! payload v = CTRL_ROUTE_DATA" "mem_read (payload v + 1) 8 (data p) = le_bytes 8 dest"
    "data p ! (payload v + 9) = ch" "mem_read (payload v + 10) (length inner) (data p) = inner"
proof -
  let ?n = "10 + length inner"
  have r: "mem_read (payload v) ?n (data p) = routed dest ch inner" using assms by (simp add: view_payload_def)
  have l: "payload v + ?n \<le> length (data p)"
    using arg_cong [OF r, of length] by (simp add: mem_simps routed_def)
  have sub: "mem_read (payload v + i) k (data p) = mem_read i k (routed dest ch inner)" if "i + k \<le> ?n" for i k
    using that mem_read_mem_read [of i k ?n "payload v" "data p"] by (simp add: r)
  have nth: "data p ! (payload v + i) = routed dest ch inner ! i" if "i < ?n" for i
    using that l nth_mem_read [of i ?n "payload v" "data p"] by (simp add: r)
  show "data p ! payload v = CTRL_ROUTE_DATA" using nth [of 0] by (simp add: routed_def)
  show "mem_read (payload v + 1) 8 (data p) = le_bytes 8 dest" using sub [of 1 8] by (simp add: routed_def mem_read_def)
  show "data p ! (payload v + 9) = ch" using nth [of 9] by (simp add: routed_def nth_append)
  show "mem_read (payload v + 10) (length inner) (data p) = inner" using sub [of 10 "length inner"] by (simp add: routed_def mem_read_def)
qed

text \<open>What becomes of a forwarded packet that \<open>pipeline_outbound_process\<close> produced in buffer \<open>f\<close>.\<close>

definition relay_send :: "buf_ptr \<Rightarrow> pool \<Rightarrow> bytes \<Rightarrow> endpoint \<Rightarrow> (int \<times> packet_buf) option \<Rightarrow> (int \<times> endpoint) option" where
  "relay_send f q peer e out =
     (case out of
        None \<Rightarrow> None
      | Some (st, b) \<Rightarrow>
          Some (1, if st \<noteq> 0 then e\<lparr>ep_pool := pool_return f (buf_update f (\<lambda>_. b) q)\<rparr>
                   else push_chat f (e\<lparr>ep_pool := buf_update f (\<lambda>_. set_dest (take SOCKADDR_IN6_SIZE peer) SOCKADDR_IN6_SIZE b) q\<rparr>)))"

lemma enc_apply_control: "channel_id v = CH_CONTROL \<Longrightarrow> session_enc_apply L b v s = Some (0, b)"
  by (simp add: session_enc_apply_def)

text \<open>Header, parse and encryption of the relay are the outbound pipeline.\<close>

lemma outbound_unfold:
  assumes "buf_ok b" "length pl \<le> 1476"
  shows "\<exists>v. packet_parse (write_packet 0 (session_id s) ch sq pl b) = Some v \<and>
    pipeline_outbound_process L b s sq ch pl =
      (case session_enc_apply L (write_packet 0 (session_id s) ch sq pl b) v s of
         None \<Rightarrow> None | Some (r, b2) \<Rightarrow> if r \<noteq> 0 then Some (-1, b2) else Some (0, b2))"
proof -
  have pl: "length pl \<le> MAX_PACKET_SIZE - HEADER_SIZE" using assms(2) by simp
  obtain v where v: "packet_parse (write_packet 0 (session_id s) ch sq pl b) = Some v" "channel_id v = ch"
    using packet_parse_write [OF assms(1) _ pl, of 0 "session_id s" ch sq] by auto
  then show ?thesis using pl enc_apply_control [of v L "write_packet 0 (session_id s) ch sq pl b" s]
    by (cases "ch = CH_CONTROL") (auto simp: pipeline_outbound_process_def Let_def)
qed

lemma relay_forward_step:
  assumes "view_payload p v = routed dest ch inner" "plength v = 10 + length inner" "length inner \<le> 1024"
    and "dest \<noteq> 0" "route_lookup rt dest \<noteq> None"
    and "pool_get (ep_pool e) = (Some f, q)" "buf_ok (pool_mem q f)"
  shows "relay_forward_route L p v rt peer e =
    relay_send f q peer (e\<lparr>ep_seq := ep_seq e + 1\<rparr>)
      (pipeline_outbound_process L (pool_mem q f) (ep_sess e) (ep_seq e) ch inner)"
proof -
  note r = routed_fields [OF assms(1,2)]
  obtain i where i: "route_table_find rt dest = Some i" using assms(5) by (auto simp: route_lookup_def)
  obtain fv where fv: "packet_parse (write_packet 0 (session_id (ep_sess e)) ch (ep_seq e) inner (pool_mem q f)) = Some fv"
    "pipeline_outbound_process L (pool_mem q f) (ep_sess e) (ep_seq e) ch inner =
      (case session_enc_apply L (write_packet 0 (session_id (ep_sess e)) ch (ep_seq e) inner (pool_mem q f)) fv (ep_sess e) of
         None \<Rightarrow> None | Some (r, b2) \<Rightarrow> if r \<noteq> 0 then Some (-1, b2) else Some (0, b2))"
    using outbound_unfold [OF assms(7), of inner "ep_sess e" ch "ep_seq e" L] assms(3) by auto
  have d: "(le_word (mem_read (Suc (payload v)) 8 (data p)) :: u64) = dest" using r(2) by (simp add: wire_simps)
  have m: "min 1024 (length inner) = length inner" using assms(3) by simp
  show ?thesis
    using assms(2,4) r d i assms(6) fv m
    by (auto simp: relay_forward_route_def relay_send_def Let_def split: option.splits)
qed

text \<open>
  Forwarding is the outbound pipeline: a routed packet for a known node is unwrapped and
  its content sent with the relay's own session, sequence number and channel exactly as
  \<open>pipeline_outbound_process\<close> builds a packet, and queued for the peer or given back to the pool. The
  address of the route entry plays no part.
\<close>

theorem relay_forward_is_outbound:
  assumes "buf_ok p" "packet_parse p = Some v" "view_payload p v = routed dest ch inner" "length inner \<le> 1024"
    and "dest \<noteq> 0" "route_lookup rt dest \<noteq> None"
    and "ep_ok e" "pool_get (ep_pool e) = (Some f, q)"
  shows "relay_forward_route L p v rt peer e =
    relay_send f q peer (e\<lparr>ep_seq := ep_seq e + 1\<rparr>)
      (pipeline_outbound_process L (pool_mem q f) (ep_sess e) (ep_seq e) ch inner)"
proof (rule relay_forward_step [OF assms(3) _ assms(4-6,8)])
  show "plength v = 10 + length inner"
    using packet_parse_bounds [OF assms(1,2)] assms(3) by (simp add: routed_def)
  show "buf_ok (pool_mem q f)" using pool_get_mem [of "ep_pool e"] assms(7,8) by (simp add: ep_ok_def)
qed

lemma set_dest_parse: "packet_parse (set_dest a n b) = packet_parse b"
  by (rule packet_parse_cong) (simp_all add: set_dest_def)

lemma set_dest_data [simp]: "data (set_dest a n b) = data b"
  by (simp add: set_dest_def)

lemma build_test_step:
  assumes L: "crypto_lib_ok L" and e: "ep_ok e" "free_bufs (ep_pool e) \<noteq> []" "sess_state (ep_sess e) = SESSION_LOCKED"
    and m: "length msg \<le> 1024"
  shows "\<exists>p e' v. relay_build_test_packet L dest msg e = Some (0, Some p, e') \<and> packet_parse (pool_mem (ep_pool e') p) = Some v \<and>
    plength v = 10 + length msg \<and>
    (\<forall>r. sess_state r = SESSION_LOCKED \<and> keys r = keys (ep_sess e) \<longrightarrow>
       (\<exists>b' v'. session_enc_check L (pool_mem (ep_pool e') p) v r = (0, b', v', r) \<and> view_payload b' v' = routed dest CH_CHAT msg))"
proof -
  obtain p q where g: "pool_get (ep_pool e) = (Some p, q)"
    using packet_pool.get_some [of "ep_pool e"] e(1,2) by (auto simp: ep_ok_def)
  have b: "buf_ok (pool_mem q p)" using pool_get_mem [of "ep_pool e"] g e(1) by (simp add: ep_ok_def)
  have pl: "length (routed dest CH_CHAT msg) \<le> 1448" "length (routed dest CH_CHAT msg) = 10 + length msg"
    using m by (simp_all add: routed_def)
  have s: "session_ok (ep_sess e)" using e(1) by (simp add: ep_ok_def)
  obtain b' v' where o: "pipeline_outbound_process L (pool_mem q p) (ep_sess e) (ep_seq e) CH_ROUTE (routed dest CH_CHAT msg) = Some (0, b')"
    "packet_parse b' = Some v'" "plength v' = length (routed dest CH_CHAT msg)"
    "\<forall>r. sess_state r = SESSION_LOCKED \<and> keys r = keys (ep_sess e) \<longrightarrow>
       (\<exists>b'' v''. session_enc_check L b' v' r = (0, b'', v'', r) \<and> view_payload b'' v'' = routed dest CH_CHAT msg)"
    using outbound_data [OF L s e(3) b _ pl(1), of CH_ROUTE "ep_seq e"] by auto
  obtain w where w: "packet_parse (write_packet 0 (session_id (ep_sess e)) CH_ROUTE (ep_seq e) (routed dest CH_CHAT msg) (pool_mem q p)) = Some w"
    "session_enc_apply L (write_packet 0 (session_id (ep_sess e)) CH_ROUTE (ep_seq e) (routed dest CH_CHAT msg) (pool_mem q p)) w (ep_sess e) = Some (0, b')"
    using outbound_unfold [OF b, of "routed dest CH_CHAT msg" "ep_sess e" CH_ROUTE "ep_seq e" L] pl(1) o(1)
    by (auto split: option.splits if_splits)
  have "relay_build_test_packet L dest msg e = Some (0, Some p, e\<lparr>ep_seq := ep_seq e + 1, ep_pool := buf_update p (\<lambda>_. b') q\<rparr>)"
    using g w m unfolding routed_def by (simp add: relay_build_test_packet_def Let_def)
  then show ?thesis using o(2-4) pl(2) by (auto simp: buf_update_def)
qed

lemma relay_queue_step:
  assumes L: "crypto_lib_ok L" and e: "ep_ok e" "free_bufs (ep_pool e) \<noteq> []" "sess_state (ep_sess e) = SESSION_LOCKED"
    and ring: "ring_ok (tx_chat (ep_txq e))" "length (ring_contents (tx_chat (ep_txq e))) < RING_SIZE - 1"
    and p: "view_payload p v = routed dest CH_CHAT msg" "plength v = 10 + length msg" "length msg \<le> 1024"
    and rt: "dest \<noteq> 0" "route_lookup rt dest \<noteq> None"
  shows "\<exists>e' f w. relay_forward_route L p v rt peer e = Some (1, e') \<and>
    ring_contents (tx_chat (ep_txq e')) = ring_contents (tx_chat (ep_txq e)) @ [f] \<and>
    packet_parse (pool_mem (ep_pool e') f) = Some w \<and> channel_id w = CH_CHAT \<and>
    (\<forall>r. sess_state r = SESSION_LOCKED \<and> keys r = keys (ep_sess e) \<longrightarrow>
       (\<exists>b' v'. session_enc_check L (pool_mem (ep_pool e') f) w r = (0, b', v', r) \<and> view_payload b' v' = msg))"
proof -
  obtain f q where g: "pool_get (ep_pool e) = (Some f, q)"
    using packet_pool.get_some [of "ep_pool e"] e(1,2) by (auto simp: ep_ok_def)
  have b: "buf_ok (pool_mem q f)" using pool_get_mem [of "ep_pool e"] g e(1) by (simp add: ep_ok_def)
  have s: "session_ok (ep_sess e)" using e(1) by (simp add: ep_ok_def)
  obtain c w where o: "pipeline_outbound_process L (pool_mem q f) (ep_sess e) (ep_seq e) CH_CHAT msg = Some (0, c)"
    "packet_parse c = Some w" "channel_id w = CH_CHAT" and
    dec: "\<forall>r. sess_state r = SESSION_LOCKED \<and> keys r = keys (ep_sess e) \<longrightarrow>
       (\<exists>b' v'. session_enc_check L c w r = (0, b', v', r) \<and> view_payload b' v' = msg)"
    using outbound_data [OF L s e(3) b, of CH_CHAT msg "ep_seq e"] p(3) by auto
  let ?d = "set_dest (take SOCKADDR_IN6_SIZE peer) SOCKADDR_IN6_SIZE c"
  have dec': "\<exists>b' v'. session_enc_check L ?d w r = (0, b', v', r) \<and> view_payload b' v' = msg"
    if k: "sess_state r = SESSION_LOCKED" "keys r = keys (ep_sess e)" for r
  proof -
    obtain b' v' where "session_enc_check L c w r = (0, b', v', r)" "view_payload b' v' = msg" using dec k by blast
    then show ?thesis using session_enc_check_cong [of c ?d L w r 0 b' v' r] by (auto simp: view_payload_def)
  qed
  obtain r where r: "ring_push (tx_chat (ep_txq e)) f = (0, r)" "ring_contents r = ring_contents (tx_chat (ep_txq e)) @ [f]"
    using spsc.push_accept [OF ring] by blast
  show ?thesis
    using relay_forward_step [OF p rt g b, of L peer] o dec' r
    by (auto simp: relay_send_def push_chat_def set_dest_parse buf_update_def)
qed

text \<open>
  C30: End to end over a relay: a message that \<open>relay_build_test_packet\<close> wraps for node \<open>dest\<close> is
  decrypted by the relay, forwarded, and waits at the end of the chat queue of the relay as a
  packet from which the next peer decrypts exactly the message.
\<close>

theorem relay_message_delivered:
  assumes "crypto_lib_ok L" and "ep_ok a" "free_bufs (ep_pool a) \<noteq> []" "sess_state (ep_sess a) = SESSION_LOCKED"
    and "ep_ok e" "free_bufs (ep_pool e) \<noteq> []" "sess_state (ep_sess e) = SESSION_LOCKED"
    and "ring_ok (tx_chat (ep_txq e))" "length (ring_contents (tx_chat (ep_txq e))) < RING_SIZE - 1"
    and "sess_state r = SESSION_LOCKED" "keys r = keys (ep_sess a)"
    and "sess_state t = SESSION_LOCKED" "keys t = keys (ep_sess e)"
    and "dest \<noteq> 0" "route_lookup rt dest \<noteq> None" "length msg \<le> 1024"
  shows "\<exists>p a' v b1 v1 e' f w c cv. relay_build_test_packet L dest msg a = Some (0, Some p, a') \<and>
    packet_parse (pool_mem (ep_pool a') p) = Some v \<and>
    session_enc_check L (pool_mem (ep_pool a') p) v r = (0, b1, v1, r) \<and>
    relay_forward_route L b1 v1 rt peer e = Some (1, e') \<and>
    ring_contents (tx_chat (ep_txq e')) = ring_contents (tx_chat (ep_txq e)) @ [f] \<and>
    packet_parse (pool_mem (ep_pool e') f) = Some w \<and> channel_id w = CH_CHAT \<and>
    session_enc_check L (pool_mem (ep_pool e') f) w t = (0, c, cv, t) \<and> view_payload c cv = msg"
proof -
  obtain p a' v b1 v1 where 1: "relay_build_test_packet L dest msg a = Some (0, Some p, a')"
    "packet_parse (pool_mem (ep_pool a') p) = Some v" "plength v = 10 + length msg"
    "session_enc_check L (pool_mem (ep_pool a') p) v r = (0, b1, v1, r)" "view_payload b1 v1 = routed dest CH_CHAT msg"
    using build_test_step [OF assms(1-4,16), of dest] assms(10,11) by blast
  have "plength v1 = 10 + length msg" using session_enc_check_frame [OF 1(4)] 1(3) by simp
  then show ?thesis
    using relay_queue_step [OF assms(1,5-9) 1(5) _ assms(16,14,15), of peer] assms(12,13) 1(1,2,4) by blast
qed

text \<open>
  The relay does not use the route it looked up: any two tables that know the same nodes
  forward every packet in the same way, whatever addresses and sessions they hold.
\<close>

theorem relay_ignores_route:
  assumes "\<And>k. route_lookup rt k = None \<longleftrightarrow> route_lookup rt' k = None"
  shows "relay_forward_route L p v rt peer e = relay_forward_route L p v rt' peer e"
proof -
  let ?k = "le_word (mem_read (Suc (payload v)) 8 (data p)) :: u64"
  have "route_table_find rt ?k = None \<longleftrightarrow> route_table_find rt' ?k = None"
    using assms [of ?k] by (simp add: route_lookup_def)
  then show ?thesis
    by (cases "route_table_find rt ?k"; cases "route_table_find rt' ?k") (simp_all add: relay_forward_route_def Let_def)
qed

section \<open>Witnesses\<close>

definition route_sample :: "u64 \<Rightarrow> route_table" where
  "route_sample sid = route_step (Add_Route 7 sid (Some (replicate 28 1, 28))) route_table_init"

lemma route_sample_lookup: "route_lookup (route_sample sid) k \<noteq> None \<longleftrightarrow> k = 7"
proof -
  have "route_abs (route_sample sid) = Map.empty(7 \<mapsto> sid)"
    using route_step_spec [OF rt_ok_init(1), of "Add_Route 7 sid (Some (replicate 28 1, 28))"] rt_ok_init(2)
    by (simp add: route_sample_def)
  then have "route_abs (route_sample sid) k \<noteq> None \<longleftrightarrow> k = 7" by simp
  then show ?thesis by (simp add: route_abs_def)
qed

lemma ep_sample_chat: "ring_ok (tx_chat (ep_txq (ep_sample s)))" "length (ring_contents (tx_chat (ep_txq (ep_sample s)))) < RING_SIZE - 1"
  by (simp_all add: ep_sample_def empty_ring_def ring_ok_def ring_contents_def ring_count_def)

lemma ep_sample_facts:
  "ep_ok (ep_sample enc_session_sample)" "free_bufs (ep_pool (ep_sample enc_session_sample)) \<noteq> []"
  "sess_state (ep_sess (ep_sample enc_session_sample)) = SESSION_LOCKED"
  using ep_sample_can_send(1) [OF enc_session_sample_ok(1)] enc_session_sample_ok(2) by (simp_all add: can_send_def ep_sample_def)

theorem relay_message_delivered_witness:
  "\<exists>p a' v b1 v1 e' f w c cv.
    relay_build_test_packet sample_lib 7 [104, 105, 0] (ep_sample enc_session_sample) = Some (0, Some p, a') \<and>
    packet_parse (pool_mem (ep_pool a') p) = Some v \<and>
    session_enc_check sample_lib (pool_mem (ep_pool a') p) v enc_session_sample = (0, b1, v1, enc_session_sample) \<and>
    relay_forward_route sample_lib b1 v1 (route_sample 3) [] (ep_sample enc_session_sample) = Some (1, e') \<and>
    packet_parse (pool_mem (ep_pool e') f) = Some w \<and>
    session_enc_check sample_lib (pool_mem (ep_pool e') f) w enc_session_sample = (0, c, cv, enc_session_sample) \<and>
    view_payload c cv = [104, 105, 0]"
proof -
  have k: "sess_state enc_session_sample = SESSION_LOCKED" "keys enc_session_sample = keys (ep_sess (ep_sample enc_session_sample))"
    using ep_sample_facts(3) by (simp_all add: ep_sample_def)
  have r: "route_lookup (route_sample 3) 7 \<noteq> None" using route_sample_lookup by simp
  have "(7::u64) \<noteq> 0" "length [104, 105, 0 :: u8] \<le> 1024" by simp_all
  then show ?thesis
    using relay_message_delivered [OF sample_lib_ok ep_sample_facts ep_sample_facts ep_sample_chat k k _ r, of "[104, 105, 0]" "[]"]
    by blast
qed

theorem relay_ignores_route_witness:
  "relay_forward_route sample_lib buf_sample video_view_sample (route_sample 3) [] (ep_sample enc_session_sample) =
   relay_forward_route sample_lib buf_sample video_view_sample (route_sample 4) [] (ep_sample enc_session_sample)"
  by (rule relay_ignores_route) (metis route_sample_lookup)

theorem relay_forward_is_outbound_witness:
  "\<exists>p v f q. view_payload p v = routed 7 CH_CHAT [104] \<and>
    relay_forward_route sample_lib p v (route_sample 3) [] (ep_sample enc_session_sample) =
    relay_send f q [] ((ep_sample enc_session_sample)\<lparr>ep_seq := ep_seq (ep_sample enc_session_sample) + 1\<rparr>)
      (pipeline_outbound_process sample_lib (pool_mem q f) (ep_sess (ep_sample enc_session_sample)) (ep_seq (ep_sample enc_session_sample)) CH_CHAT [104])"
proof -
  let ?e = "ep_sample enc_session_sample" and ?p = "write_packet 0 9 CH_ROUTE 5 (routed 7 CH_CHAT [104]) buf_sample"
  have l: "length (routed 7 CH_CHAT [104]) \<le> MAX_PACKET_SIZE - HEADER_SIZE" by (simp add: routed_def)
  obtain v where v: "packet_parse ?p = Some v" "view_payload ?p v = routed 7 CH_CHAT [104]"
    using packet_parse_write [OF buf_sample_ok _ l, of 0 9 CH_ROUTE 5] by auto
  obtain f q where g: "pool_get (ep_pool ?e) = (Some f, q)"
    using packet_pool.get_some [of "ep_pool ?e"] ep_sample_facts(1,2) by (auto simp: ep_ok_def)
  have "(7::u64) \<noteq> 0" "length [104 :: u8] \<le> 1024" by simp_all
  then show ?thesis
    using relay_forward_is_outbound [OF write_packet_ok [OF buf_sample_ok l] v _ _ _ ep_sample_facts(1) g, of "route_sample 3" sample_lib "[]"]
      route_sample_lookup [of 3 7] v(2) by blast
qed

end
