(* ===== verification/Connections.thy ===== *)
theory Connections
  imports Keyed_Table
begin

text \<open>
  The list of known peers (\<open>lib/connection/connection_manager.c\<close>): an array of 32 peers with a
  count. A peer is found by address string and port. Address strings are stored in 64 bytes
  and user names in 32; \<open>connection_manager_shutdown\<close> only resets the count, so a reused slot keeps the
  user name of its former peer.
\<close>

abbreviation MAX_PEERS :: nat where "MAX_PEERS \<equiv> 32"

datatype peer_state = PEER_IDLE | PEER_CONNECTING | PEER_HANDSHAKE | PEER_LOCKED | PEER_DISCONNECTED

record peer =
  peer_addr_str :: string
  peer_port :: u16
  peer_username :: string
  pstate :: peer_state
  peer_online :: bool
  peer_last_seen_ms :: u64

record conn_mgr =
  g_peers :: "peer list"
  g_peer_count :: nat

section \<open>Operations\<close>

definition peer_zero :: peer where
  "peer_zero = \<lparr>peer_addr_str = [], peer_port = 0, peer_username = [], pstate = PEER_IDLE, peer_online = False, peer_last_seen_ms = 0\<rparr>"

definition connection_manager_init :: conn_mgr where
  "connection_manager_init = \<lparr>g_peers = replicate MAX_PEERS peer_zero, g_peer_count = 0\<rparr>"

definition connection_manager_shutdown :: "conn_mgr \<Rightarrow> conn_mgr" where
  "connection_manager_shutdown c = c\<lparr>g_peer_count := 0\<rparr>"

definition find_peer :: "conn_mgr \<Rightarrow> string \<times> u16 \<Rightarrow> nat option" where
  "find_peer c k = find_index (\<lambda>p. peer_port p = snd k \<and> peer_addr_str p = fst k) (take (g_peer_count c) (g_peers c))"

definition update_peer :: "nat \<Rightarrow> (peer \<Rightarrow> peer) \<Rightarrow> conn_mgr \<Rightarrow> conn_mgr" where
  "update_peer i f c = c\<lparr>g_peers := (g_peers c)[i := f (g_peers c ! i)]\<rparr>"

definition with_peer :: "string \<times> u16 \<Rightarrow> (peer \<Rightarrow> peer) \<Rightarrow> conn_mgr \<Rightarrow> conn_mgr" where
  "with_peer k f c = (case find_peer c k of None \<Rightarrow> c | Some i \<Rightarrow> update_peer i f c)"

definition connection_manager_connect :: "string \<times> u16 \<Rightarrow> unit \<Rightarrow> conn_mgr \<Rightarrow> int \<times> conn_mgr" where
  "connection_manager_connect k _ c =
     (case find_peer c k of
        Some i \<Rightarrow> (0, update_peer i (\<lambda>p. p\<lparr>pstate := PEER_CONNECTING, peer_online := True\<rparr>) c)
      | None \<Rightarrow>
          if g_peer_count c \<ge> MAX_PEERS then (-1, c)
          else (0, update_peer (g_peer_count c)
                     (\<lambda>p. p\<lparr>peer_addr_str := snprintf 64 (fst k), peer_port := snd k, pstate := PEER_CONNECTING,
                            peer_online := True, peer_last_seen_ms := 0\<rparr>) (c\<lparr>g_peer_count := g_peer_count c + 1\<rparr>)))"

text \<open>The loops over all peers.\<close>

definition map_peers :: "(peer \<Rightarrow> peer) \<Rightarrow> conn_mgr \<Rightarrow> conn_mgr" where
  "map_peers f c = c\<lparr>g_peers := map f (take (g_peer_count c) (g_peers c)) @ drop (g_peer_count c) (g_peers c)\<rparr>"

definition disconnect_peer :: "peer \<Rightarrow> peer" where
  "disconnect_peer p =
     (if pstate p = PEER_LOCKED \<or> pstate p = PEER_HANDSHAKE then p\<lparr>pstate := PEER_DISCONNECTED, peer_online := False\<rparr> else p)"

definition connection_manager_disconnect :: "conn_mgr \<Rightarrow> int \<times> conn_mgr" where
  "connection_manager_disconnect c = (0, map_peers disconnect_peer c)"

definition set_peer_state :: "peer_state \<Rightarrow> peer \<Rightarrow> peer" where
  "set_peer_state st p =
     (let p = p\<lparr>pstate := st\<rparr> in if st = PEER_LOCKED \<or> st = PEER_HANDSHAKE then p\<lparr>peer_online := True\<rparr> else p)"

definition connection_manager_update_state :: "string \<times> u16 \<Rightarrow> peer_state \<Rightarrow> conn_mgr \<Rightarrow> conn_mgr" where
  "connection_manager_update_state k st = with_peer k (set_peer_state st)"

definition connection_manager_get_peers :: "conn_mgr \<Rightarrow> nat \<times> peer list" where
  "connection_manager_get_peers c = (g_peer_count c, g_peers c)"

definition connection_manager_peer_count :: "conn_mgr \<Rightarrow> nat" where
  "connection_manager_peer_count c = g_peer_count c"

definition connection_manager_set_username :: "string \<times> u16 \<Rightarrow> string \<Rightarrow> conn_mgr \<Rightarrow> conn_mgr" where
  "connection_manager_set_username k u = with_peer k (\<lambda>p. p\<lparr>peer_username := snprintf 32 u\<rparr>)"

definition stale_peer :: "u64 \<Rightarrow> u64 \<Rightarrow> peer \<Rightarrow> peer" where
  "stale_peer now_ms tmo p =
     (if peer_online p \<and> peer_last_seen_ms p > 0 \<and> now_ms - peer_last_seen_ms p > tmo \<and>
         pstate p \<noteq> PEER_LOCKED \<and> pstate p \<noteq> PEER_HANDSHAKE
      then p\<lparr>peer_online := False\<rparr> else p)"

definition connection_manager_mark_stale :: "u64 \<Rightarrow> u64 \<Rightarrow> conn_mgr \<Rightarrow> conn_mgr" where
  "connection_manager_mark_stale now_ms tmo = map_peers (stale_peer now_ms tmo)"

definition connection_manager_update_last_seen :: "string \<times> u16 \<Rightarrow> u64 \<Rightarrow> conn_mgr \<Rightarrow> conn_mgr" where
  "connection_manager_update_last_seen k now_ms = with_peer k (\<lambda>p. p\<lparr>peer_last_seen_ms := now_ms, peer_online := True\<rparr>)"

section \<open>The peers are a finite map\<close>

definition peer_key :: "peer \<Rightarrow> string \<times> u16" where
  "peer_key p = (peer_addr_str p, peer_port p)"

definition cm_live :: "conn_mgr \<Rightarrow> peer list" where
  "cm_live c = take (g_peer_count c) (g_peers c)"

definition cm_ok :: "conn_mgr \<Rightarrow> bool" where
  "cm_ok c \<longleftrightarrow> length (g_peers c) = MAX_PEERS \<and> g_peer_count c \<le> MAX_PEERS \<and> distinct (map peer_key (cm_live c)) \<and>
     (\<forall>p \<in> set (cm_live c). length (peer_addr_str p) < 64)"

definition peer_lookup :: "conn_mgr \<Rightarrow> string \<times> u16 \<Rightarrow> peer option" where
  "peer_lookup c k = map_option (\<lambda>i. g_peers c ! i) (find_peer c k)"

definition peer_good :: "string \<times> u16 \<Rightarrow> unit \<Rightarrow> peer \<Rightarrow> bool" where
  "peer_good k _ p \<longleftrightarrow> peer_key p = k \<and> pstate p = PEER_CONNECTING \<and> peer_online p"

lemma find_peer_index: "find_peer c k = find_index (\<lambda>p. peer_key p = k) (cm_live c)"
proof -
  have "(\<lambda>p. peer_port p = snd k \<and> peer_addr_str p = fst k) = (\<lambda>p. peer_key p = k)" by (auto simp: peer_key_def fun_eq_iff)
  then show ?thesis by (simp add: find_peer_def cm_live_def)
qed

lemma peer_lookup_kfind: "peer_lookup c = kfind peer_key (cm_live c)"
  by (rule ext) (auto simp: peer_lookup_def kfind_def find_peer_index cm_live_def split: option.splits dest!: find_index_Some)

lemma cm_card: "cm_ok c \<Longrightarrow> finite (dom (peer_lookup c)) \<and> card (dom (peer_lookup c)) = g_peer_count c"
  using card_dom_kfind [of peer_key "cm_live c"] by (simp add: peer_lookup_kfind cm_ok_def cm_live_def)

text \<open>Changing the found peer without its key, appending a peer and changing all peers.\<close>

lemma update_peer_known:
  assumes "cm_ok c" "find_peer c k = Some i" "\<And>p. peer_key (f p) = peer_key p"
  shows "cm_ok (update_peer i f c) \<and> (\<exists>p. peer_key p = k \<and> peer_lookup c k = Some p \<and> peer_lookup (update_peer i f c) = (peer_lookup c)(k \<mapsto> f p))"
proof -
  let ?p = "cm_live c ! i"
  have i: "i < length (cm_live c)" "peer_key ?p = k" using find_index_Some [of _ "cm_live c"] assms(2) by (auto simp: find_peer_index)
  then have p: "g_peers c ! i = ?p" by (simp add: cm_live_def)
  have l: "cm_live (update_peer i f c) = (cm_live c)[i := f ?p]" by (simp add: cm_live_def update_peer_def take_update_swap p)
  have u: "distinct (map peer_key ((cm_live c)[i := f ?p])) \<and> kfind peer_key ((cm_live c)[i := f ?p]) = (kfind peer_key (cm_live c))(k \<mapsto> f ?p)"
    using kfind_update [of peer_key "cm_live c" i "f ?p"] assms(1,3) i by (simp add: cm_ok_def)
  have "length (peer_addr_str (f ?p)) < 64"
    using assms(1) assms(3) [of ?p] i nth_mem [OF i(1)] by (auto simp: cm_ok_def peer_key_def)
  then have "cm_ok (update_peer i f c)"
    using assms(1) l u set_update_subset_insert [of "cm_live c" i "f ?p"] by (auto simp: cm_ok_def update_peer_def)
  moreover have "peer_lookup c k = Some ?p" using assms(2) p by (simp add: peer_lookup_def)
  ultimately show ?thesis using u l i(2) by (auto simp: peer_lookup_kfind)
qed

lemma connect_new:
  assumes "cm_ok c" "find_peer c k = None" "g_peer_count c < MAX_PEERS" "length (fst k) < 64"
  shows "\<exists>c' p. connection_manager_connect k v c = (0, c') \<and> cm_ok c' \<and> peer_lookup c' = (peer_lookup c)(k \<mapsto> p) \<and> peer_good k v p"
proof -
  define p where "p = (g_peers c ! g_peer_count c)\<lparr>peer_addr_str := fst k, peer_port := snd k, pstate := PEER_CONNECTING,
    peer_online := True, peer_last_seen_ms := 0\<rparr>"
  define c' where "c' = c\<lparr>g_peer_count := g_peer_count c + 1, g_peers := (g_peers c)[g_peer_count c := p]\<rparr>"
  have r: "connection_manager_connect k v c = (0, c')"
    using assms(2-4) by (simp add: connection_manager_connect_def update_peer_def c'_def p_def)
  have g: "peer_key p = k" "peer_good k v p" by (simp_all add: p_def peer_key_def peer_good_def)
  have n: "peer_key p \<notin> peer_key ` set (cm_live c)" using assms(2) g(1) by (auto simp: find_peer_index find_index_None)
  have l: "cm_live c' = cm_live c @ [p]" using assms(1,3) by (simp add: cm_live_def c'_def cm_ok_def take_Suc_conv_app_nth)
  have u: "distinct (map peer_key (cm_live c @ [p])) \<and> kfind peer_key (cm_live c @ [p]) = (kfind peer_key (cm_live c))(k \<mapsto> p)"
    using kfind_snoc [OF _ n] assms(1) g(1) by (simp add: cm_ok_def)
  have "length (g_peers c') = MAX_PEERS" "g_peer_count c' \<le> MAX_PEERS" "length (peer_addr_str p) < 64"
    using assms(1,3,4) by (simp_all add: c'_def p_def cm_ok_def)
  then have "cm_ok c'" using assms(1) l u by (auto simp: cm_ok_def)
  then show ?thesis using r u l g(2) by (auto simp: peer_lookup_kfind)
qed

lemma map_peers_spec:
  assumes "cm_ok c" "\<And>p. peer_key (f p) = peer_key p"
  shows "cm_ok (map_peers f c) \<and> peer_lookup (map_peers f c) = map_option f \<circ> peer_lookup c"
proof -
  have l: "cm_live (map_peers f c) = map f (cm_live c)" using assms(1) by (simp add: cm_live_def map_peers_def cm_ok_def)
  have a: "peer_addr_str (f p) = peer_addr_str p" for p using assms(2) [of p] by (simp add: peer_key_def)
  have "find_index (\<lambda>p. peer_key p = k) (map f xs) = find_index (\<lambda>p. peer_key p = k) xs" for k xs
    by (induction xs) (simp_all add: assms(2))
  then have "peer_lookup (map_peers f c) = map_option f \<circ> peer_lookup c"
    using l by (auto simp: peer_lookup_kfind kfind_def fun_eq_iff split: option.splits dest!: find_index_Some)
  moreover have "cm_ok (map_peers f c)" using assms l by (auto simp: cm_ok_def map_peers_def a comp_def)
  ultimately show ?thesis by simp
qed

interpretation peers: keyed_table peer_lookup connection_manager_connect peer_good "\<lambda>k. length (fst k) < 64" cm_ok MAX_PEERS
proof unfold_locales
  fix c k v
  assume a: "cm_ok c" "length (fst k) < 64" "peer_lookup c k \<noteq> None \<or> card (dom (peer_lookup c)) < MAX_PEERS"
  show "\<exists>st t' x. connection_manager_connect k v c = (st, t') \<and> 0 \<le> st \<and> cm_ok t' \<and> peer_lookup t' = (peer_lookup c)(k \<mapsto> x) \<and> peer_good k v x"
  proof (cases "find_peer c k")
    case None
    then have "g_peer_count c < MAX_PEERS" using a cm_card [OF a(1)] by (auto simp: peer_lookup_def)
    then show ?thesis using connect_new [OF a(1) None _ a(2)] by fastforce
  next
    case (Some i)
    let ?f = "\<lambda>p. p\<lparr>pstate := PEER_CONNECTING, peer_online := True\<rparr>"
    obtain p where p: "cm_ok (update_peer i ?f c)" "peer_key p = k" "peer_lookup (update_peer i ?f c) = (peer_lookup c)(k \<mapsto> ?f p)"
      using update_peer_known [OF a(1) Some, of ?f] by (auto simp: peer_key_def)
    then have "peer_good k v (?f p)" by (simp add: peer_good_def peer_key_def)
    then show ?thesis using Some p by (auto simp: connection_manager_connect_def)
  qed
next
  fix c k v
  assume "cm_ok c" "peer_lookup c k = None" "card (dom (peer_lookup c)) = MAX_PEERS"
  then show "\<exists>st. connection_manager_connect k v c = (st, c) \<and> st < 0"
    using cm_card [of c] by (auto simp: connection_manager_connect_def peer_lookup_def)
qed (use cm_card in \<open>auto simp: cm_ok_def\<close>)

section \<open>Sequences of operations\<close>

datatype conn_op = Connect "string \<times> u16" | Disconnect | Update_State "string \<times> u16" peer_state
  | Set_Username "string \<times> u16" string | Mark_Stale u64 u64 | Update_Last_Seen "string \<times> u16" u64 | Shutdown

fun conn_step :: "conn_op \<Rightarrow> conn_mgr \<Rightarrow> conn_mgr" where
  "conn_step (Connect k) c = snd (connection_manager_connect k () c)"
| "conn_step Disconnect c = snd (connection_manager_disconnect c)"
| "conn_step (Update_State k st) c = connection_manager_update_state k st c"
| "conn_step (Set_Username k u) c = connection_manager_set_username k u c"
| "conn_step (Mark_Stale now t) c = connection_manager_mark_stale now t c"
| "conn_step (Update_Last_Seen k now) c = connection_manager_update_last_seen k now c"
| "conn_step Shutdown c = connection_manager_shutdown c"

text \<open>A peer with a running or finished handshake counts as online.\<close>

definition peer_active :: "peer \<Rightarrow> bool" where
  "peer_active p \<longleftrightarrow> (pstate p = PEER_LOCKED \<or> pstate p = PEER_HANDSHAKE \<longrightarrow> peer_online p)"

definition cm_active :: "conn_mgr \<Rightarrow> bool" where
  "cm_active c \<longleftrightarrow> length (g_peers c) = MAX_PEERS \<and> g_peer_count c \<le> MAX_PEERS \<and> (\<forall>p \<in> set (cm_live c). peer_active p)"

lemma update_peer_sizes [simp]:
  "length (g_peers (update_peer i f c)) = length (g_peers c)" "g_peer_count (update_peer i f c) = g_peer_count c"
  by (simp_all add: update_peer_def)

lemma cm_active_update:
  assumes "cm_active c" "i < g_peer_count c" "\<And>p. peer_active p \<Longrightarrow> peer_active (f p)"
  shows "cm_active (update_peer i f c)"
proof -
  have "cm_live (update_peer i f c) = (cm_live c)[i := f (cm_live c ! i)]"
    using assms(2) by (simp add: cm_live_def update_peer_def take_update_swap)
  moreover have "cm_live c ! i \<in> set (cm_live c)" using assms(1,2) by (intro nth_mem) (simp add: cm_live_def cm_active_def)
  ultimately show ?thesis
    using assms(1,3) set_update_subset_insert [of "cm_live c" i] by (auto simp: cm_active_def update_peer_def)
qed

lemma cm_active_map:
  assumes "cm_active c" "\<And>p. peer_active p \<Longrightarrow> peer_active (f p)"
  shows "cm_active (map_peers f c)"
proof -
  have "cm_live (map_peers f c) = map f (cm_live c)" using assms(1) by (simp add: cm_live_def map_peers_def cm_active_def)
  then show ?thesis using assms by (auto simp: cm_active_def map_peers_def)
qed

lemma find_peer_bound: "find_peer c k = Some i \<Longrightarrow> i < g_peer_count c"
  by (auto simp: find_peer_def dest: find_index_Some)

lemma cm_active_with: "\<lbrakk> cm_active c; \<And>p. peer_active p \<Longrightarrow> peer_active (f p) \<rbrakk> \<Longrightarrow> cm_active (with_peer k f c)"
  by (auto simp: with_peer_def cm_active_update find_peer_bound split: option.splits)

lemma cm_active_connect:
  assumes "cm_active c"
  shows "cm_active (snd (connection_manager_connect k () c))"
proof (cases "find_peer c k")
  case None
  let ?n = "g_peer_count c"
  have l: "cm_live (update_peer ?n f (c\<lparr>g_peer_count := ?n + 1\<rparr>)) = cm_live c @ [f (g_peers c ! ?n)]" if "?n < MAX_PEERS" for f
    using that assms by (simp add: cm_live_def update_peer_def cm_active_def take_Suc_conv_app_nth)
  show ?thesis
  proof (cases "?n < MAX_PEERS")
    case True
    then show ?thesis using None assms l [OF True]
      by (simp add: connection_manager_connect_def cm_active_def peer_active_def)
  qed (use None assms in \<open>simp add: connection_manager_connect_def\<close>)
next
  case (Some i)
  then show ?thesis
    using cm_active_update [OF assms find_peer_bound [OF Some]] by (simp add: connection_manager_connect_def peer_active_def)
qed

lemma peer_active_steps:
  "peer_active p \<Longrightarrow> peer_active (disconnect_peer p)" "peer_active p \<Longrightarrow> peer_active (set_peer_state st p)"
  "peer_active p \<Longrightarrow> peer_active (stale_peer now tmo p)" "peer_active p \<Longrightarrow> peer_active (p\<lparr>peer_username := u\<rparr>)"
  "peer_active (p\<lparr>peer_last_seen_ms := now, peer_online := True\<rparr>)"
  by (auto simp: peer_active_def disconnect_peer_def set_peer_state_def stale_peer_def Let_def)

lemma cm_active_step: "cm_active c \<Longrightarrow> cm_active (conn_step oper c)"
  by (cases oper)
    (auto simp: cm_active_connect connection_manager_disconnect_def connection_manager_update_state_def
      connection_manager_set_username_def connection_manager_mark_stale_def connection_manager_update_last_seen_def
      intro!: cm_active_map cm_active_with peer_active_steps,
     simp add: connection_manager_shutdown_def cm_active_def cm_live_def)

interpretation conn_sys: invariant_system "\<lambda>c. c = connection_manager_init" "\<lambda>c c'. \<exists>oper. c' = conn_step oper c" cm_active
  by unfold_locales (auto simp: cm_active_step, simp add: cm_active_def connection_manager_init_def cm_live_def)

text \<open>
  In every state the connection manager can reach by calls in any order, a peer that is
  in its handshake or locked is shown online: no call that marks peers stale or
  disconnects them leaves a connected peer offline, and there are never more than 32 peers.
\<close>

theorem connected_peers_online:
  assumes "reach (\<lambda>c. c = connection_manager_init) (\<lambda>c c'. \<exists>oper. c' = conn_step oper c) c"
    and "p \<in> set (take (connection_manager_peer_count c) (snd (connection_manager_get_peers c)))"
    and "pstate p = PEER_LOCKED \<or> pstate p = PEER_HANDSHAKE"
  shows "peer_online p \<and> connection_manager_peer_count c \<le> MAX_PEERS"
  using conn_sys.reach_inv [OF assms(1)] assms(2,3)
  by (auto simp: cm_active_def cm_live_def peer_active_def connection_manager_peer_count_def connection_manager_get_peers_def)

theorem connected_peers_online_witness:
  "\<exists>c p. reach (\<lambda>c. c = connection_manager_init) (\<lambda>c c'. \<exists>oper. c' = conn_step oper c) c \<and>
     p \<in> set (take (connection_manager_peer_count c) (snd (connection_manager_get_peers c))) \<and>
     pstate p = PEER_LOCKED \<and> peer_online p"
proof -
  let ?k = "(''::1'', 9)"
  define c where "c = conn_step (Update_State ?k PEER_LOCKED) (conn_step (Connect ?k) connection_manager_init)"
  have "reach (\<lambda>c. c = connection_manager_init) (\<lambda>c c'. \<exists>oper. c' = conn_step oper c) c"
    unfolding c_def by (blast intro: reach.intros)
  moreover have "\<exists>p \<in> set (take (connection_manager_peer_count c) (snd (connection_manager_get_peers c))). pstate p = PEER_LOCKED"
    unfolding c_def by code_simp
  ultimately show ?thesis using connected_peers_online by blast
qed

text \<open>
  An address of 64 or more characters is stored truncated and never found again, so each
  connection attempt to it takes another slot.
\<close>

lemma long_address_takes_slots:
  assumes "cm_ok c" "64 \<le> length (fst k)" "g_peer_count c < MAX_PEERS"
  shows "\<exists>c'. connection_manager_connect k () c = (0, c') \<and> g_peer_count c' = g_peer_count c + 1 \<and> find_peer c' k = None"
proof -
  have no: "find_index (\<lambda>p. peer_key p = k) xs = None" if "\<forall>p \<in> set xs. length (peer_addr_str p) < 64" for xs
    using that assms(2) by (auto simp: find_index_None peer_key_def)
  then have f: "find_peer c k = None" using assms(1) by (simp add: find_peer_index cm_ok_def)
  obtain c' where c': "connection_manager_connect k () c = (0, c')" "g_peer_count c' = g_peer_count c + 1"
    "\<exists>p. cm_live c' = cm_live c @ [p] \<and> peer_addr_str p = snprintf 64 (fst k)"
    using f assms(1,3) by (auto simp: connection_manager_connect_def update_peer_def cm_live_def cm_ok_def take_Suc_conv_app_nth)
  then have "\<forall>p \<in> set (cm_live c'). length (peer_addr_str p) < 64" using assms(1) by (auto simp: cm_ok_def snprintf_def)
  then show ?thesis using c' no by (auto simp: find_peer_index)
qed

end
