(* ===== verification/Group.thy ===== *)
theory Group
  imports Keyed_Table
begin

text \<open>
  Group chat rooms (\<open>lib/group/group.c\<close>): eight rooms with up to 16 members and the last 100
  messages each. Slots of members and messages are written completely before they are counted,
  so both arrays are the lists of their live entries. Arguments that may be NULL are options,
  and the wall clock (in seconds) is an argument.
\<close>

abbreviation GROUP_NAME_MAX :: nat where "GROUP_NAME_MAX \<equiv> 32"
abbreviation GROUP_TOPIC_MAX :: nat where "GROUP_TOPIC_MAX \<equiv> 128"
abbreviation GROUP_MSG_MAX :: nat where "GROUP_MSG_MAX \<equiv> 1024"
abbreviation GROUP_MAX_MEMBERS :: nat where "GROUP_MAX_MEMBERS \<equiv> 16"
abbreviation GROUP_MAX_MSGS :: nat where "GROUP_MAX_MSGS \<equiv> 100"
abbreviation GROUP_MAX_ROOMS :: nat where "GROUP_MAX_ROOMS \<equiv> 8"

record group_member =
  gm_addr :: string
  gm_port :: u16
  gm_username :: string
  gm_online :: bool

record group_message =
  gmsg_text :: string
  gmsg_sender :: string
  gmsg_seq :: u32
  gmsg_timestamp_ms :: u64

record group_room =
  room_name :: string
  room_topic :: string
  room_active :: bool
  room_members :: "group_member list"
  room_messages :: "group_message list"
  msg_seq_counter :: u32

record groups =
  g_rooms :: "group_room list"
  g_rooms_initialized :: bool

section \<open>Rooms\<close>

definition rooms_zero :: "group_room list" where
  "rooms_zero = replicate GROUP_MAX_ROOMS \<lparr>room_name = [], room_topic = [], room_active = False,
     room_members = [], room_messages = [], msg_seq_counter = 0\<rparr>"

definition group_init :: "groups \<Rightarrow> int \<times> groups" where
  "group_init g = (if g_rooms_initialized g then (0, g) else (0, \<lparr>g_rooms = rooms_zero, g_rooms_initialized = True\<rparr>))"

definition group_find :: "string \<Rightarrow> groups \<Rightarrow> nat option" where
  "group_find name g = (if name = [] then None else find_index (\<lambda>r. room_active r \<and> room_name r = name) (g_rooms g))"

definition group_create :: "string \<Rightarrow> string option \<Rightarrow> groups \<Rightarrow> int \<times> groups" where
  "group_create name topic g =
     (if name = [] then (-1, g)
      else if \<exists>r \<in> set (g_rooms g). room_active r \<and> room_name r = name then (-2, g)
      else case find_index (\<lambda>r. \<not> room_active r) (g_rooms g) of
        Some i \<Rightarrow>
          (0, g\<lparr>g_rooms := (g_rooms g)[i := (g_rooms g ! i)\<lparr>room_name := snprintf GROUP_NAME_MAX name,
             room_topic := snprintf GROUP_TOPIC_MAX (case topic of None \<Rightarrow> [] | Some t \<Rightarrow> t), room_active := True,
             room_members := [], room_messages := [], msg_seq_counter := 0\<rparr>]\<rparr>)
      | None \<Rightarrow> (-3, g))"

text \<open>An operation on the room that \<open>group_find\<close> returns.\<close>

definition in_room :: "string \<Rightarrow> (group_room \<Rightarrow> int \<times> group_room) \<Rightarrow> groups \<Rightarrow> int \<times> groups" where
  "in_room name f g =
     (case group_find name g of
        None \<Rightarrow> (-1, g)
      | Some i \<Rightarrow> let (st, r) = f (g_rooms g ! i) in (st, g\<lparr>g_rooms := (g_rooms g)[i := r]\<rparr>))"

section \<open>Members\<close>

definition gm_key :: "group_member \<Rightarrow> string \<times> u16" where
  "gm_key m = (gm_addr m, gm_port m)"

definition room_join :: "string \<times> u16 \<Rightarrow> string option \<Rightarrow> group_room \<Rightarrow> int \<times> group_room" where
  "room_join k username r =
     (if \<exists>m \<in> set (room_members r). gm_key m = k then (0, r)
      else if length (room_members r) \<ge> GROUP_MAX_MEMBERS then (-2, r)
      else (0, r\<lparr>room_members := room_members r @
             [\<lparr>gm_addr = snprintf 64 (fst k), gm_port = snd k,
               gm_username = snprintf 32 (case username of None \<Rightarrow> fst k | Some u \<Rightarrow> u), gm_online = True\<rparr>]\<rparr>))"

definition group_join :: "string \<Rightarrow> string \<Rightarrow> u16 \<Rightarrow> string option \<Rightarrow> groups \<Rightarrow> int \<times> groups" where
  "group_join name a port username = in_room name (room_join (a, port) username)"

definition room_leave :: "string \<times> u16 \<Rightarrow> group_room \<Rightarrow> int \<times> group_room" where
  "room_leave k r =
     (case find_index (\<lambda>m. gm_key m = k) (room_members r) of
        None \<Rightarrow> (-2, r)
      | Some i \<Rightarrow> (0, r\<lparr>room_members := remove_shift i (room_members r)\<rparr>))"

definition group_leave :: "string \<Rightarrow> string \<Rightarrow> u16 \<Rightarrow> groups \<Rightarrow> int \<times> groups" where
  "group_leave name a port = in_room name (room_leave (a, port))"

definition group_add_member :: "string \<Rightarrow> string \<Rightarrow> u16 \<Rightarrow> string option \<Rightarrow> groups \<Rightarrow> int \<times> groups" where
  "group_add_member name a port username = group_join name a port username"

definition group_remove_member :: "string \<Rightarrow> string \<Rightarrow> u16 \<Rightarrow> groups \<Rightarrow> int \<times> groups" where
  "group_remove_member name a port = group_leave name a port"

section \<open>Messages\<close>

definition room_add_message :: "string option \<Rightarrow> string option \<Rightarrow> u32 \<Rightarrow> u64 \<Rightarrow> group_room \<Rightarrow> int \<times> group_room" where
  "room_add_message sender text sq now_s r =
     (let ms = (if length (room_messages r) \<ge> GROUP_MAX_MSGS then remove_shift 0 (room_messages r) else room_messages r);
          (n, c) = (if sq > 0 then (sq, msg_seq_counter r) else (msg_seq_counter r + 1, msg_seq_counter r + 1))
      in (0, r\<lparr>room_messages := ms @ [\<lparr>gmsg_text = snprintf GROUP_MSG_MAX (case text of None \<Rightarrow> [] | Some t \<Rightarrow> t),
               gmsg_sender = snprintf 32 (case sender of None \<Rightarrow> ''unknown'' | Some s \<Rightarrow> s), gmsg_seq = n,
               gmsg_timestamp_ms = now_s * 1000\<rparr>], msg_seq_counter := c\<rparr>))"

definition group_add_message :: "string \<Rightarrow> string option \<Rightarrow> string option \<Rightarrow> u32 \<Rightarrow> u64 \<Rightarrow> groups \<Rightarrow> int \<times> groups" where
  "group_add_message name sender text sq now_s = in_room name (room_add_message sender text sq now_s)"

definition group_get_rooms :: "groups \<Rightarrow> nat \<times> group_room list" where
  "group_get_rooms g = (length (filter room_active (g_rooms g)), g_rooms g)"

definition group_reset :: groups where
  "group_reset = \<lparr>g_rooms = rooms_zero, g_rooms_initialized = False\<rparr>"

section \<open>The members of a room are a finite map\<close>

definition room_ok :: "group_room \<Rightarrow> bool" where
  "room_ok r \<longleftrightarrow> length (room_members r) \<le> GROUP_MAX_MEMBERS \<and> distinct (map gm_key (room_members r)) \<and>
     length (room_messages r) \<le> GROUP_MAX_MSGS \<and> length (room_name r) < GROUP_NAME_MAX"

definition member_lookup :: "group_room \<Rightarrow> string \<times> u16 \<Rightarrow> group_member option" where
  "member_lookup r = kfind gm_key (room_members r)"

definition member_good :: "string \<times> u16 \<Rightarrow> string option \<Rightarrow> group_member \<Rightarrow> bool" where
  "member_good k u m \<longleftrightarrow> gm_key m = k"

lemma member_lookup_None: "member_lookup r k = None \<longleftrightarrow> \<not> (\<exists>m \<in> set (room_members r). gm_key m = k)"
  by (auto simp: member_lookup_def kfind_None)

interpretation members: keyed_table_del member_lookup room_join member_good "\<lambda>k. length (fst k) < 64" room_ok GROUP_MAX_MEMBERS room_leave
proof unfold_locales
  fix r assume "room_ok r"
  then show "finite (dom (member_lookup r)) \<and> card (dom (member_lookup r)) \<le> GROUP_MAX_MEMBERS"
    using card_dom_kfind [of gm_key "room_members r"] by (simp add: room_ok_def member_lookup_def)
next
  fix r k u assume a: "room_ok r" "length (fst k) < 64" "member_lookup r k \<noteq> None \<or> card (dom (member_lookup r)) < GROUP_MAX_MEMBERS"
  show "\<exists>st t' x. room_join k u r = (st, t') \<and> 0 \<le> st \<and> room_ok t' \<and> member_lookup t' = (member_lookup r)(k \<mapsto> x) \<and> member_good k u x"
  proof (cases "member_lookup r k")
    case None
    define m where "m = \<lparr>gm_addr = fst k, gm_port = snd k, gm_username = snprintf 32 (case u of None \<Rightarrow> fst k | Some u \<Rightarrow> u), gm_online = True\<rparr>"
    have c: "length (room_members r) < GROUP_MAX_MEMBERS"
      using a None card_dom_kfind [of gm_key "room_members r"] by (simp add: room_ok_def member_lookup_def)
    have n: "gm_key m \<notin> gm_key ` set (room_members r)" using None by (auto simp: member_lookup_None m_def gm_key_def)
    have "room_join k u r = (0, r\<lparr>room_members := room_members r @ [m]\<rparr>)"
      using a(2) c None by (auto simp: room_join_def member_lookup_None m_def)
    moreover have "gm_key m = k" by (simp add: m_def gm_key_def)
    ultimately show ?thesis
      using kfind_snoc [OF _ n] a(1) c by (auto simp: room_ok_def member_lookup_def member_good_def)
  next
    case (Some m)
    then have "gm_key m = k" "\<exists>m \<in> set (room_members r). gm_key m = k"
      using a(1) by (auto simp: member_lookup_def kfind_Some room_ok_def)
    then show ?thesis using Some a(1) by (auto simp: room_join_def member_good_def fun_eq_iff)
  qed
next
  fix r k u assume a: "room_ok r" "member_lookup r k = None" "card (dom (member_lookup r)) = GROUP_MAX_MEMBERS"
  then show "\<exists>st. room_join k u r = (st, r) \<and> st < 0"
    using card_dom_kfind [of gm_key "room_members r"] by (auto simp: room_join_def member_lookup_None room_ok_def member_lookup_def [symmetric])
next
  fix r k assume a: "room_ok r" "member_lookup r k \<noteq> None"
  then obtain i where i: "find_index (\<lambda>m. gm_key m = k) (room_members r) = Some i"
    by (auto simp: member_lookup_def kfind_def split: option.splits)
  then have "i < length (room_members r)" "gm_key (room_members r ! i) = k" by (auto dest: find_index_Some)
  then show "\<exists>t'. room_leave k r = (0, t') \<and> room_ok t' \<and> member_lookup t' = (member_lookup r)(k := None)"
    using i a(1) kfind_remove_shift [of gm_key "room_members r" i]
    by (auto simp: room_leave_def room_ok_def member_lookup_def) (auto simp: remove_shift_def)
next
  fix r k assume "room_ok r" "member_lookup r k = None"
  then show "\<exists>st. room_leave k r = (st, r) \<and> st < 0"
    by (auto simp: room_leave_def member_lookup_def kfind_def split: option.splits)
qed

section \<open>The invariant of the rooms\<close>

text \<open>All counts and strings fit the arrays of the structures.\<close>

definition room_fits :: "group_room \<Rightarrow> bool" where
  "room_fits r \<longleftrightarrow> length (room_name r) < GROUP_NAME_MAX \<and> length (room_topic r) < GROUP_TOPIC_MAX \<and>
     length (room_members r) \<le> GROUP_MAX_MEMBERS \<and> length (room_messages r) \<le> GROUP_MAX_MSGS \<and>
     (\<forall>m \<in> set (room_members r). length (gm_addr m) < 64 \<and> length (gm_username m) < 32) \<and>
     (\<forall>m \<in> set (room_messages r). length (gmsg_text m) < GROUP_MSG_MAX \<and> length (gmsg_sender m) < 32)"

definition group_ok :: "groups \<Rightarrow> bool" where
  "group_ok g \<longleftrightarrow> length (g_rooms g) = GROUP_MAX_ROOMS \<and> (\<forall>r \<in> set (g_rooms g). room_fits r)"

datatype group_op = Init | Create string "string option" | Join string string u16 "string option" | Leave string string u16
  | Add_Message string "string option" "string option" u32 u64 | Reset

fun group_step :: "group_op \<Rightarrow> groups \<Rightarrow> groups" where
  "group_step Init g = snd (group_init g)"
| "group_step (Create n t) g = snd (group_create n t g)"
| "group_step (Join n a p u) g = snd (group_join n a p u g)"
| "group_step (Leave n a p) g = snd (group_leave n a p g)"
| "group_step (Add_Message n s t q now) g = snd (group_add_message n s t q now g)"
| "group_step Reset g = group_reset"

lemma group_find_Some:
  "group_find name g = Some i \<Longrightarrow> i < length (g_rooms g) \<and> room_active (g_rooms g ! i) \<and> room_name (g_rooms g ! i) = name"
  by (auto simp: group_find_def split: if_splits dest: find_index_Some)

lemma snprintf_length [simp]: "0 < n \<Longrightarrow> length (snprintf n s) < n"
  by (auto simp: snprintf_def)

lemma remove_shift_sub: "set (remove_shift i xs) \<subseteq> set xs" "length (remove_shift i xs) \<le> length xs"
  by (auto simp: remove_shift_def dest: in_set_takeD in_set_dropD)

lemma group_ok_update: "\<lbrakk> group_ok g; room_fits r \<rbrakk> \<Longrightarrow> group_ok (g\<lparr>g_rooms := (g_rooms g)[i := r]\<rparr>)"
  using set_update_subset_insert [of "g_rooms g" i r] by (auto simp: group_ok_def)

lemma in_room_ok:
  assumes "group_ok g" "\<And>r. room_fits r \<Longrightarrow> room_fits (snd (f r))"
  shows "group_ok (snd (in_room name f g))"
proof (cases "group_find name g")
  case (Some i)
  then have "room_fits (g_rooms g ! i)" using assms(1) group_find_Some [OF Some] by (auto simp: group_ok_def)
  then have "room_fits (snd (f (g_rooms g ! i)))" by (rule assms(2))
  then show ?thesis using Some group_ok_update [OF assms(1)] by (auto simp: in_room_def split: prod.splits)
qed (simp add: in_room_def assms)

lemma room_join_fits: "room_fits r \<Longrightarrow> room_fits (snd (room_join k u r))"
  by (auto simp: room_join_def room_fits_def)

lemma room_leave_fits: "room_fits r \<Longrightarrow> room_fits (snd (room_leave k r))"
  using remove_shift_sub [of _ "room_members r"] by (fastforce simp: room_leave_def room_fits_def split: option.splits intro: order_trans)

lemma room_add_message_fits:
  assumes "room_fits r"
  shows "room_fits (snd (room_add_message s t q now r))"
proof -
  have "length (remove_shift 0 (room_messages r)) < GROUP_MAX_MSGS" using assms by (auto simp: remove_shift_def room_fits_def)
  then show ?thesis
    using assms remove_shift_sub(1) [of 0 "room_messages r"] by (auto simp: room_add_message_def room_fits_def Let_def)
qed

lemma rooms_zero_ok: "group_ok \<lparr>g_rooms = rooms_zero, g_rooms_initialized = b\<rparr>"
  by (simp add: group_ok_def rooms_zero_def room_fits_def)

lemma group_step_ok: "group_ok g \<Longrightarrow> group_ok (group_step oper g)"
proof (cases oper)
  case (Create n t)
  assume g: "group_ok g"
  show ?thesis
  proof (cases "find_index (\<lambda>r. \<not> room_active r) (g_rooms g)")
    case (Some i)
    show ?thesis using Create g Some by (auto simp: group_create_def intro!: group_ok_update) (auto simp: room_fits_def)
  qed (use Create g in \<open>auto simp: group_create_def\<close>)
qed (auto simp: group_join_def group_leave_def group_add_message_def group_init_def group_reset_def rooms_zero_ok
    intro!: in_room_ok room_join_fits room_leave_fits room_add_message_fits)

text \<open>
  Whatever sequence of calls is made on the rooms, there are eight rooms, and every name,
  topic, address, user name and message and the number of members and messages of each room
  fits the fixed-size array that stores it.
\<close>

theorem group_rooms_fit:
  "group_ok (fold group_step ops group_reset)"
proof -
  have "group_ok g \<Longrightarrow> group_ok (fold group_step ops g)" for g
    by (induction ops arbitrary: g) (simp_all add: group_step_ok)
  then show ?thesis using rooms_zero_ok by (simp add: group_reset_def)
qed

section \<open>The message history\<close>

text \<open>The messages of a room without a limit: sequence numbers 0 are replaced by the counter.\<close>

type_synonym post = "string option \<times> string option \<times> u32 \<times> u64"

fun history :: "u32 \<Rightarrow> post list \<Rightarrow> group_message list" where
  "history c [] = []"
| "history c ((s, t, q, now) # xs) =
     (let c' = (if q > 0 then c else c + 1) in
      \<lparr>gmsg_text = snprintf GROUP_MSG_MAX (case t of None \<Rightarrow> [] | Some t \<Rightarrow> t),
       gmsg_sender = snprintf 32 (case s of None \<Rightarrow> ''unknown'' | Some s \<Rightarrow> s),
       gmsg_seq = (if q > 0 then q else c'), gmsg_timestamp_ms = now * 1000\<rparr> # history c' xs)"

fun post_message :: "string \<Rightarrow> post \<Rightarrow> groups \<Rightarrow> groups" where
  "post_message name (s, t, q, now) g = snd (group_add_message name s t q now g)"

definition keep_last :: "nat \<Rightarrow> 'a list \<Rightarrow> 'a list" where
  "keep_last n xs = drop (length xs - n) xs"

lemma keep_last_snoc:
  "0 < n \<Longrightarrow> keep_last n (ys @ [x]) = (if length (keep_last n ys) \<ge> n then remove_shift 0 (keep_last n ys) else keep_last n ys) @ [x]"
  by (auto simp: keep_last_def remove_shift_def Suc_diff_le)

lemma group_find_same_name:
  assumes "group_find name g = Some i" "room_active r" "room_name r = name"
  shows "group_find name (g\<lparr>g_rooms := (g_rooms g)[i := r]\<rparr>) = Some i"
proof -
  have "find_index P (xs[i := r]) = Some i" if "find_index P xs = Some i" "P r" for P and xs :: "group_room list"
    using that by (induction xs arbitrary: i) (auto split: if_splits nat.splits simp: nth_Cons')
  then show ?thesis using assms by (auto simp: group_find_def split: if_splits)
qed

lemma post_message_step:
  assumes "group_find name g = Some i" "room_messages (g_rooms g ! i) = keep_last GROUP_MAX_MSGS ys"
  shows "\<exists>m. history (msg_seq_counter (g_rooms g ! i)) [x] = [m] \<and> group_find name (post_message name x g) = Some i \<and>
    room_messages (g_rooms (post_message name x g) ! i) = keep_last GROUP_MAX_MSGS (ys @ [m]) \<and>
    history (msg_seq_counter (g_rooms g ! i)) (x # xs) = m # history (msg_seq_counter (g_rooms (post_message name x g) ! i)) xs"
proof -
  obtain s t q now where x: "x = (s, t, q, now)" by (metis prod_cases4)
  let ?r = "g_rooms g ! i" and ?r' = "snd (room_add_message s t q now (g_rooms g ! i))"
  have i: "i < length (g_rooms g)" "room_active ?r" "room_name ?r = name" using group_find_Some [OF assms(1)] by auto
  have p: "post_message name x g = g\<lparr>g_rooms := (g_rooms g)[i := ?r']\<rparr>"
    using assms(1) by (simp add: x group_add_message_def in_room_def split: prod.splits)
  have r': "room_active ?r'" "room_name ?r' = name" using i by (simp_all add: room_add_message_def Let_def)
  show ?thesis
    using assms(2) i(1) group_find_same_name [OF assms(1) r'] unfolding p
    by (simp add: x room_add_message_def Let_def keep_last_snoc)
qed

text \<open>
  A room shows its last 100 messages: after any number of \<open>group_add_message\<close> calls on a fresh
  room it holds, in order, the last 100 of the messages posted, with the texts cut to 1023
  characters and the sequence numbers given by the caller or by the counter of the room.
\<close>

theorem group_message_history:
  assumes "group_find name g = Some i" "room_messages (g_rooms g ! i) = []"
  shows "group_find name (fold (post_message name) xs g) = Some i \<and>
    room_messages (g_rooms (fold (post_message name) xs g) ! i) =
      keep_last GROUP_MAX_MSGS (history (msg_seq_counter (g_rooms g ! i)) xs)"
proof -
  have "group_find name (fold (post_message name) xs g) = Some i \<and>
    room_messages (g_rooms (fold (post_message name) xs g) ! i) = keep_last GROUP_MAX_MSGS (ys @ history (msg_seq_counter (g_rooms g ! i)) xs)"
    if "group_find name g = Some i" "room_messages (g_rooms g ! i) = keep_last GROUP_MAX_MSGS ys" for ys g
    using that
  proof (induction xs arbitrary: g ys)
    case (Cons x xs)
    obtain m where m: "group_find name (post_message name x g) = Some i"
      "room_messages (g_rooms (post_message name x g) ! i) = keep_last GROUP_MAX_MSGS (ys @ [m])"
      "history (msg_seq_counter (g_rooms g ! i)) (x # xs) = m # history (msg_seq_counter (g_rooms (post_message name x g) ! i)) xs"
      using post_message_step [OF Cons.prems] by blast
    show ?case using Cons.IH [OF m(1,2)] m(3) by simp
  qed simp
  from this [of g "[]"] show ?thesis using assms by (simp add: keep_last_def)
qed

theorem group_message_history_witness:
  "let g = group_step (Create ''a'' None) group_reset; xs = [(None, Some ''hi'', 0, 5), (Some ''bob'', None, 9, 6)]
   in room_messages (g_rooms (fold (post_message ''a'') xs g) ! 0) = keep_last GROUP_MAX_MSGS (history 0 xs) \<and>
      map gmsg_seq (history 0 xs) = [1, 9]"
proof -
  let ?g = "group_step (Create ''a'' None) group_reset" and ?xs = "[(None, Some ''hi'', 0, 5), (Some ''bob'', None, 9, 6)] :: post list"
  have "group_find ''a'' ?g = Some 0" "room_messages (g_rooms ?g ! 0) = []" "msg_seq_counter (g_rooms ?g ! 0) = 0" by code_simp+
  then show ?thesis using group_message_history [of "''a''" ?g 0 ?xs] by (simp add: Let_def)
qed

text \<open>
  A room name of 32 or more characters is stored truncated: the room is created but no later
  call finds it, and creating it again takes another slot.
\<close>

lemma long_room_name_lost:
  assumes "group_ok g" "GROUP_NAME_MAX \<le> length name" "i < GROUP_MAX_ROOMS" "\<not> room_active (g_rooms g ! i)"
  shows "\<exists>g'. group_create name topic g = (0, g') \<and> group_find name g' = None \<and>
    fst (group_get_rooms g') = Suc (fst (group_get_rooms g))"
proof -
  have no: "room_name r \<noteq> name" if "group_ok h" "r \<in> set (g_rooms h)" for h r
    using that assms(2) by (auto simp: group_ok_def room_fits_def)
  have l: "length (g_rooms g) = GROUP_MAX_ROOMS" using assms(1) by (simp add: group_ok_def)
  obtain j where j: "find_index (\<lambda>r. \<not> room_active r) (g_rooms g) = Some j"
    using assms(3,4) l by (metis find_index_None not_None_eq nth_mem)
  then have jl: "j < length (g_rooms g)" "\<not> room_active (g_rooms g ! j)" by (auto dest: find_index_Some)
  have c: "\<exists>r. group_create name topic g = (0, g\<lparr>g_rooms := (g_rooms g)[j := r]\<rparr>) \<and> room_active r"
    using j assms(2) no [OF assms(1)] by (auto simp: group_create_def)
  then obtain r where r: "group_create name topic g = (0, g\<lparr>g_rooms := (g_rooms g)[j := r]\<rparr>)" "room_active r" by blast
  have "group_ok (g\<lparr>g_rooms := (g_rooms g)[j := r]\<rparr>)" using group_step_ok [OF assms(1), of "Create name topic"] r(1) by simp
  then have "group_find name (g\<lparr>g_rooms := (g_rooms g)[j := r]\<rparr>) = None" using no by (auto simp: group_find_def find_index_None)
  moreover have "length (filter room_active (xs[j := r])) = Suc (length (filter room_active xs))"
    if "j < length xs" "\<not> room_active (xs ! j)" for xs
    using that r(2) by (induction xs arbitrary: j) (auto simp: nth_Cons' split: nat.splits)
  ultimately show ?thesis using r(1) jl by (simp add: group_get_rooms_def)
qed

end
