(* ===== verification/Identity.thy ===== *)
theory Identity
  imports Keyed_Table Crypto
begin

text \<open>
  The local identity and the keys of known peers (\<open>lib/identity/identity.c\<close>): text files that are
  written with \<open>fprintf\<close> and read back with \<open>fgets\<close> and \<open>sscanf\<close>. A file system maps paths to
  texts; \<open>acc\<close> says which paths can be opened. The environment variable, random bytes and SHA-256
  are arguments. File modes and directories have no effect on the model.
\<close>

section \<open>Reading text\<close>

abbreviation newline :: char where "newline \<equiv> CHR 0x0A"

definition isspace :: "char \<Rightarrow> bool" where
  "isspace c \<longleftrightarrow> (let n = of_char c :: nat in n = 32 \<or> 9 \<le> n \<and> n \<le> 13)"

text \<open>\<open>fgets(line, n, f)\<close>: up to \<open>n - 1\<close> characters, at most up to and including a newline.\<close>

definition fgets_len :: "nat \<Rightarrow> string \<Rightarrow> nat" where
  "fgets_len n s = (let l = length (takeWhile (\<lambda>c. c \<noteq> newline) s) in min (n - 1) (if l < length s then l + 1 else l))"

lemma fgets_len_pos: "\<lbrakk> s \<noteq> []; 2 \<le> n \<rbrakk> \<Longrightarrow> 0 < fgets_len n s \<and> fgets_len n s \<le> length s"
  using length_takeWhile_le [of "\<lambda>c. c \<noteq> newline" s] by (auto simp: fgets_len_def Let_def)

function read_lines :: "nat \<Rightarrow> string \<Rightarrow> string list" where
  "read_lines n s = (if s = [] \<or> n < 2 then [] else take (fgets_len n s) s # read_lines n (drop (fgets_len n s) s))"
  by auto
termination
  by (relation "measure (\<lambda>(n, s). length s)") (simp_all add: fgets_len_pos not_less diff_less)

declare read_lines.simps [simp del]

text \<open>The conversions \<open>%n[^c]\<close>, \<open>%ns\<close> and \<open>%d\<close> of \<open>sscanf\<close>, with the rest of the input.\<close>

definition scan_until :: "nat \<Rightarrow> char \<Rightarrow> string \<Rightarrow> (string \<times> string) option" where
  "scan_until n c s = (let t = take n (takeWhile (\<lambda>x. x \<noteq> c) s) in if t = [] then None else Some (t, drop (length t) s))"

definition scan_word :: "nat \<Rightarrow> string \<Rightarrow> (string \<times> string) option" where
  "scan_word n s =
     (let r = dropWhile isspace s; t = take n (takeWhile (\<lambda>x. \<not> isspace x) r)
      in if t = [] then None else Some (t, drop (length t) r))"

definition isdigit :: "char \<Rightarrow> bool" where
  "isdigit c \<longleftrightarrow> 48 \<le> (of_char c :: nat) \<and> (of_char c :: nat) \<le> 57"

definition dec_value :: "string \<Rightarrow> nat" where
  "dec_value s = fold (\<lambda>c v. 10 * v + (of_char c - 48)) s 0"

definition scan_int :: "string \<Rightarrow> (int \<times> string) option" where
  "scan_int s =
     (let r = dropWhile isspace s;
          sg = (if r \<noteq> [] \<and> hd r = CHR ''-'' then -1 else 1);
          r1 = (if r \<noteq> [] \<and> (hd r = CHR ''-'' \<or> hd r = CHR ''+'') then tl r else r);
          ds = takeWhile isdigit r1
      in if ds = [] then None else Some (sg * int (dec_value ds), drop (length ds) r1))"

definition scan_char :: "char \<Rightarrow> string \<Rightarrow> string option" where
  "scan_char c s = (case s of [] \<Rightarrow> None | x # r \<Rightarrow> if x = c then Some r else None)"

text \<open>\<open>sscanf(line, "%63[^=]=%191s", key, val) == 2\<close>.\<close>

definition scan_key_val :: "string \<Rightarrow> (string \<times> string) option" where
  "scan_key_val line = do {
     (key, r) \<leftarrow> scan_until 63 (CHR ''='') line;
     r1 \<leftarrow> scan_char (CHR ''='') r;
     (val, _) \<leftarrow> scan_word 191 r1;
     Some (key, val)
   }"

section \<open>Printing\<close>

definition hex_char :: "nat \<Rightarrow> char" where
  "hex_char d = char_of (if d < 10 then 48 + d else 87 + d)"

definition bytes_to_hex :: "bytes \<Rightarrow> string" where
  "bytes_to_hex bs = concat (map (\<lambda>b. [hex_char (unat b div 16), hex_char (unat b mod 16)]) bs)"

fun dec :: "nat \<Rightarrow> string" where
  "dec n = (if n < 10 then [char_of (48 + n)] else dec (n div 10) @ [char_of (48 + n mod 10)])"

declare dec.simps [simp del]

text \<open>The loop of \<open>hex_to_bytes\<close> stores the bytes before the first invalid pair even when it fails.\<close>

fun hex_loop :: "string \<Rightarrow> nat \<Rightarrow> bytes \<Rightarrow> int \<times> bytes" where
  "hex_loop (c # d # s) i bs = (case strtol16 c d of None \<Rightarrow> (-1, bs) | Some v \<Rightarrow> hex_loop s (i + 1) (bs[i := of_int v]))"
| "hex_loop _ i bs = (0, bs)"

section \<open>The local identity\<close>

record identity =
  id_username :: string
  id_display_name :: string
  id_key :: bytes
  id_initialized :: bool

type_synonym text_files = "string \<rightharpoonup> string"

definition identity_zero :: identity where
  "identity_zero = \<lparr>id_username = [], id_display_name = [], id_key = replicate 32 0, id_initialized = False\<rparr>"

definition config_path :: "string \<Rightarrow> string \<Rightarrow> string" where
  "config_path dir file = snprintf 512 (dir @ ''/'' @ file)"

definition identity_text :: "identity \<Rightarrow> string" where
  "identity_text idn = ''username='' @ id_username idn @ [newline] @ ''display_name='' @ id_display_name idn @ [newline] @
     ''identity_key='' @ bytes_to_hex (id_key idn) @ [newline]"

definition save_identity :: "(string \<Rightarrow> bool) \<Rightarrow> string \<Rightarrow> identity \<Rightarrow> text_files \<Rightarrow> int \<times> text_files" where
  "save_identity acc config_dir idn tf =
     (let path = config_path config_dir ''identity.dat''
      in if \<not> acc path then (-1, tf) else (0, tf(path \<mapsto> identity_text idn)))"

text \<open>One line of the file; a bad key is stored up to its first invalid pair.\<close>

definition load_line :: "string \<Rightarrow> identity \<Rightarrow> identity" where
  "load_line line idn =
     (case scan_key_val line of
        None \<Rightarrow> idn
      | Some (key, val) \<Rightarrow>
          if key = ''username'' then idn\<lparr>id_username := snprintf 32 val\<rparr>
          else if key = ''display_name'' then idn\<lparr>id_display_name := snprintf 64 val\<rparr>
          else if key = ''identity_key'' \<and> length val = 64 then idn\<lparr>id_key := snd (hex_loop val 0 (id_key idn))\<rparr>
          else idn)"

definition load_identity :: "(string \<Rightarrow> bool) \<Rightarrow> string \<Rightarrow> text_files \<Rightarrow> identity \<Rightarrow> int \<times> identity" where
  "load_identity acc config_dir tf idn =
     (let path = config_path config_dir ''identity.dat'' in
      case (if acc path then tf path else None) of
        None \<Rightarrow> (-1, idn)
      | Some text \<Rightarrow>
          let id1 = fold load_line (read_lines 256 text) idn;
              ok = (id_username id1 \<noteq> [])
          in (if ok then 0 else -1, id1\<lparr>id_initialized := ok\<rparr>))"

definition identity_init ::
    "(string \<Rightarrow> bool) \<Rightarrow> string option \<Rightarrow> string \<Rightarrow> text_files \<Rightarrow> secure_store \<Rightarrow> int \<times> identity \<times> secure_store" where
  "identity_init acc env config_dir tf s =
     (let (ret, idn) = load_identity acc config_dir tf identity_zero
      in if ret = 0 then (ret, idn, snd (secure_store_set_key env (id_key idn) s)) else (ret, idn, s))"

definition identity_create ::
    "(string \<Rightarrow> bool) \<Rightarrow> string option \<Rightarrow> bytes \<Rightarrow> string \<Rightarrow> string \<Rightarrow> string \<Rightarrow> text_files \<Rightarrow> secure_store
     \<Rightarrow> int \<times> identity \<times> text_files \<times> secure_store" where
  "identity_create acc env rnd config_dir username display_name tf s =
     (let key = (case env of
                   None \<Rightarrow> rnd
                 | Some e \<Rightarrow> if length e = 64 \<and> fst (hex_loop e 0 (replicate 32 0)) = 0
                     then snd (hex_loop e 0 (replicate 32 0)) else rnd);
          idn = identity_zero\<lparr>id_username := snprintf 32 username, id_display_name := snprintf 64 display_name, id_key := key\<rparr>;
          s1 = snd (secure_store_set_key env key s);
          (ret, tf1) = save_identity acc config_dir idn tf
      in if ret \<noteq> 0 then (-1, idn, tf1, s1) else (0, idn\<lparr>id_initialized := True\<rparr>, tf1, s1))"

definition identity_load ::
    "(string \<Rightarrow> bool) \<Rightarrow> string option \<Rightarrow> string \<Rightarrow> text_files \<Rightarrow> secure_store \<Rightarrow> int \<times> identity \<times> secure_store" where
  "identity_load = identity_init"

definition identity_get_key :: "identity \<Rightarrow> bytes option" where
  "identity_get_key idn = (if id_initialized idn then Some (id_key idn) else None)"

definition identity_get_key_hex :: "identity \<Rightarrow> nat \<Rightarrow> (int \<times> string)" where
  "identity_get_key_hex idn buf_size = (if \<not> id_initialized idn \<or> buf_size < 65 then (-1, []) else (0, bytes_to_hex (id_key idn)))"

definition identity_get_fingerprint :: "crypto_lib \<Rightarrow> identity \<Rightarrow> nat \<Rightarrow> int \<times> string" where
  "identity_get_fingerprint L idn buf_size =
     (if \<not> id_initialized idn \<or> buf_size < 128 then (-1, [])
      else let h = sha256 L (id_key idn @ map (\<lambda>c. of_char c) (id_username idn))
           in (0, concat (map (\<lambda>i. bytes_to_hex [h ! i] @ (if i < 31 then '':'' else [])) [0..<32])))"

definition identity_import_key ::
    "(string \<Rightarrow> bool) \<Rightarrow> string option \<Rightarrow> string \<Rightarrow> string \<Rightarrow> identity \<Rightarrow> text_files \<Rightarrow> secure_store
     \<Rightarrow> int \<times> identity \<times> text_files \<times> secure_store" where
  "identity_import_key acc env config_dir hex_key idn tf s =
     (if length hex_key \<noteq> 64 then (-1, idn, tf, s)
      else let (ret, key) = hex_loop hex_key 0 (replicate 32 0) in
        if ret \<noteq> 0 then (-1, idn, tf, s)
        else let id1 = idn\<lparr>id_key := key\<rparr>;
                 s1 = snd (secure_store_set_key env key s);
                 (r, tf1) = save_identity acc config_dir id1 tf
             in (r, id1, tf1, s1))"

definition identity_export_key :: "(string \<Rightarrow> bool) \<Rightarrow> string \<Rightarrow> identity \<Rightarrow> text_files \<Rightarrow> int \<times> text_files" where
  "identity_export_key acc export_path idn tf =
     (if \<not> id_initialized idn then (-1, tf)
      else if \<not> acc export_path then (-1, tf)
      else (0, tf(export_path \<mapsto> ''# PQCOMM identity key export'' @ [newline] @ ''# username: '' @ id_username idn @ [newline] @
             ''# display_name: '' @ id_display_name idn @ [newline] @ ''identity_key='' @ bytes_to_hex (id_key idn) @ [newline])))"

text \<open>\<open>created\<close> is the printed time. The passphrase is ignored, so it is no argument.\<close>

definition identity_backup :: "(string \<Rightarrow> bool) \<Rightarrow> string \<Rightarrow> string \<Rightarrow> identity \<Rightarrow> text_files \<Rightarrow> int \<times> text_files" where
  "identity_backup acc created backup_path idn tf =
     (if \<not> id_initialized idn then (-1, tf)
      else if \<not> acc backup_path then (-1, tf)
      else (0, tf(backup_path \<mapsto> ''# PQCOMM identity backup'' @ [newline] @ ''# created: '' @ created @ [newline] @ identity_text idn)))"

definition identity_restore :: "(string \<Rightarrow> bool) \<Rightarrow> string \<Rightarrow> text_files \<Rightarrow> identity \<Rightarrow> int \<times> identity" where
  "identity_restore acc backup_path tf idn =
     (case (if acc backup_path then tf backup_path else None) of
        None \<Rightarrow> (-1, idn)
      | Some text \<Rightarrow>
          let id1 = fold (\<lambda>l i. if l \<noteq> [] \<and> hd l = CHR ''#'' then i else load_line l i) (read_lines 256 text) identity_zero;
              ok = (id_username id1 \<noteq> [] \<and> id_key id1 ! 0 \<noteq> 0)
          in (if ok then 0 else -1, id1\<lparr>id_initialized := ok\<rparr>))"

section \<open>Known hosts\<close>

definition host_line :: "string \<Rightarrow> u16 \<Rightarrow> string option \<Rightarrow> bytes \<Rightarrow> string" where
  "host_line a port username key =
     a @ '':'' @ dec (unat port) @ '' '' @ (case username of None \<Rightarrow> ''unknown'' | Some u \<Rightarrow> u) @ '' '' @ bytes_to_hex key @ [newline]"

definition known_hosts_add ::
    "(string \<Rightarrow> bool) \<Rightarrow> string \<Rightarrow> string \<Rightarrow> u16 \<Rightarrow> string option \<Rightarrow> bytes \<Rightarrow> text_files \<Rightarrow> int \<times> text_files" where
  "known_hosts_add acc config_dir a port username peer_key tf =
     (let path = config_path config_dir ''known_hosts''
      in if \<not> acc path then (-1, tf)
         else (0, tf(path \<mapsto> (case tf path of None \<Rightarrow> [] | Some t \<Rightarrow> t) @ host_line a port username peer_key)))"

text \<open>\<open>sscanf(line, "%63[^:]:%d %31s %64s", ...) == 4\<close>.\<close>

definition scan_host :: "string \<Rightarrow> (string \<times> int \<times> string) option" where
  "scan_host line = do {
     (a, r) \<leftarrow> scan_until 63 (CHR '':'') line;
     r1 \<leftarrow> scan_char (CHR '':'') r;
     (port, r2) \<leftarrow> scan_int r1;
     (user, r3) \<leftarrow> scan_word 31 r2;
     (hex, _) \<leftarrow> scan_word 64 r3;
     Some (a, port, hex)
   }"

text \<open>
  The scan for the first entry of the host with a valid key. \<open>None\<close> is the read behind the end of a
  shorter key string.
\<close>

fun check_lines :: "string list \<Rightarrow> string \<Rightarrow> u16 \<Rightarrow> bytes \<Rightarrow> int option" where
  "check_lines [] a port peer_key = Some 0"
| "check_lines (l # ls) a port peer_key =
     (if l \<noteq> [] \<and> hd l = CHR ''#'' then check_lines ls a port peer_key
      else case scan_host l of
        None \<Rightarrow> check_lines ls a port peer_key
      | Some (ea, ep, hex) \<Rightarrow>
          if ea = a \<and> ep = int (unat port) then
            (if length hex < 64 then None
             else let (ret, key) = hex_loop hex 0 (replicate 32 0)
                  in if ret = 0 then Some (if key = peer_key then 1 else -2) else check_lines ls a port peer_key)
          else check_lines ls a port peer_key)"

definition known_hosts_check :: "(string \<Rightarrow> bool) \<Rightarrow> string \<Rightarrow> string \<Rightarrow> u16 \<Rightarrow> bytes \<Rightarrow> text_files \<Rightarrow> int option" where
  "known_hosts_check acc config_dir a port peer_key tf =
     (let path = config_path config_dir ''known_hosts'' in
      case (if acc path then tf path else None) of
        None \<Rightarrow> Some (-1)
      | Some text \<Rightarrow> check_lines (read_lines 512 text) a port peer_key)"

definition known_hosts_print :: "(string \<Rightarrow> bool) \<Rightarrow> string \<Rightarrow> text_files \<Rightarrow> string" where
  "known_hosts_print acc config_dir tf =
     (let path = config_path config_dir ''known_hosts'' in
      case (if acc path then tf path else None) of
        None \<Rightarrow> ''(no known_hosts entries)'' @ [newline]
      | Some text \<Rightarrow> concat (filter (\<lambda>l. \<not> (l \<noteq> [] \<and> hd l = CHR ''#'')) (read_lines 512 text)))"

section \<open>Lines\<close>

text \<open>A complete line: text without a newline, and the newline that ends it.\<close>

definition is_line :: "nat \<Rightarrow> string \<Rightarrow> bool" where
  "is_line n l \<longleftrightarrow> (\<exists>t. l = t @ [newline] \<and> newline \<notin> set t) \<and> length l < n"

lemma fgets_len_line:
  assumes "is_line n l"
  shows "fgets_len n (l @ s) = length l"
proof -
  obtain t where t: "l = t @ [newline]" "newline \<notin> set t" using assms by (auto simp: is_line_def)
  then have "takeWhile (\<lambda>c. c \<noteq> newline) (l @ s) = t" by (auto simp: takeWhile_tail)
  then show ?thesis using assms t by (simp add: fgets_len_def is_line_def)
qed

lemma read_lines_concat:
  assumes "\<forall>l \<in> set ls. is_line n l" "2 \<le> n"
  shows "read_lines n (concat ls) = ls"
  using assms
proof (induction ls)
  case (Cons l ls)
  have "l \<noteq> []" using Cons.prems by (auto simp: is_line_def)
  then show ?case using Cons fgets_len_line [of n l "concat ls"] by (subst read_lines.simps) simp
qed (simp add: read_lines.simps)

section \<open>Round trips of the conversions\<close>

lemma scan_until_ok:
  assumes "t \<noteq> []" "c \<notin> set t" "length t \<le> n"
  shows "scan_until n c (t @ c # r) = Some (t, c # r)"
proof -
  have "takeWhile (\<lambda>x. x \<noteq> c) (t @ c # r) = t" using assms(2) by (induction t) auto
  then show ?thesis using assms(1,3) by (cases n) (auto simp: scan_until_def)
qed

lemma scan_word_ok:
  assumes "t \<noteq> []" "\<forall>c \<in> set t. \<not> isspace c" "length t \<le> n" "isspace x" "\<forall>c \<in> set w. isspace c"
  shows "scan_word n (w @ t @ x # r) = Some (t, x # r)"
proof -
  have "dropWhile isspace (w @ t @ x # r) = t @ x # r" using assms(1,2,5) by (cases t) (auto simp: dropWhile_append)
  moreover have "takeWhile (\<lambda>c. \<not> isspace c) (t @ x # r) = t" using assms(2,4) by (induction t) auto
  ultimately show ?thesis using assms(1,3) by (cases n) (auto simp: scan_word_def)
qed

lemma hex_char_digit: "d < 16 \<Longrightarrow> hex_digit (hex_char d) = Some (int d)"
proof -
  assume "d < 16"
  moreover have "\<forall>d \<in> set [0..<16]. hex_digit (hex_char d) = Some (int d)" by code_simp
  ultimately show ?thesis by simp
qed

lemma strtol16_hex: "\<lbrakk> h < 16; l < 16 \<rbrakk> \<Longrightarrow> strtol16 (hex_char h) (hex_char l) = Some (16 * int h + int l)"
  by (simp add: strtol16_def hex_char_digit Let_def)

lemma strtol16_byte:
  "\<exists>v. strtol16 (hex_char (unat (b :: u8) div 16)) (hex_char (unat b mod 16)) = Some v \<and> of_int v = b"
proof -
  have "unat b < 256" using unsigned_less [of b] by simp
  then have n: "unat b div 16 < 16" "unat b mod 16 < 16" by auto
  have "16 * int (unat b div 16) + int (unat b mod 16) = int (unat b)" by (metis mult_div_mod_eq of_nat_add of_nat_mult of_nat_numeral)
  then show ?thesis using strtol16_hex [OF n] by (metis of_int_of_nat_eq of_nat_unat ucast_id)
qed

lemma hex_loop_hex:
  "length bs + i = length old \<Longrightarrow> hex_loop (bytes_to_hex bs) i old = (0, take i old @ bs)"
proof (induction bs arbitrary: i old)
  case (Cons b bs)
  have i: "i < length old" using Cons.prems by simp
  obtain v where v: "strtol16 (hex_char (unat b div 16)) (hex_char (unat b mod 16)) = Some v" "of_int v = b"
    using strtol16_byte by blast
  have "hex_loop (bytes_to_hex bs) (Suc i) (old[i := b]) = (0, take (Suc i) (old[i := b]) @ bs)"
    using Cons.prems by (intro Cons.IH) simp
  then show ?case using v i by (simp add: bytes_to_hex_def take_Suc_conv_app_nth)
qed (simp add: bytes_to_hex_def)

lemma length_bytes_to_hex [simp]: "length (bytes_to_hex bs) = 2 * length bs"
  by (induction bs) (auto simp: bytes_to_hex_def)

lemma bytes_to_hex_empty [simp]: "bytes_to_hex bs = [] \<longleftrightarrow> bs = []"
  by (auto simp: bytes_to_hex_def)

lemma isspace_newline [simp]: "isspace newline" "isspace (CHR '' '')"
  by code_simp+

lemma hex_char_graph: "d < 16 \<Longrightarrow> \<not> isspace (hex_char d)"
  by (auto simp: isspace_def hex_char_def Let_def)

lemma bytes_to_hex_graph: "c \<in> set (bytes_to_hex bs) \<Longrightarrow> \<not> isspace c"
proof -
  assume "c \<in> set (bytes_to_hex bs)"
  then obtain b :: u8 where b: "c = hex_char (unat b div 16) \<or> c = hex_char (unat b mod 16)" by (auto simp: bytes_to_hex_def)
  have "unat b < 256" using unsigned_less [of b] by simp
  then have "unat b div 16 < 16" "unat b mod 16 < 16" by (simp_all add: div_less_dividend less_mult_imp_div_less)
  then show ?thesis using b hex_char_graph by blast
qed

lemma digit_char: "d < 10 \<Longrightarrow> isdigit (char_of (48 + d)) \<and> of_char (char_of (48 + d :: nat)) - 48 = (d :: nat) \<and> \<not> isspace (char_of (48 + d :: nat))"
proof -
  assume "d < 10"
  moreover have "\<forall>d \<in> set [0..<10]. isdigit (char_of (48 + d)) \<and> of_char (char_of (48 + d :: nat)) - 48 = (d :: nat) \<and> \<not> isspace (char_of (48 + d :: nat))"
    by code_simp
  ultimately show ?thesis by simp
qed

lemma dec_ok: "dec_value (dec n) = n" "c \<in> set (dec n) \<Longrightarrow> isdigit c \<and> \<not> isspace c" "dec n \<noteq> []"
proof (induction n rule: dec.induct)
  case (1 n)
  {
    case 1
    then show ?case using "1.IH"(1) digit_char [of n] digit_char [of "n mod 10"] by (subst dec.simps) (auto simp: dec_value_def)
  next
    case 2
    then show ?case using "1.IH"(2) digit_char [of n] digit_char [of "n mod 10"] by (subst (asm) dec.simps) (auto split: if_splits)
  next
    case 3
    then show ?case by (subst dec.simps) simp
  }
qed

lemma scan_int_dec:
  assumes "\<not> isdigit x"
  shows "scan_int (dec n @ x # r) = Some (int n, x # r)"
proof -
  have h: "isdigit (hd (dec n))" "\<not> isspace (hd (dec n))" using dec_ok(2) [OF hd_in_set [OF dec_ok(3)]] by simp_all
  then have s: "hd (dec n) \<noteq> CHR ''-''" "hd (dec n) \<noteq> CHR ''+''" by (auto simp: isdigit_def)
  have "dropWhile isspace (dec n @ x # r) = dec n @ x # r" using h(2) dec_ok(3) by (cases "dec n") auto
  moreover have "takeWhile isdigit (dec n @ x # r) = dec n" using dec_ok(2) [of _ n] assms by (auto simp: takeWhile_append2)
  ultimately show ?thesis using s dec_ok(1,3) [of n] by (simp add: scan_int_def Let_def)
qed

section \<open>The identity survives a restart\<close>

text \<open>What \<open>%s\<close> reads of a name: its first word. A name without white space is its own first word.\<close>

definition first_word :: "string \<Rightarrow> string" where
  "first_word s = takeWhile (\<lambda>c. \<not> isspace c) (dropWhile isspace s)"

definition with_first_words :: "identity \<Rightarrow> identity" where
  "with_first_words i = i\<lparr>id_username := first_word (id_username i), id_display_name := first_word (id_display_name i)\<rparr>"

lemma first_word_id: "\<forall>c \<in> set s. \<not> isspace c \<Longrightarrow> first_word s = s"
  by (cases s) (auto simp: first_word_def)

lemma length_first_word: "length (first_word s) \<le> length s"
  using length_takeWhile_le [of _ "dropWhile isspace s"] length_dropWhile_le [of isspace s] by (force simp: first_word_def intro: order_trans)

lemma first_word_line: "takeWhile (\<lambda>c. \<not> isspace c) (dropWhile isspace (s @ [newline])) = first_word s"
proof (cases "\<forall>c \<in> set s. isspace c")
  case True
  then have "takeWhile (\<lambda>c. \<not> isspace c) (dropWhile isspace s) = []" by (metis dropWhile_eq_Nil_conv takeWhile.simps(1))
  with True show ?thesis by (simp add: first_word_def dropWhile_append)
next
  case False
  then have "dropWhile isspace (s @ [newline]) = dropWhile isspace s @ [newline]" by (simp add: dropWhile_append)
  then show ?thesis by (simp add: first_word_def takeWhile_tail)
qed

lemma scan_key_val_line:
  assumes "k \<noteq> []" "CHR ''='' \<notin> set k" "length k \<le> 63" "length s \<le> 191"
  shows "scan_key_val (k @ ''='' @ s @ [newline]) = (if first_word s = [] then None else Some (k, first_word s))"
proof -
  have "take 191 (first_word s) = first_word s" using length_first_word [of s] assms(4) by simp
  then have "scan_word 191 (s @ [newline]) = (if first_word s = [] then None
      else Some (first_word s, drop (length (first_word s)) (dropWhile isspace (s @ [newline]))))"
    by (simp add: scan_word_def first_word_line Let_def)
  then show ?thesis
    using scan_until_ok [OF assms(1-3), of "s @ [newline]"] by (simp add: scan_key_val_def scan_char_def)
qed

lemma identity_lines:
  assumes "newline \<notin> set (id_username i)" "newline \<notin> set (id_display_name i)" "length (id_username i) < 32" "length (id_display_name i) < 64"
    and "length (id_key i) = 32"
  shows "fold load_line (read_lines 256 (identity_text i)) identity_zero = (with_first_words i)\<lparr>id_initialized := False\<rparr>"
proof -
  let ?u = "''username='' @ id_username i @ [newline]" and ?d = "''display_name='' @ id_display_name i @ [newline]"
    and ?k = "''identity_key='' @ bytes_to_hex (id_key i) @ [newline]"
  have hx: "\<forall>c \<in> set (bytes_to_hex (id_key i)). \<not> isspace c" using bytes_to_hex_graph by blast
  then have nl: "newline \<notin> set (bytes_to_hex (id_key i))" using isspace_newline(1) by blast
  have hn: "bytes_to_hex (id_key i) \<noteq> []" using assms(5) by auto
  have "is_line 256 ?u" "is_line 256 ?d" "is_line 256 ?k"
    using assms nl
    by (auto simp: is_line_def intro: exI [of _ "''username='' @ id_username i"]
        exI [of _ "''display_name='' @ id_display_name i"] exI [of _ "''identity_key='' @ bytes_to_hex (id_key i)"])
  then have r: "read_lines 256 (identity_text i) = [?u, ?d, ?k]"
    using read_lines_concat [of "[?u, ?d, ?k]" 256] by (simp add: identity_text_def)
  have s: "scan_key_val ?u = (if first_word (id_username i) = [] then None else Some (''username'', first_word (id_username i)))"
    "scan_key_val ?d = (if first_word (id_display_name i) = [] then None else Some (''display_name'', first_word (id_display_name i)))"
    "scan_key_val ?k = Some (''identity_key'', bytes_to_hex (id_key i))"
    using scan_key_val_line [of "''username''" "id_username i"] scan_key_val_line [of "''display_name''" "id_display_name i"]
      scan_key_val_line [of "''identity_key''" "bytes_to_hex (id_key i)"] assms first_word_id [OF hx] hn
    by auto
  have h: "hex_loop (bytes_to_hex (id_key i)) 0 (replicate 32 0) = (0, id_key i)"
    using hex_loop_hex [of "id_key i" 0 "replicate 32 0"] assms(5) by simp
  have l: "length (first_word (id_username i)) < 32" "length (first_word (id_display_name i)) < 64"
    using assms(3,4) length_first_word [of "id_username i"] length_first_word [of "id_display_name i"] by linarith+
  show ?thesis unfolding r using s h l assms(5)
    by (simp add: load_line_def identity_zero_def with_first_words_def snprintf_def)
qed

lemma hex_loop_length: "length (snd (hex_loop s i bs)) = length bs"
  by (induction s i bs rule: hex_loop.induct) (auto split: option.splits)

text \<open>
  C34: What a restart keeps of an identity: after a successful \<open>identity_create\<close> the created identity has the names cut to their
  fields, and \<open>identity_load\<close> from the same directory yields the same key, puts it into the key store again, and yields of each
  name the first word. It is the same identity exactly when no name has white space; a user name of blanks only makes the load fail.
  (Names with a line break, which cannot be typed, are excluded.)
\<close>

theorem identity_survives_restart:
  assumes "identity_create acc env rnd dir u d tf s = (0, i, tf', s')" "newline \<notin> set u" "newline \<notin> set d" "length rnd = 32"
  shows "id_username i = snprintf 32 u \<and> id_display_name i = snprintf 64 d \<and> identity_key s' = id_key i \<and>
    (if first_word (id_username i) = [] then fst (identity_load acc env' dir tf' s0) = -1
     else \<exists>s''. identity_load acc env' dir tf' s0 = (0, with_first_words i, s'') \<and> identity_key s'' = id_key i) \<and>
    (with_first_words i = i \<longleftrightarrow> (\<forall>c \<in> set (id_username i) \<union> set (id_display_name i). \<not> isspace c))"
proof -
  let ?p = "config_path dir ''identity.dat''"
  have i: "acc ?p" "tf' ?p = Some (identity_text i)" "id_username i = snprintf 32 u" "id_display_name i = snprintf 64 d" "id_initialized i"
    "length (id_key i) = 32" "identity_key s' = id_key i"
    using assms hex_loop_length
    by (auto simp: identity_create_def Let_def save_identity_def identity_text_def identity_zero_def secure_store_set_key_def
        split: if_splits option.splits)
  have n: "newline \<notin> set (id_username i)" "newline \<notin> set (id_display_name i)" "length (id_username i) < 32" "length (id_display_name i) < 64"
    using i(3,4) assms(2,3) by (auto simp: snprintf_def dest: in_set_takeD)
  have "load_identity acc dir tf' identity_zero =
      (if first_word (id_username i) = [] then -1 else 0, (with_first_words i)\<lparr>id_initialized := first_word (id_username i) \<noteq> []\<rparr>)"
    using i(1,2) identity_lines [OF n i(6)] by (simp add: load_identity_def with_first_words_def)
  moreover have "(with_first_words i)\<lparr>id_initialized := True\<rparr> = with_first_words i" "id_key (with_first_words i) = id_key i"
    using i(5) by (cases i, simp add: with_first_words_def)+
  moreover have "with_first_words i = i \<longleftrightarrow> first_word (id_username i) = id_username i \<and> first_word (id_display_name i) = id_display_name i"
    by (cases i) (auto simp: with_first_words_def)
  moreover have "first_word x = x \<longleftrightarrow> (\<forall>c \<in> set x. \<not> isspace c)" for x
    using first_word_id [of x] by (metis first_word_def set_takeWhileD)
  ultimately show ?thesis using i(3,4,6,7)
    by (auto simp: identity_load_def identity_init_def secure_store_set_key_def)
qed

theorem identity_survives_restart_witness:
  "\<exists>i i' tf' s' s''. identity_create (\<lambda>_. True) None (replicate 32 7) ''/c'' ''daksh'' ''Daksh Patel'' Map.empty \<lparr>identity_key = [], key_initialized = False\<rparr> = (0, i, tf', s') \<and>
    identity_load (\<lambda>_. True) None ''/c'' tf' \<lparr>identity_key = [], key_initialized = False\<rparr> = (0, i', s'') \<and>
    id_username i' = ''daksh'' \<and> id_display_name i' = ''Daksh'' \<and> id_key i' = id_key i"
proof -
  let ?s = "\<lparr>identity_key = [], key_initialized = False\<rparr>"
  obtain i tf' s' where c: "identity_create (\<lambda>_. True) None (replicate 32 7) ''/c'' ''daksh'' ''Daksh Patel'' Map.empty ?s = (0, i, tf', s')"
    by (simp add: identity_create_def save_identity_def Let_def)
  have n: "first_word (snprintf 32 ''daksh'') = ''daksh''" "first_word (snprintf 64 ''Daksh Patel'') = ''Daksh''" by code_simp+
  have "id_username i = snprintf 32 ''daksh''" "id_display_name i = snprintf 64 ''Daksh Patel''"
    "if first_word (id_username i) = [] then fst (identity_load (\<lambda>_. True) None ''/c'' tf' ?s) = -1
     else \<exists>s''. identity_load (\<lambda>_. True) None ''/c'' tf' ?s = (0, with_first_words i, s'') \<and> identity_key s'' = id_key i"
    using identity_survives_restart [OF c, of None ?s] by simp_all
  then show ?thesis using c n by (auto simp: with_first_words_def)
qed

section \<open>Trust on first use\<close>

text \<open>
  The check of known peers never recognises an IPv6 address: whatever the \<open>known_hosts\<close> file
  holds, for an address with a colon \<open>known_hosts_check\<close> reports first contact, so neither a matching
  nor a changed key is ever noticed.
\<close>

theorem known_hosts_ignores_ipv6:
  assumes "CHR '':'' \<in> set a"
  shows "known_hosts_check acc dir a port key tf = Some 0 \<or> known_hosts_check acc dir a port key tf = Some (-1)"
proof -
  have "ea \<noteq> a" if "scan_host l = Some (ea, ep, hex)" for l ea ep hex
    using that assms set_takeWhileD [of "CHR '':''" "\<lambda>x. x \<noteq> CHR '':''" l]
    by (auto simp: scan_host_def scan_until_def Let_def split: option.splits bind_splits if_splits dest!: in_set_takeD)
  then have "check_lines ls a port key = Some 0" for ls by (induction ls) (auto split: option.splits)
  then show ?thesis by (auto simp: known_hosts_check_def Let_def split: option.splits)
qed

theorem known_hosts_ignores_ipv6_witness:
  "known_hosts_check (\<lambda>_. True) ''/c'' ''::1'' 9 [1] Map.empty \<in> {Some 0, Some (-1)}"
  using known_hosts_ignores_ipv6 [of "''::1''" "\<lambda>_. True" "''/c''" 9 "[1]" Map.empty] by simp

text \<open>For other addresses the first entry of the host decides.\<close>

type_synonym host_entry = "string \<times> u16 \<times> string option \<times> bytes"

fun host_ok :: "host_entry \<Rightarrow> bool" where
  "host_ok (a, port, u, key) \<longleftrightarrow> a \<noteq> [] \<and> length a \<le> 63 \<and> CHR '':'' \<notin> set a \<and> hd a \<noteq> CHR ''#'' \<and> newline \<notin> set a \<and>
     (\<forall>x. u = Some x \<longrightarrow> x \<noteq> [] \<and> length x \<le> 31 \<and> (\<forall>c \<in> set x. \<not> isspace c)) \<and> length key = 32"

fun add_host :: "(string \<Rightarrow> bool) \<Rightarrow> string \<Rightarrow> host_entry \<Rightarrow> text_files \<Rightarrow> text_files" where
  "add_host acc dir (a, port, u, key) tf = snd (known_hosts_add acc dir a port u key tf)"

fun host_text :: "host_entry \<Rightarrow> string" where
  "host_text (a, port, u, key) = host_line a port u key"

lemma length_dec: "\<lbrakk> n < 10 ^ k; 0 < k \<rbrakk> \<Longrightarrow> length (dec n) \<le> k"
proof (induction k arbitrary: n)
  case (Suc k)
  show ?case
  proof (cases "n < 10")
    case False
    then have "0 < k" "n div 10 < 10 ^ k" using Suc.prems by (cases k; auto)+
    then have "length (dec (n div 10)) \<le> k" using Suc.IH by simp
    then show ?thesis using False by (subst dec.simps) simp
  qed (subst dec.simps, simp)
qed simp

lemma port_digits: "length (dec (unat (port :: u16))) \<le> 5"
proof -
  have "unat port < 2 ^ LENGTH(16)" by (rule unsigned_less)
  then show ?thesis by (intro length_dec) simp_all
qed

lemma user_word: "host_ok (a, port, u, key) \<Longrightarrow>
    (case u of None \<Rightarrow> ''unknown'' | Some x \<Rightarrow> x) \<noteq> [] \<and> length (case u of None \<Rightarrow> ''unknown'' | Some x \<Rightarrow> x) \<le> 31 \<and>
    (\<forall>c \<in> set (case u of None \<Rightarrow> ''unknown'' | Some x \<Rightarrow> x). \<not> isspace c)"
proof -
  have "\<forall>c \<in> set ''unknown''. \<not> isspace c" by code_simp
  then show "host_ok (a, port, u, key) \<Longrightarrow> ?thesis" by (cases u) simp_all
qed

lemma scan_host_line:
  assumes "host_ok (a, port, u, key)"
  shows "scan_host (host_line a port u key) = Some (a, int (unat port), bytes_to_hex key)" "is_line 512 (host_line a port u key)"
proof -
  let ?u = "case u of None \<Rightarrow> ''unknown'' | Some x \<Rightarrow> x"
  let ?h = "'' '' @ bytes_to_hex key @ [newline]"
  have u: "?u \<noteq> []" "length ?u \<le> 31" "\<forall>c \<in> set ?u. \<not> isspace c" using user_word [OF assms] by simp_all
  have hx: "\<forall>c \<in> set (bytes_to_hex key). \<not> isspace c" using bytes_to_hex_graph by blast
  have hn: "bytes_to_hex key \<noteq> []" "length (bytes_to_hex key) \<le> 64"
    using assms by auto
  have 1: "scan_until 63 (CHR '':'') (host_line a port u key) = Some (a, '':'' @ dec (unat port) @ '' '' @ ?u @ ?h)"
    using assms scan_until_ok [of a "CHR '':''" 63] by (simp add: host_line_def)
  have 2: "scan_int (dec (unat port) @ '' '' @ ?u @ ?h) = Some (int (unat port), '' '' @ ?u @ ?h)"
    using scan_int_dec [of "CHR '' ''"] by (simp add: isdigit_def)
  have 3: "scan_word 31 ('' '' @ ?u @ ?h) = Some (?u, ?h)"
    using scan_word_ok [OF u(1,3,2), of "CHR '' ''" "'' ''"] by simp
  have 4: "scan_word 64 ?h = Some (bytes_to_hex key, [newline])"
    using scan_word_ok [OF hn(1) hx hn(2), of newline "'' ''" "[]"] by simp
  show "scan_host (host_line a port u key) = Some (a, int (unat port), bytes_to_hex key)"
    using 1 2 3 4 by (simp add: scan_host_def scan_char_def)
  have "newline \<notin> set ?u" "newline \<notin> set (bytes_to_hex key)" "newline \<notin> set (dec (unat port))"
    using u(3) hx dec_ok(2) isspace_newline(1) by blast+
  then have "newline \<notin> set (a @ '':'' @ dec (unat port) @ '' '' @ ?u @ '' '' @ bytes_to_hex key)" using assms by auto
  moreover have "length (host_line a port u key) < 512"
    using assms u(2) hn(2) port_digits [of port] by (simp add: host_line_def)
  ultimately show "is_line 512 (host_line a port u key)"
    unfolding is_line_def host_line_def by (metis append.assoc)
qed

lemma check_host_texts:
  assumes "\<forall>e \<in> set es. host_ok e"
  shows "check_lines (map host_text es) a port key =
    Some (case find_index (\<lambda>(ea, ep, eu, ek). ea = a \<and> ep = port) es of
            None \<Rightarrow> 0 | Some i \<Rightarrow> if snd (snd (snd (es ! i))) = key then 1 else -2)"
  using assms
proof (induction es)
  case (Cons e es)
  obtain ea ep eu ek where e: "e = (ea, ep, eu, ek)" by (metis prod_cases4)
  then have ok: "host_ok (ea, ep, eu, ek)" using Cons.prems by simp
  note s = scan_host_line(1) [OF ok]
  have "hd (host_line ea ep eu ek) = hd ea" using ok by (simp add: host_line_def)
  then have h: "hd (host_line ea ep eu ek) \<noteq> CHR ''#''" using ok by simp
  have x: "hex_loop (bytes_to_hex ek) 0 (replicate 32 0) = (0, ek)" "length (bytes_to_hex ek) = 64"
    using ok hex_loop_hex [of ek 0 "replicate 32 0"] by simp_all
  show ?case using Cons s h x by (auto simp: e word_uint_eq_iff [symmetric] split: option.splits)
qed simp

lemma known_hosts_file:
  assumes "acc (config_path dir ''known_hosts'')"
  shows "(fold (add_host acc dir) es tf) (config_path dir ''known_hosts'') =
    (if es = [] then tf (config_path dir ''known_hosts'')
     else Some ((case tf (config_path dir ''known_hosts'') of None \<Rightarrow> [] | Some t \<Rightarrow> t) @ concat (map host_text es)))"
proof (induction es arbitrary: tf)
  case (Cons e es)
  obtain ea ep eu ek where e: "e = (ea, ep, eu, ek)" by (metis prod_cases4)
  have p: "add_host acc dir e tf (config_path dir ''known_hosts'') =
      Some ((case tf (config_path dir ''known_hosts'') of None \<Rightarrow> [] | Some t \<Rightarrow> t) @ host_text e)"
    using assms by (simp add: e known_hosts_add_def Let_def)
  show ?case using Cons.IH [of "add_host acc dir e tf"] p by simp
qed simp

text \<open>
  Trust on first use for other addresses: after any sequence of \<open>known_hosts_add\<close> calls, starting
  without a file, \<open>known_hosts_check\<close> compares the key with the first entry of that address and port:
  match, mismatch, or first contact when there is none.
\<close>

theorem known_hosts_first_entry:
  assumes "acc (config_path dir ''known_hosts'')" "es \<noteq> []" "\<forall>e \<in> set es. host_ok e"
    and "tf = fold (add_host acc dir) es Map.empty"
  shows "known_hosts_check acc dir a port key tf =
    Some (case find_index (\<lambda>(ea, ep, eu, ek). ea = a \<and> ep = port) es of
            None \<Rightarrow> 0 | Some i \<Rightarrow> if snd (snd (snd (es ! i))) = key then 1 else -2)"
proof -
  have "is_line 512 (host_text e)" if "host_ok e" for e using that scan_host_line(2) by (cases e) auto
  then have "read_lines 512 (concat (map host_text es)) = map host_text es"
    using assms(3) by (intro read_lines_concat) auto
  moreover have "tf (config_path dir ''known_hosts'') = Some (concat (map host_text es))"
    using known_hosts_file [of acc dir es Map.empty] assms(1,2,4) by simp
  ultimately show ?thesis
    using assms(1) check_host_texts [OF assms(3), of a port key] by (simp add: known_hosts_check_def)
qed

theorem known_hosts_first_entry_witness:
  "known_hosts_check (\<lambda>_. True) ''/c'' ''10.0.0.1'' 9 (replicate 32 5)
     (fold (add_host (\<lambda>_. True) ''/c'') [(''10.0.0.1'', 9, None, replicate 32 4), (''10.0.0.1'', 9, None, replicate 32 5)] Map.empty) = Some (-2)"
proof -
  have "\<forall>e \<in> set [(''10.0.0.1'', 9, None, replicate 32 4), (''10.0.0.1'', 9, None, replicate 32 5)]. host_ok e" by simp
  then show ?thesis
    using known_hosts_first_entry [of "\<lambda>_. True" "''/c''" "[(''10.0.0.1'', 9, None, replicate 32 4), (''10.0.0.1'', 9, None, replicate 32 5)]" _ "''10.0.0.1''" 9 "replicate 32 5"]
    by (simp add: numeral_eq_Suc)
qed

end
