(* ===== verification/Config.thy ===== *)
theory Config
  imports Identity
begin

text \<open>
  The configuration file (\<open>lib/crypto/toml_config.c\<close>): sections of \<open>key = value\<close> lines that
  override the default values. A file system maps paths to texts and \<open>acc\<close> says which paths can
  be opened, as in theory Identity; \<open>config_dump\<close> only prints.
\<close>

abbreviation CONFIG_LINE_MAX :: nat where "CONFIG_LINE_MAX \<equiv> 256"

record config =
  cfg_local_port :: u16
  cfg_local_port_alt :: u16
  cfg_remote_port :: u16
  cfg_remote_addr :: string
  cfg_discovery_port :: u16
  cfg_discovery_enabled :: bool
  cfg_multipath_enabled :: bool
  cfg_path_count :: int
  cfg_identity_key_hex :: string

definition config_load_default :: config where
  "config_load_default =
     \<lparr>cfg_local_port = 9001, cfg_local_port_alt = 9003, cfg_remote_port = 9002, cfg_remote_addr = ''::1'',
      cfg_discovery_port = 0, cfg_discovery_enabled = False, cfg_multipath_enabled = False, cfg_path_count = 1,
      cfg_identity_key_hex = []\<rparr>"

section \<open>Reading\<close>

text \<open>
  \<open>trim\<close> advances its own copy of the pointer over leading blanks, so the caller's text keeps
  them; the text is cut after the last character that is no blank or line end, but at the
  earliest after the first character that is no blank.
\<close>

definition is_blank :: "char \<Rightarrow> bool" where
  "is_blank c \<longleftrightarrow> c = CHR '' '' \<or> c = CHR 0x09"

definition is_trailing :: "char \<Rightarrow> bool" where
  "is_trailing c \<longleftrightarrow> is_blank c \<or> c = CHR 0x0D \<or> c = newline"

definition trim :: "string \<Rightarrow> string" where
  "trim s =
     (case dropWhile is_blank s of
        [] \<Rightarrow> s
      | x # xs \<Rightarrow> takeWhile is_blank s @ x # rev (dropWhile is_trailing (rev xs)))"

text \<open>\<open>atoi\<close> as \<open>(int)strtol\<close>: no number is 0, a number beyond 64 bits is the nearest 64-bit one.\<close>

definition atoi :: "string \<Rightarrow> int" where
  "atoi s =
     (case scan_int s of
        None \<Rightarrow> 0
      | Some (v, _) \<Rightarrow> sint (word_of_int (max (- (2 ^ 63)) (min (2 ^ 63 - 1) v)) :: 32 word))"

text \<open>\<open>sscanf(line, "%63[^=] = %191[^#]", key, val) == 2\<close>.\<close>

definition scan_setting :: "string \<Rightarrow> (string \<times> string) option" where
  "scan_setting line = do {
     (key, r) \<leftarrow> scan_until 63 (CHR ''='') line;
     r1 \<leftarrow> scan_char (CHR ''='') (dropWhile isspace r);
     (val, _) \<leftarrow> scan_until 191 (CHR ''#'') (dropWhile isspace r1);
     Some (key, val)
   }"

definition set_option :: "string \<Rightarrow> string \<Rightarrow> string \<Rightarrow> config \<Rightarrow> config" where
  "set_option section key val cfg =
     (if section = ''transport'' then
        (if key = ''local_port'' then cfg\<lparr>cfg_local_port := word_of_int (atoi val)\<rparr>
         else if key = ''local_port_alt'' then cfg\<lparr>cfg_local_port_alt := word_of_int (atoi val)\<rparr>
         else if key = ''remote_port'' then cfg\<lparr>cfg_remote_port := word_of_int (atoi val)\<rparr>
         else if key = ''remote_addr'' then cfg\<lparr>cfg_remote_addr := snprintf 64 val\<rparr>
         else cfg)
      else if section = ''discovery'' then
        (if key = ''port'' then cfg\<lparr>cfg_discovery_port := word_of_int (atoi val)\<rparr>
         else if key = ''enabled'' then cfg\<lparr>cfg_discovery_enabled := (atoi val \<noteq> 0)\<rparr>
         else cfg)
      else if section = ''multipath'' then
        (if key = ''enabled'' then cfg\<lparr>cfg_multipath_enabled := (atoi val \<noteq> 0)\<rparr>
         else if key = ''path_count'' then cfg\<lparr>cfg_path_count := atoi val\<rparr>
         else cfg)
      else if section = ''identity'' then
        (if key = ''key_hex'' then cfg\<lparr>cfg_identity_key_hex := snprintf 128 val\<rparr> else cfg)
      else cfg)"

definition parse_line :: "string \<Rightarrow> string \<Rightarrow> config \<Rightarrow> config" where
  "parse_line line section cfg =
     (case scan_setting line of
        None \<Rightarrow> cfg
      | Some (key, val) \<Rightarrow> set_option section (trim key) (trim val) cfg)"

text \<open>The body of the loop over the lines, with the current section.\<close>

definition config_line :: "string \<Rightarrow> string \<times> config \<Rightarrow> string \<times> config" where
  "config_line raw st =
     (let line = trim (takeWhile (\<lambda>c. c \<noteq> CHR 0x00) raw); (section, cfg) = st in
      if line = [] \<or> hd line = CHR ''#'' then st
      else if hd line = CHR ''['' then
        (if CHR '']'' \<in> set (tl line) then (snprintf 64 (takeWhile (\<lambda>c. c \<noteq> CHR '']'') (tl line)), cfg) else st)
      else (section, parse_line line section cfg))"

definition config_load :: "(string \<Rightarrow> bool) \<Rightarrow> text_files \<Rightarrow> string \<Rightarrow> int \<times> config" where
  "config_load acc fs path =
     (case (if acc path then fs path else None) of
        None \<Rightarrow> (-1, config_load_default)
      | Some txt \<Rightarrow> (0, snd (fold config_line (read_lines CONFIG_LINE_MAX txt) ([], config_load_default))))"

section \<open>A written configuration is read back\<close>

text \<open>A value that survives the line: no comment sign, no control character, no blank at its ends.\<close>

definition value_ok :: "nat \<Rightarrow> string \<Rightarrow> bool" where
  "value_ok n v \<longleftrightarrow> v \<noteq> [] \<and> length v \<le> n \<and> set v \<inter> {CHR ''#'', newline, CHR 0x00} = {} \<and>
     \<not> isspace (hd v) \<and> \<not> is_trailing (last v)"

definition key_char :: "char \<Rightarrow> bool" where
  "key_char c \<longleftrightarrow> \<not> isspace c \<and> \<not> is_trailing c \<and> \<not> is_blank c \<and>
     c \<notin> {CHR ''='', CHR ''#'', CHR ''['', CHR '']'', newline, CHR 0x00}"

definition key_ok :: "string \<Rightarrow> bool" where
  "key_ok k \<longleftrightarrow> k \<noteq> [] \<and> length k \<le> 20 \<and> (\<forall>c \<in> set k. key_char c)"

lemma takeWhile_all: "\<forall>x \<in> set xs. P x \<Longrightarrow> takeWhile P xs = xs"
  by (simp only: takeWhile_eq_all_conv)

lemma trim_tail:
  assumes "s \<noteq> []" "\<not> is_blank (hd s)" "\<not> is_trailing (last s)" "\<forall>c \<in> set t. is_trailing c"
  shows "trim (s @ t) = s"
proof -
  obtain x xs where s: "s = x # xs" using assms(1) by (cases s) auto
  have "dropWhile is_trailing (rev (xs @ t)) = dropWhile is_trailing (rev xs)" using assms(4) dropWhile_append2 [of "rev t" is_trailing "rev xs"] by simp
  moreover have "dropWhile is_trailing (rev xs) = rev xs" using assms(3) s by (cases xs rule: rev_cases) auto
  ultimately show ?thesis using assms(2) s by (simp add: trim_def)
qed

lemma line_setting:
  assumes "key_ok k" "value_ok 191 v"
  shows "config_line (k @ '' = '' @ v @ [newline]) (s, c) = (s, set_option s k v c)"
proof -
  let ?l = "k @ '' = '' @ v"
  have k: "k \<noteq> []" "length k \<le> 20" "\<And>c. c \<in> set k \<Longrightarrow> key_char c" using assms(1) by (auto simp: key_ok_def)
  note h = k(3) [OF hd_in_set [OF k(1)], unfolded key_char_def] and l = k(3) [OF last_in_set [OF k(1)], unfolded key_char_def]
  have v: "v \<noteq> []" "length v \<le> 191" "CHR ''#'' \<notin> set v" "CHR 0x00 \<notin> set v" "\<not> isspace (hd v)" "\<not> is_trailing (last v)"
    using assms(2) by (auto simp: value_ok_def)
  have hb: "\<not> is_blank (hd v)" using v(5) by (auto simp: is_blank_def isspace_def)
  have nz: "\<forall>c \<in> set (?l @ [newline]). c \<noteq> CHR 0x00" using k(3) [unfolded key_char_def] v(4) by fastforce
  then have z: "takeWhile (\<lambda>c. c \<noteq> CHR 0x00) (?l @ [newline]) = ?l @ [newline]" by (simp only: takeWhile_eq_all_conv)
  have t: "trim (?l @ [newline]) = ?l" using trim_tail [of ?l "[newline]"] k(1) h v(1,6) by (simp add: is_trailing_def)
  have e: "CHR ''='' \<notin> set (k @ '' '')" using k(3) [unfolded key_char_def] by fastforce
  have "scan_setting ?l = Some (k @ '' '', v)"
  proof -
    have 1: "scan_until 63 (CHR ''='') ((k @ '' '') @ CHR ''='' # CHR '' '' # v) = Some (k @ '' '', CHR ''='' # CHR '' '' # v)"
      using scan_until_ok [OF _ e] k(2) by simp
    have d: "dropWhile isspace v = v" using v(1,5) by (cases v) auto
    have "scan_until 191 (CHR ''#'') v = Some (v, [])" 
      using v(1-3) by (subst scan_until_def, subst takeWhile_all) auto
    then show ?thesis using 1 d by (simp add: scan_setting_def scan_char_def isspace_def)
  qed
  moreover have "trim (k @ '' '') = k" "trim v = v"
    using trim_tail [OF k(1), of "'' ''"] h l trim_tail [OF v(1) hb v(6), of "[]"] by (simp_all add: is_trailing_def is_blank_def)
  moreover have "hd ?l = hd k" "?l \<noteq> []" using k(1) by simp_all
  ultimately show ?thesis using z t h by (simp add: config_line_def parse_line_def)
qed

lemma line_section:
  assumes "key_ok k"
  shows "config_line (CHR ''['' # k @ [CHR '']'', newline]) (s, c) = (k, c)"
proof -
  let ?l = "CHR ''['' # k @ [CHR '']'']"
  have k: "\<And>c. c \<in> set k \<Longrightarrow> c \<noteq> CHR 0x00 \<and> c \<noteq> CHR '']''" "length k \<le> 20"
    using assms by (auto simp: key_ok_def key_char_def)
  have "\<forall>c \<in> set (?l @ [newline]). c \<noteq> CHR 0x00" using k(1) by auto
  then have z: "takeWhile (\<lambda>c. c \<noteq> CHR 0x00) (?l @ [newline]) = ?l @ [newline]" by (simp only: takeWhile_eq_all_conv)
  have t: "trim (?l @ [newline]) = ?l" using trim_tail [of ?l "[newline]"] by (simp add: is_trailing_def is_blank_def)
  have "takeWhile (\<lambda>c. c \<noteq> CHR '']'') (k @ [CHR '']'']) = k" using k(1) by (auto simp: takeWhile_append)
  then show ?thesis using z t k(2) by (simp add: config_line_def)
qed

lemma atoi_dec: "n < 2 ^ 31 \<Longrightarrow> atoi (dec n) = int n"
proof -
  assume n: "n < 2 ^ 31"
  have h: "isdigit (hd (dec n))" "\<not> isspace (hd (dec n))" using dec_ok(2) [OF hd_in_set [OF dec_ok(3)]] by simp_all
  then have s: "hd (dec n) \<noteq> CHR ''-''" "hd (dec n) \<noteq> CHR ''+''" by (auto simp: isdigit_def)
  have "dropWhile isspace (dec n) = dec n" using h(2) dec_ok(3) by (cases "dec n") auto
  moreover have "\<forall>x \<in> set (dec n). isdigit x" using dec_ok(2) [of _ n] by blast
  ultimately have "scan_int (dec n) = Some (int n, [])" using s dec_ok(1,3) [of n] by (simp add: scan_int_def Let_def takeWhile_all)
  moreover have "sint (word_of_int (int n) :: 32 word) = int n" using n by (subst sint_sbintrunc') (simp add: signed_take_bit_int_eq_self)
  ultimately show ?thesis using n by (simp add: atoi_def)
qed

lemma value_dec: "n < 2 ^ 31 \<Longrightarrow> value_ok 10 (dec n)"
proof -
  assume n: "n < 2 ^ 31"
  have d: "\<not> isspace x \<and> x \<notin> {CHR ''#'', newline, CHR 0x00} \<and> \<not> is_trailing x" if "x \<in> set (dec n)" for x
    using dec_ok(2) [OF that] by (auto simp: isdigit_def isspace_def is_trailing_def is_blank_def)
  have "length (dec n) \<le> 10" using length_dec [of n 10] n by simp
  then show ?thesis using d dec_ok(3) [of n] by (auto simp: value_ok_def)
qed

text \<open>The file a configuration is written to, and the configurations whose texts fit their fields.\<close>

definition setting :: "string \<Rightarrow> string \<Rightarrow> string" where
  "setting k v = k @ '' = '' @ v @ [newline]"

definition header :: "string \<Rightarrow> string" where
  "header k = CHR ''['' # k @ [CHR '']'', newline]"

definition flag :: "bool \<Rightarrow> string" where
  "flag b = dec (if b then 1 else 0)"

definition config_lines :: "config \<Rightarrow> string list" where
  "config_lines c =
     [header ''transport'', setting ''local_port'' (dec (unat (cfg_local_port c))),
      setting ''local_port_alt'' (dec (unat (cfg_local_port_alt c))),
      setting ''remote_port'' (dec (unat (cfg_remote_port c))), setting ''remote_addr'' (cfg_remote_addr c),
      header ''discovery'', setting ''port'' (dec (unat (cfg_discovery_port c))), setting ''enabled'' (flag (cfg_discovery_enabled c)),
      header ''multipath'', setting ''enabled'' (flag (cfg_multipath_enabled c)),
      setting ''path_count'' (dec (nat (cfg_path_count c))),
      header ''identity'', setting ''key_hex'' (cfg_identity_key_hex c)]"

definition config_ok :: "config \<Rightarrow> bool" where
  "config_ok c \<longleftrightarrow> value_ok 63 (cfg_remote_addr c) \<and> value_ok 127 (cfg_identity_key_hex c) \<and>
     0 \<le> cfg_path_count c \<and> cfg_path_count c < 2 ^ 31"

lemma setting_line:
  assumes "key_ok k" "value_ok n v" "n \<le> 191"
  shows "is_line CONFIG_LINE_MAX (setting k v)"
  using assms unfolding is_line_def setting_def
  by (intro conjI exI [of _ "k @ '' = '' @ v"]) (auto simp: key_ok_def key_char_def value_ok_def)

lemma header_line: "key_ok k \<Longrightarrow> is_line CONFIG_LINE_MAX (header k)"
  unfolding is_line_def header_def
  by (intro conjI exI [of _ "CHR ''['' # k @ [CHR '']'']"]) (auto simp: key_ok_def key_char_def)

lemma value_mono: "\<lbrakk> value_ok n v; n \<le> m \<rbrakk> \<Longrightarrow> value_ok m v"
  by (auto simp: value_ok_def)

lemma keys_ok [simp]:
  "key_ok ''transport''" "key_ok ''discovery''" "key_ok ''multipath''" "key_ok ''identity''" "key_ok ''local_port''"
  "key_ok ''local_port_alt''" "key_ok ''remote_port''" "key_ok ''remote_addr''" "key_ok ''port''" "key_ok ''enabled''"
  "key_ok ''path_count''" "key_ok ''key_hex''"
  by code_simp+

lemma port_bound: "unat (p :: u16) < 2 ^ 31"
  by (rule less_trans [OF unsigned_less]) simp

lemma port_value: "value_ok 10 (dec (unat (p :: u16)))" "word_of_int (atoi (dec (unat p))) = p"
  using value_dec [OF port_bound] atoi_dec [OF port_bound [of p]] by simp_all

lemma flag_value: "value_ok 10 (flag b)" "atoi (flag b) \<noteq> 0 \<longleftrightarrow> b"
  using value_dec [of "if b then 1 else 0"] atoi_dec [of "if b then 1 else 0"] by (auto simp: flag_def)

text \<open>A configuration that is written as a file, one setting per line, is read back exactly: every port, address, switch and count, whatever the defaults are.\<close>

theorem config_roundtrip:
  assumes "config_ok c" "acc path" "fs path = Some (concat (config_lines c))"
  shows "config_load acc fs path = (0, c)"
proof -
  have n: "nat (cfg_path_count c) < 2 ^ 31" "int (nat (cfg_path_count c)) = cfg_path_count c" and n0: "0 \<le> cfg_path_count c"
    and a: "value_ok 63 (cfg_remote_addr c)" "value_ok 127 (cfg_identity_key_hex c)" using assms(1) by (auto simp: config_ok_def)
  have l: "\<forall>l \<in> set (config_lines c). is_line CONFIG_LINE_MAX l"
    using setting_line [OF _ port_value(1)] setting_line [OF _ flag_value(1)] setting_line [OF _ value_dec [OF n(1)]]
      setting_line [OF _ a(1)] setting_line [OF _ a(2)] by (simp add: config_lines_def header_line)
  note v = value_mono [OF port_value(1)] value_mono [OF flag_value(1)] value_mono [OF value_dec [OF n(1)]] value_mono [OF a(1)] value_mono [OF a(2)]
  have s: "length (cfg_remote_addr c) < 64" "length (cfg_identity_key_hex c) < 128" using a by (auto simp: value_ok_def)
  have "snd (fold config_line (config_lines c) ([], config_load_default)) = c"
    unfolding config_lines_def
    by (simp add: line_section [folded header_def] line_setting [folded setting_def] v set_option_def port_value(2) flag_value(2) atoi_dec [OF n(1)] n(2) s n0)
  then show ?thesis using assms(2,3) read_lines_concat [OF l] by (simp add: config_load_def)
qed

definition config_sample :: config where
  "config_sample = config_load_default\<lparr>cfg_local_port := 7000, cfg_remote_addr := ''10.0.0.7'', cfg_multipath_enabled := True,
     cfg_path_count := 2, cfg_identity_key_hex := ''c0ffee''\<rparr>"

theorem config_roundtrip_witness:
  "config_load (\<lambda>p. True) [''transport.toml'' \<mapsto> concat (config_lines config_sample)] ''transport.toml'' = (0, config_sample)"
  by (rule config_roundtrip)
    (simp_all add: config_ok_def config_sample_def value_ok_def isspace_def is_trailing_def is_blank_def)

text \<open>
  An indented line is not read: the leading blank stays in the line and then in the key, so that no key matches.
\<close>

theorem config_indent_ignored:
  "config_line (CHR '' '' # setting ''local_port'' ''7000'') (''transport'', c) = (''transport'', c)"
  by (simp add: setting_def config_line_def parse_line_def scan_setting_def scan_until_def scan_char_def trim_def set_option_def
      isspace_def is_blank_def is_trailing_def Let_def)

end
