(* ===== verification/File_Transfer.thy ===== *)
theory File_Transfer
  imports Keyed_Table
begin

text \<open>
  File transfer (\<open>lib/engine/file_transfer.c\<close>): the sender's and the receiver's tables of four
  transfers each and their effect on the file system. A file system maps paths to contents;
  \<open>fs_access\<close> says which paths the process may open (\<open>stat\<close> works for every existing path). The
  POSIX branches of the source are modelled.
\<close>

abbreviation FILE_CHUNK_SIZE :: nat where "FILE_CHUNK_SIZE \<equiv> 1024"
abbreviation FILE_NAME_MAX :: nat where "FILE_NAME_MAX \<equiv> 256"
abbreviation FILE_PATH_MAX :: nat where "FILE_PATH_MAX \<equiv> 512"
abbreviation FILE_MAX_CHUNKS :: u32 where "FILE_MAX_CHUNKS \<equiv> 4194304"
abbreviation FILE_TRANSFER_MAX :: nat where "FILE_TRANSFER_MAX \<equiv> 4"

record file_system =
  files :: "string \<rightharpoonup> bytes"
  fs_access :: "string \<Rightarrow> bool"

record file_meta =
  fm_filename :: string
  fm_total_size :: u32
  fm_total_chunks :: u32
  fm_checksum :: u32
  fm_active :: bool

record file_recv =
  fr_meta :: file_meta
  fr_path :: string
  chunks_recvd :: u32
  fr_active :: bool

record file_send =
  fsd_path :: string
  fsd_meta :: file_meta
  chunks_sent :: u32
  fsd_active :: bool

record file_transfer_ctx =
  sends :: "file_send list"
  recvs :: "file_recv list"
  send_count :: nat
  recv_count :: nat

section \<open>Files\<close>

text \<open>\<open>fopen(p, "rb")\<close>; \<open>fseek\<close> and \<open>fwrite\<close> behind the end of a file fill the gap with zeros, unless there is nothing to write.\<close>

definition open_read :: "file_system \<Rightarrow> string \<Rightarrow> bytes option" where
  "open_read fs p = (if fs_access fs p then files fs p else None)"

definition file_write :: "nat \<Rightarrow> bytes \<Rightarrow> bytes \<Rightarrow> bytes" where
  "file_write off bs d = (if bs = [] then d else take off (d @ replicate (off - length d) 0) @ bs @ drop (off + length bs) d)"

definition file_checksum :: "bytes \<Rightarrow> u32" where
  "file_checksum bs = fold (\<lambda>b sum. sum * 31 + ucast b) bs 0"

text \<open>
  The loop that reads \<open>remaining\<close> bytes in chunks and combines their checksums; \<open>None\<close> when \<open>fread\<close>
  comes up short.
\<close>

function checksum_loop :: "nat \<Rightarrow> bytes \<Rightarrow> u32 \<Rightarrow> u32 option" where
  "checksum_loop remaining rest tot =
     (if remaining = 0 then Some tot
      else let rd = (if remaining > FILE_CHUNK_SIZE then FILE_CHUNK_SIZE else remaining) in
        if length rest < rd then None
        else checksum_loop (remaining - rd) (drop rd rest) (tot * 31 + file_checksum (take rd rest)))"
  by auto
termination by (relation "measure (\<lambda>(r, _, _). r)") (auto simp: Let_def)

declare checksum_loop.simps [simp del]

section \<open>Sending\<close>

definition file_meta_zero :: file_meta where
  "file_meta_zero = \<lparr>fm_filename = [], fm_total_size = 0, fm_total_chunks = 0, fm_checksum = 0, fm_active = False\<rparr>"

definition file_transfer_init :: file_transfer_ctx where
  "file_transfer_init =
     \<lparr>sends = replicate FILE_TRANSFER_MAX \<lparr>fsd_path = [], fsd_meta = file_meta_zero, chunks_sent = 0, fsd_active = False\<rparr>,
      recvs = replicate FILE_TRANSFER_MAX \<lparr>fr_meta = file_meta_zero, fr_path = [], chunks_recvd = 0, fr_active = False\<rparr>,
      send_count = 0, recv_count = 0\<rparr>"

definition file_transfer_cleanup :: "file_transfer_ctx \<Rightarrow> file_transfer_ctx" where
  "file_transfer_cleanup ft = file_transfer_init"

text \<open>The part of a path behind its last slash.\<close>

definition basename :: "string \<Rightarrow> string" where
  "basename p = rev (takeWhile (\<lambda>c. c \<noteq> CHR ''/'') (rev p))"

definition file_send_start :: "file_system \<Rightarrow> string \<Rightarrow> file_transfer_ctx \<Rightarrow> int \<times> file_transfer_ctx" where
  "file_send_start fs filepath ft =
     (if send_count ft \<ge> FILE_TRANSFER_MAX then (-1, ft)
      else case files fs filepath of
        None \<Rightarrow> (-1, ft)
      | Some content \<Rightarrow>
          if content = [] then (-1, ft)
          else
            let size = (of_nat (length content) :: u32);
                n = send_count ft;
                meta = \<lparr>fm_filename = snprintf FILE_NAME_MAX (basename filepath), fm_total_size = size,
                        fm_total_chunks = (size + 1024 - 1) div 1024, fm_checksum = 0, fm_active = True\<rparr>;
                s = \<lparr>fsd_path = snprintf FILE_PATH_MAX filepath, fsd_meta = meta, chunks_sent = 0, fsd_active = False\<rparr>;
                ft1 = ft\<lparr>sends := (sends ft)[n := s]\<rparr>
            in case open_read fs filepath of
                 None \<Rightarrow> (-1, ft1)
               | Some d \<Rightarrow>
                   (case checksum_loop (unat size) d 0 of
                      None \<Rightarrow> (-1, ft1)
                    | Some c \<Rightarrow>
                        (int n, ft\<lparr>sends := (sends ft)[n := s\<lparr>fsd_meta := meta\<lparr>fm_checksum := c\<rparr>\<rparr>], send_count := n + 1\<rparr>)))"

text \<open>The chunk read into \<open>buf\<close>, if any, beside the status.\<close>

definition file_send_chunk :: "file_system \<Rightarrow> int \<Rightarrow> file_transfer_ctx \<Rightarrow> int \<times> bytes option \<times> file_transfer_ctx" where
  "file_send_chunk fs send_idx ft =
     (if send_idx < 0 \<or> send_idx \<ge> int (send_count ft) then (-1, None, ft)
      else let i = nat send_idx; s = sends ft ! i in
        if \<not> fsd_active s \<or> chunks_sent s \<ge> fm_total_chunks (fsd_meta s) then (-1, None, ft)
        else case open_read fs (fsd_path s) of
          None \<Rightarrow> (-1, None, ft)
        | Some d \<Rightarrow>
            let off = chunks_sent s * 1024;
                remaining = unat (fm_total_size (fsd_meta s) - off);
                rd = (if remaining > FILE_CHUNK_SIZE then FILE_CHUNK_SIZE else remaining);
                buf = take rd (drop (unat off) d)
            in if length buf \<noteq> rd then (-1, None, ft)
               else let s' = s\<lparr>chunks_sent := chunks_sent s + 1\<rparr>
                    in (if chunks_sent s' \<ge> fm_total_chunks (fsd_meta s) then 1 else 0, Some buf, ft\<lparr>sends := (sends ft)[i := s']\<rparr>))"

definition file_send_finished :: "int \<Rightarrow> file_transfer_ctx \<Rightarrow> bool" where
  "file_send_finished send_idx ft =
     (if send_idx < 0 \<or> send_idx \<ge> int (send_count ft) then False
      else let s = sends ft ! nat send_idx in fsd_active s \<and> chunks_sent s \<ge> fm_total_chunks (fsd_meta s))"

section \<open>Receiving\<close>

definition file_recv_start :: "string \<Rightarrow> u32 \<Rightarrow> u32 \<Rightarrow> u32 \<Rightarrow> file_transfer_ctx \<Rightarrow> int \<times> file_transfer_ctx" where
  "file_recv_start filename total_size total_chunks checksum ft =
     (if recv_count ft \<ge> FILE_TRANSFER_MAX then (-1, ft)
      else if total_chunks > FILE_MAX_CHUNKS then (-1, ft)
      else let n = recv_count ft;
               meta = \<lparr>fm_filename = snprintf FILE_NAME_MAX filename, fm_total_size = total_size,
                       fm_total_chunks = total_chunks, fm_checksum = checksum, fm_active = True\<rparr>
           in (int n, ft\<lparr>recvs := (recvs ft)[n := \<lparr>fr_meta = meta, fr_path = [], chunks_recvd = 0, fr_active = True\<rparr>],
                         recv_count := n + 1\<rparr>))"

definition part_path :: "string \<Rightarrow> string" where
  "part_path filename = snprintf FILE_PATH_MAX (''/tmp/ssm_file_'' @ filename @ ''.part'')"

definition file_recv_chunk ::
    "int \<Rightarrow> bytes \<Rightarrow> u32 \<Rightarrow> file_system \<times> file_transfer_ctx \<Rightarrow> int \<times> file_system \<times> file_transfer_ctx" where
  "file_recv_chunk recv_idx d chunk_seq st =
     (let (fs, ft) = st in
      if recv_idx < 0 \<or> recv_idx \<ge> int (recv_count ft) then (-1, fs, ft)
      else let i = nat recv_idx; r = recvs ft ! i in
        if \<not> fr_active r then (-1, fs, ft)
        else if chunk_seq \<ge> fm_total_chunks (fr_meta r) then (-1, fs, ft)
        else let r1 = (if fr_path r = [] then r\<lparr>fr_path := part_path (fm_filename (fr_meta r))\<rparr> else r);
                 p = fr_path r1
             in if \<not> fs_access fs p then (-1, fs, ft\<lparr>recvs := (recvs ft)[i := r1]\<rparr>)
                else let old = (case files fs p of None \<Rightarrow> [] | Some c \<Rightarrow> c);
                         fs' = fs\<lparr>files := (files fs)(p \<mapsto> file_write (unat (chunk_seq * 1024)) d old)\<rparr>;
                         r2 = r1\<lparr>chunks_recvd := chunks_recvd r1 + 1\<rparr>
                     in (if chunks_recvd r2 \<ge> fm_total_chunks (fr_meta r) then 1 else 0, fs', ft\<lparr>recvs := (recvs ft)[i := r2]\<rparr>))"

text \<open>\<open>rename\<close> moves the contents when both paths are accessible; its result is ignored.\<close>

definition rename_file :: "string \<Rightarrow> string \<Rightarrow> file_system \<Rightarrow> file_system" where
  "rename_file p q fs =
     (if fs_access fs p \<and> fs_access fs q \<and> p \<noteq> q
      then (case files fs p of None \<Rightarrow> fs | Some c \<Rightarrow> fs\<lparr>files := (files fs)(p := None, q \<mapsto> c)\<rparr>)
      else fs)"

definition file_recv_finish ::
    "int \<Rightarrow> string option \<Rightarrow> file_system \<times> file_transfer_ctx \<Rightarrow> int \<times> file_system \<times> file_transfer_ctx" where
  "file_recv_finish recv_idx save_dir st =
     (let (fs, ft) = st in
      if recv_idx < 0 \<or> recv_idx \<ge> int (recv_count ft) then (-1, fs, ft)
      else let i = nat recv_idx; r = recvs ft ! i; m = fr_meta r in
        if \<not> fr_active r then (-1, fs, ft)
        else if chunks_recvd r < fm_total_chunks m then (-1, fs, ft)
        else case open_read fs (fr_path r) of
          None \<Rightarrow> (-1, fs, ft)
        | Some d \<Rightarrow>
            (case checksum_loop (unat (fm_total_size m)) d 0 of
               None \<Rightarrow> (-1, fs, ft)
             | Some c \<Rightarrow>
                 if c \<noteq> fm_checksum m then (-1, fs\<lparr>files := (files fs)(fr_path r := None)\<rparr>, ft)
                 else let final_path = (case save_dir of
                                          Some dir \<Rightarrow> snprintf FILE_PATH_MAX (dir @ ''/'' @ fm_filename m)
                                        | None \<Rightarrow> snprintf FILE_PATH_MAX (fr_path r))
                      in (0, rename_file (fr_path r) final_path fs, ft\<lparr>recvs := (recvs ft)[i := r\<lparr>fr_active := False\<rparr>]\<rparr>)))"

section \<open>Chunks of a file\<close>

text \<open>The \<open>k\<close>-th chunk and the number of chunks; what a partly received file has of the contents.\<close>

definition chunk :: "nat \<Rightarrow> bytes \<Rightarrow> bytes" where
  "chunk k c = take FILE_CHUNK_SIZE (drop (FILE_CHUNK_SIZE * k) c)"

definition chunks_of :: "bytes \<Rightarrow> nat" where
  "chunks_of c = (length c + 1023) div FILE_CHUNK_SIZE"

definition has_chunks :: "bytes \<Rightarrow> nat set \<Rightarrow> bytes \<Rightarrow> bool" where
  "has_chunks c S d \<longleftrightarrow> length d \<le> length c \<and>
     (\<forall>j < length c. j div FILE_CHUNK_SIZE \<in> S \<longrightarrow> j < length d \<and> d ! j = c ! j)"

lemma length_file_write [simp]: "length (file_write off bs d) = (if bs = [] then length d else max (length d) (off + length bs))"
  by (cases "bs = []") (simp_all add: file_write_def)

lemma nth_file_write:
  assumes "j < length (file_write off bs d)"
  shows "file_write off bs d ! j =
    (if off \<le> j \<and> j < off + length bs then bs ! (j - off) else if j < length d then d ! j else 0)"
proof (cases "bs = [] \<or> j < off")
  case True
  then show ?thesis using assms by (auto simp: file_write_def nth_append)
next
  case False
  then obtain a where a: "file_write off bs d = a @ bs @ drop (off + length bs) d" "length a = off"
    by (simp add: file_write_def)
  show ?thesis using False assms unfolding a(1) by (auto simp: nth_append a(2))
qed

lemma chunk_bounds: "k < chunks_of c \<Longrightarrow> FILE_CHUNK_SIZE * k + length (chunk k c) \<le> length c"
  "length (chunk k c) = min FILE_CHUNK_SIZE (length c - FILE_CHUNK_SIZE * k)"
  by (auto simp: chunk_def chunks_of_def)

lemma chunk_nonempty: "k < chunks_of c \<Longrightarrow> chunk k c \<noteq> []"
  by (auto simp: chunk_def chunks_of_def)

lemma div_chunk: "(j::nat) div FILE_CHUNK_SIZE = k \<longleftrightarrow> FILE_CHUNK_SIZE * k \<le> j \<and> j < FILE_CHUNK_SIZE * k + FILE_CHUNK_SIZE"
  by auto

lemma has_chunks_write:
  assumes "has_chunks c S d" "k < chunks_of c"
  shows "has_chunks c (insert k S) (file_write (FILE_CHUNK_SIZE * k) (chunk k c) d)"
  unfolding has_chunks_def
proof (intro conjI allI impI)
  let ?d = "file_write (FILE_CHUNK_SIZE * k) (chunk k c) d"
  note ne = chunk_nonempty [OF assms(2)]
  show "length ?d \<le> length c" using assms chunk_bounds(1) [OF assms(2)] ne by (simp add: has_chunks_def)
  fix j assume j: "j < length c" "j div FILE_CHUNK_SIZE \<in> insert k S"
  have in_chunk: "j < FILE_CHUNK_SIZE * k + length (chunk k c)" if "FILE_CHUNK_SIZE * k \<le> j" "j < FILE_CHUNK_SIZE * k + FILE_CHUNK_SIZE"
    using that j(1) by (simp add: chunk_bounds(2))
  show l: "j < length ?d"
  proof (cases "j div FILE_CHUNK_SIZE = k")
    case True
    then show ?thesis using in_chunk ne by (simp only: div_chunk) simp
  qed (use j ne assms(1) in \<open>auto simp: has_chunks_def\<close>)
  show "?d ! j = c ! j"
  proof (cases "FILE_CHUNK_SIZE * k \<le> j \<and> j < FILE_CHUNK_SIZE * k + length (chunk k c)")
    case True
    then show ?thesis using j(1) nth_file_write [OF l] by (auto simp: chunk_def)
  next
    case False
    then have "j div FILE_CHUNK_SIZE \<noteq> k" using in_chunk by (auto simp only: div_chunk)
    then have "j < length d \<and> d ! j = c ! j" using j assms(1) by (auto simp: has_chunks_def)
    then show ?thesis using False nth_file_write [OF l] by auto
  qed
qed

lemma has_all_chunks: "has_chunks c {..<chunks_of c} d \<Longrightarrow> d = c"
proof (rule nth_equalityI)
  assume h: "has_chunks c {..<chunks_of c} d"
  have "j div FILE_CHUNK_SIZE < chunks_of c" if "j < length c" for j using that by (auto simp: chunks_of_def)
  then have a: "j < length d \<and> d ! j = c ! j" if "j < length c" for j using h that by (auto simp: has_chunks_def)
  show l: "length d = length c"
    using h a [of "length c - 1"] a [of "length d"] by (cases "c = []") (auto simp: has_chunks_def)
  show "d ! j = c ! j" if "j < length d" for j using a that l by simp
qed

lemma checksum_loop_total: "\<lbrakk> n \<le> length d \<rbrakk> \<Longrightarrow> \<exists>c. checksum_loop n d acc = Some c"
proof (induction n d acc rule: checksum_loop.induct)
  case (1 n d acc)
  then show ?case by (subst checksum_loop.simps) (auto simp: Let_def)
qed

lemma checksum_loop_short: "length d < n \<Longrightarrow> checksum_loop n d acc = None"
proof (induction n d acc rule: checksum_loop.induct)
  case (1 n d acc)
  then show ?case by (subst checksum_loop.simps) (auto simp: Let_def)
qed

section \<open>A complete transfer\<close>

text \<open>The metadata the sender computes for a file.\<close>

definition meta_of :: "bytes \<Rightarrow> file_meta \<Rightarrow> bool" where
  "meta_of c m \<longleftrightarrow> fm_total_size m = of_nat (length c) \<and> fm_total_chunks m = of_nat (chunks_of c) \<and>
     checksum_loop (length c) c 0 = Some (fm_checksum m) \<and> fm_active m"

lemma send_start_meta:
  assumes "file_send_start fs path ft = (i, ft')" "0 \<le> i" "files fs path = Some c" "length (sends ft) = FILE_TRANSFER_MAX"
    and "length c \<le> 2 ^ 32 - 1024"
  shows "meta_of c (fsd_meta (sends ft' ! nat i)) \<and> fm_filename (fsd_meta (sends ft' ! nat i)) = snprintf FILE_NAME_MAX (basename path)"
proof -
  have u: "unat (of_nat (length c) :: u32) = length c" using assms(5) by (simp add: unat_of_nat)
  have "of_nat (length c) + 1024 - 1 = (of_nat (length c + 1023) :: u32)" by simp
  moreover have "unat (of_nat (length c + 1023) :: u32) = length c + 1023" using assms(5) by (simp only: unat_of_nat) simp
  then have "unat ((of_nat (length c + 1023) :: u32) div 1024) = (length c + 1023) div 1024" by (simp only: unat_div) simp
  then have "(of_nat (length c + 1023) :: u32) div 1024 = of_nat ((length c + 1023) div 1024)"
    by (metis of_nat_unat ucast_id)
  ultimately have d: "(of_nat (length c) + 1024 - 1) div 1024 = (of_nat (chunks_of c) :: u32)" by (simp add: chunks_of_def add.commute)
  show ?thesis using assms(1-4) u d
    by (auto simp: file_send_start_def Let_def meta_of_def open_read_def split: if_splits option.splits)
qed

text \<open>Receiver \<open>i\<close> after \<open>m\<close> chunks, of which the file at \<open>p\<close> has those in \<open>S\<close>.\<close>

definition receiving :: "bytes \<Rightarrow> file_meta \<Rightarrow> nat \<Rightarrow> nat set \<Rightarrow> nat \<Rightarrow> file_system \<times> file_transfer_ctx \<Rightarrow> bool" where
  "receiving c m i S n st \<longleftrightarrow> (case st of (fs, ft) \<Rightarrow>
     let r = recvs ft ! i; p = part_path (fm_filename m) in
     i < recv_count ft \<and> i < length (recvs ft) \<and> fr_active r \<and> fr_meta r = m \<and> chunks_recvd r = of_nat n \<and> fs_access fs p \<and>
     (if n = 0 then S = {} \<and> fr_path r = [] \<and> files fs p = None
      else fr_path r = p \<and> (\<exists>d. files fs p = Some d \<and> has_chunks c S d)))"

lemma has_chunks_empty: "has_chunks c {} []"
  by (simp add: has_chunks_def)

lemma part_path_nonempty: "part_path f \<noteq> []"
  by (simp add: part_path_def snprintf_def)

lemma chunk_offset:
  assumes "k < n" "n \<le> 4194304"
  shows "unat ((of_nat k :: u32) * 1024) = FILE_CHUNK_SIZE * k" "of_nat k < (of_nat n :: u32)"
proof -
  have "(of_nat k :: u32) * 1024 = of_nat (1024 * k)" by simp
  moreover have "unat (of_nat (1024 * k) :: u32) = 1024 * k" using assms by (simp only: unat_of_nat) simp
  ultimately show "unat ((of_nat k :: u32) * 1024) = FILE_CHUNK_SIZE * k" by (simp only:)
  have "unat (of_nat k :: u32) = k" "unat (of_nat n :: u32) = n" using assms by (simp_all add: unat_of_nat)
  then show "of_nat k < (of_nat n :: u32)" using assms(1) by (simp add: word_less_nat_alt)
qed

lemma receive_chunk:
  assumes r: "receiving c m i S n st" and m: "meta_of c m" and k: "k < chunks_of c" "chunks_of c \<le> 4194304" and n: "n < 2 ^ 32 - 1"
  shows "receiving c m i (insert k S) (Suc n) (snd (file_recv_chunk (int i) (chunk k c) (of_nat k) st)) \<and>
    fst (file_recv_chunk (int i) (chunk k c) (of_nat k) st) = (if chunks_of c \<le> Suc n then 1 else 0) \<and>
    fst (snd (file_recv_chunk (int i) (chunk k c) (of_nat k) st)) =
      (fst st)\<lparr>files := (files (fst st))(part_path (fm_filename m) \<mapsto> file_write (FILE_CHUNK_SIZE * k) (chunk k c)
        (case files (fst st) (part_path (fm_filename m)) of None \<Rightarrow> [] | Some x \<Rightarrow> x))\<rparr>"
proof -
  obtain fs ft where st: "st = (fs, ft)" by fastforce
  let ?r = "recvs ft ! i" and ?p = "part_path (fm_filename m)"
  obtain d where d: "has_chunks c S d" "(case files fs ?p of None \<Rightarrow> [] | Some x \<Rightarrow> x) = d"
    using r has_chunks_empty by (cases "n = 0") (auto simp: st receiving_def Let_def)
  have "fr_path ?r = [] \<or> fr_path ?r = ?p" "fr_meta ?r = m" using r by (auto simp: st receiving_def Let_def split: if_splits)
  then have p: "(if fr_path ?r = [] then ?r\<lparr>fr_path := part_path (fm_filename (fr_meta ?r))\<rparr> else ?r) = ?r\<lparr>fr_path := ?p\<rparr>"
    by auto
  let ?fs = "fs\<lparr>files := (files fs)(?p \<mapsto> file_write (FILE_CHUNK_SIZE * k) (chunk k c) d)\<rparr>"
  let ?r' = "?r\<lparr>fr_path := ?p, chunks_recvd := chunks_recvd ?r + 1\<rparr>"
  have "unat (of_nat (Suc n) :: u32) = Suc n" "unat (of_nat (chunks_of c) :: u32) = chunks_of c"
    using n k(2) by (simp_all only: unat_of_nat) simp_all
  then have le: "(of_nat (chunks_of c) :: u32) \<le> of_nat n + 1 \<longleftrightarrow> chunks_of c \<le> Suc n"
    by (simp add: word_le_nat_alt add.commute)
  have "file_recv_chunk (int i) (chunk k c) (of_nat k) st =
      (if chunks_of c \<le> Suc n then 1 else 0, ?fs, ft\<lparr>recvs := (recvs ft)[i := ?r']\<rparr>)"
    using r m d(2) chunk_offset [OF k] le unfolding st file_recv_chunk_def Let_def prod.case nat_int p
    by (simp add: receiving_def meta_of_def Let_def)
  then show ?thesis
    using r has_chunks_write [OF d(1) k(1)] d(2) by (auto simp: st receiving_def Let_def)
qed

lemma receive_finish:
  assumes "receiving c m i {..<chunks_of c} n (fs, ft)" "meta_of c m" "0 < n" "n < 2 ^ 32" "chunks_of c \<le> n" "length c < 2 ^ 32"
    and q: "q = snprintf FILE_PATH_MAX (dir @ ''/'' @ fm_filename m)" "fs_access fs q"
  shows "\<exists>fs' ft'. file_recv_finish (int i) (Some dir) (fs, ft) = (0, fs', ft') \<and> files fs' q = Some c"
proof -
  let ?r = "recvs ft ! i" and ?p = "part_path (fm_filename m)"
  have r: "i < recv_count ft" "fr_active ?r" "fr_meta ?r = m" "chunks_recvd ?r = of_nat n" "fs_access fs ?p" "fr_path ?r = ?p"
    "files fs ?p = Some c"
    using assms(1,3) has_all_chunks by (auto simp: receiving_def Let_def)
  have u: "unat (of_nat (length c) :: u32) = length c" "unat (of_nat n :: u32) = n" "unat (of_nat (chunks_of c) :: u32) = chunks_of c"
    using assms(4-6) by (simp_all add: unat_of_nat)
  then have "\<not> (of_nat n :: u32) < of_nat (chunks_of c)" using assms(5) by (simp add: word_less_nat_alt)
  then show ?thesis
    using r u assms(2) q by (auto simp: file_recv_finish_def Let_def open_read_def meta_of_def rename_file_def)
qed

lemma finish_short:
  assumes "receiving c m i S n (fs, ft)" "meta_of c m" "0 < n" "length c < 2 ^ 32" "files fs (part_path (fm_filename m)) = Some d" "length d < length c"
  shows "file_recv_finish (int i) dir (fs, ft) = (-1, fs, ft)"
  using assms checksum_loop_short [OF assms(6), of 0]
  by (auto simp: file_recv_finish_def receiving_def meta_of_def open_read_def unat_of_nat Let_def)

text \<open>A reception that \<open>file_recv_start\<close> opened for the metadata of a sender.\<close>

lemma receive_start:
  assumes m: "meta_of c m" "fm_filename m = snprintf FILE_NAME_MAX f" and c: "length c \<le> 2 ^ 32 - 1024"
    and recv: "recv_count ft < FILE_TRANSFER_MAX" "length (recvs ft) = FILE_TRANSFER_MAX"
      "file_recv_start (fm_filename m) (fm_total_size m) (fm_total_chunks m) (fm_checksum m) ft = (i, ft1)"
    and fs: "fs_access fs (part_path (fm_filename m))" "files fs (part_path (fm_filename m)) = None"
  shows "chunks_of c \<le> 4194304 \<and> i = int (recv_count ft) \<and> receiving c m (recv_count ft) {} 0 (fs, ft1)"
proof -
  have n: "chunks_of c \<le> 4194304" using c by (auto simp: chunks_of_def div_le_mono)
  then have "unat (of_nat (chunks_of c) :: u32) = chunks_of c" by (simp add: unat_of_nat)
  then have "\<not> fm_total_chunks m > FILE_MAX_CHUNKS" using m(1) n by (simp add: meta_of_def word_less_nat_alt)
  then show ?thesis
    using n recv fs m by (cases m) (auto simp: file_recv_start_def receiving_def Let_def snprintf_def meta_of_def)
qed

text \<open>
  No file is ever sent: \<open>file_send_start\<close> sets the flag \<open>active\<close> of the metadata, but
  \<open>file_send_chunk\<close> tests the flag of the transfer, which nothing sets. After a successful start every
  request for a chunk fails and the transfer never counts as finished.
\<close>

theorem file_send_never_sends:
  assumes "file_send_start fs path ft = (i, ft')" "0 \<le> i" "length (sends ft) = FILE_TRANSFER_MAX"
  shows "file_send_chunk fs' i ft' = (-1, None, ft') \<and> \<not> file_send_finished i ft'"
proof -
  have "i = int (send_count ft)" "send_count ft < length (sends ft)" "\<not> fsd_active (sends ft' ! send_count ft)"
    using assms by (auto simp: file_send_start_def Let_def split: if_splits option.splits)
  then show ?thesis by (simp add: file_send_chunk_def file_send_finished_def Let_def)
qed

section \<open>Witnesses\<close>

definition fs_sample :: file_system where
  "fs_sample = \<lparr>files = [''/a/b'' \<mapsto> [7, 8]], fs_access = (\<lambda>_. True)\<rparr>"

lemma send_sample:
  "\<exists>ft'. file_send_start fs_sample ''/a/b'' file_transfer_init = (0, ft') \<and> fm_filename (fsd_meta (sends ft' ! 0)) = ''b''"
proof -
  obtain c where "checksum_loop 2 [7, 8] 0 = Some c" using checksum_loop_total [of 2 "[7, 8]" 0] by auto
  moreover have "basename ''/a/b'' = ''b''" by (simp add: basename_def)
  ultimately show ?thesis
    by (simp add: file_send_start_def fs_sample_def file_transfer_init_def open_read_def Let_def snprintf_def)
qed

theorem file_send_never_sends_witness:
  "\<exists>ft'. file_send_start fs_sample ''/a/b'' file_transfer_init = (0, ft') \<and> file_send_chunk fs_sample 0 ft' = (-1, None, ft')"
proof -
  obtain ft' where "file_send_start fs_sample ''/a/b'' file_transfer_init = (0, ft')" using send_sample by blast
  then show ?thesis using file_send_never_sends [of fs_sample "''/a/b''" file_transfer_init 0 ft' fs_sample]
    by (auto simp: file_transfer_init_def)
qed

end
