(* ===== verification/Media.thy ===== *)
theory Media
  imports Fec
begin

text \<open>
  The jitter buffer of received audio frames (\<open>lib/engine/audio_pipeline.c\<close>) and the adaptive
  error correction (\<open>lib/engine/adaptive_bitrate.c\<close>). Frames are a type parameter. The
  thresholds \<open>0.03f\<close>, \<open>0.10f\<close> and \<open>0.20f\<close> are the rationals 3/100, 1/10 and 1/5: a loss rate is a
  multiple of 1/64, and none lies between a \<open>float\<close> threshold and its decimal value.
\<close>

section \<open>Jitter buffer\<close>

abbreviation AUDIO_FRAME_MS :: nat where "AUDIO_FRAME_MS \<equiv> 20"
abbreviation JITTER_MAX_FRAMES :: nat where "JITTER_MAX_FRAMES \<equiv> 5"

record 'f jitter_buffer =
  jb_buffer :: "'f list"
  jb_count :: nat
  read_cursor :: nat
  write_cursor :: nat
  target_frames :: nat

definition jitter_init :: "'f \<Rightarrow> nat \<Rightarrow> 'f jitter_buffer" where
  "jitter_init zero target_ms =
     (let t = target_ms div AUDIO_FRAME_MS; t1 = (if t < 1 then 1 else t); t2 = (if t1 > JITTER_MAX_FRAMES then JITTER_MAX_FRAMES else t1)
      in \<lparr>jb_buffer = replicate JITTER_MAX_FRAMES zero, jb_count = 0, read_cursor = 0, write_cursor = 0, target_frames = t2\<rparr>)"

definition jitter_push :: "'f \<Rightarrow> 'f jitter_buffer \<Rightarrow> int \<times> 'f jitter_buffer" where
  "jitter_push frame jb =
     (if jb_count jb \<ge> JITTER_MAX_FRAMES then (-1, jb)
      else let pos = (write_cursor jb + jb_count jb) mod JITTER_MAX_FRAMES
           in (0, jb\<lparr>jb_buffer := (jb_buffer jb)[pos := frame], jb_count := jb_count jb + 1\<rparr>))"

definition jitter_pop :: "'f jitter_buffer \<Rightarrow> int \<times> 'f option \<times> 'f jitter_buffer" where
  "jitter_pop jb =
     (if jb_count jb = 0 then (-1, None, jb)
      else if jb_count jb < target_frames jb then (-1, None, jb)
      else (0, Some (jb_buffer jb ! read_cursor jb),
            jb\<lparr>read_cursor := (read_cursor jb + 1) mod JITTER_MAX_FRAMES, jb_count := jb_count jb - 1\<rparr>))"

definition jitter_reset :: "'f jitter_buffer \<Rightarrow> 'f jitter_buffer" where
  "jitter_reset jb = jb\<lparr>jb_count := 0, read_cursor := 0, write_cursor := 0\<rparr>"

text \<open>The frames waiting to be played, in the order \<open>jitter_pop\<close> returns them.\<close>

definition waiting :: "'f jitter_buffer \<Rightarrow> 'f list" where
  "waiting jb = map (\<lambda>i. jb_buffer jb ! ((read_cursor jb + i) mod JITTER_MAX_FRAMES)) [0..<jb_count jb]"

inductive jitter_step :: "'f jitter_buffer \<Rightarrow> 'f jitter_buffer \<Rightarrow> bool" where
  jitter_push_step: "jitter_step jb (snd (jitter_push f jb))"
| jitter_pop_step: "jitter_step jb (snd (snd (jitter_pop jb)))"
| jitter_reset_step: "jitter_step jb (jitter_reset jb)"

inductive_cases jitter_stepE: "jitter_step jb jb'"

definition jitter_ok :: "'f jitter_buffer \<Rightarrow> bool" where
  "jitter_ok jb \<longleftrightarrow> length (jb_buffer jb) = JITTER_MAX_FRAMES \<and> jb_count jb \<le> JITTER_MAX_FRAMES \<and> read_cursor jb < JITTER_MAX_FRAMES \<and>
     write_cursor jb = 0 \<and> 1 \<le> target_frames jb \<and> target_frames jb \<le> JITTER_MAX_FRAMES"

lemma jitter_init_ok: "jitter_ok (jitter_init z t)"
  by (simp add: jitter_init_def jitter_ok_def Let_def)

lemma jitter_step_ok: "\<lbrakk> jitter_ok jb; jitter_step jb jb' \<rbrakk> \<Longrightarrow> jitter_ok jb'"
  by (erule jitter_stepE) (auto simp: jitter_ok_def jitter_push_def jitter_pop_def jitter_reset_def Let_def)

interpretation jitter_sys: invariant_system "\<lambda>jb. \<exists>z t. jb = jitter_init z t" jitter_step jitter_ok
  by unfold_locales (auto intro: jitter_init_ok jitter_step_ok)

lemma jitter_pop_front:
  assumes "jitter_ok jb" "target_frames jb \<le> jb_count jb"
  shows "\<exists>f jb'. jitter_pop jb = (0, Some f, jb') \<and> waiting jb = f # waiting jb'"
proof -
  have n: "0 < jb_count jb" using assms by (auto simp: jitter_ok_def)
  then have u: "[0..<jb_count jb] = 0 # map Suc [0..<jb_count jb - 1]"
    by (metis Suc_diff_1 map_Suc_upt upt_conv_Cons)
  have m: "(Suc (read_cursor jb) mod 5 + i) mod 5 = (Suc (read_cursor jb) + i) mod 5" for i by (simp add: mod_add_left_eq)
  show ?thesis using assms n
    by (auto simp: jitter_pop_def waiting_def u jitter_ok_def m simp del: upt_Suc upt.simps)
qed

lemma waiting_nth: "i < jb_count jb \<Longrightarrow> waiting jb ! i = jb_buffer jb ! ((read_cursor jb + i) mod JITTER_MAX_FRAMES)"
  by (simp add: waiting_def)

lemma length_waiting [simp]: "length (waiting jb) = jb_count jb"
  by (simp add: waiting_def)

text \<open>
  The jitter buffer loses frames. The write position is computed from \<open>write_cursor\<close>, which
  never moves, while \<open>jitter_pop\<close> advances \<open>read_cursor\<close>: in every reachable state in which
  \<open>read_cursor\<close> lies between 1 and the number of waiting frames, a successful \<open>jitter_push\<close> overwrites a
  frame that waits to be played instead of appending.
\<close>

theorem jitter_push_overwrites:
  assumes "reach (\<lambda>jb. \<exists>z t. jb = jitter_init z t) jitter_step jb"
    and "1 \<le> read_cursor jb" "read_cursor jb \<le> jb_count jb" "jb_count jb < JITTER_MAX_FRAMES"
  shows "\<exists>jb'. jitter_push f jb = (0, jb') \<and>
    take (jb_count jb) (waiting jb') = (waiting jb)[jb_count jb - read_cursor jb := f]"
proof -
  have ok: "jitter_ok jb" using jitter_sys.reach_inv [OF assms(1)] .
  let ?b = "(jb_buffer jb)[jb_count jb := f]"
  let ?jb = "jb\<lparr>jb_buffer := ?b, jb_count := jb_count jb + 1\<rparr>"
  have p: "jitter_push f jb = (0, ?jb)" using ok assms(4) by (simp add: jitter_push_def jitter_ok_def)
  have "take (jb_count jb) (waiting ?jb) = (waiting jb)[jb_count jb - read_cursor jb := f]"
  proof (rule nth_equalityI)
    fix i assume "i < length (take (jb_count jb) (waiting ?jb))"
    then have i: "i < jb_count jb" by simp
    have "(read_cursor jb + i) mod 5 = jb_count jb \<longleftrightarrow> i = jb_count jb - read_cursor jb"
      using assms(2-4) i by (cases "read_cursor jb + i < 5") (auto simp: mod_if)
    moreover have "(read_cursor jb + i) mod 5 < length (jb_buffer jb)" using ok by (simp add: jitter_ok_def)
    ultimately show "take (jb_count jb) (waiting ?jb) ! i = (waiting jb)[jb_count jb - read_cursor jb := f] ! i"
      using i by (auto simp: waiting_nth nth_list_update)
  qed simp
  then show ?thesis using p by blast
qed

theorem jitter_push_overwrites_witness:
  "\<exists>jb :: nat jitter_buffer. reach (\<lambda>jb. \<exists>z t. jb = jitter_init z t) jitter_step jb \<and> waiting jb = [2] \<and>
     take 1 (waiting (snd (jitter_push 3 jb))) = [3]"
proof -
  let ?i = "jitter_init (0 :: nat) 40"
  let ?jb = "snd (snd (jitter_pop (snd (jitter_push 2 (snd (jitter_push 1 ?i))))))"
  have "reach (\<lambda>jb. \<exists>z t. jb = jitter_init z t) jitter_step ?i" by (rule reach_start) blast
  then have r: "reach (\<lambda>jb. \<exists>z t. jb = jitter_init z t) jitter_step ?jb" by (blast intro: reach_step jitter_step.intros)
  have s: "read_cursor ?jb = 1" "jb_count ?jb = 1" "waiting ?jb = [2]" by code_simp+
  show ?thesis using jitter_push_overwrites [OF r, of 3] r s by auto
qed

section \<open>Adaptive error correction\<close>

abbreviation ABR_UPDATE_INTERVAL_MS :: u64 where "ABR_UPDATE_INTERVAL_MS \<equiv> 3000"

record abr_ctx =
  current_fec_group_size :: nat
  fec_was_enabled :: bool
  abr_enabled :: bool
  last_update_ms :: u64
  current_loss_rate :: rat

definition abr_init :: abr_ctx where
  "abr_init = \<lparr>current_fec_group_size = 4, fec_was_enabled = True, abr_enabled = True, last_update_ms = 0, current_loss_rate = 0\<rparr>"

text \<open>The chain of thresholds: error correction on or off, and the group size.\<close>

definition abr_policy :: "rat \<Rightarrow> bool \<times> nat" where
  "abr_policy l = (if l < 3/100 then (False, 0) else if l < 1/10 then (True, 8) else if l < 1/5 then (True, 4) else (True, 2))"

definition abr_update :: "abr_ctx \<Rightarrow> resilience \<Rightarrow> u64 \<Rightarrow> int \<times> abr_ctx \<times> resilience" where
  "abr_update ctx res now_ms =
     (if \<not> abr_enabled ctx then (0, ctx, res)
      else if now_ms - last_update_ms ctx < ABR_UPDATE_INTERVAL_MS then (0, ctx, res)
      else
        let max_loss = fold (\<lambda>p m. if loss_rate p > m then loss_rate p else m) (take (path_count res) (paths res)) 0;
            ctx1 = ctx\<lparr>last_update_ms := now_ms, current_loss_rate := max_loss\<rparr>;
            (new_fec_enabled, new_group) = abr_policy max_loss
        in if new_fec_enabled \<noteq> fec_enabled res \<or> new_group \<noteq> fec_group_size res
           then (1, ctx1\<lparr>current_fec_group_size := new_group, fec_was_enabled := new_fec_enabled\<rparr>,
                 res\<lparr>fec_enabled := new_fec_enabled, fec_group_size := new_group\<rparr>)
           else (0, ctx1, res))"

lemma fold_max_loss:
  "fold (\<lambda>p m. if loss_rate p > m then loss_rate p else m) ps a = Max (insert a (loss_rate ` set ps))"
proof (induction ps arbitrary: a)
  case (Cons p ps)
  have "Max (insert a (insert (loss_rate p) (loss_rate ` set ps))) = Max (insert (max a (loss_rate p)) (loss_rate ` set ps))"
    by (cases "set ps = {}") (simp_all add: max.assoc)
  then show ?case using Cons.IH by (simp add: max_def)
qed simp

text \<open>
  When an update is due, the error correction is set by the worst loss rate of the active
  paths, and the status says whether something changed.
\<close>

lemma abr_update_due:
  assumes "abr_enabled ctx" "ABR_UPDATE_INTERVAL_MS \<le> now_ms - last_update_ms ctx"
    and "l = Max (insert 0 (loss_rate ` set (take (path_count res) (paths res))))"
  shows "\<exists>st ctx'. abr_update ctx res now_ms = (st, ctx', res\<lparr>fec_enabled := fst (abr_policy l), fec_group_size := snd (abr_policy l)\<rparr>) \<and>
    current_loss_rate ctx' = l \<and> last_update_ms ctx' = now_ms \<and>
    (st = 1 \<longleftrightarrow> abr_policy l \<noteq> (fec_enabled res, fec_group_size res))"
proof -
  have "\<not> now_ms - last_update_ms ctx < ABR_UPDATE_INTERVAL_MS" using assms(2) by simp
  then show ?thesis
    using assms(1,3) by (cases "abr_policy l") (auto simp: abr_update_def fold_max_loss Let_def)
qed

lemma abr_policy_exact:
  "abr_policy l = (True, 8) \<longleftrightarrow> 3/100 \<le> l \<and> l < 1/10"
  "fst (abr_policy l) \<longleftrightarrow> 3/100 \<le> l"
  by (auto simp: abr_policy_def)

text \<open>
  C35: The adaptive error correction breaks the arrays of the error correction. When the worst
  loss rate of the paths lies between 3 and 10 percent, a due update sets groups of 8 packets,
  but the structure has room for 4: the next transmission that opens a group and the next
  received packet with a position of 4 or more in its group write outside the arrays.
\<close>

theorem abr_overflows_fec_arrays:
  assumes "abr_enabled ctx" "ABR_UPDATE_INTERVAL_MS \<le> now_ms - last_update_ms ctx"
    and "l = Max (insert 0 (loss_rate ` set (take (path_count res) (paths res))))" "3/100 \<le> l" "l < 1/10"
  shows "\<exists>st ctx' res'. abr_update ctx res now_ms = (st, ctx', res') \<and> fec_enabled res' \<and> fec_group_size res' = 8 \<and>
    (fec_group_pos res = 0 \<longrightarrow> fec_tx_accumulate res' payload sq ch = None) \<and>
    (4 \<le> unat sq mod 8 \<longrightarrow> fec_rx_track res' sq payload = None)"
proof -
  have p: "abr_policy l = (True, 8)" using assms(4,5) by (simp add: abr_policy_exact)
  obtain st ctx' where u: "abr_update ctx res now_ms = (st, ctx', res\<lparr>fec_enabled := True, fec_group_size := 8\<rparr>)"
    using abr_update_due [OF assms(1-3)] p by auto
  show ?thesis using u
    by (auto simp: fec_tx_accumulate_def fec_clear_lens_def fec_rx_track_def fec_store_slot_def Let_def)
qed

theorem abr_overflows_fec_arrays_witness:
  "\<exists>res st ctx' res'. abr_update abr_init res 3000 = (st, ctx', res') \<and> fec_tx_accumulate res' [1] 1 3 = None"
proof -
  let ?r = "(resilience_init)\<lparr>path_count := 1, paths := [path_metrics_zero\<lparr>loss_rate := 1/20\<rparr>]\<rparr>"
  have m: "1/20 = Max (insert 0 (loss_rate ` set (take (path_count ?r) (paths ?r))))" by (simp add: max_def)
  have z: "fec_group_pos ?r = 0" by (simp add: resilience_init_def resilience_zero_def)
  have "(3/100 :: rat) \<le> 1/20" "(1/20 :: rat) < 1/10" by simp_all
  then show ?thesis
    using abr_overflows_fec_arrays [OF _ _ m, of abr_init 3000 "[1]" 1 3] z by (auto simp: abr_init_def)
qed

end
