(* ===== verification/Conn_Request.thy ===== *)
theory Conn_Request
  imports Rekey Keyed_Table
begin

text \<open>
  Connection requests (\<open>lib/engine/conn_request.c\<close>): the three control messages and the table of
  eight pending requests. Names are the bytes of the C strings without the terminating zero; the
  \<open>username\<close> and \<open>display_name\<close> fields of the table are the character arrays. The handler reads
  the packet at fixed offsets without looking at its length.
\<close>

abbreviation CTRL_CONNECT_REQUEST :: u8 where "CTRL_CONNECT_REQUEST \<equiv> 17"
abbreviation CTRL_CONNECT_ACCEPT :: u8 where "CTRL_CONNECT_ACCEPT \<equiv> 18"
abbreviation CTRL_CONNECT_DECLINE :: u8 where "CTRL_CONNECT_DECLINE \<equiv> 19"
abbreviation CONN_REQUEST_MAX_PENDING :: nat where "CONN_REQUEST_MAX_PENDING \<equiv> 8"

record pending_request =
  pr_addr :: bytes
  pr_port :: u16
  pr_username :: bytes
  pr_display_name :: bytes
  pr_timestamp_ms :: u64
  pr_active :: bool

record conn_request_table =
  requests :: "pending_request list"
  req_count :: nat

definition conn_requests_zero :: conn_request_table where
  "conn_requests_zero = \<lparr>requests = replicate CONN_REQUEST_MAX_PENDING \<lparr>pr_addr = replicate 16 0, pr_port = 0,
     pr_username = replicate 32 0, pr_display_name = replicate 64 0, pr_timestamp_ms = 0, pr_active = False\<rparr>, req_count = 0\<rparr>"

section \<open>Senders\<close>

definition send_conn :: "bytes \<Rightarrow> bytes \<Rightarrow> endpoint \<Rightarrow> int \<times> endpoint" where
  "send_conn pl a e =
     send_filled (\<lambda>sq b. set_dest (take SOCKADDR_IN6_SIZE a) SOCKADDR_IN6_SIZE (rekey_packet (session_id (ep_sess e)) pl sq b)) e"

definition request_payload :: "bytes \<Rightarrow> bytes \<Rightarrow> bytes" where
  "request_payload username display_name =
     CTRL_CONNECT_REQUEST # of_nat (length username) # username @ of_nat (length display_name) # display_name"

definition conn_request_build :: "bytes \<Rightarrow> bytes \<Rightarrow> endpoint \<Rightarrow> int \<times> endpoint" where
  "conn_request_build username display_name e =
     (if length username > 31 \<or> length display_name > 63 then (-1, e)
      else send_conn (request_payload username display_name) (sess_addr (ep_sess e)) e)"

definition conn_request_send_accept :: "bytes \<Rightarrow> endpoint \<Rightarrow> int \<times> endpoint" where
  "conn_request_send_accept peer_addr e = send_conn [CTRL_CONNECT_ACCEPT] peer_addr e"

definition conn_request_send_decline :: "bytes \<Rightarrow> bytes option \<Rightarrow> endpoint \<Rightarrow> int \<times> endpoint" where
  "conn_request_send_decline peer_addr reason e =
     (let r = take 63 (case reason of None \<Rightarrow> [] | Some x \<Rightarrow> x)
      in send_conn (CTRL_CONNECT_DECLINE # of_nat (length r) # r) peer_addr e)"

section \<open>Handler\<close>

text \<open>The stores of a request into a free slot; \<open>txq\<close> says whether the transmit queues are not NULL.\<close>

definition fill_request :: "packet_buf \<Rightarrow> u64 \<Rightarrow> pending_request \<Rightarrow> pending_request" where
  "fill_request p now_s r =
     (let n = unat (data p ! 25);
          d = min 63 (unat (data p ! (26 + n)))
      in r\<lparr>pr_addr := sin6_addr (addr p), pr_port := ntohs (sin6_port (addr p)),
           pr_username := mem_write 0 (mem_read 26 n (data p) @ [0]) (pr_username r),
           pr_display_name := mem_write 0 (mem_read (27 + n) d (data p) @ [0]) (pr_display_name r),
           pr_timestamp_ms := now_s * 1000, pr_active := True\<rparr>)"

definition conn_request_handle :: "packet_buf \<Rightarrow> bool \<Rightarrow> bool \<Rightarrow> u64 \<Rightarrow> conn_request_table \<Rightarrow> int \<times> conn_request_table" where
  "conn_request_handle p txq is_responder now_s t =
     (if \<not> txq then (-1, t)
      else let opcode = data p ! 24 in
        if opcode = CTRL_CONNECT_REQUEST then
          (if \<not> is_responder then (0, t)
           else if unat (data p ! 25) > 31 then (0, t)
           else case find_index (\<lambda>r. \<not> pr_active r) (requests t) of
             None \<Rightarrow> (0, t)
           | Some i \<Rightarrow>
               (1, t\<lparr>requests := (requests t)[i := fill_request p now_s (requests t ! i)],
                     req_count := (if req_count t < CONN_REQUEST_MAX_PENDING then req_count t + 1 else req_count t)\<rparr>))
        else if opcode = CTRL_CONNECT_ACCEPT then (2, t)
        else if opcode = CTRL_CONNECT_DECLINE then (3, t)
        else (0, t))"

definition conn_request_find :: "bytes \<Rightarrow> conn_request_table \<Rightarrow> nat option" where
  "conn_request_find a t =
     find_index (\<lambda>r. pr_active r \<and> pr_addr r = sin6_addr a \<and> pr_port r = ntohs (sin6_port a)) (requests t)"

section \<open>Requests and their answers\<close>

text \<open>The C string in a character array.\<close>

definition c_string :: "bytes \<Rightarrow> bytes" where
  "c_string bs = takeWhile (\<lambda>b. b \<noteq> 0) bs"

lemma c_string_write: "0 \<notin> set s \<Longrightarrow> c_string (mem_write 0 (s @ [0]) buf) = s"
  by (auto simp: c_string_def mem_write_def takeWhile_tail)

lemma holds_sub:
  assumes "holds pl b" "i + n \<le> length pl"
  shows "mem_read (24 + i) n (data b) = take n (drop i pl)"
proof -
  have "mem_read (24 + i) n (data b) = mem_read i n (mem_read 24 (length pl) (data b))" using assms(2) by (simp add: mem_simps)
  then show ?thesis using assms(1) by (simp add: holds_def mem_read_def)
qed

lemma holds_nth:
  assumes "holds pl b" "i < length pl" "length pl \<le> MAX_PACKET_SIZE - HEADER_SIZE"
  shows "data b ! (24 + i) = pl ! i"
proof -
  have "mem_read 24 (length pl) (data b) ! i = data b ! (24 + i)"
    using assms by (intro nth_mem_read) (auto simp: holds_def buf_ok_def)
  then show ?thesis using assms(1) by (simp add: holds_def)
qed

lemma send_conn_step:
  assumes "can_send e" "length pl \<le> MAX_PACKET_SIZE - HEADER_SIZE"
  shows "\<exists>e' m. send_conn pl a e = (0, e') \<and> ep_ok e' \<and> ep_sess e' = ep_sess e \<and> queued e' = queued e @ [m] \<and> holds pl m \<and>
    take (length (take SOCKADDR_IN6_SIZE a)) (addr m) = take SOCKADDR_IN6_SIZE a \<and> addr_len m = SOCKADDR_IN6_SIZE"
  using send_rekey [OF assms, of "take SOCKADDR_IN6_SIZE a" SOCKADDR_IN6_SIZE "session_id (ep_sess e)"] by (auto simp: send_conn_def)

lemma fill_request_names:
  assumes h: "holds (request_payload u d) p" and l: "length u \<le> 31" "length d \<le> 63" and z: "0 \<notin> set u" "0 \<notin> set d"
  shows "data p ! 24 = CTRL_CONNECT_REQUEST" "unat (data p ! 25) = length u"
    "c_string (pr_username (fill_request p now r)) = u" "c_string (pr_display_name (fill_request p now r)) = d"
proof -
  let ?pl = "request_payload u d"
  have len: "length ?pl = 3 + length u + length d" by (simp add: request_payload_def)
  have nth: "data p ! (24 + i) = ?pl ! i" if "i < length ?pl" for i
    using that len l by (intro holds_nth [OF h]) auto
  have wu: "unat (of_nat (length u) :: u8) = length u" "unat (of_nat (length d) :: u8) = length d" using l by (simp_all add: unat_of_nat)
  show "data p ! 24 = CTRL_CONNECT_REQUEST" using nth [of 0] len by (simp add: request_payload_def)
  show n: "unat (data p ! 25) = length u" using nth [of 1] len wu by (simp add: request_payload_def)
  have m: "unat (data p ! (26 + length u)) = length d"
    using nth [of "2 + length u"] len wu by (simp add: request_payload_def nth_append numeral_2_eq_2)
  have ru: "mem_read 26 (length u) (data p) = u" using holds_sub [OF h, of 2 "length u"] len by (simp add: request_payload_def)
  have rd: "mem_read (27 + length u) (length d) (data p) = d"
    using holds_sub [OF h, of "3 + length u" "length d"] len by (simp add: request_payload_def numeral_3_eq_3)
  show "c_string (pr_username (fill_request p now r)) = u" "c_string (pr_display_name (fill_request p now r)) = d"
    using n m ru rd l z by (simp_all add: fill_request_def Let_def c_string_write)
qed

lemma handle_request_step:
  assumes "data p ! 24 = CTRL_CONNECT_REQUEST" "unat (data p ! 25) \<le> 31" "find_index (\<lambda>r. \<not> pr_active r) (requests t) = Some i"
    and "conn_request_find (addr p) t = None"
  shows "\<exists>t'. conn_request_handle p True True now t = (1, t') \<and> conn_request_find (addr p) t' = Some i \<and>
    requests t' ! i = fill_request p now (requests t ! i)"
proof -
  let ?Q = "\<lambda>r. pr_active r \<and> pr_addr r = sin6_addr (addr p) \<and> pr_port r = ntohs (sin6_port (addr p))"
  have i: "i < length (requests t)" using assms(3) by (auto dest: find_index_Some)
  have q: "?Q (fill_request p now (requests t ! i))" by (simp add: fill_request_def Let_def)
  have "find_index Q (xs[i := r]) = Some i" if "find_index Q xs = None" "Q r" "i < length xs" for Q and xs :: "pending_request list" and r i
    using that by (induction xs arbitrary: i) (auto split: if_splits nat.splits)
  then have "find_index ?Q ((requests t)[i := fill_request p now (requests t ! i)]) = Some i"
    using q i assms(4) by (simp add: conn_request_find_def)
  then show ?thesis using assms(1-3) i by (simp add: conn_request_handle_def conn_request_find_def)
qed

text \<open>
  A connection request carries its names: the packet that \<open>conn_request_build\<close> queues is
  accepted by a responder with a free slot, and \<open>conn_request_find\<close> of the sender's address then yields
  the pending request with the user name and display name that were sent.
\<close>

theorem connect_request_roundtrip:
  assumes "can_send e" "length u \<le> 31" "length d \<le> 63" "0 \<notin> set u" "0 \<notin> set d"
    and "find_index (\<lambda>r. \<not> pr_active r) (requests t) = Some i" "conn_request_find ad t = None"
  shows "\<exists>e' m. conn_request_build u d e = (0, e') \<and> queued e' = queued e @ [m] \<and>
    (\<exists>t' j. conn_request_handle (m\<lparr>addr := ad\<rparr>) True True now t = (1, t') \<and> conn_request_find ad t' = Some j \<and>
       c_string (pr_username (requests t' ! j)) = u \<and> c_string (pr_display_name (requests t' ! j)) = d)"
proof -
  have "length (request_payload u d) \<le> MAX_PACKET_SIZE - HEADER_SIZE" using assms(2,3) by (simp add: request_payload_def)
  then obtain e' m where s: "send_conn (request_payload u d) (sess_addr (ep_sess e)) e = (0, e')" "queued e' = queued e @ [m]" "holds (request_payload u d) m"
    using send_conn_step [OF assms(1)] by blast
  let ?p = "m\<lparr>addr := ad\<rparr>"
  have b: "conn_request_build u d e = (0, e')" using s(1) assms(2,3) by (simp add: conn_request_build_def)
  have d: "data ?p ! 24 = CTRL_CONNECT_REQUEST" "unat (data ?p ! 25) \<le> 31"
    using fill_request_names(1,2) [OF s(3) assms(2-5)] assms(2) by simp_all
  obtain t' where t': "conn_request_handle ?p True True now t = (1, t')" "conn_request_find ad t' = Some i"
    "requests t' ! i = fill_request ?p now (requests t ! i)"
    using handle_request_step [OF d assms(6), of now] assms(7) by auto
  have "pr_username (fill_request ?p now r) = pr_username (fill_request m now r)"
    "pr_display_name (fill_request ?p now r) = pr_display_name (fill_request m now r)" for r
    by (simp_all add: fill_request_def Let_def)
  then show ?thesis using b s(2) t' fill_request_names(3,4) [OF s(3) assms(2-5)] by auto
qed

theorem connect_request_roundtrip_witness:
  "\<exists>e' m. conn_request_build [98, 111, 98] [66] (ep_sample enc_session_sample) = (0, e') \<and>
    (\<exists>t' j. conn_request_handle (m\<lparr>addr := replicate 32 0\<rparr>) True True 5 conn_requests_zero = (1, t') \<and>
       conn_request_find (replicate 32 0) t' = Some j \<and> c_string (pr_username (requests t' ! j)) = [98, 111, 98])"
proof -
  have "find_index (\<lambda>r. \<not> pr_active r) (requests conn_requests_zero) = Some 0" "conn_request_find (replicate 32 0) conn_requests_zero = None"
    by (simp_all add: conn_requests_zero_def conn_request_find_def numeral_eq_Suc)
  then show ?thesis
    using connect_request_roundtrip [OF ep_sample_can_send(1) [OF enc_session_sample_ok(1)], of "[98, 111, 98]" "[66]" conn_requests_zero 0 "replicate 32 0" 5]
    by auto
qed

section \<open>The table fills up\<close>

fun handle_all :: "(packet_buf \<times> bool \<times> bool \<times> u64) list \<Rightarrow> conn_request_table \<Rightarrow> int list \<times> conn_request_table" where
  "handle_all [] t = ([], t)"
| "handle_all ((p, txq, resp, now) # xs) t =
     (let (st, t') = conn_request_handle p txq resp now t; (sts, t'') = handle_all xs t' in (st # sts, t''))"

definition active_requests :: "conn_request_table \<Rightarrow> nat" where
  "active_requests t = length (filter pr_active (requests t))"

lemma handle_active:
  assumes "conn_request_handle p txq resp now t = (st, t')"
  shows "length (requests t') = length (requests t)" "active_requests t' = active_requests t + (if st = 1 then 1 else 0)"
proof -
  have upd: "length (filter pr_active (xs[i := r])) = Suc (length (filter pr_active xs))"
    if "find_index (\<lambda>r. \<not> pr_active r) xs = Some i" "pr_active r" for xs :: "pending_request list" and i r
    using that by (induction xs arbitrary: i) (auto split: if_splits nat.splits)
  have "pr_active (fill_request p now r)" for r by (simp add: fill_request_def Let_def)
  then show "length (requests t') = length (requests t)" "active_requests t' = active_requests t + (if st = 1 then 1 else 0)"
    using assms upd by (auto simp: conn_request_handle_def Let_def active_requests_def split: if_splits option.splits)
qed

text \<open>
  A responder accepts at most eight connection requests in its lifetime: no operation
  frees a slot of the table, and repeated requests of one peer take a slot each, so in any
  sequence of received packets at most eight are accepted and all later ones are ignored.
\<close>

theorem connect_requests_at_most_eight:
  "length (filter (\<lambda>st. st = 1) (fst (handle_all ps conn_requests_zero))) \<le> CONN_REQUEST_MAX_PENDING"
proof -
  have "length (requests t') = length (requests t) \<and> active_requests t' = active_requests t + length (filter (\<lambda>st. st = 1) sts)"
    if "handle_all ps t = (sts, t')" for sts t t'
    using that
  proof (induction ps t arbitrary: sts t' rule: handle_all.induct)
    case (2 p txq resp now xs t)
    then show ?case using handle_active by (force split: prod.splits)
  qed (simp add: active_requests_def)
  moreover obtain sts t' where r: "handle_all ps conn_requests_zero = (sts, t')" by fastforce
  ultimately have "length (requests t') = CONN_REQUEST_MAX_PENDING" "active_requests t' = length (filter (\<lambda>st. st = 1) sts)"
    by (simp_all add: conn_requests_zero_def active_requests_def)
  then show ?thesis using r length_filter_le [of pr_active "requests t'"] by (simp add: active_requests_def)
qed

text \<open>The engine passes no transmit queues, for which the handler refuses every request.\<close>

lemma handle_without_queues: "conn_request_handle p False resp now t = (-1, t)"
  by (simp add: conn_request_handle_def)

end
