(* ===== verification/Workers.thy ===== *)
theory Workers
  imports Endpoint
begin

text \<open>
  The threads around the engine: \<open>udp_rx_once\<close> and \<open>udp_tx_once\<close> (\<open>lib/core/udp.c\<close>), the
  receive and transmit threads (\<open>lib/core/rx_thread.c\<close>, \<open>lib/core/tx_thread.c\<close>), the receive
  worker (\<open>lib/core/rx_worker.c\<close>) and the crypto worker (\<open>lib/engine/crypto_worker.c\<close>). A
  definition is what a thread does between two waits; threads that share a ring interleave as
  theory Ring_Threads describes. A datagram is its payload with the address of its source
  or destination, and the datagrams waiting at a socket are a list.
\<close>

type_synonym datagram = "bytes \<times> bytes"

section \<open>Sockets\<close>

text \<open>
  \<open>sendto\<close> of a buffer. A length behind the end of the arrays, which no buffer with \<open>buf_ok\<close> has, would read foreign memory; the
  model sends what there is. An error of the call is ignored, as in the code.
\<close>

definition sent_datagram :: "packet_buf \<Rightarrow> datagram" where
  "sent_datagram b = (take (len b) (data b), take (addr_len b) (addr b))"

text \<open>What \<open>recvfrom\<close> writes: at most \<open>MAX_PACKET_SIZE\<close> bytes, and the source address with its length.\<close>

definition recv_into :: "datagram \<Rightarrow> packet_buf \<Rightarrow> packet_buf" where
  "recv_into g b =
     (let d = take MAX_PACKET_SIZE (fst g) in
      b\<lparr>data := mem_write 0 d (data b), len := length d,
        addr := mem_write 0 (take 32 (snd g)) (addr b), addr_len := length (snd g)\<rparr>)"

definition udp_rx_once :: "datagram list \<Rightarrow> pool \<Rightarrow> buf_ring \<Rightarrow> int \<times> datagram list \<times> pool \<times> buf_ring" where
  "udp_rx_once inbox q r =
     (case pool_get q of
        (None, q1) \<Rightarrow> (-1, inbox, q1, r)
      | (Some p, q1) \<Rightarrow>
          (case inbox of
             [] \<Rightarrow> (-1, [], pool_return p q1, r)
           | g # inbox' \<Rightarrow>
               let q2 = buf_update p (recv_into g) q1;
                   (st, r') = ring_push r p
               in if st \<noteq> 0 then (-1, inbox', pool_return p q2, r) else (0, inbox', q2, r')))"

text \<open>\<open>ok\<close> says whether \<open>sendto\<close> succeeded.\<close>

definition udp_tx_once :: "bool \<Rightarrow> pool \<Rightarrow> buf_ring \<Rightarrow> int \<times> datagram list \<times> pool \<times> buf_ring" where
  "udp_tx_once ok q r =
     (case ring_pop r of
        (None, r') \<Rightarrow> (-1, [], q, r')
      | (Some p, r') \<Rightarrow> (if ok then 0 else -1, [sent_datagram (pool_mem q p)], pool_return p q, r'))"

section \<open>Receive thread\<close>

text \<open>\<open>while (udp_rx_once(ctx->sock, ctx->rx_ring) == 0)\<close>: every turn takes a datagram from the socket.\<close>

lemma udp_rx_once_length:
  "udp_rx_once inbox q r = (0, inbox', q', r') \<Longrightarrow> length inbox' < length inbox"
  by (auto simp: udp_rx_once_def Let_def split: prod.splits option.splits list.splits if_splits)

function rx_thread_fn :: "datagram list \<Rightarrow> pool \<Rightarrow> buf_ring \<Rightarrow> datagram list \<times> pool \<times> buf_ring" where
  "rx_thread_fn inbox q r =
     (case udp_rx_once inbox q r of
        (st, inbox', q', r') \<Rightarrow> if st = 0 then rx_thread_fn inbox' q' r' else (inbox', q', r'))"
  by auto
termination
  by (relation "measure (\<lambda>(inbox, q, r). length inbox)") (auto dest: udp_rx_once_length [OF sym])

declare rx_thread_fn.simps [simp del]

section \<open>Transmit thread\<close>

text \<open>
  \<open>while ((p = scheduler_next(ctx->queues)) != NULL)\<close>, with the datagrams handed to the socket;
  the result of the send is ignored.
\<close>

partial_function (option) tx_thread_fn :: "tx_queues \<Rightarrow> pool \<Rightarrow> (datagram list \<times> tx_queues \<times> pool) option" where
  "tx_thread_fn qs q =
     (case scheduler_next qs of
        (None, qs') \<Rightarrow> Some ([], qs', q)
      | (Some p, qs') \<Rightarrow> do {
          (gs, r) \<leftarrow> tx_thread_fn qs' (pool_return p q);
          Some (sent_datagram (pool_mem q p) # gs, r)
        })"

section \<open>Receive worker\<close>

text \<open>One turn of \<open>rx_worker_thread\<close>; \<open>handler\<close> is the function the worker was started with.\<close>

definition rx_worker_thread ::
    "(buf_ptr \<Rightarrow> 'c \<times> pool \<Rightarrow> 'c \<times> pool) \<Rightarrow> 'c \<times> pool \<times> buf_ring \<Rightarrow> 'c \<times> pool \<times> buf_ring" where
  "rx_worker_thread handler s =
     (let (c, q, r) = s in
      case ring_pop r of
        (None, r') \<Rightarrow> (c, q, r')
      | (Some p, r') \<Rightarrow> let (c', q') = handler p (c, q) in (c', pool_return p q', r'))"

section \<open>Crypto worker\<close>

datatype crypto_job_type = CRYPTO_JOB_DECRYPT | CRYPTO_JOB_ENCRYPT | CRYPTO_JOB_FEC_DECRYPT

text \<open>\<open>job_sess\<close> is the session's index in the session pool.\<close>

record crypto_job =
  job_type :: crypto_job_type
  job_p :: buf_ptr
  job_sess :: nat

record crypto_worker =
  cw_jobs :: "crypto_job spsc_ring"
  cw_results :: buf_ring
  cw_running :: bool

definition crypto_worker_start :: "bool \<Rightarrow> crypto_worker \<Rightarrow> int \<times> crypto_worker" where
  "crypto_worker_start created c =
     (if cw_running c then (0, c)
      else let c1 = c\<lparr>cw_jobs := ring_init (cw_jobs c), cw_results := ring_init (cw_results c)\<rparr>
           in if created then (0, c1\<lparr>cw_running := True\<rparr>) else (-1, c1\<lparr>cw_running := False\<rparr>))"

definition crypto_worker_stop :: "crypto_worker \<Rightarrow> crypto_worker" where
  "crypto_worker_stop c = c\<lparr>cw_running := False\<rparr>"

definition crypto_worker_push :: "crypto_job \<Rightarrow> crypto_worker \<Rightarrow> int \<times> crypto_worker" where
  "crypto_worker_push j c = (let (st, r) = ring_push (cw_jobs c) j in (st, c\<lparr>cw_jobs := r\<rparr>))"

definition crypto_worker_pop_result :: "crypto_worker \<Rightarrow> buf_ptr option \<times> crypto_worker" where
  "crypto_worker_pop_result c = (let (p, r) = ring_pop (cw_results c) in (p, c\<lparr>cw_results := r\<rparr>))"

text \<open>\<open>if (ring_push(&g_result_ring, job->p) != 0) pool_return(job->p)\<close>.\<close>

definition push_result :: "buf_ptr \<Rightarrow> crypto_worker \<Rightarrow> pool \<Rightarrow> crypto_worker \<times> pool" where
  "push_result p c q =
     (let (st, r) = ring_push (cw_results c) p
      in if st \<noteq> 0 then (c, pool_return p q) else (c\<lparr>cw_results := r\<rparr>, q))"

text \<open>A job: decryption (and authentication) in place, or encryption in place.\<close>

definition run_job ::
    "crypto_lib \<Rightarrow> crypto_job \<Rightarrow> crypto_worker \<Rightarrow> pool \<Rightarrow> session list \<Rightarrow> (crypto_worker \<times> pool \<times> session list) option" where
  "run_job L j c q ss =
     (let p = job_p j; b = pool_mem q p; i = job_sess j in
      if job_type j = CRYPTO_JOB_DECRYPT \<or> job_type j = CRYPTO_JOB_FEC_DECRYPT then
        (case packet_parse b of
           None \<Rightarrow> Some (c, pool_return p q, ss)
         | Some v \<Rightarrow>
             if \<not> encrypted v then Some (c, pool_return p q, ss)
             else
               let (ret, b', v', s) = session_enc_check L b v (ss ! i);
                   q1 = buf_update p (\<lambda>_. b') q; ss' = ss[i := s]
               in if ret = 0 then (let (c', q2) = push_result p c q1 in Some (c', q2, ss'))
                  else Some (c, pool_return p q1, ss'))
      else
        (case packet_parse b of
           None \<Rightarrow> (let (c', q2) = push_result p c q in Some (c', q2, ss))
         | Some v \<Rightarrow>
             (case session_enc_apply L b v (ss ! i) of
                None \<Rightarrow> None
              | Some (ret, b') \<Rightarrow> (let (c', q2) = push_result p c (buf_update p (\<lambda>_. b') q) in Some (c', q2, ss)))))"

text \<open>One turn of \<open>crypto_loop\<close>.\<close>

definition crypto_loop ::
    "crypto_lib \<Rightarrow> crypto_worker \<times> pool \<times> session list \<Rightarrow> (crypto_worker \<times> pool \<times> session list) option" where
  "crypto_loop L s =
     (let (c, q, ss) = s in
      case ring_pop (cw_jobs c) of
        (None, r) \<Rightarrow> Some (c\<lparr>cw_jobs := r\<rparr>, q, ss)
      | (Some j, r) \<Rightarrow> run_job L j (c\<lparr>cw_jobs := r\<rparr>) q ss)"

section \<open>The threads drain their queues\<close>

lemma returned_free:
  "\<lbrakk> pool_ok q; distinct ps; set ps \<subseteq> {..<PACKET_POOL_SIZE}; set ps \<inter> set (free_bufs q) = {} \<rbrakk> \<Longrightarrow>
   pool_ok (fold pool_return ps q) \<and> set (free_bufs (fold pool_return ps q)) = set (free_bufs q) \<union> set ps \<and>
   pool_mem (fold pool_return ps q) = pool_mem q"
proof (induction ps arbitrary: q)
  case (Cons p ps)
  have "set (free_bufs (pool_return p q)) = insert p (set (free_bufs q))" "pool_ok (pool_return p q)"
    using packet_pool.give_free [of q p] Cons.prems by auto
  then show ?case using Cons.IH [of "pool_return p q"] Cons.prems by auto
qed simp

lemma tx_thread_contents:
  "tx_ok qs \<Longrightarrow> \<exists>qs'. tx_thread_fn qs q =
     Some (map (\<lambda>p. sent_datagram (pool_mem q p)) (tx_contents qs), qs', fold pool_return (tx_contents qs) q) \<and>
     tx_ok qs' \<and> tx_contents qs' = []"
proof (induction "tx_contents qs" arbitrary: qs q)
  case Nil
  then have "scheduler_next qs = (None, qs)" using scheduler_next_priority [OF Nil.prems] by (simp add: Nil.hyps [symmetric])
  then show ?case using Nil by (subst tx_thread_fn.simps) (simp add: Nil.hyps [symmetric])
next
  case (Cons p ps)
  then obtain qs1 where n: "scheduler_next qs = (Some p, qs1)" "tx_contents qs1 = ps" "tx_ok qs1"
    using scheduler_next_priority [OF Cons.prems] by (auto simp: Cons.hyps(2) [symmetric])
  obtain qs' where "tx_thread_fn qs1 (pool_return p q) = Some (map (\<lambda>p. sent_datagram (pool_mem q p)) ps, qs', fold pool_return ps (pool_return p q))"
    "tx_ok qs'" "tx_contents qs' = []"
    using Cons.hyps(1) [of qs1 "pool_return p q"] n by auto
  then show ?case using n(1) by (subst tx_thread_fn.simps) (simp add: Cons.hyps(2) [symmetric])
qed

text \<open>
  C17: The transmit thread's loop ends: it sends every queued packet exactly once, in strict
  priority order, leaves all six queues empty and gives all their buffers back to the pool.
\<close>

theorem tx_thread_drains:
  assumes "tx_ok qs" "pool_ok q" "distinct (tx_contents qs)" "set (tx_contents qs) \<subseteq> {..<PACKET_POOL_SIZE} - set (free_bufs q)"
  shows "\<exists>qs' q'. tx_thread_fn qs q = Some (map (\<lambda>p. sent_datagram (pool_mem q p)) (tx_contents qs), qs', q') \<and>
    tx_ok qs' \<and> tx_contents qs' = [] \<and> pool_ok q' \<and> set (free_bufs q') = set (free_bufs q) \<union> set (tx_contents qs)"
  using tx_thread_contents [OF assms(1), of q] returned_free [OF assms(2,3)] assms(4) by fastforce

theorem tx_thread_drains_witness:
  "\<exists>qs' q'. tx_thread_fn tx_sample (ep_pool (ep_sample session_init)) =
     Some ([sent_datagram buf_sample, sent_datagram buf_sample], qs', q') \<and> tx_contents qs' = [] \<and> {4, 7, 9} = set (free_bufs q')"
proof -
  let ?q = "ep_pool (ep_sample session_init)"
  have c: "tx_contents tx_sample = [4, 9]" by (simp add: tx_sample_def tx_contents_def ring_contents_def ring_count_def)
  have q: "pool_ok ?q" "free_bufs ?q = [7]" "pool_mem ?q = (\<lambda>_. buf_sample)" by (simp_all add: ep_sample_def pool_ok_def free_bufs_def)
  show ?thesis using tx_thread_drains [OF tx_sample_ok q(1)] unfolding c q by fastforce
qed

section \<open>From the queues of one host to the ring of another\<close>

text \<open>Buffer \<open>b\<close> holds datagram \<open>g\<close>.\<close>

definition received :: "datagram \<Rightarrow> packet_buf \<Rightarrow> bool" where
  "received g b \<longleftrightarrow> buf_ok b \<and> len b = length (fst g) \<and> take (len b) (data b) = fst g \<and>
     addr_len b = length (snd g) \<and> take (addr_len b) (addr b) = snd g"

definition datagram_ok :: "datagram \<Rightarrow> bool" where
  "datagram_ok g \<longleftrightarrow> length (fst g) \<le> MAX_PACKET_SIZE \<and> length (snd g) \<le> 32"

lemma received_recv: "\<lbrakk> buf_ok b; datagram_ok g \<rbrakk> \<Longrightarrow> received g (recv_into g b)"
  by (simp add: received_def datagram_ok_def recv_into_def Let_def buf_ok_def mem_simps mem_write_def)

text \<open>A receiver: its pool and ring, where no waiting buffer is free.\<close>

definition rx_side_ok :: "pool \<Rightarrow> buf_ring \<Rightarrow> bool" where
  "rx_side_ok q r \<longleftrightarrow> pool_ok q \<and> ring_ok r \<and> (\<forall>p. buf_ok (pool_mem q p)) \<and> set (ring_contents r) \<inter> set (free_bufs q) = {}"

lemma rx_once_stores:
  assumes "rx_side_ok q r" "datagram_ok g" "free_bufs q \<noteq> []" "length (ring_contents r) < RING_SIZE - 1"
  shows "\<exists>p q' r'. udp_rx_once (g # gs) q r = (0, gs, q', r') \<and> rx_side_ok q' r' \<and> ring_contents r' = ring_contents r @ [p] \<and>
    p \<in> set (free_bufs q) \<and> set (free_bufs q') = set (free_bufs q) - {p} \<and> received g (pool_mem q' p) \<and>
    (\<forall>x. x \<noteq> p \<longrightarrow> pool_mem q' x = pool_mem q x)"
proof -
  have q: "pool_ok q" "ring_ok r" "\<And>p. buf_ok (pool_mem q p)" using assms(1) by (auto simp: rx_side_ok_def)
  obtain p q1 where g: "pool_get q = (Some p, q1)" "p \<in> set (free_bufs q)" "set (free_bufs q1) = set (free_bufs q) - {p}" "pool_ok q1"
    using packet_pool.get_some [of q] q(1) assms(3) by auto
  have m: "pool_mem q1 = pool_mem q" using pool_get_mem [of q] g(1) by simp
  obtain r' where r: "ring_push r p = (0, r')" "ring_contents r' = ring_contents r @ [p]" "ring_ok r'"
    using spsc.push_accept [OF q(2) assms(4)] by blast
  let ?q = "buf_update p (recv_into g) q1"
  have rc: "received g (recv_into g (pool_mem q p))" using received_recv [OF q(3) assms(2)] .
  then have "buf_ok (pool_mem ?q x)" for x using q(3) m by (simp add: buf_update_def received_def)
  then have "rx_side_ok ?q r'" using g r assms(1) by (auto simp: rx_side_ok_def)
  moreover have "udp_rx_once (g # gs) q r = (0, gs, ?q, r')" using g(1) r(1) by (simp add: udp_rx_once_def Let_def)
  moreover have "received g (pool_mem ?q p)" "set (free_bufs ?q) = set (free_bufs q) - {p}" using rc m g(3) by simp_all
  moreover have "pool_mem ?q x = pool_mem q x" if "x \<noteq> p" for x using that m by (simp add: buf_update_def)
  ultimately show ?thesis using g(2) r(2) by blast
qed

lemma rx_once_empty:
  assumes "rx_side_ok q r"
  shows "\<exists>q'. udp_rx_once [] q r = (-1, [], q', r) \<and> rx_side_ok q' r \<and> set (free_bufs q') = set (free_bufs q) \<and> pool_mem q' = pool_mem q"
proof (cases "pool_get q")
  case (Pair x q1)
  have q: "pool_ok q" using assms by (simp add: rx_side_ok_def)
  show ?thesis
  proof (cases x)
    case None
    then show ?thesis using packet_pool.get_NoneD [OF q] Pair assms by (auto simp: udp_rx_once_def)
  next
    case (Some p)
    then show ?thesis using packet_pool.get_give [OF q] pool_get_mem [of q] Pair assms by (auto simp: udp_rx_once_def rx_side_ok_def)
  qed
qed

lemma rx_thread_stores:
  "\<lbrakk> rx_side_ok q r; \<forall>g \<in> set gs. datagram_ok g; length gs \<le> card (set (free_bufs q)); length (ring_contents r) + length gs < RING_SIZE \<rbrakk> \<Longrightarrow>
   \<exists>ps q' r'. rx_thread_fn gs q r = ([], q', r') \<and> rx_side_ok q' r' \<and> ring_contents r' = ring_contents r @ ps \<and>
     list_all2 (\<lambda>g p. received g (pool_mem q' p)) gs ps \<and> set (free_bufs q') \<subseteq> set (free_bufs q) \<and>
     (\<forall>x. x \<notin> set (free_bufs q) \<longrightarrow> pool_mem q' x = pool_mem q x)"
proof (induction gs arbitrary: q r)
  case Nil
  then show ?case using rx_once_empty [of q r] by (subst rx_thread_fn.simps) fastforce
next
  case (Cons g gs)
  have h: "datagram_ok g" "free_bufs q \<noteq> []" "length (ring_contents r) < RING_SIZE - 1" using Cons.prems(2-4) by auto
  obtain p q1 r1 where 1: "udp_rx_once (g # gs) q r = (0, gs, q1, r1)" "rx_side_ok q1 r1" "ring_contents r1 = ring_contents r @ [p]"
    "p \<in> set (free_bufs q)" "set (free_bufs q1) = set (free_bufs q) - {p}" "received g (pool_mem q1 p)"
    "\<And>x. x \<noteq> p \<Longrightarrow> pool_mem q1 x = pool_mem q x"
    using rx_once_stores [OF Cons.prems(1) h, of gs] by blast
  have "length gs \<le> card (set (free_bufs q1))" "length (ring_contents r1) + length gs < RING_SIZE"
    using Cons.prems(3,4) 1(3-5) by simp_all
  then obtain ps q' r' where 2: "rx_thread_fn gs q1 r1 = ([], q', r')" "rx_side_ok q' r'" "ring_contents r' = ring_contents r1 @ ps"
    "list_all2 (\<lambda>g p. received g (pool_mem q' p)) gs ps" "set (free_bufs q') \<subseteq> set (free_bufs q1)"
    "\<And>x. x \<notin> set (free_bufs q1) \<Longrightarrow> pool_mem q' x = pool_mem q1 x"
    using Cons.IH [OF 1(2)] Cons.prems(2) by fastforce
  have "pool_mem q' p = pool_mem q1 p" using 2(6) [of p] 1(5) by blast
  then have "list_all2 (\<lambda>g p. received g (pool_mem q' p)) (g # gs) (p # ps)" using 1(6) 2(4) by simp
  moreover have "rx_thread_fn (g # gs) q r = ([], q', r')" using 1(1) 2(1) by (subst rx_thread_fn.simps) simp
  moreover have "ring_contents r' = ring_contents r @ p # ps" "set (free_bufs q') \<subseteq> set (free_bufs q)" using 1(3,5) 2(3,5) by auto
  moreover have "pool_mem q' x = pool_mem q x" if "x \<notin> set (free_bufs q)" for x
    using 1(4,5) 1(7) [of x] 2(6) [of x] that by (cases "x = p") auto
  ultimately show ?case using 2(2) by blast
qed

text \<open>
  What one host queues arrives at the other. When the transmit thread of one host and then the
  receive thread of another run on a network that neither loses nor reorders datagrams and
  the receiver has buffers and room in its ring, both loops end, and the ring holds exactly the
  queued packets, byte for byte and in strict priority order, marked with the sender's
  address.
\<close>

theorem queued_packets_arrive:
  assumes "tx_ok qs" "rx_side_ok qb r" "length src \<le> 32" "\<forall>p \<in> set (tx_contents qs). buf_ok (pool_mem qa p) \<and> len (pool_mem qa p) \<le> MAX_PACKET_SIZE"
    and "length (tx_contents qs) \<le> card (set (free_bufs qb))" "length (ring_contents r) + length (tx_contents qs) < RING_SIZE"
  shows "\<exists>gs qs' qa' qb' r' ps. tx_thread_fn qs qa = Some (gs, qs', qa') \<and> tx_contents qs' = [] \<and>
    rx_thread_fn (map (\<lambda>g. (fst g, src)) gs) qb r = ([], qb', r') \<and> ring_contents r' = ring_contents r @ ps \<and>
    list_all2 (\<lambda>a b. let x = pool_mem qa a; y = pool_mem qb' b in
      len y = len x \<and> take (len x) (data y) = take (len x) (data x) \<and> take (length src) (addr y) = src \<and> addr_len y = length src)
      (tx_contents qs) ps"
proof -
  obtain qs' where t: "tx_thread_fn qs qa = Some (map (\<lambda>p. sent_datagram (pool_mem qa p)) (tx_contents qs), qs', fold pool_return (tx_contents qs) qa)"
    "tx_contents qs' = []"
    using tx_thread_contents [OF assms(1), of qa] by blast
  let ?gs = "map (\<lambda>p. sent_datagram (pool_mem qa p)) (tx_contents qs)"
  let ?in = "map (\<lambda>g. (fst g, src)) ?gs"
  have l: "length (fst (sent_datagram (pool_mem qa p))) = len (pool_mem qa p)" if "p \<in> set (tx_contents qs)" for p
    using assms(4) that by (auto simp: sent_datagram_def buf_ok_def)
  have "\<forall>g \<in> set ?in. datagram_ok g" using assms(3,4) l by (auto simp: datagram_ok_def)
  then obtain ps q' r' where r: "rx_thread_fn ?in qb r = ([], q', r')" "ring_contents r' = ring_contents r @ ps"
    "list_all2 (\<lambda>g p. received g (pool_mem q' p)) ?in ps"
    using rx_thread_stores [OF assms(2), of ?in] assms(5,6) by auto
  have "list_all2 (\<lambda>a b. let x = pool_mem qa a; y = pool_mem q' b in
      len y = len x \<and> take (len x) (data y) = take (len x) (data x) \<and> take (length src) (addr y) = src \<and> addr_len y = length src)
      (tx_contents qs) ps"
    using r(3) l by (auto simp: list_all2_conv_all_nth received_def sent_datagram_def Let_def)
  then show ?thesis using t r(1,2) by blast
qed

theorem queued_packets_arrive_witness:
  "\<exists>gs qs' qa' qb' r' p. tx_thread_fn ((ep_txq (ep_sample session_init))\<lparr>tx_chat := \<lparr>slots = replicate 1024 4, write_idx = 1, read_idx = 0\<rparr>\<rparr>)
     (ep_pool (ep_sample session_init)) = Some (gs, qs', qa') \<and>
   rx_thread_fn (map (\<lambda>g. (fst g, [10, 0])) gs) (ep_pool (ep_sample session_init)) empty_ring = ([], qb', r') \<and>
   ring_contents r' = [p] \<and> take (len buf_sample) (data (pool_mem qb' p)) = take (len buf_sample) (data buf_sample)"
proof -
  let ?q = "ep_pool (ep_sample session_init)"
  let ?qs = "(ep_txq (ep_sample session_init))\<lparr>tx_chat := \<lparr>slots = replicate 1024 4, write_idx = 1, read_idx = 0\<rparr>\<rparr>"
  have c: "tx_contents ?qs = [4]" "ring_contents empty_ring = []"
    by (simp_all add: ep_sample_def tx_contents_def empty_ring_def ring_contents_def ring_count_def)
  have t: "tx_ok ?qs" by (simp add: ep_sample_def tx_ok_def empty_ring_def ring_ok_def)
  have m: "pool_mem ?q = (\<lambda>_. buf_sample)" "free_bufs ?q = [7]" by (simp_all add: ep_sample_def free_bufs_def)
  have r: "rx_side_ok ?q empty_ring"
    using buf_sample_ok m c(2) by (simp add: rx_side_ok_def) (simp add: ep_sample_def pool_ok_def empty_ring_def ring_ok_def free_bufs_def)
  show ?thesis
    using queued_packets_arrive [OF t r, of "[10, 0]" ?q] buf_sample_ok unfolding c m
    by (simp add: list_all2_Cons1 Let_def buf_sample_def) blast
qed

end
