(* ===== verification/Monitor.thy ===== *)
theory Monitor
  imports Keyed_Table Handshake
begin

text \<open>
  The monitor (\<open>lib/engine/monitor.c\<close>): a table of the times at which the named threads last
  reported, and a snapshot of the counters that names the stalled threads. The lock makes
  \<open>monitor_mark_alive\<close> and the reading of the table by \<open>sample\<close> atomic, so each is one step; time
  is an argument. The table holds the entries in use.
\<close>

abbreviation STALL_THRESHOLD_MS :: u64 where "STALL_THRESHOLD_MS \<equiv> 5000"
abbreviation MAX_LIVENESS_ENTRIES :: nat where "MAX_LIVENESS_ENTRIES \<equiv> 8"

record monitor_snapshot =
  pool_free_min :: u32
  pool_free_current :: u32
  rx_thread_stalled :: u32
  tx_thread_stalled :: u32
  crypto_thread_stalled :: u32
  session_locked :: u32
  handshake_attempts :: u32
  handshake_successes :: u32
  handshake_failures :: u32
  total_drops :: u32
  uptime_ms :: u64
  sample_count :: u64

type_synonym liveness_entry = "string \<times> u64"

record monitor =
  mon_running :: bool
  mon_liveness :: "liveness_entry list"
  mon_snapshot :: monitor_snapshot

section \<open>Operations\<close>

definition monitor_mark_alive :: "u64 \<Rightarrow> string \<Rightarrow> monitor \<Rightarrow> monitor" where
  "monitor_mark_alive t name m =
     (case find_index (\<lambda>e. fst e = name) (mon_liveness m) of
        Some i \<Rightarrow> m\<lparr>mon_liveness := (mon_liveness m)[i := (fst (mon_liveness m ! i), t)]\<rparr>
      | None \<Rightarrow>
          if length (mon_liveness m) < MAX_LIVENESS_ENTRIES
          then m\<lparr>mon_liveness := mon_liveness m @ [(snprintf 32 name, t)]\<rparr>
          else m)"

definition stalled :: "u64 \<Rightarrow> string \<Rightarrow> liveness_entry list \<Rightarrow> u32" where
  "stalled t name es = of_nat (length (filter (\<lambda>e. fst e = name \<and> t - snd e > STALL_THRESHOLD_MS) es))"

definition sample :: "u64 \<Rightarrow> pool \<Rightarrow> handshake_stats \<Rightarrow> offensive \<Rightarrow> monitor \<Rightarrow> monitor" where
  "sample t q st off m =
     m\<lparr>mon_snapshot :=
        \<lparr>pool_free_min = 0, pool_free_current = of_nat (pool_free_count q),
         rx_thread_stalled = stalled t ''rx-worker'' (mon_liveness m),
         tx_thread_stalled = stalled t ''tx-worker'' (mon_liveness m),
         crypto_thread_stalled = stalled t ''crypto'' (mon_liveness m),
         session_locked = 0, handshake_attempts = attempts_total st, handshake_successes = successes st,
         handshake_failures = failures_timeout st + failures_identity st + failures_replay st + failures_state st,
         total_drops = total_decoys off, uptime_ms = t, sample_count = 1\<rparr>\<rparr>"

text \<open>\<open>created\<close>: whether the thread could be created.\<close>

definition monitor_start :: "bool \<Rightarrow> monitor \<Rightarrow> int \<times> monitor" where
  "monitor_start created m =
     (if mon_running m then (0, m)
      else if created then (0, m\<lparr>mon_running := True, mon_liveness := []\<rparr>)
      else (-1, m\<lparr>mon_running := False, mon_liveness := []\<rparr>))"

definition monitor_stop :: "monitor \<Rightarrow> monitor" where
  "monitor_stop m = m\<lparr>mon_running := False\<rparr>"

definition monitor_get_snapshot :: "monitor \<Rightarrow> monitor_snapshot" where
  "monitor_get_snapshot m = mon_snapshot m"

section \<open>The table of reports\<close>

definition mon_ok :: "monitor \<Rightarrow> bool" where
  "mon_ok m \<longleftrightarrow> distinct (map fst (mon_liveness m)) \<and> length (mon_liveness m) \<le> MAX_LIVENESS_ENTRIES"

definition mon_lookup :: "monitor \<Rightarrow> string \<Rightarrow> liveness_entry option" where
  "mon_lookup m = kfind fst (mon_liveness m)"

definition mark :: "string \<Rightarrow> u64 \<Rightarrow> monitor \<Rightarrow> int \<times> monitor" where
  "mark name t m =
     (if mon_lookup m name = None \<and> MAX_LIVENESS_ENTRIES \<le> length (mon_liveness m) then -1 else 0, monitor_mark_alive t name m)"

lemma mon_card: "mon_ok m \<Longrightarrow> finite (dom (mon_lookup m)) \<and> card (dom (mon_lookup m)) = length (mon_liveness m)"
  using card_dom_kfind [of fst "mon_liveness m"] by (simp add: mon_ok_def mon_lookup_def)

lemma mark_known:
  assumes "mon_ok m" "mon_lookup m name = Some e"
  shows "mon_ok (monitor_mark_alive t name m) \<and> mon_lookup (monitor_mark_alive t name m) = (mon_lookup m)(name \<mapsto> (name, t))"
proof -
  obtain i where i: "find_index (\<lambda>e. fst e = name) (mon_liveness m) = Some i" "i < length (mon_liveness m)" "fst (mon_liveness m ! i) = name"
    using assms(2) by (auto simp: mon_lookup_def kfind_def split: option.splits dest!: find_index_Some)
  then show ?thesis
    using kfind_update [of fst "mon_liveness m" i "(name, t)"] assms(1)
    by (simp add: monitor_mark_alive_def mon_lookup_def mon_ok_def)
qed

lemma mark_new:
  assumes "mon_ok m" "mon_lookup m name = None" "length (mon_liveness m) < MAX_LIVENESS_ENTRIES" "length name < 32"
  shows "mon_ok (monitor_mark_alive t name m) \<and> mon_lookup (monitor_mark_alive t name m) = (mon_lookup m)(name \<mapsto> (name, t))"
proof -
  have n: "find_index (\<lambda>e. fst e = name) (mon_liveness m) = None" "name \<notin> fst ` set (mon_liveness m)"
    using assms(2) by (auto simp: mon_lookup_def kfind_None find_index_None)
  then show ?thesis
    using kfind_snoc [of fst "mon_liveness m" "(name, t)"] assms(1,3,4)
    by (simp add: monitor_mark_alive_def mon_lookup_def mon_ok_def)
qed

interpretation mon: keyed_table mon_lookup mark "\<lambda>name t e. e = (name, t)" "\<lambda>name. length name < 32" mon_ok MAX_LIVENESS_ENTRIES
proof (unfold_locales, goal_cases)
  case (1 m)
  then show ?case using mon_card [OF 1] by (simp add: mon_ok_def)
next
  case (2 m name t)
  then show ?case using mark_known [of m name _ t] mark_new [of m name t] mon_card [of m]
    by (cases "mon_lookup m name") (fastforce simp: mark_def)+
next
  case (3 m name t)
  then have "find_index (\<lambda>e. fst e = name) (mon_liveness m) = None"
    by (auto simp: mon_lookup_def kfind_None find_index_None)
  then show ?case using 3 mon_card [of m] by (simp add: mark_def monitor_mark_alive_def)
qed

section \<open>Stalls are reported exactly\<close>

lemma stalled_lookup:
  assumes "mon_ok m"
  shows "stalled t name (mon_liveness m) =
    (case mon_lookup m name of None \<Rightarrow> 0 | Some (_, t0) \<Rightarrow> if t - t0 > STALL_THRESHOLD_MS then 1 else 0)"
proof -
  let ?P = "\<lambda>e. fst e = name \<and> t - snd e > STALL_THRESHOLD_MS"
  have d: "distinct (map fst (mon_liveness m))" using assms by (simp add: mon_ok_def)
  then have "distinct (mon_liveness m)" by (simp only: distinct_map)
  then have c: "length (filter ?P (mon_liveness m)) = card {e \<in> set (mon_liveness m). ?P e}"
    using distinct_card [of "filter ?P (mon_liveness m)"] by simp
  show ?thesis
  proof (cases "mon_lookup m name")
    case None
    then have "name \<notin> fst ` set (mon_liveness m)" by (simp add: mon_lookup_def kfind_None)
    then have "{e \<in> set (mon_liveness m). ?P e} = {}" by (auto simp: image_iff)
    then have "length (filter ?P (mon_liveness m)) = 0" using c by simp
    then show ?thesis using None by (simp add: stalled_def)
  next
    case (Some e)
    then have e: "e \<in> set (mon_liveness m)" "fst e = name" using kfind_Some [OF d] by (auto simp: mon_lookup_def)
    have u: "x = e" if "x \<in> set (mon_liveness m)" "fst x = name" for x
      using kfind_Some [OF d, of name x] Some that by (simp add: mon_lookup_def)
    have "{x \<in> set (mon_liveness m). ?P x} = (if ?P e then {e} else {})"
    proof (cases "?P e")
      case True
      then have "{x \<in> set (mon_liveness m). ?P x} = {e}" using e(1) u by blast
      then show ?thesis using True by (simp only: if_True simp_thms)
    next
      case False
      then have "{x \<in> set (mon_liveness m). ?P x} = {}" using u by blast
      then show ?thesis using False by (simp only: if_False simp_thms)
    qed
    then have "length (filter ?P (mon_liveness m)) = (if t - snd e > STALL_THRESHOLD_MS then 1 else 0)" using c e(2) by simp
    then show ?thesis using Some by (cases e) (simp add: stalled_def)
  qed
qed

text \<open>A run of reports, each the name of a thread and a time.\<close>

definition reports :: "(string \<times> u64) list \<Rightarrow> monitor \<Rightarrow> monitor" where
  "reports rs m = fold (\<lambda>(name, t). monitor_mark_alive t name) rs m"

lemma reports_lookup:
  "\<lbrakk> mon_ok m; \<forall>r \<in> set rs. length (fst r) < 32; card (dom (mon_lookup m) \<union> fst ` set rs) \<le> MAX_LIVENESS_ENTRIES \<rbrakk> \<Longrightarrow>
   mon_ok (reports rs m) \<and>
   mon_lookup (reports rs m) name = (case map_of (rev rs) name of None \<Rightarrow> mon_lookup m name | Some t \<Rightarrow> Some (name, t))"
proof (induction rs arbitrary: m)
  case (Cons r rs)
  obtain n t where r: "r = (n, t)" by fastforce
  have fin: "finite (dom (mon_lookup m))" using mon_card [OF Cons.prems(1)] by simp
  have "card (insert n (dom (mon_lookup m))) \<le> card (dom (mon_lookup m) \<union> fst ` set (r # rs))"
    using fin r by (intro card_mono) auto
  then have room: "mon_lookup m n \<noteq> None \<or> card (dom (mon_lookup m)) < MAX_LIVENESS_ENTRIES"
    using Cons.prems(3) fin by (cases "mon_lookup m n") (auto simp: card_insert_if domIff)
  let ?m = "monitor_mark_alive t n m"
  have m: "mon_ok ?m" "mon_lookup ?m = (mon_lookup m)(n \<mapsto> (n, t))"
    using mon.put_room [OF Cons.prems(1) _ room, of t] Cons.prems(2) r by (auto simp: mark_def)
  have "dom (mon_lookup ?m) \<union> fst ` set rs = dom (mon_lookup m) \<union> fst ` set (r # rs)" using m(2) r by auto
  then have "mon_ok (reports rs ?m) \<and>
    mon_lookup (reports rs ?m) name = (case map_of (rev rs) name of None \<Rightarrow> mon_lookup ?m name | Some t \<Rightarrow> Some (name, t))"
    using Cons.IH [OF m(1)] Cons.prems(2,3) by simp
  then show ?case using m(2) r by (auto simp: reports_def map_add_def split: option.splits)
qed (simp add: reports_def)

text \<open>
  The monitor finds stalled threads exactly: after any run of reports by at most eight threads
  since the monitor was started, a snapshot counts the receive worker as stalled if and only if
  it reported at least once and its last report is more than five seconds old; likewise
  the transmit and the crypto worker.
\<close>

theorem stalls_exact:
  assumes "monitor_start True m = (0, m0)" "\<not> mon_running m" "\<forall>r \<in> set rs. length (fst r) < 32" "card (fst ` set rs) \<le> MAX_LIVENESS_ENTRIES"
  shows "let s = monitor_get_snapshot (sample t q st off (reports rs m0));
      late = (\<lambda>name. case map_of (rev rs) name of None \<Rightarrow> 0 | Some t0 \<Rightarrow> if t - t0 > STALL_THRESHOLD_MS then 1 else 0)
    in rx_thread_stalled s = late ''rx-worker'' \<and> tx_thread_stalled s = late ''tx-worker'' \<and> crypto_thread_stalled s = late ''crypto''"
proof -
  have m0: "mon_liveness m0 = []" using assms(1,2) by (auto simp: monitor_start_def)
  then have l: "mon_ok m0" "mon_lookup m0 = Map.empty" by (simp_all add: mon_ok_def mon_lookup_def kfind_def fun_eq_iff)
  have "mon_ok (reports rs m0) \<and> mon_lookup (reports rs m0) name = map_option (Pair name) (map_of (rev rs) name)" for name
    using reports_lookup [OF l(1) assms(3), of name] assms(4) l(2) by (simp split: option.splits)
  then have "stalled t name (mon_liveness (reports rs m0)) =
      (case map_of (rev rs) name of None \<Rightarrow> 0 | Some t0 \<Rightarrow> if t - t0 > STALL_THRESHOLD_MS then 1 else 0)" for name
    using stalled_lookup [of "reports rs m0" t name] by (simp split: option.splits)
  then show ?thesis by (simp add: sample_def monitor_get_snapshot_def Let_def)
qed

definition monitor_zero :: monitor where
  "monitor_zero = \<lparr>mon_running = False, mon_liveness = [],
     mon_snapshot = \<lparr>pool_free_min = 0, pool_free_current = 0, rx_thread_stalled = 0, tx_thread_stalled = 0, crypto_thread_stalled = 0,
       session_locked = 0, handshake_attempts = 0, handshake_successes = 0, handshake_failures = 0, total_drops = 0, uptime_ms = 0, sample_count = 0\<rparr>\<rparr>"

theorem stalls_exact_witness:
  "let s = monitor_get_snapshot (sample 9000 (pool_init (\<lambda>_. buf_sample)) stats_zero offensive_init
       (reports [(''rx-worker'', 1000), (''crypto'', 2000), (''crypto'', 8000)] (snd (monitor_start True monitor_zero))))
   in rx_thread_stalled s = 1 \<and> tx_thread_stalled s = 0 \<and> crypto_thread_stalled s = 0"
proof -
  have "monitor_start True monitor_zero = (0, snd (monitor_start True monitor_zero))" "\<not> mon_running monitor_zero"
    by (simp_all add: monitor_start_def monitor_zero_def)
  from stalls_exact [OF this, of "[(''rx-worker'', 1000), (''crypto'', 2000), (''crypto'', 8000)]" 9000 "pool_init (\<lambda>_. buf_sample)" stats_zero offensive_init]
  show ?thesis by (simp add: Let_def)
qed

end
