(* ===== verification/Calls.thy ===== *)
theory Calls
  imports Media Endpoint File_Transfer Identity
begin

text \<open>
  Audio and video calls: the codec wrappers of \<open>lib/engine/audio_pipeline.c\<close>, the pipes of
  \<open>lib/engine/audio_capture.c\<close> and \<open>lib/engine/video_capture.c\<close> and the workers of
  \<open>lib/engine/audio_worker.c\<close> and \<open>lib/engine/video_worker.c\<close>. The Opus library is the parameter
  \<open>opus\<close>; its encoder and decoder states are blocks of memory. A pipe to a capture program is the
  stream of bytes the program still delivers, a pipe to a playback program the bytes written
  to it; \<open>popen\<close> maps a command line to the output of the program, if it could be started. PCM
  samples are kept as the bytes of their memory.
\<close>

section \<open>Sending a data packet\<close>

text \<open>The header stores without a preceding \<open>memset\<close>: byte 23 keeps what the buffer held.\<close>

definition chan_fields :: "u64 \<Rightarrow> u8 \<Rightarrow> u32 \<Rightarrow> nat \<Rightarrow> bytes \<Rightarrow> bytes" where
  "chan_fields sid ch sq plen d =
     (let d2 = mem_write 0 (le_bytes 4 PROTO_MAGIC) d;
          d3 = mem_write 4 [1] d2;
          d4 = mem_write 5 [0] d3;
          d5 = mem_write 6 (le_bytes 8 sid) d4;
          d6 = mem_write 14 [ch] d5;
          d7 = mem_write 15 (le_bytes 4 sq) d6
      in mem_write 19 (le_bytes 4 (of_nat plen :: u32)) d7)"

definition chan_packet :: "u64 \<Rightarrow> u8 \<Rightarrow> bytes \<Rightarrow> u32 \<Rightarrow> packet_buf \<Rightarrow> packet_buf" where
  "chan_packet sid ch pl sq b =
     b\<lparr>data := mem_write HEADER_SIZE pl (chan_fields sid ch sq (length pl) (data b)), len := HEADER_SIZE + length pl\<rparr>"

text \<open>\<open>if (packet_parse(p, &view) == 0) session_enc_apply(p, &view, sess);\<close>, whatever its result.\<close>

definition seal :: "crypto_lib \<Rightarrow> session \<Rightarrow> packet_buf \<Rightarrow> packet_buf option" where
  "seal L s b = (case packet_parse b of None \<Rightarrow> Some b | Some v \<Rightarrow> map_option snd (session_enc_apply L b v s))"

text \<open>\<open>if (ring_push(&txq->X, p) != 0) pool_return(p)\<close> for the queue with selector \<open>sel\<close> and update \<open>upd\<close>.\<close>

definition push_tx ::
    "(tx_queues \<Rightarrow> buf_ring) \<Rightarrow> ((buf_ring \<Rightarrow> buf_ring) \<Rightarrow> tx_queues \<Rightarrow> tx_queues) \<Rightarrow> buf_ptr \<Rightarrow> endpoint \<Rightarrow> endpoint" where
  "push_tx sel upd p e =
     (let (st, r) = ring_push (sel (ep_txq e)) p
      in if st \<noteq> 0 then e\<lparr>ep_pool := pool_return p (ep_pool e)\<rparr> else e\<lparr>ep_txq := upd (\<lambda>_. r) (ep_txq e)\<rparr>)"

text \<open>
  The sending half of both workers, after a buffer was taken; \<open>None\<close> is the store past the end
  of the buffer.
\<close>

definition send_frame ::
    "crypto_lib \<Rightarrow> (tx_queues \<Rightarrow> buf_ring) \<Rightarrow> ((buf_ring \<Rightarrow> buf_ring) \<Rightarrow> tx_queues \<Rightarrow> tx_queues) \<Rightarrow> u8 \<Rightarrow> bytes \<Rightarrow> bytes \<Rightarrow>
     buf_ptr \<Rightarrow> endpoint \<Rightarrow> endpoint option" where
  "send_frame L sel upd ch peer_addr pl p e =
     (if HEADER_SIZE + length pl > MAX_PACKET_SIZE then None
      else
        let sq = ep_seq e; e1 = e\<lparr>ep_seq := sq + 1\<rparr>;
            b = chan_packet (session_id (ep_sess e)) ch pl sq (pool_mem (ep_pool e) p)
        in case seal L (ep_sess e) b of
             None \<Rightarrow> None
           | Some b' \<Rightarrow>
               Some (push_tx sel upd p (e1\<lparr>ep_pool := buf_update p (\<lambda>_. set_dest (take SOCKADDR_IN6_SIZE peer_addr) SOCKADDR_IN6_SIZE b') (ep_pool e1)\<rparr>)))"

section \<open>Codec\<close>

abbreviation AUDIO_FRAME_SAMPLES :: nat where "AUDIO_FRAME_SAMPLES \<equiv> 960"
abbreviation AUDIO_FRAME_SIZE :: nat where "AUDIO_FRAME_SIZE \<equiv> 1920"

text \<open>
  \<open>opus_encode\<close> gets the samples and the size of the output, and yields the output or an error;
  \<open>opus_decode\<close> gets a packet, or none for a lost one, and yields samples or an error.
\<close>

record opus =
  opus_encoder_create :: "bytes option"
  opus_decoder_create :: "bytes option"
  opus_encode :: "bytes \<Rightarrow> bytes \<Rightarrow> nat \<Rightarrow> bytes option \<times> bytes"
  opus_decode :: "bytes \<Rightarrow> bytes option \<Rightarrow> bytes option \<times> bytes"

record audio_frame =
  af_samples :: bytes
  af_seq :: u64
  af_timestamp_ms :: u64

record audio_ctx =
  encoder :: "bytes option"
  decoder :: "bytes option"
  jitter :: "audio_frame jitter_buffer"
  packets_encoded :: u32
  packets_decoded :: u32
  au_packets_lost :: u32
  packets_late :: u32

definition audio_frame_zero :: audio_frame where
  "audio_frame_zero = \<lparr>af_samples = replicate AUDIO_FRAME_SIZE 0, af_seq = 0, af_timestamp_ms = 0\<rparr>"

definition audio_ctx_zero :: audio_ctx where
  "audio_ctx_zero = \<lparr>encoder = None, decoder = None,
     jitter = \<lparr>jb_buffer = replicate JITTER_MAX_FRAMES audio_frame_zero, jb_count = 0, read_cursor = 0, write_cursor = 0, target_frames = 0\<rparr>,
     packets_encoded = 0, packets_decoded = 0, au_packets_lost = 0, packets_late = 0\<rparr>"

definition audio_init :: "opus \<Rightarrow> int \<times> audio_ctx" where
  "audio_init ol =
     (case opus_encoder_create ol of
        None \<Rightarrow> (-1, audio_ctx_zero)
      | Some en \<Rightarrow>
          (case opus_decoder_create ol of
             None \<Rightarrow> (-1, audio_ctx_zero)
           | Some de \<Rightarrow> (0, audio_ctx_zero\<lparr>encoder := Some en, decoder := Some de, jitter := jitter_init audio_frame_zero 40\<rparr>)))"

text \<open>The samples are those of a frame; the result is the encoded frame on success.\<close>

definition audio_encode :: "opus \<Rightarrow> bytes \<Rightarrow> nat \<Rightarrow> nat \<Rightarrow> audio_ctx \<Rightarrow> bytes option \<times> audio_ctx" where
  "audio_encode ol pcm pcm_len out_len c =
     (case encoder c of
        None \<Rightarrow> (None, c)
      | Some en \<Rightarrow>
          if pcm_len < AUDIO_FRAME_SAMPLES then (None, c)
          else let (ret, en') = opus_encode ol en pcm out_len; c1 = c\<lparr>encoder := Some en'\<rparr>
               in case ret of
                    None \<Rightarrow> (None, c1)
                  | Some x \<Rightarrow> (Some x, c1\<lparr>packets_encoded := packets_encoded c + 1\<rparr>))"

definition audio_decode :: "opus \<Rightarrow> bytes \<Rightarrow> nat \<Rightarrow> audio_ctx \<Rightarrow> bytes option \<times> audio_ctx" where
  "audio_decode ol d pcm_len c =
     (case decoder c of
        None \<Rightarrow> (None, c)
      | Some de \<Rightarrow>
          if pcm_len < AUDIO_FRAME_SAMPLES then (None, c)
          else let (ret, de') = opus_decode ol de (if d \<noteq> [] then Some d else None);
                   c1 = c\<lparr>decoder := Some de', au_packets_lost := au_packets_lost c + (if d \<noteq> [] then 0 else 1)\<rparr>
               in case ret of
                    None \<Rightarrow> (None, c1)
                  | Some x \<Rightarrow> (Some x, c1\<lparr>packets_decoded := packets_decoded c + 1\<rparr>))"

definition audio_destroy :: "audio_ctx \<Rightarrow> audio_ctx" where
  "audio_destroy c = audio_ctx_zero"

section \<open>Audio pipes\<close>

type_synonym popen = "string \<Rightarrow> bytes option"

record audio_capture =
  ac_pipe :: "bytes option"
  ac_active :: bool
  ac_device :: string

record audio_playback =
  ap_pipe :: "bytes option"
  ap_active :: bool
  ap_device :: string

definition pipe_zero :: "audio_capture \<times> audio_playback" where
  "pipe_zero = (\<lparr>ac_pipe = None, ac_active = False, ac_device = []\<rparr>, \<lparr>ap_pipe = None, ap_active = False, ap_device = []\<rparr>)"

text \<open>The command lines of the POSIX build; a missing or empty device name leaves the option out.\<close>

definition device_option :: "string option \<Rightarrow> string" where
  "device_option dev = (case dev of None \<Rightarrow> [] | Some d \<Rightarrow> if d = [] then [] else '' -D '' @ d)"

definition audio_capture_init :: "popen \<Rightarrow> string option \<Rightarrow> int \<times> audio_capture" where
  "audio_capture_init popen dev =
     (let cmd = snprintf 512 (''arecord -q -r 48000 -c 1 -f S16_LE -t raw'' @ device_option dev @ '' 2>/dev/null'');
          c = fst pipe_zero
      in case popen cmd of
           None \<Rightarrow> (-1, c)
         | Some out \<Rightarrow> (0, c\<lparr>ac_pipe := Some out, ac_active := True, ac_device := (case dev of None \<Rightarrow> [] | Some d \<Rightarrow> snprintf 64 d)\<rparr>))"

definition audio_capture_close :: "audio_capture \<Rightarrow> audio_capture" where
  "audio_capture_close c = (if \<not> ac_active c then c else c\<lparr>ac_active := False, ac_pipe := None\<rparr>)"

text \<open>\<open>fread\<close> consumes what there is, even when it is less than a frame.\<close>

definition audio_capture_read :: "nat \<Rightarrow> audio_capture \<Rightarrow> bytes option \<times> audio_capture" where
  "audio_capture_read frame_samples c =
     (case ac_pipe c of
        None \<Rightarrow> (None, c)
      | Some st \<Rightarrow>
          if \<not> ac_active c then (None, c)
          else let needed = frame_samples * 2; c1 = c\<lparr>ac_pipe := Some (drop needed st)\<rparr>
               in if length st < needed then (None, c1) else (Some (take needed st), c1))"

definition audio_playback_init :: "popen \<Rightarrow> string option \<Rightarrow> int \<times> audio_playback" where
  "audio_playback_init popen dev =
     (let cmd = snprintf 512 (''aplay -q -r 48000 -c 1 -f S16_LE -t raw'' @ device_option dev @ '' 2>/dev/null'');
          c = snd pipe_zero
      in case popen cmd of
           None \<Rightarrow> (-1, c)
         | Some _ \<Rightarrow> (0, c\<lparr>ap_pipe := Some [], ap_active := True, ap_device := (case dev of None \<Rightarrow> [] | Some d \<Rightarrow> snprintf 64 d)\<rparr>))"

definition audio_playback_close :: "audio_playback \<Rightarrow> audio_playback" where
  "audio_playback_close c = (if \<not> ap_active c then c else c\<lparr>ap_active := False, ap_pipe := None\<rparr>)"

definition audio_playback_write :: "bytes \<Rightarrow> audio_playback \<Rightarrow> int \<times> audio_playback" where
  "audio_playback_write samples c =
     (case ap_pipe c of
        None \<Rightarrow> (-1, c)
      | Some out \<Rightarrow> if \<not> ap_active c then (-1, c) else (0, c\<lparr>ap_pipe := Some (out @ samples)\<rparr>))"

section \<open>Audio worker\<close>

record audio_worker =
  aw_codec :: audio_ctx
  aw_capture :: audio_capture
  aw_playback :: audio_playback
  aw_running :: bool
  aw_active :: bool
  aw_tx_seq :: u32

definition audio_worker_zero :: audio_worker where
  "audio_worker_zero = \<lparr>aw_codec = audio_ctx_zero, aw_capture = fst pipe_zero, aw_playback = snd pipe_zero,
     aw_running = False, aw_active = False, aw_tx_seq = 0\<rparr>"

definition audio_worker_start :: "opus \<Rightarrow> popen \<Rightarrow> string option \<Rightarrow> int \<times> audio_worker" where
  "audio_worker_start ol popen dev =
     (let w = audio_worker_zero; (r1, codec) = audio_init ol; w1 = w\<lparr>aw_codec := codec\<rparr>
      in if r1 \<noteq> 0 then (-1, w1)
         else let (r2, cap) = audio_capture_init popen dev; w2 = w1\<lparr>aw_capture := cap\<rparr>
         in if r2 \<noteq> 0 then (-1, w2\<lparr>aw_codec := audio_destroy codec\<rparr>)
         else let (r3, pb) = audio_playback_init popen dev; w3 = w2\<lparr>aw_playback := pb\<rparr>
         in if r3 \<noteq> 0 then (-1, w3\<lparr>aw_capture := audio_capture_close cap, aw_codec := audio_destroy codec\<rparr>)
         else (0, w3\<lparr>aw_running := True, aw_active := False, aw_tx_seq := 0\<rparr>))"

definition audio_worker_stop :: "audio_worker \<Rightarrow> audio_worker" where
  "audio_worker_stop w =
     w\<lparr>aw_running := False, aw_active := False, aw_playback := audio_playback_close (aw_playback w),
       aw_capture := audio_capture_close (aw_capture w), aw_codec := audio_destroy (aw_codec w)\<rparr>"

definition audio_worker_is_active :: "audio_worker \<Rightarrow> bool" where
  "audio_worker_is_active w = aw_active w"

definition audio_worker_set_active :: "bool \<Rightarrow> audio_worker \<Rightarrow> audio_worker" where
  "audio_worker_set_active a w = w\<lparr>aw_active := a\<rparr>"

text \<open>Capture, encode, send.\<close>

definition audio_tx :: "crypto_lib \<Rightarrow> opus \<Rightarrow> bytes \<Rightarrow> audio_worker \<Rightarrow> endpoint \<Rightarrow> (audio_worker \<times> endpoint) option" where
  "audio_tx L ol peer_addr w e =
     (case audio_capture_read AUDIO_FRAME_SAMPLES (aw_capture w) of
        (None, cap) \<Rightarrow> Some (w\<lparr>aw_capture := cap\<rparr>, e)
      | (Some pcm, cap) \<Rightarrow>
          let w1 = w\<lparr>aw_capture := cap\<rparr>; (enc, codec) = audio_encode ol pcm AUDIO_FRAME_SAMPLES 512 (aw_codec w1);
              w2 = w1\<lparr>aw_codec := codec\<rparr>
          in case enc of
               None \<Rightarrow> Some (w2, e)
             | Some pl \<Rightarrow>
                 if pl = [] then Some (w2, e)
                 else (case pool_get (ep_pool e) of
                         (None, q) \<Rightarrow> Some (w2, e\<lparr>ep_pool := q\<rparr>)
                       | (Some p, q) \<Rightarrow>
                           map_option (Pair (w2\<lparr>aw_tx_seq := aw_tx_seq w2 + 1\<rparr>))
                             (send_frame L tx_audio tx_audio_update CH_AUDIO peer_addr pl p (e\<lparr>ep_pool := q\<rparr>))))"

text \<open>Receive, decode, play back.\<close>

definition audio_rx :: "opus \<Rightarrow> audio_worker \<Rightarrow> rx_queues \<Rightarrow> pool \<Rightarrow> audio_worker \<times> rx_queues \<times> pool" where
  "audio_rx ol w rxq q =
     (case ring_pop (rx_audio rxq) of
        (None, r) \<Rightarrow> (w, rxq\<lparr>rx_audio := r\<rparr>, q)
      | (Some p, r) \<Rightarrow>
          let b = pool_mem q p;
              w' = (case packet_parse b of
                      None \<Rightarrow> w
                    | Some v \<Rightarrow>
                        if channel_id v \<noteq> CH_AUDIO then w
                        else let (pcm, codec) = audio_decode ol (view_payload b v) AUDIO_FRAME_SAMPLES (aw_codec w);
                                 w1 = w\<lparr>aw_codec := codec\<rparr>
                             in case pcm of
                                  None \<Rightarrow> w1
                                | Some x \<Rightarrow> if x = [] then w1 else w1\<lparr>aw_playback := snd (audio_playback_write x (aw_playback w1))\<rparr>)
          in (w', rxq\<lparr>rx_audio := r\<rparr>, pool_return p q))"

definition audio_worker_tick ::
    "crypto_lib \<Rightarrow> opus \<Rightarrow> bytes \<Rightarrow> audio_worker \<Rightarrow> rx_queues \<Rightarrow> endpoint \<Rightarrow> (int \<times> audio_worker \<times> rx_queues \<times> endpoint) option" where
  "audio_worker_tick L ol peer_addr w rxq e =
     (if \<not> aw_running w then Some (-1, w, rxq, e)
      else if \<not> aw_active w then Some (0, w, rxq, e)
      else do {
        (w1, e1) \<leftarrow> audio_tx L ol peer_addr w e;
        let (w2, rxq', q) = audio_rx ol w1 rxq (ep_pool e1);
        Some (0, w2, rxq', e1\<lparr>ep_pool := q\<rparr>)
      })"

section \<open>Video pipes\<close>

abbreviation VIDEO_MAX_FRAME_SIZE :: nat where "VIDEO_MAX_FRAME_SIZE \<equiv> 262144"
abbreviation VIDEO_WIDTH :: int where "VIDEO_WIDTH \<equiv> 640"
abbreviation VIDEO_HEIGHT :: int where "VIDEO_HEIGHT \<equiv> 480"
abbreviation VIDEO_FPS :: int where "VIDEO_FPS \<equiv> 15"

record video_capture =
  vc_pipe :: "bytes option"
  vc_active :: bool
  vc_device :: string
  vc_width :: int
  vc_height :: int
  vc_fps :: int

record video_display =
  vd_active :: bool
  vd_width :: int
  vd_height :: int

definition positive_or :: "int \<Rightarrow> int \<Rightarrow> int" where
  "positive_or x d = (if x > 0 then x else d)"

text \<open>The numbers printed with \<open>%d\<close> are positive here.\<close>

definition video_capture_init :: "popen \<Rightarrow> string option \<Rightarrow> int \<Rightarrow> int \<Rightarrow> int \<Rightarrow> int \<times> video_capture" where
  "video_capture_init popen dev vid_w vid_h fps =
     (let w = positive_or vid_w VIDEO_WIDTH; h = positive_or vid_h VIDEO_HEIGHT; f = positive_or fps VIDEO_FPS;
          d = (case dev of Some x \<Rightarrow> if x = [] then ''/dev/video0'' else snprintf 64 x | None \<Rightarrow> ''/dev/video0'');
          cmd = snprintf 512 (''ffmpeg -hide_banner -loglevel error -f v4l2 -framerate '' @ dec (nat f) @ '' -video_size '' @
                  dec (nat w) @ ''x'' @ dec (nat h) @ '' -i '' @ d @ '' -f image2pipe -vcodec mjpeg -qscale:v 70 - 2>/dev/null'');
          c = \<lparr>vc_pipe = None, vc_active = False, vc_device = [], vc_width = w, vc_height = h, vc_fps = f\<rparr>
      in case popen cmd of
           None \<Rightarrow> (-1, c)
         | Some out \<Rightarrow> (0, c\<lparr>vc_pipe := Some out, vc_active := True, vc_device := (case dev of None \<Rightarrow> [] | Some x \<Rightarrow> snprintf 64 x)\<rparr>))"

definition video_capture_close :: "video_capture \<Rightarrow> video_capture" where
  "video_capture_close c = (if \<not> vc_active c then c else c\<lparr>vc_active := False, vc_pipe := None\<rparr>)"

text \<open>
  The loop that reads single bytes up to the end marker \<open>FF D9\<close> of a JPEG picture: \<open>n\<close> bytes may
  still be read, \<open>buf\<close> holds those read so far; the result is the picture and the rest of the stream.
\<close>

fun read_jpeg :: "nat \<Rightarrow> bytes \<Rightarrow> bytes \<Rightarrow> bytes option \<times> bytes" where
  "read_jpeg 0 buf st = (None, st)"
| "read_jpeg (Suc n) buf [] = (None, [])"
| "read_jpeg (Suc n) buf (x # st) =
     (let buf' = buf @ [x]; pos = length buf' in
      if pos \<ge> 2 \<and> buf' ! (pos - 2) = 0xFF \<and> buf' ! (pos - 1) = 0xD9 then (Some buf', st) else read_jpeg n buf' st)"

definition video_capture_read_jpeg :: "nat \<Rightarrow> video_capture \<Rightarrow> bytes option \<times> video_capture" where
  "video_capture_read_jpeg limit c =
     (case vc_pipe c of
        None \<Rightarrow> (None, c)
      | Some st \<Rightarrow>
          if \<not> vc_active c then (None, c)
          else let (r, st') = read_jpeg limit [] st in (r, c\<lparr>vc_pipe := Some st'\<rparr>))"

definition video_display_init :: "int \<Rightarrow> int \<Rightarrow> int \<times> video_display" where
  "video_display_init w h = (0, \<lparr>vd_active = True, vd_width = positive_or w VIDEO_WIDTH, vd_height = positive_or h VIDEO_HEIGHT\<rparr>)"

definition video_display_close :: "video_display \<Rightarrow> video_display" where
  "video_display_close d = d\<lparr>vd_active := False\<rparr>"

text \<open>\<open>%05d\<close> of a number that is not negative.\<close>

definition pad5 :: "nat \<Rightarrow> string" where
  "pad5 n = replicate (5 - length (dec n)) (CHR ''0'') @ dec n"

definition video_display_show_jpeg :: "bytes \<Rightarrow> string option \<Rightarrow> nat \<Rightarrow> video_display \<Rightarrow> file_system \<Rightarrow> int \<times> file_system" where
  "video_display_show_jpeg jpeg save_dir frame_num d fs =
     (if \<not> vd_active d \<or> jpeg = [] then (-1, fs)
      else let dir = (case save_dir of Some x \<Rightarrow> x | None \<Rightarrow> ''/tmp/ssm_video'');
               path = snprintf 512 (dir @ ''/frame_'' @ pad5 frame_num @ ''.jpg'')
           in if \<not> fs_access fs path then (-1, fs) else (0, fs\<lparr>files := (files fs)(path \<mapsto> jpeg)\<rparr>))"

section \<open>Video worker\<close>

record video_worker =
  vw_capture :: video_capture
  vw_display :: video_display
  vw_running :: bool
  vw_active :: bool
  vw_tx_seq :: u32
  vw_rx_frame_count :: nat

definition video_worker_zero :: video_worker where
  "video_worker_zero = \<lparr>vw_capture = \<lparr>vc_pipe = None, vc_active = False, vc_device = [], vc_width = 0, vc_height = 0, vc_fps = 0\<rparr>,
     vw_display = \<lparr>vd_active = False, vd_width = 0, vd_height = 0\<rparr>, vw_running = False, vw_active = False, vw_tx_seq = 0, vw_rx_frame_count = 0\<rparr>"

definition video_worker_start :: "popen \<Rightarrow> string option \<Rightarrow> int \<Rightarrow> int \<Rightarrow> int \<times> video_worker" where
  "video_worker_start popen dev width_v height_v =
     (let w = video_worker_zero; (r1, cap) = video_capture_init popen dev width_v height_v VIDEO_FPS; w1 = w\<lparr>vw_capture := cap\<rparr>
      in if r1 \<noteq> 0 then (-1, w1)
         else let (r2, d) = video_display_init width_v height_v; w2 = w1\<lparr>vw_display := d\<rparr>
         in if r2 \<noteq> 0 then (-1, w2\<lparr>vw_capture := video_capture_close cap\<rparr>)
         else (0, w2\<lparr>vw_running := True, vw_active := False, vw_tx_seq := 0, vw_rx_frame_count := 0\<rparr>))"

definition video_worker_stop :: "video_worker \<Rightarrow> video_worker" where
  "video_worker_stop w =
     w\<lparr>vw_running := False, vw_active := False, vw_display := video_display_close (vw_display w),
       vw_capture := video_capture_close (vw_capture w)\<rparr>"

definition video_worker_is_active :: "video_worker \<Rightarrow> bool" where
  "video_worker_is_active w = vw_active w"

definition video_worker_set_active :: "bool \<Rightarrow> video_worker \<Rightarrow> video_worker" where
  "video_worker_set_active a w = w\<lparr>vw_active := a\<rparr>"

definition video_tx :: "crypto_lib \<Rightarrow> bytes \<Rightarrow> video_worker \<Rightarrow> endpoint \<Rightarrow> (video_worker \<times> endpoint) option" where
  "video_tx L peer_addr w e =
     (case video_capture_read_jpeg VIDEO_MAX_FRAME_SIZE (vw_capture w) of
        (None, cap) \<Rightarrow> Some (w\<lparr>vw_capture := cap\<rparr>, e)
      | (Some jpeg, cap) \<Rightarrow>
          let w1 = w\<lparr>vw_capture := cap\<rparr>
          in case pool_get (ep_pool e) of
               (None, q) \<Rightarrow> Some (w1, e\<lparr>ep_pool := q\<rparr>)
             | (Some p, q) \<Rightarrow>
                 if jpeg = [] then Some (w1, e\<lparr>ep_pool := q\<rparr>)
                 else map_option (Pair (w1\<lparr>vw_tx_seq := vw_tx_seq w1 + 1\<rparr>))
                        (send_frame L tx_video tx_video_update CH_VIDEO peer_addr jpeg p (e\<lparr>ep_pool := q\<rparr>)))"

definition video_rx :: "video_worker \<Rightarrow> rx_queues \<Rightarrow> pool \<Rightarrow> file_system \<Rightarrow> video_worker \<times> rx_queues \<times> pool \<times> file_system" where
  "video_rx w rxq q fs =
     (case ring_pop (rx_video rxq) of
        (None, r) \<Rightarrow> (w, rxq\<lparr>rx_video := r\<rparr>, q, fs)
      | (Some p, r) \<Rightarrow>
          let b = pool_mem q p;
              (w', fs') = (case packet_parse b of
                      None \<Rightarrow> (w, fs)
                    | Some v \<Rightarrow>
                        if channel_id v \<noteq> CH_VIDEO then (w, fs)
                        else (w\<lparr>vw_rx_frame_count := vw_rx_frame_count w + 1\<rparr>,
                              snd (video_display_show_jpeg (view_payload b v) (Some ''/tmp/ssm_video'') (vw_rx_frame_count w) (vw_display w) fs)))
          in (w', rxq\<lparr>rx_video := r\<rparr>, pool_return p q, fs'))"

definition video_worker_tick ::
    "crypto_lib \<Rightarrow> bytes \<Rightarrow> video_worker \<Rightarrow> rx_queues \<Rightarrow> file_system \<Rightarrow> endpoint \<Rightarrow>
     (int \<times> video_worker \<times> rx_queues \<times> file_system \<times> endpoint) option" where
  "video_worker_tick L peer_addr w rxq fs e =
     (if \<not> vw_running w then Some (-1, w, rxq, fs, e)
      else if \<not> vw_active w then Some (0, w, rxq, fs, e)
      else do {
        (w1, e1) \<leftarrow> video_tx L peer_addr w e;
        let (w2, rxq', q, fs') = video_rx w1 rxq (ep_pool e1) fs;
        Some (0, w2, rxq', fs', e1\<lparr>ep_pool := q\<rparr>)
      })"

section \<open>What a sealed packet holds\<close>

lemma chan_fields_reads:
  assumes "HEADER_SIZE \<le> length d"
  shows "length (chan_fields sid ch sq n d) = length d"
    "mem_read 0 4 (chan_fields sid ch sq n d) = le_bytes 4 PROTO_MAGIC"
    "chan_fields sid ch sq n d ! 4 = PROTO_VERSION" "chan_fields sid ch sq n d ! 5 = 0"
    "mem_read 6 8 (chan_fields sid ch sq n d) = le_bytes 8 sid" "chan_fields sid ch sq n d ! 14 = ch"
    "mem_read 15 4 (chan_fields sid ch sq n d) = le_bytes 4 sq"
    "mem_read 19 4 (chan_fields sid ch sq n d) = le_bytes 4 (of_nat n :: u32)"
  using assms by (simp_all add: chan_fields_def Let_def mem_simps nth_Cons')

lemma chan_packet_parse:
  assumes b: "buf_ok b" and pl: "length pl \<le> MAX_PACKET_SIZE - HEADER_SIZE"
  shows "buf_ok (chan_packet sid ch pl sq b) \<and> (\<exists>v. packet_parse (chan_packet sid ch pl sq b) = Some v \<and>
    magic v = PROTO_MAGIC \<and> version v = PROTO_VERSION \<and> flags v = 0 \<and> view_session_id v = sid \<and>
    channel_id v = ch \<and> seq v = sq \<and> plength v = length pl \<and> payload v = HEADER_SIZE \<and>
    \<not> encrypted v \<and> view_payload (chan_packet sid ch pl sq b) v = pl)"
proof -
  let ?h = "chan_fields sid ch sq (length pl) (data b)"
  have l: "length (data b) = MAX_PACKET_SIZE" using b by (simp add: buf_ok_def)
  then have f: "length ?h = MAX_PACKET_SIZE" using chan_fields_reads(1) [of "data b"] by simp
  note h = chan_fields_reads [of "data b" sid ch sq "length pl"]
  have u: "unat (of_nat (length pl) :: u32) = length pl" using pl by (simp add: unat_of_nat)
  have rd: "mem_read off n (mem_write HEADER_SIZE pl ?h) = mem_read off n ?h" if "off + n \<le> HEADER_SIZE" for off n
    using that f by (simp add: mem_simps)
  have nt: "mem_write HEADER_SIZE pl ?h ! i = ?h ! i" if "i < HEADER_SIZE" for i using that f by (simp add: mem_simps)
  have "buf_ok (chan_packet sid ch pl sq b)" using b f pl by (simp add: chan_packet_def buf_ok_def mem_simps)
  then show ?thesis
    using l f pl u h by (simp add: packet_parse_def chan_packet_def Let_def rd nt wire_simps view_payload_def mem_simps)
qed

text \<open>Decryption in place leaves the packet's fields, so that it parses as before.\<close>

lemma parse_after_decrypt:
  assumes "buf_ok b" "packet_parse b = Some v" "encrypted v" "length out = plength v"
  shows "packet_parse (b\<lparr>data := mem_write (payload v) out (data b)\<rparr>) = Some v \<and>
    view_payload (b\<lparr>data := mem_write (payload v) out (data b)\<rparr>) v = out"
proof -
  have p: "payload v = 36" "plength v + 52 = len b" "len b \<le> MAX_PACKET_SIZE"
    using assms(2,3) by (auto simp: packet_parse_def Let_def split: if_splits)
  let ?d = "mem_write 36 out (data b)"
  have l: "length (data b) = MAX_PACKET_SIZE" using assms(1) by (simp add: buf_ok_def)
  have rd: "mem_read off n ?d = mem_read off n (data b)" if "off + n \<le> 36" for off n
    using that l p assms(4) by (simp add: mem_simps)
  have nt: "?d ! i = data b ! i" if "i < 36" for i using that l p assms(4) by (simp add: mem_simps)
  have tg: "mem_read (36 + plength v) 16 ?d = mem_read (36 + plength v) 16 (data b)" using l p assms(4) by (simp add: mem_simps)
  have "packet_parse (b\<lparr>data := ?d\<rparr>) = packet_parse b"
    using assms(2,3) p tg by (auto simp: packet_parse_def Let_def rd nt split: if_splits)
  then show ?thesis using assms(2) p l assms(4) by (simp add: view_payload_def mem_simps)
qed

lemma seal_data:
  assumes L: "crypto_lib_ok L" and s: "session_ok s" "sess_state s = SESSION_LOCKED"
    and b: "buf_ok b" and ch: "ch \<noteq> CH_CONTROL" and pl: "length pl \<le> 1448"
  shows "\<exists>b' v'. seal L s (chan_packet sid ch pl sq b) = Some b' \<and> buf_ok b' \<and> packet_parse b' = Some v' \<and>
    encrypted v' \<and> flags v' = PACKET_FLAG_ENCRYPTED \<and> magic v' = PROTO_MAGIC \<and> version v' = PROTO_VERSION \<and>
    view_session_id v' = sid \<and> channel_id v' = ch \<and> seq v' = sq \<and> plength v' = length pl \<and>
    addr b' = addr b \<and> addr_len b' = addr_len b \<and>
    (\<forall>r. sess_state r = SESSION_LOCKED \<and> keys r = keys s \<longrightarrow>
       (\<exists>b'' v''. session_enc_check L b' v' r = (0, b'', v'', r) \<and> packet_parse b'' = Some v' \<and> view_payload b'' v' = pl))"
proof -
  let ?b = "chan_packet sid ch pl sq b"
  have p: "length pl \<le> MAX_PACKET_SIZE - HEADER_SIZE" using pl by simp
  obtain v where ok: "buf_ok ?b" and v: "packet_parse ?b = Some v" "magic v = PROTO_MAGIC" "version v = PROTO_VERSION" "flags v = 0"
    "view_session_id v = sid" "channel_id v = ch" "seq v = sq" "plength v = length pl" "\<not> encrypted v" "view_payload ?b v = pl"
    using chan_packet_parse [OF b p, of sid ch sq] by blast
  obtain b' v' where e: "session_enc_apply L ?b v s = Some (0, b')" "buf_ok b'" "packet_parse b' = Some v'"
    "encrypted v'" "magic v' = magic v" "version v' = version v" "flags v' = flags v OR PACKET_FLAG_ENCRYPTED"
    "view_session_id v' = view_session_id v" "channel_id v' = channel_id v" "seq v' = seq v" "plength v' = plength v" "payload v' = 36"
    "aead_decrypt L (session_key (keys s)) (nonce v') (build_aad (data b') (channel_id v) s) (view_payload b' v') (tag v') = (0, view_payload ?b v)"
    "addr b' = addr ?b" "addr_len b' = addr_len ?b"
    using session_enc_apply_packet [OF L s ok v(1,9)] v(6,8) ch pl by auto
  have "session_enc_check L b' v' r = (0, b'\<lparr>data := mem_write 36 pl (data b')\<rparr>, v'\<lparr>encrypted := False\<rparr>, r)"
    if "sess_state r = SESSION_LOCKED" "keys r = keys s" for r
    using that e(9,12,13) v(6,10) ch build_aad_keys [OF that(2)] by (simp add: session_enc_check_def)
  moreover have "packet_parse (b'\<lparr>data := mem_write 36 pl (data b')\<rparr>) = Some v' \<and> view_payload (b'\<lparr>data := mem_write 36 pl (data b')\<rparr>) v' = pl"
    using parse_after_decrypt [OF e(2-4), of pl] e(11,12) v(8) by simp
  moreover have "seal L s ?b = Some b'" using v(1) e(1) by (simp add: seal_def)
  moreover have "addr ?b = addr b" "addr_len ?b = addr_len b" by (simp_all add: chan_packet_def)
  ultimately show ?thesis using e v by auto
qed

section \<open>Frames and buffers\<close>

text \<open>
  A picture of more than 1476 bytes that the camera delivers while a video call is active is
  copied past the end of the packet buffer: the size of the picture, at most 256 KiB, is
  compared with the capture buffer only.
\<close>

theorem video_frame_overflows:
  assumes "vw_running w" "vw_active w" "pool_ok (ep_pool e)" "free_bufs (ep_pool e) \<noteq> []"
    and "video_capture_read_jpeg VIDEO_MAX_FRAME_SIZE (vw_capture w) = (Some jpeg, cap)" "length jpeg > MAX_PACKET_SIZE - HEADER_SIZE"
  shows "video_worker_tick L peer_addr w rxq fs e = None"
proof -
  obtain p q where "pool_get (ep_pool e) = (Some p, q)" using packet_pool.get_some [of "ep_pool e"] assms(3,4) by auto
  moreover have "jpeg \<noteq> []" using assms(6) by auto
  ultimately have "video_tx L peer_addr w e = None" using assms(5,6) by (simp add: video_tx_def send_frame_def)
  then show ?thesis using assms(1,2) by (simp add: video_worker_tick_def)
qed

text \<open>
  An audio frame always fits: a tick of the audio worker stays inside its buffers, as long as
  Opus keeps to the 512 bytes it is given.
\<close>

theorem audio_tick_safe:
  assumes L: "crypto_lib_ok L" and s: "session_ok (ep_sess e)" and b: "\<And>p. buf_ok (pool_mem (ep_pool e) p)"
    and o: "\<And>st pcm n x st'. opus_encode ol st pcm n = (Some x, st') \<Longrightarrow> length x \<le> n"
  shows "audio_worker_tick L ol peer_addr w rxq e \<noteq> None"
proof -
  have f: "send_frame L tx_audio tx_audio_update CH_AUDIO peer_addr pl p e' \<noteq> None"
    if "length pl \<le> 512" "ep_sess e' = ep_sess e" "buf_ok (pool_mem (ep_pool e') p)" for pl p e'
  proof -
    let ?b = "chan_packet (session_id (ep_sess e')) CH_AUDIO pl (ep_seq e') (pool_mem (ep_pool e') p)"
    have "seal L (ep_sess e') ?b \<noteq> None"
    proof (cases "sess_state (ep_sess e) = SESSION_LOCKED")
      case True
      then show ?thesis using seal_data [OF L _ _ that(3), of "ep_sess e'" CH_AUDIO pl] s that by fastforce
    next
      case False
      then show ?thesis using that(2) by (auto simp: seal_def session_enc_apply_def split: option.splits)
    qed
    then show ?thesis using that(1) by (auto simp: send_frame_def Let_def split: option.splits)
  qed
  have x: "length pl \<le> 512" if "audio_encode ol pcm n 512 c = (Some pl, c')" for pcm n c pl c'
    using that o by (auto simp: audio_encode_def Let_def split: option.splits if_splits prod.splits)
  have m: "buf_ok (pool_mem q p)" if "pool_get (ep_pool e) = (r, q)" for r q p
    using pool_get_mem [of "ep_pool e"] that b by simp
  have "audio_tx L ol peer_addr w e \<noteq> None"
  proof (cases "audio_capture_read AUDIO_FRAME_SAMPLES (aw_capture w)")
    case (Pair pcm cap)
    obtain enc codec where c: "audio_encode ol (the pcm) AUDIO_FRAME_SAMPLES 512 (aw_codec w) = (enc, codec)" by fastforce
    obtain r q where q: "pool_get (ep_pool e) = (r, q)" by fastforce
    show ?thesis
      using Pair c q x [of "the pcm" AUDIO_FRAME_SAMPLES "aw_codec w" _ codec] f [of _ "e\<lparr>ep_pool := q\<rparr>"] m [OF q]
      by (cases pcm; cases enc; cases r) (auto simp: audio_tx_def Let_def)
  qed
  then show ?thesis by (auto simp: audio_worker_tick_def split: prod.splits)
qed

end
