(* ===== verification/Discovery.thy ===== *)
theory Discovery
  imports Connections
begin

text \<open>
  Discovery of peers on the local network (\<open>lib/discovery/lan_discovery.c\<close>): the beacon message, its
  reception into the peer list, and the state of the module. Whether a socket could be created is
  an argument, and so is the printed source address of a received datagram (the empty string when
  \<open>inet_ntop\<close> yields none).
\<close>

abbreviation DISCOVERY_MAGIC :: u32 where "DISCOVERY_MAGIC \<equiv> 0xDEADBEEF"
abbreviation DISCOVERY_VERSION :: u8 where "DISCOVERY_VERSION \<equiv> 1"

record discovery =
  disc_initialized :: bool
  disc_running :: bool
  disc_transport_port :: u16
  disc_port :: u16
  disc_username :: string
  disc_broadcast_ok :: bool

section \<open>State of the module\<close>

definition lan_discovery_get_port :: "discovery \<Rightarrow> u16" where
  "lan_discovery_get_port d = disc_port d"

definition lan_discovery_init :: "bool \<Rightarrow> bool \<Rightarrow> u16 \<Rightarrow> u16 \<Rightarrow> discovery \<Rightarrow> int \<times> discovery" where
  "lan_discovery_init bound broadcast_fd port transport_port d =
     (if disc_initialized d then (-1, d)
      else let d1 = d\<lparr>disc_port := port, disc_transport_port := transport_port\<rparr>
           in if \<not> bound then (-1, d1)
              else if \<not> broadcast_fd then (-1, d1)
              else (0, d1\<lparr>disc_broadcast_ok := True, disc_initialized := True\<rparr>))"

definition lan_discovery_shutdown :: "discovery \<Rightarrow> discovery" where
  "lan_discovery_shutdown d = d\<lparr>disc_running := False, disc_initialized := False, disc_broadcast_ok := False\<rparr>"

definition lan_discovery_start :: "discovery \<Rightarrow> int \<times> discovery" where
  "lan_discovery_start d = (if \<not> disc_initialized d then (-1, d) else (0, d\<lparr>disc_running := True\<rparr>))"

definition lan_discovery_stop :: "discovery \<Rightarrow> discovery" where
  "lan_discovery_stop d = d\<lparr>disc_running := False\<rparr>"

definition lan_discovery_set_username :: "string option \<Rightarrow> discovery \<Rightarrow> discovery" where
  "lan_discovery_set_username u d = (case u of None \<Rightarrow> d | Some x \<Rightarrow> d\<lparr>disc_username := snprintf 32 x\<rparr>)"

section \<open>Beacons\<close>

text \<open>The message that \<open>send_beacon\<close> broadcasts, if any.\<close>

definition send_beacon :: "discovery \<Rightarrow> bytes option" where
  "send_beacon d =
     (if \<not> disc_broadcast_ok d then None
      else let u = take 31 (disc_username d)
           in Some (le_bytes 4 DISCOVERY_MAGIC @ [DISCOVERY_VERSION] @ le_bytes 2 (disc_transport_port d) @
                    [of_nat (length u)] @ map of_char u))"

text \<open>The C string in a character array of bytes.\<close>

definition chars :: "bytes \<Rightarrow> string" where
  "chars bs = map (\<lambda>b. char_of (unat b)) (takeWhile (\<lambda>b. b \<noteq> 0) bs)"

text \<open>\<open>rx\<close> is the received datagram, cut to the 64 bytes of the buffer; \<open>None\<close> when nothing was waiting.\<close>

definition try_recv_beacon :: "bytes option \<Rightarrow> string \<Rightarrow> u64 \<Rightarrow> conn_mgr \<Rightarrow> int \<times> conn_mgr" where
  "try_recv_beacon rx addr_str now_s c =
     (case rx of
        None \<Rightarrow> (0, c)
      | Some dgram \<Rightarrow>
          let buf = take 64 dgram in
          if length buf < 8 then (0, c)
          else
            let port = le_word (mem_read 5 2 buf) :: u16;
                n = min 31 (unat (buf ! 7));
                username = (if 0 < n \<and> length buf \<ge> 8 + n then chars (mem_read 8 n buf) else [])
            in if le_word (mem_read 0 4 buf) \<noteq> DISCOVERY_MAGIC \<or> buf ! 4 \<noteq> DISCOVERY_VERSION then (0, c)
               else if addr_str = [] then (1, c)
               else if addr_str = ''::1'' \<or> addr_str = ''127.0.0.1'' then (1, c)
               else
                 let k = (addr_str, port);
                     c1 = (if find_peer c k = None then snd (connection_manager_connect k () c) else c);
                     c2 = (if username \<noteq> [] then connection_manager_set_username k username c1 else c1)
                 in (1, connection_manager_update_last_seen k (now_s * 1000) c2))"

text \<open>One beacon is sent and up to ten waiting datagrams are taken, until one is no beacon.\<close>

fun recv_beacons :: "nat \<Rightarrow> (bytes \<times> string) list \<Rightarrow> u64 \<Rightarrow> conn_mgr \<Rightarrow> conn_mgr" where
  "recv_beacons 0 xs now_s c = c"
| "recv_beacons (Suc n) [] now_s c = c"
| "recv_beacons (Suc n) ((rx, a) # xs) now_s c =
     (let (r, c') = try_recv_beacon (Some rx) a now_s c in if r = 0 then c' else recv_beacons n xs now_s c')"

definition lan_discovery_trigger_scan :: "(bytes \<times> string) list \<Rightarrow> u64 \<Rightarrow> discovery \<Rightarrow> conn_mgr \<Rightarrow> bytes option \<times> conn_mgr" where
  "lan_discovery_trigger_scan inbox now_s d c = (send_beacon d, recv_beacons 10 inbox now_s c)"

section \<open>A beacon makes its sender known\<close>

lemma beacon_fields:
  fixes port :: u16 and u :: string
  defines "buf \<equiv> le_bytes 4 DISCOVERY_MAGIC @ [DISCOVERY_VERSION] @ le_bytes 2 port @ [of_nat (length u)] @ map of_char u"
  assumes "length u \<le> 31"
  shows "le_word (mem_read 0 4 buf) = DISCOVERY_MAGIC" "buf ! 4 = DISCOVERY_VERSION" "le_word (mem_read 5 2 buf) = port"
    "unat (buf ! 7) = length u" "mem_read 8 (length u) buf = map of_char u" "length buf = 8 + length u"
  using assms(2)
  by (simp_all add: buf_def mem_read_def le_word_le_bytes nth_append unat_of_nat)

lemma unat_of_char: "unat (of_char x :: u8) = of_char x"
proof -
  have "(of_char x :: u8) = of_nat (of_char x)" by (rule of_nat_of_char [symmetric])
  moreover have "(of_char x :: nat) < 256" by (metis mod_less_divisor of_char_mod_256 zero_less_numeral)
  ultimately show ?thesis by (simp only: unat_of_nat) simp
qed

lemma chars_of_char: "CHR 0x00 \<notin> set u \<Longrightarrow> chars (map of_char u) = u"
proof -
  assume "CHR 0x00 \<notin> set u"
  moreover have "(of_char x :: u8) \<noteq> 0" if "x \<noteq> CHR 0x00" for x
  proof
    assume "(of_char x :: u8) = 0"
    then have "(of_char x :: nat) = 0" using unat_of_char [of x] by simp
    then have "(of_char x :: nat) = of_char (CHR 0x00)" by simp
    then show False using that by (simp only: of_char_eq_iff)
  qed
  ultimately have "\<forall>b \<in> set (map of_char u :: bytes). b \<noteq> 0" by (metis imageE set_map)
  then have "takeWhile (\<lambda>b. b \<noteq> 0) (map of_char u) = (map of_char u :: bytes)" by (simp only: takeWhile_eq_all_conv)
  then show ?thesis unfolding chars_def by (simp only: map_map o_def unat_of_char char_of_char map_ident)
qed

text \<open>Effect of \<open>connection_manager_set_username\<close> and \<open>connection_manager_update_last_seen\<close> on a known peer.\<close>

lemma with_peer_known:
  assumes "cm_ok c" "peer_lookup c k = Some p" "\<And>p. peer_key (f p) = peer_key p"
  shows "cm_ok (with_peer k f c) \<and> peer_lookup (with_peer k f c) = (peer_lookup c)(k \<mapsto> f p)"
proof -
  obtain i where i: "find_peer c k = Some i" using assms(2) by (auto simp: peer_lookup_def)
  show ?thesis using update_peer_known [OF assms(1) i, of f] assms(2,3) i by (auto simp: with_peer_def)
qed

text \<open>
  A beacon makes its sender known: a peer that receives the beacon of another host from a new or
  known address, and has room, lists that host as online with the user name and the transport
  port of the beacon and the time of reception, and changes no other peer.
\<close>

theorem beacon_makes_known:
  assumes c: "cm_ok c" "length a < 64" "a \<noteq> []" "a \<noteq> ''::1''" "a \<noteq> ''127.0.0.1''"
    and room: "peer_lookup c (a, disc_transport_port d) \<noteq> None \<or> card (dom (peer_lookup c)) < MAX_PEERS"
    and d: "disc_broadcast_ok d" "length (disc_username d) < 32" "disc_username d \<noteq> []" "CHR 0x00 \<notin> set (disc_username d)"
  shows "\<exists>m c' p. send_beacon d = Some m \<and> try_recv_beacon (Some m) a now c = (1, c') \<and> cm_ok c' \<and>
    peer_lookup c' = (peer_lookup c)((a, disc_transport_port d) \<mapsto> p) \<and>
    peer_online p \<and> peer_username p = disc_username d \<and> peer_last_seen_ms p = now * 1000"
proof -
  let ?u = "disc_username d" and ?k = "(a, disc_transport_port d)"
  let ?m = "le_bytes 4 DISCOVERY_MAGIC @ [DISCOVERY_VERSION] @ le_bytes 2 (disc_transport_port d) @ [of_nat (length ?u)] @ map of_char ?u"
  have u: "length ?u \<le> 31" using d(2) by simp
  note f = beacon_fields [OF u, of "disc_transport_port d"]
  have t: "take 64 ?m = ?m" using u by simp
  have s: "send_beacon d = Some ?m" using d(1) u by (simp add: send_beacon_def Let_def)
  have n: "chars (map of_char ?u) = ?u" using chars_of_char [OF d(4)] .
  define c1 where "c1 = (if find_peer c ?k = None then snd (connection_manager_connect ?k () c) else c)"
  obtain p where p: "cm_ok c1" "peer_lookup c1 = (peer_lookup c)(?k \<mapsto> p)"
  proof (cases "find_peer c ?k")
    case None
    then show ?thesis using that peers.put_room [OF c(1), of ?k "()"] c(2) room by (auto simp: c1_def)
  next
    case (Some i)
    then show ?thesis using that c(1) by (auto simp: c1_def peer_lookup_def fun_eq_iff)
  qed
  let ?g = "\<lambda>p. p\<lparr>peer_username := snprintf 32 ?u\<rparr>" and ?h = "\<lambda>p. p\<lparr>peer_last_seen_ms := now * 1000, peer_online := True\<rparr>"
  have 2: "cm_ok (with_peer ?k ?g c1)" "peer_lookup (with_peer ?k ?g c1) = (peer_lookup c)(?k \<mapsto> ?g p)"
    using with_peer_known [OF p(1), of ?k p ?g] p(2) by (auto simp: peer_key_def)
  have 3: "cm_ok (with_peer ?k ?h (with_peer ?k ?g c1))"
    "peer_lookup (with_peer ?k ?h (with_peer ?k ?g c1)) = (peer_lookup c)(?k \<mapsto> ?h (?g p))"
    using with_peer_known [OF 2(1), of ?k "?g p" ?h] 2(2) by (auto simp: peer_key_def)
  have "try_recv_beacon (Some ?m) a now c = (1, with_peer ?k ?h (with_peer ?k ?g c1))"
    using f u n c(3-5) d(3) unfolding try_recv_beacon_def option.case Let_def t
    by (simp add: c1_def connection_manager_set_username_def connection_manager_update_last_seen_def min_def)
  then show ?thesis using s 3 d(2) by auto
qed

theorem beacon_makes_known_witness:
  "\<exists>m c' p. send_beacon \<lparr>disc_initialized = True, disc_running = True, disc_transport_port = 5000, disc_port = 5005, disc_username = ''ann'',
      disc_broadcast_ok = True\<rparr> = Some m \<and> try_recv_beacon (Some m) ''10.0.0.7'' 3 connection_manager_init = (1, c') \<and>
    peer_lookup c' (''10.0.0.7'', 5000) = Some p \<and> peer_online p \<and> peer_username p = ''ann'' \<and> peer_last_seen_ms p = 3000"
proof -
  have c: "cm_ok connection_manager_init" "peer_lookup connection_manager_init = Map.empty"
    by (simp_all add: cm_ok_def cm_live_def connection_manager_init_def peer_lookup_def find_peer_def fun_eq_iff)
  show ?thesis
    using beacon_makes_known [OF c(1), of "''10.0.0.7''" "\<lparr>disc_initialized = True, disc_running = True, disc_transport_port = 5000, disc_port = 5005,
        disc_username = ''ann'', disc_broadcast_ok = True\<rparr>" 3] c(2) by auto
qed

end
