(* ===== verification/Engine.thy ===== *)
theory Engine
  imports Workers Monitor Calls Rekey Liveness Routing Conn_Request Discovery
begin

text \<open>
  The transport engine (\<open>lib/engine/transport_engine.c\<close>): its state and the operations that the
  application calls. A node is the engine with the global state of the modules it drives;
  \<open>n_alt_addr\<close> is the static variable of \<open>transport_engine_send_chat\<close>. A
  session pointer is its index in the session pool, a socket its index in the engine's
  arrays. What the engine gets from outside (time, randomness, address conversion, whether the
  operating system grants a resource) is the record \<open>env\<close>; \<open>malloc\<close> of an event or a job
  succeeds.
\<close>

abbreviation CTRL_FILE_META :: u8 where "CTRL_FILE_META \<equiv> 26"
abbreviation CTRL_TYPING :: u8 where "CTRL_TYPING \<equiv> 29"
abbreviation CTRL_DELIVERY_ACK :: u8 where "CTRL_DELIVERY_ACK \<equiv> 30"
abbreviation CTRL_READ_ACK :: u8 where "CTRL_READ_ACK \<equiv> 31"
abbreviation RELAY_NODE_RESPONDER :: u64 where "RELAY_NODE_RESPONDER \<equiv> 2"
abbreviation ENGINE_MAX_SOCKETS :: nat where "ENGINE_MAX_SOCKETS \<equiv> 4"

section \<open>Events\<close>

datatype conn_state = CONN_IDLE | CONN_CONNECTING | CONN_HANDSHAKE | CONN_LOCKED | CONN_FAILED

datatype event_type =
    EVENT_NONE | EVENT_CONNECTION_STATE_CHANGED | EVENT_CHAT_RECEIVED | EVENT_PEER_DISCOVERED
  | EVENT_STATS_UPDATE | EVENT_ERROR | EVENT_CONNECT_REQUEST | EVENT_CONNECT_ACCEPTED | EVENT_CONNECT_DECLINED
  | EVENT_AUDIO_CALL_REQUEST | EVENT_AUDIO_CALL_ACCEPTED | EVENT_AUDIO_CALL_ENDED
  | EVENT_VIDEO_CALL_REQUEST | EVENT_VIDEO_CALL_ACCEPTED | EVENT_VIDEO_CALL_ENDED
  | EVENT_FILE_TRANSFER_REQUEST | EVENT_FILE_TRANSFER_PROGRESS | EVENT_FILE_TRANSFER_COMPLETE
  | EVENT_FILE_TRANSFER_FAILED | EVENT_TYPING | EVENT_DELIVERY_ACK | EVENT_READ_ACK

text \<open>The member of the union that the event type selects; \<open>Ev_None\<close> when all of it is zero.\<close>

datatype event_data =
    Ev_None
  | Ev_Conn_State conn_state conn_state
  | Ev_Chat bytes u16
  | Ev_Conn_Req string u16 bytes bytes
  | Ev_Message_Seq u32

record event =
  ev_type :: event_type
  ev_timestamp_ms :: u64
  ev_data :: event_data

section \<open>State\<close>

record transport_config =
  tc_local_port :: u16
  tc_local_port_alt :: u16
  tc_discovery_port :: u16
  tc_discovery_enabled :: bool
  tc_fec_enabled :: bool
  tc_fec_group_size :: u8
  tc_multipath_enabled :: bool
  tc_path_count :: u32

record engine =
  eng_initialized :: bool
  eng_config :: transport_config
  eng_running :: bool
  eng_sockets_bound :: "u16 list"
  eng_socket_count :: nat
  eng_rx_rings :: "buf_ring list"
  eng_rx_queues :: "rx_queues list"
  eng_tx_queues :: "tx_queues list"
  eng_session :: "nat option"
  eng_seq_counter :: u32
  eng_start_time_ms :: u64
  eng_session_is_locked :: bool
  eng_peer_addr :: bytes
  eng_peer_configured :: bool
  eng_role_initiator :: bool
  eng_connect_addr_str :: string
  eng_connect_port :: u16
  eng_abr :: abr_ctx
  eng_route_table :: route_table
  eng_event_ring :: "event spsc_ring"
  eng_loop_ticks :: u64
  eng_audio :: audio_worker
  eng_video :: video_worker
  eng_file_ctx :: file_transfer_ctx
  eng_audio_call_active :: bool
  eng_video_call_active :: bool
  eng_cur_file_send_idx :: int
  eng_cur_file_recv_idx :: int

record node =
  n_eng :: engine
  n_pool :: pool
  n_sessions :: session_table
  n_off :: offensive
  n_aa :: anti_analysis
  n_kf :: kernel_filter
  n_requests :: conn_request_table
  n_conns :: conn_mgr
  n_crypto :: crypto_worker
  n_monitor :: monitor
  n_stats :: handshake_stats
  n_fs :: file_system
  n_disc :: discovery
  n_store :: secure_store
  n_alt_addr :: bytes

record env =
  env_time :: u64
  env_clock_ms :: u64
  env_seed :: nat
  env_sid :: u64
  env_noise :: bytes
  env_identity_key :: "string option"
  env_home :: "string option"
  env_pton6 :: "string \<Rightarrow> bytes option"
  env_pton4 :: "string \<Rightarrow> bytes option"
  env_ntop6 :: "bytes \<Rightarrow> string"
  env_malloc :: "buf_ptr \<Rightarrow> packet_buf"
  env_bind :: "u16 \<Rightarrow> bool"
  env_thread :: "string \<Rightarrow> bool"
  env_broadcast :: bool
  env_opus :: opus
  env_popen :: popen

text \<open>\<open>(uint64_t)time(NULL) * 1000\<close>.\<close>

definition now_ms :: "env \<Rightarrow> u64" where
  "now_ms E = env_time E * 1000"

section \<open>Access to the parts\<close>

definition upd_eng :: "(engine \<Rightarrow> engine) \<Rightarrow> node \<Rightarrow> node" where
  "upd_eng f n = n\<lparr>n_eng := f (n_eng n)\<rparr>"

definition sess_at :: "nat \<Rightarrow> node \<Rightarrow> session" where
  "sess_at i n = sess_pool (n_sessions n) ! i"

definition upd_sess_at :: "nat \<Rightarrow> (session \<Rightarrow> session) \<Rightarrow> node \<Rightarrow> node" where
  "upd_sess_at i f n = n\<lparr>n_sessions := (n_sessions n)\<lparr>sess_pool := (sess_pool (n_sessions n))[i := f (sess_at i n)]\<rparr>\<rparr>"

text \<open>The session, the transmit queues of socket \<open>k\<close>, the pool and the sequence counter, as an endpoint.\<close>

definition ep_of :: "nat \<Rightarrow> nat \<Rightarrow> node \<Rightarrow> endpoint" where
  "ep_of i k n = \<lparr>ep_sess = sess_at i n, ep_txq = eng_tx_queues (n_eng n) ! k, ep_pool = n_pool n, ep_seq = eng_seq_counter (n_eng n)\<rparr>"

definition put_ep :: "nat \<Rightarrow> nat \<Rightarrow> endpoint \<Rightarrow> node \<Rightarrow> node" where
  "put_ep i k e n =
     upd_sess_at i (\<lambda>_. ep_sess e) (upd_eng (\<lambda>g. g\<lparr>eng_tx_queues := (eng_tx_queues g)[k := ep_txq e], eng_seq_counter := ep_seq e\<rparr>)
       (n\<lparr>n_pool := ep_pool e\<rparr>))"

definition with_ep :: "nat \<Rightarrow> nat \<Rightarrow> (endpoint \<Rightarrow> 'a \<times> endpoint) \<Rightarrow> node \<Rightarrow> 'a \<times> node" where
  "with_ep i k f n = (let (r, e) = f (ep_of i k n) in (r, put_ep i k e n))"

definition give_back :: "buf_ptr \<Rightarrow> node \<Rightarrow> node" where
  "give_back p n = n\<lparr>n_pool := pool_return p (n_pool n)\<rparr>"

text \<open>An event is copied to fresh memory and queued; a full ring drops it.\<close>

definition push_event :: "event \<Rightarrow> node \<Rightarrow> node" where
  "push_event ev n = upd_eng (\<lambda>g. g\<lparr>eng_event_ring := snd (ring_push (eng_event_ring g) ev)\<rparr>) n"

definition plain_event :: "event_type \<Rightarrow> u64 \<Rightarrow> event" where
  "plain_event t now = \<lparr>ev_type = t, ev_timestamp_ms = now, ev_data = Ev_None\<rparr>"

section \<open>Packets\<close>

text \<open>\<open>strlen(msg) + 1\<close> bytes are copied; \<open>None\<close> is the copy past the end of the buffer.\<close>

definition build_chat_packet :: "bytes \<Rightarrow> endpoint \<Rightarrow> (buf_ptr option \<times> endpoint) option" where
  "build_chat_packet msg e =
     (case pool_get (ep_pool e) of
        (None, q) \<Rightarrow> Some (None, e\<lparr>ep_pool := q\<rparr>)
      | (Some p, q) \<Rightarrow>
          let pl = msg @ [0] in
          if HEADER_SIZE + length pl > MAX_PACKET_SIZE then None
          else Some (Some p, e\<lparr>ep_seq := ep_seq e + 1, ep_pool := buf_update p (chan_packet (session_id (ep_sess e)) CH_CHAT pl (ep_seq e)) q\<rparr>))"

definition encrypt_tx_packet :: "crypto_lib \<Rightarrow> buf_ptr \<Rightarrow> endpoint \<Rightarrow> (int \<times> endpoint) option" where
  "encrypt_tx_packet L p e =
     (let b = pool_mem (ep_pool e) p in
      case packet_parse b of
        None \<Rightarrow> Some (-1, e)
      | Some v \<Rightarrow>
          if channel_id v = CH_CONTROL then Some (0, e)
          else map_option (\<lambda>(r, b'). (r, e\<lparr>ep_pool := buf_update p (\<lambda>_. b') (ep_pool e)\<rparr>)) (session_enc_apply L b v (ep_sess e)))"

definition fec_tx_after_encrypt :: "buf_ptr \<Rightarrow> bytes \<Rightarrow> endpoint \<Rightarrow> endpoint option" where
  "fec_tx_after_encrypt p peer_addr e =
     (let s = ep_sess e; b = pool_mem (ep_pool e) p in
      if \<not> fec_enabled (resilience s) then Some e
      else
        let sq = (le_word (mem_read 15 4 (data b)) :: u32); sid = (le_word (mem_read 6 8 (data b)) :: u64); ch = data b ! 14;
            payload_len = (if len b > 24 then len b - 24 else 0)
        in case fec_tx_accumulate (resilience s) (mem_read 24 payload_len (data b)) sq ch of
             None \<Rightarrow> None
           | Some (group_complete, parity, r) \<Rightarrow>
               let e1 = e\<lparr>ep_sess := s\<lparr>resilience := r\<rparr>\<rparr>
               in if group_complete \<noteq> 0 \<and> length parity > 0
                  then (case pool_get (ep_pool e1) of
                          (None, q) \<Rightarrow> Some (e1\<lparr>ep_pool := q\<rparr>)
                        | (Some par, q) \<Rightarrow>
                            if HEADER_SIZE + length parity > MAX_PACKET_SIZE then None
                            else Some (push_control par (e1\<lparr>ep_pool := buf_update par (\<lambda>x.
                              set_dest (take SOCKADDR_IN6_SIZE peer_addr) SOCKADDR_IN6_SIZE
                                (write_packet PACKET_FLAG_FEC_PARITY sid ch sq parity x)) q\<rparr>)))
                  else Some e1)"

section \<open>Start and shutdown\<close>

definition buf_ring_zero :: buf_ring where
  "buf_ring_zero = \<lparr>slots = replicate RING_SIZE 0, write_idx = 0, read_idx = 0\<rparr>"

definition tx_queues_zero :: tx_queues where
  "tx_queues_zero = \<lparr>tx_control = buf_ring_zero, tx_audio = buf_ring_zero, tx_chat = buf_ring_zero, tx_file = buf_ring_zero,
     tx_video = buf_ring_zero, tx_fake = buf_ring_zero\<rparr>"

definition rx_queues_zero :: rx_queues where
  "rx_queues_zero = \<lparr>rx_control = buf_ring_zero, rx_audio = buf_ring_zero, rx_chat = buf_ring_zero, rx_file = buf_ring_zero,
     rx_video = buf_ring_zero, rx_route = buf_ring_zero\<rparr>"

definition abr_zero :: abr_ctx where
  "abr_zero = \<lparr>current_fec_group_size = 0, fec_was_enabled = False, abr_enabled = False, last_update_ms = 0, current_loss_rate = 0\<rparr>"

text \<open>\<open>memset(eng, 0, sizeof(*eng)); eng->config = *config\<close>.\<close>

definition engine_zero :: "transport_config \<Rightarrow> engine" where
  "engine_zero cfg =
     \<lparr>eng_initialized = False, eng_config = cfg, eng_running = False, eng_sockets_bound = replicate ENGINE_MAX_SOCKETS 0,
      eng_socket_count = 0, eng_rx_rings = replicate ENGINE_MAX_SOCKETS buf_ring_zero,
      eng_rx_queues = replicate ENGINE_MAX_SOCKETS rx_queues_zero, eng_tx_queues = replicate ENGINE_MAX_SOCKETS tx_queues_zero,
      eng_session = None, eng_seq_counter = 0, eng_start_time_ms = 0, eng_session_is_locked = False,
      eng_peer_addr = replicate SOCKADDR_IN6_SIZE 0, eng_peer_configured = False, eng_role_initiator = False,
      eng_connect_addr_str = [], eng_connect_port = 0, eng_abr = abr_zero, eng_route_table = route_table_init,
      eng_event_ring = \<lparr>slots = replicate RING_SIZE (plain_event EVENT_NONE 0), write_idx = 0, read_idx = 0\<rparr>, eng_loop_ticks = 0,
      eng_audio = audio_worker_zero, eng_video = video_worker_zero, eng_file_ctx = file_transfer_init,
      eng_audio_call_active = False, eng_video_call_active = False, eng_cur_file_send_idx = 0, eng_cur_file_recv_idx = 0\<rparr>"

text \<open>The loop over the sockets: bind, rings and queues, receive thread, transmit thread.\<close>

definition init_socket :: "env \<Rightarrow> nat \<Rightarrow> u16 \<Rightarrow> engine \<Rightarrow> bool \<times> engine" where
  "init_socket E i port g =
     (if \<not> env_bind E port then (False, g)
      else
        let g1 = g\<lparr>eng_sockets_bound := (eng_sockets_bound g)[i := port],
                    eng_rx_rings := (eng_rx_rings g)[i := ring_init (eng_rx_rings g ! i)],
                    eng_rx_queues := (eng_rx_queues g)[i := rx_queues_init (eng_rx_queues g ! i)],
                    eng_tx_queues := (eng_tx_queues g)[i := tx_queues_init (eng_tx_queues g ! i)]\<rparr>
        in if \<not> env_thread E (''rx'' @ dec i) then (False, g1)
           else if \<not> env_thread E (''tx'' @ dec i) then (False, g1)
           else (True, g1))"

fun init_sockets :: "env \<Rightarrow> (nat \<times> u16) list \<Rightarrow> engine \<Rightarrow> bool \<times> engine" where
  "init_sockets E [] g = (True, g)"
| "init_sockets E ((i, port) # xs) g =
     (case init_socket E i port g of (False, g1) \<Rightarrow> (False, g1) | (True, g1) \<Rightarrow> init_sockets E xs g1)"

definition transport_engine_shutdown :: "node \<Rightarrow> node" where
  "transport_engine_shutdown n =
     (if \<not> eng_initialized (n_eng n) then n
      else
        (upd_eng (\<lambda>g. g\<lparr>eng_running := False, eng_session := None, eng_audio := audio_worker_stop (eng_audio g),
             eng_video := video_worker_stop (eng_video g), eng_file_ctx := file_transfer_cleanup (eng_file_ctx g), eng_initialized := False\<rparr>) n)
        \<lparr>n_crypto := crypto_worker_stop (n_crypto n), n_monitor := monitor_stop (n_monitor n), n_disc := lan_discovery_shutdown (n_disc n)\<rparr>)"

definition transport_engine_init :: "env \<Rightarrow> transport_config \<Rightarrow> node \<Rightarrow> int \<times> node" where
  "transport_engine_init E cfg n =
     (let g0 = (engine_zero cfg)\<lparr>eng_running := True, eng_loop_ticks := 0, eng_route_table := route_table_init, eng_abr := abr_init,
                 eng_audio := snd (audio_worker_start (env_opus E) (env_popen E) None),
                 eng_video := snd (video_worker_start (env_popen E) None 0 0),
                 eng_file_ctx := file_transfer_init, eng_cur_file_send_idx := -1, eng_cur_file_recv_idx := -1\<rparr>;
          g1 = g0\<lparr>eng_event_ring := ring_init (eng_event_ring g0),
                   eng_socket_count := (if tc_multipath_enabled cfg \<and> tc_path_count cfg > 1 then 2 else 1)\<rparr>;
          n1 = n\<lparr>n_store := secure_store_init (env_identity_key E) (n_store n), n_pool := pool_init (env_malloc E), n_kf := kernel_filter_init,
                 n_aa := anti_analysis_init, n_off := offensive_init, n_crypto := snd (crypto_worker_start (env_thread E ''crypto'') (n_crypto n)),
                 n_monitor := snd (monitor_start (env_thread E ''monitor'') (n_monitor n))\<rparr>;
          ports = [tc_local_port cfg, tc_local_port_alt cfg];
          (ok, g2) = init_sockets E (zip [0..<eng_socket_count g1] ports) g1;
          n2 = n1\<lparr>n_eng := g2\<rparr>
      in if \<not> ok then (-1, transport_engine_shutdown n2)
         else
           let n3 = (if tc_discovery_enabled cfg
                     then let (r, d) = lan_discovery_init (env_bind E (tc_discovery_port cfg)) (env_broadcast E) (tc_discovery_port cfg)
                                         (tc_local_port cfg) (n_disc n2)
                          in n2\<lparr>n_disc := (if r = 0 then snd (lan_discovery_start d) else d)\<rparr>
                     else n2)
           in (0, upd_eng (\<lambda>g. g\<lparr>eng_initialized := True, eng_start_time_ms := now_ms E\<rparr>) n3))"

section \<open>Addresses\<close>

text \<open>A \<open>struct sockaddr_in6\<close> with family \<open>AF_INET6\<close>; an IPv4 address is mapped to \<open>::ffff:a.b.c.d\<close>.\<close>

definition sockaddr6 :: "u16 \<Rightarrow> bytes \<Rightarrow> bytes" where
  "sockaddr6 port a = le_bytes 2 (10 :: u16) @ le_bytes 2 (htons port) @ replicate 4 0 @ a @ replicate 4 0"

definition resolve_peer :: "env \<Rightarrow> string \<Rightarrow> u16 \<Rightarrow> int \<times> bytes" where
  "resolve_peer E addr_str port =
     (case env_pton6 E addr_str of
        Some a \<Rightarrow> (0, sockaddr6 port a)
      | None \<Rightarrow>
          (case env_pton4 E addr_str of
             Some a \<Rightarrow> (0, sockaddr6 port (replicate 10 0 @ [0xFF, 0xFF] @ a))
           | None \<Rightarrow> (-1, sockaddr6 port (replicate 16 0))))"

section \<open>Connections\<close>

text \<open>The second path of a multipath session, two ports above the first.\<close>

definition setup_paths :: "engine \<Rightarrow> bytes \<Rightarrow> u16 \<Rightarrow> session \<Rightarrow> session" where
  "setup_paths g peer_addr port s =
     (if tc_multipath_enabled (eng_config g) \<and> eng_socket_count g > 1
      then let alt_addr = set_sin6_port (htons (port + 2)) peer_addr;
               s1 = snd (session_register_path s 1 alt_addr);
               r = resilience s1;
               ps = (paths r)[0 := (paths r ! 0)\<lparr>path_metrics.peer_port := sin6_port peer_addr\<rparr>]
           in s1\<lparr>resilience := r\<lparr>path_count := 2, multipath_enabled := True,
                    paths := ps[1 := (ps ! 1)\<lparr>path_metrics.peer_port := sin6_port alt_addr\<rparr>]\<rparr>\<rparr>
      else s\<lparr>resilience := (resilience s)\<lparr>path_count := 1\<rparr>\<rparr>)"

definition transport_engine_connect :: "crypto_lib \<Rightarrow> env \<Rightarrow> string \<Rightarrow> u16 \<Rightarrow> node \<Rightarrow> (int \<times> node) option" where
  "transport_engine_connect L E addr_str port n =
     (let g = n_eng n in
      if \<not> eng_initialized g then Some (-1, n)
      else if eng_session g \<noteq> None then Some (-1, n)
      else
        let (r, a) = resolve_peer E addr_str port; n1 = upd_eng (\<lambda>g. g\<lparr>eng_peer_addr := a\<rparr>) n
        in if r \<noteq> 0 then Some (-1, n1)
           else
             let n2 = upd_eng (\<lambda>g. g\<lparr>eng_peer_configured := True, eng_role_initiator := True\<rparr>) n1
             in case session_alloc_for_peer (n_sessions n2) a SESSION_DIR_OUTBOUND of
                  None \<Rightarrow> None
                | Some (None, t) \<Rightarrow> Some (-1, n2\<lparr>n_sessions := t\<rparr>)
                | Some (Some i, t) \<Rightarrow>
                    let (key, store) = secure_store_get_identity_key (env_identity_key E) (n_store n2);
                        n3 = upd_eng (\<lambda>g. g\<lparr>eng_session := Some i\<rparr>) (n2\<lparr>n_sessions := t, n_store := store\<rparr>);
                        s = setup_paths (n_eng n3) a port ((sess_at i n3)\<lparr>local_port := tc_local_port (eng_config (n_eng n3))\<rparr>);
                        (_, s1, st) = handshake_init_initiator (env_sid E) key KEM_TYPE_MLKEM_768 s (n_stats n3);
                        (hello, q, s2, sq) = handshake_build_hello L (n_pool n3) s1 (eng_seq_counter (n_eng n3));
                        n4 = upd_sess_at i (\<lambda>_. s2) (upd_eng (\<lambda>g. g\<lparr>eng_seq_counter := sq\<rparr>) (n3\<lparr>n_stats := st, n_pool := q\<rparr>))
                    in case hello of
                         None \<Rightarrow> Some (-1, upd_eng (\<lambda>g. g\<lparr>eng_session := None\<rparr>) (upd_sess_at i session_reset n4))
                       | Some p \<Rightarrow>
                           let n5 = n4\<lparr>n_pool := buf_update p (set_dest a SOCKADDR_IN6_SIZE) (n_pool n4)\<rparr>;
                               n6 = snd (with_ep i 0 (\<lambda>e. ((), push_control p e)) n5);
                               n7 = upd_eng (\<lambda>g. g\<lparr>eng_session_is_locked := False, eng_connect_addr_str := snprintf 64 addr_str, eng_connect_port := port\<rparr>) n6
                           in Some (0, n7\<lparr>n_conns := snd (connection_manager_connect (addr_str, port) () (n_conns n7))\<rparr>))"

definition transport_engine_disconnect :: "node \<Rightarrow> int \<times> node" where
  "transport_engine_disconnect n =
     (case eng_session (n_eng n) of
        None \<Rightarrow> (-1, n)
      | Some i \<Rightarrow>
          (0, (upd_eng (\<lambda>g. g\<lparr>eng_session := None, eng_session_is_locked := False, eng_peer_configured := False, eng_seq_counter := 0\<rparr>)
                (upd_sess_at i session_reset n))\<lparr>n_conns := snd (connection_manager_disconnect (n_conns n))\<rparr>))"

definition transport_engine_start_listener :: "node \<Rightarrow> int \<times> node" where
  "transport_engine_start_listener n =
     (if \<not> eng_initialized (n_eng n) then (-1, n) else (0, upd_eng (\<lambda>g. g\<lparr>eng_role_initiator := False\<rparr>) n))"

definition transport_engine_send_connect_request ::
    "env \<Rightarrow> string \<Rightarrow> u16 \<Rightarrow> bytes \<Rightarrow> bytes \<Rightarrow> node \<Rightarrow> (int \<times> node) option" where
  "transport_engine_send_connect_request E addr_str port username display_name n =
     (if \<not> eng_initialized (n_eng n) then Some (-1, n)
      else let (r, a) = resolve_peer E addr_str port in
        if r \<noteq> 0 then Some (-1, n)
        else
          let n1 = upd_eng (\<lambda>g. g\<lparr>eng_peer_addr := a, eng_peer_configured := True, eng_role_initiator := True,
                     eng_connect_addr_str := snprintf 64 addr_str, eng_connect_port := port\<rparr>) n
          in case session_alloc_for_peer (n_sessions n1) a SESSION_DIR_OUTBOUND of
               None \<Rightarrow> None
             | Some (None, t) \<Rightarrow> Some (-1, n1\<lparr>n_sessions := t\<rparr>)
             | Some (Some i, t) \<Rightarrow>
                 let n2 = upd_sess_at i (\<lambda>s. s\<lparr>local_port := tc_local_port (eng_config (n_eng n1))\<rparr>) (n1\<lparr>n_sessions := t\<rparr>);
                     n3 = upd_eng (\<lambda>g. g\<lparr>eng_session := Some i, eng_session_is_locked := False\<rparr>) n2
                 in Some (0, snd (with_ep i 0 (conn_request_build username display_name) n3)))"

definition transport_engine_accept_connection :: "env \<Rightarrow> string \<Rightarrow> u16 \<Rightarrow> node \<Rightarrow> (int \<times> node) option" where
  "transport_engine_accept_connection E addr_str port n =
     (if \<not> eng_initialized (n_eng n) then Some (-1, n)
      else let (r, a) = resolve_peer E addr_str port in
        if r \<noteq> 0 then Some (-1, n)
        else case session_alloc_for_peer (n_sessions n) a SESSION_DIR_INBOUND of
          None \<Rightarrow> None
        | Some (None, t) \<Rightarrow> Some (-1, n\<lparr>n_sessions := t\<rparr>)
        | Some (Some i, t) \<Rightarrow>
            let n1 = upd_sess_at i (\<lambda>s. setup_paths (n_eng n) a port (s\<lparr>local_port := tc_local_port (eng_config (n_eng n))\<rparr>)) (n\<lparr>n_sessions := t\<rparr>);
                n2 = (case eng_session (n_eng n1) of None \<Rightarrow> n1 | Some j \<Rightarrow> upd_sess_at j session_reset n1);
                n3 = upd_eng (\<lambda>g. g\<lparr>eng_session := Some i, eng_peer_addr := a, eng_peer_configured := True, eng_role_initiator := False,
                       eng_session_is_locked := False, eng_connect_addr_str := snprintf 64 addr_str, eng_connect_port := port\<rparr>) n2;
                n4 = snd (with_ep i 0 (conn_request_send_accept a) n3)
            in Some (0, n4\<lparr>n_conns := snd (connection_manager_connect (addr_str, port) () (n_conns n4))\<rparr>))"

definition transport_engine_decline_connection :: "env \<Rightarrow> string \<Rightarrow> u16 \<Rightarrow> node \<Rightarrow> (int \<times> node) option" where
  "transport_engine_decline_connection E addr_str port n =
     (if \<not> eng_initialized (n_eng n) then Some (-1, n)
      else let (r, a) = resolve_peer E addr_str port in
        if r \<noteq> 0 then Some (-1, n)
        else case session_alloc_for_peer (n_sessions n) a SESSION_DIR_INBOUND of
          None \<Rightarrow> None
        | Some (None, t) \<Rightarrow> Some (-1, n\<lparr>n_sessions := t\<rparr>)
        | Some (Some i, t) \<Rightarrow>
            let n1 = upd_sess_at i (\<lambda>s. s\<lparr>local_port := tc_local_port (eng_config (n_eng n))\<rparr>) (n\<lparr>n_sessions := t\<rparr>);
                n2 = snd (with_ep i 0 (conn_request_send_decline a (Some (ascii ''Declined''))) n1)
            in Some (0, upd_sess_at i session_reset n2))"

section \<open>Messages\<close>

definition transport_engine_send_chat :: "crypto_lib \<Rightarrow> bytes \<Rightarrow> node \<Rightarrow> (int \<times> node) option" where
  "transport_engine_send_chat L txt n =
     (case eng_session (n_eng n) of
        None \<Rightarrow> Some (-1, n)
      | Some i \<Rightarrow>
          if \<not> eng_session_is_locked (n_eng n) then Some (-1, n)
          else
            let g = n_eng n;
                sel = resilience_select_path (resilience (sess_at i n));
                k = (if tc_multipath_enabled (eng_config g) then (if sel \<ge> eng_socket_count g then 0 else sel) else 0);
                n1 = upd_sess_at i (\<lambda>s. s\<lparr>resilience := resilience_record_tx (resilience s) k\<rparr>) n
            in case build_chat_packet txt (ep_of i k n1) of
                 None \<Rightarrow> None
               | Some (None, e) \<Rightarrow> Some (-1, put_ep i k e n1)
               | Some (Some p, e) \<Rightarrow>
                   (case encrypt_tx_packet L p e of
                      None \<Rightarrow> None
                    | Some (r, e1) \<Rightarrow>
                        if r \<noteq> 0 then Some (-1, put_ep i k (e1\<lparr>ep_pool := pool_return p (ep_pool e1)\<rparr>) n1)
                        else
                          let peer = eng_peer_addr g;
                              alt = (if eng_socket_count g > 1 \<and> k = 1 \<and> sin6_port (n_alt_addr n1) = 0
                                     then set_sin6_port (htons (ntohs (sin6_port peer) + 2)) peer else n_alt_addr n1);
                              dest = (if eng_socket_count g > 1 \<and> k = 1 then alt else peer)
                          in case fec_tx_after_encrypt p dest e1 of
                               None \<Rightarrow> None
                             | Some e2 \<Rightarrow>
                                 let e3 = e2\<lparr>ep_pool := buf_update p (set_dest (take SOCKADDR_IN6_SIZE dest) SOCKADDR_IN6_SIZE) (ep_pool e2)\<rparr>
                                 in Some (0, put_ep i k (push_tx tx_chat tx_chat_update p e3) (n1\<lparr>n_alt_addr := alt\<rparr>))))"

text \<open>The control messages to the peer: a typing note and the acknowledgement of a chat message.\<close>

definition send_to_peer :: "bytes \<Rightarrow> node \<Rightarrow> int \<times> node" where
  "send_to_peer pl n =
     (case eng_session (n_eng n) of
        None \<Rightarrow> (-1, n)
      | Some i \<Rightarrow>
          if \<not> eng_session_is_locked (n_eng n) then (-1, n)
          else with_ep i 0 (send_control pl (take SOCKADDR_IN6_SIZE (eng_peer_addr (n_eng n))) SOCKADDR_IN6_SIZE) n)"

definition transport_engine_send_typing :: "node \<Rightarrow> int \<times> node" where
  "transport_engine_send_typing n = send_to_peer [CTRL_TYPING] n"

definition transport_engine_send_delivery_ack :: "u32 \<Rightarrow> node \<Rightarrow> int \<times> node" where
  "transport_engine_send_delivery_ack msg_seq n = send_to_peer (CTRL_DELIVERY_ACK # le_bytes 4 msg_seq) n"

text \<open>
  The file name in the meta packet is cut to 63 bytes; \<open>None\<close> is the access through the session
  pointer when there is none.
\<close>

definition file_meta_payload :: "file_meta \<Rightarrow> bytes" where
  "file_meta_payload m =
     (let fnc = (if length (fm_filename m) > 63 then 63 else length (fm_filename m))
      in CTRL_FILE_META # of_nat fnc # map of_char (take fnc (fm_filename m)) @
         le_bytes 4 (fm_total_size m) @ le_bytes 4 (fm_total_chunks m) @ le_bytes 4 (fm_checksum m))"

definition transport_engine_send_file :: "string \<Rightarrow> node \<Rightarrow> (int \<times> node) option" where
  "transport_engine_send_file filepath n =
     (if \<not> eng_session_is_locked (n_eng n) then Some (-1, n)
      else
        let (idx, ft) = file_send_start (n_fs n) filepath (eng_file_ctx (n_eng n));
            n1 = upd_eng (\<lambda>g. g\<lparr>eng_file_ctx := ft\<rparr>) n
        in if idx < 0 then Some (-1, n1)
           else case eng_session (n_eng n1) of
             None \<Rightarrow> (case pool_get (n_pool n1) of (None, q) \<Rightarrow> Some (-1, n1\<lparr>n_pool := q\<rparr>) | _ \<Rightarrow> None)
           | Some i \<Rightarrow>
               let pl = file_meta_payload (fsd_meta (sends ft ! nat idx));
                   a = eng_peer_addr (n_eng n1);
                   (st, n2) = with_ep i 0 (send_filled (\<lambda>sq b. set_dest (take SOCKADDR_IN6_SIZE a) SOCKADDR_IN6_SIZE
                                (rekey_packet (session_id (sess_at i n1)) pl sq b))) n1
               in if st \<noteq> 0 then Some (-1, n2)
                  else Some (0, upd_eng (\<lambda>g. g\<lparr>eng_cur_file_send_idx := idx\<rparr>) n2))"

section \<open>Calls and information\<close>

definition transport_engine_audio_call_start :: "node \<Rightarrow> int \<times> node" where
  "transport_engine_audio_call_start n =
     (if \<not> eng_session_is_locked (n_eng n) then (-1, n)
      else (0, upd_eng (\<lambda>g. g\<lparr>eng_audio_call_active := True, eng_audio := audio_worker_set_active True (eng_audio g)\<rparr>) n))"

definition transport_engine_audio_call_end :: "node \<Rightarrow> int \<times> node" where
  "transport_engine_audio_call_end n =
     (0, upd_eng (\<lambda>g. g\<lparr>eng_audio_call_active := False, eng_audio := audio_worker_set_active False (eng_audio g)\<rparr>) n)"

definition transport_engine_video_call_start :: "node \<Rightarrow> int \<times> node" where
  "transport_engine_video_call_start n =
     (if \<not> eng_session_is_locked (n_eng n) then (-1, n)
      else (0, upd_eng (\<lambda>g. g\<lparr>eng_video_call_active := True, eng_video := video_worker_set_active True (eng_video g)\<rparr>) n))"

definition transport_engine_video_call_end :: "node \<Rightarrow> int \<times> node" where
  "transport_engine_video_call_end n =
     (0, upd_eng (\<lambda>g. g\<lparr>eng_video_call_active := False, eng_video := video_worker_set_active False (eng_video g)\<rparr>) n)"

record path_info =
  pi_loss_rate :: rat
  pi_rtt_ns :: u64
  pi_packets_sent :: u32
  pi_packets_recv :: u32

record conn_info =
  ci_state :: conn_state
  ci_session_id :: u64
  ci_peer_port :: u16
  ci_uptime_ms :: u32
  ci_fec_enabled :: bool
  ci_path_count :: nat
  ci_paths :: "path_info list"

definition path_info_of :: "path_metrics \<Rightarrow> path_info" where
  "path_info_of p = \<lparr>pi_loss_rate = loss_rate p, pi_rtt_ns = rtt_ns p, pi_packets_sent = packets_sent p, pi_packets_recv = packets_recv p\<rparr>"

text \<open>The entries of \<open>paths\<close> that are filled in; the others are zero.\<close>

definition transport_engine_get_info :: "env \<Rightarrow> node \<Rightarrow> conn_info" where
  "transport_engine_get_info E n =
     (case eng_session (n_eng n) of
        None \<Rightarrow> \<lparr>ci_state = CONN_IDLE, ci_session_id = 0, ci_peer_port = 0, ci_uptime_ms = 0, ci_fec_enabled = False, ci_path_count = 0, ci_paths = []\<rparr>
      | Some i \<Rightarrow>
          let g = n_eng n; s = sess_at i n; r = resilience s
          in \<lparr>ci_state = (if sess_state s = SESSION_LOCKED then CONN_LOCKED else CONN_HANDSHAKE), ci_session_id = session_id s,
              ci_peer_port = tc_local_port (eng_config g),
              ci_uptime_ms = (if eng_start_time_ms g > 0 then ucast (now_ms E - eng_start_time_ms g) else 0),
              ci_fec_enabled = fec_enabled r, ci_path_count = path_count r,
              ci_paths = map path_info_of (take (min (path_count r) RESILIENCE_MAX_PATHS) (paths r))\<rparr>)"

end
