(* ===== verification/Engine_Poll.thy ===== *)
theory Engine_Poll
  imports Engine
begin

text \<open>
  The event loop of the engine: the handlers of received packets and
  \<open>transport_engine_poll\<close> (\<open>lib/engine/transport_engine.c\<close>). \<open>None\<close> is a store outside a buffer.
\<close>

section \<open>Handlers\<close>

text \<open>The text of a received chat message is cut to 1023 bytes.\<close>

definition chat_event :: "env \<Rightarrow> engine \<Rightarrow> packet_buf \<Rightarrow> packet_view \<Rightarrow> event" where
  "chat_event E g b v =
     (let msglen = (if plength v < 1023 then plength v else 1023)
      in \<lparr>ev_type = EVENT_CHAT_RECEIVED, ev_timestamp_ms = now_ms E,
          ev_data = Ev_Chat (mem_read (payload v) msglen (data b)) (tc_local_port (eng_config g))\<rparr>)"

text \<open>
  The initiator queues fresh memory and then writes the event to the memory of the newest slot,
  whether or not there was room for a new one.
\<close>

definition push_event_newest :: "event \<Rightarrow> node \<Rightarrow> node" where
  "push_event_newest ev n =
     upd_eng (\<lambda>g. let r = snd (ring_push (eng_event_ring g) ev)
                  in g\<lparr>eng_event_ring := r\<lparr>slots := (slots r)[unat ((write_idx r - 1) AND 1023) := ev]\<rparr>\<rparr>) n"

text \<open>
  The chain of handlers for a control packet of a locked session, the same in both roles:
  whether one of them took the packet, and the node.
\<close>

definition hop_and_ack :: "packet_buf \<Rightarrow> endpoint \<Rightarrow> int \<times> endpoint" where
  "hop_and_ack b e =
     (let (hop_ret, s) = port_hop_handle b (ep_sess e); e1 = e\<lparr>ep_sess := s\<rparr>
      in (hop_ret, if hop_ret = 1 then snd (port_hop_send_ack (take SOCKADDR_IN6_SIZE (addr b)) e1) else e1))"

definition ack_event :: "env \<Rightarrow> packet_buf \<Rightarrow> event_type \<Rightarrow> event" where
  "ack_event E b t = \<lparr>ev_type = t, ev_timestamp_ms = now_ms E, ev_data = Ev_Message_Seq (le_word (mem_read 25 4 (data b)))\<rparr>"

definition locked_control :: "crypto_lib \<Rightarrow> env \<Rightarrow> packet_buf \<Rightarrow> nat \<Rightarrow> node \<Rightarrow> bool \<times> node" where
  "locked_control L E b i n =
     (let (r1, n1) = with_ep i 0 (heartbeat_handle b (now_ms E)) n in
      if r1 > 0 then (True, n1)
      else let (r2, n2) = with_ep i 0 (reconnect_handle b (now_ms E)) n1 in
      if r2 > 0 then (True, n2)
      else let (r3, n3) = with_ep i 0 (hop_and_ack b) n2 in
      if r3 > 0 then (True, n3)
      else let (r4, n4) = with_ep i 0 (rekey_handle L (env_seed E) b) n3 in
      if r4 > 0 then (True, n4)
      else let opcode = data b ! 24 in
      if opcode = CTRL_TYPING then (True, push_event (plain_event EVENT_TYPING (now_ms E)) n4)
      else if opcode = CTRL_DELIVERY_ACK \<and> len b \<ge> 24 + 1 + 4 then (True, push_event (ack_event E b EVENT_DELIVERY_ACK) n4)
      else if opcode = CTRL_READ_ACK \<and> len b \<ge> 24 + 1 + 4 then (True, push_event (ack_event E b EVENT_READ_ACK) n4)
      else (False, n4))"

text \<open>One step of the handshake: the response, if any, is queued for the peer.\<close>

definition run_handshake :: "(hs_world \<Rightarrow> buf_ptr option \<times> hs_world) \<Rightarrow> nat \<Rightarrow> node \<Rightarrow> node" where
  "run_handshake run i n =
     (let (response, w) = run \<lparr>hw_sess = sess_at i n, hw_stats = n_stats n, hw_pool = n_pool n, hw_seq = eng_seq_counter (n_eng n)\<rparr>;
          n1 = upd_sess_at i (\<lambda>_. hw_sess w) (upd_eng (\<lambda>g. g\<lparr>eng_seq_counter := hw_seq w\<rparr>) (n\<lparr>n_stats := hw_stats w, n_pool := hw_pool w\<rparr>))
      in case response of
           None \<Rightarrow> n1
         | Some p \<Rightarrow>
             snd (with_ep i 0 (\<lambda>e. ((), push_control p e))
               (n1\<lparr>n_pool := buf_update p (set_dest (take SOCKADDR_IN6_SIZE (eng_peer_addr (n_eng n1))) SOCKADDR_IN6_SIZE) (n_pool n1)\<rparr>)))"

definition locked_event :: "env \<Rightarrow> event" where
  "locked_event E = \<lparr>ev_type = EVENT_CONNECTION_STATE_CHANGED, ev_timestamp_ms = now_ms E, ev_data = Ev_Conn_State CONN_HANDSHAKE CONN_LOCKED\<rparr>"

definition newly_locked :: "nat \<Rightarrow> node \<Rightarrow> bool" where
  "newly_locked i n \<longleftrightarrow> sess_state (sess_at i n) = SESSION_LOCKED \<and> \<not> eng_session_is_locked (n_eng n)"

definition mark_locked :: "node \<Rightarrow> node" where
  "mark_locked n =
     (let g = n_eng n in
      (upd_eng (\<lambda>g. g\<lparr>eng_session_is_locked := True\<rparr>) n)
      \<lparr>n_conns := connection_manager_update_state (eng_connect_addr_str g, eng_connect_port g) PEER_LOCKED (n_conns n)\<rparr>)"

text \<open>
  The block that ignores heartbeats while \<open>now_ms < ign\<close> is never entered, since \<open>ign\<close> is 0.
\<close>

definition engine_control_handler :: "crypto_lib \<Rightarrow> env \<Rightarrow> buf_ptr \<Rightarrow> node \<Rightarrow> node" where
  "engine_control_handler L E p n =
     (case eng_session (n_eng n) of
        None \<Rightarrow> give_back p n
      | Some i \<Rightarrow>
          let b = pool_mem (n_pool n) p in
          case packet_parse b of
            None \<Rightarrow> give_back p n
          | Some v \<Rightarrow>
              if channel_id v \<noteq> CH_CONTROL then
                (let n1 = (if sess_state (sess_at i n) = SESSION_LOCKED \<and> channel_id v = CH_CHAT
                           then snd (transport_engine_send_delivery_ack (seq v) (push_event_newest (chat_event E (n_eng n) b v) n))
                           else n)
                 in give_back p n1)
              else
                let (taken, n1) = (if sess_state (sess_at i n) = SESSION_LOCKED then locked_control L E b i n else (False, n))
                in if taken then give_back p n1
                   else let n2 = give_back p (run_handshake (handshake_run_as_initiator L (env_seed E) b) i n1)
                        in if newly_locked i n2 then push_event (locked_event E) (mark_locked n2) else n2)"

definition engine_responder_handler :: "crypto_lib \<Rightarrow> env \<Rightarrow> buf_ptr \<Rightarrow> node \<Rightarrow> node option" where
  "engine_responder_handler L E p n =
     (case eng_session (n_eng n) of
        None \<Rightarrow> Some (give_back p n)
      | Some i \<Rightarrow>
          let b = pool_mem (n_pool n) p in
          case packet_parse b of
            None \<Rightarrow> Some (give_back p n)
          | Some v \<Rightarrow>
              if channel_id v \<noteq> CH_CONTROL then do {
                n1 \<leftarrow> (if channel_id v = CH_ROUTE \<and> sess_state (sess_at i n) = SESSION_LOCKED
                       then map_option (\<lambda>(r, e). put_ep i 0 e n)
                              (relay_forward_route L b v (eng_route_table (n_eng n)) (eng_peer_addr (n_eng n)) (ep_of i 0 n))
                       else Some n);
                let n2 = (if sess_state (sess_at i n1) = SESSION_LOCKED \<and> channel_id v = CH_CHAT
                          then snd (transport_engine_send_delivery_ack (seq v) (push_event (chat_event E (n_eng n1) b v) n1))
                          else n1);
                Some (give_back p n2)
              }
              else
                let (taken, n1) = (if sess_state (sess_at i n) = SESSION_LOCKED then locked_control L E b i n else (False, n))
                in if taken then Some (give_back p n1)
                   else
                     let n2 = give_back p (run_handshake (handshake_run_as_responder L (env_sid E) (env_seed E) b) i n1)
                     in if newly_locked i n2
                        then let n3 = mark_locked n2;
                                 n4 = upd_eng (\<lambda>g. g\<lparr>eng_route_table := snd (route_table_add RELAY_NODE_RESPONDER
                                        (session_id (sess_at i n3), Some (eng_peer_addr g, of_nat SOCKADDR_IN6_SIZE)) (eng_route_table g))\<rparr>) n3
                             in Some (push_event (locked_event E) n4)
                        else Some n2)"

definition handle_packet :: "crypto_lib \<Rightarrow> env \<Rightarrow> buf_ptr \<Rightarrow> node \<Rightarrow> node option" where
  "handle_packet L E p n =
     (if eng_role_initiator (n_eng n) then Some (engine_control_handler L E p n) else engine_responder_handler L E p n)"

section \<open>Receiving\<close>

text \<open>
  The pipeline context of socket \<open>k\<close>. Without a session every packet that reaches the session
  gate is refused there, as it is for a fresh session (lemma \<open>fresh_session_gate\<close>), which
  stands for the missing one.
\<close>

definition rx_world_of :: "nat \<Rightarrow> node \<Rightarrow> rx_world" where
  "rx_world_of k n =
     \<lparr>w_pool = n_pool n, w_off = n_off n, w_aa = n_aa n, w_kf = n_kf n,
      w_sess = (case eng_session (n_eng n) of None \<Rightarrow> session_init | Some i \<Rightarrow> sess_at i n),
      w_rxq = eng_rx_queues (n_eng n) ! k, w_recovered = None,
      w_view = \<lparr>magic = 0, version = 0, flags = 0, view_session_id = 0, channel_id = 0, seq = 0, plength = 0, payload = 0,
                nonce = replicate AEAD_NONCE_SIZE 0, tag = replicate AEAD_TAG_SIZE 0, encrypted = False, path_idx = 0\<rparr>\<rparr>"

definition put_rx_world :: "nat \<Rightarrow> rx_world \<Rightarrow> node \<Rightarrow> node" where
  "put_rx_world k w n =
     (let n1 = (upd_eng (\<lambda>g. g\<lparr>eng_rx_queues := (eng_rx_queues g)[k := w_rxq w]\<rparr>) n)
                 \<lparr>n_pool := w_pool w, n_off := w_off w, n_aa := w_aa w, n_kf := w_kf w\<rparr>
      in case eng_session (n_eng n) of None \<Rightarrow> n1 | Some i \<Rightarrow> upd_sess_at i (\<lambda>_. w_sess w) n1)"

text \<open>Connection requests and answers arrive outside a session.\<close>

definition conn_req_event :: "env \<Rightarrow> packet_buf \<Rightarrow> conn_request_table \<Rightarrow> event" where
  "conn_req_event E b t =
     (let ev = plain_event EVENT_CONNECT_REQUEST (now_ms E) in
      case conn_request_find (addr b) t of
        None \<Rightarrow> ev
      | Some j \<Rightarrow> ev\<lparr>ev_data := Ev_Conn_Req (env_ntop6 E (sin6_addr (addr b))) (ntohs (sin6_port (addr b)))
                    (c_string (pr_username (requests t ! j))) (c_string (pr_display_name (requests t ! j)))\<rparr>)"

definition session_drop :: "env \<Rightarrow> packet_buf \<Rightarrow> node \<Rightarrow> node" where
  "session_drop E b n =
     (let ch = data b ! 14; op = data b ! 24; ini = eng_role_initiator (n_eng n) in
      if ch = CH_CONTROL then
        (if op = CTRL_CONNECT_REQUEST \<and> \<not> ini then
           (let (handled, t) = conn_request_handle b False True (env_time E) (n_requests n); n1 = n\<lparr>n_requests := t\<rparr>
            in if handled > 0 then push_event (conn_req_event E b t) n1 else n1)
         else if op = CTRL_CONNECT_ACCEPT \<and> ini then push_event (plain_event EVENT_CONNECT_ACCEPTED (now_ms E)) n
         else if op = CTRL_CONNECT_DECLINE \<and> ini then push_event (plain_event EVENT_CONNECT_DECLINED (now_ms E)) n
         else n)
      else n)"

definition queue_decrypt :: "buf_ptr \<Rightarrow> node \<Rightarrow> node option" where
  "queue_decrypt p n =
     (case eng_session (n_eng n) of
        None \<Rightarrow> None
      | Some i \<Rightarrow>
          let (st, c) = crypto_worker_push \<lparr>job_type = CRYPTO_JOB_DECRYPT, job_p = p, job_sess = i\<rparr> (n_crypto n)
          in Some (if st \<noteq> 0 then give_back p (n\<lparr>n_crypto := c\<rparr>) else n\<lparr>n_crypto := c\<rparr>))"

definition receive_packet :: "crypto_lib \<Rightarrow> env \<Rightarrow> nat \<Rightarrow> buf_ptr \<Rightarrow> node \<Rightarrow> node option" where
  "receive_packet L E k p n =
     (case pipeline_inbound_pre_crypto (now_ms E) p (rx_world_of k n) of
        None \<Rightarrow> None
      | Some (result, w) \<Rightarrow>
          let n1 = put_rx_world k w n in
          if result = PIPELINE_OK then (if encrypted (w_view w) then queue_decrypt p n1 else handle_packet L E p n1)
          else if result = PIPELINE_DROP_SESSION then Some (give_back p (session_drop E (pool_mem (n_pool n1) p) n1))
          else Some (give_back p n1))"

section \<open>Periodic work\<close>

definition tick_abr :: "env \<Rightarrow> node \<Rightarrow> node" where
  "tick_abr E n =
     (case eng_session (n_eng n) of
        None \<Rightarrow> n
      | Some i \<Rightarrow>
          if eng_loop_ticks (n_eng n) mod 30 \<noteq> 0 then n
          else let (_, c, r) = abr_update (eng_abr (n_eng n)) (resilience (sess_at i n)) (now_ms E)
               in upd_sess_at i (\<lambda>s. s\<lparr>resilience := r\<rparr>) (upd_eng (\<lambda>g. g\<lparr>eng_abr := c\<rparr>) n))"

definition tick_liveness :: "env \<Rightarrow> node \<Rightarrow> node" where
  "tick_liveness E n =
     (case eng_session (n_eng n) of
        None \<Rightarrow> n
      | Some i \<Rightarrow>
          if eng_loop_ticks (n_eng n) mod 10 \<noteq> 0 then n
          else snd (with_ep i 0 (reconnect_tick (now_ms E)) (snd (with_ep i 0 (heartbeat_tick (now_ms E)) n))))"

definition tick_offensive :: "node \<Rightarrow> node" where
  "tick_offensive n = (if eng_loop_ticks (n_eng n) mod 20 \<noteq> 0 then n else n\<lparr>n_off := offensive_tick (n_off n)\<rparr>)"

definition tick_decoy :: "env \<Rightarrow> node \<Rightarrow> node" where
  "tick_decoy E n =
     (case eng_session (n_eng n) of
        None \<Rightarrow> n
      | Some i \<Rightarrow>
          if eng_loop_ticks (n_eng n) mod 5 \<noteq> 0 \<or> \<not> eng_session_is_locked (n_eng n) then n
          else (case offensive_build_decoy (env_noise E) (eng_peer_addr (n_eng n)) (n_pool n) of
                  (None, q) \<Rightarrow> n\<lparr>n_pool := q\<rparr>
                | (Some p, q) \<Rightarrow>
                    snd (with_ep i 0 (\<lambda>e. ((), push_control p e))
                      (n\<lparr>n_pool := q, n_off := (n_off n)\<lparr>total_decoys := total_decoys (n_off n) + 1\<rparr>\<rparr>))))"

definition tick_calls :: "crypto_lib \<Rightarrow> env \<Rightarrow> node \<Rightarrow> node option" where
  "tick_calls L E n =
     (case eng_session (n_eng n) of
        None \<Rightarrow> Some n
      | Some i \<Rightarrow>
          if \<not> eng_session_is_locked (n_eng n) then Some n
          else do {
            n1 \<leftarrow> (if \<not> eng_audio_call_active (n_eng n) then Some n
                   else do {
                     (_, w, rxq, e) \<leftarrow> audio_worker_tick L (env_opus E) (eng_peer_addr (n_eng n)) (eng_audio (n_eng n))
                                         (eng_rx_queues (n_eng n) ! 0) (ep_of i 0 n);
                     Some (upd_eng (\<lambda>g. g\<lparr>eng_audio := w, eng_rx_queues := (eng_rx_queues g)[0 := rxq]\<rparr>) (put_ep i 0 e n))
                   });
            (if \<not> eng_video_call_active (n_eng n1) then Some n1
             else do {
               (_, w, rxq, fs, e) \<leftarrow> video_worker_tick L (eng_peer_addr (n_eng n1)) (eng_video (n_eng n1))
                                       (eng_rx_queues (n_eng n1) ! 0) (n_fs n1) (ep_of i 0 n1);
               Some ((upd_eng (\<lambda>g. g\<lparr>eng_video := w, eng_rx_queues := (eng_rx_queues g)[0 := rxq]\<rparr>) (put_ep i 0 e n1))\<lparr>n_fs := fs\<rparr>)
             })
          })"

text \<open>
  File transfer: a chunk is labelled with the next sequence number of the session; \<open>None\<close> is also
  the access through the session pointer when there is none.
\<close>

definition send_file_chunk :: "crypto_lib \<Rightarrow> bytes \<Rightarrow> node \<Rightarrow> node option" where
  "send_file_chunk L piece n =
     (let sq = eng_seq_counter (n_eng n); n1 = upd_eng (\<lambda>g. g\<lparr>eng_seq_counter := sq + 1\<rparr>) n
      in case pool_get (n_pool n1) of
           (None, q) \<Rightarrow> Some (n1\<lparr>n_pool := q\<rparr>)
         | (Some p, q) \<Rightarrow>
             (case eng_session (n_eng n1) of
                None \<Rightarrow> None
              | Some i \<Rightarrow>
                  let pl = le_bytes 4 sq @ piece in
                  if HEADER_SIZE + length pl > MAX_PACKET_SIZE then None
                  else case seal L (sess_at i n1) (chan_packet (session_id (sess_at i n1)) CH_FILE pl sq (pool_mem q p)) of
                    None \<Rightarrow> None
                  | Some b \<Rightarrow>
                      let q' = buf_update p (\<lambda>_. set_dest (take SOCKADDR_IN6_SIZE (eng_peer_addr (n_eng n1))) SOCKADDR_IN6_SIZE b) q
                      in Some (snd (with_ep i 0 (\<lambda>e. ((), push_tx tx_file tx_file_update p e)) (n1\<lparr>n_pool := q'\<rparr>)))))"

definition file_event :: "env \<Rightarrow> event" where
  "file_event E = plain_event EVENT_FILE_TRANSFER_COMPLETE (now_ms E)"

definition tick_file_tx :: "crypto_lib \<Rightarrow> env \<Rightarrow> node \<Rightarrow> node option" where
  "tick_file_tx L E n =
     (let g = n_eng n in
      if \<not> (eng_session_is_locked g \<and> eng_cur_file_send_idx g \<ge> 0 \<and> eng_loop_ticks g mod 3 = 0) then Some n
      else
        let (done, piece, ft) = file_send_chunk (n_fs n) (eng_cur_file_send_idx g) (eng_file_ctx g);
            n1 = upd_eng (\<lambda>g. g\<lparr>eng_file_ctx := ft\<rparr>) n
        in do {
          n2 \<leftarrow> (case piece of
                   None \<Rightarrow> Some n1
                 | Some c \<Rightarrow> if done \<ge> 0 \<and> length c > 0 then send_file_chunk L c n1 else Some n1);
          Some (if done = 1 then push_event (file_event E) (upd_eng (\<lambda>g. g\<lparr>eng_cur_file_send_idx := -1\<rparr>) n2) else n2)
        })"

definition save_dir :: "env \<Rightarrow> string" where
  "save_dir E = (case env_home E of Some h \<Rightarrow> snprintf 256 (h @ ''/Downloads'') | None \<Rightarrow> ''/tmp'')"

definition store_chunk :: "env \<Rightarrow> packet_buf \<Rightarrow> packet_view \<Rightarrow> node \<Rightarrow> node" where
  "store_chunk E b v n =
     (let idx = eng_cur_file_recv_idx (n_eng n); d = view_payload b v; chunk_seq = (le_word (take 4 d) :: u32) in
      if idx < 0 then n
      else
        let (done, fs, ft) = file_recv_chunk idx (drop 4 d) chunk_seq (n_fs n, eng_file_ctx (n_eng n));
            n1 = (upd_eng (\<lambda>g. g\<lparr>eng_file_ctx := ft\<rparr>) n)\<lparr>n_fs := fs\<rparr>
        in if done \<noteq> 1 then n1
           else
             let (_, fs', ft') = file_recv_finish idx (Some (save_dir E)) (n_fs n1, eng_file_ctx (n_eng n1))
             in push_event (file_event E) ((upd_eng (\<lambda>g. g\<lparr>eng_file_ctx := ft', eng_cur_file_recv_idx := -1\<rparr>) n1)\<lparr>n_fs := fs'\<rparr>))"

definition tick_file_rx :: "env \<Rightarrow> node \<Rightarrow> node" where
  "tick_file_rx E n =
     (if \<not> eng_session_is_locked (n_eng n) then n
      else let rxq = eng_rx_queues (n_eng n) ! 0; (x, r) = ring_pop (rx_file rxq);
               n1 = upd_eng (\<lambda>g. g\<lparr>eng_rx_queues := (eng_rx_queues g)[0 := rxq\<lparr>rx_file := r\<rparr>]\<rparr>) n
           in case x of
                None \<Rightarrow> n1
              | Some p \<Rightarrow>
                  let b = pool_mem (n_pool n1) p in
                  give_back p (case packet_parse b of
                      None \<Rightarrow> n1
                    | Some v \<Rightarrow> if channel_id v = CH_FILE \<and> plength v \<ge> 4 then store_chunk E b v n1 else n1))"

definition poll_ticks :: "crypto_lib \<Rightarrow> env \<Rightarrow> node \<Rightarrow> node option" where
  "poll_ticks L E n = do {
     let n1 = upd_eng (\<lambda>g. let t = eng_loop_ticks g + 1 in g\<lparr>eng_loop_ticks := (if t \<ge> 100 then 0 else t)\<rparr>) n;
     let n2 = tick_decoy E (tick_offensive (tick_liveness E (tick_abr E n1)));
     n3 \<leftarrow> tick_calls L E n2;
     n4 \<leftarrow> tick_file_tx L E n3;
     Some (tick_file_rx E n4)
   }"

section \<open>The event loop\<close>

text \<open>The first socket with a waiting packet.\<close>

definition ready_socket :: "engine \<Rightarrow> nat option" where
  "ready_socket g = find (\<lambda>k. fst (ring_pop (eng_rx_rings g ! k)) \<noteq> None) [0..<eng_socket_count g]"

text \<open>The result is the status, the event that was written to the caller's \<open>ev\<close>, if any, and the node.\<close>

definition transport_engine_poll :: "crypto_lib \<Rightarrow> env \<Rightarrow> node \<Rightarrow> (int \<times> event option \<times> node) option" where
  "transport_engine_poll L E n =
     (let n0 = n\<lparr>n_monitor := monitor_mark_alive (env_clock_ms E) ''rx-worker'' (n_monitor n)\<rparr> in
      case ring_pop (eng_event_ring (n_eng n0)) of
        (Some ev, r) \<Rightarrow> Some (1, Some ev, upd_eng (\<lambda>g. g\<lparr>eng_event_ring := r\<rparr>) n0)
      | (None, _) \<Rightarrow> do {
          let (decrypted, c) = crypto_worker_pop_result (n_crypto n0);
          let n1 = n0\<lparr>n_crypto := c\<rparr>;
          n2 \<leftarrow> (case decrypted of None \<Rightarrow> Some n1 | Some p \<Rightarrow> handle_packet L E p n1);
          (case ready_socket (n_eng n2) of
             None \<Rightarrow> map_option (\<lambda>n'. (0, None, n')) (poll_ticks L E n2)
           | Some k \<Rightarrow>
               let (x, r) = ring_pop (eng_rx_rings (n_eng n2) ! k);
                   n3 = upd_eng (\<lambda>g. g\<lparr>eng_rx_rings := (eng_rx_rings g)[k := r]\<rparr>) n2
               in map_option (\<lambda>n'. (1, None, n')) (receive_packet L E k (the x) n3))
        })"

text \<open>A turn of the crypto worker on the node.\<close>

definition crypto_turn :: "crypto_lib \<Rightarrow> env \<Rightarrow> node \<Rightarrow> node option" where
  "crypto_turn L E n =
     map_option (\<lambda>(c, q, ss). n\<lparr>n_crypto := c, n_pool := q, n_sessions := (n_sessions n)\<lparr>sess_pool := ss\<rparr>,
         n_monitor := (if fst (ring_pop (cw_jobs (n_crypto n))) \<noteq> None then monitor_mark_alive (env_clock_ms E) ''crypto'' (n_monitor n) else n_monitor n)\<rparr>)
       (crypto_loop L (n_crypto n, n_pool n, sess_pool (n_sessions n)))"

end
