(* ===== verification/Api.thy ===== *)
theory Api
  imports Engine_Poll
begin

text \<open>
  The public interface (\<open>lib/api/transport_api.c\<close>): the calls of the application, which are
  refused before \<open>transport_init\<close> and after \<open>transport_shutdown\<close>. The state is the node and the
  flag \<open>g_initialized\<close>.
\<close>

record api =
  api_node :: node
  api_initialized :: bool

section \<open>Calls\<close>

text \<open>A call that is forwarded to the engine when the interface is initialised.\<close>

definition forward :: "(node \<Rightarrow> int \<times> node) \<Rightarrow> api \<Rightarrow> int \<times> api" where
  "forward f a = (if \<not> api_initialized a then (-1, a) else let (r, n) = f (api_node a) in (r, a\<lparr>api_node := n\<rparr>))"

definition forward_opt :: "(node \<Rightarrow> (int \<times> node) option) \<Rightarrow> api \<Rightarrow> (int \<times> api) option" where
  "forward_opt f a =
     (if \<not> api_initialized a then Some (-1, a) else map_option (\<lambda>(r, n). (r, a\<lparr>api_node := n\<rparr>)) (f (api_node a)))"

definition transport_init :: "env \<Rightarrow> transport_config option \<Rightarrow> api \<Rightarrow> int \<times> api" where
  "transport_init E cfg a =
     (if api_initialized a then (-1, a)
      else case cfg of
        None \<Rightarrow> (-1, a)
      | Some c \<Rightarrow>
          let (ret, n) = transport_engine_init E c (api_node a)
          in (ret, a\<lparr>api_node := n, api_initialized := (ret = 0)\<rparr>))"

definition transport_shutdown :: "api \<Rightarrow> api" where
  "transport_shutdown a =
     (if \<not> api_initialized a then a
      else let n = transport_engine_shutdown (api_node a)
           in a\<lparr>api_node := n\<lparr>n_store := secure_store_shutdown (n_store n)\<rparr>, api_initialized := False\<rparr>)"

definition transport_connect :: "crypto_lib \<Rightarrow> env \<Rightarrow> string \<Rightarrow> u16 \<Rightarrow> api \<Rightarrow> (int \<times> api) option" where
  "transport_connect L E addr_str port = forward_opt (transport_engine_connect L E addr_str port)"

definition transport_disconnect :: "api \<Rightarrow> int \<times> api" where
  "transport_disconnect = forward transport_engine_disconnect"

definition transport_send_connect_request :: "env \<Rightarrow> string \<Rightarrow> u16 \<Rightarrow> bytes \<Rightarrow> bytes \<Rightarrow> api \<Rightarrow> (int \<times> api) option" where
  "transport_send_connect_request E addr_str port username display_name =
     forward_opt (transport_engine_send_connect_request E addr_str port username display_name)"

definition transport_accept_connection :: "env \<Rightarrow> string \<Rightarrow> u16 \<Rightarrow> api \<Rightarrow> (int \<times> api) option" where
  "transport_accept_connection E addr_str port = forward_opt (transport_engine_accept_connection E addr_str port)"

definition transport_decline_connection :: "env \<Rightarrow> string \<Rightarrow> u16 \<Rightarrow> api \<Rightarrow> (int \<times> api) option" where
  "transport_decline_connection E addr_str port = forward_opt (transport_engine_decline_connection E addr_str port)"

definition transport_send_chat :: "crypto_lib \<Rightarrow> bytes option \<Rightarrow> api \<Rightarrow> (int \<times> api) option" where
  "transport_send_chat L txt a = (case txt of None \<Rightarrow> Some (-1, a) | Some x \<Rightarrow> forward_opt (transport_engine_send_chat L x) a)"

text \<open>Not guarded by the flag.\<close>

definition transport_get_connection_info :: "env \<Rightarrow> api \<Rightarrow> conn_info" where
  "transport_get_connection_info E a = transport_engine_get_info E (api_node a)"

definition transport_poll_event :: "crypto_lib \<Rightarrow> env \<Rightarrow> api \<Rightarrow> (int \<times> event option \<times> api) option" where
  "transport_poll_event L E a =
     (if \<not> api_initialized a then Some (0, None, a)
      else map_option (\<lambda>(r, ev, n). (r, ev, a\<lparr>api_node := n\<rparr>)) (transport_engine_poll L E (api_node a)))"

definition transport_port_hop :: "u16 \<Rightarrow> api \<Rightarrow> int \<times> api" where
  "transport_port_hop new_port a =
     (let n = api_node a in
      if \<not> api_initialized a then (-1, a)
      else case eng_session (n_eng n) of
        None \<Rightarrow> (-1, a)
      | Some i \<Rightarrow> (0, a\<lparr>api_node := snd (with_ep i 0 (port_hop_send_request (eng_peer_addr (n_eng n)) new_port) n)\<rparr>))"

definition transport_set_fec_enabled :: "bool \<Rightarrow> api \<Rightarrow> int \<times> api" where
  "transport_set_fec_enabled enabled a =
     (let n = api_node a in
      if \<not> api_initialized a then (-1, a)
      else case eng_session (n_eng n) of
        None \<Rightarrow> (-1, a)
      | Some i \<Rightarrow> (0, a\<lparr>api_node := upd_sess_at i (\<lambda>s. s\<lparr>resilience := (resilience s)\<lparr>fec_enabled := enabled\<rparr>\<rparr>) n\<rparr>))"

text \<open>The datagrams waiting at the discovery socket are an argument; the beacon that is sent is part of the result.\<close>

definition transport_discovery_scan :: "env \<Rightarrow> (bytes \<times> string) list \<Rightarrow> api \<Rightarrow> int \<times> bytes option \<times> api" where
  "transport_discovery_scan E inbox a =
     (if \<not> api_initialized a then (-1, None, a)
      else let n = api_node a; (beacon, c) = lan_discovery_trigger_scan inbox (env_time E) (n_disc n) (n_conns n)
           in (0, beacon, a\<lparr>api_node := n\<lparr>n_conns := c\<rparr>\<rparr>))"

record peer_entry =
  pe_addr :: string
  pe_port :: u16
  pe_username :: string
  pe_is_online :: bool
  pe_last_seen_ms :: u64
  pe_is_connected :: bool

definition peer_entry_of :: "peer \<Rightarrow> peer_entry" where
  "peer_entry_of p =
     \<lparr>pe_addr = snprintf 64 (peer_addr_str p), pe_port = peer_port p,
      pe_username = snprintf 32 (if peer_username p \<noteq> [] then peer_username p else peer_addr_str p),
      pe_is_online = peer_online p, pe_last_seen_ms = peer_last_seen_ms p, pe_is_connected = (pstate p = PEER_LOCKED)\<rparr>"

text \<open>The entries that are filled in, at most \<open>max_entries\<close>.\<close>

definition transport_get_peer_list :: "int \<Rightarrow> api \<Rightarrow> int \<times> peer_entry list" where
  "transport_get_peer_list max_entries a =
     (if max_entries \<le> 0 then (0, [])
      else let (count, ps) = connection_manager_get_peers (n_conns (api_node a));
               n = (if int count < max_entries then count else nat max_entries)
           in (int n, map peer_entry_of (take n ps)))"

definition transport_audio_call_start :: "api \<Rightarrow> int \<times> api" where
  "transport_audio_call_start = forward transport_engine_audio_call_start"

definition transport_audio_call_end :: "api \<Rightarrow> int \<times> api" where
  "transport_audio_call_end = forward transport_engine_audio_call_end"

definition transport_video_call_start :: "api \<Rightarrow> int \<times> api" where
  "transport_video_call_start = forward transport_engine_video_call_start"

definition transport_video_call_end :: "api \<Rightarrow> int \<times> api" where
  "transport_video_call_end = forward transport_engine_video_call_end"

definition transport_send_file :: "string \<Rightarrow> api \<Rightarrow> (int \<times> api) option" where
  "transport_send_file filepath = forward_opt (transport_engine_send_file filepath)"

definition transport_send_typing :: "api \<Rightarrow> int \<times> api" where
  "transport_send_typing = forward transport_engine_send_typing"

definition transport_send_delivery_ack :: "u32 \<Rightarrow> api \<Rightarrow> int \<times> api" where
  "transport_send_delivery_ack msg_seq = forward (transport_engine_send_delivery_ack msg_seq)"

section \<open>The status page\<close>

record transport_status =
  ts_version :: string
  layers_total :: nat
  layers_passed :: nat
  layer_status :: "string list"
  rules_total :: nat
  rules_passed :: nat
  rule_status :: "string list"

definition transport_get_status :: transport_status where
  "transport_get_status =
     \<lparr>ts_version = snprintf 64 ''SSM transport v1.0 | PQ ML-KEM 768 | ChaCha20-Poly1305 | Opus audio'',
      layers_total = 11, layers_passed = 11,
      layer_status = [''packet_parse     PASS'',
        ''offensive        PASS'',
        ''anti_analysis    PASS'',
        ''static_shell     PASS'',
        ''kernel_filter    PASS'',
        ''session_gate     PASS'',
        ''resilience       PASS'',
        ''session_enc      PASS'',
        ''seq_check        PASS'',
        ''rx_demux         PASS'',
        ''pipeline_out     PASS''],
      rules_total = 18, rules_passed = 15,
      rule_status = [''RULE-1  session_gate before decrypt                PASS'',
        ''RULE-2  outer layers must not decrypt              PASS'',
        ''RULE-3  PQ only during handshake                   PASS'',
        ''RULE-4  trusted packets bypass offense             PASS'',
        ''RULE-5  scheduler before encrypt                   PASS'',
        ''RULE-6  audio never wait for file                  N/A (audio impl)'',
        ''RULE-7  control never wait for audio               N/A (audio impl)'',
        ''RULE-8  no malloc in fast path                     PASS'',
        ''RULE-9  no logging in fast path                    PASS'',
        ''RULE-10 no mutex in audio path                     N/A (audio impl)'',
        ''RULE-11 packet parsed only once                    PASS'',
        ''RULE-12 session must be exclusive                  PASS'',
        ''RULE-13 kernel filter must be first                PASS'',
        ''RULE-14 keys never leave secure store              PASS'',
        ''RULE-15 resilience must not change session_id      PASS'',
        ''RULE-16 replay window always active                PASS'',
        ''RULE-17 channel must not access transport          PASS'',
        ''RULE-18 CLI must not access UDP directly           PASS'']\<rparr>"

end
