(* ===== verification/Engine_Inv.thy ===== *)
theory Engine_Inv
  imports Api
begin

text \<open>
  An invariant of the whole engine: whatever the application calls, the network delivers and
  the threads do, a session is locked only after the peer has proved its identity. The
  handshake establishes it; every other operation of the engine keeps it.
\<close>

section \<open>Locked means verified\<close>

definition verified :: "session \<Rightarrow> bool" where
  "verified s \<longleftrightarrow> (sess_state s = SESSION_LOCKED \<longrightarrow> identity_verified (hs s))"

named_theorems verified_intros

lemma verified_reset [simp]: "verified (session_reset s)"
  by (simp add: verified_def session_reset_def session_zero_def)

lemma verified_init [simp]: "verified session_init"
  by (simp add: verified_def session_init_def session_zero_def)

lemma verified_cong: "\<lbrakk> sess_state s' = sess_state s; identity_verified (hs s') = identity_verified (hs s) \<rbrakk> \<Longrightarrow> verified s' = verified s"
  by (simp add: verified_def)

lemma verified_fields [simp]:
  "verified (s\<lparr>resilience := r\<rparr>) = verified s" "verified (s\<lparr>local_port := p\<rparr>) = verified s"
  "verified (s\<lparr>hop_target_port := p\<rparr>) = verified s" "verified (s\<lparr>keys := k\<rparr>) = verified s"
  "verified (s\<lparr>reconnect_attempts := x\<rparr>) = verified s" "verified (s\<lparr>reconnect_start_ms := t\<rparr>) = verified s"
  "verified (s\<lparr>reconnect_pending := b\<rparr>) = verified s" "verified (s\<lparr>last_heartbeat_rx_ms := t\<rparr>) = verified s"
  "verified (s\<lparr>sess_addr := a\<rparr>) = verified s" "verified (s\<lparr>sess_addr_len := l\<rparr>) = verified s"
  "verified (s\<lparr>fec_recovered := f\<rparr>) = verified s" "verified (s\<lparr>session_id := i\<rparr>) = verified s"
  "verified (s\<lparr>last_seq := q\<rparr>) = verified s" "verified (s\<lparr>recv_bitmap := m\<rparr>) = verified s"
  "verified (s\<lparr>peer_addrs := pa\<rparr>) = verified s" "verified (s\<lparr>peer_addr_lens := pl\<rparr>) = verified s"
  "verified (s\<lparr>hs := (hs s)\<lparr>kem_secret_key := k2\<rparr>\<rparr>) = verified s" "verified (s\<lparr>hs := (hs s)\<lparr>last_error := e\<rparr>\<rparr>) = verified s"
  by (simp_all add: verified_def)

lemma verified_not_locked: "sess_state s \<noteq> SESSION_LOCKED \<Longrightarrow> verified s"
  by (simp add: verified_def)

section \<open>The handshake\<close>

lemma process_verified:
  assumes p: "handshake_process_message L pl s st = (r, s', st')" and r: "r \<noteq> HS_ERROR"
  shows "verified s' \<and> (r = HS_NEED_MORE \<longrightarrow> sess_state s' \<noteq> SESSION_LOCKED \<and> (pl ! 0 = CTRL_IDENTITY_PROOF \<longrightarrow> identity_verified (hs s')))"
proof -
  have v: "verify_state_transition s (pl ! 0) = (0, s)" and d: "hs_dispatch L (transcript_hash (hs s)) pl (update_transcript L s pl) st = (r, s', st')"
    using p r verify_transition_ok [of s "pl ! 0"]
    by (auto simp: handshake_process_message_def state_failure_def split: if_splits prod.splits)
  have nl: "sess_state (update_transcript L s pl) \<noteq> SESSION_LOCKED" using verify_transition_ok [OF v] by simp
  let ?s = "update_transcript L s pl" and ?t = "transcript_hash (hs s)"
  obtain ok1 s1 where c1: "check_proof L ''pqcomm-id-proof'' ?t pl ?s = (ok1, s1)" by fastforce
  obtain ok2 s2 where c2: "check_proof L ''pqcomm-lock-proof'' ?t pl ?s = (ok2, s2)" by fastforce
  obtain r3 s3 where k: "sess_derive_keys L (kem_shared_secret (hs s2)) s2 = (r3, s3)" by fastforce
  have w: "identity_verified (hs (wipe_kem_secrets s3)) = identity_verified (hs s2)"
    using sess_derive_keys_frame [OF k] by (simp add: wipe_kem_secrets_def split: prod.splits)
  show ?thesis
    using d r nl c1 c2 k w check_proof_frame [OF c1] check_proof_frame [OF c2]
    by (auto simp: hs_dispatch_def identity_failure_def verified_def Let_def split: if_splits option.splits)
qed

text \<open>The builders: none but the last leaves a locked session, and that one keeps the identity.\<close>

lemma respond_verified:
  assumes "\<And>b sq r s' b' sq'. f (hw_sess w) b sq = (r, s', b', sq') \<Longrightarrow> verified s'" "verified (hw_sess w)"
  shows "verified (hw_sess (snd (hs_respond f w)))"
  using assms by (auto simp: hs_respond_def Let_def split: prod.splits option.splits)

lemma builders_verified:
  assumes "sess_state s \<noteq> SESSION_LOCKED"
  shows "handshake_build_accept L sid s b sq = (r, s', b', sq') \<Longrightarrow> verified s'"
    "handshake_build_kem_init L seed s b sq = (r, s', b', sq') \<Longrightarrow> verified s'"
    "handshake_build_kem_response L seed s b sq = (r, s', b', sq') \<Longrightarrow> verified s'"
    "handshake_build_identity L s b sq = (r, s', b', sq') \<Longrightarrow> verified s'"
proof -
  show "handshake_build_accept L sid s b sq = (r, s', b', sq') \<Longrightarrow> verified s'"
    using assms by (auto simp: handshake_build_accept_def verified_def update_transcript_def Let_def)
  show "handshake_build_kem_init L seed s b sq = (r, s', b', sq') \<Longrightarrow> verified s'"
    using assms by (auto simp: handshake_build_kem_init_def verified_def update_transcript_def Let_def split: prod.splits if_splits option.splits)
  show "handshake_build_kem_response L seed s b sq = (r, s', b', sq') \<Longrightarrow> verified s'"
    using assms by (auto simp: handshake_build_kem_response_def verified_def update_transcript_def Let_def
        split: prod.splits if_splits option.splits dest!: sess_derive_keys_frame)
  show "handshake_build_identity L s b sq = (r, s', b', sq') \<Longrightarrow> verified s'"
    using assms by (auto simp: handshake_build_identity_def verified_def update_transcript_def split: option.splits)
qed

lemma build_locked_verified:
  assumes "sess_state s \<noteq> SESSION_LOCKED" "identity_verified (hs s)" "handshake_build_locked L s b sq = (r, s', b', sq')"
  shows "verified s'"
proof (cases "proof_payload L CTRL_SESSION_LOCKED ''pqcomm-lock-proof'' s")
  case (Some pl)
  obtain ret s2 where d: "sess_derive_keys L (kem_shared_secret (hs s)) (update_transcript L s pl) = (ret, s2)" by fastforce
  show ?thesis
    using assms Some d sess_derive_keys_frame [OF d]
    by (auto simp: handshake_build_locked_def verified_def wipe_kem_secrets_def update_transcript_def Let_def split: if_splits prod.splits)
qed (use assms in \<open>auto simp: handshake_build_locked_def verified_def\<close>)

lemma run_verified:
  assumes "verified (hw_sess w)"
  shows "verified (hw_sess (snd (handshake_run_as_initiator L seed inp w)))"
    "verified (hw_sess (snd (handshake_run_as_responder L sid seed inp w)))"
proof -
  show "verified (hw_sess (snd (handshake_run_as_initiator L seed inp w)))"
  proof (cases "packet_parse inp")
    case (Some v)
    obtain r s' st' where p: "handshake_process_message L (view_payload inp v) (hw_sess w) (hw_stats w) = (r, s', st')" by (metis prod_cases3)
    let ?w1 = "w\<lparr>hw_sess := s', hw_stats := st'\<rparr>"
    note pv = process_verified [OF p]
    have "verified (hw_sess (snd (hs_respond f ?w1)))"
      if "r = HS_NEED_MORE" "f \<in> {handshake_build_kem_init L seed, handshake_build_identity L}" for f
      by (rule respond_verified) (use that pv builders_verified [of s' L] in auto)
    then show ?thesis using Some p pv by (auto simp: handshake_run_as_initiator_def Let_def)
  qed (simp add: handshake_run_as_initiator_def assms)
next
  show "verified (hw_sess (snd (handshake_run_as_responder L sid seed inp w)))"
  proof (cases "packet_parse inp")
    case (Some v)
    obtain r s' st' where p: "handshake_process_message L (view_payload inp v) (hw_sess w) (hw_stats w) = (r, s', st')" by (metis prod_cases3)
    let ?w1 = "w\<lparr>hw_sess := s', hw_stats := st'\<rparr>" and ?pl = "view_payload inp v"
    note pv = process_verified [OF p]
    have "verified (hw_sess (snd (hs_respond f ?w1)))"
      if "r = HS_NEED_MORE" "f \<in> {handshake_build_accept L sid, handshake_build_kem_response L seed} \<or> f = handshake_build_locked L \<and> ?pl ! 0 = CTRL_IDENTITY_PROOF" for f
      by (rule respond_verified) (use that pv builders_verified [of s' L] build_locked_verified [of s' L] in auto)
    then show ?thesis using Some p pv by (auto simp: handshake_run_as_responder_def Let_def)
  qed (simp add: handshake_run_as_responder_def assms)
qed

section \<open>Operations on an endpoint\<close>

definition keeps_verified :: "(endpoint \<Rightarrow> 'a \<times> endpoint) \<Rightarrow> bool" where
  "keeps_verified f \<longleftrightarrow> (\<forall>e. verified (ep_sess e) \<longrightarrow> verified (ep_sess (snd (f e))))"

lemma verified_upd_sess: "(\<And>s. verified (f s) = verified s) \<Longrightarrow> verified (ep_sess (upd_sess f e)) = verified (ep_sess e)"
  by (simp add: upd_sess_def)

lemma verified_each_path [simp]: "verified (each_path f s) = verified s"
  by (simp add: each_path_def Let_def)

lemma verified_seen [simp]: "verified (seen now s) = verified s"
  by (simp add: seen_def)

lemma verified_reestablish [simp]: "verified (reestablish now s) = verified s"
  by (simp add: reestablish_def)

lemma verified_register [simp]: "verified (snd (session_register_path s i a)) = verified s"
  by (simp add: session_register_path_def)

lemma send_sess [simp]:
  "ep_sess (snd (send_control pl a n e)) = ep_sess e" "ep_sess (snd (send_filled f e)) = ep_sess e"
  by (metis send_control_sess prod.exhaust_sel) (metis send_filled_sess prod.exhaust_sel)

lemma acks_sess [simp]:
  "ep_sess (snd (port_hop_send_ack a e)) = ep_sess e" "ep_sess (snd (reconnect_send_ack a e)) = ep_sess e"
  "ep_sess (push_tx sel upd p e) = ep_sess e"
  by (simp_all add: port_hop_send_ack_def reconnect_send_ack_def push_tx_def split: prod.splits)

lemma heartbeat_verified [verified_intros]:
  "keeps_verified (heartbeat_handle b now)" "keeps_verified (heartbeat_tick now)"
proof -
  show "keeps_verified (heartbeat_handle b now)"
    unfolding keeps_verified_def heartbeat_handle_def Let_def
    by (auto simp: split_beta verified_upd_sess)
  have "verified (ep_sess e) \<Longrightarrow> verified (ep_sess (snd (heartbeat_send now e)))" for e
    unfolding heartbeat_send_def Let_def by (auto simp: split_beta verified_upd_sess)
  then show "keeps_verified (heartbeat_tick now)"
    unfolding keeps_verified_def heartbeat_tick_def Let_def by (auto simp: verified_upd_sess)
qed

lemma reconnect_verified [verified_intros]:
  "keeps_verified (reconnect_handle b now)" "keeps_verified (reconnect_tick now)"
proof -
  show "keeps_verified (reconnect_handle b now)"
    unfolding keeps_verified_def reconnect_handle_def Let_def by (auto simp: verified_upd_sess)
  have r: "verified (ep_sess e) \<Longrightarrow> verified (ep_sess (snd (reconnect_send_request e)))" for e
    unfolding reconnect_send_request_def Let_def by (auto simp: split_beta verified_upd_sess)
  have "verified (ep_sess (upd_sess (\<lambda>s. (session_zero_secrets s)\<lparr>sess_state := SESSION_IDLE\<rparr>) e))" for e
    by (simp add: upd_sess_def verified_def)
  then show "keeps_verified (reconnect_tick now)"
    using r unfolding keeps_verified_def reconnect_tick_def Let_def by (auto simp: verified_upd_sess)
qed

lemma hop_verified [verified_intros]: "keeps_verified (hop_and_ack b)"
proof -
  have "verified s \<Longrightarrow> verified (snd (port_hop_handle b s))" for s
    by (auto simp: port_hop_handle_def Let_def)
  then show ?thesis unfolding keeps_verified_def hop_and_ack_def Let_def by (auto simp: split_beta)
qed

lemma derive_rekey_verified: "verified s \<Longrightarrow> verified (snd (derive_rekey_keys L s ss))"
  by (auto simp: derive_rekey_keys_def Let_def split: prod.splits)

lemma rekey_verified [verified_intros]: "keeps_verified (rekey_handle L seed b)"
proof -
  have i: "verified (ep_sess e) \<Longrightarrow> verified (ep_sess (snd (rekey_handle_init L seed b e)))" for e
    using derive_rekey_verified [of "ep_sess e" L]
    by (fastforce simp: rekey_handle_init_def Let_def split_beta split: option.splits)
  have c: "verified (ep_sess e) \<Longrightarrow> verified (ep_sess (snd (rekey_handle_confirm L b e)))" for e
    using derive_rekey_verified [of "ep_sess e" L]
    by (fastforce simp: rekey_handle_confirm_def Let_def split_beta split: option.splits)
  show ?thesis using i c unfolding keeps_verified_def rekey_handle_def Let_def by auto
qed

lemma send_verified [verified_intros]:
  "keeps_verified (send_control pl a k)" "keeps_verified (send_filled f)" "keeps_verified (\<lambda>e. ((), push_control p e))"
  "keeps_verified (\<lambda>e. ((), push_tx sel upd p e))" "keeps_verified (conn_request_build u d)"
  "keeps_verified (conn_request_send_accept a)" "keeps_verified (conn_request_send_decline a r)"
  "keeps_verified (port_hop_send_request a port)"
  by (auto simp: keeps_verified_def conn_request_build_def send_conn_def conn_request_send_accept_def
      conn_request_send_decline_def Let_def port_hop_send_request_def split_beta verified_upd_sess)

section \<open>The engine\<close>

definition all_verified :: "node \<Rightarrow> bool" where
  "all_verified n \<longleftrightarrow> (\<forall>s \<in> set (sess_pool (n_sessions n)). verified s)"

text \<open>A session index in use is an index of the pool.\<close>

definition eng_ok :: "node \<Rightarrow> bool" where
  "eng_ok n \<longleftrightarrow> all_verified n \<and> length (sess_pool (n_sessions n)) = MAX_SESSION_ENTRIES \<and>
     (\<forall>i. eng_session (n_eng n) = Some i \<longrightarrow> i < MAX_SESSION_ENTRIES) \<and>
     session_count (n_sessions n) \<le> MAX_SESSION_ENTRIES"

lemma eng_ok_sess: "\<lbrakk> eng_ok n; eng_session (n_eng n) = Some i \<rbrakk> \<Longrightarrow> verified (sess_at i n)"
  by (auto simp: eng_ok_def all_verified_def sess_at_def)

lemma eng_ok_upd_sess [verified_intros]:
  "\<lbrakk> eng_ok n; verified (sess_at i n) \<Longrightarrow> verified (f (sess_at i n)); i < MAX_SESSION_ENTRIES \<rbrakk> \<Longrightarrow> eng_ok (upd_sess_at i f n)"
  by (auto simp: eng_ok_def all_verified_def upd_sess_at_def sess_at_def dest!: set_update_subset_insert [THEN subsetD])

lemma eng_ok_upd_eng: "eng_session (f (n_eng n)) = eng_session (n_eng n) \<Longrightarrow> eng_ok (upd_eng f n) = eng_ok n"
  by (simp add: eng_ok_def all_verified_def upd_eng_def)

lemma eng_ok_fields [simp]:
  "eng_ok (n\<lparr>n_pool := q\<rparr>) = eng_ok n" "eng_ok (n\<lparr>n_off := off\<rparr>) = eng_ok n" "eng_ok (n\<lparr>n_aa := aa\<rparr>) = eng_ok n"
  "eng_ok (n\<lparr>n_kf := kf\<rparr>) = eng_ok n" "eng_ok (n\<lparr>n_requests := t\<rparr>) = eng_ok n" "eng_ok (n\<lparr>n_conns := c\<rparr>) = eng_ok n"
  "eng_ok (n\<lparr>n_crypto := cw\<rparr>) = eng_ok n" "eng_ok (n\<lparr>n_monitor := m\<rparr>) = eng_ok n" "eng_ok (n\<lparr>n_stats := st\<rparr>) = eng_ok n"
  "eng_ok (n\<lparr>n_fs := fs\<rparr>) = eng_ok n" "eng_ok (n\<lparr>n_disc := d\<rparr>) = eng_ok n" "eng_ok (n\<lparr>n_store := ks\<rparr>) = eng_ok n"
  "eng_ok (n\<lparr>n_alt_addr := a\<rparr>) = eng_ok n"
  by (simp_all add: eng_ok_def all_verified_def)

lemma n_eng_simps [simp]:
  "n_eng (upd_eng f n) = f (n_eng n)" "n_eng (upd_sess_at i g n) = n_eng n" "n_eng (give_back p n) = n_eng n"
  by (simp_all add: upd_eng_def upd_sess_at_def give_back_def)

lemma eng_ok_give_back [simp]: "eng_ok (give_back p n) = eng_ok n"
  by (simp add: give_back_def)

lemma eng_ok_push_event [simp]: "eng_ok (push_event ev n) = eng_ok n" "eng_ok (push_event_newest ev n) = eng_ok n"
  by (simp_all add: push_event_def push_event_newest_def eng_ok_upd_eng Let_def)

lemma eng_ok_put_ep [verified_intros]:
  assumes "eng_ok n" "i < MAX_SESSION_ENTRIES" "verified (ep_sess e)"
  shows "eng_ok (put_ep i k e n)"
  unfolding put_ep_def using assms by (intro eng_ok_upd_sess) (simp_all add: eng_ok_upd_eng)

lemma eng_session_put_ep [simp]: "eng_session (n_eng (put_ep i k e n)) = eng_session (n_eng n)"
  by (simp add: put_ep_def)

lemma eng_ok_with_ep [verified_intros]:
  assumes "eng_ok n" "eng_session (n_eng n) = Some i" "keeps_verified f"
  shows "eng_ok (snd (with_ep i k f n))" "eng_session (n_eng (snd (with_ep i k f n))) = Some i"
proof -
  have i: "i < MAX_SESSION_ENTRIES" using assms(1,2) by (simp add: eng_ok_def)
  have "verified (ep_sess (snd (f (ep_of i k n))))"
    using assms(3) eng_ok_sess [OF assms(1,2)] by (simp add: keeps_verified_def ep_of_def)
  then show "eng_ok (snd (with_ep i k f n))" "eng_session (n_eng (snd (with_ep i k f n))) = Some i"
    using assms(1,2) i by (simp_all add: with_ep_def split_beta eng_ok_put_ep)
qed

end
