(* ===== verification/Engine_Safe.thy ===== *)
theory Engine_Safe
  imports Engine_Inv
begin

text \<open>
  Every step of the engine keeps the invariant \<open>eng_ok\<close>: the handlers of received packets, the
  periodic work, the calls of the application, the crypto worker and the threads of the sockets.
  In every state that a run can reach, a locked session has a verified peer.
\<close>

section \<open>Steps on the current session\<close>

definition eng_at :: "nat \<Rightarrow> node \<Rightarrow> bool" where
  "eng_at i n \<longleftrightarrow> eng_ok n \<and> eng_session (n_eng n) = Some i"

named_theorems eng_at_intros

lemma eng_at_ok: "eng_at i n \<Longrightarrow> eng_ok n"
  by (simp add: eng_at_def)

lemma eng_at_sess: "eng_at i n \<Longrightarrow> verified (sess_at i n)"
  by (auto simp: eng_at_def intro: eng_ok_sess)

lemma eng_at_with_ep [eng_at_intros]: "\<lbrakk> eng_at i n; keeps_verified f \<rbrakk> \<Longrightarrow> eng_at i (snd (with_ep i k f n))"
  by (simp add: eng_at_def eng_ok_with_ep)

lemma eng_at_put_ep [eng_at_intros]: "\<lbrakk> eng_at i n; verified (ep_sess e) \<rbrakk> \<Longrightarrow> eng_at i (put_ep i k e n)"
  by (auto simp: eng_at_def eng_ok_def [of n] intro: eng_ok_put_ep)

lemma eng_at_upd_sess [eng_at_intros]: "\<lbrakk> eng_at i n; verified (sess_at i n) \<Longrightarrow> verified (f (sess_at i n)) \<rbrakk> \<Longrightarrow> eng_at i (upd_sess_at i f n)"
  by (auto simp: eng_at_def eng_ok_def [of n] intro: eng_ok_upd_sess)

lemma eng_at_upd_eng: "eng_session (f (n_eng n)) = eng_session (n_eng n) \<Longrightarrow> eng_at i (upd_eng f n) = eng_at i n"
  by (simp add: eng_at_def eng_ok_upd_eng)

lemma eng_at_fields [simp]:
  "eng_at i (n\<lparr>n_pool := q\<rparr>) = eng_at i n" "eng_at i (n\<lparr>n_off := off\<rparr>) = eng_at i n" "eng_at i (n\<lparr>n_aa := aa\<rparr>) = eng_at i n"
  "eng_at i (n\<lparr>n_kf := kf\<rparr>) = eng_at i n" "eng_at i (n\<lparr>n_requests := t\<rparr>) = eng_at i n" "eng_at i (n\<lparr>n_conns := c\<rparr>) = eng_at i n"
  "eng_at i (n\<lparr>n_crypto := cw\<rparr>) = eng_at i n" "eng_at i (n\<lparr>n_monitor := m\<rparr>) = eng_at i n" "eng_at i (n\<lparr>n_stats := st\<rparr>) = eng_at i n"
  "eng_at i (n\<lparr>n_fs := fs\<rparr>) = eng_at i n" "eng_at i (n\<lparr>n_store := ks\<rparr>) = eng_at i n" "eng_at i (n\<lparr>n_alt_addr := a\<rparr>) = eng_at i n"
  by (simp_all add: eng_at_def)

lemma eng_at_give_back [simp]: "eng_at i (give_back p n) = eng_at i n"
  by (simp add: give_back_def)

lemma eng_at_push_event [simp]: "eng_at i (push_event ev n) = eng_at i n" "eng_at i (push_event_newest ev n) = eng_at i n"
  by (simp_all add: push_event_def push_event_newest_def eng_at_upd_eng Let_def)

section \<open>Handlers\<close>

lemma locked_control_at [eng_at_intros]: "eng_at i n \<Longrightarrow> eng_at i (snd (locked_control L E b i n))"
  unfolding locked_control_def Let_def split_beta
  by (simp add: eng_at_intros verified_intros)

lemma run_handshake_at [eng_at_intros]:
  assumes "eng_at i n" and run: "\<And>w. verified (hw_sess w) \<Longrightarrow> verified (hw_sess (snd (run w)))"
  shows "eng_at i (run_handshake run i n)"
  using assms(1) run eng_at_sess [OF assms(1)] unfolding run_handshake_def Let_def split_beta
  by (auto simp: eng_at_upd_eng split: option.split intro!: eng_at_intros verified_intros)

lemma send_to_peer_at [eng_at_intros]: "eng_at i n \<Longrightarrow> eng_at i (snd (send_to_peer pl n))"
  using eng_at_def [of i n] unfolding send_to_peer_def by (auto simp: eng_at_intros verified_intros split: option.split)

lemma mark_locked_at [simp]: "eng_at i (mark_locked n) = eng_at i n"
  by (simp add: mark_locked_def Let_def eng_at_upd_eng)

lemma relay_sess: "relay_forward_route L b v rt a e = Some (r, e') \<Longrightarrow> ep_sess e' = ep_sess e"
  by (auto simp: relay_forward_route_def push_chat_def Let_def split: if_splits option.splits prod.splits)

lemma control_handler_at:
  assumes "eng_at i n"
  shows "eng_at i (engine_control_handler L E p n)"
proof -
  have s: "eng_session (n_eng n) = Some i" using assms by (simp add: eng_at_def)
  let ?n = "snd (locked_control L E (pool_mem (n_pool n) p) i n)"
  have "eng_at i ?n" by (rule locked_control_at [OF assms])
  then show ?thesis using assms s unfolding engine_control_handler_def Let_def split_beta transport_engine_send_delivery_ack_def
    by (auto split: option.split intro!: send_to_peer_at run_handshake_at run_verified)
qed

lemma responder_handler_at:
  assumes "eng_at i n" "engine_responder_handler L E p n = Some n'"
  shows "eng_at i n'"
proof -
  have s: "eng_session (n_eng n) = Some i" using assms by (simp add: eng_at_def)
  let ?n = "snd (locked_control L E (pool_mem (n_pool n) p) i n)"
  have l: "eng_at i ?n" by (rule locked_control_at [OF assms(1)])
  have r: "eng_at i (put_ep i 0 e n)" if "relay_forward_route L b v rt a (ep_of i 0 n) = Some (x, e)" for b v rt a x e
    using relay_sess [OF that] assms(1) eng_at_sess [OF assms(1)] by (intro eng_at_put_ep) (simp_all add: ep_of_def)
  show ?thesis using assms s l unfolding engine_responder_handler_def Let_def split_beta transport_engine_send_delivery_ack_def
    by (auto simp: eng_at_upd_eng split: option.splits if_splits bind_splits intro!: send_to_peer_at run_handshake_at run_verified dest!: r)
qed

lemma handle_packet_ok:
  assumes "eng_ok n" "handle_packet L E p n = Some n'"
  shows "eng_ok n' \<and> eng_session (n_eng n') = eng_session (n_eng n)"
proof (cases "eng_session (n_eng n)")
  case None
  then show ?thesis using assms
    by (auto simp: handle_packet_def engine_control_handler_def engine_responder_handler_def split: if_splits)
next
  case (Some i)
  then have a: "eng_at i n" using assms(1) by (simp add: eng_at_def)
  show ?thesis using assms(2) Some control_handler_at [OF a] responder_handler_at [OF a]
    by (auto simp: handle_packet_def eng_at_def split: if_splits)
qed

section \<open>Receiving\<close>

lemma pre_crypto_verified:
  assumes "pipeline_inbound_pre_crypto now p w = Some (res, w')" "verified (w_sess w)"
  shows "verified (w_sess w')"
proof -
  have f: "verified (w_sess w2)" if "fec_frame q w1 w2" "verified (w_sess w1)" for q w1 w2
    using that unfolding fec_frame_def by auto
  have "verified (w_sess w6)"
    if "resilience_check p v (w\<lparr>w_off := off, w_aa := aa, w_kf := kf\<rparr>) = Some (st, w6)" for v off aa kf st w6
    using resilience_check_spec [OF that] assms(2) by (auto dest!: f)
  then show ?thesis using pre_crypto_cases [OF assms(1)] assms(2) by (auto split: if_splits)
qed

lemma put_rx_world_ok:
  assumes "eng_ok n" "verified (w_sess w)"
  shows "eng_ok (put_rx_world k w n) \<and> eng_session (n_eng (put_rx_world k w n)) = eng_session (n_eng n)"
proof -
  let ?f = "\<lambda>g. g\<lparr>eng_rx_queues := (eng_rx_queues g)[k := w_rxq w]\<rparr>"
  have "eng_ok (upd_eng ?f n)" using assms(1) by (simp add: eng_ok_upd_eng)
  then show ?thesis using assms unfolding put_rx_world_def Let_def
    by (auto split: option.split intro!: eng_ok_upd_sess simp: eng_ok_def [of n])
qed

lemma session_drop_ok [simp]:
  "eng_ok (session_drop E b n) = eng_ok n" "eng_session (n_eng (session_drop E b n)) = eng_session (n_eng n)"
  by (simp_all add: session_drop_def push_event_def eng_ok_upd_eng Let_def split_beta)

lemma queue_decrypt_ok:
  "queue_decrypt p n = Some n' \<Longrightarrow> eng_ok n' = eng_ok n \<and> n_eng n' = n_eng n"
  by (auto simp: queue_decrypt_def Let_def split_beta split: option.splits if_splits)

lemma receive_packet_ok:
  assumes "eng_ok n" "receive_packet L E k p n = Some n'"
  shows "eng_ok n' \<and> eng_session (n_eng n') = eng_session (n_eng n)"
proof -
  obtain res w where pre: "pipeline_inbound_pre_crypto (now_ms E) p (rx_world_of k n) = Some (res, w)"
    using assms(2) by (auto simp: receive_packet_def split: option.splits)
  have "verified (w_sess (rx_world_of k n))"
    using assms(1) eng_ok_sess by (auto simp: rx_world_of_def split: option.split)
  note put = put_rx_world_ok [OF assms(1) pre_crypto_verified [OF pre this], of k]
  show ?thesis using assms(2) pre put handle_packet_ok [of "put_rx_world k w n" L E p n'] queue_decrypt_ok [of p "put_rx_world k w n" n']
    by (auto simp: receive_packet_def Let_def split: if_splits)
qed

section \<open>Periodic work\<close>

text \<open>The parts of \<open>poll_ticks\<close>; each keeps the invariant and the current session.\<close>

definition keeps_ok :: "(node \<Rightarrow> node) \<Rightarrow> bool" where
  "keeps_ok f \<longleftrightarrow> (\<forall>n. eng_ok n \<longrightarrow> eng_ok (f n) \<and> eng_session (n_eng (f n)) = eng_session (n_eng n))"

lemma keeps_okI:
  assumes "\<And>n. \<lbrakk> eng_ok n; eng_session (n_eng n) = None \<rbrakk> \<Longrightarrow> eng_ok (f n) \<and> eng_session (n_eng (f n)) = None"
    "\<And>n i. \<lbrakk> eng_at i n; eng_session (n_eng n) = Some i \<rbrakk> \<Longrightarrow> eng_at i (f n)"
  shows "keeps_ok f"
  unfolding keeps_ok_def using assms by (metis eng_at_def option.exhaust)

lemma keeps_ok_comp: "\<lbrakk> keeps_ok f; keeps_ok g \<rbrakk> \<Longrightarrow> keeps_ok (\<lambda>n. f (g n))"
  by (simp add: keeps_ok_def)

lemma ticks_ok: "keeps_ok (tick_abr E)" "keeps_ok (tick_liveness E)" "keeps_ok tick_offensive" "keeps_ok (tick_decoy E)"
proof -
  show "keeps_ok (tick_abr E)"
    by (rule keeps_okI) (auto simp: tick_abr_def split_beta eng_at_upd_eng intro!: eng_at_upd_sess split: option.split)
  show "keeps_ok (tick_liveness E)"
    by (rule keeps_okI) (auto simp: tick_liveness_def intro!: eng_at_with_ep verified_intros split: option.split)
  show "keeps_ok tick_offensive" by (simp add: keeps_ok_def tick_offensive_def)
  show "keeps_ok (tick_decoy E)"
    by (rule keeps_okI) (auto simp: tick_decoy_def intro!: eng_at_with_ep verified_intros split: option.split prod.split)
qed

text \<open>The same for work that may fail to return.\<close>

definition keeps_ok_opt :: "(node \<Rightarrow> node option) \<Rightarrow> bool" where
  "keeps_ok_opt f \<longleftrightarrow> (\<forall>n n'. eng_ok n \<longrightarrow> f n = Some n' \<longrightarrow> eng_ok n' \<and> eng_session (n_eng n') = eng_session (n_eng n))"

lemma keeps_ok_optI:
  assumes "\<And>n n'. \<lbrakk> eng_ok n; eng_session (n_eng n) = None; f n = Some n' \<rbrakk> \<Longrightarrow> eng_ok n' \<and> eng_session (n_eng n') = None"
    "\<And>n n' i. \<lbrakk> eng_at i n; eng_session (n_eng n) = Some i; f n = Some n' \<rbrakk> \<Longrightarrow> eng_at i n'"
  shows "keeps_ok_opt f"
proof (unfold keeps_ok_opt_def, intro allI impI)
  fix n n' assume n: "eng_ok n" "f n = Some n'"
  show "eng_ok n' \<and> eng_session (n_eng n') = eng_session (n_eng n)"
  proof (cases "eng_session (n_eng n)")
    case None
    then show ?thesis using assms(1) [OF n(1) None n(2)] by simp
  next
    case (Some i)
    then have "eng_at i n'" using n(1) by (intro assms(2) [OF _ Some n(2)]) (simp add: eng_at_def)
    then show ?thesis using Some by (simp add: eng_at_def)
  qed
qed

lemma keeps_ok_optD: "\<lbrakk> keeps_ok_opt f; f n = Some n'; eng_ok n \<rbrakk> \<Longrightarrow> eng_ok n' \<and> eng_session (n_eng n') = eng_session (n_eng n)"
  unfolding keeps_ok_opt_def by blast

lemma keeps_ok_opt_bind:
  assumes "keeps_ok_opt f" "keeps_ok_opt g"
  shows "keeps_ok_opt (\<lambda>n. Option.bind (f n) g)"
  unfolding keeps_ok_opt_def
proof (intro allI impI)
  fix n n' assume n: "eng_ok n" "Option.bind (f n) g = Some n'"
  then obtain m where m: "f n = Some m" "g m = Some n'" by (cases "f n") auto
  show "eng_ok n' \<and> eng_session (n_eng n') = eng_session (n_eng n)"
    using keeps_ok_optD [OF assms(1) m(1) n(1)] keeps_ok_optD [OF assms(2) m(2)] by simp
qed

lemma send_frame_sess: "send_frame L sel upd ch a pl p e = Some e' \<Longrightarrow> ep_sess e' = ep_sess e"
  by (auto simp: send_frame_def Let_def split: if_splits option.splits)

lemma audio_sess: "audio_worker_tick L ol a w rxq e = Some (r, w', rxq', e') \<Longrightarrow> ep_sess e' = ep_sess e"
  by (auto simp: audio_worker_tick_def audio_tx_def Let_def split: if_splits option.splits prod.splits bind_splits dest!: send_frame_sess)

lemma video_sess: "video_worker_tick L a w rxq fs e = Some (r, w', rxq', fs', e') \<Longrightarrow> ep_sess e' = ep_sess e"
  by (auto simp: video_worker_tick_def video_tx_def Let_def split: if_splits option.splits prod.splits bind_splits dest!: send_frame_sess)

lemma ep_of_sess [simp]: "ep_sess (ep_of i k n) = sess_at i n"
  by (simp add: ep_of_def)

lemma put_same_sess: "\<lbrakk> eng_at i n; ep_sess e = sess_at i n \<rbrakk> \<Longrightarrow> eng_at i (put_ep i k e n)"
  by (simp add: eng_at_put_ep eng_at_sess)

lemma tick_calls_ok: "keeps_ok_opt (tick_calls L E)"
proof (rule keeps_ok_optI)
  fix n n' i assume a: "eng_at i n" "eng_session (n_eng n) = Some i" "tick_calls L E n = Some n'"
  let ?a = "\<lambda>w rxq e. upd_eng (\<lambda>g. g\<lparr>eng_audio := w, eng_rx_queues := (eng_rx_queues g)[0 := rxq]\<rparr>) (put_ep i 0 e n)"
  have au: "eng_at i (?a w rxq e)" if "ep_sess e = sess_at i n" for w rxq e
    using that a(1) by (simp add: eng_at_upd_eng put_same_sess)
  have v: "eng_at i ((upd_eng (\<lambda>g. g\<lparr>eng_video := w, eng_rx_queues := (eng_rx_queues g)[0 := rxq]\<rparr>) (put_ep i 0 e m))\<lparr>n_fs := fs\<rparr>)"
    if "eng_at i m" "ep_sess e = sess_at i m" for m w rxq e fs
    using that by (simp add: eng_at_upd_eng put_same_sess)
  show "eng_at i n'" using a
    by (fastforce simp: tick_calls_def split: if_splits bind_splits dest!: audio_sess video_sess intro: au v)
qed (auto simp: tick_calls_def)

lemma send_file_chunk_ok: "keeps_ok_opt (send_file_chunk L c)"
proof (rule keeps_ok_optI)
  show "eng_at i n'" if "eng_at i n" "eng_session (n_eng n) = Some i" "send_file_chunk L c n = Some n'" for n n' i
    using that unfolding send_file_chunk_def Let_def
    by (auto simp: eng_at_upd_eng split: if_splits option.splits prod.splits intro!: eng_at_with_ep verified_intros)
qed (auto simp: send_file_chunk_def Let_def eng_ok_upd_eng split: prod.splits option.splits)

lemma ok_session_event [simp]: "eng_session (n_eng (push_event ev n)) = eng_session (n_eng n)"
  by (simp add: push_event_def)

lemma tick_file_tx_ok: "keeps_ok_opt (tick_file_tx L E)"
proof (unfold keeps_ok_opt_def, intro allI impI)
  fix n n' assume n: "eng_ok n" "tick_file_tx L E n = Some n'"
  let ?n1 = "\<lambda>ft. upd_eng (\<lambda>g. g\<lparr>eng_file_ctx := ft\<rparr>) n"
  have ok: "eng_ok (?n1 ft)" for ft using n(1) by (simp add: eng_ok_upd_eng)
  have c: "eng_ok n2 \<and> eng_session (n_eng n2) = eng_session (n_eng n)" if "send_file_chunk L c (?n1 ft) = Some n2" for c ft n2
    using keeps_ok_optD [OF send_file_chunk_ok that ok] by simp
  show "eng_ok n' \<and> eng_session (n_eng n') = eng_session (n_eng n)"
    using n ok unfolding tick_file_tx_def Let_def split_beta
    by (auto simp: eng_ok_upd_eng split: if_splits option.splits bind_splits dest!: c)
qed

lemma store_chunk_ok: "keeps_ok (store_chunk E b v)"
  by (simp add: keeps_ok_def store_chunk_def Let_def split_beta eng_ok_upd_eng)

lemma tick_file_rx_ok: "keeps_ok (tick_file_rx E)"
  using store_chunk_ok by (simp add: keeps_ok_def tick_file_rx_def Let_def split_beta eng_ok_upd_eng split: option.split)

lemma keeps_ok_Some: "keeps_ok f \<Longrightarrow> keeps_ok_opt (\<lambda>n. Some (f n))"
  by (simp add: keeps_ok_def keeps_ok_opt_def)

lemma poll_ticks_ok: "keeps_ok_opt (poll_ticks L E)"
proof -
  let ?t = "\<lambda>n. tick_decoy E (tick_offensive (tick_liveness E (tick_abr E
      (upd_eng (\<lambda>g. let t = eng_loop_ticks g + 1 in g\<lparr>eng_loop_ticks := (if t \<ge> 100 then 0 else t)\<rparr>) n))))"
  have "keeps_ok ?t"
    using ticks_ok by (simp add: keeps_ok_def eng_ok_upd_eng Let_def)
  then have "keeps_ok_opt (\<lambda>n. Option.bind (Some (?t n)) (\<lambda>n2. Option.bind (tick_calls L E n2)
      (\<lambda>n3. Option.bind (tick_file_tx L E n3) (\<lambda>n4. Some (tick_file_rx E n4)))))"
    by (intro keeps_ok_opt_bind keeps_ok_Some tick_calls_ok tick_file_tx_ok tick_file_rx_ok)
  then show ?thesis by (simp add: poll_ticks_def [abs_def] Let_def)
qed

lemma poll_ok:
  assumes "eng_ok n" "transport_engine_poll L E n = Some (r, ev, n')"
  shows "eng_ok n'"
proof (cases "ring_pop (eng_event_ring (n_eng n))")
  case (Pair x rg)
  let ?n0 = "n\<lparr>n_monitor := monitor_mark_alive (env_clock_ms E) ''rx-worker'' (n_monitor n)\<rparr>"
  obtain d c where d: "crypto_worker_pop_result (n_crypto n) = (d, c)" by fastforce
  have h: "keeps_ok_opt (handle_packet L E p)" for p using handle_packet_ok by (auto simp: keeps_ok_opt_def)
  show ?thesis
  proof (cases x)
    case None
    then obtain n2 where n2: "(case d of None \<Rightarrow> Some (?n0\<lparr>n_crypto := c\<rparr>) | Some p \<Rightarrow> handle_packet L E p (?n0\<lparr>n_crypto := c\<rparr>)) = Some n2"
      using assms(2) Pair d by (fastforce simp: transport_engine_poll_def Let_def split: bind_splits)
    have ok: "eng_ok n2"
      using n2 keeps_ok_optD [OF h, of _ "?n0\<lparr>n_crypto := c\<rparr>"] assms(1) by (auto split: option.splits)
    show ?thesis
    proof (cases "ready_socket (n_eng n2)")
      case None
      then have "poll_ticks L E n2 = Some n'"
        using assms(2) Pair d n2 \<open>x = None\<close> by (auto simp: transport_engine_poll_def Let_def)
      then show ?thesis using keeps_ok_optD [OF poll_ticks_ok _ ok] by blast
    next
      case (Some k)
      let ?n3 = "\<lambda>r. upd_eng (\<lambda>g. g\<lparr>eng_rx_rings := (eng_rx_rings g)[k := r]\<rparr>) n2"
      obtain p r where "receive_packet L E k p (?n3 r) = Some n'"
        using assms(2) Pair d n2 Some \<open>x = None\<close> by (auto simp: transport_engine_poll_def Let_def split: prod.splits)
      then show ?thesis using receive_packet_ok [of "?n3 r"] ok by (simp add: eng_ok_upd_eng)
    qed
  qed (use assms Pair in \<open>auto simp: transport_engine_poll_def Let_def eng_ok_upd_eng\<close>)
qed

section \<open>Calls of the application\<close>

lemma alloc_ok:
  assumes "eng_ok n" "session_alloc_for_peer (n_sessions n) a dir = Some (r, t)"
  shows "eng_ok (n\<lparr>n_sessions := t\<rparr>)" "r = Some i \<Longrightarrow> i < MAX_SESSION_ENTRIES"
  using assms
  by (auto simp: eng_ok_def all_verified_def session_alloc_for_peer_def Let_def split: if_splits
      dest!: set_update_subset_insert [THEN subsetD])

lemma eng_at_set_session:
  "\<lbrakk> eng_ok n; i < MAX_SESSION_ENTRIES; \<And>g. eng_session (f g) = Some i \<rbrakk> \<Longrightarrow> eng_at i (upd_eng f n)"
  by (simp add: eng_at_def eng_ok_def all_verified_def upd_eng_def)

lemma eng_ok_drop_session: "\<lbrakk> eng_ok n; \<And>g. eng_session (f g) = None \<rbrakk> \<Longrightarrow> eng_ok (upd_eng f n)"
  by (simp add: eng_ok_def all_verified_def upd_eng_def)

lemma verified_setup_paths [simp]: "verified (setup_paths g a port s) = verified s"
  by (simp add: setup_paths_def Let_def)

lemma shutdown_ok: "eng_ok n \<Longrightarrow> eng_ok (transport_engine_shutdown n)"
  by (simp add: transport_engine_shutdown_def eng_ok_drop_session)

lemma init_sockets_session: "eng_session (snd (init_sockets E xs g)) = eng_session g"
  by (induction E xs g rule: init_sockets.induct) (auto simp: init_socket_def Let_def split: bool.splits prod.splits if_splits)

lemma init_ok:
  assumes "eng_ok n"
  shows "eng_ok (snd (transport_engine_init E cfg n))"
proof -
  have "eng_ok (m\<lparr>n_eng := snd (init_sockets E xs g)\<rparr>)" if "eng_session g = None" "eng_ok m" for m xs g
    using that init_sockets_session [of E xs g] by (simp add: eng_ok_def all_verified_def)
  then show ?thesis using assms unfolding transport_engine_init_def Let_def split_beta
    by (simp add: eng_ok_upd_eng engine_zero_def shutdown_ok)
qed

lemma init_initiator_verified:
  "handshake_init_initiator sid key KEM_TYPE_MLKEM_768 s st = (r, s', st') \<Longrightarrow> sess_state s' \<noteq> SESSION_LOCKED"
  by (auto simp: handshake_init_initiator_def Let_def)

lemma hello_state: "sess_state (fst (snd (snd (handshake_build_hello L q s sq)))) = sess_state s"
  by (simp add: handshake_build_hello_def update_transcript_def split: prod.splits option.splits)

text \<open>A new session, its handshake started and the first message queued; or given up for want of a buffer.\<close>

lemma connect_ok:
  assumes "eng_ok n" "transport_engine_connect L E addr_str port n = Some (r, n')"
  shows "eng_ok n'"
proof -
  obtain r0 a where rp: "resolve_peer E addr_str port = (r0, a)" by fastforce
  define n2 where "n2 = upd_eng (\<lambda>g. g\<lparr>eng_peer_configured := True, eng_role_initiator := True\<rparr>) (upd_eng (\<lambda>g. g\<lparr>eng_peer_addr := a\<rparr>) n)"
  have ok2: "eng_ok n2" using assms(1) by (simp add: n2_def eng_ok_upd_eng)
  note d = transport_engine_connect_def Let_def rp n2_def
  show ?thesis
  proof (cases "eng_initialized (n_eng n) \<and> eng_session (n_eng n) = None \<and> r0 = 0 \<and>
      (\<exists>i t. session_alloc_for_peer (n_sessions n2) a SESSION_DIR_OUTBOUND = Some (Some i, t))")
    case True
    then obtain i t where al: "session_alloc_for_peer (n_sessions n2) a SESSION_DIR_OUTBOUND = Some (Some i, t)" by blast
    obtain key store where k: "secure_store_get_identity_key (env_identity_key E) (n_store n2) = (key, store)" by fastforce
    define n3 where "n3 = upd_eng (\<lambda>g. g\<lparr>eng_session := Some i\<rparr>) (n2\<lparr>n_sessions := t, n_store := store\<rparr>)"
    have at3: "eng_at i n3"
      unfolding n3_def using alloc_ok [OF ok2 al] by (intro eng_at_set_session) (simp_all add: eng_ok_def all_verified_def)
    obtain r1 s1 st where h: "handshake_init_initiator (env_sid E) key KEM_TYPE_MLKEM_768
        (setup_paths (n_eng n3) a port ((sess_at i n3)\<lparr>local_port := tc_local_port (eng_config (n_eng n3))\<rparr>)) (n_stats n3) = (r1, s1, st)"
      by (metis prod_cases3)
    obtain hello q s2 sq where b: "handshake_build_hello L (n_pool n3) s1 (eng_seq_counter (n_eng n3)) = (hello, q, s2, sq)"
      by (metis prod_cases4)
    define n4 where "n4 = upd_sess_at i (\<lambda>_. s2) (upd_eng (\<lambda>g. g\<lparr>eng_seq_counter := sq\<rparr>) (n3\<lparr>n_stats := st, n_pool := q\<rparr>))"
    have "verified s2" using init_initiator_verified [OF h] hello_state [of L "n_pool n3" s1 "eng_seq_counter (n_eng n3)"] b
      by (simp add: verified_not_locked)
    then have at4: "eng_at i n4" using at3 unfolding n4_def by (intro eng_at_upd_sess) (simp_all add: eng_at_upd_eng)
    have "n' = upd_eng (\<lambda>g. g\<lparr>eng_session := None\<rparr>) (upd_sess_at i session_reset n4)" if "hello = None"
      using that assms(2) True al k h b by (simp add: d n3_def n4_def)
    then have "eng_ok n'" if "hello = None"
      using that eng_at_upd_sess [OF at4, of session_reset] by (simp add: eng_ok_drop_session eng_at_ok)
    moreover have "\<exists>f c. n' = (upd_eng f (snd (with_ep i 0 (\<lambda>e. ((), push_control p e))
        (n4\<lparr>n_pool := buf_update p (set_dest a SOCKADDR_IN6_SIZE) (n_pool n4)\<rparr>))))\<lparr>n_conns := c\<rparr> \<and> (\<forall>g. eng_session (f g) = eng_session g)"
      if "hello = Some p" for p
      using that assms(2) True al k h b by (intro exI conjI) (auto simp: d n3_def n4_def)
    moreover have "eng_ok (snd (with_ep i 0 (\<lambda>e. ((), push_control p e)) (n4\<lparr>n_pool := q'\<rparr>)))" for p q'
      using at4 by (intro eng_at_ok [OF eng_at_with_ep] send_verified) simp
    ultimately show ?thesis by (cases hello) (auto simp: eng_ok_upd_eng)
  qed (use assms ok2 alloc_ok [OF ok2] in \<open>auto simp: d eng_ok_upd_eng split: if_splits option.splits\<close>)
qed

lemma disconnect_ok: "eng_ok n \<Longrightarrow> eng_ok (snd (transport_engine_disconnect n))"
  by (auto simp: transport_engine_disconnect_def eng_ok_def [of n] split: option.split intro!: eng_ok_drop_session eng_ok_upd_sess)

lemma send_connect_request_ok:
  assumes "eng_ok n" "transport_engine_send_connect_request E addr_str port u d n = Some (r, n')"
  shows "eng_ok n'"
proof -
  let ?n1 = "\<lambda>a. upd_eng (\<lambda>g. g\<lparr>eng_peer_addr := a, eng_peer_configured := True, eng_role_initiator := True,
    eng_connect_addr_str := snprintf 64 addr_str, eng_connect_port := port\<rparr>) n"
  have ok: "eng_ok (?n1 a)" for a using assms(1) by (simp add: eng_ok_upd_eng)
  show ?thesis using assms ok alloc_ok [OF ok]
    unfolding transport_engine_send_connect_request_def Let_def split_beta
    by (auto split: if_splits option.splits intro!: eng_at_ok [OF eng_at_with_ep] eng_at_set_session eng_ok_upd_sess send_verified)
qed

lemma accept_ok:
  assumes "eng_ok n" "transport_engine_accept_connection E addr_str port n = Some (r, n')"
  shows "eng_ok n'"
proof -
  have cur: "j < MAX_SESSION_ENTRIES" if "eng_session (n_eng n) = Some j" for j
    using that assms(1) by (simp add: eng_ok_def)
  show ?thesis using assms alloc_ok [OF assms(1)] cur
    unfolding transport_engine_accept_connection_def Let_def split_beta
    by (auto split: if_splits option.splits intro!: eng_at_ok [OF eng_at_with_ep] eng_at_set_session eng_ok_upd_sess send_verified)
qed

lemma eng_ok_with_index:
  assumes "eng_ok n" "i < MAX_SESSION_ENTRIES" "keeps_verified f"
  shows "eng_ok (snd (with_ep i k f n))"
proof -
  have "verified (sess_at i n)" using assms(1,2) by (simp add: eng_ok_def all_verified_def sess_at_def)
  then show ?thesis using assms by (simp add: with_ep_def split_beta eng_ok_put_ep keeps_verified_def)
qed

lemma decline_ok:
  assumes "eng_ok n" "transport_engine_decline_connection E addr_str port n = Some (r, n')"
  shows "eng_ok n'"
  using assms alloc_ok [OF assms(1)]
  unfolding transport_engine_decline_connection_def Let_def split_beta
  by (auto split: if_splits option.splits intro!: eng_ok_with_index eng_ok_upd_sess send_verified)

lemma chat_sess:
  "build_chat_packet msg e = Some (x, e') \<Longrightarrow> ep_sess e' = ep_sess e"
  "encrypt_tx_packet L p e = Some (r, e') \<Longrightarrow> ep_sess e' = ep_sess e"
  by (auto simp: build_chat_packet_def encrypt_tx_packet_def Let_def split: prod.splits option.splits if_splits)

lemma fec_tx_sess: "fec_tx_after_encrypt p a e = Some e' \<Longrightarrow> verified (ep_sess e') = verified (ep_sess e)"
  by (auto simp: fec_tx_after_encrypt_def push_control_def Let_def split: prod.splits option.splits if_splits)

lemma send_chat_ok:
  assumes "eng_ok n" "transport_engine_send_chat L txt n = Some (r, n')"
  shows "eng_ok n'"
proof (cases "eng_session (n_eng n)")
  case (Some i)
  let ?g = "n_eng n" and ?sel = "resilience_select_path (resilience (sess_at i n))"
  define k where "k = (if tc_multipath_enabled (eng_config ?g) then (if ?sel \<ge> eng_socket_count ?g then 0 else ?sel) else 0)"
  define n1 where "n1 = upd_sess_at i (\<lambda>s. s\<lparr>resilience := resilience_record_tx (resilience s) k\<rparr>) n"
  note d = transport_engine_send_chat_def [of L _ n, unfolded Let_def Some option.simps, folded k_def, folded n1_def]
  have at: "eng_at i n1" unfolding n1_def using assms(1) Some by (intro eng_at_upd_sess) (simp_all add: eng_at_def)
  have put: "eng_ok (put_ep i j e n1)" "eng_ok (put_ep i j e (n1\<lparr>n_alt_addr := a\<rparr>))" if "verified (ep_sess e)" for e a j
    using that at by (auto intro!: eng_at_ok [of i] eng_at_put_ep)
  show ?thesis
  proof (cases "build_chat_packet txt (ep_of i k n1)")
    case (Some xe)
    obtain x e where b: "build_chat_packet txt (ep_of i k n1) = Some (x, e)" using Some by (cases xe) auto
    have e: "verified (ep_sess e)" using chat_sess(1) [OF b] eng_at_sess [OF at] by simp
    then show ?thesis using assms b put [OF e]
      by (cases x) (auto simp: d split: if_splits option.splits dest!: chat_sess(2) fec_tx_sess intro!: put)
  qed (use assms in \<open>auto simp: d split: if_splits\<close>)
qed (use assms in \<open>simp add: transport_engine_send_chat_def\<close>)

lemma send_file_ok:
  assumes "eng_ok n" "transport_engine_send_file path n = Some (r, n')"
  shows "eng_ok n'"
proof -
  let ?n1 = "\<lambda>ft. upd_eng (\<lambda>g. g\<lparr>eng_file_ctx := ft\<rparr>) n"
  have at: "eng_ok (snd (with_ep i 0 (send_filled f) (?n1 ft)))" if "eng_session (n_eng n) = Some i" for i ft f
    using that assms(1) by (intro eng_at_ok [OF eng_at_with_ep] send_verified) (simp add: eng_at_def eng_ok_upd_eng)
  show ?thesis using assms at unfolding transport_engine_send_file_def Let_def split_beta
    by (auto simp: eng_ok_upd_eng split: if_splits option.splits prod.splits)
qed

lemma calls_ok:
  "eng_ok n \<Longrightarrow> eng_ok (snd (transport_engine_audio_call_start n))" "eng_ok n \<Longrightarrow> eng_ok (snd (transport_engine_audio_call_end n))"
  "eng_ok n \<Longrightarrow> eng_ok (snd (transport_engine_video_call_start n))" "eng_ok n \<Longrightarrow> eng_ok (snd (transport_engine_video_call_end n))"
  by (simp_all add: transport_engine_audio_call_start_def transport_engine_audio_call_end_def transport_engine_video_call_start_def
      transport_engine_video_call_end_def eng_ok_upd_eng)

lemma send_to_peer_ok: "eng_ok n \<Longrightarrow> eng_ok (snd (send_to_peer pl n))"
  using send_to_peer_at [of _ n pl] by (cases "eng_session (n_eng n)") (auto simp: eng_at_def send_to_peer_def)

section \<open>Threads\<close>

lemma enc_check_verified: "session_enc_check L b v s = (ret, b', v', s') \<Longrightarrow> verified s' = verified s"
  by (auto simp: session_enc_check_def Let_def split: if_splits prod.splits)

lemma run_job_verified:
  assumes "run_job L j c q ss = Some (c', q', ss')" "\<forall>s \<in> set ss. verified s"
  shows "(\<forall>s \<in> set ss'. verified s) \<and> length ss' = length ss"
proof -
  have "(\<forall>s \<in> set (ss[i := s']). verified s)" if "session_enc_check L b v (ss ! i) = (ret, b', v', s')" for b v i ret b' v' s'
    using enc_check_verified [OF that] assms(2) by (cases "i < length ss") (auto simp: list_update_beyond dest!: set_update_subset_insert [THEN subsetD])
  then show ?thesis using assms
    by (auto simp: run_job_def Let_def split: if_splits option.splits prod.splits)
qed

lemma crypto_turn_ok:
  assumes "eng_ok n" "crypto_turn L E n = Some n'"
  shows "eng_ok n'"
proof -
  obtain c q ss where c: "crypto_loop L (n_crypto n, n_pool n, sess_pool (n_sessions n)) = Some (c, q, ss)"
    using assms(2) by (auto simp: crypto_turn_def)
  have "(\<forall>s \<in> set ss. verified s) \<and> length ss = length (sess_pool (n_sessions n))"
    using c run_job_verified assms(1) by (fastforce simp: crypto_loop_def eng_ok_def all_verified_def split: prod.splits option.splits)
  then show ?thesis using assms c by (auto simp: crypto_turn_def eng_ok_def all_verified_def)
qed

text \<open>A turn of the receive and of the transmit thread of socket \<open>k\<close>, and of the monitor.\<close>

definition rx_turn :: "nat \<Rightarrow> datagram list \<Rightarrow> node \<Rightarrow> datagram list \<times> node" where
  "rx_turn k inbox n =
     (let (rest, q, r) = rx_thread_fn inbox (n_pool n) (eng_rx_rings (n_eng n) ! k)
      in (rest, (upd_eng (\<lambda>g. g\<lparr>eng_rx_rings := (eng_rx_rings g)[k := r]\<rparr>) n)\<lparr>n_pool := q\<rparr>))"

definition tx_turn :: "nat \<Rightarrow> node \<Rightarrow> (datagram list \<times> node) option" where
  "tx_turn k n =
     map_option (\<lambda>(gs, qs, q). (gs, (upd_eng (\<lambda>g. g\<lparr>eng_tx_queues := (eng_tx_queues g)[k := qs]\<rparr>) n)\<lparr>n_pool := q\<rparr>))
       (tx_thread_fn (eng_tx_queues (n_eng n) ! k) (n_pool n))"

definition monitor_turn :: "env \<Rightarrow> node \<Rightarrow> node" where
  "monitor_turn E n = n\<lparr>n_monitor := sample (env_clock_ms E) (n_pool n) (n_stats n) (n_off n) (n_monitor n)\<rparr>"

lemma turns_ok:
  "eng_ok (snd (rx_turn k inbox n)) = eng_ok n" "tx_turn k n = Some (gs, n') \<Longrightarrow> eng_ok n' = eng_ok n"
  "eng_ok (monitor_turn E n) = eng_ok n"
  by (auto simp: rx_turn_def tx_turn_def monitor_turn_def eng_ok_upd_eng split: prod.splits)

section \<open>Runs\<close>

text \<open>The program starts with every session zero and the interface not initialised.\<close>

definition api_start :: "api \<Rightarrow> bool" where
  "api_start a \<longleftrightarrow> \<not> api_initialized a \<and> eng_session (n_eng (api_node a)) = None \<and> session_count (n_sessions (api_node a)) = 0 \<and>
     sess_pool (n_sessions (api_node a)) = replicate MAX_SESSION_ENTRIES session_zero"

text \<open>
  A step is one call of the application, in whatever environment and with whatever arguments, or
  one turn of a thread. The network is arbitrary: \<open>inbox\<close> is what the socket holds.
\<close>

inductive api_step :: "crypto_lib \<Rightarrow> api \<Rightarrow> api \<Rightarrow> bool" for L :: crypto_lib where
  step_init: "transport_init E cfg a = (r, a') \<Longrightarrow> api_step L a a'"
| step_shutdown: "api_step L a (transport_shutdown a)"
| step_connect: "transport_connect L E addr_str port a = Some (r, a') \<Longrightarrow> api_step L a a'"
| step_disconnect: "transport_disconnect a = (r, a') \<Longrightarrow> api_step L a a'"
| step_request: "transport_send_connect_request E addr_str port u d a = Some (r, a') \<Longrightarrow> api_step L a a'"
| step_accept: "transport_accept_connection E addr_str port a = Some (r, a') \<Longrightarrow> api_step L a a'"
| step_decline: "transport_decline_connection E addr_str port a = Some (r, a') \<Longrightarrow> api_step L a a'"
| step_chat: "transport_send_chat L msg a = Some (r, a') \<Longrightarrow> api_step L a a'"
| step_poll: "transport_poll_event L E a = Some (r, ev, a') \<Longrightarrow> api_step L a a'"
| step_hop: "transport_port_hop port a = (r, a') \<Longrightarrow> api_step L a a'"
| step_fec: "transport_set_fec_enabled b a = (r, a') \<Longrightarrow> api_step L a a'"
| step_scan: "transport_discovery_scan E bs a = (r, beacon, a') \<Longrightarrow> api_step L a a'"
| step_audio_start: "transport_audio_call_start a = (r, a') \<Longrightarrow> api_step L a a'"
| step_audio_end: "transport_audio_call_end a = (r, a') \<Longrightarrow> api_step L a a'"
| step_video_start: "transport_video_call_start a = (r, a') \<Longrightarrow> api_step L a a'"
| step_video_end: "transport_video_call_end a = (r, a') \<Longrightarrow> api_step L a a'"
| step_file: "transport_send_file path a = Some (r, a') \<Longrightarrow> api_step L a a'"
| step_typing: "transport_send_typing a = (r, a') \<Longrightarrow> api_step L a a'"
| step_ack: "transport_send_delivery_ack sq a = (r, a') \<Longrightarrow> api_step L a a'"
| step_crypto: "crypto_turn L E (api_node a) = Some n \<Longrightarrow> api_step L a (a\<lparr>api_node := n\<rparr>)"
| step_rx: "rx_turn k inbox (api_node a) = (rest, n) \<Longrightarrow> api_step L a (a\<lparr>api_node := n\<rparr>)"
| step_tx: "tx_turn k (api_node a) = Some (gs, n) \<Longrightarrow> api_step L a (a\<lparr>api_node := n\<rparr>)"
| step_monitor: "api_step L a (a\<lparr>api_node := monitor_turn E (api_node a)\<rparr>)"

definition api_ok :: "api \<Rightarrow> bool" where
  "api_ok a \<longleftrightarrow> eng_ok (api_node a)"

lemma forward_ok:
  assumes "api_ok a" "forward f a = (r, a')" "\<And>n. eng_ok n \<Longrightarrow> eng_ok (snd (f n))"
  shows "api_ok a'"
  using assms by (auto simp: forward_def api_ok_def split_beta Let_def split: if_splits)

lemma forward_opt_ok:
  assumes "api_ok a" "forward_opt f a = Some (r, a')" "\<And>n r n'. \<lbrakk> eng_ok n; f n = Some (r, n') \<rbrakk> \<Longrightarrow> eng_ok n'"
  shows "api_ok a'"
  using assms by (auto simp: forward_opt_def api_ok_def split: if_splits)

lemma session_settings_ok:
  assumes "api_ok a"
  shows "transport_port_hop port a = (r, a') \<Longrightarrow> api_ok a'" "transport_set_fec_enabled b a = (r, a') \<Longrightarrow> api_ok a'"
proof -
  have at: "eng_at i (api_node a)" if "eng_session (n_eng (api_node a)) = Some i" for i
    using that assms by (simp add: eng_at_def api_ok_def)
  show "transport_port_hop port a = (r, a') \<Longrightarrow> api_ok a'" using assms
    by (auto simp: transport_port_hop_def api_ok_def Let_def split: if_splits option.splits
        intro!: eng_at_ok [OF eng_at_with_ep] at send_verified)
  show "transport_set_fec_enabled b a = (r, a') \<Longrightarrow> api_ok a'" using assms
    by (auto simp: transport_set_fec_enabled_def api_ok_def Let_def split: if_splits option.splits
        intro!: eng_at_ok [OF eng_at_upd_sess] at)
qed

lemma api_step_ok: "\<lbrakk> api_step L a a'; api_ok a \<rbrakk> \<Longrightarrow> api_ok a'"
proof (induction rule: api_step.induct)
  case (step_init E cfg a r a')
  then show ?case using init_ok [of "api_node a" E] by (auto simp: transport_init_def api_ok_def split_beta Let_def split: if_splits option.splits)
next
  case (step_shutdown a)
  then show ?case using shutdown_ok by (simp add: transport_shutdown_def api_ok_def Let_def)
next
  case step_connect
  then show ?case by (auto simp: transport_connect_def elim!: forward_opt_ok intro: connect_ok)
next
  case step_disconnect
  then show ?case by (auto simp: transport_disconnect_def elim!: forward_ok intro: disconnect_ok)
next
  case step_request
  then show ?case by (auto simp: transport_send_connect_request_def elim!: forward_opt_ok intro: send_connect_request_ok)
next
  case step_accept
  then show ?case by (auto simp: transport_accept_connection_def elim!: forward_opt_ok intro: accept_ok)
next
  case step_decline
  then show ?case by (auto simp: transport_decline_connection_def elim!: forward_opt_ok intro: decline_ok)
next
  case step_chat
  then show ?case by (auto simp: transport_send_chat_def split: option.splits elim!: forward_opt_ok intro: send_chat_ok)
next
  case (step_poll E a r ev a')
  then show ?case using poll_ok [of "api_node a" L E] by (auto simp: transport_poll_event_def api_ok_def split: if_splits)
next
  case step_file
  then show ?case by (auto simp: transport_send_file_def elim!: forward_opt_ok intro: send_file_ok)
next
  case (step_crypto E a n)
  then show ?case using crypto_turn_ok [of "api_node a" L E n] by (simp add: api_ok_def)
next
  case step_audio_start
  then show ?case by (auto simp: transport_audio_call_start_def elim!: forward_ok intro: calls_ok)
next
  case step_audio_end
  then show ?case by (auto simp: transport_audio_call_end_def elim!: forward_ok intro: calls_ok)
next
  case step_video_start
  then show ?case by (auto simp: transport_video_call_start_def elim!: forward_ok intro: calls_ok)
next
  case step_video_end
  then show ?case by (auto simp: transport_video_call_end_def elim!: forward_ok intro: calls_ok)
next
  case step_typing
  then show ?case by (auto simp: transport_send_typing_def transport_engine_send_typing_def elim!: forward_ok intro: send_to_peer_ok)
next
  case step_ack
  then show ?case by (auto simp: transport_send_delivery_ack_def transport_engine_send_delivery_ack_def elim!: forward_ok intro: send_to_peer_ok)
next
  case (step_rx k inbox a rest n)
  then show ?case using turns_ok(1) [of k inbox "api_node a"] by (simp add: api_ok_def)
next
  case (step_tx k a gs n)
  then show ?case using turns_ok(2) [of k "api_node a"] by (simp add: api_ok_def)
next
  case (step_scan E bs a r beacon a')
  then show ?case by (auto simp: transport_discovery_scan_def api_ok_def split_beta Let_def split: if_splits)
next
  case (step_monitor a E)
  then show ?case by (simp add: api_ok_def turns_ok)
qed (blast intro: session_settings_ok)+

lemma api_start_ok: "api_start a \<Longrightarrow> api_ok a"
  by (simp add: api_start_def api_ok_def eng_ok_def all_verified_def verified_def session_zero_def)

interpretation api_runs: invariant_system api_start "api_step L" api_ok for L
  by unfold_locales (simp_all add: api_start_ok api_step_ok)

end
