(* ===== verification/Engine_Flow.thy ===== *)
theory Engine_Flow
  imports Engine_Safe
begin

text \<open>
  How packets travel through the engine: a handshake message that \<open>transport_engine_poll\<close> takes from
  a socket advances the handshake of the current session by one step, and a sealed chat message
  becomes an event with its text.
\<close>

section \<open>The pipeline in front of the engine\<close>

lemma rx_world_sess: "eng_session (n_eng n) = Some i \<Longrightarrow> w_sess (rx_world_of k n) = sess_at i n"
  by (simp add: rx_world_of_def)

lemma rx_world_pool [simp]: "w_pool (rx_world_of k n) = n_pool n"
  by (simp add: rx_world_of_def)

text \<open>Without a current session the gate refuses every packet.\<close>

lemma fresh_session_gate: "session_check session_init b v = (-1, v)"
  by (simp add: session_check_def session_init_def session_zero_def)

lemma put_rx_world_eq:
  assumes "eng_session (n_eng n) = Some i"
  shows "put_rx_world k ((rx_world_of k n)\<lparr>w_off := off, w_aa := aa, w_kf := kf, w_sess := s, w_view := v\<rparr>) n =
    upd_sess_at i (\<lambda>_. s) (n\<lparr>n_off := off, n_aa := aa, n_kf := kf\<rparr>)"
  using assms by (simp add: put_rx_world_def rx_world_of_def upd_eng_def upd_sess_at_def sess_at_def)

lemma upd_sess_same [simp]: "upd_sess_at i (\<lambda>_. sess_at i n) n = n"
  by (simp add: upd_sess_at_def sess_at_def)

lemma sess_at_simps [simp]:
  "sess_at i (upd_eng f n) = sess_at i n" "sess_at i (n\<lparr>n_pool := q\<rparr>) = sess_at i n" "sess_at i (give_back p n) = sess_at i n"
  "sess_at i (n\<lparr>n_off := off\<rparr>) = sess_at i n" "sess_at i (n\<lparr>n_aa := aa\<rparr>) = sess_at i n" "sess_at i (n\<lparr>n_kf := kf\<rparr>) = sess_at i n"
  "sess_at i (n\<lparr>n_crypto := c\<rparr>) = sess_at i n" "sess_at i (n\<lparr>n_monitor := m\<rparr>) = sess_at i n" "sess_at i (n\<lparr>n_conns := cs\<rparr>) = sess_at i n"
  "sess_at i (n\<lparr>n_stats := st\<rparr>) = sess_at i n" "sess_at i (push_event ev n) = sess_at i n" "sess_at i (push_event_newest ev n) = sess_at i n"
  by (simp_all add: sess_at_def upd_eng_def give_back_def push_event_def push_event_newest_def)

lemma sess_at_upd [simp]: "i < length (sess_pool (n_sessions n)) \<Longrightarrow> sess_at i (upd_sess_at i f n) = f (sess_at i n)"
  by (simp add: sess_at_def upd_sess_at_def)

lemma pool_upd [simp]: "n_pool (upd_sess_at i f n) = n_pool n" "n_pool (upd_eng g n) = n_pool n"
  by (simp_all add: upd_sess_at_def upd_eng_def)

text \<open>A handshake message that the filters and the gate let through reaches the handler unchanged.\<close>

lemma pre_crypto_handshake:
  assumes v: "packet_parse (pool_mem (w_pool w) p) = Some v" and f: "filters_pass now (pool_mem (w_pool w) p) v w"
    and c: "channel_id v = CH_CONTROL" "sess_state (w_sess w) \<noteq> SESSION_LOCKED"
      "view_opcode (pool_mem (w_pool w) p) v \<in> handshake_opcodes (sess_role (w_sess w)) (sess_state (w_sess w))"
  shows "\<exists>off aa kf. pipeline_inbound_pre_crypto now p w = Some (PIPELINE_OK, w\<lparr>w_off := off, w_aa := aa, w_kf := kf, w_view := v\<rparr>)"
proof -
  let ?b = "pool_mem (w_pool w) p"
  obtain off where o: "offensive_check now ?b v (w_off w) = (0, off)" using f by (metis filters_pass_def prod.exhaust_sel)
  obtain aa where a: "anti_analysis_check now ?b v (w_aa w) = (0, aa)" using f by (metis filters_pass_def prod.exhaust_sel)
  obtain kf where k: "kernel_filter_check ?b (w_kf w) = (0, kf)" using f by (metis filters_pass_def prod.exhaust_sel)
  have "fst (session_check (w_sess w) ?b v) = 0" using session_check_control [OF c(1)] c(3) by blast
  then have "session_check (w_sess w) ?b v = (0, v)" using c(1) by (auto simp: session_check_def Let_def split: if_splits)
  then have "pipeline_inbound_pre_crypto now p w = Some (PIPELINE_OK, w\<lparr>w_off := off, w_aa := aa, w_kf := kf, w_view := v\<rparr>)"
    using v o a k c(2) f by (simp add: pipeline_inbound_pre_crypto_def filters_pass_def resilience_check_def)
  then show ?thesis by blast
qed

section \<open>The handshake in the engine\<close>

text \<open>The runner of the engine's role.\<close>

definition hs_runner :: "crypto_lib \<Rightarrow> env \<Rightarrow> engine \<Rightarrow> packet_buf \<Rightarrow> hs_world \<Rightarrow> buf_ptr option \<times> hs_world" where
  "hs_runner L E g b = (if eng_role_initiator g then handshake_run_as_initiator L (env_seed E) b
     else handshake_run_as_responder L (env_sid E) (env_seed E) b)"

definition hs_world_of :: "nat \<Rightarrow> node \<Rightarrow> hs_world" where
  "hs_world_of i n = \<lparr>hw_sess = sess_at i n, hw_stats = n_stats n, hw_pool = n_pool n, hw_seq = eng_seq_counter (n_eng n)\<rparr>"

definition control_queue :: "node \<Rightarrow> buf_ptr list" where
  "control_queue n = ring_contents (tx_control (eng_tx_queues (n_eng n) ! 0))"

text \<open>Room for one more control packet.\<close>

definition can_answer :: "node \<Rightarrow> bool" where
  "can_answer n \<longleftrightarrow> eng_tx_queues (n_eng n) \<noteq> [] \<and> ring_ok (tx_control (eng_tx_queues (n_eng n) ! 0)) \<and>
     length (control_queue n) < RING_SIZE - 1"

lemma run_handshake_effect:
  assumes "i < length (sess_pool (n_sessions n))" "run (hs_world_of i n) = (resp, w)"
  shows "sess_at i (run_handshake run i n) = hw_sess w" "n_stats (run_handshake run i n) = hw_stats w"
    "eng_session_is_locked (n_eng (run_handshake run i n)) = eng_session_is_locked (n_eng n)"
    "eng_event_ring (n_eng (run_handshake run i n)) = eng_event_ring (n_eng n)"
  using assms unfolding run_handshake_def hs_world_of_def
  by (auto simp: with_ep_def put_ep_def ep_of_def push_control_def upd_sess_at_def sess_at_def upd_eng_def Let_def split: option.split prod.split)

lemma run_handshake_answer:
  assumes "can_answer n" "run (hs_world_of i n) = (resp, w)"
  shows "control_queue (run_handshake run i n) = control_queue n @ (case resp of None \<Rightarrow> [] | Some q \<Rightarrow> [q]) \<and>
    (\<forall>q. resp = Some q \<longrightarrow> pool_mem (n_pool (run_handshake run i n)) q =
      set_dest (take SOCKADDR_IN6_SIZE (eng_peer_addr (n_eng n))) SOCKADDR_IN6_SIZE (pool_mem (hw_pool w) q))"
proof (cases resp)
  case (Some q)
  let ?qs = "eng_tx_queues (n_eng n)"
  obtain r where r: "ring_push (tx_control (?qs ! 0)) q = (0, r)" "ring_contents r = ring_contents (tx_control (?qs ! 0)) @ [q]"
    using spsc.push_accept [of "tx_control (?qs ! 0)"] assms(1) unfolding can_answer_def control_queue_def by meson
  then show ?thesis using assms Some
    by (simp add: run_handshake_def hs_world_of_def with_ep_def put_ep_def ep_of_def push_control_def upd_sess_at_def sess_at_def
        upd_eng_def Let_def control_queue_def can_answer_def buf_update_def)
qed (use assms in \<open>simp add: run_handshake_def hs_world_of_def control_queue_def upd_sess_at_def sess_at_def upd_eng_def\<close>)

text \<open>What a handler leaves behind after a handshake step with result \<open>(resp, w)\<close>.\<close>

definition handshake_done :: "env \<Rightarrow> nat \<Rightarrow> node \<Rightarrow> buf_ptr option \<Rightarrow> hs_world \<Rightarrow> node \<Rightarrow> bool" where
  "handshake_done E i n resp w n' \<longleftrightarrow>
     (let now_locked = sess_state (hw_sess w) = SESSION_LOCKED \<and> \<not> eng_session_is_locked (n_eng n) in
      sess_at i n' = hw_sess w \<and> n_stats n' = hw_stats w \<and>
      (eng_session_is_locked (n_eng n') \<longleftrightarrow> eng_session_is_locked (n_eng n) \<or> sess_state (hw_sess w) = SESSION_LOCKED) \<and>
      eng_event_ring (n_eng n') =
        (if now_locked then snd (ring_push (eng_event_ring (n_eng n)) (locked_event E)) else eng_event_ring (n_eng n)) \<and>
      control_queue n' = control_queue n @ (case resp of None \<Rightarrow> [] | Some q \<Rightarrow> [q]) \<and>
      (\<forall>q. resp = Some q \<longrightarrow> pool_mem (n_pool n') q =
        set_dest (take SOCKADDR_IN6_SIZE (eng_peer_addr (n_eng n))) SOCKADDR_IN6_SIZE (pool_mem (hw_pool w) q)))"

lemma handler_runs_handshake:
  assumes i: "eng_session (n_eng n) = Some i" "i < length (sess_pool (n_sessions n))" "can_answer n"
    and v: "packet_parse (pool_mem (n_pool n) p) = Some v" "channel_id v = CH_CONTROL" "sess_state (sess_at i n) \<noteq> SESSION_LOCKED"
    and run: "hs_runner L E (n_eng n) (pool_mem (n_pool n) p) (hs_world_of i n) = (resp, w)"
  shows "\<exists>n'. handle_packet L E p n = Some n' \<and> handshake_done E i n resp w n'"
proof -
  let ?b = "pool_mem (n_pool n) p"
  define run where "run = hs_runner L E (n_eng n) ?b"
  have ru: "run (hs_world_of i n) = (resp, w)" using run by (simp add: run_def)
  note e = run_handshake_effect [of i n run, OF i(2) ru] run_handshake_answer [of n run, OF i(3) ru]
  have nl: "newly_locked i (give_back p (run_handshake run i n)) \<longleftrightarrow> sess_state (hw_sess w) = SESSION_LOCKED \<and> \<not> eng_session_is_locked (n_eng n)"
    by (simp add: newly_locked_def e)
  have st: "n_stats (upd_eng f m) = n_stats m" "n_stats (give_back q m) = n_stats m" "pool_mem (n_pool (give_back q m)) = pool_mem (n_pool m)" for f m q
    by (simp_all add: upd_eng_def give_back_def)
  note d = e nl st mark_locked_def Let_def push_event_def handshake_done_def control_queue_def
  show ?thesis
  proof (cases "eng_role_initiator (n_eng n)")
    case True
    then have "handle_packet L E p n = Some (let n2 = give_back p (run_handshake run i n)
        in if newly_locked i n2 then push_event (locked_event E) (mark_locked n2) else n2)"
      using i v by (simp add: handle_packet_def engine_control_handler_def run_def hs_runner_def Let_def)
    then show ?thesis using e(5) by (auto simp: d)
  next
    case False
    then have "handle_packet L E p n = Some (let n2 = give_back p (run_handshake run i n)
        in if newly_locked i n2
           then push_event (locked_event E) (upd_eng (\<lambda>g. g\<lparr>eng_route_table := snd (route_table_add RELAY_NODE_RESPONDER
                  (session_id (sess_at i (mark_locked n2)), Some (eng_peer_addr g, of_nat SOCKADDR_IN6_SIZE)) (eng_route_table g))\<rparr>) (mark_locked n2))
           else n2)"
      using i v by (simp add: handle_packet_def engine_responder_handler_def run_def hs_runner_def Let_def)
    then show ?thesis using e(5) by (auto simp: d)
  qed
qed

text \<open>Taking a handshake message from the ring of socket \<open>k\<close>.\<close>

lemma receive_handshake:
  assumes i: "eng_session (n_eng n) = Some i" "i < length (sess_pool (n_sessions n))" "can_answer n"
    and v: "packet_parse (pool_mem (n_pool n) p) = Some v" "channel_id v = CH_CONTROL" "\<not> encrypted v"
    and s: "sess_state (sess_at i n) \<noteq> SESSION_LOCKED"
      "view_opcode (pool_mem (n_pool n) p) v \<in> handshake_opcodes (sess_role (sess_at i n)) (sess_state (sess_at i n))"
    and f: "filters_pass (now_ms E) (pool_mem (n_pool n) p) v (rx_world_of k n)"
    and run: "hs_runner L E (n_eng n) (pool_mem (n_pool n) p) (hs_world_of i n) = (resp, w)"
  shows "\<exists>n'. receive_packet L E k p n = Some n' \<and> handshake_done E i n resp w n'"
proof -
  obtain off aa kf where pre: "pipeline_inbound_pre_crypto (now_ms E) p (rx_world_of k n) =
      Some (PIPELINE_OK, (rx_world_of k n)\<lparr>w_off := off, w_aa := aa, w_kf := kf, w_view := v\<rparr>)"
    using pre_crypto_handshake [of "rx_world_of k n" p v "now_ms E"] v s f rx_world_sess [OF i(1), of k] by auto
  let ?n = "n\<lparr>n_off := off, n_aa := aa, n_kf := kf\<rparr>"
  have put: "put_rx_world k ((rx_world_of k n)\<lparr>w_off := off, w_aa := aa, w_kf := kf, w_view := v\<rparr>) n = ?n"
    using i(1) upd_sess_same [of i ?n] by (simp add: put_rx_world_def rx_world_of_def upd_eng_def)
  have h: "hs_world_of i ?n = hs_world_of i n" "can_answer ?n = can_answer n" "handshake_done E i ?n = handshake_done E i n"
    by (simp_all add: hs_world_of_def can_answer_def control_queue_def handshake_done_def fun_eq_iff)
  have "\<exists>n'. handle_packet L E p ?n = Some n' \<and> handshake_done E i ?n resp w n'"
    by (rule handler_runs_handshake) (use i v s run h in simp_all)
  then show ?thesis using pre put v(3) h(3) by (simp add: receive_packet_def)
qed

section \<open>What the periodic work leaves alone\<close>

definition flow :: "node \<Rightarrow> event spsc_ring \<times> buf_ring list \<times> nat \<times> nat option \<times> bool \<times> bool \<times> bool \<times> int \<times> int \<times> transport_config" where
  "flow n = (let g = n_eng n in (eng_event_ring g, eng_rx_rings g, eng_socket_count g, eng_session g, eng_session_is_locked g,
     eng_audio_call_active g, eng_video_call_active g, eng_cur_file_send_idx g, eng_cur_file_recv_idx g, eng_config g))"

lemma flow_simps [simp]:
  "flow (put_ep i k e n) = flow n" "flow (snd (with_ep i k f n)) = flow n" "flow (upd_sess_at i h n) = flow n" "flow (give_back p n) = flow n"
  "flow (n\<lparr>n_pool := q\<rparr>) = flow n" "flow (n\<lparr>n_off := off\<rparr>) = flow n" "flow (n\<lparr>n_crypto := c\<rparr>) = flow n" "flow (n\<lparr>n_monitor := m\<rparr>) = flow n"
  by (simp_all add: flow_def with_ep_def put_ep_def upd_sess_at_def upd_eng_def give_back_def split_beta Let_def)

lemma flow_ticks:
  "flow (tick_abr E n) = flow n" "flow (tick_liveness E n) = flow n" "flow (tick_offensive n) = flow n" "flow (tick_decoy E n) = flow n"
proof -
  have a: "flow (upd_eng (\<lambda>g. g\<lparr>eng_abr := c\<rparr>) n) = flow n" for c n by (simp add: flow_def upd_eng_def Let_def)
  show "flow (tick_abr E n) = flow n" by (simp add: tick_abr_def a split: option.split prod.split)
  show "flow (tick_liveness E n) = flow n" by (simp add: tick_liveness_def split: option.split)
  show "flow (tick_offensive n) = flow n" by (simp add: tick_offensive_def)
  show "flow (tick_decoy E n) = flow n" by (simp add: tick_decoy_def split: option.split prod.split)
qed

text \<open>No call and no file transfer is under way.\<close>

definition calm :: "node \<Rightarrow> bool" where
  "calm n \<longleftrightarrow> \<not> eng_audio_call_active (n_eng n) \<and> \<not> eng_video_call_active (n_eng n) \<and>
     eng_cur_file_send_idx (n_eng n) < 0 \<and> eng_cur_file_recv_idx (n_eng n) < 0"

lemma calm_flow: "flow n' = flow n \<Longrightarrow> calm n' = calm n"
  by (simp add: flow_def calm_def Let_def)

lemma poll_ticks_calm:
  assumes "calm n"
  shows "\<exists>n'. poll_ticks L E n = Some n' \<and> flow n' = flow n"
proof -
  define n1 where "n1 = upd_eng (\<lambda>g. let t = eng_loop_ticks g + 1 in g\<lparr>eng_loop_ticks := (if t \<ge> 100 then 0 else t)\<rparr>) n"
  define n2 where "n2 = tick_decoy E (tick_offensive (tick_liveness E (tick_abr E n1)))"
  have "flow n1 = flow n" by (simp add: n1_def flow_def upd_eng_def Let_def)
  then have f: "flow n2 = flow n" by (simp add: n2_def flow_ticks)
  then have c: "calm n2" using calm_flow assms by blast
  have "tick_calls L E n2 = Some n2" using c by (auto simp: tick_calls_def calm_def split: option.split)
  moreover have "tick_file_tx L E n2 = Some n2" using c by (simp add: tick_file_tx_def calm_def Let_def)
  moreover have "flow (tick_file_rx E n2) = flow n2"
    using c by (auto simp: tick_file_rx_def store_chunk_def calm_def flow_def upd_eng_def give_back_def Let_def split: prod.split option.split)
  moreover have "poll_ticks L E n = Option.bind (tick_calls L E n2) (\<lambda>n3. Option.bind (tick_file_tx L E n3) (\<lambda>n4. Some (tick_file_rx E n4)))"
    by (simp add: poll_ticks_def n1_def n2_def Let_def)
  ultimately show ?thesis using f by simp
qed

section \<open>A chat message\<close>

lemma ring_next_prev:
  assumes "unat w < 1024"
  shows "(ring_next w - 1) AND 1023 = w"
proof -
  have "w AND 1023 = take_bit 10 w" by (simp add: take_bit_eq_mask mask_eq_exp_minus_1)
  then have "unat (w AND 1023) = unat w mod 1024" by (simp only: unsigned_take_bit_eq) (simp add: take_bit_eq_mod)
  then have w: "w AND 1023 = w" using assms by (simp add: word_unat_eq_iff)
  show ?thesis
  proof (cases "unat w = 1023")
    case True
    then have "w = 1023" by (simp add: word_unat_eq_iff)
    then show ?thesis by (simp add: ring_next_def)
  next
    case False
    then have "unat (ring_next w) = unat (w + 1)" using assms by (simp add: unat_ring_next unat_word_ariths)
    then have "ring_next w = w + 1" by (simp add: word_unat_eq_iff)
    then show ?thesis using w by simp
  qed
qed

lemma newest_slot:
  assumes "ring_ok r" "length (ring_contents r) < RING_SIZE - 1"
  shows "(let r' = snd (ring_push r x) in r'\<lparr>slots := (slots r')[unat ((write_idx r' - 1) AND 1023) := x]\<rparr>) = snd (ring_push r x)"
proof -
  have p: "ring_push r x = (0, r\<lparr>slots := (slots r)[unat (write_idx r) := x], write_idx := ring_next (write_idx r)\<rparr>)"
    using spsc.push_status [OF assms(1), of x] assms(2) by (auto simp: ring_push_def Let_def split: if_splits)
  have "unat (write_idx r) < 1024" using assms(1) by (simp add: ring_ok_def)
  then have "(ring_next (write_idx r) - 1) AND 1023 = write_idx r" by (rule ring_next_prev)
  then show ?thesis using p by (simp add: Let_def)
qed

lemma handle_chat:
  assumes i: "eng_session (n_eng n) = Some i" "sess_state (sess_at i n) = SESSION_LOCKED"
    and ev: "ring_ok (eng_event_ring (n_eng n))" "length (ring_contents (eng_event_ring (n_eng n))) < RING_SIZE - 1"
    and v: "packet_parse (pool_mem (n_pool n) p) = Some v" "channel_id v = CH_CHAT"
  shows "\<exists>n'. handle_packet L E p n = Some n' \<and> 
     flow n' = flow (push_event (chat_event E (n_eng n) (pool_mem (n_pool n) p) v) n)"
proof -
  let ?e = "chat_event E (n_eng n) (pool_mem (n_pool n) p) v"
  have pe: "push_event_newest ?e n = push_event ?e n"
    using newest_slot [OF ev, of ?e] by (simp add: push_event_newest_def push_event_def upd_eng_def Let_def)
  have ack: "flow (snd (transport_engine_send_delivery_ack sq m)) = flow m" for sq m
    by (simp add: transport_engine_send_delivery_ack_def send_to_peer_def split: option.split)
  show ?thesis
    using i v by (simp add: handle_packet_def engine_control_handler_def engine_responder_handler_def pe ack Let_def)
qed

text \<open>Receiving queues a decryption job.\<close>

lemma receive_chat:
  assumes i: "eng_session (n_eng n) = Some i" "i < length (sess_pool (n_sessions n))"
    and v: "packet_parse (pool_mem (n_pool n) p) = Some v" "encrypted v" "flags v AND PACKET_FLAG_FEC_PARITY = 0"
      "filters_pass (now_ms E) (pool_mem (n_pool n) p) v (rx_world_of k n)"
    and s: "fst (session_check (sess_at i n) (pool_mem (n_pool n) p) v) = 0" "fec_quiet (sess_at i n)"
    and c: "ring_ok (cw_jobs (n_crypto n))" "length (ring_contents (cw_jobs (n_crypto n))) < RING_SIZE - 1"
  shows "\<exists>n' r. receive_packet L E k p n = Some n' \<and> flow n' = flow n \<and> n_pool n' = n_pool n \<and>
    sess_at i n' = (sess_at i n)\<lparr>resilience := r\<rparr> \<and> length (sess_pool (n_sessions n')) = length (sess_pool (n_sessions n)) \<and>
    cw_results (n_crypto n') = cw_results (n_crypto n) \<and> ring_ok (cw_jobs (n_crypto n')) \<and>
    ring_contents (cw_jobs (n_crypto n')) =
      ring_contents (cw_jobs (n_crypto n)) @ [\<lparr>job_type = CRYPTO_JOB_DECRYPT, job_p = p, job_sess = i\<rparr>]"
proof -
  let ?w = "rx_world_of k n" and ?j = "\<lparr>job_type = CRYPTO_JOB_DECRYPT, job_p = p, job_sess = i\<rparr>"
  have ws: "w_sess ?w = sess_at i n" by (rule rx_world_sess [OF i(1)])
  obtain v' where g: "session_check (w_sess ?w) (pool_mem (w_pool ?w) p) v = (0, v')" using s(1) ws by (metis prod.exhaust_sel rx_world_pool)
  have ve: "encrypted v'" using session_check_view [OF g] v(2)
    by (metis packet_view.select_convs(11) packet_view.surjective packet_view.update_convs(12))
  obtain off aa kf r where pre: "pipeline_inbound_pre_crypto (now_ms E) p ?w = Some (PIPELINE_OK,
      ?w\<lparr>w_off := off, w_aa := aa, w_kf := kf, w_sess := (w_sess ?w)\<lparr>resilience := r\<rparr>, w_view := v'\<rparr>)"
    using pre_crypto_pass [OF _ _ g, of "now_ms E"] v(1,3,4) s(2) ws by auto
  let ?n1 = "upd_sess_at i (\<lambda>_. (sess_at i n)\<lparr>resilience := r\<rparr>) (n\<lparr>n_off := off, n_aa := aa, n_kf := kf\<rparr>)"
  have put: "put_rx_world k (?w\<lparr>w_off := off, w_aa := aa, w_kf := kf, w_sess := (w_sess ?w)\<lparr>resilience := r\<rparr>, w_view := v'\<rparr>) n = ?n1"
    using put_rx_world_eq [OF i(1)] ws by simp
  obtain jr where jr: "ring_push (cw_jobs (n_crypto n)) ?j = (0, jr)" "ring_contents jr = ring_contents (cw_jobs (n_crypto n)) @ [?j]" "ring_ok jr"
    using spsc.push_accept [OF c] by blast
  have "receive_packet L E k p n = Some (?n1\<lparr>n_crypto := (n_crypto n)\<lparr>cw_jobs := jr\<rparr>\<rparr>)"
    using pre put ve i(1) jr(1)
    by (simp add: receive_packet_def queue_decrypt_def crypto_worker_push_def upd_sess_at_def)
  moreover have "flow (n\<lparr>n_off := off, n_aa := aa, n_kf := kf\<rparr>) = flow n" by (simp add: flow_def)
  ultimately show ?thesis using jr i(2) by (intro exI [of _ "?n1\<lparr>n_crypto := (n_crypto n)\<lparr>cw_jobs := jr\<rparr>\<rparr>"] exI [of _ r]) (simp_all, simp add: upd_sess_at_def)
qed

lemma crypto_turn_decrypts:
  assumes j: "ring_ok (cw_jobs (n_crypto n))" "ring_contents (cw_jobs (n_crypto n)) = [\<lparr>job_type = CRYPTO_JOB_DECRYPT, job_p = p, job_sess = i\<rparr>]"
    and r: "ring_ok (cw_results (n_crypto n))" "ring_contents (cw_results (n_crypto n)) = []"
    and v: "packet_parse (pool_mem (n_pool n) p) = Some v" "encrypted v"
      "session_enc_check L (pool_mem (n_pool n) p) v (sess_at i n) = (0, b, v', sess_at i n)"
  shows "\<exists>n' c. crypto_turn L E n = Some n' \<and> flow n' = flow n \<and> pool_mem (n_pool n') p = b \<and> n_sessions n' = n_sessions n \<and>
    crypto_worker_pop_result (n_crypto n') = (Some p, c)"
proof -
  let ?j = "\<lparr>job_type = CRYPTO_JOB_DECRYPT, job_p = p, job_sess = i\<rparr>" and ?c = "n_crypto n"
  obtain jr where jr: "ring_pop (cw_jobs ?c) = (Some ?j, jr)" using spsc.pop_item [OF j] by blast
  obtain rr where rr: "ring_push (cw_results ?c) p = (0, rr)" "ring_contents rr = [p]" "ring_ok rr"
    using spsc.push_accept [OF r(1), of p] r(2) by auto
  obtain r2 where r2: "ring_pop rr = (Some p, r2)" using spsc.pop_item [OF rr(3,2)] by blast
  let ?n = "n\<lparr>n_crypto := ?c\<lparr>cw_jobs := jr, cw_results := rr\<rparr>, n_pool := buf_update p (\<lambda>_. b) (n_pool n),
    n_monitor := monitor_mark_alive (env_clock_ms E) ''crypto'' (n_monitor n)\<rparr>"
  have "crypto_turn L E n = Some ?n"
    using jr rr(1) v by (simp add: crypto_turn_def crypto_loop_def run_job_def push_result_def sess_at_def)
  then show ?thesis using r2 by (simp add: crypto_worker_pop_result_def buf_update_def)
qed

text \<open>The only thing the engine has pending is the packet \<open>p\<close> that waits at socket \<open>k\<close>.\<close>

definition only_packet :: "nat \<Rightarrow> buf_ptr \<Rightarrow> node \<Rightarrow> bool" where
  "only_packet k p n \<longleftrightarrow>
     (let g = n_eng n; c = n_crypto n in
      ring_ok (eng_event_ring g) \<and> ring_contents (eng_event_ring g) = [] \<and> ring_ok (cw_jobs c) \<and> ring_contents (cw_jobs c) = [] \<and>
      ring_ok (cw_results c) \<and> ring_contents (cw_results c) = [] \<and> ready_socket g = Some k \<and> fst (ring_pop (eng_rx_rings g ! k)) = Some p \<and>
      ready_socket (g\<lparr>eng_rx_rings := (eng_rx_rings g)[k := snd (ring_pop (eng_rx_rings g ! k))]\<rparr>) = None)"

lemma ready_flow: "flow n' = flow n \<Longrightarrow> ready_socket (n_eng n') = ready_socket (n_eng n)"
  by (simp add: flow_def ready_socket_def Let_def)

lemma flow_event: "flow n' = flow (push_event ev n) \<Longrightarrow>
  eng_event_ring (n_eng n') = snd (ring_push (eng_event_ring (n_eng n)) ev) \<and> ready_socket (n_eng n') = ready_socket (n_eng n) \<and> calm n' = calm n"
  by (simp add: flow_def ready_socket_def calm_def push_event_def upd_eng_def Let_def)

lemma poll_first:
  assumes "only_packet k p n"
  shows "\<exists>m. transport_engine_poll L E n = map_option (\<lambda>n'. (1, None, n')) (receive_packet L E k p m) \<and>
    flow m = flow (upd_eng (\<lambda>g. g\<lparr>eng_rx_rings := (eng_rx_rings g)[k := snd (ring_pop (eng_rx_rings g ! k))]\<rparr>) n) \<and> n_pool m = n_pool n \<and>
    n_sessions m = n_sessions n \<and> n_crypto m = n_crypto n \<and> rx_world_of k m = rx_world_of k n"
proof -
  let ?m = "upd_eng (\<lambda>g. g\<lparr>eng_rx_rings := (eng_rx_rings g)[k := snd (ring_pop (eng_rx_rings g ! k))]\<rparr>)
    (n\<lparr>n_monitor := monitor_mark_alive (env_clock_ms E) ''rx-worker'' (n_monitor n)\<rparr>)"
  have e: "ring_pop (eng_event_ring (n_eng n)) = (None, eng_event_ring (n_eng n))"
    using spsc.pop_empty [of "eng_event_ring (n_eng n)"] assms by (simp add: only_packet_def Let_def)
  have c: "crypto_worker_pop_result (n_crypto n) = (None, n_crypto n)"
    using spsc.pop_empty [of "cw_results (n_crypto n)"] assms by (simp add: crypto_worker_pop_result_def only_packet_def Let_def)
  have "transport_engine_poll L E n = map_option (\<lambda>n'. (1, None, n')) (receive_packet L E k p ?m)"
    using e c assms by (simp add: transport_engine_poll_def only_packet_def split_beta Let_def upd_eng_def)
  moreover have "flow ?m = flow (upd_eng (\<lambda>g. g\<lparr>eng_rx_rings := (eng_rx_rings g)[k := snd (ring_pop (eng_rx_rings g ! k))]\<rparr>) n)"
    "n_pool ?m = n_pool n" "n_sessions ?m = n_sessions n" "n_crypto ?m = n_crypto n" "rx_world_of k ?m = rx_world_of k n"
    by (simp_all add: flow_def upd_eng_def rx_world_of_def sess_at_def split: option.split)
  ultimately show ?thesis by blast
qed

text \<open>The second call finds the decrypted packet, the third returns the event.\<close>

lemma poll_handles:
  assumes e: "ring_ok (eng_event_ring (n_eng n))" "ring_contents (eng_event_ring (n_eng n)) = []" "calm n" "ready_socket (n_eng n) = None"
    and c: "crypto_worker_pop_result (n_crypto n) = (Some p, c)"
    and i: "eng_session (n_eng n) = Some i" "sess_state (sess_at i n) = SESSION_LOCKED"
    and v: "packet_parse (pool_mem (n_pool n) p) = Some v" "channel_id v = CH_CHAT"
  shows "\<exists>n' n''. transport_engine_poll L E n = Some (0, None, n') \<and>
    transport_engine_poll L E' n' = Some (1, Some (chat_event E (n_eng n) (pool_mem (n_pool n) p) v), n'')"
proof -
  let ?n = "n\<lparr>n_monitor := monitor_mark_alive (env_clock_ms E) ''rx-worker'' (n_monitor n), n_crypto := c\<rparr>"
  let ?ev = "chat_event E (n_eng n) (pool_mem (n_pool n) p) v"
  obtain m where m: "handle_packet L E p ?n = Some m" "flow m = flow (push_event ?ev ?n)"
    using handle_chat [of ?n i p v L E] e i v by auto
  have f: "eng_event_ring (n_eng m) = snd (ring_push (eng_event_ring (n_eng n)) ?ev)" "ready_socket (n_eng m) = None" "calm m"
    using flow_event [OF m(2)] e(3,4) by (simp_all add: calm_def)
  obtain n' where n': "poll_ticks L E m = Some n'" "flow n' = flow m" using poll_ticks_calm [OF f(3)] by blast
  have "ring_pop (eng_event_ring (n_eng n)) = (None, eng_event_ring (n_eng n))" by (rule spsc.pop_empty [OF e(1,2)])
  then have p1: "transport_engine_poll L E n = Some (0, None, n')"
    using c m(1) f(2) n'(1) by (simp add: transport_engine_poll_def Let_def)
  have "eng_event_ring (n_eng n') = eng_event_ring (n_eng m)" using n'(2) by (simp add: flow_def Let_def)
  moreover obtain q where q: "ring_push (eng_event_ring (n_eng n)) ?ev = (0, q)" "ring_contents q = [?ev]" "ring_ok q"
    using spsc.push_accept [OF e(1), of ?ev] e(2) by auto
  ultimately have "eng_event_ring (n_eng n') = q" using f(1) by simp
  then obtain r where "ring_pop (eng_event_ring (n_eng n')) = (Some ?ev, r)" using spsc.pop_item [OF q(3,2)] by blast
  then have "\<exists>n''. transport_engine_poll L E' n' = Some (1, Some ?ev, n'')" by (simp add: transport_engine_poll_def)
  then show ?thesis using p1 by blast
qed

section \<open>Sealed chat messages\<close>

text \<open>
  Buffer \<open>b\<close> is a packet with session id \<open>sid\<close> and sequence number \<open>sq\<close> that holds the text \<open>msg\<close> and its
  terminating zero byte for every locked session with the keys \<open>K\<close>.
\<close>

definition sealed_chat :: "crypto_lib \<Rightarrow> session_keys \<Rightarrow> u64 \<Rightarrow> u32 \<Rightarrow> bytes \<Rightarrow> packet_buf \<Rightarrow> bool" where
  "sealed_chat L K sid sq msg b \<longleftrightarrow>
     (\<exists>v. packet_parse b = Some v \<and> encrypted v \<and> flags v = PACKET_FLAG_ENCRYPTED \<and> magic v = PROTO_MAGIC \<and> version v = PROTO_VERSION \<and>
        view_session_id v = sid \<and> channel_id v = CH_CHAT \<and> seq v = sq \<and> plength v = length msg + 1 \<and>
        (\<forall>r. sess_state r = SESSION_LOCKED \<and> keys r = K \<longrightarrow>
           (\<exists>b'' v''. session_enc_check L b v r = (0, b'', v'', r) \<and> packet_parse b'' = Some v \<and> view_payload b'' v = msg @ [0])))"

text \<open>Only the bytes count, so that it holds of the datagram at the other side too.\<close>

lemma sealed_chat_cong:
  assumes "sealed_chat L K sid sq msg b" "data c = data b" "len c = len b"
  shows "sealed_chat L K sid sq msg c"
proof -
  have p: "packet_parse x = packet_parse y" if "data x = data y" "len x = len y" for x y by (rule packet_parse_cong [OF that])
  have e: "\<exists>c''. session_enc_check L c v r = (0, c'', v'', r) \<and> data c'' = data b'' \<and> len c'' = len b''"
    if "session_enc_check L b v r = (0, b'', v'', r)" for v r b'' v''
    using that assms(2,3) by (auto simp: session_enc_check_def view_payload_def Let_def split: if_splits prod.splits)
  have "\<exists>c'' v''. session_enc_check L c v r = (0, c'', v'', r) \<and> packet_parse c'' = Some v \<and> view_payload c'' v = msg @ [0]"
    if "session_enc_check L b v r = (0, b'', v'', r)" "packet_parse b'' = Some v" "view_payload b'' v = msg @ [0]" for v r b'' v''
    using e [OF that(1)] that(2,3) p by (metis view_payload_def)
  then show ?thesis using assms(1) p [OF assms(2,3)] unfolding sealed_chat_def by metis
qed

lemma sealed_chat_len: "sealed_chat L K sid sq msg b \<Longrightarrow> len b = length msg + 53"
  by (auto simp: sealed_chat_def packet_parse_def Let_def split: if_splits)

lemma enc_chat_sealed:
  assumes L: "crypto_lib_ok L" and s: "session_ok s" "sess_state s = SESSION_LOCKED" and b: "buf_ok b" and m: "length msg \<le> 1447"
  shows "\<exists>v b'. packet_parse (chan_packet sid CH_CHAT (msg @ [0]) sq b) = Some v \<and> channel_id v = CH_CHAT \<and>
    session_enc_apply L (chan_packet sid CH_CHAT (msg @ [0]) sq b) v s = Some (0, b') \<and> sealed_chat L (keys s) sid sq msg b'"
proof -
  let ?b = "chan_packet sid CH_CHAT (msg @ [0]) sq b"
  have l: "length (msg @ [0 :: u8]) \<le> 1448" using m by simp
  obtain v where ok: "buf_ok ?b" and v: "packet_parse ?b = Some v" "channel_id v = CH_CHAT" "plength v = length (msg @ [0 :: u8])" "\<not> encrypted v"
    using chan_packet_parse [OF b, of "msg @ [0]" sid CH_CHAT sq] l by auto
  obtain b' where b': "session_enc_apply L ?b v s = Some (0, b')"
    using session_enc_apply_packet [OF L s ok v(1,4)] v(2,3) l by auto
  then have "seal L s ?b = Some b'" using v(1) by (simp add: seal_def)
  then have "sealed_chat L (keys s) sid sq msg b'"
    using seal_data [OF L s b _ l, of CH_CHAT sid sq] unfolding sealed_chat_def by auto
  then show ?thesis using v(1,2) b' by blast
qed

definition chat_queue :: "node \<Rightarrow> buf_ptr list" where
  "chat_queue n = ring_contents (tx_chat (eng_tx_queues (n_eng n) ! 0))"

text \<open>Error correction is off, or in the middle of a group that fits its arrays.\<close>

definition fec_tx_ready :: "resilience \<Rightarrow> bool" where
  "fec_tx_ready r \<longleftrightarrow> resilience_ok r \<and> fec_group_size r \<le> RESILIENCE_FEC_GROUP \<and> fec_group_pos r < RESILIENCE_FEC_GROUP \<and>
     fec_parity_len r \<le> FEC_MAX_PAYLOAD"

lemma fec_accumulates:
  assumes "fec_tx_ready r" "length pl \<le> FEC_MAX_PAYLOAD"
  shows "\<exists>st par r'. fec_tx_accumulate r pl sq ch = Some (st, par, r') \<and> length par \<le> 1406"
  using assms by (auto simp: fec_tx_accumulate_def fec_tx_ready_def resilience_ok_def fec_clear_lens_def fec_store_slot_def Let_def)

text \<open>The parity packet goes to a buffer of its own and to the control queue.\<close>

lemma fec_tx_frame:
  assumes r: "fec_tx_ready (resilience (ep_sess e))" and q: "pool_ok (ep_pool e)" "p \<notin> set (free_bufs (ep_pool e))"
    and l: "len (pool_mem (ep_pool e) p) \<le> 1424"
  shows "\<exists>e'. fec_tx_after_encrypt p a e = Some e' \<and> pool_mem (ep_pool e') p = pool_mem (ep_pool e) p \<and>
    tx_chat (ep_txq e') = tx_chat (ep_txq e) \<and> ep_seq e' = ep_seq e"
proof (cases "fec_enabled (resilience (ep_sess e))")
  case True
  let ?b = "pool_mem (ep_pool e) p"
  let ?pl = "mem_read 24 (if len ?b > 24 then len ?b - 24 else 0) (data ?b)"
  have pl: "length ?pl \<le> FEC_MAX_PAYLOAD" using l by (auto simp: mem_read_def min_def)
  obtain st par r' where f: "fec_tx_accumulate (resilience (ep_sess e)) ?pl (le_word (mem_read 15 4 (data ?b))) (data ?b ! 14) = Some (st, par, r')"
    "length par \<le> 1406"
    using fec_accumulates [OF r pl] by blast
  let ?e1 = "e\<lparr>ep_sess := (ep_sess e)\<lparr>resilience := r'\<rparr>\<rparr>"
  show ?thesis
  proof (cases "st \<noteq> 0 \<and> length par > 0")
    case complete: True
    obtain x q' where g: "pool_get (ep_pool e) = (x, q')" by fastforce
    have m: "pool_mem q' = pool_mem (ep_pool e)" using pool_get_mem [of "ep_pool e"] g by simp
    show ?thesis
    proof (cases x)
      case None
      then have "fec_tx_after_encrypt p a e = Some (?e1\<lparr>ep_pool := q'\<rparr>)"
        using True f(1) complete g unfolding fec_tx_after_encrypt_def Let_def by simp
      then show ?thesis using m by simp
    next
      case (Some y)
      then have gy: "pool_get (ep_pool e) = (Some y, q')" using g by simp
      have y: "y \<noteq> p" using packet_pool.get_SomeD [OF q(1) gy] q(2) by auto
      have "fec_tx_after_encrypt p a e = Some (push_control y (?e1\<lparr>ep_pool := buf_update y (\<lambda>x.
          set_dest (take SOCKADDR_IN6_SIZE a) SOCKADDR_IN6_SIZE (write_packet PACKET_FLAG_FEC_PARITY (le_word (mem_read 6 8 (data ?b))) (data ?b ! 14)
            (le_word (mem_read 15 4 (data ?b))) par x)) q'\<rparr>))"
        using True f complete g Some unfolding fec_tx_after_encrypt_def Let_def by simp
      then show ?thesis using m y by (auto simp: push_control_def buf_update_def split: prod.split)
    qed
  next
    case False
    then have "fec_tx_after_encrypt p a e = Some ?e1" using True f(1) unfolding fec_tx_after_encrypt_def Let_def by auto
    then show ?thesis by simp
  qed
qed (simp add: fec_tx_after_encrypt_def)

text \<open>A node that can send a chat message over one path.\<close>

definition can_chat :: "nat \<Rightarrow> node \<Rightarrow> bool" where
  "can_chat j n \<longleftrightarrow>
     (let g = n_eng n; s = sess_at j n in
      eng_session g = Some j \<and> j < length (sess_pool (n_sessions n)) \<and> eng_session_is_locked g \<and> \<not> tc_multipath_enabled (eng_config g) \<and>
      session_ok s \<and> sess_state s = SESSION_LOCKED \<and> fec_tx_ready (resilience s) \<and>
      length (eng_peer_addr g) = SOCKADDR_IN6_SIZE \<and> eng_tx_queues g \<noteq> [] \<and> ring_ok (tx_chat (eng_tx_queues g ! 0)) \<and> length (chat_queue n) < RING_SIZE - 1 \<and>
      pool_ok (n_pool n) \<and> free_bufs (n_pool n) \<noteq> [] \<and> (\<forall>p. buf_ok (pool_mem (n_pool n) p)))"

text \<open>A session that was never initialised for a handshake takes no packet.\<close>

definition roleless :: "session \<Rightarrow> bool" where
  "roleless s \<longleftrightarrow> sess_state s = SESSION_IDLE \<and> sess_role s = ROLE_UNASSIGNED"

lemma roleless_simps [simp]:
  "roleless (session_reset s)" "roleless (setup_paths g a port s) = roleless s" "roleless (s\<lparr>local_port := p\<rparr>) = roleless s"
  by (simp_all add: roleless_def session_reset_def session_zero_def setup_paths_def session_register_path_def Let_def)

lemma roleless_gate: "roleless s \<Longrightarrow> fst (session_check s b v) = -1"
  by (simp add: roleless_def session_check_def)

section \<open>Sample nodes\<close>

definition config_plain :: transport_config where
  "config_plain = \<lparr>tc_local_port = 5000, tc_local_port_alt = 5002, tc_discovery_port = 5005, tc_discovery_enabled = False,
     tc_fec_enabled = False, tc_fec_group_size = 4, tc_multipath_enabled = False, tc_path_count = 1\<rparr>"

definition env_sample :: env where
  "env_sample = \<lparr>env_time = 0, env_clock_ms = 0, env_seed = 3, env_sid = 9, env_noise = replicate 16 1, env_identity_key = None, env_home = None,
     env_pton6 = (\<lambda>_. Some (replicate 16 0)), env_pton4 = (\<lambda>_. None), env_ntop6 = (\<lambda>_. ''::1''), env_malloc = (\<lambda>_. buf_sample),
     env_bind = (\<lambda>_. True), env_thread = (\<lambda>_. True), env_broadcast = True,
     env_opus = \<lparr>opus_encoder_create = None, opus_decoder_create = None, opus_encode = (\<lambda>s _ _. (None, s)), opus_decode = (\<lambda>s _. (None, s))\<rparr>,
     env_popen = (\<lambda>_. None)\<rparr>"

text \<open>One session \<open>s\<close>, packet \<open>b\<close> in every buffer, and buffer 3 waiting at the first socket.\<close>

definition node_sample :: "session \<Rightarrow> packet_buf \<Rightarrow> node" where
  "node_sample s b =
     \<lparr>n_eng = (engine_zero config_plain)\<lparr>eng_initialized := True, eng_socket_count := 1, eng_session := Some 0,
        eng_session_is_locked := (sess_state s = SESSION_LOCKED), eng_role_initiator := True,
        eng_rx_rings := [\<lparr>slots = replicate 1024 3, write_idx = 1, read_idx = 0\<rparr>], eng_cur_file_send_idx := -1, eng_cur_file_recv_idx := -1\<rparr>,
      n_pool = \<lparr>pool_mem = (\<lambda>_. b), free_stack = replicate 4096 7, top = 1\<rparr>,
      n_sessions = \<lparr>sess_pool = replicate 32 s, entries = [], session_count = 1\<rparr>,
      n_off = offensive_init, n_aa = anti_analysis_init, n_kf = kernel_filter_init, n_requests = conn_requests_zero,
      n_conns = connection_manager_init,
      n_crypto = \<lparr>cw_jobs = \<lparr>slots = replicate 1024 \<lparr>job_type = CRYPTO_JOB_DECRYPT, job_p = 0, job_sess = 0\<rparr>, write_idx = 0, read_idx = 0\<rparr>,
        cw_results = empty_ring, cw_running = True\<rparr>,
      n_monitor = monitor_zero, n_stats = stats_zero, n_fs = fs_sample,
      n_disc = \<lparr>disc_initialized = False, disc_running = False, disc_transport_port = 0, disc_port = 0, disc_username = [], disc_broadcast_ok = False\<rparr>,
      n_store = \<lparr>identity_key = [], key_initialized = False\<rparr>, n_alt_addr = replicate SOCKADDR_IN6_SIZE 0\<rparr>"

lemma node_sample_simps [simp]:
  "eng_session (n_eng (node_sample s b)) = Some 0" "sess_at 0 (node_sample s b) = s" "length (sess_pool (n_sessions (node_sample s b))) = 32"
  "pool_mem (n_pool (node_sample s b)) = (\<lambda>_. b)"
  by (simp_all add: node_sample_def sess_at_def)

lemma node_sample_rings: "only_packet 0 3 (node_sample s b)" "calm (node_sample s b)" "can_answer (node_sample s b)" "chat_queue (node_sample s b) = []"
proof -
  show "only_packet 0 3 (node_sample s b)"
    by (simp add: only_packet_def node_sample_def engine_zero_def ring_ok_def ring_contents_def ring_count_def empty_ring_def ready_socket_def
        ring_pop_def ring_next_def)
  show "calm (node_sample s b)" by (simp add: calm_def node_sample_def engine_zero_def)
  show "can_answer (node_sample s b)"
    by (simp add: can_answer_def control_queue_def node_sample_def engine_zero_def tx_queues_zero_def buf_ring_zero_def ring_ok_def ring_contents_def ring_count_def)
  show "chat_queue (node_sample s b) = []"
    by (simp add: chat_queue_def node_sample_def engine_zero_def tx_queues_zero_def buf_ring_zero_def ring_contents_def ring_count_def)
qed

lemma node_sample_passes:
  assumes "addr b = addr buf_sample" "addr_len b = 28" "packet_parse b = Some v" "static_check v = 0" "view_session_id v \<noteq> 0"
    and "flags v = 0 \<or> flags v = PACKET_FLAG_ENCRYPTED" "channel_id v = CH_CHAT \<or> channel_id v = CH_CONTROL"
  shows "filters_pass 0 b v (rx_world_of k (node_sample s b))"
proof -
  have st: "magic v = PROTO_MAGIC" "version v = 1" "seq v \<noteq> 0" using assms(4) by (auto simp: static_check_spec)
  have ps: "packet_source b = Some (sin6_addr (addr buf_sample), ntohs (sin6_port (addr buf_sample)))"
    using assms(1,2) by (simp add: packet_source_def)
  have "24 \<le> len b" "len b \<le> MAX_PACKET_SIZE" using assms(3) by (auto simp: packet_parse_def Let_def split: if_splits)
  moreover have "\<not> aa_is_bad v" "off_trusted v" using st assms(5-7) by (auto simp: aa_is_bad_def off_trusted_def)
  ultimately show ?thesis
    using assms st ps
    by (simp add: filters_pass_def offensive_check_trusted rx_world_of_def node_sample_def anti_analysis_check_def
        aa_find_or_create_def anti_analysis_init_def aa_score_def aa_new_def kernel_filter_check_spec kernel_filter_init_def Let_def)
qed

definition accept_sample :: packet_buf where
  "accept_sample = write_packet 0 9 CH_CONTROL 4 (CTRL_ACCEPT # le_bytes 8 (9 :: u64)) buf_sample"

lemma accept_sample_view:
  "\<exists>v. packet_parse accept_sample = Some v \<and> channel_id v = CH_CONTROL \<and> \<not> encrypted v \<and> static_check v = 0 \<and> view_session_id v = 9 \<and>
     flags v = 0 \<and> view_opcode accept_sample v = CTRL_ACCEPT"
proof -
  let ?pl = "CTRL_ACCEPT # le_bytes 8 (9 :: u64)"
  obtain v where v: "packet_parse accept_sample = Some v" "magic v = PROTO_MAGIC" "version v = PROTO_VERSION" "flags v = 0" "view_session_id v = 9"
    "channel_id v = CH_CONTROL" "seq v = 4" "plength v = length ?pl" "\<not> encrypted v" "view_payload accept_sample v = ?pl" "payload v = 24"
    using packet_parse_write [OF buf_sample_ok, of 0 ?pl 9 CH_CONTROL 4] by (auto simp: accept_sample_def)
  have "length (data accept_sample) = 1500" using write_packet_ok [OF buf_sample_ok, of ?pl 0 9 CH_CONTROL 4] by (simp add: accept_sample_def buf_ok_def)
  then have "view_opcode accept_sample v = view_payload accept_sample v ! 0"
    using v(8,11) by (simp add: view_opcode_def view_payload_def mem_read_def)
  then show ?thesis using v by (auto simp: static_check_spec)
qed

definition peer_session :: session where
  "peer_session = enc_session_sample\<lparr>sess_addr_len := 28\<rparr>"

text \<open>The state before \<open>transport_init\<close>.\<close>

definition start_sample :: api where
  "start_sample = \<lparr>api_node = (node_sample session_zero buf_sample)\<lparr>n_eng := engine_zero config_plain,
     n_sessions := \<lparr>sess_pool = replicate MAX_SESSION_ENTRIES session_zero, entries = [], session_count = 0\<rparr>\<rparr>, api_initialized = False\<rparr>"

section \<open>Properties\<close>

text \<open>
  C6: In every state that the program can reach, by calls of the application in any order, with any
  datagrams from the network and any interleaving with the worker threads, every session of the
  session pool that is locked has a peer that proved its identity.
\<close>

theorem engine_locked_verified:
  assumes "reach api_start (api_step L) a" "i < MAX_SESSION_ENTRIES"
  shows "sess_state (sess_at i (api_node a)) = SESSION_LOCKED \<longrightarrow> identity_verified (hs (sess_at i (api_node a)))"
proof -
  have "eng_ok (api_node a)" using api_runs.reach_inv [OF assms(1)] by (simp add: api_ok_def)
  then have "verified (sess_at i (api_node a))" using assms(2) by (simp add: eng_ok_def all_verified_def sess_at_def)
  then show ?thesis by (simp add: verified_def)
qed

theorem engine_locked_verified_witness:
  "let a = snd (transport_init env_sample (Some config_plain) start_sample);
       b = a\<lparr>api_node := snd (rx_turn 0 [(data accept_sample, addr buf_sample)] (api_node a))\<rparr>
   in reach api_start (api_step sample_lib) b \<and>
      (sess_state (sess_at 0 (api_node b)) = SESSION_LOCKED \<longrightarrow> identity_verified (hs (sess_at 0 (api_node b))))"
proof -
  have "api_start start_sample" by (simp add: api_start_def start_sample_def node_sample_def engine_zero_def)
  then have r0: "reach api_start (api_step sample_lib) start_sample" by (rule reach_start)
  let ?a = "snd (transport_init env_sample (Some config_plain) start_sample)"
  have "api_step sample_lib start_sample ?a" by (rule step_init) (rule surjective_pairing)
  then have r1: "reach api_start (api_step sample_lib) ?a" by (rule reach_step [OF r0])
  let ?b = "?a\<lparr>api_node := snd (rx_turn 0 [(data accept_sample, addr buf_sample)] (api_node ?a))\<rparr>"
  have "api_step sample_lib ?a ?b" by (rule step_rx) (rule surjective_pairing)
  then have "reach api_start (api_step sample_lib) ?b" by (rule reach_step [OF r1])
  then show ?thesis using engine_locked_verified [of sample_lib ?b 0] by (simp add: Let_def)
qed


text \<open>
  C8: The event loop runs the handshake: when nothing else is pending and the first waiting packet
  is a control message that the filters pass and that fits the role and the state of the current
  session, one call of \<open>transport_engine_poll\<close> does exactly one step of \<open>handshake.c\<close> for the
  engine's role: session and statistics are those of the handshake step, an answer waits in
  the control queue, addressed to the peer, and when the step locks the session the engine notes it
  and the application gets one event that says so.
\<close>

theorem poll_advances_handshake:
  assumes i: "eng_session (n_eng n) = Some i" "i < length (sess_pool (n_sessions n))" "can_answer n"
    and ev: "ring_ok (eng_event_ring (n_eng n))" "ring_contents (eng_event_ring (n_eng n)) = []"
    and cr: "ring_ok (cw_results (n_crypto n))" "ring_contents (cw_results (n_crypto n)) = []"
    and rx: "ready_socket (n_eng n) = Some k" "ring_pop (eng_rx_rings (n_eng n) ! k) = (Some p, r)"
    and v: "packet_parse (pool_mem (n_pool n) p) = Some v" "channel_id v = CH_CONTROL" "\<not> encrypted v"
      "filters_pass (now_ms E) (pool_mem (n_pool n) p) v (rx_world_of k n)"
    and s: "sess_state (sess_at i n) \<noteq> SESSION_LOCKED"
      "view_opcode (pool_mem (n_pool n) p) v \<in> handshake_opcodes (sess_role (sess_at i n)) (sess_state (sess_at i n))"
    and run: "hs_runner L E (n_eng n) (pool_mem (n_pool n) p) (hs_world_of i n) = (resp, w)"
  shows "\<exists>n'. transport_engine_poll L E n = Some (1, None, n') \<and> sess_at i n' = hw_sess w \<and> n_stats n' = hw_stats w \<and>
    (eng_session_is_locked (n_eng n') \<longleftrightarrow> eng_session_is_locked (n_eng n) \<or> sess_state (hw_sess w) = SESSION_LOCKED) \<and>
    ring_contents (eng_event_ring (n_eng n')) =
      (if sess_state (hw_sess w) = SESSION_LOCKED \<and> \<not> eng_session_is_locked (n_eng n) then [locked_event E] else []) \<and>
    control_queue n' = control_queue n @ (case resp of None \<Rightarrow> [] | Some q \<Rightarrow> [q]) \<and>
    (\<forall>q. resp = Some q \<longrightarrow> pool_mem (n_pool n') q =
      set_dest (take SOCKADDR_IN6_SIZE (eng_peer_addr (n_eng n))) SOCKADDR_IN6_SIZE (pool_mem (hw_pool w) q))"
proof -
  let ?n = "upd_eng (\<lambda>g. g\<lparr>eng_rx_rings := (eng_rx_rings g)[k := r]\<rparr>)
    (n\<lparr>n_monitor := monitor_mark_alive (env_clock_ms E) ''rx-worker'' (n_monitor n)\<rparr>)"
  have h: "hs_world_of i ?n = hs_world_of i n" "can_answer ?n = can_answer n" "rx_world_of k ?n = rx_world_of k n"
    "hs_runner L E (n_eng ?n) = hs_runner L E (n_eng n)" "pool_mem (n_pool ?n) p = pool_mem (n_pool n) p"
    by (simp_all add: hs_world_of_def can_answer_def control_queue_def rx_world_of_def hs_runner_def fun_eq_iff upd_eng_def sess_at_def split: option.split)
  have "\<exists>n'. receive_packet L E k p ?n = Some n' \<and> handshake_done E i ?n resp w n'"
    by (rule receive_handshake) (use i v s run h in \<open>simp_all add: upd_eng_def sess_at_def\<close>)
  then obtain n' where n': "receive_packet L E k p ?n = Some n'" "handshake_done E i ?n resp w n'" by blast
  have "crypto_worker_pop_result (n_crypto n) = (None, n_crypto n)"
    using spsc.pop_empty [OF cr] by (simp add: crypto_worker_pop_result_def)
  then have "transport_engine_poll L E n = Some (1, None, n')"
    using spsc.pop_empty [OF ev] rx n'(1) by (simp add: transport_engine_poll_def)
  moreover have "ring_contents (snd (ring_push (eng_event_ring (n_eng n)) (locked_event E))) = [locked_event E]"
    using spsc.push_accept [OF ev(1), of "locked_event E"] ev(2) by auto
  ultimately show ?thesis using n'(2) ev(2) by (auto simp: handshake_done_def Let_def control_queue_def)
qed

theorem poll_advances_handshake_witness:
  "\<exists>n'. transport_engine_poll sample_lib env_sample (node_sample (hw_sess initiator_sample) accept_sample) = Some (1, None, n') \<and>
    sess_at 0 n' = hw_sess (snd (handshake_run_as_initiator sample_lib 3 accept_sample
      (hs_world_of 0 (node_sample (hw_sess initiator_sample) accept_sample))))"
proof -
  let ?n = "node_sample (hw_sess initiator_sample) accept_sample"
  obtain v where v: "packet_parse accept_sample = Some v" "channel_id v = CH_CONTROL" "\<not> encrypted v" "static_check v = 0" "view_session_id v = 9"
    "flags v = 0" "view_opcode accept_sample v = CTRL_ACCEPT"
    using accept_sample_view by blast
  have a: "addr accept_sample = addr buf_sample" "addr_len accept_sample = 28" by (simp_all add: accept_sample_def write_packet_def buf_sample_def)
  have s: "sess_state (hw_sess initiator_sample) = SESSION_HANDSHAKE_START" "sess_role (hw_sess initiator_sample) = ROLE_INITIATOR"
    by (simp_all add: initiator_sample_def hs_sample_def handshake_init_initiator_def Let_def)
  have f: "filters_pass 0 accept_sample v (rx_world_of 0 ?n)" by (rule node_sample_passes) (use v a in simp_all)
  have r: "hs_runner sample_lib env_sample (n_eng ?n) = handshake_run_as_initiator sample_lib 3"
    by (simp add: hs_runner_def node_sample_def env_sample_def fun_eq_iff)
  obtain resp w where run: "handshake_run_as_initiator sample_lib 3 accept_sample (hs_world_of 0 ?n) = (resp, w)" by fastforce
  have o: "only_packet 0 3 ?n" "can_answer ?n" by (rule node_sample_rings)+
  have "\<exists>n'. transport_engine_poll sample_lib env_sample ?n = Some (1, None, n') \<and> sess_at 0 n' = hw_sess w"
    using poll_advances_handshake [of ?n 0 0 3 "snd (ring_pop (eng_rx_rings (n_eng ?n) ! 0))" v env_sample sample_lib resp w] o v f s run
    by (simp add: only_packet_def Let_def r now_ms_def env_sample_def [THEN arg_cong [of _ _ env_time]] handshake_opcodes_def prod_eq_iff) blast
  then show ?thesis using run by simp
qed

lemma send_chat_seals:
  assumes L: "crypto_lib_ok L" and n: "can_chat j n" and m: "length msg \<le> 1371"
  shows "\<exists>n' q. transport_engine_send_chat L msg n = Some (0, n') \<and> chat_queue n' = chat_queue n @ [q] \<and>
    q \<in> set (free_bufs (n_pool n)) \<and> eng_seq_counter (n_eng n') = eng_seq_counter (n_eng n) + 1 \<and>
    sealed_chat L (keys (sess_at j n)) (session_id (sess_at j n)) (eng_seq_counter (n_eng n)) msg (pool_mem (n_pool n') q) \<and>
    take SOCKADDR_IN6_SIZE (addr (pool_mem (n_pool n') q)) = eng_peer_addr (n_eng n)"
proof -
  let ?s = "sess_at j n" and ?g = "n_eng n"
  define n1 where "n1 = upd_sess_at j (\<lambda>s. s\<lparr>resilience := resilience_record_tx (resilience s) 0\<rparr>) n"
  have c: "eng_session ?g = Some j" "j < length (sess_pool (n_sessions n))" "eng_session_is_locked ?g" "\<not> tc_multipath_enabled (eng_config ?g)"
    "session_ok ?s" "sess_state ?s = SESSION_LOCKED" "fec_tx_ready (resilience ?s)" "length (eng_peer_addr ?g) = SOCKADDR_IN6_SIZE"
    "eng_tx_queues ?g \<noteq> []" "ring_ok (tx_chat (eng_tx_queues ?g ! 0))" "length (chat_queue n) < RING_SIZE - 1"
    "pool_ok (n_pool n)" "free_bufs (n_pool n) \<noteq> []" "\<And>p. buf_ok (pool_mem (n_pool n) p)"
    using n by (simp_all add: can_chat_def Let_def)
  have s1: "sess_at j n1 = ?s\<lparr>resilience := resilience_record_tx (resilience ?s) 0\<rparr>" using c(2) by (simp add: n1_def)
  have ok1: "session_ok (sess_at j n1)" "sess_state (sess_at j n1) = SESSION_LOCKED" "keys (sess_at j n1) = keys ?s" "session_id (sess_at j n1) = session_id ?s"
    "fec_tx_ready (resilience (sess_at j n1))"
    using c(5-7) resilience_record_ok(1) [of "resilience ?s" 0] by (simp_all add: s1 session_ok_def fec_tx_ready_def) (simp add: resilience_record_tx_def path_update_def)
  obtain q q1 where q: "pool_get (n_pool n) = (Some q, q1)" "q \<in> set (free_bufs (n_pool n))" "pool_mem q1 = pool_mem (n_pool n)"
    "pool_ok q1" "q \<notin> set (free_bufs q1)"
    using packet_pool.get_some [of "n_pool n"] c(12,13) pool_get_mem [of "n_pool n"] by auto
  define b0 where "b0 = chan_packet (session_id ?s) CH_CHAT (msg @ [0]) (eng_seq_counter ?g) (pool_mem q1 q)"
  obtain v b' where e: "packet_parse b0 = Some v" "channel_id v = CH_CHAT" "session_enc_apply L b0 v (sess_at j n1) = Some (0, b')"
    "sealed_chat L (keys ?s) (session_id ?s) (eng_seq_counter ?g) msg b'"
    using enc_chat_sealed [OF L ok1(1,2) c(14), of msg "session_id ?s" "eng_seq_counter ?g" q] q(3) ok1(3) m by (auto simp: b0_def)
  have len: "len b' \<le> 1424" using sealed_chat_len [OF e(4)] m by simp
  obtain r where r: "ring_push (tx_chat (eng_tx_queues ?g ! 0)) q = (0, r)" "ring_contents r = chat_queue n @ [q]"
    using spsc.push_accept [OF c(10)] c(11) unfolding chat_queue_def by blast
  let ?e1 = "\<lparr>ep_sess = sess_at j n1, ep_txq = eng_tx_queues ?g ! 0, ep_pool = buf_update q (\<lambda>_. b') q1, ep_seq = eng_seq_counter ?g + 1\<rparr>"
  have "\<exists>e'. fec_tx_after_encrypt q (eng_peer_addr ?g) ?e1 = Some e' \<and> pool_mem (ep_pool e') q = pool_mem (ep_pool ?e1) q \<and>
    tx_chat (ep_txq e') = tx_chat (ep_txq ?e1) \<and> ep_seq e' = ep_seq ?e1"
    by (rule fec_tx_frame) (use ok1(5) q(4,5) len in \<open>simp_all add: buf_update_def pool_ok_def free_bufs_def\<close>)
  then obtain e2 where e2: "fec_tx_after_encrypt q (eng_peer_addr ?g) ?e1 = Some e2" "pool_mem (ep_pool e2) q = b'"
    "tx_chat (ep_txq e2) = tx_chat (eng_tx_queues ?g ! 0)" "ep_seq e2 = eng_seq_counter ?g + 1"
    by (auto simp: buf_update_def)
  let ?b = "set_dest (take SOCKADDR_IN6_SIZE (eng_peer_addr ?g)) SOCKADDR_IN6_SIZE b'"
  let ?e3 = "e2\<lparr>ep_pool := buf_update q (\<lambda>_. ?b) (ep_pool e2), ep_txq := (ep_txq e2)\<lparr>tx_chat := r\<rparr>\<rparr>"
  have e1: "n_eng n1 = ?g" "n_pool n1 = n_pool n" "n_alt_addr n1 = n_alt_addr n" "n1\<lparr>n_alt_addr := n_alt_addr n\<rparr> = n1"
    by (simp_all add: n1_def upd_sess_at_def)
  have "build_chat_packet msg (ep_of j 0 n1) = Some (Some q, \<lparr>ep_sess = sess_at j n1, ep_txq = eng_tx_queues ?g ! 0,
      ep_pool = buf_update q (chan_packet (session_id ?s) CH_CHAT (msg @ [0]) (eng_seq_counter ?g)) q1, ep_seq = eng_seq_counter ?g + 1\<rparr>)"
    using q(1) m ok1(4) by (simp add: build_chat_packet_def ep_of_def e1)
  then have "transport_engine_send_chat L msg n = Some (0, put_ep j 0 ?e3 n1)"
    using c(1,3,4) e(1-3) e2(1-3) r(1)
    by (simp add: transport_engine_send_chat_def Let_def n1_def [symmetric] e1 encrypt_tx_packet_def push_tx_def buf_update_def b0_def)
  moreover have "sealed_chat L (keys ?s) (session_id ?s) (eng_seq_counter ?g) msg ?b"
    by (rule sealed_chat_cong [OF e(4)]) (simp_all add: set_dest_def)
  ultimately show ?thesis using r(2) c(8,9) q(2) e1 e2(4)
    by (intro exI [of _ "put_ep j 0 ?e3 n1"] exI [of _ q])
      (simp add: put_ep_def upd_sess_at_def upd_eng_def chat_queue_def buf_update_def set_dest_def mem_write_def)
qed

lemma node_sample_can_chat: "can_chat 0 (node_sample enc_session_sample buf_sample)"
proof -
  let ?n = "node_sample enc_session_sample buf_sample"
  have "eng_session_is_locked (n_eng ?n)" "\<not> tc_multipath_enabled (eng_config (n_eng ?n))" "length (eng_peer_addr (n_eng ?n)) = 28"
    "eng_tx_queues (n_eng ?n) \<noteq> []" "ring_ok (tx_chat (eng_tx_queues (n_eng ?n) ! 0))" "pool_ok (n_pool ?n)" "free_bufs (n_pool ?n) \<noteq> []"
    using enc_session_sample_ok(2)
    by (simp_all add: node_sample_def engine_zero_def config_plain_def tx_queues_zero_def buf_ring_zero_def ring_ok_def pool_ok_def free_bufs_def)
  moreover have "fec_tx_ready (resilience enc_session_sample)"
    using resilience_init_ok by (simp add: fec_tx_ready_def enc_session_sample_def session_init_def) (simp add: resilience_init_def resilience_zero_def)
  ultimately show ?thesis
    using enc_session_sample_ok buf_sample_ok node_sample_rings(4) [of enc_session_sample buf_sample] by (simp add: can_chat_def)
qed

text \<open>
  C11: Sending a chat message of at most 1371 bytes over a locked session succeeds: exactly one buffer is
  appended to the chat queue, it is addressed to the peer and holds the text, encrypted, under
  the session's id and the engine's next sequence number.
\<close>

theorem chat_send_sealed:
  assumes L: "crypto_lib_ok L" and n: "can_chat j n" and m: "length msg \<le> 1371"
  shows "\<exists>n' q. transport_engine_send_chat L msg n = Some (0, n') \<and> chat_queue n' = chat_queue n @ [q] \<and>
    q \<in> set (free_bufs (n_pool n)) \<and> eng_seq_counter (n_eng n') = eng_seq_counter (n_eng n) + 1 \<and>
    sealed_chat L (keys (sess_at j n)) (session_id (sess_at j n)) (eng_seq_counter (n_eng n)) msg (pool_mem (n_pool n') q) \<and>
    take SOCKADDR_IN6_SIZE (addr (pool_mem (n_pool n') q)) = eng_peer_addr (n_eng n)"
  using assms by (rule send_chat_seals)

theorem chat_send_sealed_witness:
  "\<exists>n' q. transport_engine_send_chat sample_lib [104, 105] (node_sample enc_session_sample buf_sample) = Some (0, n') \<and> chat_queue n' = [q] \<and>
     sealed_chat sample_lib (keys enc_session_sample) 9 0 [104, 105] (pool_mem (n_pool n') q)"
proof -
  have q: "eng_seq_counter (n_eng (node_sample enc_session_sample buf_sample)) = 0" "session_id enc_session_sample = 9"
    by (simp_all add: node_sample_def engine_zero_def enc_session_sample_def)
  show ?thesis
    using chat_send_sealed [OF sample_lib_ok node_sample_can_chat, of "[104, 105]"] node_sample_rings(4) [of enc_session_sample buf_sample] by (auto simp: q)
qed

text \<open>
  C9: A chat message reaches the application. When nothing else is pending, a sealed chat packet of at most 1022
  bytes of text that comes from the peer of the locked session and passes the filters takes two calls of
  \<open>transport_engine_poll\<close> with a turn of the crypto worker in between, and the next call
  returns the event with exactly the text. There is no condition on the sequence number: a packet
  that was delivered before is delivered again.
\<close>

theorem chat_reaches_application:
  assumes only: "only_packet k p n" and c: "calm n"
    and i: "eng_session (n_eng n) = Some i" "i < length (sess_pool (n_sessions n))"
    and s: "sess_state (sess_at i n) = SESSION_LOCKED" "sess_addr_len (sess_at i n) \<noteq> 0" "fec_quiet (sess_at i n)"
      "from_peer (sess_at i n) (pool_mem (n_pool n) p)"
    and b: "sealed_chat L (keys (sess_at i n)) (session_id (sess_at i n)) sq msg (pool_mem (n_pool n) p)" "length msg \<le> 1022"
    and f: "\<And>v. packet_parse (pool_mem (n_pool n) p) = Some v \<Longrightarrow> filters_pass (now_ms E1) (pool_mem (n_pool n) p) v (rx_world_of k n)"
  shows "\<exists>n1 n2 n3 n4. transport_engine_poll L E1 n = Some (1, None, n1) \<and> crypto_turn L E2 n1 = Some n2 \<and>
    transport_engine_poll L E3 n2 = Some (0, None, n3) \<and>
    transport_engine_poll L E4 n3 = Some (1, Some \<lparr>ev_type = EVENT_CHAT_RECEIVED, ev_timestamp_ms = now_ms E3,
      ev_data = Ev_Chat (msg @ [0]) (tc_local_port (eng_config (n_eng n)))\<rparr>, n4)"
proof -
  let ?b = "pool_mem (n_pool n) p" and ?s = "sess_at i n"
  obtain v where v: "packet_parse ?b = Some v" "encrypted v" "flags v = PACKET_FLAG_ENCRYPTED" "channel_id v = CH_CHAT"
    "view_session_id v = session_id ?s" "plength v = length msg + 1"
    and dec: "\<And>r. \<lbrakk> sess_state r = SESSION_LOCKED; keys r = keys ?s \<rbrakk> \<Longrightarrow>
      \<exists>b'' v''. session_enc_check L ?b v r = (0, b'', v'', r) \<and> packet_parse b'' = Some v \<and> view_payload b'' v = msg @ [0]"
    using b(1) unfolding sealed_chat_def by blast
  obtain m where m: "transport_engine_poll L E1 n = map_option (\<lambda>n'. (1, None, n')) (receive_packet L E1 k p m)"
    "flow m = flow (upd_eng (\<lambda>g. g\<lparr>eng_rx_rings := (eng_rx_rings g)[k := snd (ring_pop (eng_rx_rings g ! k))]\<rparr>) n)"
    "n_pool m = n_pool n" "n_sessions m = n_sessions n" "n_crypto m = n_crypto n" "rx_world_of k m = rx_world_of k n"
    using poll_first [OF only] by blast
  have sm: "sess_at i m = ?s" using m(4) by (simp add: sess_at_def)
  have g: "fst (session_check ?s ?b v) = 0" using session_check_data [of v ?s ?b] v(4,5) s by simp
  have ms: "eng_session (n_eng m) = Some i" "eng_config (n_eng m) = eng_config (n_eng n)" "calm m" "ready_socket (n_eng m) = None"
    "ring_ok (eng_event_ring (n_eng m))" "ring_contents (eng_event_ring (n_eng m)) = []"
    using m(2) i(1) c only by (simp_all add: flow_def upd_eng_def calm_def only_packet_def Let_def ready_socket_def)
  have cw: "ring_ok (cw_jobs (n_crypto n))" "ring_contents (cw_jobs (n_crypto n)) = []" "ring_ok (cw_results (n_crypto n))" "ring_contents (cw_results (n_crypto n)) = []"
    using only by (simp_all add: only_packet_def Let_def)
  obtain n1 r where n1: "receive_packet L E1 k p m = Some n1" "flow n1 = flow m" "n_pool n1 = n_pool n" "sess_at i n1 = ?s\<lparr>resilience := r\<rparr>"
    "cw_results (n_crypto n1) = cw_results (n_crypto n)" "ring_ok (cw_jobs (n_crypto n1))"
    "ring_contents (cw_jobs (n_crypto n1)) = [\<lparr>job_type = CRYPTO_JOB_DECRYPT, job_p = p, job_sess = i\<rparr>]"
    using receive_chat [of m i p v E1 k L] ms(1) i(2) v(1-3) f [OF v(1)] g s(3) cw m(3-6) sm by auto
  obtain b' v' where d: "session_enc_check L ?b v (sess_at i n1) = (0, b', v', sess_at i n1)" "packet_parse b' = Some v" "view_payload b' v = msg @ [0]"
    using dec [of "sess_at i n1"] n1(4) s(1) by auto
  obtain n2 cw2 where n2: "crypto_turn L E2 n1 = Some n2" "flow n2 = flow n1" "pool_mem (n_pool n2) p = b'" "n_sessions n2 = n_sessions n1"
    "crypto_worker_pop_result (n_crypto n2) = (Some p, cw2)"
    using crypto_turn_decrypts [of n1 p i v L b' v' E2] n1(3,5-7) cw(3,4) v(1,2) d(1) by auto
  have s2: "sess_state (sess_at i n2) = SESSION_LOCKED" using n2(4) n1(4) s(1) by (simp add: sess_at_def)
  have f2: "eng_session (n_eng n2) = Some i" "eng_config (n_eng n2) = eng_config (n_eng n)" "calm n2" "ready_socket (n_eng n2) = None"
    "ring_ok (eng_event_ring (n_eng n2))" "ring_contents (eng_event_ring (n_eng n2)) = []"
    using n2(2) n1(2) ms by (simp_all add: flow_def calm_def ready_socket_def Let_def)
  obtain n3 n4 where n3: "transport_engine_poll L E3 n2 = Some (0, None, n3)"
    "transport_engine_poll L E4 n3 = Some (1, Some (chat_event E3 (n_eng n2) b' v), n4)"
    using poll_handles [OF f2(5,6,3,4) n2(5) f2(1) s2, of v L E3 E4] n2(3) d(2) v(4) by auto
  have "chat_event E3 (n_eng n2) b' v = \<lparr>ev_type = EVENT_CHAT_RECEIVED, ev_timestamp_ms = now_ms E3,
      ev_data = Ev_Chat (msg @ [0]) (tc_local_port (eng_config (n_eng n)))\<rparr>"
    using v(6) b(2) f2(2) d(3) by (cases "length msg = 1022") (simp_all add: chat_event_def view_payload_def)
  then show ?thesis using m(1) n1(1) n2(1) n3 by auto
qed

theorem chat_reaches_application_witness:
  "\<exists>b n1 n2 n3 n4. sealed_chat sample_lib (keys peer_session) 9 5 [104, 105] b \<and>
    transport_engine_poll sample_lib env_sample (node_sample peer_session b) = Some (1, None, n1) \<and> crypto_turn sample_lib env_sample n1 = Some n2 \<and>
    transport_engine_poll sample_lib env_sample n2 = Some (0, None, n3) \<and>
    transport_engine_poll sample_lib env_sample n3 = Some (1, Some \<lparr>ev_type = EVENT_CHAT_RECEIVED, ev_timestamp_ms = 0,
      ev_data = Ev_Chat [104, 105, 0] 5000\<rparr>, n4)"
proof -
  have k: "session_ok peer_session" "sess_state peer_session = SESSION_LOCKED" "session_id peer_session = 9" "sess_addr_len peer_session = 28"
    "fec_quiet peer_session"
    using session_init_ok by (simp_all add: peer_session_def enc_session_sample_def session_ok_def fec_quiet_def session_init_def session_zero_def resilience_init_def resilience_zero_def)
  obtain b0 where b0: "sealed_chat sample_lib (keys peer_session) 9 5 [104, 105] b0"
    using enc_chat_sealed [OF sample_lib_ok k(1,2) buf_sample_ok, of "[104, 105]" 9 5] by auto
  define b where "b = b0\<lparr>addr := addr buf_sample, addr_len := 28\<rparr>"
  have b: "sealed_chat sample_lib (keys peer_session) 9 5 [104, 105] b" by (rule sealed_chat_cong [OF b0]) (simp_all add: b_def)
  have a: "addr b = addr buf_sample" "addr_len b = 28" by (simp_all add: b_def)
  have f: "filters_pass 0 b v (rx_world_of 0 (node_sample peer_session b))" if "packet_parse b = Some v" for v
    by (rule node_sample_passes [OF a that]) (use b that in \<open>auto simp: sealed_chat_def static_check_spec\<close>)
  have p: "from_peer peer_session b"
    using a by (simp add: from_peer_def peer_session_def enc_session_sample_def session_init_def session_zero_def buf_sample_def resilience_init_def resilience_zero_def)
  have e: "now_ms env_sample = 0" "tc_local_port (eng_config (n_eng (node_sample peer_session b))) = 5000"
    by (simp_all add: now_ms_def env_sample_def node_sample_def engine_zero_def config_plain_def)
  note o = node_sample_rings(1,2) [of peer_session b]
  show ?thesis
    using chat_reaches_application [OF o, of 0 sample_lib 5 "[104, 105]" env_sample env_sample env_sample env_sample] k p b f
    by (simp add: e) blast
qed

text \<open>
  C37: Accepting a connection leads nowhere. After \<open>transport_engine_accept_connection\<close> has
  answered a request and made the new session the current one, the gate refuses every packet for
  that session, handshake messages included: the function never calls \<open>handshake_init_responder\<close>,
  so that the session has no role.
\<close>

theorem accepted_session_deaf:
  assumes "transport_engine_accept_connection E addr_str port n = Some (0, n')" "length (sess_pool (n_sessions n)) = MAX_SESSION_ENTRIES"
  shows "\<exists>i. eng_session (n_eng n') = Some i \<and> (\<forall>b v. fst (session_check (sess_at i n') b v) = -1)"
proof -
  obtain a i t where a: "resolve_peer E addr_str port = (0, a)" "session_alloc_for_peer (n_sessions n) a SESSION_DIR_INBOUND = Some (Some i, t)"
    using assms(1) by (auto simp: transport_engine_accept_connection_def split: if_splits option.splits prod.splits)
  have t: "i < length (sess_pool t)" "roleless (sess_pool t ! i)"
    using a(2) assms(2) by (auto simp: session_alloc_for_peer_def roleless_def session_init_def session_zero_def Let_def split: if_splits)
  define n1 where "n1 = upd_sess_at i (\<lambda>s. setup_paths (n_eng n) a port (s\<lparr>local_port := tc_local_port (eng_config (n_eng n))\<rparr>)) (n\<lparr>n_sessions := t\<rparr>)"
  define n2 where "n2 = (case eng_session (n_eng n1) of None \<Rightarrow> n1 | Some j \<Rightarrow> upd_sess_at j session_reset n1)"
  have 1: "roleless (sess_at i n1)" "i < length (sess_pool (n_sessions n1))" using t by (simp_all add: n1_def sess_at_def upd_sess_at_def)
  then have "roleless (sess_at i (upd_sess_at j session_reset n1))" for j
    by (cases "j = i") (simp_all add: sess_at_def upd_sess_at_def)
  then have 2: "roleless (sess_at i n2)" "i < length (sess_pool (n_sessions n2))"
    using 1 by (simp_all add: n2_def upd_sess_at_def split: option.split)
  let ?f = "\<lambda>g. g\<lparr>eng_session := Some i, eng_peer_addr := a, eng_peer_configured := True, eng_role_initiator := False,
    eng_session_is_locked := False, eng_connect_addr_str := snprintf 64 addr_str, eng_connect_port := port\<rparr>"
  let ?n4 = "snd (with_ep i 0 (conn_request_send_accept a) (upd_eng ?f n2))"
  have "n' = ?n4\<lparr>n_conns := snd (connection_manager_connect (addr_str, port) () (n_conns ?n4))\<rparr>"
    unfolding n2_def n1_def using assms(1) a by (simp add: transport_engine_accept_connection_def Let_def split: if_splits)
  moreover have "sess_at i ?n4 = sess_at i n2" "eng_session (n_eng ?n4) = Some i"
    using 2(2) by (simp_all add: with_ep_def put_ep_def split_beta conn_request_send_accept_def send_conn_def)
      (simp add: sess_at_def upd_sess_at_def upd_eng_def)
  ultimately show ?thesis using roleless_gate [OF 2(1)] by simp
qed

theorem accepted_session_deaf_witness:
  "\<exists>n' i. transport_engine_accept_connection env_sample ''::1'' 5000 (node_sample session_zero buf_sample) = Some (0, n') \<and>
     eng_session (n_eng n') = Some i \<and> (\<forall>b v. fst (session_check (sess_at i n') b v) = -1)"
proof -
  let ?n = "node_sample session_zero buf_sample"
  have r: "resolve_peer env_sample ''::1'' 5000 = (0, sockaddr6 5000 (replicate 16 0))" by (simp add: resolve_peer_def env_sample_def)
  have i: "eng_initialized (n_eng ?n)" "session_count (n_sessions ?n) = 1" by (simp_all add: node_sample_def)
  have "length (sockaddr6 5000 (replicate 16 0)) = 28" by (simp add: sockaddr6_def)
  then have "\<exists>t. session_alloc_for_peer (n_sessions ?n) (sockaddr6 5000 (replicate 16 0)) SESSION_DIR_INBOUND = Some (Some 1, t)"
    using i(2) by (simp add: session_alloc_for_peer_def)
  then have "\<exists>n'. transport_engine_accept_connection env_sample ''::1'' 5000 ?n = Some (0, n')"
    using r i(1) by (auto simp: transport_engine_accept_connection_def Let_def)
  then show ?thesis using accepted_session_deaf [of env_sample "''::1''" 5000 ?n] by auto
qed

end
