(* ===== verification/File_Flow.thy ===== *)
theory File_Flow
  imports Engine_Flow
begin

text \<open>
  A file at the receiving engine: the chunks that \<open>transport_engine_poll\<close> hands to \<open>file_recv_chunk\<close>, and the call of
  \<open>file_recv_finish\<close> as soon as the count of chunks is complete (\<open>store_chunk\<close>, \<open>lib/engine/transport_engine.c\<close>, 885 to 904).
\<close>

section \<open>Chunks at the engine\<close>

text \<open>A packet with chunk \<open>k\<close> of the contents \<open>c\<close>: the number of the chunk and its bytes.\<close>

definition carries_chunk :: "bytes \<Rightarrow> packet_buf \<times> packet_view \<Rightarrow> nat \<Rightarrow> bool" where
  "carries_chunk c bv k \<longleftrightarrow> view_payload (fst bv) (snd bv) = le_bytes 4 (of_nat k :: u32) @ chunk k c"

definition store_chunks :: "env \<Rightarrow> (packet_buf \<times> packet_view) list \<Rightarrow> node \<Rightarrow> node" where
  "store_chunks E bvs n = fold (\<lambda>(b, v). store_chunk E b v) bvs n"

text \<open>A node that has received the chunks \<open>S\<close> in \<open>k\<close> packets.\<close>

definition node_receiving :: "bytes \<Rightarrow> file_meta \<Rightarrow> nat \<Rightarrow> nat set \<Rightarrow> nat \<Rightarrow> node \<Rightarrow> bool" where
  "node_receiving c m i S k n \<longleftrightarrow> receiving c m i S k (n_fs n, eng_file_ctx (n_eng n)) \<and> eng_cur_file_recv_idx (n_eng n) = int i"

lemma carries_chunk_parts:
  assumes "carries_chunk c (b, v) k"
  shows "(le_word (take 4 (view_payload b v)) :: u32) = of_nat k" "drop 4 (view_payload b v) = chunk k c"
  using assms by (simp_all add: carries_chunk_def le_word_le_bytes)

lemma store_chunk_idle: "eng_cur_file_recv_idx (n_eng n) < 0 \<Longrightarrow> store_chunks E bvs n = n"
  by (induction bvs) (auto simp: store_chunks_def store_chunk_def Let_def)

lemma store_chunk_more:
  assumes r: "node_receiving c m i S k n" and m: "meta_of c m" and n: "j < chunks_of c" "chunks_of c \<le> 4194304" "Suc k < chunks_of c"
    and p: "carries_chunk c (b, v) j"
  shows "node_receiving c m i (insert j S) (Suc k) (store_chunk E b v n) \<and>
    fs_access (n_fs (store_chunk E b v n)) = fs_access (n_fs n) \<and> eng_event_ring (n_eng (store_chunk E b v n)) = eng_event_ring (n_eng n)"
proof -
  obtain d0 fs ft where f: "file_recv_chunk (int i) (chunk j c) (of_nat j) (n_fs n, eng_file_ctx (n_eng n)) = (d0, fs, ft)"
    by (metis prod_cases3)
  have "receiving c m i (insert j S) (Suc k) (fs, ft)" "d0 = 0" "fs_access fs = fs_access (n_fs n)"
    using receive_chunk [OF _ m n(1,2), of i S k "(n_fs n, eng_file_ctx (n_eng n))"] r f n(2,3) by (auto simp: node_receiving_def)
  then show ?thesis
    using r f carries_chunk_parts [OF p] by (simp add: store_chunk_def node_receiving_def upd_eng_def Let_def)
qed

lemma store_chunks_more:
  assumes "node_receiving c m i S k n" "meta_of c m" "chunks_of c \<le> 4194304" "list_all2 (carries_chunk c) bvs ks"
    "set ks \<subseteq> {..<chunks_of c}" "k + length ks < chunks_of c"
  shows "node_receiving c m i (S \<union> set ks) (k + length ks) (store_chunks E bvs n) \<and>
    fs_access (n_fs (store_chunks E bvs n)) = fs_access (n_fs n) \<and>
    eng_event_ring (n_eng (store_chunks E bvs n)) = eng_event_ring (n_eng n)"
  using assms(4,1,5,6)
proof (induction bvs ks arbitrary: S k n rule: list_all2_induct)
  case (Cons bv bvs j js)
  obtain b v where bv: "bv = (b, v)" by fastforce
  have s: "node_receiving c m i (insert j S) (Suc k) (store_chunk E b v n)"
    "fs_access (n_fs (store_chunk E b v n)) = fs_access (n_fs n)" "eng_event_ring (n_eng (store_chunk E b v n)) = eng_event_ring (n_eng n)"
    using store_chunk_more [OF Cons.prems(1) assms(2) _ assms(3), of j b v E] Cons.hyps(1) Cons.prems(2,3) bv by auto
  have "store_chunks E (bv # bvs) n = store_chunks E bvs (store_chunk E b v n)" by (simp add: store_chunks_def bv)
  then show ?case using Cons.IH [OF s(1)] Cons.prems(2,3) s(2,3) by simp
qed (simp_all add: store_chunks_def)

lemma store_chunk_last:
  assumes r: "node_receiving c m i S k n" and m: "meta_of c m" and n: "j < chunks_of c" "chunks_of c \<le> 4194304" "Suc k = chunks_of c"
    and p: "carries_chunk c (b, v) j" and S: "insert j S = {..<chunks_of c}" and c: "length c < 2 ^ 32"
    and q: "q = snprintf FILE_PATH_MAX (save_dir E @ ''/'' @ fm_filename m)" "fs_access (n_fs n) q"
  shows "files (n_fs (store_chunk E b v n)) q = Some c \<and> eng_cur_file_recv_idx (n_eng (store_chunk E b v n)) = -1 \<and>
    eng_event_ring (n_eng (store_chunk E b v n)) = snd (ring_push (eng_event_ring (n_eng n)) (file_event E))"
proof -
  obtain d0 fs ft where f: "file_recv_chunk (int i) (chunk j c) (of_nat j) (n_fs n, eng_file_ctx (n_eng n)) = (d0, fs, ft)"
    by (metis prod_cases3)
  have d: "receiving c m i {..<chunks_of c} (Suc k) (fs, ft)" "d0 = 1" "fs_access fs = fs_access (n_fs n)"
    using receive_chunk [OF _ m n(1,2), of i S k "(n_fs n, eng_file_ctx (n_eng n))"] r f n(2,3) S by (auto simp: node_receiving_def)
  obtain fs' ft' where "file_recv_finish (int i) (Some (save_dir E)) (fs, ft) = (0, fs', ft')" "files fs' q = Some c"
    using receive_finish [OF d(1) m _ _ _ c q(1)] n(2,3) q(2) d(3) by auto
  then show ?thesis
    using r f d(2) carries_chunk_parts [OF p] by (simp add: store_chunk_def node_receiving_def upd_eng_def push_event_def Let_def)
qed

section \<open>Properties\<close>

text \<open>
  C31: A file arrives intact when its chunks arrive once each: a reception was opened by \<open>file_recv_start\<close> with the metadata that
  \<open>file_send_start\<close> computed, no left-over \<open>.part\<close> file of that name lies in \<open>/tmp\<close>, and the engine gets every chunk exactly once, in any
  order. Then, with the last of them, the file in the download directory has the contents of the original, one event reports
  it, and the reception is closed, so that whatever arrives later changes nothing. (A repeated chunk before that closes the
  reception too early, see \<open>repeated_chunk_loses_file\<close>; no code of the engine opens a reception.)
\<close>

theorem file_received_intact:
  assumes sent: "file_send_start fsA path ftA = (j, ftA')" "0 \<le> j" "files fsA path = Some c" "length (sends ftA) = FILE_TRANSFER_MAX"
    and size: "length c \<le> 2 ^ 32 - 1024" and m: "m = fsd_meta (sends ftA' ! nat j)"
    and recv: "recv_count ft < FILE_TRANSFER_MAX" "length (recvs ft) = FILE_TRANSFER_MAX"
      "file_recv_start (fm_filename m) (fm_total_size m) (fm_total_chunks m) (fm_checksum m) ft = (i, eng_file_ctx (n_eng n))"
      "eng_cur_file_recv_idx (n_eng n) = i"
    and fs: "fs_access (n_fs n) (part_path (fm_filename m))" "files (n_fs n) (part_path (fm_filename m)) = None"
      "q = snprintf FILE_PATH_MAX (save_dir E @ ''/'' @ fm_filename m)" "fs_access (n_fs n) q"
    and ks: "distinct ks" "set ks = {..<chunks_of c}" "list_all2 (carries_chunk c) bvs ks"
  shows "files (n_fs (store_chunks E (bvs @ late) n)) q = Some c \<and> eng_cur_file_recv_idx (n_eng (store_chunks E (bvs @ late) n)) = -1 \<and>
    eng_event_ring (n_eng (store_chunks E (bvs @ late) n)) = snd (ring_push (eng_event_ring (n_eng n)) (file_event E))"
proof -
  have mo: "meta_of c m" "fm_filename m = snprintf FILE_NAME_MAX (basename path)" using send_start_meta [OF sent size] m by simp_all
  have c: "c \<noteq> []" using sent by (auto simp: file_send_start_def split: if_splits option.splits)
  have r: "chunks_of c \<le> 4194304" "node_receiving c m (recv_count ft) {} 0 n"
    using receive_start [OF mo size recv(1-3) fs(1,2)] recv(4) by (auto simp: node_receiving_def)
  have len: "length ks = chunks_of c" using distinct_card [OF ks(1)] ks(2) by simp
  moreover have "0 < chunks_of c" using c by (simp add: chunks_of_def div_greater_zero_iff Suc_le_eq)
  ultimately obtain js l where js: "ks = js @ [l]" by (metis length_greater_0_conv rev_exhaust)
  obtain bs bv where bvs: "bvs = bs @ [bv]" "list_all2 (carries_chunk c) bs js" "carries_chunk c bv l"
    using ks(3) unfolding js by (auto simp: list_all2_append2 list_all2_Cons2)
  obtain b v where bv: "bv = (b, v)" by fastforce
  let ?n = "store_chunks E bs n"
  have 1: "node_receiving c m (recv_count ft) (set js) (length js) ?n" "fs_access (n_fs ?n) = fs_access (n_fs n)"
    "eng_event_ring (n_eng ?n) = eng_event_ring (n_eng n)"
    using store_chunks_more [OF r(2) mo(1) r(1) bvs(2)] ks(2) len js by auto
  have S: "insert l (set js) = {..<chunks_of c}" "l < chunks_of c" "Suc (length js) = chunks_of c" using ks(2) len js by auto
  let ?n' = "store_chunk E b v ?n"
  have 2: "files (n_fs ?n') q = Some c" "eng_cur_file_recv_idx (n_eng ?n') = -1"
    "eng_event_ring (n_eng ?n') = snd (ring_push (eng_event_ring (n_eng n)) (file_event E))"
    using store_chunk_last [OF 1(1) mo(1) S(2) r(1) S(3) bvs(3) [unfolded bv] S(1) _ fs(3)] size fs(4) 1(2,3) by simp_all
  have "store_chunks E (bvs @ late) n = store_chunks E late ?n'" by (simp add: store_chunks_def bvs(1) bv)
  then show ?thesis using store_chunk_idle [of ?n' E late] 2 by simp
qed

text \<open>
  Chunks are counted, not recorded. When the first chunk of a file of two chunks is repeated, the count is complete without the
  second: the engine reports a completed transfer and closes the reception, and no file is stored.
\<close>

theorem repeated_chunk_loses_file:
  assumes r: "node_receiving c m i {} 0 n" and m: "meta_of c m" "chunks_of c = 2" and p: "carries_chunk c (b, v) 0"
    and q: "q \<noteq> part_path (fm_filename m)"
  shows "files (n_fs (store_chunks E ([(b, v), (b, v)] @ late) n)) q = files (n_fs n) q \<and>
    eng_cur_file_recv_idx (n_eng (store_chunks E ([(b, v), (b, v)] @ late) n)) = -1 \<and>
    eng_event_ring (n_eng (store_chunks E ([(b, v), (b, v)] @ late) n)) = snd (ring_push (eng_event_ring (n_eng n)) (file_event E))"
proof -
  let ?p = "part_path (fm_filename m)" and ?x = "chunk 0 c"
  let ?recv = "file_recv_chunk (int i) ?x (of_nat 0)"
  have c: "1024 < length c" "length c \<le> 2048" "length ?x = 1024" using m(2) by (auto simp: chunks_of_def chunk_def)
  have st: "receiving c m i {} 0 (n_fs n, eng_file_ctx (n_eng n))" "files (n_fs n) ?p = None" "eng_cur_file_recv_idx (n_eng n) = int i"
    using r by (auto simp: node_receiving_def receiving_def Let_def)
  obtain d1 fs1 ft1 where 1: "?recv (n_fs n, eng_file_ctx (n_eng n)) = (d1, fs1, ft1)" by (metis prod_cases3)
  obtain d2 fs2 ft2 where 2: "?recv (fs1, ft1) = (d2, fs2, ft2)" by (metis prod_cases3)
  have w: "file_write 0 ?x [] = ?x" "file_write 0 ?x ?x = ?x" by (simp_all add: file_write_def)
  have "receiving c m i {0} 1 (fs1, ft1) \<and> d1 = 0 \<and> fs1 = (n_fs n)\<lparr>files := (files (n_fs n))(?p \<mapsto> ?x)\<rparr>"
    using receive_chunk [OF st(1) m(1), of 0] m(2) st(2) w(1) unfolding 1 by auto
  then have s1: "receiving c m i {0} 1 (fs1, ft1)" "d1 = 0" "fs1 = (n_fs n)\<lparr>files := (files (n_fs n))(?p \<mapsto> ?x)\<rparr>" by blast+
  then have "(case files fs1 ?p of None \<Rightarrow> [] | Some y \<Rightarrow> y) = ?x" "fs1\<lparr>files := (files fs1)(?p \<mapsto> ?x)\<rparr> = fs1" by simp_all
  then have "receiving c m i {0} (Suc 1) (fs2, ft2) \<and> d2 = 1 \<and> fs2 = fs1"
    using receive_chunk [OF s1(1) m(1), of 0] m(2) w(2) unfolding 2 by auto
  then have s2: "receiving c m i {0} (Suc 1) (fs2, ft2)" "d2 = 1" "fs2 = fs1" by blast+
  have "file_recv_finish (int i) (Some (save_dir E)) (fs2, ft2) = (-1, fs2, ft2)"
    using finish_short [OF s2(1) m(1), of ?x] s1(3) s2(3) c by simp
  then have "store_chunk E b v (store_chunk E b v n) = push_event (file_event E)
      ((upd_eng (\<lambda>g. g\<lparr>eng_file_ctx := ft2, eng_cur_file_recv_idx := -1\<rparr>) n)\<lparr>n_fs := fs2\<rparr>)" (is "_ = ?n'")
    using carries_chunk_parts [OF p] st(3) 1 2 s1(2) s2(2) by (simp add: store_chunk_def upd_eng_def Let_def)
  then have "store_chunks E ([(b, v), (b, v)] @ late) n = store_chunks E late ?n'" by (simp add: store_chunks_def)
  then show ?thesis
    using store_chunk_idle [of ?n' E late] q s1(3) s2(3) by (simp add: push_event_def upd_eng_def)
qed

section \<open>Witnesses\<close>

definition chunk_packet :: "bytes \<Rightarrow> packet_buf \<times> packet_view" where
  "chunk_packet pl = (buf_sample\<lparr>data := replicate 24 0 @ pl\<rparr>,
     \<lparr>magic = PROTO_MAGIC, version = 1, flags = 0, view_session_id = 9, channel_id = CH_FILE, seq = 4, plength = length pl, payload = 24,
      nonce = replicate 12 0, tag = replicate 16 0, encrypted = False, path_idx = 0\<rparr>)"

lemma chunk_packet_carries: "carries_chunk c (chunk_packet (le_bytes 4 (of_nat k :: u32) @ chunk k c)) k"
  by (simp add: carries_chunk_def chunk_packet_def view_payload_def mem_read_def)

text \<open>A node that opened a reception.\<close>

definition file_node :: "file_transfer_ctx \<Rightarrow> node" where
  "file_node ft = upd_eng (\<lambda>g. g\<lparr>eng_file_ctx := ft, eng_cur_file_recv_idx := 0\<rparr>) (node_sample session_init buf_sample)"

lemma file_node_simps [simp]:
  "eng_file_ctx (n_eng (file_node ft)) = ft" "eng_cur_file_recv_idx (n_eng (file_node ft)) = 0" "n_fs (file_node ft) = fs_sample"
  by (simp_all add: file_node_def upd_eng_def node_sample_def)

theorem file_received_intact_witness:
  "\<exists>ft. files (n_fs (store_chunks env_sample [chunk_packet (le_bytes 4 (0 :: u32) @ [7, 8])] (file_node ft))) ''/tmp/b'' = Some [7, 8]"
proof -
  obtain ftA' where s: "file_send_start fs_sample ''/a/b'' file_transfer_init = (0, ftA')" "fm_filename (fsd_meta (sends ftA' ! 0)) = ''b''"
    using send_sample by blast
  define m where "m = fsd_meta (sends ftA' ! 0)"
  have fm: "fm_filename m = ''b''" using s(2) by (simp add: m_def)
  have f: "files fs_sample ''/a/b'' = Some [7, 8]" "\<And>p. fs_access fs_sample p" "length (sends file_transfer_init) = FILE_TRANSFER_MAX"
    "recv_count file_transfer_init < FILE_TRANSFER_MAX" "length (recvs file_transfer_init) = FILE_TRANSFER_MAX"
    by (simp_all add: fs_sample_def file_transfer_init_def)
  have "meta_of [7, 8] m" using send_start_meta [OF s(1) _ f(1,3)] by (simp add: m_def)
  then have "fm_total_chunks m = 1" by (simp add: meta_of_def chunks_of_def)
  then obtain ft where r: "file_recv_start (fm_filename m) (fm_total_size m) (fm_total_chunks m) (fm_checksum m) file_transfer_init = (0, ft)"
    by (simp add: file_recv_start_def file_transfer_init_def Let_def)
  have p: "files (n_fs (file_node ft)) (part_path (fm_filename m)) = None" by (simp add: fs_sample_def fm part_path_def snprintf_def)
  have q: "''/tmp/b'' = snprintf FILE_PATH_MAX (save_dir env_sample @ ''/'' @ fm_filename m)"
    by (simp add: fm snprintf_def save_dir_def env_sample_def)
  have ks: "set [0] = {..<chunks_of [7, 8 :: u8]}" by (auto simp: chunks_of_def)
  have k: "list_all2 (carries_chunk [7, 8]) [chunk_packet (le_bytes 4 (0 :: u32) @ [7, 8])] [0]"
    using chunk_packet_carries [of "[7, 8]" 0] by (simp add: chunk_def)
  have "files (n_fs (store_chunks env_sample ([chunk_packet (le_bytes 4 (0 :: u32) @ [7, 8])] @ []) (file_node ft))) ''/tmp/b'' = Some [7, 8]"
    using file_received_intact [of fs_sample "''/a/b''" file_transfer_init 0 ftA' "[7, 8]" m file_transfer_init 0 "file_node ft", OF s(1) _ f(1,3) _ _ f(4,5) _ _ _ p q _ _ ks k]
      r f(2) by (simp add: m_def)
  then show ?thesis by auto
qed

theorem repeated_chunk_loses_file_witness:
  "\<exists>c ft. 1024 < length c \<and> (let bv = chunk_packet (le_bytes 4 (0 :: u32) @ chunk 0 c)
     in files (n_fs (store_chunks env_sample [bv, bv] (file_node ft))) ''/tmp/b'' = None \<and>
        eng_cur_file_recv_idx (n_eng (store_chunks env_sample [bv, bv] (file_node ft))) = -1)"
proof -
  define c :: bytes where "c = replicate 1025 1"
  have n: "chunks_of c = 2" "1024 < length c" by (simp_all add: c_def chunks_of_def)
  obtain k where k: "checksum_loop (length c) c 0 = Some k" using checksum_loop_total [of "length c" c 0] by auto
  define m where "m = \<lparr>fm_filename = ''b'', fm_total_size = of_nat (length c), fm_total_chunks = 2, fm_checksum = k, fm_active = True\<rparr>"
  define ft where "ft = file_transfer_init\<lparr>recv_count := 1, recvs := [\<lparr>fr_meta = m, fr_path = [], chunks_recvd = 0, fr_active = True\<rparr>]\<rparr>"
  let ?bv = "chunk_packet (le_bytes 4 (0 :: u32) @ chunk 0 c)"
  have "node_receiving c m 0 {} 0 (file_node ft)"
    by (simp add: node_receiving_def receiving_def ft_def Let_def) (simp add: m_def fs_sample_def part_path_def snprintf_def)
  moreover have "meta_of c m" using k n by (simp add: meta_of_def m_def)
  moreover have "carries_chunk c (fst ?bv, snd ?bv) 0" using chunk_packet_carries [of c 0] by simp
  moreover have "''/tmp/b'' \<noteq> part_path (fm_filename m)" by (simp add: m_def part_path_def snprintf_def)
  ultimately have "files (n_fs (store_chunks env_sample ([?bv, ?bv] @ []) (file_node ft))) ''/tmp/b'' = files fs_sample ''/tmp/b'' \<and>
      eng_cur_file_recv_idx (n_eng (store_chunks env_sample ([?bv, ?bv] @ []) (file_node ft))) = -1"
    using repeated_chunk_loses_file [of c m 0 "file_node ft" "fst ?bv" "snd ?bv" "''/tmp/b''" env_sample "[]"] n(1) by simp
  moreover have "files fs_sample ''/tmp/b'' = None" by (simp add: fs_sample_def)
  ultimately show ?thesis using n(2) by (auto simp: Let_def)
qed

end
