(* ===== verification/Tui_State.thy ===== *)
theory Tui_State
  imports Api Group Config
begin

text \<open>
  State of the terminal application (\<open>app/tui.h\<close>, \<open>app/tui_screen.c\<close>): the terminal with its raw
  mode, and the record \<open>tui_t\<close> with the operations that change it outside of the key handlers.
  Arrays of which only the entries below a count are read (peers, chat lines, log) are the lists of
  those entries, and \<open>peer_count\<close>, \<open>chat_count\<close> and \<open>log_line\<close> are their lengths; character
  arrays that are only written by \<open>snprintf\<close> are their strings, while \<open>input_buf\<close>, which is edited
  in place, is its 256 characters. Fields that no code reads (\<open>adv_filter\<close>, \<open>chat_scroll\<close>,
  \<open>login_cursor\<close> and the like) are left out. The code under \<open>_WIN32\<close> is not modelled.
\<close>

abbreviation (input) TUI_MAX_CHAT_LINES :: nat where "TUI_MAX_CHAT_LINES \<equiv> 200"
abbreviation (input) TUI_INPUT_BUF :: nat where "TUI_INPUT_BUF \<equiv> 256"
abbreviation (input) TUI_MAX_PEERS :: nat where "TUI_MAX_PEERS \<equiv> 32"
abbreviation (input) TUI_LOG_LINES :: nat where "TUI_LOG_LINES \<equiv> 32"

datatype screen = SCREEN_LOGIN | SCREEN_PEER_LIST | SCREEN_CHAT | SCREEN_GROUP | SCREEN_SETTINGS | SCREEN_ADVANCED

abbreviation (input) GROUP_FOCUS_ROOMS :: int where "GROUP_FOCUS_ROOMS \<equiv> 0"
abbreviation (input) GROUP_FOCUS_CHAT :: int where "GROUP_FOCUS_CHAT \<equiv> 1"
abbreviation (input) GROUP_FOCUS_MEMBERS :: int where "GROUP_FOCUS_MEMBERS \<equiv> 2"
abbreviation (input) USER_TAB_COUNT :: nat where "USER_TAB_COUNT \<equiv> 6"
abbreviation (input) ADV_TAB_COUNT :: int where "ADV_TAB_COUNT \<equiv> 8"

section \<open>The terminal\<close>

text \<open>
  The attributes of the terminal line as the flag words of Linux, and the variables of
  \<open>tui_screen.c\<close> and \<open>tui_input.c\<close> that stay the same between calls. \<open>tm_out\<close> is what has been
  written, \<open>tm_winsize\<close> the columns and rows that the \<open>ioctl\<close> reports, \<open>None\<close> when it fails.
\<close>

record termios =
  c_iflag :: u32
  c_oflag :: u32
  c_lflag :: u32
  vmin :: u8
  vtime :: u8

record terminal =
  tm_tio :: termios
  tm_orig :: termios
  tm_raw :: bool
  tm_mouse :: bool
  tm_winsize :: "(nat \<times> nat) option"
  tm_out :: string

abbreviation BRKINT :: u32 where "BRKINT \<equiv> 0x2"
abbreviation ISTRIP :: u32 where "ISTRIP \<equiv> 0x20"
abbreviation ICRNL :: u32 where "ICRNL \<equiv> 0x100"
abbreviation IXON :: u32 where "IXON \<equiv> 0x400"
abbreviation OPOST :: u32 where "OPOST \<equiv> 0x1"
abbreviation ISIG :: u32 where "ISIG \<equiv> 0x1"
abbreviation ICANON :: u32 where "ICANON \<equiv> 0x2"
abbreviation ECHO :: u32 where "ECHO \<equiv> 0x8"
abbreviation IEXTEN :: u32 where "IEXTEN \<equiv> 0x8000"

definition raw_attr :: "termios \<Rightarrow> termios" where
  "raw_attr tio =
     tio\<lparr>c_lflag := c_lflag tio AND NOT (ECHO OR ICANON OR ISIG OR IEXTEN),
         c_iflag := c_iflag tio AND NOT (IXON OR ICRNL OR ISTRIP OR BRKINT),
         c_oflag := c_oflag tio AND NOT OPOST, vmin := 1, vtime := 0\<rparr>"

definition tui_raw_mode_enter :: "terminal \<Rightarrow> terminal" where
  "tui_raw_mode_enter m =
     (if tm_raw m then m else m\<lparr>tm_orig := tm_tio m, tm_tio := raw_attr (tm_tio m), tm_raw := True\<rparr>)"

definition tui_raw_mode_exit :: "terminal \<Rightarrow> terminal" where
  "tui_raw_mode_exit m = (if \<not> tm_raw m then m else m\<lparr>tm_tio := tm_orig m, tm_raw := False\<rparr>)"

definition tui_terminal_width :: "terminal \<Rightarrow> int" where
  "tui_terminal_width m = (case tm_winsize m of None \<Rightarrow> 80 | Some (cols, rows) \<Rightarrow> if cols > 0 then int cols else 80)"

definition tui_terminal_height :: "terminal \<Rightarrow> int" where
  "tui_terminal_height m = (case tm_winsize m of None \<Rightarrow> 24 | Some (cols, rows) \<Rightarrow> if rows > 0 then int rows else 24)"

definition tui_write :: "string \<Rightarrow> terminal \<Rightarrow> terminal" where
  "tui_write s m = m\<lparr>tm_out := tm_out m @ s\<rparr>"

text \<open>The callers format integers only; \<open>tui_printf\<close> gets the formatted text.\<close>

definition tui_printf :: "string \<Rightarrow> terminal \<Rightarrow> terminal" where
  "tui_printf s = tui_write (snprintf 4096 s)"

definition esc :: "string \<Rightarrow> string" where
  "esc s = CHR 0x1B # s"

text \<open>The C string in a character array.\<close>

definition cstr :: "string \<Rightarrow> string" where
  "cstr b = takeWhile (\<lambda>c. c \<noteq> CHR 0x00) b"

text \<open>\<open>%d\<close>.\<close>

definition dec_int :: "int \<Rightarrow> string" where
  "dec_int i = (if i < 0 then CHR ''-'' # dec (nat (- i)) else dec (nat i))"

definition tui_clear :: "terminal \<Rightarrow> terminal" where
  "tui_clear = tui_write (esc ''[2J'' @ esc ''[3J'' @ esc ''[H'')"

definition tui_move_cursor :: "int \<Rightarrow> int \<Rightarrow> terminal \<Rightarrow> terminal" where
  "tui_move_cursor x y = tui_printf (esc ''['' @ dec_int y @ '';'' @ dec_int x @ ''H'')"

definition tui_cursor_save :: "terminal \<Rightarrow> terminal" where
  "tui_cursor_save = tui_write (esc ''7'')"

definition tui_cursor_restore :: "terminal \<Rightarrow> terminal" where
  "tui_cursor_restore = tui_write (esc ''8'')"

definition tui_cursor_hide :: "terminal \<Rightarrow> terminal" where
  "tui_cursor_hide = tui_write (esc ''[?25l'')"

definition tui_cursor_show :: "terminal \<Rightarrow> terminal" where
  "tui_cursor_show = tui_write (esc ''[?25h'')"

definition tui_set_bg :: "int \<Rightarrow> terminal \<Rightarrow> terminal" where
  "tui_set_bg color = tui_printf (esc ''[48;5;'' @ dec_int color @ ''m'')"

definition tui_set_fg :: "int \<Rightarrow> terminal \<Rightarrow> terminal" where
  "tui_set_fg color = tui_printf (esc ''[38;5;'' @ dec_int color @ ''m'')"

definition tui_reset_attr :: "terminal \<Rightarrow> terminal" where
  "tui_reset_attr = tui_write (esc ''[0m'')"

definition tui_set_bold :: "terminal \<Rightarrow> terminal" where
  "tui_set_bold = tui_write (esc ''[1m'')"

definition tui_set_dim :: "terminal \<Rightarrow> terminal" where
  "tui_set_dim = tui_write (esc ''[2m'')"

definition tui_erase_line :: "terminal \<Rightarrow> terminal" where
  "tui_erase_line = tui_write (esc ''[2K'' @ [CHR 0x0D])"

definition tui_input_enable_mouse :: "terminal \<Rightarrow> terminal" where
  "tui_input_enable_mouse m = (tui_write (esc ''[?1000h'' @ esc ''[?1006h'') m)\<lparr>tm_mouse := True\<rparr>"

definition tui_input_disable_mouse :: "terminal \<Rightarrow> terminal" where
  "tui_input_disable_mouse m = (tui_write (esc ''[?1006l'' @ esc ''[?1000l'') m)\<lparr>tm_mouse := False\<rparr>"

text \<open>The handlers of SIGWINCH and SIGCONT that are installed here do nothing.\<close>

definition tui_screen_setup :: "terminal \<Rightarrow> terminal" where
  "tui_screen_setup m = tui_cursor_hide (tui_clear (tui_raw_mode_enter m))"

definition tui_screen_restore :: "terminal \<Rightarrow> terminal" where
  "tui_screen_restore m = tui_raw_mode_exit (tui_clear (tui_cursor_show m))"

text \<open>\<open>tui_input_init\<close> has no code on POSIX systems.\<close>

definition tui_term_init :: "terminal \<Rightarrow> terminal" where
  "tui_term_init = tui_screen_setup"

definition tui_term_restore :: "terminal \<Rightarrow> terminal" where
  "tui_term_restore = tui_screen_restore"

definition tui_shutdown :: "terminal \<Rightarrow> terminal" where
  "tui_shutdown m = tui_term_restore (tui_input_disable_mouse m)"

section \<open>The state of the interface\<close>

record chat_line =
  cl_text :: string
  cl_sender_port :: u16
  cl_is_self :: bool
  cl_line :: nat
  cl_timestamp :: u64
  cl_status :: nat
  cl_seq :: u32

record tui =
  t_width :: int
  t_height :: int
  t_dirty :: bool
  t_screen :: screen
  t_running :: bool
  t_space :: bool
  t_user_tab :: int
  t_adv_tab :: int
  t_adv_paused :: bool
  t_adv_selected_row :: int
  t_username :: string
  t_display_name :: string
  t_identity :: identity
  t_identity_ready :: bool
  t_login_username :: string
  t_login_display :: string
  t_login_field :: int
  t_login_error :: bool
  t_peer_scroll :: int
  t_peer_selected :: int
  t_peers :: "peer_entry list"
  t_show_conn_popup :: bool
  t_conn_req_addr :: string
  t_conn_req_port :: u16
  t_conn_req_username :: string
  t_conn_req_display :: string
  t_conn_popup_selection :: int
  t_show_call_popup :: bool
  t_call_req_peer :: string
  t_call_popup_type :: int
  t_call_popup_selection :: int
  t_chat_lines :: "chat_line list"
  t_chat_partner :: string
  t_conn_info :: conn_info
  t_current_room :: string
  t_group_focus :: int
  t_group_room_scroll :: int
  t_group_member_scroll :: int
  t_input_buf :: string
  t_input_len :: nat
  t_input_pos :: nat
  t_input_active :: bool
  t_typing_peer :: string
  t_typing_tick :: int
  t_typing_flag :: bool
  t_unread_count :: int
  t_mouse_event :: bool
  t_mouse_last_x :: int
  t_mouse_last_y :: int
  t_mouse_btn :: int
  t_mouse_scroll :: int
  t_log :: "string list"
  t_audio_active :: bool
  t_video_active :: bool
  t_settings_selection :: int

definition conn_info_zero :: conn_info where
  "conn_info_zero = \<lparr>ci_state = CONN_IDLE, ci_session_id = 0, ci_peer_port = 0, ci_uptime_ms = 0, ci_fec_enabled = False,
     ci_path_count = 0, ci_paths = []\<rparr>"

definition tui_init :: tui where
  "tui_init = \<lparr>t_width = 0, t_height = 0, t_dirty = True, t_screen = SCREEN_LOGIN, t_running = True, t_space = False,
     t_user_tab = 0, t_adv_tab = 0, t_adv_paused = False, t_adv_selected_row = 0, t_username = [], t_display_name = [],
     t_identity = identity_zero, t_identity_ready = False, t_login_username = [], t_login_display = [], t_login_field = 0,
     t_login_error = False, t_peer_scroll = 0, t_peer_selected = 0, t_peers = [], t_show_conn_popup = False,
     t_conn_req_addr = [], t_conn_req_port = 0, t_conn_req_username = [], t_conn_req_display = [],
     t_conn_popup_selection = 0, t_show_call_popup = False, t_call_req_peer = [], t_call_popup_type = 0,
     t_call_popup_selection = 0, t_chat_lines = [], t_chat_partner = [], t_conn_info = conn_info_zero,
     t_current_room = [], t_group_focus = GROUP_FOCUS_ROOMS, t_group_room_scroll = 0, t_group_member_scroll = 0,
     t_input_buf = replicate TUI_INPUT_BUF (CHR 0x00), t_input_len = 0, t_input_pos = 0, t_input_active = True,
     t_typing_peer = [], t_typing_tick = 0, t_typing_flag = False, t_unread_count = 0, t_mouse_event = False,
     t_mouse_last_x = 0, t_mouse_last_y = 0, t_mouse_btn = 0, t_mouse_scroll = 0, t_log = [], t_audio_active = False,
     t_video_active = False, t_settings_selection = 0\<rparr>"

abbreviation peer_count :: "tui \<Rightarrow> int" where "peer_count t \<equiv> int (length (t_peers t))"

text \<open>\<open>raise(SIGTSTP)\<close> stops the process until it is continued.\<close>

definition tui_suspend :: "terminal \<times> tui \<Rightarrow> terminal \<times> tui" where
  "tui_suspend = (\<lambda>(m, t).
     (tui_clear (tui_cursor_hide (tui_raw_mode_enter (tui_raw_mode_exit (tui_cursor_show m)))), t\<lparr>t_dirty := True\<rparr>))"

definition tui_add_chat :: "u64 \<Rightarrow> string \<Rightarrow> u16 \<Rightarrow> bool \<Rightarrow> tui \<Rightarrow> tui" where
  "tui_add_chat now text port is_self t =
     (let ls = (if length (t_chat_lines t) \<ge> TUI_MAX_CHAT_LINES then tl (t_chat_lines t) else t_chat_lines t)
      in t\<lparr>t_chat_lines := ls @ [\<lparr>cl_text = snprintf 1024 text, cl_sender_port = port, cl_is_self = is_self,
             cl_line = length ls + 1, cl_timestamp = now, cl_status = (if is_self then 0 else 1), cl_seq = 0\<rparr>],
           t_dirty := True\<rparr>)"

definition tui_add_chat_with_seq :: "u64 \<Rightarrow> string \<Rightarrow> u16 \<Rightarrow> bool \<Rightarrow> u32 \<Rightarrow> tui \<Rightarrow> tui" where
  "tui_add_chat_with_seq now text port is_self sq t =
     (let t1 = tui_add_chat now text port is_self t; n = length (t_chat_lines t1)
      in if n > 0 then t1\<lparr>t_chat_lines := (t_chat_lines t1)[n - 1 := (t_chat_lines t1 ! (n - 1))\<lparr>cl_seq := sq\<rparr>]\<rparr> else t1)"

definition tui_update_info :: "conn_info \<Rightarrow> tui \<Rightarrow> tui" where
  "tui_update_info info t = t\<lparr>t_conn_info := info\<rparr>"

definition tui_add_log :: "string \<Rightarrow> tui \<Rightarrow> tui" where
  "tui_add_log msg t = (if length (t_log t) < TUI_LOG_LINES then t\<lparr>t_log := t_log t @ [snprintf 256 msg]\<rparr> else t)"

text \<open>\<open>ts\<close> is the local time that \<open>strftime\<close> prints, \<open>None\<close> when \<open>localtime\<close> fails.\<close>

definition tui_event_journal_add :: "string option \<Rightarrow> string \<Rightarrow> string \<Rightarrow> tui \<Rightarrow> tui" where
  "tui_event_journal_add ts category msg =
     tui_add_log (snprintf 256 (''['' @ (case ts of None \<Rightarrow> ''--:--:--'' | Some x \<Rightarrow> x) @ ''] ['' @ category @ ''] '' @ msg))"

end
