(* ===== verification/Tui_Input.thy ===== *)
theory Tui_Input
  imports Tui_State
begin

text \<open>
  Keyboard and mouse input (\<open>app/tui_input.c\<close>): the decoding of escape sequences, one handler per
  screen and popup, and their dispatch \<open>tui_input_poll\<close>. A key is an \<open>int\<close> as in the code: a byte, or
  a negative code for a key that the terminal sends as a sequence. The handlers of the login screen
  and of the popups take a \<open>char\<close>, which is signed.
\<close>

abbreviation (input) TUI_KEY_LOGIN_SUBMIT :: int where "TUI_KEY_LOGIN_SUBMIT \<equiv> -10"
abbreviation (input) TUI_KEY_CONN_ACCEPT :: int where "TUI_KEY_CONN_ACCEPT \<equiv> -4"
abbreviation (input) TUI_KEY_CONN_DECLINE :: int where "TUI_KEY_CONN_DECLINE \<equiv> -5"
abbreviation (input) TUI_KEY_AUDIO_TOGGLE :: int where "TUI_KEY_AUDIO_TOGGLE \<equiv> -20"
abbreviation (input) TUI_KEY_VIDEO_TOGGLE :: int where "TUI_KEY_VIDEO_TOGGLE \<equiv> -21"
abbreviation (input) TUI_KEY_FILE_SEND :: int where "TUI_KEY_FILE_SEND \<equiv> -22"
abbreviation (input) TUI_KEY_CALL_ACCEPT :: int where "TUI_KEY_CALL_ACCEPT \<equiv> -30"
abbreviation (input) TUI_KEY_CALL_DECLINE :: int where "TUI_KEY_CALL_DECLINE \<equiv> -31"
abbreviation (input) TUI_KEY_VID_CALL_ACCEPT :: int where "TUI_KEY_VID_CALL_ACCEPT \<equiv> -32"
abbreviation (input) TUI_KEY_VID_CALL_DECLINE :: int where "TUI_KEY_VID_CALL_DECLINE \<equiv> -33"
abbreviation (input) TUI_KEY_PEER_BASE :: int where "TUI_KEY_PEER_BASE \<equiv> 10"
abbreviation (input) TUI_KEY_SETTINGS_OPEN :: int where "TUI_KEY_SETTINGS_OPEN \<equiv> -40"
abbreviation (input) TUI_KEY_ADV_OPEN :: int where "TUI_KEY_ADV_OPEN \<equiv> -41"

text \<open>\<open>(char)key\<close>, and the key of a character literal.\<close>

definition to_char :: "int \<Rightarrow> int" where
  "to_char k = (k + 128) mod 256 - 128"

definition key_of :: "char \<Rightarrow> int" where
  "key_of c = of_char c"

definition char_key :: "int \<Rightarrow> char" where
  "char_key k = char_of (nat k)"

section \<open>Reading keys\<close>

text \<open>
  What \<open>poll\<close> and \<open>read\<close> give: whether a byte is there before the timeout, whether more bytes follow an
  ESC at once, the bytes in the order in which they are read (\<open>read\<close> waits for the next one and
  fails at the end), and what lies in memory behind an unterminated array.
\<close>

record stdin =
  in_ready :: bool
  in_more :: bool
  in_bytes :: string
  in_junk :: string

fun sgr_bytes :: "nat \<Rightarrow> string \<Rightarrow> (string \<times> bool) option \<times> string" where
  "sgr_bytes 0 inp = (Some ([], False), inp)"
| "sgr_bytes (Suc n) [] = (None, [])"
| "sgr_bytes (Suc n) (c # r) =
     (if c = CHR ''M'' \<or> c = CHR ''m'' then (Some ([], True), r)
      else case sgr_bytes n r of
        (None, r1) \<Rightarrow> (None, r1)
      | (Some (b, z), r1) \<Rightarrow> (Some (c # b, z), r1))"

text \<open>\<open>sscanf(buf, "%d;%d;%d", &b, &x, &y) >= 3\<close>.\<close>

definition scan_sgr :: "string \<Rightarrow> (int \<times> int \<times> int) option" where
  "scan_sgr s = do {
     (b, r) \<leftarrow> scan_int s;
     r1 \<leftarrow> scan_char (CHR '';'') r;
     (x, r2) \<leftarrow> scan_int r1;
     r3 \<leftarrow> scan_char (CHR '';'') r2;
     (y, _) \<leftarrow> scan_int r3;
     Some (b, x, y)
   }"

definition read_mouse_sgr :: "string \<Rightarrow> string \<Rightarrow> (int \<times> int \<times> int) option \<times> string" where
  "read_mouse_sgr junk inp =
     (case sgr_bytes 31 inp of
        (None, r) \<Rightarrow> (None, r)
      | (Some (b, terminated), r) \<Rightarrow>
          (if b = [] then None else scan_sgr (if terminated then b else b @ junk), r))"

text \<open>The helper \<open>read_escape_seq\<close>, which no code calls.\<close>

definition read_escape_seq :: "bool \<Rightarrow> string \<Rightarrow> string \<Rightarrow> int \<times> (int \<times> int \<times> int) option \<times> string" where
  "read_escape_seq mouse_enabled junk inp =
     (case inp of
        [] \<Rightarrow> (0, None, [])
      | c0 # r0 \<Rightarrow>
          if c0 \<noteq> CHR ''['' then (0, None, r0)
          else case r0 of
            [] \<Rightarrow> (0, None, [])
          | c1 # r1 \<Rightarrow>
              if c1 = CHR ''<'' \<and> mouse_enabled then (let (m, r) = read_mouse_sgr junk r1 in (0, m, r))
              else (if c1 = CHR ''A'' then -1 else if c1 = CHR ''B'' then -2 else if c1 = CHR ''C'' then -3
                    else if c1 = CHR ''D'' then -4 else 0, None, r1))"

definition mouse_key :: "int \<times> int \<times> int \<Rightarrow> tui \<Rightarrow> int \<times> tui" where
  "mouse_key = (\<lambda>(mbtn, mx, my) t.
     let is_release = mbtn AND 32 \<noteq> 0;
         btn = mbtn AND NOT 32;
         is_scroll = 64 \<le> btn \<and> btn \<le> 65;
         scroll_dir = (if btn = 64 then -1 else if btn = 65 then 1 else 0)
     in (if is_scroll then -200 + scroll_dir else if \<not> is_release \<and> btn \<le> 2 then -100 + btn else 0,
         t\<lparr>t_mouse_last_x := mx, t_mouse_last_y := my,
           t_mouse_btn := (if is_release then 0 else if btn \<le> 2 then btn else 0),
           t_mouse_scroll := scroll_dir, t_mouse_event := True, t_dirty := True\<rparr>))"

text \<open>The sequences \<open>ESC [ p d ~\<close>: after the prefix \<open>p\<close>, the digit selects a function key.\<close>

fun fkey1 :: "char \<Rightarrow> int option" where
  "fkey1 c = (if c = CHR ''5'' then Some (-15) else if c = CHR ''7'' then Some (-16) else if c = CHR ''8'' then Some (-17)
     else if c = CHR ''9'' then Some (-18) else if c = CHR ''0'' then Some (-19) else if c = CHR ''2'' then Some (-12) else None)"

fun fkey2 :: "char \<Rightarrow> int option" where
  "fkey2 c = (if c = CHR ''1'' then Some (-19) else if c = CHR ''3'' then Some (-20) else if c = CHR ''4'' then Some (-21) else None)"

definition read_tilde :: "(char \<Rightarrow> int option) \<Rightarrow> string \<Rightarrow> int \<times> string" where
  "read_tilde tab r =
     (case r of
        [] \<Rightarrow> (27, [])
      | c2 # r2 \<Rightarrow>
          case tab c2 of
            None \<Rightarrow> (27, r2)
          | Some k \<Rightarrow> (case r2 of [] \<Rightarrow> (27, []) | c3 # r3 \<Rightarrow> (if c3 = CHR ''~'' then k else 27, r3)))"

definition read_csi :: "string \<Rightarrow> string \<Rightarrow> tui \<Rightarrow> (int \<times> string) \<times> tui" where
  "read_csi junk r t =
     (case r of
        [] \<Rightarrow> ((27, []), t)
      | c1 # r1 \<Rightarrow>
          if c1 = CHR ''A'' then ((-1, r1), t)
          else if c1 = CHR ''B'' then ((-2, r1), t)
          else if c1 = CHR ''C'' then ((-3, r1), t)
          else if c1 = CHR ''D'' then ((-4, r1), t)
          else if c1 = CHR ''O'' then
            (case r1 of
               [] \<Rightarrow> ((27, []), t)
             | c2 # r2 \<Rightarrow> ((if c2 = CHR ''Q'' then -12 else if c2 = CHR ''R'' then -13 else if c2 = CHR ''S'' then -14 else 27, r2), t))
          else if c1 = CHR ''1'' then (read_tilde fkey1 r1, t)
          else if c1 = CHR ''2'' then (read_tilde fkey2 r1, t)
          else if c1 = CHR ''<'' then
            (case read_mouse_sgr junk r1 of
               (None, r2) \<Rightarrow> ((27, r2), t)
             | (Some m, r2) \<Rightarrow> let (k, t1) = mouse_key m t in ((k, r2), t1))
          else ((27, r1), t))"

definition read_ss3 :: "string \<Rightarrow> int \<times> string" where
  "read_ss3 r =
     (case r of
        [] \<Rightarrow> (27, [])
      | c1 # r1 \<Rightarrow> (if c1 = CHR ''P'' then -11 else if c1 = CHR ''Q'' then -12 else if c1 = CHR ''R'' then -13
                     else if c1 = CHR ''S'' then -14 else 0, r1))"

text \<open>The first byte \<open>c\<close> has been read; the result is the key and the bytes that are left.\<close>

definition read_key :: "stdin \<Rightarrow> char \<Rightarrow> string \<Rightarrow> tui \<Rightarrow> (int \<times> string) \<times> tui" where
  "read_key I c inp t =
     (if key_of c = 27 \<and> in_more I then
        (case inp of
           [] \<Rightarrow> ((27, []), t)
         | c0 # r0 \<Rightarrow>
             if c0 = CHR ''['' then read_csi (in_junk I) r0 t
             else if c0 = CHR ''O'' then (read_ss3 r0, t)
             else ((27, r0), t))
      else ((key_of c, inp), t))"

section \<open>The handlers of the screens\<close>

definition clear_input :: "tui \<Rightarrow> tui" where
  "clear_input t = t\<lparr>t_input_buf := (t_input_buf t)[0 := CHR 0x00], t_input_len := 0, t_input_pos := 0\<rparr>"

definition upd_field :: "(string \<Rightarrow> string) \<Rightarrow> tui \<Rightarrow> tui" where
  "upd_field f t = (if t_login_field t = 0 then t\<lparr>t_login_username := f (t_login_username t)\<rparr>
     else t\<lparr>t_login_display := f (t_login_display t)\<rparr>)"

definition handle_login_input :: "int \<Rightarrow> tui \<Rightarrow> int \<times> tui" where
  "handle_login_input c t =
     (if c = 9 then (0, t\<lparr>t_login_field := 1 - t_login_field t, t_dirty := True\<rparr>)
      else if c = 10 \<or> c = 13 then
        (if t_login_username t = [] then (0, t\<lparr>t_login_error := True, t_dirty := True\<rparr>)
         else let t1 = t\<lparr>t_login_error := False\<rparr>;
                  t2 = (if t_login_display t1 = [] then t1\<lparr>t_login_display := snprintf 64 (t_login_username t1)\<rparr> else t1)
              in (TUI_KEY_LOGIN_SUBMIT, (clear_input t2)\<lparr>t_dirty := True\<rparr>))
      else if c = 27 then (0, t)
      else let flen = length (if t_login_field t = 0 then t_login_username t else t_login_display t) in
        if c = 127 \<or> c = 8 then (0, (if flen > 0 then upd_field butlast t else t)\<lparr>t_dirty := True\<rparr>)
        else if 32 \<le> c \<and> c < 127 \<and> flen < 30 then (0, (upd_field (\<lambda>s. s @ [char_key c]) t)\<lparr>t_dirty := True\<rparr>)
        else (0, t))"

text \<open>The second result is \<open>*selected_peer\<close>.\<close>

definition handle_peer_list_input :: "int \<Rightarrow> tui \<Rightarrow> int \<times> int option \<times> tui" where
  "handle_peer_list_input c t =
     (if c = key_of CHR ''q'' \<or> c = key_of CHR ''Q'' then (0, None, t\<lparr>t_running := False\<rparr>)
      else if c = 27 \<or> c = -4 then (0, None, (clear_input (t\<lparr>t_screen := SCREEN_LOGIN\<rparr>))\<lparr>t_dirty := True\<rparr>)
      else if c = key_of CHR ''r'' \<or> c = key_of CHR ''R'' then (0, None, t\<lparr>t_dirty := True\<rparr>)
      else if c = key_of CHR ''g'' \<or> c = key_of CHR ''G'' then
        (0, None, (clear_input (t\<lparr>t_screen := SCREEN_GROUP, t_group_focus := GROUP_FOCUS_ROOMS\<rparr>))\<lparr>t_dirty := True\<rparr>)
      else if c = 19 then (TUI_KEY_SETTINGS_OPEN, None, t)
      else if c = 10 \<or> c = -3 then
        (if 0 \<le> t_peer_selected t \<and> t_peer_selected t < peer_count t then (1, Some (t_peer_selected t), t) else (0, None, t))
      else if c = key_of CHR ''j'' \<or> c = 14 \<or> c = -2 then
        (0, None, if t_peer_selected t < peer_count t - 1
          then let s = t_peer_selected t + 1
               in t\<lparr>t_peer_selected := s,
                    t_peer_scroll := (if s - t_peer_scroll t \<ge> t_height t - 5 then t_peer_scroll t + 1 else t_peer_scroll t),
                    t_dirty := True\<rparr>
          else t)
      else if c = key_of CHR ''k'' \<or> c = 16 \<or> c = -1 then
        (0, None, if t_peer_selected t > 0
          then let s = t_peer_selected t - 1
               in t\<lparr>t_peer_selected := s,
                    t_peer_scroll := (if s < t_peer_scroll t then t_peer_scroll t - 1 else t_peer_scroll t),
                    t_dirty := True\<rparr>
          else t)
      else (0, None, t))"

text \<open>The second result is \<open>*popup_accept\<close>.\<close>

definition handle_popup_input :: "int \<Rightarrow> tui \<Rightarrow> int \<times> bool \<times> tui" where
  "handle_popup_input c t =
     (if c = 9 then (0, False, t\<lparr>t_conn_popup_selection := 1 - t_conn_popup_selection t, t_dirty := True\<rparr>)
      else if c = 10 \<or> c = -3 then (1, t_conn_popup_selection t = 0, t\<lparr>t_show_conn_popup := False, t_dirty := True\<rparr>)
      else if c = 27 \<or> c = -4 then (0, False, t\<lparr>t_show_conn_popup := False, t_dirty := True\<rparr>)
      else (0, False, t))"

definition handle_call_popup_input :: "int \<Rightarrow> tui \<Rightarrow> int \<times> tui" where
  "handle_call_popup_input c t =
     (if c = 9 then (0, t\<lparr>t_call_popup_selection := 1 - t_call_popup_selection t, t_dirty := True\<rparr>)
      else if c = 10 \<or> c = -3 then
        (if t_call_popup_selection t = 0
         then (if t_call_popup_type t = 0 then TUI_KEY_CALL_ACCEPT else TUI_KEY_VID_CALL_ACCEPT)
         else (if t_call_popup_type t = 0 then TUI_KEY_CALL_DECLINE else TUI_KEY_VID_CALL_DECLINE),
         t\<lparr>t_show_call_popup := False, t_dirty := True\<rparr>)
      else if c = 27 \<or> c = -4 then (0, t\<lparr>t_show_call_popup := False, t_dirty := True\<rparr>)
      else (0, t))"

text \<open>\<open>memmove(b + dst, b + src, n)\<close>.\<close>

definition memmove :: "nat \<Rightarrow> nat \<Rightarrow> nat \<Rightarrow> 'a list \<Rightarrow> 'a list" where
  "memmove dst src n b = mem_write dst (mem_read src n b) b"

definition handle_chat_input :: "int \<Rightarrow> tui \<Rightarrow> int \<times> tui" where
  "handle_chat_input c t =
     (if c = 27 \<or> c = -4 then (0, (clear_input (t\<lparr>t_screen := SCREEN_PEER_LIST\<rparr>))\<lparr>t_dirty := True\<rparr>)
      else if c = key_of CHR ''q'' \<and> t_input_len t = 0 then (0, t\<lparr>t_running := False\<rparr>)
      else if c = 1 then (TUI_KEY_AUDIO_TOGGLE, t)
      else if c = 22 then (TUI_KEY_VIDEO_TOGGLE, t)
      else if c = 6 then (TUI_KEY_FILE_SEND, t)
      else if c = 19 then (TUI_KEY_SETTINGS_OPEN, t)
      else if c = 10 \<or> c = 13 then
        (if t_input_len t > 0
         then (int (t_input_len t), t\<lparr>t_input_buf := (t_input_buf t)[t_input_len t := CHR 0x00], t_input_len := 0,
                 t_input_pos := 0, t_dirty := True\<rparr>)
         else (0, t))
      else if c = 127 \<or> c = 8 then
        (0, if t_input_pos t > 0
            then let p = t_input_pos t - 1
                 in t\<lparr>t_input_pos := p, t_input_buf := memmove p (p + 1) (t_input_len t - p - 1) (t_input_buf t),
                      t_input_len := t_input_len t - 1, t_dirty := True\<rparr>
            else t)
      else if 32 \<le> c \<and> c < 127 \<and> t_input_len t < TUI_INPUT_BUF - 1 then
        (0, let p = t_input_pos t
            in t\<lparr>t_input_buf := (memmove (p + 1) p (t_input_len t - p) (t_input_buf t))[p := char_key c],
                 t_input_pos := p + 1, t_input_len := t_input_len t + 1, t_dirty := True, t_typing_flag := True\<rparr>)
      else (0, t))"

text \<open>The keys that move in the list of rooms and in the list of members.\<close>

definition room_keys :: "int \<Rightarrow> int \<Rightarrow> tui \<Rightarrow> tui" where
  "room_keys c count t =
     (let t1 = (if (c = key_of CHR ''j'' \<or> c = -2) \<and> t_group_room_scroll t + 1 < count
                then t\<lparr>t_group_room_scroll := t_group_room_scroll t + 1, t_dirty := True\<rparr> else t)
      in if (c = key_of CHR ''k'' \<or> c = -1) \<and> t_group_room_scroll t1 > 0
         then t1\<lparr>t_group_room_scroll := t_group_room_scroll t1 - 1, t_dirty := True\<rparr> else t1)"

definition member_keys :: "int \<Rightarrow> int \<Rightarrow> tui \<Rightarrow> tui" where
  "member_keys c count t =
     (let t1 = (if (c = key_of CHR ''j'' \<or> c = -2) \<and> t_group_member_scroll t + 1 < count
                then t\<lparr>t_group_member_scroll := t_group_member_scroll t + 1, t_dirty := True\<rparr> else t)
      in if (c = key_of CHR ''k'' \<or> c = -1) \<and> t_group_member_scroll t1 > 0
         then t1\<lparr>t_group_member_scroll := t_group_member_scroll t1 - 1, t_dirty := True\<rparr> else t1)"

definition handle_group_input :: "groups \<Rightarrow> int \<Rightarrow> tui \<Rightarrow> int \<times> tui" where
  "handle_group_input G c t =
     (if c = 9 then (0, t\<lparr>t_group_focus := (t_group_focus t + 1) mod 3, t_dirty := True\<rparr>)
      else if c = 27 \<or> c = -4 then (0, (clear_input (t\<lparr>t_screen := SCREEN_PEER_LIST\<rparr>))\<lparr>t_dirty := True\<rparr>)
      else if c = key_of CHR ''q'' \<and> t_input_len t = 0 then (0, t\<lparr>t_running := False\<rparr>)
      else let (count, rooms) = group_get_rooms G in
        if t_group_focus t = GROUP_FOCUS_ROOMS then
          (let t2 = room_keys c (int count) t
           in if (c = 10 \<or> c = -3) \<and> t_group_room_scroll t2 < int count
              then (0, (clear_input (t2\<lparr>t_current_room := snprintf 32 (room_name (rooms ! nat (t_group_room_scroll t2)))\<rparr>))\<lparr>t_dirty := True\<rparr>)
              else (0, t2))
        else if t_group_focus t = GROUP_FOCUS_MEMBERS then
          (case (if t_current_room t \<noteq> [] then group_find (t_current_room t) G else None) of
             None \<Rightarrow> (0, t)
           | Some i \<Rightarrow> (0, member_keys c (int (length (room_members (rooms ! i)))) t))
        else if t_group_focus t = GROUP_FOCUS_CHAT then handle_chat_input c t
        else (0, t))"

definition handle_settings_input :: "int \<Rightarrow> tui \<Rightarrow> int \<times> tui" where
  "handle_settings_input c t =
     (if c = key_of CHR ''q'' \<or> c = key_of CHR ''Q'' then (0, t\<lparr>t_running := False\<rparr>)
      else if c = 27 \<or> c = -4 then (0, t\<lparr>t_screen := SCREEN_PEER_LIST, t_dirty := True\<rparr>)
      else if c = key_of CHR ''j'' \<or> c = -2 then
        (0, if t_settings_selection t < 5 then t\<lparr>t_settings_selection := t_settings_selection t + 1, t_dirty := True\<rparr> else t)
      else if c = key_of CHR ''k'' \<or> c = -1 then
        (0, if t_settings_selection t > 0 then t\<lparr>t_settings_selection := t_settings_selection t - 1, t_dirty := True\<rparr> else t)
      else if c = 10 \<or> c = -3 then
        (0, if t_settings_selection t = 4
            then t\<lparr>t_screen := SCREEN_ADVANCED, t_adv_tab := 0, t_adv_paused := False, t_space := True, t_dirty := True\<rparr>
            else if t_settings_selection t = 5 then t\<lparr>t_running := False\<rparr>
            else t\<lparr>t_dirty := True\<rparr>)
      else if c = 4 then (TUI_KEY_ADV_OPEN, t)
      else (0, t))"

definition handle_advanced_input :: "int \<Rightarrow> tui \<Rightarrow> int \<times> tui" where
  "handle_advanced_input c t =
     (0,
      if c = 27 \<or> c = -4 then t\<lparr>t_screen := SCREEN_SETTINGS, t_space := False, t_dirty := True\<rparr>
      else if c = key_of CHR ''q'' \<or> c = key_of CHR ''Q'' then t\<lparr>t_running := False\<rparr>
      else if c = key_of CHR ''p'' \<or> c = key_of CHR ''P'' then t\<lparr>t_adv_paused := \<not> t_adv_paused t, t_dirty := True\<rparr>
      else if c = key_of CHR ''r'' \<or> c = key_of CHR ''R'' then t\<lparr>t_dirty := True\<rparr>
      else if c = -3 \<or> c = 10 then t\<lparr>t_dirty := True\<rparr>
      else if c = -12 then t\<lparr>t_screen := SCREEN_PEER_LIST, t_space := False, t_dirty := True\<rparr>
      else if c = 9 then t\<lparr>t_adv_tab := (t_adv_tab t + 1) mod ADV_TAB_COUNT, t_dirty := True\<rparr>
      else if c = key_of CHR ''['' then t\<lparr>t_adv_tab := (t_adv_tab t - 1 + ADV_TAB_COUNT) mod ADV_TAB_COUNT, t_dirty := True\<rparr>
      else if c = key_of CHR '']'' then t\<lparr>t_adv_tab := (t_adv_tab t + 1) mod ADV_TAB_COUNT, t_dirty := True\<rparr>
      else if c = key_of CHR ''j'' \<or> c = key_of CHR ''k'' \<or> c = -1 \<or> c = -2 then
        (if c = key_of CHR ''j'' \<or> c = -2
         then (if t_adv_selected_row t < 5 then t\<lparr>t_adv_selected_row := t_adv_selected_row t + 1\<rparr> else t)
         else (if t_adv_selected_row t > 0 then t\<lparr>t_adv_selected_row := t_adv_selected_row t - 1\<rparr> else t))\<lparr>t_dirty := True\<rparr>
      else t)"

section \<open>Dispatch\<close>

definition handle_key :: "groups \<Rightarrow> int \<Rightarrow> tui \<Rightarrow> int \<times> tui" where
  "handle_key G key t =
     (if t_show_conn_popup t then
        (let (r, accept, t1) = handle_popup_input (to_char key) t
         in (if r > 0 then if accept then TUI_KEY_CONN_ACCEPT else TUI_KEY_CONN_DECLINE else 0, t1))
      else if t_show_call_popup t then handle_call_popup_input (to_char key) t
      else case t_screen t of
        SCREEN_LOGIN \<Rightarrow> handle_login_input (to_char key) t
      | SCREEN_PEER_LIST \<Rightarrow>
          (let (r, sel, t1) = handle_peer_list_input key t
           in (case sel of Some s \<Rightarrow> if r > 0 \<and> s \<ge> 0 then s + TUI_KEY_PEER_BASE else 0 | None \<Rightarrow> 0, t1))
      | SCREEN_CHAT \<Rightarrow> handle_chat_input key t
      | SCREEN_GROUP \<Rightarrow> handle_group_input G key t
      | SCREEN_SETTINGS \<Rightarrow> handle_settings_input key t
      | SCREEN_ADVANCED \<Rightarrow> handle_advanced_input key t)"

definition tui_input_poll :: "groups \<Rightarrow> stdin \<Rightarrow> terminal \<times> tui \<Rightarrow> int \<times> stdin \<times> terminal \<times> tui" where
  "tui_input_poll G I = (\<lambda>(m, t).
     if \<not> in_ready I then (0, I, m, t)
     else case in_bytes I of
       [] \<Rightarrow> (0, I, m, t)
     | c # r \<Rightarrow>
         let ((key, rest), t1) = read_key I c r t; I1 = I\<lparr>in_bytes := rest\<rparr>
         in if key = 3 then (0, I1, m, t1\<lparr>t_running := False\<rparr>)
            else if key = 26 then (let (m1, t2) = tui_suspend (m, t1) in (0, I1, m1, t2))
            else let (k, t2) = handle_key G key t1 in (k, I1, m, t2))"

section \<open>Indices stay in range\<close>

definition input_ok :: "tui \<Rightarrow> bool" where
  "input_ok t \<longleftrightarrow> length (t_input_buf t) = TUI_INPUT_BUF \<and> t_input_pos t \<le> t_input_len t \<and> t_input_len t < TUI_INPUT_BUF"

definition select_ok :: "tui \<Rightarrow> bool" where
  "select_ok t \<longleftrightarrow>
     t_login_field t \<in> {0, 1} \<and> t_conn_popup_selection t \<in> {0, 1} \<and> t_call_popup_selection t \<in> {0, 1} \<and>
     0 \<le> t_adv_tab t \<and> t_adv_tab t < ADV_TAB_COUNT \<and> 0 \<le> t_adv_selected_row t \<and> t_adv_selected_row t < 6 \<and>
     0 \<le> t_settings_selection t \<and> t_settings_selection t < 6 \<and> 0 \<le> t_group_focus t \<and> t_group_focus t < 3 \<and>
     0 \<le> t_group_room_scroll t \<and> 0 \<le> t_group_member_scroll t \<and>
     0 \<le> t_peer_scroll t \<and> t_peer_scroll t \<le> t_peer_selected t"

definition text_ok :: "tui \<Rightarrow> bool" where
  "text_ok t \<longleftrightarrow>
     length (t_login_username t) \<le> 30 \<and> length (t_login_display t) < 64 \<and> length (t_peers t) \<le> TUI_MAX_PEERS \<and>
     length (t_chat_lines t) \<le> TUI_MAX_CHAT_LINES \<and> length (t_log t) \<le> TUI_LOG_LINES"

text \<open>The cursor of the input line stays at its end: no key moves it.\<close>

definition tui_ok :: "tui \<Rightarrow> bool" where
  "tui_ok t \<longleftrightarrow> input_ok t \<and> t_input_pos t = t_input_len t \<and> select_ok t \<and> text_ok t"

lemmas tui_ok_defs = tui_ok_def input_ok_def select_ok_def text_ok_def

named_theorems tui_ok_intros "operations that keep the state of the interface well formed"

lemma length_memmove [simp]:
  "\<lbrakk> dst + n \<le> length b; src + n \<le> length b \<rbrakk> \<Longrightarrow> length (memmove dst src n b) = length b"
  by (simp add: memmove_def mem_simps)

text \<open>Most fields do not matter.\<close>

lemma tui_ok_upd [simp]:
  "tui_ok (t\<lparr>t_dirty := x_dirty\<rparr>) = tui_ok t"
  "tui_ok (t\<lparr>t_screen := x_screen\<rparr>) = tui_ok t"
  "tui_ok (t\<lparr>t_running := x_running\<rparr>) = tui_ok t"
  "tui_ok (t\<lparr>t_space := x_space\<rparr>) = tui_ok t"
  "tui_ok (t\<lparr>t_adv_paused := x_adv_paused\<rparr>) = tui_ok t"
  "tui_ok (t\<lparr>t_username := x_username\<rparr>) = tui_ok t"
  "tui_ok (t\<lparr>t_display_name := x_display_name\<rparr>) = tui_ok t"
  "tui_ok (t\<lparr>t_identity := x_identity\<rparr>) = tui_ok t"
  "tui_ok (t\<lparr>t_identity_ready := x_identity_ready\<rparr>) = tui_ok t"
  "tui_ok (t\<lparr>t_login_error := x_login_error\<rparr>) = tui_ok t"
  "tui_ok (t\<lparr>t_show_conn_popup := x_show_conn_popup\<rparr>) = tui_ok t"
  "tui_ok (t\<lparr>t_conn_req_addr := x_conn_req_addr\<rparr>) = tui_ok t"
  "tui_ok (t\<lparr>t_conn_req_port := x_conn_req_port\<rparr>) = tui_ok t"
  "tui_ok (t\<lparr>t_conn_req_username := x_conn_req_username\<rparr>) = tui_ok t"
  "tui_ok (t\<lparr>t_conn_req_display := x_conn_req_display\<rparr>) = tui_ok t"
  "tui_ok (t\<lparr>t_show_call_popup := x_show_call_popup\<rparr>) = tui_ok t"
  "tui_ok (t\<lparr>t_call_req_peer := x_call_req_peer\<rparr>) = tui_ok t"
  "tui_ok (t\<lparr>t_call_popup_type := x_call_popup_type\<rparr>) = tui_ok t"
  "tui_ok (t\<lparr>t_chat_partner := x_chat_partner\<rparr>) = tui_ok t"
  "tui_ok (t\<lparr>t_conn_info := x_conn_info\<rparr>) = tui_ok t"
  "tui_ok (t\<lparr>t_current_room := x_current_room\<rparr>) = tui_ok t"
  "tui_ok (t\<lparr>t_typing_peer := x_typing_peer\<rparr>) = tui_ok t"
  "tui_ok (t\<lparr>t_typing_tick := x_typing_tick\<rparr>) = tui_ok t"
  "tui_ok (t\<lparr>t_typing_flag := x_typing_flag\<rparr>) = tui_ok t"
  "tui_ok (t\<lparr>t_unread_count := x_unread_count\<rparr>) = tui_ok t"
  "tui_ok (t\<lparr>t_mouse_event := x_mouse_event\<rparr>) = tui_ok t"
  "tui_ok (t\<lparr>t_mouse_last_x := x_mouse_last_x\<rparr>) = tui_ok t"
  "tui_ok (t\<lparr>t_mouse_last_y := x_mouse_last_y\<rparr>) = tui_ok t"
  "tui_ok (t\<lparr>t_mouse_btn := x_mouse_btn\<rparr>) = tui_ok t"
  "tui_ok (t\<lparr>t_mouse_scroll := x_mouse_scroll\<rparr>) = tui_ok t"
  "tui_ok (t\<lparr>t_audio_active := x_audio_active\<rparr>) = tui_ok t"
  "tui_ok (t\<lparr>t_video_active := x_video_active\<rparr>) = tui_ok t"
  "tui_ok (t\<lparr>t_width := x_width\<rparr>) = tui_ok t"
  "tui_ok (t\<lparr>t_height := x_height\<rparr>) = tui_ok t"
  by (simp_all add: tui_ok_defs)

lemma tui_ok_init [tui_ok_intros]: "tui_ok tui_init"
  by (simp add: tui_ok_defs tui_init_def)

lemma tui_ok_clear_input [tui_ok_intros]: "tui_ok t \<Longrightarrow> tui_ok (clear_input t)"
  by (simp add: tui_ok_defs clear_input_def)

lemma tui_ok_sel:
  assumes "tui_ok t"
  shows "tui_ok (t\<lparr>t_login_field := i\<rparr>) \<longleftrightarrow> i \<in> {0, 1}" "tui_ok (t\<lparr>t_conn_popup_selection := i\<rparr>) \<longleftrightarrow> i \<in> {0, 1}"
    "tui_ok (t\<lparr>t_call_popup_selection := i\<rparr>) \<longleftrightarrow> i \<in> {0, 1}"
    "tui_ok (t\<lparr>t_login_username := s\<rparr>) \<longleftrightarrow> length s \<le> 30" "tui_ok (t\<lparr>t_login_display := s\<rparr>) \<longleftrightarrow> length s < 64"
    "tui_ok (t\<lparr>t_peer_selected := i, t_peer_scroll := j\<rparr>) \<longleftrightarrow> 0 \<le> j \<and> j \<le> i"
    "tui_ok (t\<lparr>t_settings_selection := i\<rparr>) \<longleftrightarrow> 0 \<le> i \<and> i < 6" "tui_ok (t\<lparr>t_adv_tab := i\<rparr>) \<longleftrightarrow> 0 \<le> i \<and> i < ADV_TAB_COUNT"
    "tui_ok (t\<lparr>t_adv_selected_row := i\<rparr>) \<longleftrightarrow> 0 \<le> i \<and> i < 6"
  using assms by (simp_all add: tui_ok_defs)

lemma tui_ok_scroll:
  assumes "tui_ok t"
  shows "tui_ok (t\<lparr>t_group_room_scroll := i\<rparr>) \<longleftrightarrow> 0 \<le> i" "tui_ok (t\<lparr>t_group_member_scroll := i\<rparr>) \<longleftrightarrow> 0 \<le> i"
    "tui_ok (t\<lparr>t_group_focus := i\<rparr>) \<longleftrightarrow> 0 \<le> i \<and> i < 3" "0 \<le> t_group_room_scroll t" "0 \<le> t_group_member_scroll t"
  using assms by (simp_all add: tui_ok_defs)

lemma tui_ok_selD:
  assumes "tui_ok t"
  shows "1 - t_login_field t \<in> {0, 1}" "1 - t_conn_popup_selection t \<in> {0, 1}" "1 - t_call_popup_selection t \<in> {0, 1}"
    "length (t_login_username t) \<le> 30" "length (t_login_display t) < 64" "0 \<le> t_peer_scroll t" "t_peer_scroll t \<le> t_peer_selected t"
    "0 \<le> t_settings_selection t" "t_settings_selection t < 6" "0 \<le> t_adv_tab t" "t_adv_tab t < ADV_TAB_COUNT"
    "0 \<le> t_adv_selected_row t" "t_adv_selected_row t < 6"
  using assms by (auto simp: tui_ok_defs)

lemma tui_ok_upd_field:
  assumes "tui_ok t" and "length (f (t_login_username t)) \<le> 30" and "length (f (t_login_display t)) < 64"
  shows "tui_ok (upd_field f t)"
  using assms by (simp add: upd_field_def tui_ok_sel)

lemma tui_ok_login [tui_ok_intros]:
  assumes "tui_ok t"
  shows "tui_ok (snd (handle_login_input c t))"
proof -
  have "tui_ok (upd_field butlast t)"
    using tui_ok_selD [OF assms] by (intro tui_ok_upd_field assms) auto
  moreover have "tui_ok (upd_field (\<lambda>s. s @ [char_key c]) t)"
    if "length (if t_login_field t = 0 then t_login_username t else t_login_display t) < 30"
    using that assms tui_ok_selD [OF assms] by (simp add: upd_field_def tui_ok_sel split: if_splits)
  moreover have "tui_ok (t\<lparr>t_login_display := snprintf 64 (t_login_username t)\<rparr>)"
    using tui_ok_selD [OF assms] by (simp add: tui_ok_sel [OF assms])
  ultimately show ?thesis
    using assms tui_ok_selD(1) [OF assms]
    by (simp add: handle_login_input_def Let_def tui_ok_clear_input tui_ok_sel)
qed

lemma tui_ok_peer_list [tui_ok_intros]:
  assumes "tui_ok t"
  shows "tui_ok (snd (snd (handle_peer_list_input c t)))"
  using assms tui_ok_selD(6,7) [OF assms]
  by (simp add: handle_peer_list_input_def Let_def tui_ok_clear_input tui_ok_scroll tui_ok_sel [OF assms])

lemma tui_ok_popup [tui_ok_intros]: "tui_ok t \<Longrightarrow> tui_ok (snd (snd (handle_popup_input c t)))"
  using tui_ok_selD(2) [of t] by (simp add: handle_popup_input_def tui_ok_sel)

lemma tui_ok_call_popup [tui_ok_intros]: "tui_ok t \<Longrightarrow> tui_ok (snd (handle_call_popup_input c t))"
  using tui_ok_selD(3) [of t] by (simp add: handle_call_popup_input_def tui_ok_sel)

lemma tui_ok_input:
  "tui_ok t \<Longrightarrow> tui_ok (t\<lparr>t_input_buf := b, t_input_len := l, t_input_pos := p\<rparr>) \<longleftrightarrow> length b = TUI_INPUT_BUF \<and> p = l \<and> l < TUI_INPUT_BUF"
  "tui_ok t \<Longrightarrow> tui_ok (t\<lparr>t_input_buf := b, t_input_pos := p, t_input_len := l\<rparr>) \<longleftrightarrow> length b = TUI_INPUT_BUF \<and> p = l \<and> l < TUI_INPUT_BUF"
  "tui_ok t \<Longrightarrow> tui_ok (t\<lparr>t_input_pos := p, t_input_buf := b, t_input_len := l\<rparr>) \<longleftrightarrow> length b = TUI_INPUT_BUF \<and> p = l \<and> l < TUI_INPUT_BUF"
  by (auto simp: tui_ok_defs)

lemma tui_ok_inputD:
  assumes "tui_ok t"
  shows "t_input_pos t = t_input_len t" "length (t_input_buf t) = TUI_INPUT_BUF" "t_input_len t < TUI_INPUT_BUF"
  using assms by (simp_all add: tui_ok_defs)

lemma tui_ok_chat [tui_ok_intros]:
  assumes "tui_ok t"
  shows "tui_ok (snd (handle_chat_input c t))"
  using assms tui_ok_inputD [OF assms]
  by (simp add: handle_chat_input_def Let_def tui_ok_clear_input tui_ok_input [OF assms]) arith

lemma tui_ok_group_keys [tui_ok_intros]:
  assumes "tui_ok t"
  shows "tui_ok (room_keys c n t)" "tui_ok (member_keys c n t)"
  using assms tui_ok_scroll [OF assms] by (auto simp: room_keys_def member_keys_def key_of_def Let_def)

lemma tui_ok_group [tui_ok_intros]: "tui_ok t \<Longrightarrow> tui_ok (snd (handle_group_input G c t))"
  by (simp add: handle_group_input_def Let_def group_get_rooms_def tui_ok_clear_input tui_ok_chat tui_ok_scroll tui_ok_group_keys
      split: option.split)

lemma tui_ok_settings [tui_ok_intros]:
  assumes "tui_ok t"
  shows "tui_ok (snd (handle_settings_input c t))"
  using assms tui_ok_selD(8,9) [OF assms] by (simp add: handle_settings_input_def tui_ok_sel)

lemma tui_ok_advanced [tui_ok_intros]:
  assumes "tui_ok t"
  shows "tui_ok (snd (handle_advanced_input c t))"
  using assms tui_ok_selD(10-13) [OF assms] by (simp add: handle_advanced_input_def tui_ok_sel)

lemma tui_ok_handle_key [tui_ok_intros]: "tui_ok t \<Longrightarrow> tui_ok (snd (handle_key G key t))"
  using tui_ok_popup [of t "to_char key"] tui_ok_peer_list [of t key]
  by (simp add: handle_key_def case_prod_beta Let_def tui_ok_call_popup tui_ok_login tui_ok_chat tui_ok_group
      tui_ok_settings tui_ok_advanced split: screen.split)

lemma tui_ok_mouse_key [tui_ok_intros]: "tui_ok t \<Longrightarrow> tui_ok (snd (mouse_key m t))"
  by (simp add: mouse_key_def case_prod_beta Let_def)

lemma tui_ok_read_key [tui_ok_intros]: "tui_ok t \<Longrightarrow> tui_ok (snd (read_key I c r t))"
  by (simp add: read_key_def read_csi_def case_prod_beta Let_def tui_ok_mouse_key split: list.split option.split prod.split)

lemma tui_ok_poll [tui_ok_intros]:
  assumes "tui_ok t"
  shows "tui_ok (snd (snd (snd (tui_input_poll G I (m, t)))))"
proof (cases "in_bytes I")
  case Nil
  with assms show ?thesis by (simp add: tui_input_poll_def)
next
  case (Cons c r)
  have "tui_ok (snd (read_key I c r t))" by (rule tui_ok_read_key [OF assms])
  moreover obtain k rest t1 where "read_key I c r t = ((k, rest), t1)" by (metis prod.exhaust)
  ultimately show ?thesis
    using assms Cons tui_ok_handle_key [of t1 G k] by (simp add: tui_input_poll_def tui_suspend_def case_prod_beta Let_def)
qed

section \<open>The keys that reach the main loop\<close>

definition poll_results :: "int set" where
  "poll_results = {0, -4, -5, -10, -20, -21, -22, -30, -31, -32, -33, -40, -41} \<union> {1..255}"

lemma zero_result [simp]: "0 \<in> poll_results"
  by (simp add: poll_results_def)

lemma login_result: "fst (handle_login_input c t) \<in> poll_results"
  by (simp add: handle_login_input_def poll_results_def Let_def)

lemma call_popup_result: "fst (handle_call_popup_input c t) \<in> poll_results"
  by (simp add: handle_call_popup_input_def poll_results_def)

lemma chat_result: "tui_ok t \<Longrightarrow> fst (handle_chat_input c t) \<in> poll_results"
  using tui_ok_inputD [of t] by (auto simp: handle_chat_input_def poll_results_def Let_def)

lemma group_result: "tui_ok t \<Longrightarrow> fst (handle_group_input G c t) \<in> poll_results"
  using chat_result [of t c]
  by (simp add: handle_group_input_def group_get_rooms_def Let_def split: option.split)

lemma settings_result: "fst (handle_settings_input c t) \<in> poll_results"
  by (simp add: handle_settings_input_def poll_results_def)

lemma peer_list_result:
  assumes "tui_ok t" and "handle_peer_list_input c t = (r, Some s, t1)"
  shows "0 \<le> s \<and> s < int TUI_MAX_PEERS"
proof -
  have "0 \<le> s \<and> s < peer_count t"
    using assms(2) unfolding handle_peer_list_input_def Let_def by (simp split: if_split_asm) auto
  then show ?thesis using assms(1) by (simp add: tui_ok_defs)
qed

lemma handle_key_result:
  assumes "tui_ok t"
  shows "fst (handle_key G k t) \<in> poll_results"
proof -
  have "fst (handle_key G k t) \<in> poll_results" if "t_show_conn_popup t"
    using that by (simp add: handle_key_def case_prod_beta Let_def) (simp add: poll_results_def)
  moreover have "fst (handle_key G k t) \<in> poll_results"
    if "\<not> t_show_conn_popup t" "\<not> t_show_call_popup t" "t_screen t = SCREEN_PEER_LIST"
    using that peer_list_result [OF assms, of k]
    by (simp add: handle_key_def split: prod.split option.split) (force simp: poll_results_def)
  moreover have "fst (handle_key G k t) \<in> poll_results"
    if "\<not> t_show_conn_popup t" "t_show_call_popup t \<or> t_screen t \<noteq> SCREEN_PEER_LIST"
    using that assms
    by (cases "t_screen t") (auto simp: handle_key_def handle_advanced_input_def login_result call_popup_result chat_result
        group_result settings_result)
  ultimately show ?thesis by blast
qed

text \<open>
  C18: Whatever bytes the terminal sends, one call of \<open>tui_input_poll\<close> keeps every index of the
  interface in range (the input line within its 256 characters with the cursor at its end, the login
  fields, the selected rows and tabs, the scroll positions), and its result is 0, a length or peer
  code up to 255, or one of twelve named codes. No result lies between -202 and -98, so the branch of
  the main loop that handles mouse clicks and the wheel is never taken.
\<close>

theorem poll_input_safe:
  assumes "tui_ok t" and "tui_input_poll G I (m, t) = (k, I1, m1, t1)"
  shows "tui_ok t1 \<and> k \<in> poll_results \<and> \<not> (-202 \<le> k \<and> k \<le> -98)"
proof -
  have "k \<in> poll_results"
  proof (cases "in_bytes I")
    case Nil
    with assms show ?thesis by (auto simp: tui_input_poll_def poll_results_def split: if_splits)
  next
    case (Cons c r)
    obtain key rest t2 where rk: "read_key I c r t = ((key, rest), t2)" by (metis prod.exhaust)
    have "tui_ok t2" using tui_ok_read_key [OF assms(1), of I c r] rk by simp
    then have "fst (handle_key G key t2) \<in> poll_results" by (rule handle_key_result)
    then show ?thesis
      using assms(2) Cons rk by (auto simp: tui_input_poll_def case_prod_beta Let_def split: if_splits)
  qed
  moreover have "tui_ok t1" using tui_ok_poll [OF assms(1), of G I m] assms(2) by simp
  ultimately show ?thesis by (auto simp: poll_results_def)
qed

text \<open>A terminal before the program starts, and the input of one chunk of bytes.\<close>

definition sample_term :: terminal where
  "sample_term = (let tio = \<lparr>c_iflag = 0x502, c_oflag = 0x5, c_lflag = 0x8A3B, vmin = 1, vtime = 0\<rparr>
     in \<lparr>tm_tio = tio, tm_orig = tio, tm_raw = False, tm_mouse = False, tm_winsize = Some (80, 24), tm_out = []\<rparr>)"

definition sample_stdin :: "string \<Rightarrow> stdin" where
  "sample_stdin s = \<lparr>in_ready = True, in_more = True, in_bytes = s, in_junk = []\<rparr>"

text \<open>A click in the peer list: it is decoded, recorded and then answered with 0.\<close>

lemma scan_click: "read_mouse_sgr [] ''0;12;5M'' = (Some (0, 12, 5), [])"
  by code_simp

theorem poll_input_safe_witness:
  "let t = tui_init\<lparr>t_screen := SCREEN_PEER_LIST\<rparr>;
       (k, I1, m1, t1) = tui_input_poll group_reset (sample_stdin (esc ''[<0;12;5M'')) (sample_term, t)
   in tui_ok t \<and> t_mouse_event t1 \<and> t_mouse_last_x t1 = 12 \<and> k = 0 \<and> tui_ok t1 \<and> k \<in> poll_results"
proof -
  let ?t = "tui_init\<lparr>t_screen := SCREEN_PEER_LIST\<rparr>"
  let ?t1 = "snd (mouse_key (0, 12, 5) ?t)"
  have "tui_ok ?t" by (simp add: tui_ok_init)
  moreover have "tui_input_poll group_reset (sample_stdin (esc ''[<0;12;5M'')) (sample_term, ?t)
      = (0, (sample_stdin (esc ''[<0;12;5M''))\<lparr>in_bytes := []\<rparr>, sample_term, ?t1)"
    by (simp add: tui_input_poll_def sample_stdin_def esc_def read_key_def read_csi_def key_of_def scan_click mouse_key_def
        handle_key_def handle_peer_list_input_def tui_init_def)
  moreover note poll_input_safe [OF calculation]
  ultimately show ?thesis by (simp add: mouse_key_def)
qed

section \<open>The input line is an editor\<close>

text \<open>
  The line of text that the buffer stands for, left and right of the cursor, and what a typed key
  means for it: characters go in before the cursor up to 255 in all, backspace takes the one before
  the cursor.
\<close>

definition ed_line :: "tui \<Rightarrow> string \<times> string" where
  "ed_line t = (take (t_input_pos t) (t_input_buf t), take (t_input_len t - t_input_pos t) (drop (t_input_pos t) (t_input_buf t)))"

fun edit :: "int \<Rightarrow> string \<times> string \<Rightarrow> string \<times> string" where
  "edit c (l, r) =
     (if c = 127 \<or> c = 8 then (butlast l, r)
      else if 32 \<le> c \<and> c < 127 \<and> length l + length r < 255 then (l @ [char_key c], r)
      else (l, r))"

definition typing_key :: "int \<Rightarrow> tui \<Rightarrow> bool" where
  "typing_key c t \<longleftrightarrow> c = 127 \<or> c = 8 \<or> 32 \<le> c \<and> c < 127 \<and> \<not> (c = key_of CHR ''q'' \<and> t_input_len t = 0)"

lemma butlast_take_pos: "\<lbrakk> 0 < p; p \<le> length b \<rbrakk> \<Longrightarrow> butlast (take p b) = take (p - 1) b"
  by (simp add: butlast_take)

lemma take_list_update_snoc: "p < length b \<Longrightarrow> take (Suc p) (b[p := x]) = take p b @ [x]"
  by (simp add: take_Suc_conv_app_nth)

lemma memmove_left:
  assumes "p < l" "l \<le> length b"
  shows "take p (memmove p (p + 1) (l - p - 1) b) = take p b"
    "take (l - 1 - p) (drop p (memmove p (p + 1) (l - p - 1) b)) = take (l - (p + 1)) (drop (p + 1) b)"
  using assms by (auto simp: memmove_def mem_write_def mem_read_def)

lemma memmove_right:
  assumes "p \<le> l" "l < length b"
  shows "take (p + 1) ((memmove (p + 1) p (l - p) b)[p := x]) = take p b @ [x]"
    "take (l - p) (drop (p + 1) ((memmove (p + 1) p (l - p) b)[p := x])) = take (l - p) (drop p b)"
  using assms by (auto simp: memmove_def mem_write_def mem_read_def take_list_update_snoc drop_update_cancel)

lemma handle_backspace:
  "c = 127 \<or> c = 8 \<Longrightarrow> handle_chat_input c t = (0, if t_input_pos t > 0
     then let p = t_input_pos t - 1
          in t\<lparr>t_input_pos := p, t_input_buf := memmove p (p + 1) (t_input_len t - p - 1) (t_input_buf t),
               t_input_len := t_input_len t - 1, t_dirty := True\<rparr>
     else t)"
  by (auto simp: handle_chat_input_def key_of_def)

lemma handle_printable:
  assumes "32 \<le> c" "c < 127" "\<not> (c = key_of CHR ''q'' \<and> t_input_len t = 0)"
  shows "handle_chat_input c t = (0, if t_input_len t < TUI_INPUT_BUF - 1
     then let p = t_input_pos t
          in t\<lparr>t_input_buf := (memmove (p + 1) p (t_input_len t - p) (t_input_buf t))[p := char_key c],
               t_input_pos := p + 1, t_input_len := t_input_len t + 1, t_dirty := True, t_typing_flag := True\<rparr>
     else t)"
  using assms by (auto simp: handle_chat_input_def)

text \<open>
  C19: The chat input handler implements the line editor: for a buffer with the cursor anywhere in
  the line, every key that edits has on the 256-character array, with its two \<open>memmove\<close>s, exactly the
  effect of the edit on the line of text, and the buffer stays well formed.
\<close>

theorem chat_input_edits:
  assumes "input_ok t" and "typing_key c t"
  shows "ed_line (snd (handle_chat_input c t)) = edit c (ed_line t) \<and> input_ok (snd (handle_chat_input c t)) \<and>
    fst (handle_chat_input c t) = 0"
proof (cases "c = 127 \<or> c = 8")
  case True
  show ?thesis
  proof (cases "t_input_pos t > 0")
    case pos: True
    let ?p = "t_input_pos t - 1"
    have b: "?p < t_input_len t" "t_input_len t \<le> length (t_input_buf t)" using assms(1) pos by (auto simp: input_ok_def)
    have "length (memmove ?p (?p + 1) (t_input_len t - ?p - 1) (t_input_buf t)) = length (t_input_buf t)"
      using b by (intro length_memmove) linarith+
    moreover have "t_input_pos t - 1 \<le> t_input_len t - 1" "t_input_len t - 1 < TUI_INPUT_BUF"
      using assms(1) by (auto simp: input_ok_def)
    ultimately show ?thesis
      using assms(1) True pos b memmove_left [OF b] butlast_take_pos [OF pos, of "t_input_buf t"]
      by (simp add: handle_backspace [OF True] ed_line_def input_ok_def Let_def del: length_memmove)
  next
    case False
    then show ?thesis using assms(1) True by (simp add: handle_backspace [OF True] ed_line_def)
  qed
next
  case False
  with assms have c: "32 \<le> c" "c < 127" "\<not> (c = key_of CHR ''q'' \<and> t_input_len t = 0)" by (auto simp: typing_key_def)
  have len: "min (length (t_input_buf t)) (t_input_pos t) + min (length (t_input_buf t) - t_input_pos t) (t_input_len t - t_input_pos t) = t_input_len t"
    using assms(1) by (auto simp: input_ok_def)
  show ?thesis
    using assms(1) False c len memmove_right [of "t_input_pos t" "t_input_len t" "t_input_buf t" "char_key c"]
    by (simp add: handle_printable [OF c] ed_line_def input_ok_def Let_def)
qed

definition type_keys :: "string \<Rightarrow> tui \<Rightarrow> tui" where
  "type_keys s t = fold (\<lambda>c t. snd (handle_chat_input (key_of c) t)) s t"

definition printable :: "char \<Rightarrow> bool" where
  "printable c \<longleftrightarrow> 32 \<le> key_of c \<and> key_of c < 127"

lemma char_key_key_of [simp]: "char_key (key_of c) = c"
  by (simp add: char_key_def key_of_def)

lemma key_of_inj [simp]: "key_of c = key_of d \<longleftrightarrow> c = d"
  by (metis char_key_key_of)

lemma type_one:
  assumes "tui_ok t" "printable c" "t_input_len t < 255" "t_input_len t = 0 \<longrightarrow> c \<noteq> CHR ''q''"
  shows "let t1 = snd (handle_chat_input (key_of c) t) in tui_ok t1 \<and> t_input_len t1 = t_input_len t + 1 \<and>
    take (t_input_len t1) (t_input_buf t1) = take (t_input_len t) (t_input_buf t) @ [c] \<and> t_screen t1 = t_screen t \<and>
    t_running t1 = t_running t"
proof -
  have c: "32 \<le> key_of c" "key_of c < 127" "\<not> (key_of c = key_of CHR ''q'' \<and> t_input_len t = 0)"
    using assms by (auto simp: printable_def)
  have "tui_ok (snd (handle_chat_input (key_of c) t))" by (rule tui_ok_chat [OF assms(1)])
  then show ?thesis
    using assms(3) tui_ok_inputD [OF assms(1)] memmove_right(1) [of "t_input_len t" "t_input_len t" "t_input_buf t" c]
    by (simp add: handle_printable [OF c] Let_def)
qed

lemma type_more:
  assumes "tui_ok t" "\<forall>c \<in> set s. printable c" "t_input_len t + length s \<le> 255" "t_input_len t = 0 \<and> s \<noteq> [] \<longrightarrow> hd s \<noteq> CHR ''q''"
  shows "let t1 = type_keys s t in tui_ok t1 \<and> t_input_len t1 = t_input_len t + length s \<and>
    take (t_input_len t1) (t_input_buf t1) = take (t_input_len t) (t_input_buf t) @ s \<and> t_screen t1 = t_screen t \<and>
    t_running t1 = t_running t"
  using assms
proof (induction s arbitrary: t)
  case (Cons c s)
  let ?t = "snd (handle_chat_input (key_of c) t)"
  have "printable c" "t_input_len t < 255" "t_input_len t = 0 \<longrightarrow> c \<noteq> CHR ''q''" using Cons.prems by auto
  note one = type_one [OF Cons.prems(1) this, unfolded Let_def]
  have "tui_ok (type_keys s ?t) \<and> t_input_len (type_keys s ?t) = t_input_len ?t + length s \<and>
      take (t_input_len (type_keys s ?t)) (t_input_buf (type_keys s ?t)) = take (t_input_len ?t) (t_input_buf ?t) @ s \<and>
      t_screen (type_keys s ?t) = t_screen ?t \<and> t_running (type_keys s ?t) = t_running ?t"
    using Cons.IH [of ?t] one Cons.prems by (auto simp: Let_def)
  moreover have "type_keys (c # s) t = type_keys s ?t" by (simp add: type_keys_def)
  ultimately show ?case using one by (auto simp: Let_def)
qed (simp add: type_keys_def)

lemma enter_key:
  assumes "tui_ok t" "0 < t_input_len t" "c = 10 \<or> c = 13"
  shows "handle_chat_input c t = (int (t_input_len t),
    t\<lparr>t_input_buf := (t_input_buf t)[t_input_len t := CHR 0x00], t_input_len := 0, t_input_pos := 0, t_dirty := True\<rparr>)"
  using assms by (auto simp: handle_chat_input_def key_of_def)

lemma cstr_terminated: "\<lbrakk> n < length b; CHR 0x00 \<notin> set (take n b) \<rbrakk> \<Longrightarrow> cstr (b[n := CHR 0x00]) = take n b"
proof -
  assume n: "n < length b" and z: "CHR 0x00 \<notin> set (take n b)"
  have "b[n := CHR 0x00] = take n b @ CHR 0x00 # drop (Suc n) b" using n by (simp add: upd_conv_take_nth_drop)
  moreover have "\<forall>x \<in> set (take n b). x \<noteq> CHR 0x00" using z by blast
  ultimately show ?thesis by (simp add: cstr_def takeWhile_append2 del: list_update.simps)
qed

lemma printable_nonzero: "\<forall>c \<in> set s. printable c \<Longrightarrow> CHR 0x00 \<notin> set s"
  by (auto simp: printable_def key_of_def)

lemma typed_line:
  assumes "tui_ok t" "t_input_len t = 0" "\<forall>c \<in> set s. printable c" "s \<noteq> []" "length s \<le> 255" "hd s \<noteq> CHR ''q''"
  shows "let (k, t1) = handle_chat_input 13 (type_keys s t)
    in k = int (length s) \<and> cstr (t_input_buf t1) = s \<and> t_input_len t1 = 0 \<and> t_screen t1 = t_screen t \<and> tui_ok t1"
proof -
  let ?u = "type_keys s t"
  have u: "tui_ok ?u" "t_input_len ?u = length s" "take (length s) (t_input_buf ?u) = s" "t_screen ?u = t_screen t"
    using type_more [OF assms(1,3)] assms by (auto simp: Let_def)
  have e: "handle_chat_input 13 ?u = (int (length s),
      ?u\<lparr>t_input_buf := (t_input_buf ?u)[length s := CHR 0x00], t_input_len := 0, t_input_pos := 0, t_dirty := True\<rparr>)"
    using enter_key [OF u(1), of 13] u(2) assms(4) by simp
  have "cstr ((t_input_buf ?u)[length s := CHR 0x00]) = s"
    using cstr_terminated [of "length s" "t_input_buf ?u"] u printable_nonzero [OF assms(3)] tui_ok_inputD [OF u(1)] by simp
  moreover have "tui_ok (snd (handle_chat_input 13 ?u))" by (rule tui_ok_chat [OF u(1)])
  ultimately show ?thesis using u(4) by (simp add: e)
qed

text \<open>
  A line that is typed into an empty chat input and finished with Enter is submitted as typed:
  the handler returns its length, the buffer holds exactly its characters as a C string, and the
  input is empty again. The line has 1 to 255 printable characters and does not begin with \<open>q\<close>.
\<close>

theorem typed_line_submitted:
  assumes "tui_ok t" "t_input_len t = 0" "\<forall>c \<in> set s. printable c" "s \<noteq> []" "length s \<le> 255" "hd s \<noteq> CHR ''q''"
  shows "let (k, t1) = handle_chat_input 13 (type_keys s t)
    in k = int (length s) \<and> cstr (t_input_buf t1) = s \<and> t_input_len t1 = 0 \<and> t_screen t1 = t_screen t \<and> tui_ok t1"
  using assms by (rule typed_line)

theorem typed_line_submitted_witness:
  "let (k, t1) = handle_chat_input 13 (type_keys ''hello'' (tui_init\<lparr>t_screen := SCREEN_CHAT\<rparr>))
   in k = 5 \<and> cstr (t_input_buf t1) = ''hello'' \<and> t_input_len t1 = 0 \<and> t_screen t1 = SCREEN_CHAT \<and> tui_ok t1"
proof -
  have "t_input_len tui_init = 0" by (simp add: tui_init_def)
  then show ?thesis
    using typed_line_submitted [of "tui_init\<lparr>t_screen := SCREEN_CHAT\<rparr>" "''hello''"] tui_ok_init
    by (simp add: printable_def key_of_def)
qed

theorem chat_input_edits_witness:
  "input_ok tui_init \<and> typing_key 104 tui_init \<and> ed_line (snd (handle_chat_input 104 tui_init)) = (''h'', [])"
proof -
  have "input_ok tui_init" "typing_key 104 tui_init" "ed_line tui_init = ([], [])"
    by (simp_all add: input_ok_def tui_init_def typing_key_def key_of_def ed_line_def)
  moreover have "char_key 104 = CHR ''h''" by code_simp
  ultimately show ?thesis using chat_input_edits [of tui_init 104] by simp
qed

end
