(* ===== verification/Tui_Panels.thy ===== *)
theory Tui_Panels
  imports Tui_State
begin

text \<open>
  The panels of the terminal interface (\<open>app/tui_panels.c\<close>). A panel is the list of the texts
  that its \<open>snprintf\<close> calls print one after the other at the end of the screen buffer; how the
  calls fill the buffer is in \<open>Tui_Render\<close>. Panels read the state of the
  interface, of the rooms and of the node, and what the clock and \<open>localtime\<close> give.
\<close>

section \<open>Formatted output\<close>

text \<open>\<open>%-ns\<close>, \<open>%*s\<close> of the empty text, \<open>%.*s\<close>, \<open>%u\<close>, \<open>%02d\<close>, \<open>%08x\<close> and \<open>%.1f\<close>. A negative width
  pads on the right, a negative precision is none.\<close>

definition padr :: "nat \<Rightarrow> string \<Rightarrow> string" where
  "padr n s = s @ replicate (n - length s) (CHR '' '')"

definition spaces :: "int \<Rightarrow> string" where
  "spaces w = replicate (nat \<bar>w\<bar>) (CHR '' '')"

definition prec :: "int \<Rightarrow> string \<Rightarrow> string" where
  "prec p s = (if p < 0 then s else take (nat p) s)"

definition decw :: "'a::len word \<Rightarrow> string" where
  "decw w = dec (unat w)"

definition dec02 :: "nat \<Rightarrow> string" where
  "dec02 n = (if n < 10 then ''0'' else []) @ dec n"

definition hex08 :: "u32 \<Rightarrow> string" where
  "hex08 w = bytes_to_hex (rev (le_bytes 4 w))"

text \<open>The value times ten is rounded to the nearest integer, to the even one of two.\<close>

definition round_even :: "rat \<Rightarrow> int" where
  "round_even x =
     (let f = \<lfloor>x\<rfloor>; d = x - of_int f
      in if d < 1 / 2 then f else if d > 1 / 2 then f + 1 else if even f then f else f + 1)"

definition fixed1 :: "rat \<Rightarrow> string" where
  "fixed1 x =
     (let n = round_even (10 * \<bar>x\<bar>)
      in (if x < 0 then ''-'' else []) @ dec_int (n div 10) @ ''.'' @ dec_int (n mod 10))"

definition nl :: string where
  "nl = [newline]"

text \<open>Escape sequences: attributes, and the cursor position.\<close>

definition sgr :: "string \<Rightarrow> string" where
  "sgr s = esc ''['' @ s @ ''m''"

abbreviation (input) rst :: string where "rst \<equiv> sgr ''0''"

definition at_pos :: "int \<Rightarrow> int \<Rightarrow> string" where
  "at_pos row col = esc ''['' @ dec_int row @ '';'' @ dec_int col @ ''H''"

definition dot_on :: string where
  "dot_on = sgr ''1;32'' @ [CHR 0xE2, CHR 0x97, CHR 0x8F] @ rst"

definition dot_off :: string where
  "dot_off = sgr ''1;31'' @ [CHR 0xE2, CHR 0x97, CHR 0x8B] @ rst"

definition or_text :: "string \<Rightarrow> string \<Rightarrow> string" where
  "or_text s d = (if s \<noteq> [] then s else d)"

text \<open>What panels read besides the interface: time, \<open>strftime "%H:%M"\<close> of \<open>localtime\<close>, the hash, the rooms and the node.\<close>

record view_env =
  ve_now :: u64
  ve_hm :: "u64 \<Rightarrow> string option"
  ve_lib :: crypto_lib
  ve_groups :: groups
  ve_node :: node

definition get_time_str :: "view_env \<Rightarrow> string" where
  "get_time_str V = (case ve_hm V (ve_now V) of Some s \<Rightarrow> s | None \<Rightarrow> ''--:--'')"

fun session_state_str :: "conn_state \<Rightarrow> string" where
  "session_state_str CONN_IDLE = ''IDLE''"
| "session_state_str CONN_CONNECTING = ''CONNECTING''"
| "session_state_str CONN_HANDSHAKE = ''HANDSHAKE''"
| "session_state_str CONN_LOCKED = ''SECURE''"
| "session_state_str CONN_FAILED = ''FAILED''"

fun conn_state_icon :: "conn_state \<Rightarrow> string" where
  "conn_state_icon CONN_IDLE = [CHR 0xE2, CHR 0x97, CHR 0x8B]"
| "conn_state_icon CONN_CONNECTING = [CHR 0xE2, CHR 0x9F, CHR 0xB3]"
| "conn_state_icon CONN_HANDSHAKE = [CHR 0xF0, CHR 0x9F, CHR 0x94, CHR 0x91]"
| "conn_state_icon CONN_LOCKED = [CHR 0xF0, CHR 0x9F, CHR 0x94, CHR 0x92]"
| "conn_state_icon CONN_FAILED = [CHR 0xE2, CHR 0x9C, CHR 0x97]"

text \<open>\<open>paths[i]\<close>; the entries that are not filled in are zero.\<close>

definition path_at :: "conn_info \<Rightarrow> nat \<Rightarrow> path_info" where
  "path_at ci i = (if i < length (ci_paths ci) then ci_paths ci ! i
     else \<lparr>pi_loss_rate = 0, pi_rtt_ns = 0, pi_packets_sent = 0, pi_packets_recv = 0\<rparr>)"

definition rtt_ms :: "conn_info \<Rightarrow> nat \<Rightarrow> u64" where
  "rtt_ms ci i = pi_rtt_ns (path_at ci i) div 1000000"

section \<open>Panels of the user space\<close>

definition tui_panel_topbar :: "view_env \<Rightarrow> tui \<Rightarrow> string list" where
  "tui_panel_topbar V t =
     (let ci = t_conn_info t;
          health = (if ci_state ci = CONN_LOCKED
                    then snprintf 128 ('' | loss '' @ fixed1 (pi_loss_rate (path_at ci 0)) @ ''% | '' @ decw (rtt_ms ci 0) @ ''ms'') else []);
          mid = snprintf 192 ('' '' @ or_text (t_username t) ''(setup)'' @ '' | '' @ session_state_str (ci_state ci) @ '' | '' @
                  get_time_str V @ health);
          sep_w = max 1 (t_width t - int (length mid) - 12)
      in [sgr ''1;37;44'' @ '' pqCOMMbulds'' @ mid @ spaces sep_w @ rst @ nl])"

definition login_field_chars :: "string \<Rightarrow> string list" where
  "login_field_chars s = map (\<lambda>i. if i < length s then [s ! i] else '' '') [0..<20]"

definition tui_panel_login :: "tui \<Rightarrow> string list" where
  "tui_panel_login t =
     (let cy = max 0 (t_height t div 2 - 4);
          box_x = max 0 (t_width t div 2 - 24);
          bar = sgr ''1;33'' @ ''|'' @ rst;
          edge = sgr ''1;33'' @ ''+------------------------------------------------+'' @ rst;
          blank = bar @ ''                                          '' @ bar;
          cursor = (\<lambda>f s. if t_login_field t = f \<and> length s < 20 then [sgr ''5'' @ ''_'' @ rst] else [])
      in map (\<lambda>i. esc ''['' @ dec_int (cy + 1 + int i) @ '';1H'' @ esc ''[K'') [0..<12] @
         [at_pos (cy + 1) (box_x + 1) @ edge,
          at_pos (cy + 2) (box_x + 1) @ bar @ ''       '' @ sgr ''1;37'' @ ''SSM Secure Messenger'' @ rst @ ''       '' @ bar,
          at_pos (cy + 3) (box_x + 1) @ blank,
          at_pos (cy + 4) (box_x + 1) @ bar @ ''  Username: ['',
          at_pos (cy + 4) (box_x + 15)] @
         login_field_chars (t_login_username t) @ cursor 0 (t_login_username t) @ ['']     '' @ bar] @
         [at_pos (cy + 5) (box_x + 1) @ bar @ ''  Display:  ['',
          at_pos (cy + 5) (box_x + 15)] @
         login_field_chars (t_login_display t) @ cursor 1 (t_login_display t) @ ['']     '' @ bar] @
         [at_pos (cy + 6) (box_x + 1) @ blank,
          at_pos (cy + 7) (box_x + 1) @ bar @ ''  '' @ sgr ''1;32'' @ ''[Enter]'' @ rst @ '' Start        '' @ sgr ''1;33'' @ ''[TAB]'' @ rst @
            '' next field  '' @ bar,
          at_pos (cy + 8) (box_x + 1) @ bar @ ''  '' @ sgr ''1;30'' @ ''Existing identity auto-loads'' @ rst @ ''   '' @ bar,
          at_pos (cy + 9) (box_x + 1) @ edge] @
         (if t_login_error t then [at_pos (cy + 11) (box_x + 8) @ sgr ''1;31'' @ ''Username required'' @ rst] else []))"

definition fp_short :: "view_env \<Rightarrow> tui \<Rightarrow> string" where
  "fp_short V t =
     (let h = sha256 (ve_lib V) (id_key (t_identity t) @ map of_char (t_username t))
      in snprintf 32 (bytes_to_hex (take 4 h) @ ''...'' @ bytes_to_hex [h ! 30, h ! 31]))"

definition last_seen :: "view_env \<Rightarrow> peer_entry \<Rightarrow> string" where
  "last_seen V p =
     (if \<not> pe_is_online p \<and> pe_last_seen_ms p > 0
      then let ago = (ve_now V * 1000 - pe_last_seen_ms p) div 60000
           in if ago < 1 then ''just now'' else if ago < 60 then decw ago @ ''m ago'' else ''>1h ago''
      else [])"

definition peer_row :: "view_env \<Rightarrow> tui \<Rightarrow> int \<Rightarrow> string list" where
  "peer_row V t idx =
     (let p = t_peers t ! nat idx;
          badge = (if pe_is_connected p then '' '' @ sgr ''1;34'' @ ''[SECURE]'' @ rst
                   else if pe_is_online p then '' '' @ sgr ''1;33'' @ ''[ONLINE]'' @ rst else [])
      in [(if idx = t_peer_selected t then ''>'' else '' '') @ '' '' @ (if pe_is_online p then dot_on else dot_off) @ '' '' @
          sgr ''1;37'' @ padr 12 (or_text (pe_username p) (pe_addr p)) @ rst @ '' '' @ badge @
          (if pe_is_online p then [] else sgr ''1;30'') @ nl] @
         (if idx = t_peer_selected t \<and> \<not> pe_is_online p \<and> last_seen V p \<noteq> []
          then [''   '' @ sgr ''1;30'' @ ''last seen '' @ last_seen V p @ rst @ nl] else []))"

definition tui_panel_peer_list :: "view_env \<Rightarrow> tui \<Rightarrow> string list" where
  "tui_panel_peer_list V t =
     (let rows = t_height t - (if t_identity_ready t then 5 else 4);
          idxs = takeWhile (\<lambda>idx. idx < peer_count t) (map (\<lambda>i. int i + t_peer_scroll t) [0..<nat (min rows (peer_count t))])
      in [sgr ''1;37'' @ '' Peers ('' @ dec_int (peer_count t) @ '')'' @
          (if t_unread_count t > 0 then '' '' @ sgr ''1;31'' @ ''(!)'' @ rst else []) @ rst @ nl] @
         (if t_identity_ready t then ['' '' @ sgr ''1;30'' @ ''FP: '' @ fp_short V t @ rst @ nl] else []) @
         concat (map (peer_row V t) idxs))"

text \<open>\<open>localtime\<close> is not tested for failure here; its failure would be undefined.\<close>

definition chat_row :: "view_env \<Rightarrow> tui \<Rightarrow> chat_line \<Rightarrow> string" where
  "chat_row V t cl =
     (let ts = (case ve_hm V (cl_timestamp cl) of Some s \<Rightarrow> s | None \<Rightarrow> []);
          status_str = (if cl_status cl = 2 then '' '' @ sgr ''1;32'' @ ''read'' @ rst
                        else if cl_status cl = 1 then '' '' @ sgr ''1;33'' @ ''delivered'' @ rst
                        else if cl_status cl = 0 then '' '' @ sgr ''1;30'' @ ''sent'' @ rst else [])
      in sgr ''1;30'' @ ''['' @ ts @ '']'' @ rst @ '' '' @
         (if cl_is_self cl then sgr ''1;34'' @ ''[me]'' @ rst @ '' '' @ cl_text cl @ status_str @ nl
          else sgr ''1;32'' @ ''['' @ or_text (t_chat_partner t) ''them'' @ '']'' @ rst @ '' '' @ cl_text cl @ nl))"

definition tui_panel_chat :: "view_env \<Rightarrow> tui \<Rightarrow> string list" where
  "tui_panel_chat V t =
     (let ci = t_conn_info t; st = ci_state ci; count = int (length (t_chat_lines t));
          chat_h = t_height t - 6; start = (if count > chat_h then count - chat_h else 0)
      in (if t_chat_partner t \<noteq> []
          then [sgr ''1;37'' @ '' '' @ t_chat_partner t @ '' | '' @ session_state_str st] @
               (if st = CONN_LOCKED
                then ['' | key epoch '' @ dec 0] @
                     (if ci_path_count ci > 0 \<and> pi_rtt_ns (path_at ci 0) > 0 then ['' | '' @ decw (rtt_ms ci 0) @ ''ms''] else []) @
                     ['' | fec '' @ (if ci_fec_enabled ci then ''on'' else ''off'')]
                else []) @
               [rst @ nl]
          else [sgr ''1;30'' @ '' Select a peer to chat'' @ rst @ nl]) @
         map (chat_row V t) (drop (nat start) (t_chat_lines t)) @
         (if t_typing_tick t > 0 \<and> t_typing_peer t \<noteq> [] then [sgr ''1;33'' @ t_typing_peer t @ '' is typing...'' @ rst @ nl] else []) @
         [(case st of
             CONN_LOCKED \<Rightarrow> sgr ''1;32'' @ ''[PQ encrypted]''
           | CONN_HANDSHAKE \<Rightarrow> sgr ''1;33'' @ ''[PQ handshake...]''
           | CONN_FAILED \<Rightarrow> sgr ''1;31'' @ ''[connection failed]''
           | _ \<Rightarrow> sgr ''1;30'' @ ''[waiting for secure session...]'') @ rst @ nl])"

section \<open>Popups\<close>

definition popup_edge :: string where
  "popup_edge = sgr ''1;33'' @ ''+------------------------------------------------+'' @ rst"

definition popup_bar :: string where
  "popup_bar = sgr ''1;33'' @ ''|'' @ rst"

text \<open>The row of the two buttons and the lower edge.\<close>

definition popup_buttons :: "int \<Rightarrow> int \<Rightarrow> int \<Rightarrow> string list" where
  "popup_buttons sel py px =
     [at_pos (py + 4) (px + 1) @ popup_bar @
        (if sel = 0 then ''      '' @ sgr ''1;32'' @ ''[ Accept ]'' @ rst @ ''    [ Decline ]      ''
         else ''        [ Accept ]    '' @ sgr ''1;31'' @ ''[ Decline ]'' @ rst @ ''    '') @ popup_bar,
      at_pos (py + 5) (px + 1) @ popup_edge]"

text \<open>C division truncates, so a negative difference is cut to 0 by the test that follows, as here.\<close>

definition tui_panel_request_popup :: "tui \<Rightarrow> string list" where
  "tui_panel_request_popup t =
     (if \<not> t_show_conn_popup t then []
      else let px = max 0 ((t_width t - 46) div 2); py = max 0 ((t_height t - 7) div 2) in
        [at_pos py (px + 1) @ popup_edge,
         at_pos (py + 1) (px + 1) @ popup_bar @ ''          '' @ sgr ''1;37'' @ ''Incoming Connection'' @ rst @ ''          '' @ popup_bar,
         at_pos (py + 2) (px + 1) @ popup_bar @ ''  '' @ or_text (t_conn_req_display t) (t_conn_req_username t) @ '' ('' @
           t_conn_req_addr t @ '':'' @ decw (t_conn_req_port t) @ '')                   '' @ popup_bar,
         at_pos (py + 3) (px + 1) @ popup_bar @ ''  wants to start a secure chat         '' @ popup_bar] @
        popup_buttons (t_conn_popup_selection t) py px)"

definition tui_panel_call_popup :: "tui \<Rightarrow> string list" where
  "tui_panel_call_popup t =
     (if \<not> t_show_call_popup t then []
      else let px = max 0 ((t_width t - 46) div 2); py = max 0 ((t_height t - 7) div 2);
               call_type = (if t_call_popup_type t = 0 then ''Audio'' else ''Video'') in
        [at_pos py (px + 1) @ popup_edge,
         at_pos (py + 1) (px + 1) @ popup_bar @ ''       '' @ sgr ''1;37'' @ ''Incoming '' @ call_type @ '' Call'' @ rst @ ''         '' @ popup_bar,
         at_pos (py + 2) (px + 1) @ popup_bar @ ''  '' @ t_call_req_peer t @ '' wants to start a '' @ call_type @ '' call        '' @ popup_bar,
         at_pos (py + 3) (px + 1) @ popup_bar @ ''                                          '' @ popup_bar] @
        popup_buttons (t_call_popup_selection t) py px)"

section \<open>Tab bars and settings\<close>

text \<open>The loop over the labels, which ends behind the right margin.\<close>

fun tab_bar :: "(nat \<Rightarrow> bool) \<Rightarrow> int \<Rightarrow> nat \<Rightarrow> int \<Rightarrow> string list \<Rightarrow> string list" where
  "tab_bar active width i x [] = []"
| "tab_bar active width i x (l # ls) =
     (at_pos 2 x @ (if active i then sgr ''1;47;30'' else sgr ''1;30'') @ '' '' @ l @ '' '' @ rst) #
     (let x1 = x + int (length l) + 3 in if x1 > width then [] else tab_bar active width (i + 1) x1 ls)"

definition tui_panel_user_tabs :: "tui \<Rightarrow> string list" where
  "tui_panel_user_tabs t =
     tab_bar (\<lambda>i. t_user_tab t = int i \<and> t_screen t \<noteq> SCREEN_ADVANCED) (t_width t) 0 1
       [''Peers'', ''Chats'', ''Groups'', ''Calls'', ''Files'', ''Settings'']"

definition tui_panel_adv_tabs :: "tui \<Rightarrow> string list" where
  "tui_panel_adv_tabs t =
     [esc ''['' @ dec_int 2 @ '';1H'' @ sgr ''1;37;44'' @ '' Advanced Space '' @ spaces (t_width t - 17) @ rst @ nl, esc ''[2K''] @
     tab_bar (\<lambda>i. t_adv_tab t = int i) (t_width t) 0 1
       [''Overview'', ''Security'', ''Pipeline'', ''Watchers'', ''Network'', ''Crypto'', ''Events'', ''Controls'']"

definition tui_panel_settings :: "tui \<Rightarrow> string list" where
  "tui_panel_settings t =
     (let lines = [(''Identity'', []),
            (''Network'', ''  '' @ sgr ''1;30'' @ ''port 9001, alt 9003'' @ rst),
            (''Discovery'', ''  '' @ sgr ''1;30'' @ ''port 9009, enabled'' @ rst),
            (''Runtime options'', ''  '' @ sgr ''1;30'' @ ''FEC on, group 4'' @ rst),
            (''Advanced Space'', ''  '' @ sgr ''1;30'' @ ''diagnostics and controls'' @ rst),
            (''Quit'', [])];
          rows = min (t_height t - 6) 6
      in [sgr ''1;37'' @ '' Settings'' @ rst @ nl,
          sgr ''1;30'' @ '' '' @ or_text (t_username t) ''(none)'' @ '' / '' @ or_text (t_display_name t) ''(none)'' @ rst @ nl] @
         map (\<lambda>i. let sel = int i = t_settings_selection t; (l, desc) = lines ! i
                   in (if sel then ''>'' else '' '') @ '' '' @ (if sel then sgr ''1;37;44'' else []) @ padr 20 l @ rst @ desc @ nl)
           [0..<nat rows])"

section \<open>Panels of the advanced space\<close>

definition render_adv_header :: "tui \<Rightarrow> string \<Rightarrow> string list" where
  "render_adv_header t tab_name =
     [sgr ''1;37'' @ '' Advanced / '' @ tab_name,
      if \<not> t_adv_paused t then ''  '' @ sgr ''1;30'' @ ''live'' @ rst else ''  '' @ sgr ''1;33'' @ ''paused'' @ rst,
      rst @ nl]"

definition heading :: "string \<Rightarrow> string" where
  "heading s = sgr ''1;37'' @ s @ rst"

definition ok_text :: string where
  "ok_text = sgr ''1;32'' @ ''OK'' @ rst"

text \<open>
  The engine never sets \<open>fec_recovered_count\<close> of the connection info, which is 0. The result of
  \<open>transport_get_status\<close> is not used, and the two state texts are equal.
\<close>

definition tui_panel_adv_overview :: "view_env \<Rightarrow> tui \<Rightarrow> string list" where
  "tui_panel_adv_overview V t =
     (let mon = monitor_get_snapshot (n_monitor (ve_node V)); ci = t_conn_info t;
          up = unat (ci_uptime_ms ci) div 1000;
          uptime_str = snprintf 32 (dec02 (up div 3600) @ '':'' @ dec02 (up mod 3600 div 60) @ '':'' @ dec02 (up mod 60));
          state_s = (if ci_state ci = CONN_LOCKED then ok_text else sgr ''1;33'' @ ''WARN'' @ rst);
          free = pool_free_current mon; rtt = rtt_ms ci 0;
          n = length (t_log t)
      in render_adv_header t ''Overview'' @
         [heading ''System'' @ ''       '' @ state_s @ ''    uptime '' @ uptime_str @ ''   pool '' @ decw free @ ''/'' @ decw (free + (4096 - free)) @ '' free'' @ nl,
          heading ''Session'' @ ''      '' @ state_s @ ''    peer '' @ or_text (t_chat_partner t) ''(none)'' @ ''        session '' @
            hex08 (ucast (ci_session_id ci)) @ nl,
          heading ''Transport'' @ ''    '' @ (if rtt < 500 then ok_text else sgr ''1;31'' @ ''HIGH'' @ rst) @ ''    rtt '' @ decw rtt @ ''ms       loss '' @
            fixed1 (pi_loss_rate (path_at ci 0)) @ ''%'' @ nl,
          heading ''Resilience'' @ ''   '' @ (if ci_fec_enabled ci then ok_text else sgr ''1;33'' @ ''OFF'' @ rst) @ ''    fec '' @
            (if ci_fec_enabled ci then ''on'' else ''off'') @ '' group '' @ dec 0 @ ''  recovered '' @ dec 0 @ nl,
          nl @ heading ''Recent events'' @ nl] @
         map (\<lambda>l. '' '' @ l @ nl) (drop (n - 5) (t_log t)) @
         (if n = 0 then ['' '' @ sgr ''1;30'' @ ''(no events)'' @ rst @ nl] else []))"

definition tui_panel_adv_security :: "view_env \<Rightarrow> tui \<Rightarrow> string list" where
  "tui_panel_adv_security V t =
     (let ci = t_conn_info t; hs = n_stats (ve_node V)
      in render_adv_header t ''Security'' @
         [heading ''Session'' @ ''       '' @ padr 12 (session_state_str (ci_state ci)) @ ''  session id '' @ hex08 (ucast (ci_session_id ci)) @ nl,
          heading ''Identity'' @ ''      '' @ or_text (t_username t) ''(none)'' @ nl,
          heading ''AEAD'' @ ''          ChaCha20-Poly1305'' @ nl,
          heading ''KEM'' @ ''           ML-KEM 768'' @ nl,
          heading ''Identity'' @ ''      HMAC-SHA256'' @ nl,
          heading ''Key rotation'' @ ''  epoch '' @ dec 0 @ nl,
          nl @ heading ''Handshake stats'' @ nl,
          '' attempts '' @ decw (attempts_total hs) @ ''  successes '' @ decw (successes hs) @ nl,
          '' timeouts '' @ decw (failures_timeout hs) @ ''  identity '' @ decw (failures_identity hs) @ ''  replay '' @
            decw (failures_replay hs) @ ''  state '' @ decw (failures_state hs) @ nl])"

definition pipeline_layers :: "node \<Rightarrow> (string \<times> u32 option \<times> u32 option) list" where
  "pipeline_layers n =
     [(''packet_parse'', None, None), (''offensive'', None, None), (''anti_analysis'', None, Some (drops_high (n_aa n))),
      (''static_shell'', None, None), (''kernel_filter'', Some (passes (n_kf n)), Some (drops_blocked (n_kf n))),
      (''session_gate'', None, None), (''resilience'', None, None), (''session_enc'', None, None), (''seq_check'', None, None),
      (''rx_demux'', None, None)]"

definition tui_panel_adv_pipeline :: "view_env \<Rightarrow> tui \<Rightarrow> string list" where
  "tui_panel_adv_pipeline V t =
     (let mon = monitor_get_snapshot (n_monitor (ve_node V)); layers = pipeline_layers (ve_node V)
      in render_adv_header t ''Pipeline'' @
         [padr 18 ''Layer'' @ '' '' @ padr 8 ''State'' @ '' '' @ padr 10 ''Pass'' @ '' '' @ padr 8 ''Drop'' @ nl] @
         map (\<lambda>(name, p, d).
            let pass = (case p of Some x \<Rightarrow> x | None \<Rightarrow> ucast (sample_count mon));
                drp = (case d of Some x \<Rightarrow> x | None \<Rightarrow> total_drops mon div of_nat (length layers))
            in padr 18 name @ '' '' @ ok_text @ ''     '' @ padr 10 (decw pass) @ '' '' @ padr 8 (decw drp) @ nl) layers)"

definition tui_panel_adv_watchers :: "view_env \<Rightarrow> tui \<Rightarrow> string list" where
  "tui_panel_adv_watchers V t =
     (let mon = monitor_get_snapshot (n_monitor (ve_node V)); hs = n_stats (ve_node V); free = pool_free_current mon;
          st = (\<lambda>x. if x \<noteq> 0 then ''STALL'' else ''alive'');
          watchers = [(''rx-worker'', st (rx_thread_stalled mon), ''polling''),
                      (''tx-worker'', st (tx_thread_stalled mon), ''queue empty''),
                      (''crypto'', st (crypto_thread_stalled mon), ''0 pending''),
                      (''pool'', ''OK'', snprintf 64 (''min free '' @ decw (pool_free_min mon))),
                      (''handshake'', ''OK'', snprintf 64 (''attempts '' @ decw (attempts_total hs) @ '' success '' @ decw (successes hs)))]
      in render_adv_header t ''Watchers'' @
         [padr 16 ''Watcher'' @ '' '' @ padr 10 ''State'' @ '' '' @ ''Detail'' @ nl] @
         map (\<lambda>(name, state, detail).
            padr 16 name @ '' '' @ (if state = ''STALL'' then sgr ''1;31'' else sgr ''1;32'') @ padr 10 state @ rst @ '' '' @ detail @ nl) watchers @
         [nl @ heading ''Pool pressure'' @ nl,
          ''  free current '' @ decw free @ ''  min free '' @ decw (pool_free_min mon) @ ''  total '' @ decw (free + (4096 - free)) @ nl])"

definition tui_panel_adv_network :: "tui \<Rightarrow> string list" where
  "tui_panel_adv_network t =
     (let ci = t_conn_info t
      in render_adv_header t ''Network'' @
         [heading ''Paths'' @ ''  count '' @ dec (ci_path_count ci) @ nl,
          padr 6 ''Path'' @ '' '' @ padr 10 ''State'' @ '' '' @ padr 8 ''RTT'' @ '' '' @ padr 8 ''Loss'' @ '' '' @ padr 8 ''Sent'' @ '' '' @ padr 8 ''Recv'' @ nl] @
         map (\<lambda>i. padr 6 (dec i) @ '' '' @ padr 10 (if i = 0 then sgr ''1;32'' @ ''active'' @ rst else ''standby'') @ '' '' @
               padr 8 (decw (rtt_ms ci i)) @ '' '' @ padr 8 (fixed1 (pi_loss_rate (path_at ci i))) @ '' '' @
               padr 8 (decw (pi_packets_sent (path_at ci i))) @ '' '' @ padr 8 (decw (pi_packets_recv (path_at ci i))) @ nl)
           [0..<min (ci_path_count ci) RESILIENCE_MAX_PATHS] @
         [nl @ heading ''Resilience'' @ nl,
          ''  FEC: '' @ (if ci_fec_enabled ci then ''on'' else ''off'') @ '' group '' @ dec 0 @ ''  recovered '' @ dec 0 @ nl])"

definition tui_panel_adv_crypto :: "tui \<Rightarrow> string list" where
  "tui_panel_adv_crypto t =
     render_adv_header t ''Crypto'' @
     [heading ''KEM'' @ ''           ML-KEM 768 (liboqs)'' @ nl,
      heading ''AEAD'' @ ''          ChaCha20-Poly1305 (mbedtls)'' @ nl,
      heading ''Identity'' @ ''      HMAC-SHA256'' @ nl,
      heading ''HKDF'' @ ''          SHA-256'' @ nl,
      heading ''Nonce'' @ ''         deterministic session_id+channel_id+seq'' @ nl,
      heading ''AAD'' @ ''           header + channel key XOR-fold'' @ nl,
      heading ''Key epoch'' @ ''     '' @ dec 0 @ nl,
      heading ''Key rotation'' @ ''  '' @ ''N/A'' @ nl,
      heading ''Storage'' @ ''       '' @ ''mlock / env key'' @ nl]"

definition tui_panel_adv_events :: "tui \<Rightarrow> string list" where
  "tui_panel_adv_events t =
     (let n = int (length (t_log t)); rows = t_height t - 6; start = (if n > rows then n - rows else 0)
      in render_adv_header t ''Events'' @
         (if n = 0 then [sgr ''1;30'' @ ''(no events)'' @ rst @ nl]
          else [padr 8 ''Time'' @ '' '' @ padr 6 ''Level'' @ '' '' @ padr 12 ''Category'' @ '' '' @ ''Event'' @ nl] @
               map (\<lambda>l. padr 8 [] @ '' '' @ sgr ''1;32'' @ ''INFO'' @ rst @ ''   '' @ padr 12 [] @ '' '' @ l @ nl) (drop (nat start) (t_log t))))"

definition tui_panel_adv_controls :: "tui \<Rightarrow> string list" where
  "tui_panel_adv_controls t =
     (let controls = [(''Trigger discovery scan'', ''F5'', ''Scan LAN for peers''),
                      (''Toggle FEC'', ''F6'', ''Enable/disable forward error correction''),
                      (''Request port hop'', ''F7'', ''Change UDP port''),
                      (''Trigger rekey'', ''F8'', ''Initiate key rotation''),
                      (''Disconnect session'', ''F9'', ''End active session''),
                      (''Return to User Space'', ''F2'', ''Exit advanced mode'')]
      in render_adv_header t ''Controls'' @
         map (\<lambda>i. let sel = int i = t_adv_selected_row t; (action, key, desc) = controls ! i
                   in (if sel then ''>'' else '' '') @ '' '' @ (if sel then sgr ''1;37;44'' else []) @ padr 24 action @ rst @ '' '' @
                      padr 6 key @ ''  '' @ desc @ nl) [0..<length controls])"

definition tui_panel_advanced :: "view_env \<Rightarrow> tui \<Rightarrow> string list" where
  "tui_panel_advanced V t =
     (let k = t_adv_tab t in
      if k = 0 then tui_panel_adv_overview V t else if k = 1 then tui_panel_adv_security V t
      else if k = 2 then tui_panel_adv_pipeline V t else if k = 3 then tui_panel_adv_watchers V t
      else if k = 4 then tui_panel_adv_network t else if k = 5 then tui_panel_adv_crypto t
      else if k = 6 then tui_panel_adv_events t else if k = 7 then tui_panel_adv_controls t else [])"

section \<open>Panels of the group screen\<close>

definition side_width :: "tui \<Rightarrow> int" where
  "side_width t = max 12 (min 20 (t_width t div 4))"

definition cur_room :: "view_env \<Rightarrow> tui \<Rightarrow> group_room option" where
  "cur_room V t = (if t_current_room t \<noteq> [] then map_option (\<lambda>i. g_rooms (ve_groups V) ! i) (group_find (t_current_room t) (ve_groups V)) else None)"

text \<open>Rows \<open>i\<close> of a list from \<open>scroll\<close> on, as many as fit, with their screen line; then the lines that are cleared.\<close>

definition visible :: "int \<Rightarrow> int \<Rightarrow> int \<Rightarrow> nat" where
  "visible scroll count avail = nat (min (count - scroll) (avail - 1))"

definition clear_lines :: "nat \<Rightarrow> int \<Rightarrow> int \<Rightarrow> string list" where
  "clear_lines first bound col = map (\<lambda>l. at_pos (3 + int l) col @ esc ''[K'') [first..<nat bound]"

definition tui_panel_room_sidebar :: "view_env \<Rightarrow> tui \<Rightarrow> string list" where
  "tui_panel_room_sidebar V t =
     (let sw = side_width t; avail = t_height t - 2; (count, rooms) = group_get_rooms (ve_groups V);
          shown = visible (t_group_room_scroll t) (int count) avail
      in [at_pos 2 1 @ sgr ''1;47;30'' @ '' '' @ padr (nat \<bar>sw - 2\<bar>) ''Rooms'' @ rst] @
         concat (map (\<lambda>l.
            let r = rooms ! (nat (t_group_room_scroll t) + l);
                sel = (if t_group_focus t = GROUP_FOCUS_ROOMS then sgr ''1;33'' @ ''>'' @ rst else '' '');
                hl = (if room_name r = t_current_room t then sgr ''1;37;44'' else rst);
                display = take 16 (snprintf 18 (padr 16 (room_name r)))
            in [at_pos (3 + int l) 1 @ sel @ hl @ prec (sw - 3) display @ rst, esc ''[K'']) [0..<shown]) @
         clear_lines shown (avail - 1) 1 @
         [at_pos (t_height t) sw @ sgr ''1;37'' @ ''|'' @ rst])"

definition tui_panel_group_chat :: "view_env \<Rightarrow> tui \<Rightarrow> string list" where
  "tui_panel_group_chat V t =
     (let sw = side_width t; chat_left = sw + 1; chat_width = t_width t - sw - side_width t - 2; room = cur_room V t;
          hdr = snprintf 64 (case room of Some r \<Rightarrow> '' #'' @ room_name r | None \<Rightarrow> '' No room selected'');
          head = at_pos 2 chat_left @ sgr ''1;47;30'' @ padr (nat \<bar>chat_width\<bar>) hdr @ rst;
          msgs = (case room of Some r \<Rightarrow> room_messages r | None \<Rightarrow> []);
          chat_h = t_height t - 6; n = int (length msgs);
          start = nat (if n > chat_h then n - chat_h else 0);
          shown = nat (min (n - int start) chat_h)
      in if msgs = []
         then [head, at_pos 4 chat_left @ sgr ''1;30'' @ (if room = None then '' Select a room'' else '' No messages yet'') @ rst]
         else [head] @
           concat (map (\<lambda>l.
             let msg = msgs ! (start + l); row = 3 + int l;
                 ts = (case ve_hm V (gmsg_timestamp_ms msg div 1000) of Some s \<Rightarrow> s | None \<Rightarrow> ''??:??'');
                 sender_color = (if gmsg_sender msg = t_username t then sgr ''1;34'' else sgr ''1;32'');
                 display_text = snprintf 256 (prec (if chat_width > 30 then chat_width - 30 else 80) (gmsg_text msg))
             in [at_pos row chat_left @ esc ''[K'',
                 at_pos row chat_left @ sgr ''1;30'' @ ''['' @ ts @ '']'' @ rst @ '' '' @ sender_color @ ''['' @ gmsg_sender msg @ '']'' @ rst @
                   '' '' @ display_text]) [0..<shown]) @
           clear_lines shown chat_h chat_left)"

definition tui_panel_member_sidebar :: "view_env \<Rightarrow> tui \<Rightarrow> string list" where
  "tui_panel_member_sidebar V t =
     (let mw = side_width t; right = t_width t - mw + 1; avail = t_height t - 2;
          members = (case cur_room V t of Some r \<Rightarrow> room_members r | None \<Rightarrow> []);
          shown = visible (t_group_member_scroll t) (int (length members)) avail
      in [at_pos 2 right @ sgr ''1;47;30'' @ '' '' @ padr (nat \<bar>mw - 2\<bar>) ''Members'' @ rst] @
         map (\<lambda>l.
            let m = members ! (nat (t_group_member_scroll t) + l);
                hl = (if t_group_focus t = GROUP_FOCUS_MEMBERS then sgr ''7'' else []);
                display = take 14 (snprintf 16 (padr 14 (gm_username m)))
            in at_pos (3 + int l) right @ (if gm_online m then dot_on else dot_off) @ '' '' @ hl @ prec (mw - 4) display @ rst @ esc ''[K'')
           [0..<shown] @
         clear_lines shown (avail - 1) right @
         [at_pos (t_height t) (t_width t - mw) @ sgr ''1;37'' @ ''|'' @ rst])"

section \<open>Status bar\<close>

definition arrow :: "nat \<Rightarrow> string" where
  "arrow n = [CHR 0xE2, CHR 0x86, char_of n]"

fun key_hints :: "tui \<Rightarrow> screen \<Rightarrow> string" where
  "key_hints t SCREEN_LOGIN = sgr ''1;30'' @ '' [Tab:next] [Enter:start] [q:quit]'' @ rst"
| "key_hints t SCREEN_PEER_LIST = sgr ''1;30'' @ '' ['' @ arrow 0x91 @ arrow 0x93 @ ''/j/k:nav] ['' @ arrow 0x92 @ ''/Enter:chat] ['' @ arrow 0x90 @
     ''/Esc:back] [g:rooms] [r:refresh] [q:quit] [Ctrl+S:settings]'' @ rst"
| "key_hints t SCREEN_CHAT =
     (if ci_state (t_conn_info t) = CONN_LOCKED
      then sgr ''1;30'' @ '' ['' @ arrow 0x90 @ ''/Esc:back] [Ctrl+A:audio] [Ctrl+V:video] [Ctrl+F:file] [q:quit]'' @ rst
      else sgr ''1;30'' @ '' ['' @ arrow 0x90 @ ''/Esc:back] [Type:message] [Enter:send]'' @ rst)"
| "key_hints t SCREEN_GROUP = snprintf 192 (sgr ''1;30'' @ '' [Tab:focus='' @
     (if t_group_focus t = GROUP_FOCUS_CHAT then ''Chat'' else if t_group_focus t = GROUP_FOCUS_MEMBERS then ''Members'' else ''Rooms'') @
     ''] [j/k:nav] [Enter:select] [Esc:back] [q:quit]'' @ rst)"
| "key_hints t SCREEN_SETTINGS = sgr ''1;30'' @ '' ['' @ arrow 0x91 @ arrow 0x93 @ ''/j/k:nav] [Enter:select] [Esc:back] [Ctrl+D:advanced] [q:quit]'' @ rst"
| "key_hints t SCREEN_ADVANCED = sgr ''1;30'' @ '' [[/]:tab] [j/k:nav] [Enter:drill] [Esc:back] [F2:user space] [r:refresh] [p:pause]'' @ rst"

definition tui_panel_statusbar :: "tui \<Rightarrow> string list" where
  "tui_panel_statusbar t =
     (let ci = t_conn_info t; rtt = rtt_ms ci 0;
          rtt_color = (if rtt > 500 then sgr ''1;31'' else if rtt > 200 then sgr ''1;33'' else sgr ''1;32'');
          status = (if ci_state ci = CONN_LOCKED
                    then snprintf 192 ('' '' @ (if t_audio_active t then sgr ''1;35'' @ ''[AUDIO]'' @ rst else []) @
                           (if t_video_active t then sgr ''1;36'' @ ''[VIDEO]'' @ rst else []) @ '' '' @ rtt_color @ decw rtt @ ''ms'' @ rst)
                    else [])
      in [esc ''['' @ dec_int (t_height t) @ '';1H'' @ esc ''[2K'' @ rst,
          esc ''['' @ dec_int (t_height t - 1) @ '';1H'',
          esc ''[2K'' @ ''> '' @ cstr (t_input_buf t) @ status,
          at_pos (t_height t) 1 @ key_hints t (t_screen t)] @
         (if t_input_active t \<and> t_screen t \<noteq> SCREEN_ADVANCED
          then [at_pos (t_height t - 1) (3 + int (t_input_pos t)) @ sgr ''5'' @ ''_'' @ rst] else []))"

end
