(* ===== verification/Tui_Render.thy ===== *)
theory Tui_Render
  imports Tui_Panels
begin

text \<open>
  The screen buffer (\<open>tui_render\<close> of \<open>app/tui_screen.c\<close>). Every panel appends to one array of 65536
  characters with \<open>n += snprintf(buf + n, max - n > 0 ? max - n : 0, ...)\<close>; since \<open>snprintf\<close> returns the
  length of the whole text, the position runs on behind the end of the array when the screen does not fit. The
  array is not initialised.
\<close>

abbreviation (input) SCREEN_BUF :: nat where "SCREEN_BUF \<equiv> 65536"

text \<open>One such call: the text is cut to the space that is left and terminated, unless there is none.\<close>

definition put :: "nat \<Rightarrow> string \<Rightarrow> string \<times> nat \<Rightarrow> string \<times> nat" where
  "put mx s = (\<lambda>(b, n). (if n < mx then mem_write n (take (mx - n - 1) s @ [CHR 0x00]) b else b, n + length s))"

definition screen_panels :: "view_env \<Rightarrow> tui \<Rightarrow> string list" where
  "screen_panels V t =
     tui_panel_topbar V t @
     (case t_screen t of
        SCREEN_LOGIN \<Rightarrow> tui_panel_login t
      | SCREEN_PEER_LIST \<Rightarrow> tui_panel_user_tabs t @ tui_panel_peer_list V t
      | SCREEN_CHAT \<Rightarrow> tui_panel_chat V t
      | SCREEN_GROUP \<Rightarrow> tui_panel_user_tabs t @ tui_panel_room_sidebar V t @ tui_panel_group_chat V t @ tui_panel_member_sidebar V t
      | SCREEN_SETTINGS \<Rightarrow> tui_panel_settings t
      | SCREEN_ADVANCED \<Rightarrow> tui_panel_adv_tabs t @ tui_panel_advanced V t) @
     tui_panel_request_popup t @ tui_panel_call_popup t @ tui_panel_statusbar t"

text \<open>\<open>junk\<close> is the array before the first call.\<close>

definition tui_render :: "view_env \<Rightarrow> string \<Rightarrow> terminal \<times> tui \<Rightarrow> terminal \<times> tui" where
  "tui_render V junk = (\<lambda>(m, t).
     let t1 = t\<lparr>t_width := tui_terminal_width m, t_height := tui_terminal_height m\<rparr>;
         (buf, pos) = fold (put SCREEN_BUF) (screen_panels V t1) (junk, 0);
         m1 = (if pos > 0 then tui_write (cstr buf) m else m);
         m2 = (if pos > SCREEN_BUF then tui_write ''[render truncated]'' m1 else m1)
     in (m2, t1\<lparr>t_dirty := False\<rparr>))"

section \<open>The buffer holds the text that fits\<close>

definition holds :: "nat \<Rightarrow> string \<Rightarrow> string \<times> nat \<Rightarrow> bool" where
  "holds mx s = (\<lambda>(b, n). n = length s \<and> length b = mx \<and> take (min n (mx - 1)) b = take (mx - 1) s)"

lemma put_holds:
  assumes "holds mx s (b, n)" and "0 < mx"
  shows "holds mx (s @ x) (put mx x (b, n)) \<and>
    (fst (put mx x (b, n)) ! min (n + length x) (mx - 1) = CHR 0x00 \<or> mx \<le> n)"
proof (cases "n < mx")
  case True
  let ?w = "take (mx - n - 1) x @ [CHR 0x00]"
  have m: "min n (mx - 1) = n" using True by simp
  have n: "n = length s" "length b = mx" "take n b = s"
  proof -
    show l: "n = length s" "length b = mx" using assms(1) by (simp_all add: holds_def)
    have "take (mx - 1) s = s" using True l(1) by simp
    moreover have "take (min n (mx - 1)) b = take (mx - 1) s"
      using assms(1) unfolding holds_def prod.case by (elim conjE)
    ultimately show "take n b = s" by (simp only: m)
  qed
  have w: "n + length ?w \<le> length b" using True n by auto
  have "mem_write n ?w b = s @ ?w @ drop (n + length ?w) b" using n(3) by (simp add: mem_write_def)
  moreover have "length (mem_write n ?w b) = mx" using w n by (simp add: length_mem_write)
  moreover have "min (n + length x) (mx - 1) = n + length (take (mx - n - 1) x)" using True by auto
  moreover have "take (min (length x) k) x = take k x" for k by (simp add: min_def)
  ultimately show ?thesis
    using True n by (auto simp: put_def holds_def nth_append)
next
  case False
  then have "min n (mx - 1) = mx - 1" "min (n + length x) (mx - 1) = mx - 1" by auto
  with False assms(1) show ?thesis by (auto simp: put_def holds_def)
qed

lemma puts_hold:
  assumes "length b = mx" and "0 < mx"
  shows "holds mx (concat xs) (fold (put mx) xs (b, 0)) \<and>
    (xs \<noteq> [] \<longrightarrow> fst (fold (put mx) xs (b, 0)) ! min (length (concat xs)) (mx - 1) = CHR 0x00)"
proof (induction xs rule: rev_induct)
  case Nil
  then show ?case using assms by (simp add: holds_def)
next
  case (snoc x xs)
  obtain b1 n where f: "fold (put mx) xs (b, 0) = (b1, n)" by fastforce
  have h: "holds mx (concat xs) (b1, n)" and z: "xs \<noteq> [] \<longrightarrow> b1 ! min n (mx - 1) = CHR 0x00"
    using snoc.IH f by (auto simp: holds_def)
  have n: "n = length (concat xs)" using h by (simp add: holds_def)
  note p = put_holds [OF h assms(2), of x]
  have "fst (put mx x (b1, n)) ! min (n + length x) (mx - 1) = CHR 0x00" if "mx \<le> n"
  proof -
    have "xs \<noteq> []" using that n assms(2) by auto
    moreover have "min n (mx - 1) = mx - 1" "min (n + length x) (mx - 1) = mx - 1" using that by simp_all
    ultimately show ?thesis using z that by (simp add: put_def)
  qed
  with p n f show ?case by auto
qed

lemma cstr_append_nul: "cstr (xs @ CHR 0x00 # ys) = cstr xs"
  by (induction xs) (simp_all add: cstr_def)

lemma cstr_cut: "\<lbrakk> length b = mx; k < mx; b ! k = CHR 0x00 \<rbrakk> \<Longrightarrow> cstr b = cstr (take k b)"
  by (metis cstr_append_nul id_take_nth_drop)

text \<open>
  C20: Rendering never writes outside of its 65536 characters, whatever the state and the size of the
  texts: after every single \<open>snprintf\<close> the array has its length, and what reaches the terminal is
  the C string of the first 65535 characters of all panels, followed by the notice when the text is longer
  than the array.
\<close>

theorem render_bounded:
  assumes "length junk = SCREEN_BUF"
  shows "let t1 = t\<lparr>t_width := tui_terminal_width m, t_height := tui_terminal_height m\<rparr>;
             texts = screen_panels V t1; s = concat texts; (m2, t2) = tui_render V junk (m, t)
    in (\<forall>k. length (fst (fold (put SCREEN_BUF) (take k texts) (junk, 0))) = SCREEN_BUF) \<and>
       tm_out m2 = tm_out m @ cstr (take (SCREEN_BUF - 1) s) @ (if length s > SCREEN_BUF then ''[render truncated]'' else []) \<and>
       t2 = t1\<lparr>t_dirty := False\<rparr>"
proof -
  let ?t1 = "t\<lparr>t_width := tui_terminal_width m, t_height := tui_terminal_height m\<rparr>"
  let ?xs = "screen_panels V ?t1"
  let ?s = "concat ?xs"
  obtain b n where f: "fold (put SCREEN_BUF) ?xs (junk, 0) = (b, n)" by fastforce
  have ne: "?xs \<noteq> []" by (simp add: screen_panels_def tui_panel_topbar_def Let_def)
  have h: "n = length ?s" "length b = SCREEN_BUF" "take (min n (SCREEN_BUF - 1)) b = take (SCREEN_BUF - 1) ?s"
      "b ! min n (SCREEN_BUF - 1) = CHR 0x00"
    using puts_hold [OF assms, of ?xs] ne f by (auto simp: holds_def)
  have "length (fst (fold (put SCREEN_BUF) (take k ?xs) (junk, 0))) = SCREEN_BUF" for k
    using puts_hold [OF assms, of "take k ?xs"] by (auto simp: holds_def)
  moreover have "cstr b = cstr (take (SCREEN_BUF - 1) ?s)"
    using cstr_cut [OF h(2) _ h(4)] h(3) by simp
  moreover have "cstr (take (SCREEN_BUF - 1) ?s) = []" if "n = 0"
  proof -
    have "?s = []" using that h(1) by (metis length_0_conv)
    then show ?thesis by (simp only: cstr_def) simp
  qed
  ultimately show ?thesis
    using f h(1) by (simp add: tui_render_def tui_write_def Let_def)
qed

theorem render_bounded_witness:
  "\<forall>V m t. tm_out (fst (tui_render V (replicate SCREEN_BUF (CHR ''x'')) (m, t))) =
     (let s = concat (screen_panels V (t\<lparr>t_width := tui_terminal_width m, t_height := tui_terminal_height m\<rparr>))
      in tm_out m @ cstr (take (SCREEN_BUF - 1) s) @ (if length s > SCREEN_BUF then ''[render truncated]'' else []))"
proof (intro allI)
  fix V m t
  have "length (replicate SCREEN_BUF (CHR ''x'')) = SCREEN_BUF" by (rule length_replicate)
  from render_bounded [OF this, where t = t and m = m and V = V]
  show "tm_out (fst (tui_render V (replicate SCREEN_BUF (CHR ''x'')) (m, t))) =
     (let s = concat (screen_panels V (t\<lparr>t_width := tui_terminal_width m, t_height := tui_terminal_height m\<rparr>))
      in tm_out m @ cstr (take (SCREEN_BUF - 1) s) @ (if length s > SCREEN_BUF then ''[render truncated]'' else []))"
    unfolding Let_def case_prod_beta by (elim conjE)
qed

end
