(* ===== verification/App.thy ===== *)
theory App
  imports Tui_Input Tui_Render Engine_Safe
begin

text \<open>
  The application (\<open>app/main.c\<close>): start of the transport, the handling of events, one turn of the main loop
  of the terminal interface with its commands and the dispatch of keys, and the loop of the daemon.
  The state is the interface, the terminal, the transport interface, the rooms, the identity and the
  files of the configuration directory. Calls into the engine that would read or write outside of an
  array give \<open>None\<close>. The counter of turns is not bounded, while the \<open>int\<close> of the code overflows after 2^31 turns of at least
  0.2 seconds. \<open>fork\<close> and signals of the daemon are not modelled.
\<close>

record app =
  a_tui :: tui
  a_term :: terminal
  a_api :: api
  a_groups :: groups
  a_id :: identity
  a_files :: text_files
  a_started :: bool
  a_frame :: nat

text \<open>
  What one turn gets from outside: the environment of the engine and of the panels, which files can be opened,
  random bytes for a key, the printed time, the datagrams at the discovery socket, and the content
  of arrays that are not initialised.
\<close>

record app_env =
  ap_env :: env
  ap_lib :: crypto_lib
  ap_acc :: "string \<Rightarrow> bool"
  ap_rnd :: bytes
  ap_stamp :: "string option"
  ap_created :: string
  ap_inbox :: "(bytes \<times> string) list"
  ap_config_file :: "string option"
  ap_hm :: "u64 \<Rightarrow> string option"
  ap_junk :: string
  ap_screen :: string

definition upd_tui :: "(tui \<Rightarrow> tui) \<Rightarrow> app \<Rightarrow> app" where
  "upd_tui f s = s\<lparr>a_tui := f (a_tui s)\<rparr>"

definition upd_node :: "(node \<Rightarrow> node) \<Rightarrow> app \<Rightarrow> app" where
  "upd_node f s = s\<lparr>a_api := (a_api s)\<lparr>api_node := f (api_node (a_api s))\<rparr>\<rparr>"

definition call :: "(api \<Rightarrow> int \<times> api) \<Rightarrow> app \<Rightarrow> app" where
  "call f s = s\<lparr>a_api := snd (f (a_api s))\<rparr>"

definition call_opt :: "(api \<Rightarrow> (int \<times> api) option) \<Rightarrow> app \<Rightarrow> (int \<times> app) option" where
  "call_opt f s = map_option (\<lambda>(r, a). (r, s\<lparr>a_api := a\<rparr>)) (f (a_api s))"

definition say :: "app_env \<Rightarrow> string \<Rightarrow> app \<Rightarrow> app" where
  "say A text = upd_tui (tui_add_chat (env_time (ap_env A)) text 0 False)"

definition journal :: "app_env \<Rightarrow> string \<Rightarrow> string \<Rightarrow> app \<Rightarrow> app" where
  "journal A category msg = upd_tui (tui_event_journal_add (ap_stamp A) category msg)"

section \<open>Starting the transport\<close>

text \<open>The loops over the arguments behind the program name.\<close>

fun config_arg :: "string list \<Rightarrow> string option \<Rightarrow> string option" where
  "config_arg (a # b # r) p = (if a = ''--config'' then config_arg r (Some b) else config_arg (b # r) p)"
| "config_arg _ p = p"

fun port_args :: "string list \<Rightarrow> transport_config \<Rightarrow> transport_config" where
  "port_args (a # b # r) c =
     (if a = ''--port'' then port_args r (c\<lparr>tc_local_port := word_of_int (atoi b)\<rparr>)
      else if a = ''--port-alt'' then port_args r (c\<lparr>tc_local_port_alt := word_of_int (atoi b)\<rparr>)
      else port_args (b # r) c)"
| "port_args _ c = c"

definition default_config :: transport_config where
  "default_config = \<lparr>tc_local_port = 9001, tc_local_port_alt = 9003, tc_discovery_port = 9009, tc_discovery_enabled = True,
     tc_fec_enabled = True, tc_fec_group_size = 4, tc_multipath_enabled = False, tc_path_count = 1\<rparr>"

definition file_config :: "config \<Rightarrow> transport_config \<Rightarrow> transport_config" where
  "file_config f c = c\<lparr>tc_local_port := cfg_local_port f, tc_local_port_alt := cfg_local_port_alt f,
     tc_discovery_port := cfg_discovery_port f, tc_discovery_enabled := cfg_discovery_enabled f,
     tc_multipath_enabled := cfg_multipath_enabled f, tc_path_count := word_of_int (cfg_path_count f)\<rparr>"

definition start_transport :: "app_env \<Rightarrow> string list \<Rightarrow> app \<Rightarrow> int \<times> app" where
  "start_transport A args s =
     (let cfg_path = (case config_arg args None of
                        Some p \<Rightarrow> p
                      | None \<Rightarrow> (case ap_config_file A of Some p \<Rightarrow> p | None \<Rightarrow> ''transport.toml''));
          (r, toml) = config_load (ap_acc A) (a_files s) cfg_path;
          c = port_args args (if r = 0 then file_config toml default_config else default_config);
          s1 = upd_node (\<lambda>n. n\<lparr>n_disc := lan_discovery_set_username (Some (t_username (a_tui s))) (n_disc n)\<rparr>) s;
          (r1, a) = transport_init (ap_env A) (Some c) (a_api s1);
          s2 = s1\<lparr>a_api := a\<rparr>
      in if r1 \<noteq> 0 then (-1, upd_tui (tui_add_log ''transport_init failed'') s2) else (0, s2\<lparr>a_started := True\<rparr>))"

section \<open>Events\<close>

text \<open>The members of the union; the engine leaves a member that it does not set zero.\<close>

definition ev_chat :: "event \<Rightarrow> string \<times> u16" where
  "ev_chat ev = (case ev_data ev of Ev_Chat b p \<Rightarrow> (chars b, p) | _ \<Rightarrow> ([], 0))"

definition ev_conn_req :: "event \<Rightarrow> string \<times> u16 \<times> string \<times> string" where
  "ev_conn_req ev = (case ev_data ev of Ev_Conn_Req a p u d \<Rightarrow> (a, p, chars u, chars d) | _ \<Rightarrow> ([], 0, [], []))"

definition ev_new_state :: "event \<Rightarrow> conn_state" where
  "ev_new_state ev = (case ev_data ev of Ev_Conn_State old new \<Rightarrow> new | _ \<Rightarrow> CONN_IDLE)"

text \<open>The loop from the last chat line to the first own one with status \<open>from\<close>.\<close>

fun ack_first :: "nat \<Rightarrow> nat \<Rightarrow> chat_line list \<Rightarrow> chat_line list" where
  "ack_first from to [] = []"
| "ack_first from to (l # ls) = (if cl_is_self l \<and> cl_status l = from then l\<lparr>cl_status := to\<rparr> # ls else l # ack_first from to ls)"

definition ack_line :: "nat \<Rightarrow> nat \<Rightarrow> tui \<Rightarrow> tui" where
  "ack_line from to t = t\<lparr>t_chat_lines := rev (ack_first from to (rev (t_chat_lines t))), t_dirty := True\<rparr>"

definition call_popup :: "int \<Rightarrow> string \<Rightarrow> tui \<Rightarrow> tui" where
  "call_popup ty peer t = t\<lparr>t_show_call_popup := True, t_call_popup_type := ty, t_call_popup_selection := 0,
     t_call_req_peer := snprintf 32 peer, t_dirty := True\<rparr>"

text \<open>
  The engine sends no event with the name of a caller or the progress of a file, so these texts
  are empty and the numbers 0.
\<close>

definition handle_event :: "app_env \<Rightarrow> event \<Rightarrow> app \<Rightarrow> app option" where
  "handle_event A ev s =
     (let dirty = upd_tui (\<lambda>t. t\<lparr>t_dirty := True\<rparr>) in
      case ev_type ev of
        EVENT_CHAT_RECEIVED \<Rightarrow>
          (let (text, port) = ev_chat ev;
               s1 = upd_tui (tui_add_chat (env_time (ap_env A)) text port False) s
           in Some (if t_screen (a_tui s1) \<noteq> SCREEN_CHAT then upd_tui (\<lambda>t. t\<lparr>t_unread_count := t_unread_count t + 1\<rparr>) s1 else s1))
      | EVENT_CONNECTION_STATE_CHANGED \<Rightarrow>
          (let locked = (ev_new_state ev = CONN_LOCKED);
               s1 = (if locked then say A ''Session locked (PQ encrypted)'' s else s)
           in Some (journal A ''connection'' (if locked then ''session locked'' else ''state changed'') s1))
      | EVENT_CONNECT_REQUEST \<Rightarrow>
          (let (a, p, u, d) = ev_conn_req ev
           in Some (journal A ''connection'' ''incoming connect request''
                (upd_tui (\<lambda>t. t\<lparr>t_show_conn_popup := True, t_conn_popup_selection := 0, t_conn_req_addr := snprintf 64 a,
                   t_conn_req_port := p, t_conn_req_username := snprintf 32 u, t_conn_req_display := snprintf 64 d, t_dirty := True\<rparr>) s)))
      | EVENT_CONNECT_ACCEPTED \<Rightarrow>
          (let (a, p, u, d) = ev_conn_req ev in
           do {
             (_, s1) \<leftarrow> call_opt (transport_connect (ap_lib A) (ap_env A) a p) s;
             Some (journal A ''connection'' ''connect accepted'' (dirty (say A ''Connecting...''
               (upd_tui (\<lambda>t. t\<lparr>t_screen := SCREEN_CHAT, t_chat_partner := snprintf 32 u\<rparr>) s1))))
           })
      | EVENT_CONNECT_DECLINED \<Rightarrow> Some (journal A ''connection'' ''connect declined'' (dirty (say A ''Connection declined'' s)))
      | EVENT_AUDIO_CALL_REQUEST \<Rightarrow> Some (upd_tui (call_popup 0 []) s)
      | EVENT_VIDEO_CALL_REQUEST \<Rightarrow> Some (upd_tui (call_popup 1 []) s)
      | EVENT_AUDIO_CALL_ACCEPTED \<Rightarrow>
          Some (upd_tui (\<lambda>t. t\<lparr>t_audio_active := True, t_dirty := True\<rparr>) (say A (sgr ''1;35'' @ ''[Audio call connected]'' @ sgr ''0'') s))
      | EVENT_AUDIO_CALL_ENDED \<Rightarrow>
          Some (upd_tui (\<lambda>t. t\<lparr>t_audio_active := False, t_dirty := True\<rparr>) (say A (sgr ''1;35'' @ ''[Audio call ended]'' @ sgr ''0'') s))
      | EVENT_VIDEO_CALL_ACCEPTED \<Rightarrow>
          Some (upd_tui (\<lambda>t. t\<lparr>t_video_active := True, t_dirty := True\<rparr>) (say A (sgr ''1;36'' @ ''[Video call connected]'' @ sgr ''0'') s))
      | EVENT_VIDEO_CALL_ENDED \<Rightarrow>
          Some (upd_tui (\<lambda>t. t\<lparr>t_video_active := False, t_dirty := True\<rparr>) (say A (sgr ''1;36'' @ ''[Video call ended]'' @ sgr ''0'') s))
      | EVENT_FILE_TRANSFER_COMPLETE \<Rightarrow> Some (dirty (say A (sgr ''1;32'' @ ''[File transfer complete]'' @ sgr ''0'') s))
      | EVENT_FILE_TRANSFER_FAILED \<Rightarrow> Some (dirty (say A (sgr ''1;31'' @ ''[File transfer failed]'' @ sgr ''0'') s))
      | EVENT_FILE_TRANSFER_PROGRESS \<Rightarrow>
          Some (dirty (say A (snprintf 256 (sgr ''1;33'' @ ''[File: '' @ [] @ '' '' @ dec 0 @ ''/'' @ dec 0 @ '']'' @ sgr ''0'')) s))
      | EVENT_TYPING \<Rightarrow>
          Some (if t_chat_partner (a_tui s) \<noteq> []
                then upd_tui (\<lambda>t. t\<lparr>t_typing_peer := snprintf 32 (t_chat_partner t), t_typing_tick := 4, t_dirty := True\<rparr>) s else s)
      | EVENT_DELIVERY_ACK \<Rightarrow> Some (upd_tui (ack_line 0 1) s)
      | EVENT_READ_ACK \<Rightarrow> Some (upd_tui (ack_line 1 2) s)
      | _ \<Rightarrow> Some s)"

text \<open>
  The loop over \<open>transport_poll_event\<close>; \<open>ev\<close> is the content of the variable, which a call that
  processed a packet leaves as it was. The environments are those of the calls, and \<open>None\<close> is also
  the result when there are not enough of them for the loop to end.
\<close>

fun event_loop :: "app_env list \<Rightarrow> event \<Rightarrow> app \<Rightarrow> app option" where
  "event_loop [] ev s = None"
| "event_loop (A # As) ev s =
     (case transport_poll_event (ap_lib A) (ap_env A) (a_api s) of
        None \<Rightarrow> None
      | Some (r, e, a) \<Rightarrow>
          let s1 = s\<lparr>a_api := a\<rparr>; ev1 = (case e of None \<Rightarrow> ev | Some x \<Rightarrow> x)
          in if r > 0 then (case handle_event A ev1 s1 of None \<Rightarrow> None | Some s2 \<Rightarrow> event_loop As ev1 s2) else Some s1)"

definition handle_transport_events :: "app_env list \<Rightarrow> event \<Rightarrow> app \<Rightarrow> app option" where
  "handle_transport_events As uninit s = event_loop As uninit s"

section \<open>A turn of the main loop before the input\<close>

definition typing_part :: "app \<Rightarrow> app" where
  "typing_part s =
     (let s1 = (if t_typing_flag (a_tui s) \<and> ci_state (t_conn_info (a_tui s)) = CONN_LOCKED
                then upd_tui (\<lambda>t. t\<lparr>t_typing_flag := False\<rparr>) (call transport_send_typing s) else s)
      in if t_typing_tick (a_tui s1) > 0
         then upd_tui (\<lambda>t. t\<lparr>t_typing_tick := t_typing_tick t - 1, t_dirty := (t_typing_tick t = 1 \<or> t_dirty t)\<rparr>) s1 else s1)"

text \<open>Every tenth turn: a discovery scan, stale peers, and the list of peers.\<close>

definition discovery_part :: "app_env \<Rightarrow> app \<Rightarrow> app" where
  "discovery_part A s =
     (if \<not> (a_started s \<and> a_frame s mod 10 = 0) then s
      else let s1 = upd_node (\<lambda>n. n\<lparr>n_conns := connection_manager_mark_stale (now_ms (ap_env A)) 30000
                       (snd (lan_discovery_trigger_scan (ap_inbox A) (env_time (ap_env A)) (n_disc n) (n_conns n)))\<rparr>) s;
               (n, ps) = transport_get_peer_list 32 (a_api s1)
           in if ps \<noteq> t_peers (a_tui s1) then upd_tui (\<lambda>t. t\<lparr>t_peers := ps, t_dirty := True\<rparr>) s1 else s1)"

section \<open>Clicks and the wheel\<close>

definition send_request :: "app_env \<Rightarrow> string \<Rightarrow> u16 \<Rightarrow> app \<Rightarrow> app option" where
  "send_request A addr_str port s =
     map_option snd (call_opt (transport_send_connect_request (ap_env A) addr_str port (ascii (t_username (a_tui s))) (ascii (t_display_name (a_tui s)))) s)"

text \<open>A peer is chosen: the chat with it is opened, with a request when it is not connected.\<close>

definition open_peer :: "app_env \<Rightarrow> peer_entry \<Rightarrow> app \<Rightarrow> app option" where
  "open_peer A p s =
     (let show = upd_tui (\<lambda>t. t\<lparr>t_screen := SCREEN_CHAT, t_chat_partner := snprintf 32 (or_text (pe_username p) (pe_addr p))\<rparr>);
          fin = upd_tui (\<lambda>t. t\<lparr>t_unread_count := 0, t_dirty := True\<rparr>)
      in if \<not> pe_is_connected p
         then map_option (\<lambda>s1. fin (say A ''Connection request sent...'' (show s1))) (send_request A (pe_addr p) (pe_port p) s)
         else Some (fin (show s)))"

definition click :: "app_env \<Rightarrow> int \<Rightarrow> int \<Rightarrow> int \<Rightarrow> app \<Rightarrow> app option" where
  "click A btn mx my s =
     (let t = a_tui s in
      if t_screen t = SCREEN_PEER_LIST \<and> btn = 0 then
        (let row = my - 4; idx = t_peer_scroll t + row in
         if 0 \<le> row \<and> row < peer_count t - t_peer_scroll t \<and> idx < peer_count t
         then open_peer A (t_peers t ! nat idx) (upd_tui (\<lambda>t. t\<lparr>t_peer_selected := idx\<rparr>) s)
         else Some s)
      else if t_screen t = SCREEN_GROUP \<and> btn = 0 then
        Some (upd_tui (\<lambda>t. t\<lparr>t_group_focus := (if mx \<le> side_width t then GROUP_FOCUS_ROOMS
                  else if mx \<ge> t_width t - side_width t then GROUP_FOCUS_MEMBERS else GROUP_FOCUS_CHAT), t_dirty := True\<rparr>) s)
      else Some s)"

definition wheel :: "groups \<Rightarrow> int \<Rightarrow> tui \<Rightarrow> tui" where
  "wheel G dir t =
     (if t_screen t = SCREEN_PEER_LIST then
        (if dir > 0 \<and> t_peer_selected t < peer_count t - 1 then
           (let i = t_peer_selected t + 1
            in t\<lparr>t_peer_selected := i, t_peer_scroll := (if i - t_peer_scroll t \<ge> t_height t - 5 then t_peer_scroll t + 1 else t_peer_scroll t),
                 t_dirty := True\<rparr>)
         else if dir < 0 \<and> t_peer_selected t > 0 then
           (let i = t_peer_selected t - 1
            in t\<lparr>t_peer_selected := i, t_peer_scroll := (if i < t_peer_scroll t then t_peer_scroll t - 1 else t_peer_scroll t), t_dirty := True\<rparr>)
         else t)
      else if t_screen t = SCREEN_GROUP \<and> t_group_focus t = GROUP_FOCUS_ROOMS then
        (let count = int (fst (group_get_rooms G))
         in (if dir > 0 \<and> t_group_room_scroll t < count - 1 then t\<lparr>t_group_room_scroll := t_group_room_scroll t + 1\<rparr>
             else if dir < 0 \<and> t_group_room_scroll t > 0 then t\<lparr>t_group_room_scroll := t_group_room_scroll t - 1\<rparr>
             else t)\<lparr>t_dirty := True\<rparr>)
      else if t_screen t = SCREEN_GROUP \<and> t_group_focus t = GROUP_FOCUS_MEMBERS then
        (case (if t_current_room t \<noteq> [] then group_find (t_current_room t) G else None) of
           None \<Rightarrow> t
         | Some i \<Rightarrow>
             let count = int (length (room_members (g_rooms G ! i)))
             in (if dir > 0 \<and> t_group_member_scroll t < count - 1 then t\<lparr>t_group_member_scroll := t_group_member_scroll t + 1\<rparr>
                 else if dir < 0 \<and> t_group_member_scroll t > 0 then t\<lparr>t_group_member_scroll := t_group_member_scroll t - 1\<rparr>
                 else t)\<lparr>t_dirty := True\<rparr>)
      else t)"

definition mouse_part :: "app_env \<Rightarrow> int \<Rightarrow> app \<Rightarrow> app option" where
  "mouse_part A input s =
     (if -202 \<le> input \<and> input \<le> -98 \<and> t_mouse_event (a_tui s) then
        (let mx = t_mouse_last_x (a_tui s); my = t_mouse_last_y (a_tui s);
             s1 = upd_tui (\<lambda>t. t\<lparr>t_mouse_event := False\<rparr>) s
         in if -102 \<le> input \<and> input \<le> -100 then click A (- (input + 100)) mx my s1
            else if -201 \<le> input \<and> input \<le> -199 then Some (upd_tui (wheel (a_groups s1) (if input = -199 then 1 else -1)) s1)
            else Some s1)
      else Some s)"

section \<open>Commands\<close>

text \<open>\<open>path\<close> is the configuration directory of the user.\<close>

definition config_dir :: "env \<Rightarrow> string" where
  "config_dir E = snprintf 512 (case env_home E of Some h \<Rightarrow> h @ ''/.config/ssm'' | None \<Rightarrow> ''/tmp/.config/ssm'')"

definition end_line :: "app \<Rightarrow> app" where
  "end_line = upd_tui (\<lambda>t. t\<lparr>t_input_len := 0, t_input_pos := 0, t_dirty := True\<rparr>)"

definition has_prefix :: "string \<Rightarrow> string \<Rightarrow> bool" where
  "has_prefix p s \<longleftrightarrow> take (length p) s = p"

text \<open>\<open>sscanf(.., "%63s %d", ip, &port) == 2\<close> with a port in range.\<close>

definition scan_ip_port :: "string \<Rightarrow> (string \<times> u16) option" where
  "scan_ip_port s = do {
     (ip, r) \<leftarrow> scan_word 63 s;
     (port, _) \<leftarrow> scan_int r;
     if 0 < port \<and> port < 65536 then Some (ip, word_of_int port) else None
   }"

definition cmd_connect :: "app_env \<Rightarrow> string \<Rightarrow> app \<Rightarrow> app option" where
  "cmd_connect A arg s =
     (case scan_ip_port arg of
        Some (ip, port) \<Rightarrow>
          map_option (\<lambda>s1. say A ''Connection request sent...''
            (upd_tui (\<lambda>t. t\<lparr>t_screen := SCREEN_CHAT, t_chat_partner := snprintf 32 (ip @ '':'' @ decw port)\<rparr>) s1)) (send_request A ip port s)
      | None \<Rightarrow> Some (say A ''Usage: /connect <ip> <port>'' s))"

text \<open>A text that the call did not write is what the array held.\<close>

definition written :: "string \<Rightarrow> int \<times> string \<Rightarrow> string" where
  "written junk = (\<lambda>(r, x). if r = 0 then x else cstr junk)"

definition cmd_export :: "app_env \<Rightarrow> app \<Rightarrow> app" where
  "cmd_export A s =
     (let (r, fs) = identity_export_key (ap_acc A) (snprintf 512 (config_dir (ap_env A) @ ''/identity_export.dat'')) (a_id s) (a_files s)
      in say A (if r = 0 then ''Key exported to identity_export.dat'' else ''Export failed'') (s\<lparr>a_files := fs\<rparr>))"

definition cmd_backup :: "app_env \<Rightarrow> app \<Rightarrow> app" where
  "cmd_backup A s =
     (let (r, fs) = identity_backup (ap_acc A) (ap_created A) (snprintf 512 (config_dir (ap_env A) @ ''/identity_backup.dat'')) (a_id s) (a_files s)
      in say A (if r = 0 then ''Backup saved to identity_backup.dat'' else ''Backup failed'') (s\<lparr>a_files := fs\<rparr>))"

definition cmd_restore :: "app_env \<Rightarrow> string \<Rightarrow> app \<Rightarrow> app" where
  "cmd_restore A arg s =
     (let path = (case scan_word 511 arg of Some (w, _) \<Rightarrow> w | None \<Rightarrow> cstr (ap_junk A));
          (r, idn) = identity_restore (ap_acc A) path (a_files s) identity_zero
      in if r = 0
         then say A ''Identity restored from backup''
           (upd_tui (\<lambda>t. t\<lparr>t_identity := idn, t_username := snprintf 32 (id_username idn), t_display_name := snprintf 64 (id_display_name idn)\<rparr>)
             (upd_node (\<lambda>n. n\<lparr>n_store := snd (secure_store_set_key (env_identity_key (ap_env A)) (id_key idn) (n_store n))\<rparr>) (s\<lparr>a_id := idn\<rparr>)))
         else say A ''Restore failed'' s)"

definition cmd_known_hosts :: "app_env \<Rightarrow> app \<Rightarrow> app" where
  "cmd_known_hosts A s =
     (let s1 = say A ''Known hosts:'' s
      in s1\<lparr>a_term := tui_write (known_hosts_print (ap_acc A) (config_dir (ap_env A)) (a_files s1)) (a_term s1)\<rparr>)"

definition add_message :: "app_env \<Rightarrow> string \<Rightarrow> string \<Rightarrow> string \<Rightarrow> app \<Rightarrow> app" where
  "add_message A room sender text s = s\<lparr>a_groups := snd (group_add_message room (Some sender) (Some text) 0 (env_time (ap_env A)) (a_groups s))\<rparr>"

definition enter_room :: "string \<Rightarrow> app \<Rightarrow> app" where
  "enter_room name = upd_tui (\<lambda>t. t\<lparr>t_current_room := snprintf 32 name, t_screen := SCREEN_GROUP, t_group_focus := GROUP_FOCUS_CHAT\<rparr>)"

definition cmd_room :: "app_env \<Rightarrow> string \<Rightarrow> app \<Rightarrow> app" where
  "cmd_room A arg s =
     (let w1 = scan_word 31 arg;
          cmd = (case w1 of Some (c, _) \<Rightarrow> c | None \<Rightarrow> []);
          w2 = (case w1 of Some (_, r) \<Rightarrow> scan_word 31 r | None \<Rightarrow> None);
          name = (case w2 of Some (x, _) \<Rightarrow> x | None \<Rightarrow> [])
      in if w1 \<noteq> None \<and> cmd = ''list'' then
           (let msg = snprintf 128 (''Rooms: '' @ dec (fst (group_get_rooms (a_groups s))) @ '' total'')
            in if t_screen (a_tui s) = SCREEN_GROUP then add_message A (t_current_room (a_tui s)) ''system'' msg s else say A msg s)
         else if w2 \<noteq> None \<and> cmd = ''create'' then
           (let (r, G) = group_create name (Some []) (a_groups s); s1 = s\<lparr>a_groups := G\<rparr>
            in if r = 0 then add_message A name ''system'' (snprintf 128 (''Room #'' @ name @ '' created'')) (enter_room name s1)
               else say A ''Room creation failed (may already exist)'' s1)
         else if w2 \<noteq> None \<and> cmd = ''join'' then
           (if group_find name (a_groups s) \<noteq> None then enter_room name s else say A ''Room not found'' s)
         else if w2 \<noteq> None \<and> cmd = ''leave'' then
           (if group_find name (a_groups s) \<noteq> None
            then upd_tui (\<lambda>t. if t_current_room t = name then t\<lparr>t_current_room := []\<rparr> else t) (add_message A name ''system'' ''You left the room'' s)
            else s)
         else say A ''Usage: /room <create|join|leave|list> [name]'' s)"

definition cmd_import :: "app_env \<Rightarrow> string \<Rightarrow> app \<Rightarrow> app" where
  "cmd_import A arg s =
     (let n = api_node (a_api s);
          res = (case scan_word 64 arg of
                   None \<Rightarrow> (-1, a_id s, a_files s, n_store n)
                 | Some (hex, _) \<Rightarrow> identity_import_key (ap_acc A) (env_identity_key (ap_env A)) (config_dir (ap_env A)) hex (a_id s) (a_files s) (n_store n));
          (r, idn, fs, st) = res;
          s1 = upd_node (\<lambda>n. n\<lparr>n_store := st\<rparr>) (s\<lparr>a_id := idn, a_files := fs\<rparr>)
      in if r = 0
         then say A (written (ap_junk A) (identity_get_fingerprint (ap_lib A) idn 128))
           (say A ''Key imported'' (upd_tui (\<lambda>t. t\<lparr>t_identity := idn\<rparr>) s1))
         else say A ''Usage: /import <64-char-hex-key>'' s1)"

text \<open>The first result says that the command was one, so that the line is not treated as a key as well.\<close>

definition command_part :: "app_env \<Rightarrow> int \<Rightarrow> app \<Rightarrow> (bool \<times> app) option" where
  "command_part A input s =
     (if \<not> (input \<ge> 1 \<and> t_input_len (a_tui s) > 0) then Some (False, s)
      else
        let s0 = upd_tui (\<lambda>t. t\<lparr>t_input_buf := (t_input_buf t)[t_input_len t := CHR 0x00]\<rparr>) s;
            line = cstr (t_input_buf (a_tui s0));
            ready = t_identity_ready (a_tui s0);
            fin = (\<lambda>x. Some (True, end_line x))
        in if has_prefix ''/connect '' line then map_option (\<lambda>x. (True, end_line x)) (cmd_connect A (drop 9 line) s0)
           else if line = ''/fingerprint'' \<and> ready then fin (say A (written (ap_junk A) (identity_get_fingerprint (ap_lib A) (a_id s0) 128)) s0)
           else if line = ''/mykey'' \<and> ready then fin (say A (written (ap_junk A) (identity_get_key_hex (a_id s0) 128)) s0)
           else if line = ''/export'' \<and> ready then fin (cmd_export A s0)
           else if line = ''/backup'' \<and> ready then fin (cmd_backup A s0)
           else if has_prefix ''/restore '' line \<and> ready then fin (cmd_restore A (drop 9 line) s0)
           else if line = ''/known_hosts'' then fin (cmd_known_hosts A s0)
           else if has_prefix ''/room '' line then fin (cmd_room A (drop 6 line) s0)
           else if has_prefix ''/import '' line \<and> ready then fin (cmd_import A (drop 8 line) s0)
           else Some (False, s0))"

section \<open>Dispatch of the keys\<close>

definition login_submit :: "app_env \<Rightarrow> string list \<Rightarrow> app \<Rightarrow> app" where
  "login_submit A args s =
     (let t = a_tui s;
          (r, idn, fs, st) = identity_create (ap_acc A) (env_identity_key (ap_env A)) (ap_rnd A) (config_dir (ap_env A)) (t_login_username t)
             (or_text (t_login_display t) (t_login_username t)) (a_files s) (n_store (api_node (a_api s)));
          s1 = upd_node (\<lambda>n. n\<lparr>n_store := st\<rparr>) (s\<lparr>a_id := idn, a_files := fs\<rparr>);
          s2 = upd_tui (\<lambda>t. t\<lparr>t_identity := idn, t_identity_ready := True, t_username := snprintf 32 (id_username idn),
                 t_display_name := snprintf 64 (id_display_name idn), t_login_display := snprintf 64 (id_display_name idn),
                 t_screen := SCREEN_PEER_LIST, t_dirty := True\<rparr>) s1;
          s3 = (if \<not> a_started s2 then snd (start_transport A args s2) else s2)
      in journal A ''identity'' ''identity created'' s3)"

definition cut_input :: "int \<Rightarrow> app \<Rightarrow> app" where
  "cut_input input = upd_tui (\<lambda>t. t\<lparr>t_input_buf := (t_input_buf t)[nat input := CHR 0x00]\<rparr>)"

definition input_text :: "app \<Rightarrow> string" where
  "input_text s = cstr (t_input_buf (a_tui s))"

definition send_chat :: "app_env \<Rightarrow> app \<Rightarrow> app option" where
  "send_chat A s = map_option snd (call_opt (transport_send_chat (ap_lib A) (Some (ascii (input_text s)))) s)"

definition clear_line :: "app \<Rightarrow> app" where
  "clear_line = upd_tui (\<lambda>t. t\<lparr>t_input_len := 0, t_input_pos := 0\<rparr>)"

text \<open>One copy of the message for every member of the room that is a connected peer.\<close>

fun send_members :: "app_env \<Rightarrow> group_member list \<Rightarrow> app \<Rightarrow> app option" where
  "send_members A [] s = Some s"
| "send_members A (m # ms) s =
     (if \<exists>p \<in> set (t_peers (a_tui s)). pe_addr p = gm_addr m \<and> pe_port p = gm_port m \<and> pe_is_connected p
      then (case send_chat A s of None \<Rightarrow> None | Some s1 \<Rightarrow> send_members A ms s1)
      else send_members A ms s)"

definition group_send :: "app_env \<Rightarrow> app \<Rightarrow> app option" where
  "group_send A s =
     (let s1 = cut_input 1 s;
          s2 = add_message A (t_current_room (a_tui s1)) (t_username (a_tui s1)) (input_text s1) s1;
          fin = upd_tui (\<lambda>t. t\<lparr>t_input_len := 0, t_input_pos := 0, t_dirty := True\<rparr>)
      in case group_find (t_current_room (a_tui s2)) (a_groups s2) of
           None \<Rightarrow> Some (fin s2)
         | Some i \<Rightarrow> map_option fin (send_members A (room_members (g_rooms (a_groups s2) ! i)) s2))"

text \<open>The message is sent and shown as an own line.\<close>

definition send_and_show :: "app_env \<Rightarrow> app \<Rightarrow> app option" where
  "send_and_show A s =
     map_option (\<lambda>s1. upd_tui (tui_add_chat (env_time (ap_env A)) (snprintf 1100 (input_text s1)) 0 True) s1) (send_chat A s)"

definition audio_toggle :: "app_env \<Rightarrow> app \<Rightarrow> app" where
  "audio_toggle A s =
     (if ci_state (t_conn_info (a_tui s)) \<noteq> CONN_LOCKED then s
      else let on = t_audio_active (a_tui s);
               s1 = call (if on then transport_audio_call_end else transport_audio_call_start) s
           in say A (sgr ''1;35'' @ (if on then ''[Audio call ended]'' else ''[Audio call started]'') @ sgr ''0'')
                (upd_tui (\<lambda>t. t\<lparr>t_audio_active := \<not> on, t_dirty := True\<rparr>) s1))"

definition video_toggle :: "app_env \<Rightarrow> app \<Rightarrow> app" where
  "video_toggle A s =
     (if ci_state (t_conn_info (a_tui s)) \<noteq> CONN_LOCKED then s
      else let on = t_video_active (a_tui s);
               s1 = call (if on then transport_video_call_end else transport_video_call_start) s
           in say A (sgr ''1;36'' @ (if on then ''[Video call ended]'' else ''[Video call started]'') @ sgr ''0'')
                (upd_tui (\<lambda>t. t\<lparr>t_video_active := \<not> on, t_dirty := True\<rparr>) s1))"

definition send_file_line :: "app_env \<Rightarrow> app \<Rightarrow> app option" where
  "send_file_line A s =
     (let t = a_tui s in
      if \<not> (ci_state (t_conn_info t) = CONN_LOCKED \<and> t_input_len t > 0) then Some s
      else let s1 = upd_tui (\<lambda>t. t\<lparr>t_input_buf := (t_input_buf t)[t_input_len t := CHR 0x00]\<rparr>) s in
        map_option (\<lambda>(r, s2). end_line (say A
            (if r = 0 then snprintf 1100 (sgr ''1;35'' @ ''[Sending: '' @ input_text s1 @ '']'' @ sgr ''0'')
             else sgr ''1;31'' @ ''[File send failed]'' @ sgr ''0'') s2))
          (call_opt (transport_send_file (input_text s1)) s1))"

definition dispatch :: "app_env \<Rightarrow> string list \<Rightarrow> int \<Rightarrow> app \<Rightarrow> app option" where
  "dispatch A args input s =
     (let t = a_tui s; dirty = upd_tui (\<lambda>t. t\<lparr>t_dirty := True\<rparr>) in
      if input = -10 \<and> t_screen t = SCREEN_LOGIN then Some (login_submit A args s)
      else if input = 1 \<and> t_screen t = SCREEN_GROUP \<and> t_group_focus t = GROUP_FOCUS_CHAT \<and> t_current_room t \<noteq> [] then group_send A s
      else if input = 1 \<and> ci_state (t_conn_info t) = CONN_LOCKED then
        map_option clear_line (send_and_show A (cut_input input s))
      else if 1 < input \<and> input < 10 then
        (let s1 = cut_input input s in
         map_option clear_line (if ci_state (transport_get_connection_info (ap_env A) (a_api s1)) = CONN_LOCKED
           then send_and_show A s1 else Some (say A ''Not connected yet'' s1)))
      else if input \<ge> 10 then
        (if input - 10 < peer_count t then open_peer A (t_peers t ! nat (input - 10)) s else Some s)
      else if input = -4 then
        map_option (\<lambda>(r, s1). upd_tui (\<lambda>t. t\<lparr>t_unread_count := 0, t_dirty := True\<rparr>) (say A ''Connection accepted, handshake starting...''
            (upd_tui (\<lambda>t. t\<lparr>t_screen := SCREEN_CHAT, t_chat_partner := snprintf 32 (t_conn_req_username t)\<rparr>) s1)))
          (call_opt (transport_accept_connection (ap_env A) (t_conn_req_addr t) (t_conn_req_port t)) s)
      else if input = -5 then
        map_option (\<lambda>(r, s1). dirty s1) (call_opt (transport_decline_connection (ap_env A) (t_conn_req_addr t) (t_conn_req_port t)) s)
      else if input = -30 then
        Some (dirty (say A (sgr ''1;35'' @ ''[Audio call accepted]'' @ sgr ''0'') (upd_tui (\<lambda>t. t\<lparr>t_audio_active := True\<rparr>) (call transport_audio_call_start s))))
      else if input = -31 then Some (dirty (say A (sgr ''1;35'' @ ''[Audio call declined]'' @ sgr ''0'') s))
      else if input = -32 then
        Some (dirty (say A (sgr ''1;36'' @ ''[Video call accepted]'' @ sgr ''0'') (upd_tui (\<lambda>t. t\<lparr>t_video_active := True\<rparr>) (call transport_video_call_start s))))
      else if input = -33 then Some (dirty (say A (sgr ''1;36'' @ ''[Video call declined]'' @ sgr ''0'') s))
      else if input = -20 then Some (audio_toggle A s)
      else if input = -21 then Some (video_toggle A s)
      else if input = -22 then send_file_line A s
      else if input = -40 then Some (upd_tui (\<lambda>t. t\<lparr>t_screen := SCREEN_SETTINGS, t_settings_selection := 0, t_dirty := True\<rparr>) s)
      else if input = -41 then
        Some (upd_tui (\<lambda>t. t\<lparr>t_screen := SCREEN_ADVANCED, t_adv_tab := 0, t_adv_paused := False, t_space := True, t_dirty := True\<rparr>) s)
      else if input = -42 then Some (upd_tui (\<lambda>t. t\<lparr>t_screen := SCREEN_PEER_LIST, t_space := False, t_dirty := True\<rparr>) s)
      else Some s)"

section \<open>The main loop\<close>

definition view_of :: "app_env \<Rightarrow> app \<Rightarrow> view_env" where
  "view_of A s = \<lparr>ve_now = env_time (ap_env A), ve_hm = ap_hm A, ve_lib = ap_lib A, ve_groups = a_groups s, ve_node = api_node (a_api s)\<rparr>"

definition render :: "app_env \<Rightarrow> app \<Rightarrow> app" where
  "render A s = (let (m, t) = tui_render (view_of A s) (ap_screen A) (a_term s, a_tui s) in s\<lparr>a_term := m, a_tui := t\<rparr>)"

definition poll_part :: "stdin \<Rightarrow> app \<Rightarrow> int \<times> stdin \<times> app" where
  "poll_part I s = (let (k, I1, m, t) = tui_input_poll (a_groups s) I (a_term s, a_tui s) in (k, I1, s\<lparr>a_term := m, a_tui := t\<rparr>))"

definition input_part :: "app_env \<Rightarrow> string list \<Rightarrow> int \<Rightarrow> app \<Rightarrow> app option" where
  "input_part A args input s = do {
     s1 \<leftarrow> mouse_part A input s;
     (done, s2) \<leftarrow> command_part A input s1;
     if done then Some s2 else dispatch A args input s2
   }"

text \<open>
  One turn: \<open>As\<close> are the environments of the event loop and \<open>A\<close> that of the rest of the turn; \<open>uninit\<close> is the content of
  the event variable before its first use, \<open>I\<close> the input that waits.
\<close>

definition turn :: "app_env list \<Rightarrow> app_env \<Rightarrow> event \<Rightarrow> string list \<Rightarrow> stdin \<Rightarrow> app \<Rightarrow> (stdin \<times> app) option" where
  "turn As A uninit args I s = do {
     s1 \<leftarrow> (if a_started s then handle_transport_events As uninit s else Some s);
     let s2 = typing_part s1;
     let s3 = upd_tui (tui_update_info (transport_get_connection_info (ap_env A) (a_api s2))) s2;
     let s4 = discovery_part A s3;
     let (k, I1, s5) = poll_part I s4;
     s6 \<leftarrow> input_part A args k s5;
     Some (I1, (render A s6)\<lparr>a_frame := a_frame s + 1\<rparr>)
   }"

text \<open>The state before the first turn. The monitor of the node is started once more; the engine may have done it.\<close>

definition run_tui_init :: "app_env \<Rightarrow> string list \<Rightarrow> app \<Rightarrow> app" where
  "run_tui_init A args s =
     (let s0 = s\<lparr>a_tui := tui_init, a_term := tui_term_init (a_term s), a_frame := 0\<rparr>;
          (r, idn, st) = identity_init (ap_acc A) (env_identity_key (ap_env A)) (config_dir (ap_env A)) (a_files s0) (n_store (api_node (a_api s0)));
          s1 = upd_node (\<lambda>n. n\<lparr>n_store := st\<rparr>) (s0\<lparr>a_id := idn\<rparr>);
          s2 = (if r = 0 \<and> id_initialized idn
                then snd (start_transport A args (upd_tui (\<lambda>t. t\<lparr>t_username := snprintf 32 (id_username idn),
                       t_display_name := snprintf 64 (id_display_name idn), t_identity := idn, t_identity_ready := True,
                       t_screen := SCREEN_PEER_LIST, t_dirty := True\<rparr>) s1))
                else s1);
          s3 = upd_node (\<lambda>n. n\<lparr>n_monitor := snd (monitor_start (env_thread (ap_env A) ''monitor'') (n_monitor n))\<rparr>)
                 (s2\<lparr>a_groups := snd (group_init (a_groups s2))\<rparr>)
      in render A s3)"

definition run_tui_end :: "app \<Rightarrow> app" where
  "run_tui_end s =
     (let s1 = upd_node (\<lambda>n. n\<lparr>n_monitor := monitor_stop (n_monitor n)\<rparr>) s;
          s2 = (if a_started s1 then s1\<lparr>a_api := transport_shutdown (a_api s1)\<rparr> else s1)
      in s2\<lparr>a_term := tui_shutdown (a_term s2)\<rparr>)"

section \<open>The daemon\<close>

fun daemon_args :: "string list \<Rightarrow> transport_config \<Rightarrow> transport_config" where
  "daemon_args [] c = c"
| "daemon_args [a] c = (if a = ''--no-discovery'' then c\<lparr>tc_discovery_enabled := False\<rparr> else c)"
| "daemon_args (a # b # r) c =
     (if a = ''--port'' then daemon_args r (c\<lparr>tc_local_port := word_of_int (atoi b)\<rparr>)
      else if a = ''--discovery-port'' then daemon_args r (c\<lparr>tc_discovery_port := word_of_int (atoi b)\<rparr>)
      else if a = ''--no-discovery'' then daemon_args (b # r) (c\<lparr>tc_discovery_enabled := False\<rparr>)
      else daemon_args (b # r) c)"

text \<open>The start of \<open>run_daemon\<close>: 1 when there is no identity or the transport does not start.\<close>

definition daemon_start :: "app_env \<Rightarrow> string list \<Rightarrow> app \<Rightarrow> int \<times> app" where
  "daemon_start A args s =
     (let (r, idn, st) = identity_init (ap_acc A) (env_identity_key (ap_env A)) (config_dir (ap_env A)) (a_files s) (n_store (api_node (a_api s)));
          s1 = upd_node (\<lambda>n. n\<lparr>n_store := st\<rparr>) (s\<lparr>a_id := idn\<rparr>)
      in if \<not> (r = 0 \<and> id_initialized idn) then (1, s1)
         else let (r1, a) = transport_init (ap_env A) (Some (daemon_args args default_config)) (a_api s1) in
           if r1 \<noteq> 0 then (1, s1\<lparr>a_api := a\<rparr>)
           else (0, upd_node (\<lambda>n. n\<lparr>n_disc := lan_discovery_set_username (Some (id_username idn)) (n_disc n)\<rparr>) (s1\<lparr>a_api := a\<rparr>)))"

text \<open>Requests are accepted and audio calls started without asking; everything else is only logged.\<close>

definition daemon_event :: "app_env \<Rightarrow> event \<Rightarrow> app \<Rightarrow> app option" where
  "daemon_event A ev s =
     (if ev_type ev = EVENT_CONNECT_REQUEST then
        (let (a, p, u, d) = ev_conn_req ev in map_option snd (call_opt (transport_accept_connection (ap_env A) a p) s))
      else if ev_type ev = EVENT_AUDIO_CALL_REQUEST then Some (call transport_audio_call_start s)
      else Some s)"

text \<open>Here the event variable belongs to the body of the outer loop.\<close>

fun daemon_loop :: "app_env list \<Rightarrow> event \<Rightarrow> app \<Rightarrow> app option" where
  "daemon_loop [] ev s = None"
| "daemon_loop (A # As) ev s =
     (case transport_poll_event (ap_lib A) (ap_env A) (a_api s) of
        None \<Rightarrow> None
      | Some (r, e, a) \<Rightarrow>
          let s1 = s\<lparr>a_api := a\<rparr>; ev1 = (case e of None \<Rightarrow> ev | Some x \<Rightarrow> x)
          in if r > 0 then (case daemon_event A ev1 s1 of None \<Rightarrow> None | Some s2 \<Rightarrow> daemon_loop As ev1 s2) else Some s1)"

definition daemon_turn :: "app_env list \<Rightarrow> app_env \<Rightarrow> event \<Rightarrow> app \<Rightarrow> app option" where
  "daemon_turn As A uninit s =
     map_option (upd_node (\<lambda>n. n\<lparr>n_conns := connection_manager_mark_stale (now_ms (ap_env A)) 30000
         (snd (lan_discovery_trigger_scan (ap_inbox A) (env_time (ap_env A)) (n_disc n) (n_conns n)))\<rparr>))
       (daemon_loop As uninit s)"

section \<open>Modes of the program\<close>

datatype run_mode = Run_Tui | Run_Daemon | Run_Background_Daemon | Run_Demo

definition main_mode :: "string list \<Rightarrow> run_mode" where
  "main_mode args =
     (if args \<noteq> [] \<and> hd args = ''--tui'' then Run_Tui
      else if args \<noteq> [] \<and> hd args = ''--daemon'' then
        (if length args > 1 \<and> args ! 1 = ''--foreground'' then Run_Daemon else Run_Background_Daemon)
      else Run_Demo)"

end
