(* ===== verification/App_Safe.thy ===== *)
theory App_Safe
  imports App
begin

text \<open>
  Safety of the application: every turn of the main loop, every event and every key keeps the
  indices of the interface in range (\<open>tui_ok\<close>), the sessions of the engine verified (\<open>api_ok\<close>)
  and the saved terminal attributes those of the start, in whatever order turns of the application and
  of the threads of the engine follow each other.
\<close>

named_theorems app_ok_intros "operations that keep the state of the application well formed"

section \<open>The interface\<close>

lemma tui_ok_lists:
  assumes "tui_ok t"
  shows "tui_ok (t\<lparr>t_chat_lines := ls\<rparr>) \<longleftrightarrow> length ls \<le> TUI_MAX_CHAT_LINES"
    "tui_ok (t\<lparr>t_log := lg\<rparr>) \<longleftrightarrow> length lg \<le> TUI_LOG_LINES" "tui_ok (t\<lparr>t_peers := ps\<rparr>) \<longleftrightarrow> length ps \<le> TUI_MAX_PEERS"
    "length (t_chat_lines t) \<le> TUI_MAX_CHAT_LINES" "length (t_log t) \<le> TUI_LOG_LINES"
  using assms by (simp_all add: tui_ok_defs)

lemma tui_ok_selected: "tui_ok t \<Longrightarrow> tui_ok (t\<lparr>t_peer_selected := i\<rparr>) \<longleftrightarrow> t_peer_scroll t \<le> i"
  by (auto simp: tui_ok_defs)

lemma tui_ok_add_chat [tui_ok_intros]:
  assumes "tui_ok t"
  shows "tui_ok (tui_add_chat now s port own t)"
  using assms tui_ok_lists(4) [OF assms] by (auto simp: tui_add_chat_def Let_def tui_ok_lists(1))

lemma tui_ok_add_log [tui_ok_intros]: "tui_ok t \<Longrightarrow> tui_ok (tui_add_log msg t)"
  using tui_ok_lists(5) [of t] by (simp add: tui_add_log_def tui_ok_lists)

lemma tui_ok_journal [tui_ok_intros]: "tui_ok t \<Longrightarrow> tui_ok (tui_event_journal_add ts c msg t)"
  by (simp add: tui_event_journal_add_def tui_ok_add_log)

lemma length_ack_first [simp]: "length (ack_first x y ls) = length ls"
  by (induction x y ls rule: ack_first.induct) auto

lemma tui_ok_ack_line [tui_ok_intros]: "tui_ok t \<Longrightarrow> tui_ok (ack_line x y t)"
  using tui_ok_lists(4) [of t] by (simp add: ack_line_def tui_ok_lists)

lemma tui_ok_call_popup' [tui_ok_intros]: "tui_ok t \<Longrightarrow> tui_ok (call_popup ty p t)"
  by (simp add: call_popup_def tui_ok_sel)

lemma tui_ok_wheel [tui_ok_intros]:
  assumes "tui_ok t"
  shows "tui_ok (wheel G dir t)"
  using assms tui_ok_selD(6,7) [OF assms] tui_ok_scroll(4,5) [OF assms]
  by (simp add: wheel_def Let_def tui_ok_sel [OF assms] tui_ok_scroll [OF assms] tui_ok_selected [OF assms] split: option.split)

lemma tui_ok_render [tui_ok_intros]: "tui_ok t \<Longrightarrow> tui_ok (snd (tui_render V junk (m, t)))"
  by (simp add: tui_render_def Let_def case_prod_beta)

lemma tui_ok_end_line [tui_ok_intros]:
  assumes "tui_ok t"
  shows "tui_ok (t\<lparr>t_input_len := 0, t_input_pos := 0\<rparr>)" "tui_ok (t\<lparr>t_input_buf := (t_input_buf t)[i := c]\<rparr>)"
  using assms by (simp_all add: tui_ok_defs)

section \<open>The application\<close>

text \<open>\<open>tio\<close> are the attributes of the terminal before the program started.\<close>

definition app_ok :: "termios \<Rightarrow> app \<Rightarrow> bool" where
  "app_ok tio s \<longleftrightarrow> tui_ok (a_tui s) \<and> api_ok (a_api s) \<and> tm_raw (a_term s) \<and> tm_orig (a_term s) = tio"

lemma app_ok_upd_tui: "\<lbrakk> app_ok tio s; tui_ok (a_tui s) \<Longrightarrow> tui_ok (f (a_tui s)) \<rbrakk> \<Longrightarrow> app_ok tio (upd_tui f s)"
  by (simp add: app_ok_def upd_tui_def)

lemma app_ok_fields [simp]:
  "app_ok tio (s\<lparr>a_groups := G\<rparr>) = app_ok tio s" "app_ok tio (s\<lparr>a_id := idn\<rparr>) = app_ok tio s"
  "app_ok tio (s\<lparr>a_files := fs\<rparr>) = app_ok tio s" "app_ok tio (s\<lparr>a_started := b\<rparr>) = app_ok tio s"
  "app_ok tio (s\<lparr>a_frame := n\<rparr>) = app_ok tio s"
  by (simp_all add: app_ok_def)

lemma app_ok_upd_node:
  "app_ok tio s \<Longrightarrow> app_ok tio (upd_node (\<lambda>n. n\<lparr>n_store := st n\<rparr>) s)" "app_ok tio s \<Longrightarrow> app_ok tio (upd_node (\<lambda>n. n\<lparr>n_disc := d n\<rparr>) s)"
  "app_ok tio s \<Longrightarrow> app_ok tio (upd_node (\<lambda>n. n\<lparr>n_conns := c n\<rparr>) s)" "app_ok tio s \<Longrightarrow> app_ok tio (upd_node (\<lambda>n. n\<lparr>n_monitor := mo n\<rparr>) s)"
  by (simp_all add: app_ok_def upd_node_def api_ok_def)

lemma app_ok_api: "\<lbrakk> app_ok tio s; api_step L (a_api s) a \<rbrakk> \<Longrightarrow> app_ok tio (s\<lparr>a_api := a\<rparr>)"
  using api_step_ok by (auto simp: app_ok_def)

lemma app_ok_call:
  assumes "app_ok tio s" "\<And>r a. f (a_api s) = (r, a) \<Longrightarrow> api_step L (a_api s) a"
  shows "app_ok tio (call f s)"
  using assms(2) [of "fst (f (a_api s))" "snd (f (a_api s))"] app_ok_api [OF assms(1)] by (simp add: call_def)

lemma app_ok_call_opt:
  assumes "app_ok tio s" "call_opt f s = Some (r, s')" "\<And>r a. f (a_api s) = Some (r, a) \<Longrightarrow> api_step L (a_api s) a"
  shows "app_ok tio s'"
  using assms app_ok_api [OF assms(1)] by (auto simp: call_opt_def)

lemma app_ok_say [app_ok_intros]: "app_ok tio s \<Longrightarrow> app_ok tio (say A msg s)"
  by (simp add: say_def app_ok_upd_tui tui_ok_add_chat)

lemma app_ok_journal [app_ok_intros]: "app_ok tio s \<Longrightarrow> app_ok tio (journal A c msg s)"
  by (simp add: journal_def app_ok_upd_tui tui_ok_journal)

lemma app_ok_start_transport [app_ok_intros]:
  assumes "app_ok tio s"
  shows "app_ok tio (snd (start_transport A args s))"
proof -
  let ?s1 = "upd_node (\<lambda>n. n\<lparr>n_disc := lan_discovery_set_username (Some (t_username (a_tui s))) (n_disc n)\<rparr>) s"
  have s1: "app_ok tio ?s1" by (rule app_ok_upd_node(2) [OF assms])
  have init: "app_ok tio (?s1\<lparr>a_api := snd (transport_init E c (a_api ?s1))\<rparr>)" for E c
    using app_ok_api [OF s1 step_init [of E c "a_api ?s1" "fst (transport_init E c (a_api ?s1))"]] by simp
  have "app_ok tio (upd_tui (tui_add_log msg) (?s1\<lparr>a_api := snd (transport_init E c (a_api ?s1))\<rparr>))" for E c msg
    using init by (rule app_ok_upd_tui) (rule tui_ok_add_log)
  with init show ?thesis
    unfolding start_transport_def Let_def case_prod_beta by (simp only: snd_conv if_distrib [of snd] app_ok_fields split: if_split) blast
qed

lemma app_ok_event [app_ok_intros]:
  assumes "app_ok tio s" "handle_event A ev s = Some s'"
  shows "app_ok tio s'"
proof -
  have "app_ok tio x" if "call_opt (transport_connect (ap_lib A) (ap_env A) a p) s = Some (r, x)" for a p r x
    using app_ok_call_opt [OF assms(1) that] by (blast intro: step_connect)
  then show ?thesis
    using assms
    by (auto simp: handle_event_def Let_def app_ok_upd_tui tui_ok_add_chat app_ok_say app_ok_journal tui_ok_sel tui_ok_call_popup'
        tui_ok_ack_line split: event_type.splits prod.splits if_splits bind_splits option.splits)
qed

text \<open>
  The contract of a loop that polls the transport for events and hands each to a handler, as \<open>handle_transport_events\<close>
  and the daemon do: what the steps of the transport and the handler keep, the loop keeps, and it ends with the first
  poll that has no event.
\<close>

locale event_client =
  fixes handle :: "app_env \<Rightarrow> event \<Rightarrow> app \<Rightarrow> app option"
    and loop :: "app_env list \<Rightarrow> event \<Rightarrow> app \<Rightarrow> app option"
    and inv :: "app \<Rightarrow> bool"
  assumes loop_Nil: "loop [] ev s = None"
    and loop_Cons: "loop (A # As) ev s =
      (case transport_poll_event (ap_lib A) (ap_env A) (a_api s) of
         None \<Rightarrow> None
       | Some (r, e, a) \<Rightarrow>
           let s1 = s\<lparr>a_api := a\<rparr>; ev1 = (case e of None \<Rightarrow> ev | Some x \<Rightarrow> x)
           in if r > 0 then (case handle A ev1 s1 of None \<Rightarrow> None | Some s2 \<Rightarrow> loop As ev1 s2) else Some s1)"
    and inv_api: "\<lbrakk> inv s; api_step L (a_api s) a \<rbrakk> \<Longrightarrow> inv (s\<lparr>a_api := a\<rparr>)"
    and inv_handle: "\<lbrakk> inv s; handle A ev s = Some s' \<rbrakk> \<Longrightarrow> inv s'"
begin

lemma loop_inv: "\<lbrakk> loop As ev s = Some s'; inv s \<rbrakk> \<Longrightarrow> inv s'"
proof (induction As arbitrary: ev s)
  case (Cons A As)
  obtain r e a where p: "transport_poll_event (ap_lib A) (ap_env A) (a_api s) = Some (r, e, a)"
    using Cons.prems(1) by (auto simp: loop_Cons split: option.splits)
  then have "inv (s\<lparr>a_api := a\<rparr>)" using inv_api [OF Cons.prems(2) step_poll] by blast
  then show ?case
    using Cons.prems(1) p by (auto simp: loop_Cons Let_def split: if_splits option.splits intro: Cons.IH inv_handle)
qed (simp add: loop_Nil)

lemma loop_quiet:
  "\<lbrakk> transport_poll_event (ap_lib A) (ap_env A) (a_api s) = Some (r, e, a); r \<le> 0 \<rbrakk> \<Longrightarrow> loop (A # As) ev s = Some (s\<lparr>a_api := a\<rparr>)"
  by (simp add: loop_Cons)

end

interpretation tui_events: event_client handle_event event_loop "app_ok tio" for tio
  by unfold_locales (simp_all add: app_ok_api app_ok_event)

lemmas app_ok_event_loop [app_ok_intros] = tui_events.loop_inv

lemma app_ok_typing [app_ok_intros]:
  assumes "app_ok tio s"
  shows "app_ok tio (typing_part s)"
proof -
  have "app_ok tio (call transport_send_typing s)" using assms by (rule app_ok_call) (rule step_typing)
  then show ?thesis using assms by (simp add: typing_part_def Let_def app_ok_upd_tui)
qed

lemma peer_list_length: "length (snd (transport_get_peer_list 32 a)) \<le> TUI_MAX_PEERS"
  by (auto simp: transport_get_peer_list_def connection_manager_get_peers_def Let_def)

lemma app_ok_discovery [app_ok_intros]: "app_ok tio s \<Longrightarrow> app_ok tio (discovery_part A s)"
  using peer_list_length
  by (simp add: discovery_part_def Let_def case_prod_beta app_ok_upd_node app_ok_upd_tui tui_ok_lists)

lemma app_ok_request [app_ok_intros]: "\<lbrakk> app_ok tio s; send_request A addr_str port s = Some s' \<rbrakk> \<Longrightarrow> app_ok tio s'"
  unfolding send_request_def by (auto elim!: app_ok_call_opt intro: step_request)

lemma app_ok_open_peer [app_ok_intros]: "\<lbrakk> app_ok tio s; open_peer A p s = Some s' \<rbrakk> \<Longrightarrow> app_ok tio s'"
  by (auto simp: open_peer_def Let_def app_ok_upd_tui app_ok_say app_ok_request split: if_splits)

lemma app_ok_click [app_ok_intros]:
  assumes "app_ok tio s" "click A btn mx my s = Some s'"
  shows "app_ok tio s'"
proof -
  have "app_ok tio (upd_tui (\<lambda>t. t\<lparr>t_peer_selected := t_peer_scroll (a_tui s) + row\<rparr>) s)" if "0 \<le> row" for row
    using assms(1) that by (simp add: app_ok_def upd_tui_def tui_ok_selected)
  from app_ok_open_peer [OF this, of "my - 4"] show ?thesis
    using assms by (auto simp: click_def Let_def app_ok_upd_tui tui_ok_scroll split: if_splits)
qed

lemma app_ok_mouse [app_ok_intros]:
  assumes "app_ok tio s" "mouse_part A k s = Some s'"
  shows "app_ok tio s'"
proof -
  have "app_ok tio (upd_tui (\<lambda>t. t\<lparr>t_mouse_event := False\<rparr>) s)" using assms(1) by (simp add: app_ok_upd_tui)
  from this app_ok_click [OF this] show ?thesis
    using assms by (auto simp: mouse_part_def Let_def app_ok_upd_tui tui_ok_wheel split: if_splits)
qed

section \<open>Commands and keys\<close>

lemma app_ok_end_line [app_ok_intros]:
  "app_ok tio s \<Longrightarrow> app_ok tio (end_line s)" "app_ok tio s \<Longrightarrow> app_ok tio (clear_line s)" "app_ok tio s \<Longrightarrow> app_ok tio (cut_input k s)"
  by (simp_all add: end_line_def clear_line_def cut_input_def app_ok_upd_tui tui_ok_end_line)

lemma app_ok_connect [app_ok_intros]: "\<lbrakk> app_ok tio s; cmd_connect A arg s = Some s' \<rbrakk> \<Longrightarrow> app_ok tio s'"
  by (auto simp: cmd_connect_def app_ok_say app_ok_upd_tui app_ok_request split: option.splits)

lemma app_ok_write: "app_ok tio (s\<lparr>a_term := tui_write x (a_term s)\<rparr>) = app_ok tio s"
  by (simp add: app_ok_def tui_write_def)

lemma app_ok_cmds [app_ok_intros]:
  assumes "app_ok tio s"
  shows "app_ok tio (cmd_export A s)" "app_ok tio (cmd_backup A s)" "app_ok tio (cmd_restore A arg s)" "app_ok tio (cmd_known_hosts A s)"
  using assms
  by (simp_all add: cmd_export_def cmd_backup_def cmd_restore_def cmd_known_hosts_def Let_def case_prod_beta app_ok_say app_ok_upd_tui
      app_ok_upd_node app_ok_write)

lemma app_ok_add_message [app_ok_intros]: "app_ok tio (add_message A r u msg s) = app_ok tio s"
  by (simp add: add_message_def)

lemma app_ok_enter_room [app_ok_intros]: "app_ok tio s \<Longrightarrow> app_ok tio (enter_room name s)"
  by (simp add: enter_room_def app_ok_upd_tui tui_ok_scroll)

lemma app_ok_room [app_ok_intros]: "app_ok tio s \<Longrightarrow> app_ok tio (cmd_room A arg s)"
  by (simp add: cmd_room_def Let_def case_prod_beta app_ok_say app_ok_upd_tui app_ok_add_message app_ok_enter_room)

lemma app_ok_import [app_ok_intros]: "app_ok tio s \<Longrightarrow> app_ok tio (cmd_import A arg s)"
  by (simp add: cmd_import_def Let_def case_prod_beta app_ok_say app_ok_upd_tui app_ok_upd_node)

lemma app_ok_command [app_ok_intros]:
  assumes "app_ok tio s" "command_part A k s = Some (b, s')"
  shows "app_ok tio s'"
proof -
  let ?s = "upd_tui (\<lambda>t. t\<lparr>t_input_buf := (t_input_buf t)[t_input_len t := CHR 0x00]\<rparr>) s"
  have s: "app_ok tio ?s" using assms(1) by (simp add: app_ok_upd_tui tui_ok_end_line)
  note cmds = app_ok_cmds [OF s] app_ok_room [OF s] app_ok_import [OF s] app_ok_say [OF s] app_ok_connect [OF s]
  show ?thesis
    using assms s cmds by (auto simp: command_part_def Let_def app_ok_end_line split: if_splits)
qed

lemma app_ok_login [app_ok_intros]: "app_ok tio s \<Longrightarrow> app_ok tio (login_submit A args s)"
  by (simp add: login_submit_def Let_def case_prod_beta app_ok_journal app_ok_start_transport app_ok_upd_tui app_ok_upd_node tui_ok_sel
      snprintf_def)

lemma app_ok_send_chat [app_ok_intros]: "\<lbrakk> app_ok tio s; send_chat A s = Some s' \<rbrakk> \<Longrightarrow> app_ok tio s'"
  unfolding send_chat_def by (auto elim!: app_ok_call_opt intro: step_chat)

lemma app_ok_send_members [app_ok_intros]: "\<lbrakk> send_members A ms s = Some s'; app_ok tio s \<rbrakk> \<Longrightarrow> app_ok tio s'"
  by (induction ms arbitrary: s) (auto split: if_splits option.splits intro: app_ok_send_chat)

lemma app_ok_group_send [app_ok_intros]: "\<lbrakk> app_ok tio s; group_send A s = Some s' \<rbrakk> \<Longrightarrow> app_ok tio s'"
  by (auto simp: group_send_def Let_def app_ok_add_message app_ok_end_line app_ok_upd_tui tui_ok_end_line split: option.splits
      dest!: app_ok_send_members [where tio = tio])

lemma app_ok_send_show [app_ok_intros]: "\<lbrakk> app_ok tio s; send_and_show A s = Some s' \<rbrakk> \<Longrightarrow> app_ok tio s'"
  by (auto simp: send_and_show_def app_ok_upd_tui tui_ok_add_chat app_ok_send_chat)

lemma app_ok_calls [app_ok_intros]:
  assumes "app_ok tio s"
  shows "app_ok tio (call transport_audio_call_start s)" "app_ok tio (call transport_audio_call_end s)"
    "app_ok tio (call transport_video_call_start s)" "app_ok tio (call transport_video_call_end s)"
  by (rule app_ok_call [OF assms], (rule step_audio_start step_audio_end step_video_start step_video_end, assumption))+

lemma app_ok_toggle [app_ok_intros]: "app_ok tio s \<Longrightarrow> app_ok tio (audio_toggle A s)" "app_ok tio s \<Longrightarrow> app_ok tio (video_toggle A s)"
  by (simp_all add: audio_toggle_def video_toggle_def Let_def app_ok_say app_ok_upd_tui app_ok_calls)

lemma app_ok_file_send [app_ok_intros]:
  assumes "app_ok tio s" "send_file_line A s = Some s'"
  shows "app_ok tio s'"
proof -
  have s: "app_ok tio (upd_tui (\<lambda>t. t\<lparr>t_input_buf := (t_input_buf t)[t_input_len t := CHR 0x00]\<rparr>) s)" (is "app_ok tio ?s")
    using assms(1) by (simp add: app_ok_upd_tui tui_ok_end_line)
  have "app_ok tio x" if "call_opt (transport_send_file p) ?s = Some (r, x)" for p r x
    using app_ok_call_opt [OF s that] by (blast intro: step_file)
  then show ?thesis using assms by (auto simp: send_file_line_def Let_def app_ok_end_line app_ok_say split: if_splits)
qed

lemma app_ok_answer [app_ok_intros]:
  "\<lbrakk> app_ok tio s; call_opt (transport_accept_connection E a p) s = Some (r, s') \<rbrakk> \<Longrightarrow> app_ok tio s'"
  "\<lbrakk> app_ok tio s; call_opt (transport_decline_connection E a p) s = Some (r, s') \<rbrakk> \<Longrightarrow> app_ok tio s'"
  by (blast intro: app_ok_call_opt step_accept, blast intro: app_ok_call_opt step_decline)

lemma app_ok_dispatch [app_ok_intros]:
  assumes "app_ok tio s" "dispatch A args k s = Some s'"
  shows "app_ok tio s'"
  using assms
  by (auto simp: dispatch_def Let_def app_ok_login app_ok_toggle app_ok_say app_ok_calls app_ok_upd_tui app_ok_end_line tui_ok_sel
      split: if_splits dest: app_ok_group_send app_ok_file_send app_ok_open_peer app_ok_answer app_ok_send_show [OF app_ok_end_line(3)])

lemma app_ok_input [app_ok_intros]: "\<lbrakk> app_ok tio s; input_part A args k s = Some s' \<rbrakk> \<Longrightarrow> app_ok tio s'"
  by (auto simp: input_part_def split: bind_splits if_splits)
     (blast intro: app_ok_mouse app_ok_command app_ok_dispatch)+

section \<open>Turns and runs\<close>

lemma app_ok_poll [app_ok_intros]:
  assumes "app_ok tio s"
  shows "app_ok tio (snd (snd (poll_part I s)))"
proof -
  have "tui_ok (snd (snd (snd (tui_input_poll (a_groups s) I (a_term s, a_tui s)))))"
    using assms by (intro tui_ok_poll) (simp add: app_ok_def)
  moreover have "tm_raw (fst (snd (snd (tui_input_poll (a_groups s) I (a_term s, a_tui s))))) \<and>
      tm_orig (fst (snd (snd (tui_input_poll (a_groups s) I (a_term s, a_tui s))))) = tio"
    using assms
    by (auto simp: tui_input_poll_def app_ok_def tui_suspend_def tui_raw_mode_enter_def tui_raw_mode_exit_def tui_clear_def tui_cursor_hide_def
        tui_cursor_show_def tui_write_def case_prod_beta Let_def split: list.split)
  ultimately show ?thesis
    using assms by (simp add: poll_part_def app_ok_def case_prod_beta)
qed

lemma app_ok_render [app_ok_intros]: "app_ok tio s \<Longrightarrow> app_ok tio (render A s)"
  using tui_ok_render [of "a_tui s" "view_of A s" "ap_screen A" "a_term s"]
  by (auto simp: render_def app_ok_def tui_render_def tui_write_def case_prod_beta Let_def)

lemma app_ok_turn [app_ok_intros]:
  assumes "app_ok tio s" "turn As A uninit args I s = Some (I1, s')"
  shows "app_ok tio s'"
proof -
  obtain s1 where s1: "(if a_started s then handle_transport_events As uninit s else Some s) = Some s1"
    using assms(2) by (auto simp: turn_def split: bind_splits)
  have "app_ok tio s1" using s1 assms(1) app_ok_event_loop by (auto simp: handle_transport_events_def split: if_splits)
  then have 4: "app_ok tio (discovery_part A (upd_tui (tui_update_info ci) (typing_part s1)))" for ci
    by (intro app_ok_discovery app_ok_upd_tui app_ok_typing) (simp_all add: tui_update_info_def)
  show ?thesis
    using assms(2) s1 app_ok_poll [OF 4]
    by (auto simp: turn_def Let_def case_prod_beta split: bind_splits dest!: app_ok_input [rotated] intro: app_ok_render)
qed

text \<open>
  A step of the whole program: a turn of the main loop in whatever environment and with whatever input,
  or a step of the transport interface (a turn of one of the threads of the engine) in between.
\<close>

inductive app_step :: "crypto_lib \<Rightarrow> string list \<Rightarrow> app \<Rightarrow> app \<Rightarrow> bool" for L :: crypto_lib and args :: "string list" where
  app_turn: "\<lbrakk> t_running (a_tui s); turn As A uninit args I s = Some (I1, s') \<rbrakk> \<Longrightarrow> app_step L args s s'"
| app_thread: "api_step L (a_api s) a \<Longrightarrow> app_step L args s (s\<lparr>a_api := a\<rparr>)"

text \<open>The program starts with the interface to the transport not initialised, and enters the loop by \<open>run_tui_init\<close>.\<close>

definition app_start :: "termios \<Rightarrow> string list \<Rightarrow> app \<Rightarrow> bool" where
  "app_start tio args s \<longleftrightarrow> (\<exists>A s0. api_start (a_api s0) \<and> \<not> tm_raw (a_term s0) \<and> tm_tio (a_term s0) = tio \<and> s = run_tui_init A args s0)"

lemma app_ok_init:
  assumes "api_start (a_api s0)" "\<not> tm_raw (a_term s0)"
  shows "app_ok (tm_tio (a_term s0)) (run_tui_init A args s0)"
proof -
  have s: "app_ok (tm_tio (a_term s0)) (s0\<lparr>a_tui := tui_init, a_term := tui_term_init (a_term s0)\<rparr>)" (is "app_ok ?tio ?s")
    using assms api_start_ok tui_ok_init
    by (simp add: app_ok_def tui_term_init_def tui_screen_setup_def tui_raw_mode_enter_def tui_clear_def tui_cursor_hide_def tui_write_def)
  have "app_ok ?tio (upd_tui (\<lambda>t. t\<lparr>t_username := u, t_display_name := d, t_identity := i, t_identity_ready := True,
      t_screen := SCREEN_PEER_LIST, t_dirty := True\<rparr>) x)" if "app_ok ?tio x" for u d i x
    using that by (simp add: app_ok_upd_tui)
  then show ?thesis
    unfolding run_tui_init_def Let_def case_prod_beta
    by (intro app_ok_render app_ok_upd_node(4)) (simp add: s app_ok_upd_node(1) app_ok_start_transport)
qed

lemma app_step_ok: "\<lbrakk> app_ok tio s; app_step L args s s' \<rbrakk> \<Longrightarrow> app_ok tio s'"
  by (auto elim!: app_step.cases intro: app_ok_turn app_ok_api)

interpretation app_runs: invariant_system "app_start tio args" "app_step L args" "app_ok tio" for tio args L
  by unfold_locales (auto simp: app_start_def app_ok_init intro: app_step_ok)

text \<open>
  C7: In every state that the terminal application reaches, whatever the user types, whatever packets
  arrive and however the turns of the main loop and of the engine's threads follow each other, the
  indices and lengths of the interface are in range, every session of the engine is locked only
  with a verified peer, and leaving the program gives the terminal back the attributes it had.
\<close>

theorem application_safe:
  assumes "reach (app_start tio args) (app_step L args) s"
  shows "tui_ok (a_tui s) \<and> eng_ok (api_node (a_api s)) \<and> tm_tio (a_term (run_tui_end s)) = tio"
proof -
  have "app_ok tio s" by (rule app_runs.reach_inv [OF assms])
  then show ?thesis
    by (auto simp: app_ok_def api_ok_def run_tui_end_def upd_node_def Let_def tui_shutdown_def tui_term_restore_def tui_screen_restore_def
        tui_raw_mode_exit_def tui_clear_def tui_cursor_show_def tui_write_def tui_input_disable_mouse_def)
qed

section \<open>The daemon\<close>

definition daemon_ok :: "app \<Rightarrow> bool" where
  "daemon_ok s \<longleftrightarrow> api_ok (a_api s)"

lemma daemon_ok_api: "\<lbrakk> daemon_ok s; api_step L (a_api s) a \<rbrakk> \<Longrightarrow> daemon_ok (s\<lparr>a_api := a\<rparr>)"
  using api_step_ok by (auto simp: daemon_ok_def)

lemma daemon_ok_event: "\<lbrakk> daemon_ok s; daemon_event A ev s = Some s' \<rbrakk> \<Longrightarrow> daemon_ok s'"
  by (auto simp: daemon_event_def call_opt_def call_def split: if_splits prod.splits
      intro: daemon_ok_api step_accept daemon_ok_api [OF _ step_audio_start [OF prod.collapse [symmetric]]])

interpretation daemon_events: event_client daemon_event daemon_loop daemon_ok
  by unfold_locales (simp_all add: daemon_ok_api daemon_ok_event)

inductive daemon_step :: "crypto_lib \<Rightarrow> app \<Rightarrow> app \<Rightarrow> bool" for L :: crypto_lib where
  daemon_round: "daemon_turn As A uninit s = Some s' \<Longrightarrow> daemon_step L s s'"
| daemon_thread: "api_step L (a_api s) a \<Longrightarrow> daemon_step L s (s\<lparr>a_api := a\<rparr>)"

definition daemon_boot :: "string list \<Rightarrow> app \<Rightarrow> bool" where
  "daemon_boot args s \<longleftrightarrow> (\<exists>A s0. api_start (a_api s0) \<and> daemon_start A args s0 = (0, s))"

lemma daemon_ok_upd_node:
  "daemon_ok s \<Longrightarrow> daemon_ok (upd_node (\<lambda>n. n\<lparr>n_store := st n\<rparr>) s)" "daemon_ok s \<Longrightarrow> daemon_ok (upd_node (\<lambda>n. n\<lparr>n_disc := d n\<rparr>) s)"
  "daemon_ok s \<Longrightarrow> daemon_ok (upd_node (\<lambda>n. n\<lparr>n_conns := c n\<rparr>) s)"
  by (simp_all add: daemon_ok_def upd_node_def api_ok_def)

lemma daemon_ok_boot:
  assumes "daemon_boot args s"
  shows "daemon_ok s"
proof -
  obtain A s0 where s0: "api_start (a_api s0)" and d: "daemon_start A args s0 = (0, s)"
    using assms by (auto simp: daemon_boot_def)
  have "daemon_ok (s0\<lparr>a_id := i\<rparr>)" for i using s0 api_start_ok by (simp add: daemon_ok_def)
  then have 1: "daemon_ok (upd_node (\<lambda>n. n\<lparr>n_store := st\<rparr>) (s0\<lparr>a_id := i\<rparr>))" for st i by (rule daemon_ok_upd_node)
  show ?thesis
    using d by (auto simp: daemon_start_def Let_def split: prod.splits if_splits intro!: daemon_ok_upd_node(2) daemon_ok_api [OF 1 step_init])
qed

lemma daemon_ok_turn: "\<lbrakk> daemon_ok s; daemon_turn As A uninit s = Some s' \<rbrakk> \<Longrightarrow> daemon_ok s'"
  using daemon_events.loop_inv [of As uninit s] by (auto simp: daemon_turn_def daemon_ok_upd_node(3))

lemma daemon_step_ok: "\<lbrakk> daemon_ok s; daemon_step L s s' \<rbrakk> \<Longrightarrow> daemon_ok s'"
  by (auto elim!: daemon_step.cases intro: daemon_ok_turn daemon_ok_api)

interpretation daemon_runs: invariant_system "daemon_boot args" "daemon_step L" daemon_ok for args L
  by unfold_locales (auto intro: daemon_ok_boot daemon_step_ok)

text \<open>
  The daemon accepts every request without asking, but also there a session is locked only with a verified peer,
  in whatever order its rounds and the turns of the threads follow each other.
\<close>

theorem daemon_safe: "reach (daemon_boot args) (daemon_step L) s \<Longrightarrow> eng_ok (api_node (a_api s))"
  using daemon_runs.reach_inv by (auto simp: daemon_ok_def api_ok_def)

end
