(* ===== verification/App_Flow.thy ===== *)
theory App_Flow
  imports App_Safe Engine_Flow
begin

text \<open>
  What the main loop does with a submitted line and with events: the way of a typed chat line
  through the key handler, the commands and the dispatch to the sealed packet in the queue of the
  engine, the lines that do not take this way, and events that are handled twice or lead nowhere.
\<close>

section \<open>A submitted line\<close>

text \<open>The state after \<open>msg\<close> and Enter were typed: the key that the main loop gets and the interface.\<close>

definition submit :: "string \<Rightarrow> app \<Rightarrow> int \<times> app" where
  "submit msg s = (let (k, t) = handle_key (a_groups s) 13 (type_keys msg (a_tui s)) in (k, s\<lparr>a_tui := t\<rparr>))"

text \<open>The chat screen with an empty input and no popup.\<close>

definition chat_ready :: "app \<Rightarrow> bool" where
  "chat_ready s \<longleftrightarrow> tui_ok (a_tui s) \<and> t_screen (a_tui s) = SCREEN_CHAT \<and> \<not> t_show_conn_popup (a_tui s) \<and> \<not> t_show_call_popup (a_tui s) \<and>
     t_input_len (a_tui s) = 0"

definition line_ok :: "string \<Rightarrow> bool" where
  "line_ok msg \<longleftrightarrow> list_all printable msg \<and> msg \<noteq> [] \<and> length msg \<le> 255 \<and> hd msg \<noteq> CHR ''q''"

lemma chat_keeps_fields:
  "t_show_conn_popup (snd (handle_chat_input c t)) = t_show_conn_popup t"
  "t_show_call_popup (snd (handle_chat_input c t)) = t_show_call_popup t"
  "t_peers (snd (handle_chat_input c t)) = t_peers t"
  "t_conn_info (snd (handle_chat_input c t)) = t_conn_info t"
  "t_chat_lines (snd (handle_chat_input c t)) = t_chat_lines t"
  by (simp_all add: handle_chat_input_def clear_input_def Let_def)

lemma type_keeps_fields:
  "t_show_conn_popup (type_keys msg t) = t_show_conn_popup t"
  "t_show_call_popup (type_keys msg t) = t_show_call_popup t"
  "t_peers (type_keys msg t) = t_peers t"
  "t_conn_info (type_keys msg t) = t_conn_info t"
  "t_chat_lines (type_keys msg t) = t_chat_lines t"
  by (induction msg arbitrary: t) (simp_all add: type_keys_def chat_keeps_fields)

lemma submit_line:
  assumes "chat_ready s" "line_ok msg" "submit msg s = (k, s1)"
  shows "k = int (length msg)" "input_text s1 = msg" "t_input_len (a_tui s1) = 0" "t_screen (a_tui s1) = SCREEN_CHAT" "tui_ok (a_tui s1)"
    "a_api s1 = a_api s" "cut_input k s1 = s1" "t_peers (a_tui s1) = t_peers (a_tui s)" "t_conn_info (a_tui s1) = t_conn_info (a_tui s)"
    "t_chat_lines (a_tui s1) = t_chat_lines (a_tui s)"
proof -
  let ?u = "type_keys msg (a_tui s)"
  have m: "\<forall>c \<in> set msg. printable c" "msg \<noteq> []" "length msg \<le> 255" "hd msg \<noteq> CHR ''q''"
    using assms(2) by (auto simp: line_ok_def list_all_iff)
  have t: "tui_ok (a_tui s)" "t_input_len (a_tui s) = 0" "t_screen (a_tui s) = SCREEN_CHAT" using assms(1) by (simp_all add: chat_ready_def)
  have u: "t_screen ?u = SCREEN_CHAT" "tui_ok ?u" "t_input_len ?u = length msg"
    using type_more [OF t(1) m(1)] m t by (auto simp: Let_def)
  have h: "handle_key (a_groups s) 13 ?u = handle_chat_input 13 ?u"
    using assms(1) u(1) by (simp add: handle_key_def type_keeps_fields chat_ready_def)
  have e: "handle_chat_input 13 ?u = (int (length msg), ?u\<lparr>t_input_buf := (t_input_buf ?u)[length msg := CHR 0x00], t_input_len := 0,
      t_input_pos := 0, t_dirty := True\<rparr>)"
    using enter_key [OF u(2), of 13] u(3) m(2) by simp
  have k: "k = int (length msg)" and s1: "s1 = s\<lparr>a_tui := snd (handle_chat_input 13 ?u)\<rparr>"
    using assms(3) h e by (auto simp: submit_def)
  have l: "cstr (t_input_buf (a_tui s1)) = msg" "t_input_len (a_tui s1) = 0" "t_screen (a_tui s1) = SCREEN_CHAT" "tui_ok (a_tui s1)"
    using typed_line [OF t(1,2) m] t(3) s1 by (simp_all add: case_prod_beta)
  show "k = int (length msg)" by (rule k)
  show "input_text s1 = msg" "t_input_len (a_tui s1) = 0" "t_screen (a_tui s1) = SCREEN_CHAT" "tui_ok (a_tui s1)"
    using l by (simp_all add: input_text_def)
  show "a_api s1 = a_api s" by (simp add: s1)
  show "cut_input k s1 = s1" by (simp add: cut_input_def upd_tui_def k s1 e)
  show "t_peers (a_tui s1) = t_peers (a_tui s)" "t_conn_info (a_tui s1) = t_conn_info (a_tui s)" "t_chat_lines (a_tui s1) = t_chat_lines (a_tui s)"
    by (simp_all add: s1 chat_keeps_fields type_keeps_fields)
qed

lemma submit_dispatch:
  assumes "chat_ready s" "line_ok msg" "submit msg s = (k, s1)"
  shows "input_part A args k s1 = dispatch A args k s1"
  using submit_line [OF assms] by (simp add: input_part_def mouse_part_def command_part_def)

text \<open>
  C38: What becomes of a chat line that is typed and finished with Enter depends on its length: with one
  character it is sent when the shown state is locked and dropped otherwise; with two to nine characters it is
  sent as a chat message, or answered with a note when there is no locked session; with ten or more characters it
  is never sent: the length is taken for the number of a peer, and the chat with that peer is opened, or
  nothing happens. No line is executed as a command.
\<close>

theorem chat_line_routed:
  assumes "chat_ready s" "line_ok msg" "submit msg s = (k, s1)"
  shows "input_text s1 = msg \<and> input_part A args k s1 =
    (let n = length msg in
     if n = 1 then (if ci_state (t_conn_info (a_tui s1)) = CONN_LOCKED then map_option clear_line (send_and_show A s1) else Some s1)
     else if n < 10 then
       map_option clear_line (if ci_state (transport_get_connection_info (ap_env A) (a_api s)) = CONN_LOCKED
         then send_and_show A s1 else Some (say A ''Not connected yet'' s1))
     else if n - 10 < length (t_peers (a_tui s1)) then open_peer A (t_peers (a_tui s1) ! (n - 10)) s1
     else Some s1)"
proof -
  note l = submit_line [OF assms]
  have "nat (int (length msg) - 10) = length msg - 10" by linarith
  then have "dispatch A args k s1 = (let n = length msg in
     if n = 1 then (if ci_state (t_conn_info (a_tui s1)) = CONN_LOCKED then map_option clear_line (send_and_show A s1) else Some s1)
     else if n < 10 then
       map_option clear_line (if ci_state (transport_get_connection_info (ap_env A) (a_api s)) = CONN_LOCKED
         then send_and_show A s1 else Some (say A ''Not connected yet'' s1))
     else if n - 10 < length (t_peers (a_tui s1)) then open_peer A (t_peers (a_tui s1) ! (n - 10)) s1
     else Some s1)"
    using l assms(2) by (cases "length msg = 1") (auto simp: dispatch_def Let_def line_ok_def Suc_lessI)
  then show ?thesis using l(2) submit_dispatch [OF assms] by simp
qed


section \<open>Sample states\<close>

definition app_env_sample :: app_env where
  "app_env_sample = \<lparr>ap_env = env_sample, ap_lib = sample_lib, ap_acc = (\<lambda>_. False), ap_rnd = replicate 32 0, ap_stamp = None, ap_created = [],
     ap_inbox = [], ap_config_file = None, ap_hm = (\<lambda>_. None), ap_junk = [], ap_screen = []\<rparr>"

definition app_sample :: "api \<Rightarrow> tui \<Rightarrow> app" where
  "app_sample a t = \<lparr>a_tui = t, a_term = sample_term, a_api = a, a_groups = group_reset, a_id = identity_zero, a_files = (\<lambda>_. None),
     a_started = True, a_frame = 1\<rparr>"

text \<open>A locked session, and the chat screen.\<close>

definition locked_sample :: app where
  "locked_sample = app_sample \<lparr>api_node = node_sample enc_session_sample buf_sample, api_initialized = True\<rparr> (tui_init\<lparr>t_screen := SCREEN_CHAT\<rparr>)"

lemma locked_sample_ready: "chat_ready locked_sample"
  using tui_ok_init by (simp add: chat_ready_def locked_sample_def app_sample_def) (simp add: tui_init_def)

theorem application_safe_witness:
  "let s = run_tui_init app_env_sample [] (app_sample start_sample tui_init)
   in reach (app_start (tm_tio sample_term) []) (app_step sample_lib []) s \<and> tui_ok (a_tui s) \<and>
      tm_tio (a_term (run_tui_end s)) = tm_tio sample_term"
proof -
  let ?s = "run_tui_init app_env_sample [] (app_sample start_sample tui_init)"
  have "api_start start_sample" by (simp add: api_start_def start_sample_def node_sample_def engine_zero_def)
  then have "app_start (tm_tio sample_term) [] ?s"
    unfolding app_start_def by (intro exI [of _ app_env_sample] exI [of _ "app_sample start_sample tui_init"])
      (simp add: app_sample_def sample_term_def Let_def)
  then have "reach (app_start (tm_tio sample_term) []) (app_step sample_lib []) ?s" by (rule reach_start)
  moreover from this have "tui_ok (a_tui ?s)" "tm_tio (a_term (run_tui_end ?s)) = tm_tio sample_term"
    using application_safe by blast+
  ultimately show ?thesis by (simp add: Let_def)
qed

theorem chat_line_routed_witness:
  "let (k, s1) = submit ''hello world'' locked_sample
   in chat_ready locked_sample \<and> line_ok ''hello world'' \<and> input_part app_env_sample [] k s1 = Some s1"
proof -
  have l: "line_ok ''hello world''" by (simp add: line_ok_def printable_def key_of_def)
  obtain k s1 where s: "submit ''hello world'' locked_sample = (k, s1)" by fastforce
  have "t_peers (a_tui s1) = []"
    using submit_line(8) [OF locked_sample_ready l s] by (simp add: locked_sample_def app_sample_def tui_init_def)
  then show ?thesis using chat_line_routed [OF locked_sample_ready l s, of app_env_sample "[]"] locked_sample_ready l s by simp
qed

text \<open>
  C10: A short line that the user types reaches the network encrypted: with a locked session, a line of two to nine characters
  and Enter in the chat screen append exactly one buffer to the chat queue of the engine, it is addressed to the peer and
  holds the typed text sealed under the session's keys, and the text appears as an own line of the chat. Commands
  such as \<open>/mykey\<close> are no exception.
\<close>

theorem typed_message_sealed:
  assumes L: "crypto_lib_ok (ap_lib A)" and n: "can_chat j (api_node (a_api s))" "api_initialized (a_api s)"
    and s: "chat_ready s" "line_ok msg" "2 \<le> length msg" "length msg < 10" "submit msg s = (k, s1)"
  shows "\<exists>s' q. input_part A args k s1 = Some s' \<and>
    chat_queue (api_node (a_api s')) = chat_queue (api_node (a_api s)) @ [q] \<and>
    sealed_chat (ap_lib A) (keys (sess_at j (api_node (a_api s)))) (session_id (sess_at j (api_node (a_api s))))
      (eng_seq_counter (n_eng (api_node (a_api s)))) (ascii msg) (pool_mem (n_pool (api_node (a_api s'))) q) \<and>
    take SOCKADDR_IN6_SIZE (addr (pool_mem (n_pool (api_node (a_api s'))) q)) = eng_peer_addr (n_eng (api_node (a_api s))) \<and>
    cl_text (last (t_chat_lines (a_tui s'))) = msg \<and> cl_is_self (last (t_chat_lines (a_tui s')))"
proof -
  let ?n = "api_node (a_api s)"
  note l = submit_line [OF s(1,2,5)]
  have "length (ascii msg) \<le> 1371" using s(4) by (simp add: ascii_def)
  then obtain n' q where q: "transport_engine_send_chat (ap_lib A) (ascii msg) ?n = Some (0, n')" "chat_queue n' = chat_queue ?n @ [q]"
    "sealed_chat (ap_lib A) (keys (sess_at j ?n)) (session_id (sess_at j ?n)) (eng_seq_counter (n_eng ?n)) (ascii msg) (pool_mem (n_pool n') q)"
    "take SOCKADDR_IN6_SIZE (addr (pool_mem (n_pool n') q)) = eng_peer_addr (n_eng ?n)"
    using send_chat_seals [OF L n(1)] by blast
  have locked: "ci_state (transport_get_connection_info (ap_env A) (a_api s)) = CONN_LOCKED"
    using n(1) by (simp add: transport_get_connection_info_def transport_engine_get_info_def can_chat_def Let_def)
  let ?s2 = "s1\<lparr>a_api := (a_api s)\<lparr>api_node := n'\<rparr>\<rparr>"
  have "send_chat A s1 = Some ?s2"
    using q(1) n(2) l(2,6) by (simp add: send_chat_def call_opt_def transport_send_chat_def forward_opt_def)
  then have "send_and_show A s1 = Some (upd_tui (tui_add_chat (env_time (ap_env A)) (snprintf 1100 (input_text ?s2)) 0 True) ?s2)"
    by (simp add: send_and_show_def)
  moreover have "input_text ?s2 = msg" using l(2) by (simp add: input_text_def)
  moreover have "input_part A args k s1 = map_option clear_line (send_and_show A s1)"
    using submit_dispatch [OF s(1,2,5)] l(1,4,6,7) s(3,4) locked by (simp add: dispatch_def Let_def)
  ultimately show ?thesis
    using q(2-4) s(4) by (simp add: clear_line_def upd_tui_def tui_add_chat_def Let_def)
qed

theorem typed_message_sealed_witness:
  "\<exists>k s1 s' q. submit ''/mykey'' locked_sample = (k, s1) \<and> input_part app_env_sample [] k s1 = Some s' \<and>
     chat_queue (api_node (a_api s')) = [q] \<and>
     sealed_chat sample_lib (keys enc_session_sample) 9 0 (ascii ''/mykey'') (pool_mem (n_pool (api_node (a_api s'))) q)"
proof -
  let ?n = "node_sample enc_session_sample buf_sample"
  obtain k s1 where s: "submit ''/mykey'' locked_sample = (k, s1)" by fastforce
  have l: "line_ok ''/mykey''" by (simp add: line_ok_def printable_def key_of_def)
  have n: "api_node (a_api locked_sample) = ?n" "api_initialized (a_api locked_sample)" by (simp_all add: locked_sample_def app_sample_def)
  have q: "eng_seq_counter (n_eng ?n) = 0" "session_id enc_session_sample = 9"
    by (simp_all add: node_sample_def engine_zero_def enc_session_sample_def)
  have a: "ap_lib app_env_sample = sample_lib" by (simp add: app_env_sample_def)
  show ?thesis
    using typed_message_sealed [of app_env_sample 0 locked_sample "''/mykey''" k s1 "[]"] sample_lib_ok locked_sample_ready l s
      node_sample_can_chat node_sample_rings(4) [of enc_session_sample buf_sample]
    by (auto simp: n q a)
qed

section \<open>Events\<close>

lemma poll_garbage:
  assumes "only_packet k p n" "calm n" "packet_parse (pool_mem (n_pool n) p) = None"
  shows "\<exists>n1 n2. transport_engine_poll L E n = Some (1, None, n1) \<and> transport_engine_poll L' E' n1 = Some (0, None, n2)"
proof -
  obtain m where m: "transport_engine_poll L E n = map_option (\<lambda>n'. (1, None, n')) (receive_packet L E k p m)"
    "flow m = flow (upd_eng (\<lambda>g. g\<lparr>eng_rx_rings := (eng_rx_rings g)[k := snd (ring_pop (eng_rx_rings g ! k))]\<rparr>) n)"
    "n_pool m = n_pool n" "n_crypto m = n_crypto n"
    using poll_first [OF assms(1)] by blast
  define n1 where "n1 = give_back p (put_rx_world k (rx_world_of k m) m)"
  have p1: "transport_engine_poll L E n = Some (1, None, n1)"
    using m(1,3) assms(3) by (simp add: receive_packet_def pipeline_inbound_pre_crypto_def n1_def)
  have "flow n1 = flow m" "n_crypto n1 = n_crypto n"
    using m(4) by (simp_all add: n1_def put_rx_world_def give_back_def flow_def upd_eng_def upd_sess_at_def Let_def split: option.split)
  then have n1: "calm n1" "ready_socket (n_eng n1) = None" "ring_ok (eng_event_ring (n_eng n1))" "ring_contents (eng_event_ring (n_eng n1)) = []"
    "ring_ok (cw_results (n_crypto n1))" "ring_contents (cw_results (n_crypto n1)) = []"
    using m(2) assms(1,2) by (simp_all add: flow_def calm_def only_packet_def ready_socket_def upd_eng_def Let_def)
  define n1' where "n1' = n1\<lparr>n_monitor := monitor_mark_alive (env_clock_ms E') ''rx-worker'' (n_monitor n1)\<rparr>"
  have "calm n1'" using n1(1) by (simp add: calm_def n1'_def)
  then obtain n2 where n2: "poll_ticks L' E' n1' = Some n2" using poll_ticks_calm by blast
  have "ring_pop (eng_event_ring (n_eng n1)) = (None, eng_event_ring (n_eng n1))"
    "crypto_worker_pop_result (n_crypto n1) = (None, n_crypto n1)"
    using spsc.pop_empty [OF n1(3,4)] spsc.pop_empty [OF n1(5,6)] by (simp_all add: crypto_worker_pop_result_def)
  then have "transport_engine_poll L' E' n1 = Some (0, None, n2)"
    using n2 n1(2) by (simp add: transport_engine_poll_def n1'_def Let_def)
  then show ?thesis using p1 by blast
qed

text \<open>Behind the event \<open>ev\<close> waits one packet \<open>p\<close>.\<close>

definition event_then_packet :: "event \<Rightarrow> nat \<Rightarrow> buf_ptr \<Rightarrow> node \<Rightarrow> bool" where
  "event_then_packet ev k p n \<longleftrightarrow>
     (let r = eng_event_ring (n_eng n) in
      fst (ring_pop r) = Some ev \<and> only_packet k p (upd_eng (\<lambda>g. g\<lparr>eng_event_ring := snd (ring_pop r)\<rparr>) n))"

lemma poll_event_then_packet:
  assumes "event_then_packet ev k p n"
  shows "\<exists>n1. transport_engine_poll L E n = Some (1, Some ev, n1) \<and> only_packet k p n1 \<and> calm n1 = calm n \<and> n_pool n1 = n_pool n"
  using assms
  by (cases "ring_pop (eng_event_ring (n_eng n))")
     (auto simp: event_then_packet_def transport_engine_poll_def only_packet_def calm_def upd_eng_def ready_socket_def Let_def)

lemma chat_event_shown:
  assumes "ev_type ev = EVENT_CHAT_RECEIVED" "length (t_chat_lines (a_tui s)) < TUI_MAX_CHAT_LINES"
  shows "\<exists>s' l. handle_event A ev s = Some s' \<and> a_api s' = a_api s \<and> t_chat_lines (a_tui s') = t_chat_lines (a_tui s) @ [l] \<and>
    cl_text l = snprintf 1024 (fst (ev_chat ev)) \<and> \<not> cl_is_self l"
  using assms by (simp add: handle_event_def Let_def case_prod_beta upd_tui_def tui_add_chat_def)

text \<open>
  C39: A message is shown twice when anything else arrives: \<open>transport_poll_event\<close> returns 1 also when it only processed a packet, and leaves the
  event variable as it was. When a chat event waits and behind it one datagram, of whatever sender, that is not even a packet, the
  loop over the events adds two lines with the text of the message to the chat.
\<close>

theorem stray_datagram_repeats_message:
  assumes e: "event_then_packet ev k p (api_node (a_api s))" "ev_type ev = EVENT_CHAT_RECEIVED"
    and n: "api_initialized (a_api s)" "calm (api_node (a_api s))" "packet_parse (pool_mem (n_pool (api_node (a_api s))) p) = None"
    and l: "length (t_chat_lines (a_tui s)) + 1 < TUI_MAX_CHAT_LINES"
  shows "\<exists>s' l1 l2. handle_transport_events [A1, A2, A3] uninit s = Some s' \<and> t_chat_lines (a_tui s') = t_chat_lines (a_tui s) @ [l1, l2] \<and>
    cl_text l1 = snprintf 1024 (fst (ev_chat ev)) \<and> cl_text l2 = cl_text l1"
proof -
  obtain n1 where n1: "transport_engine_poll (ap_lib A1) (ap_env A1) (api_node (a_api s)) = Some (1, Some ev, n1)" "only_packet k p n1" "calm n1"
    "packet_parse (pool_mem (n_pool n1) p) = None"
    using poll_event_then_packet [OF e(1), of "ap_lib A1" "ap_env A1"] n(2,3) by auto
  obtain n2 n3 where n2: "transport_engine_poll (ap_lib A2) (ap_env A2) n1 = Some (1, None, n2)"
    "transport_engine_poll (ap_lib A3) (ap_env A3) n2 = Some (0, None, n3)"
    using poll_garbage [OF n1(2-4)] by blast
  let ?a = "\<lambda>m. (a_api s)\<lparr>api_node := m\<rparr>"
  have p: "transport_poll_event (ap_lib A1) (ap_env A1) (a_api s) = Some (1, Some ev, ?a n1)"
    "transport_poll_event (ap_lib A2) (ap_env A2) (?a n1) = Some (1, None, ?a n2)"
    "transport_poll_event (ap_lib A3) (ap_env A3) (?a n2) = Some (0, None, ?a n3)"
    using n(1) n1(1) n2 by (simp_all add: transport_poll_event_def)
  obtain s1 l1 where s1: "handle_event A1 ev (s\<lparr>a_api := ?a n1\<rparr>) = Some s1" "a_api s1 = ?a n1"
    "t_chat_lines (a_tui s1) = t_chat_lines (a_tui s) @ [l1]" "cl_text l1 = snprintf 1024 (fst (ev_chat ev))"
    using chat_event_shown [OF e(2), of "s\<lparr>a_api := ?a n1\<rparr>" A1] l by auto
  obtain s2 l2 where s2: "handle_event A2 ev (s1\<lparr>a_api := ?a n2\<rparr>) = Some s2" "a_api s2 = ?a n2"
    "t_chat_lines (a_tui s2) = t_chat_lines (a_tui s1) @ [l2]" "cl_text l2 = snprintf 1024 (fst (ev_chat ev))"
    using chat_event_shown [OF e(2), of "s1\<lparr>a_api := ?a n2\<rparr>" A2] l s1(3) by auto
  have "handle_transport_events [A1, A2, A3] uninit s = Some (s2\<lparr>a_api := ?a n3\<rparr>)"
    using p s1(1,2) s2(1,2) by (simp add: handle_transport_events_def)
  then show ?thesis using s1(3,4) s2(3,4) by auto
qed

text \<open>A chat event waits in the ring and a datagram without content at the socket.\<close>

definition repeat_event :: event where
  "repeat_event = \<lparr>ev_type = EVENT_CHAT_RECEIVED, ev_timestamp_ms = 0, ev_data = Ev_Chat [104, 105, 0] 5000\<rparr>"

definition repeat_sample :: app where
  "repeat_sample = app_sample \<lparr>api_node = push_event repeat_event (node_sample session_zero (buf_sample\<lparr>len := 0\<rparr>)), api_initialized = True\<rparr> tui_init"

theorem stray_datagram_repeats_message_witness:
  "\<exists>s' l1 l2. handle_transport_events [app_env_sample, app_env_sample, app_env_sample] repeat_event repeat_sample = Some s' \<and>
     t_chat_lines (a_tui s') = [l1, l2] \<and> cl_text l1 = ''hi'' \<and> cl_text l2 = ''hi''"
proof -
  let ?n = "node_sample session_zero (buf_sample\<lparr>len := 0\<rparr>)"
  have n: "api_node (a_api repeat_sample) = push_event repeat_event ?n" "api_initialized (a_api repeat_sample)" "t_chat_lines (a_tui repeat_sample) = []"
    by (simp_all add: repeat_sample_def app_sample_def tui_init_def)
  have o: "only_packet 0 3 ?n" "calm ?n" by (rule node_sample_rings)+
  then have r: "ring_ok (eng_event_ring (n_eng ?n))" "ring_contents (eng_event_ring (n_eng ?n)) = []" by (simp_all add: only_packet_def Let_def)
  obtain r1 where r1: "ring_push (eng_event_ring (n_eng ?n)) repeat_event = (0, r1)" "ring_contents r1 = [repeat_event]" "ring_ok r1"
    using spsc.push_accept [OF r(1), of repeat_event] r(2) by auto
  obtain r2 where r2: "ring_pop r1 = (Some repeat_event, r2)" "ring_ok r2" "ring_contents r2 = []"
    using spsc.pop_item [OF r1(3,2)] by auto
  have "only_packet 0 3 (upd_eng (\<lambda>g. g\<lparr>eng_event_ring := r2\<rparr>) (push_event repeat_event ?n))"
    using o(1) r2(2,3) by (simp add: only_packet_def push_event_def upd_eng_def ready_socket_def Let_def)
  then have "event_then_packet repeat_event 0 3 (push_event repeat_event ?n)"
    using r1(1) r2(1) by (simp add: event_then_packet_def push_event_def upd_eng_def)
  moreover have "calm (push_event repeat_event ?n)" using o(2) by (simp add: calm_def push_event_def upd_eng_def)
  moreover have "packet_parse (pool_mem (n_pool (push_event repeat_event ?n)) 3) = None"
    by (simp add: push_event_def upd_eng_def packet_parse_def)
  moreover have "ev_type repeat_event = EVENT_CHAT_RECEIVED" by (simp add: repeat_event_def)
  moreover have "snprintf 1024 (fst (ev_chat repeat_event)) = ''hi''" by code_simp
  ultimately show ?thesis
    using stray_datagram_repeats_message [of repeat_event 0 3 repeat_sample app_env_sample app_env_sample app_env_sample repeat_event] n by auto
qed

text \<open>
  The initiator of a connection never connects. The engine reports the acceptance of a request with an event that carries no address, so
  that the application calls \<open>transport_connect\<close> with an empty address; when an empty address is not one that
  \<open>inet_pton\<close> takes, no session is created and nothing is sent, while the interface opens the chat and says that it is connecting.
\<close>

theorem accepted_request_goes_nowhere:
  assumes "env_pton6 (ap_env A) [] = None" "env_pton4 (ap_env A) [] = None"
  shows "\<exists>s'. handle_event A (plain_event EVENT_CONNECT_ACCEPTED now) s = Some s' \<and>
    n_sessions (api_node (a_api s')) = n_sessions (api_node (a_api s)) \<and> n_pool (api_node (a_api s')) = n_pool (api_node (a_api s)) \<and>
    eng_tx_queues (n_eng (api_node (a_api s'))) = eng_tx_queues (n_eng (api_node (a_api s))) \<and>
    eng_session (n_eng (api_node (a_api s'))) = eng_session (n_eng (api_node (a_api s))) \<and>
    t_screen (a_tui s') = SCREEN_CHAT \<and> cl_text (last (t_chat_lines (a_tui s'))) = ''Connecting...''"
proof -
  have "resolve_peer (ap_env A) [] 0 = (-1, sockaddr6 0 (replicate 16 0))" using assms by (simp add: resolve_peer_def)
  moreover define n where "n = api_node (a_api s)"
  moreover define n1 where "n1 = (if \<not> eng_initialized (n_eng n) \<or> eng_session (n_eng n) \<noteq> None then n
    else upd_eng (\<lambda>g. g\<lparr>eng_peer_addr := sockaddr6 0 (replicate 16 0)\<rparr>) n)"
  ultimately have c: "transport_engine_connect (ap_lib A) (ap_env A) [] 0 n = Some (-1, n1)"
    by (simp add: transport_engine_connect_def Let_def)
  define a where "a = (if api_initialized (a_api s) then (a_api s)\<lparr>api_node := n1\<rparr> else a_api s)"
  have "transport_connect (ap_lib A) (ap_env A) [] 0 (a_api s) = Some (-1, a)"
    using c by (simp add: transport_connect_def forward_opt_def a_def n_def)
  moreover have "n_sessions (api_node a) = n_sessions n" "n_pool (api_node a) = n_pool n" "eng_tx_queues (n_eng (api_node a)) = eng_tx_queues (n_eng n)"
    "eng_session (n_eng (api_node a)) = eng_session (n_eng n)"
    by (simp_all add: a_def n1_def n_def upd_eng_def)
  ultimately show ?thesis unfolding n_def
    by (simp add: handle_event_def plain_event_def ev_conn_req_def call_opt_def say_def journal_def upd_tui_def tui_event_journal_add_def
        tui_add_log_def tui_add_chat_def Let_def split: option.split)
qed

theorem accepted_request_goes_nowhere_witness:
  "\<exists>s'. handle_event (app_env_sample\<lparr>ap_env := env_sample\<lparr>env_pton6 := (\<lambda>a. if a = [] then None else Some (replicate 16 0))\<rparr>\<rparr>)
       (plain_event EVENT_CONNECT_ACCEPTED 0) repeat_sample = Some s' \<and>
     n_sessions (api_node (a_api s')) = n_sessions (api_node (a_api repeat_sample)) \<and> cl_text (last (t_chat_lines (a_tui s'))) = ''Connecting...''"
  using accepted_request_goes_nowhere [of "app_env_sample\<lparr>ap_env := env_sample\<lparr>env_pton6 := (\<lambda>a. if a = [] then None else Some (replicate 16 0))\<rparr>\<rparr>"
      0 repeat_sample] by (auto simp: env_sample_def)

end
