(* ===== verification/Bpf_Filter.thy ===== *)
theory Bpf_Filter
  imports Filters Keyed_Table "HOL-Library.Multiset"
begin

text \<open>
  The packet filter in the kernel (\<open>layers/kernel_filter_bpf.c\<close> and the wrappers at the end of
  \<open>layers/kernel_filter.c\<close>): the program for the BPF machine with the macros that encode it (what the kernel does with it is not part of the sources), the
  descriptors the process holds, and the calls that load, attach and release them. The result of a system call is an
  argument, and the calls that were made are recorded in the state. The Windows branch is left out.
\<close>

section \<open>Instructions\<close>

record bpf_insn =
  bi_code :: u8
  bi_dst_reg :: nat
  bi_src_reg :: nat
  bi_off :: int
  bi_imm :: int

abbreviation (input) BPF_LD :: u8 where "BPF_LD \<equiv> 0x00"
abbreviation (input) BPF_LDX :: u8 where "BPF_LDX \<equiv> 0x01"
abbreviation (input) BPF_ST :: u8 where "BPF_ST \<equiv> 0x02"
abbreviation (input) BPF_JMP :: u8 where "BPF_JMP \<equiv> 0x05"
abbreviation (input) BPF_ALU64 :: u8 where "BPF_ALU64 \<equiv> 0x07"
abbreviation (input) BPF_H :: u8 where "BPF_H \<equiv> 0x08"
abbreviation (input) BPF_B :: u8 where "BPF_B \<equiv> 0x10"
abbreviation (input) BPF_ABS :: u8 where "BPF_ABS \<equiv> 0x20"
abbreviation (input) BPF_MEM :: u8 where "BPF_MEM \<equiv> 0x60"
abbreviation (input) BPF_K :: u8 where "BPF_K \<equiv> 0x00"
abbreviation (input) BPF_X :: u8 where "BPF_X \<equiv> 0x08"
abbreviation (input) BPF_MOV :: u8 where "BPF_MOV \<equiv> 0xB0"
abbreviation (input) BPF_JNE :: u8 where "BPF_JNE \<equiv> 0x50"
abbreviation (input) BPF_EXIT :: u8 where "BPF_EXIT \<equiv> 0x90"

text \<open>The parts of the code byte (\<open>BPF_OP\<close>, \<open>BPF_SIZE\<close> of the kernel headers).\<close>

definition BPF_OP :: "u8 \<Rightarrow> u8" where
  "BPF_OP c = c AND 0xF0"

definition BPF_SIZE :: "u8 \<Rightarrow> u8" where
  "BPF_SIZE c = c AND 0x18"

definition BPF_ALU64_IMM :: "u8 \<Rightarrow> nat \<Rightarrow> int \<Rightarrow> bpf_insn" where
  "BPF_ALU64_IMM op dst k = \<lparr>bi_code = BPF_ALU64 OR BPF_OP op OR BPF_K, bi_dst_reg = dst, bi_src_reg = 0, bi_off = 0, bi_imm = k\<rparr>"

definition BPF_MOV64_IMM :: "nat \<Rightarrow> int \<Rightarrow> bpf_insn" where
  "BPF_MOV64_IMM dst k = BPF_ALU64_IMM BPF_MOV dst k"

definition BPF_EXIT_INSN :: bpf_insn where
  "BPF_EXIT_INSN = \<lparr>bi_code = BPF_JMP OR BPF_EXIT, bi_dst_reg = 0, bi_src_reg = 0, bi_off = 0, bi_imm = 0\<rparr>"

definition BPF_ST_MEM :: "u8 \<Rightarrow> nat \<Rightarrow> int \<Rightarrow> int \<Rightarrow> bpf_insn" where
  "BPF_ST_MEM sz dst d k = \<lparr>bi_code = BPF_ST OR BPF_SIZE sz OR BPF_MEM, bi_dst_reg = dst, bi_src_reg = 0, bi_off = d, bi_imm = k\<rparr>"

definition BPF_LDX_MEM :: "u8 \<Rightarrow> nat \<Rightarrow> nat \<Rightarrow> int \<Rightarrow> bpf_insn" where
  "BPF_LDX_MEM sz dst src d = \<lparr>bi_code = BPF_LDX OR BPF_SIZE sz OR BPF_MEM, bi_dst_reg = dst, bi_src_reg = src, bi_off = d, bi_imm = 0\<rparr>"

definition BPF_JMP_IMM :: "u8 \<Rightarrow> nat \<Rightarrow> int \<Rightarrow> int \<Rightarrow> bpf_insn" where
  "BPF_JMP_IMM op dst k d = \<lparr>bi_code = BPF_JMP OR BPF_OP op OR BPF_K, bi_dst_reg = dst, bi_src_reg = 0, bi_off = d, bi_imm = k\<rparr>"

definition BPF_JMP_REG :: "u8 \<Rightarrow> nat \<Rightarrow> nat \<Rightarrow> int \<Rightarrow> bpf_insn" where
  "BPF_JMP_REG op dst src d = \<lparr>bi_code = BPF_JMP OR BPF_OP op OR BPF_X, bi_dst_reg = dst, bi_src_reg = src, bi_off = d, bi_imm = 0\<rparr>"

definition BPF_LD_ABS :: "u8 \<Rightarrow> int \<Rightarrow> bpf_insn" where
  "BPF_LD_ABS sz k = \<lparr>bi_code = BPF_LD OR BPF_SIZE sz OR BPF_ABS, bi_dst_reg = 0, bi_src_reg = 0, bi_off = 0, bi_imm = k\<rparr>"

definition xdp_drop_on_port :: "bpf_insn list" where
  "xdp_drop_on_port =
     [BPF_LD_ABS BPF_H 12,
      BPF_JMP_IMM BPF_JNE 0 0x0800 6,
      BPF_LD_ABS BPF_B 23,
      BPF_JMP_IMM BPF_JNE 0 17 4,
      BPF_LD_ABS BPF_H 36,
      BPF_JMP_IMM BPF_JNE 0 9001 2,
      BPF_MOV64_IMM 0 1,
      BPF_EXIT_INSN,
      BPF_MOV64_IMM 0 2,
      BPF_EXIT_INSN]"

text \<open>Every jump leads to the instruction that loads the verdict \<open>XDP_PASS\<close>, and the program ends with an exit.\<close>

lemma xdp_jump_targets:
  "list_all (\<lambda>i. bi_code (xdp_drop_on_port ! i) = BPF_JMP OR BPF_JNE OR BPF_K \<longrightarrow> int i + 1 + bi_off (xdp_drop_on_port ! i) = 8)
     [0..<length xdp_drop_on_port]"
  "xdp_drop_on_port ! 8 = BPF_MOV64_IMM 0 2" "last xdp_drop_on_port = BPF_EXIT_INSN"
  by code_simp+

section \<open>Descriptors and system calls\<close>

datatype bpf_call = Map_Create int | Map_Update int u32 u32 | Prog_Load "bpf_insn list" int | Prog_Attach int int int | Prog_Detach int | Close int

record bpf_state =
  g_bpf_map_fd :: int
  g_bpf_prog_fd :: int
  g_bpf_attached :: bool
  g_bpf_ifname :: string
  bpf_calls :: "bpf_call list"

text \<open>What the kernel answers.\<close>

record bpf_kernel =
  bk_map_create :: int
  bk_map_update :: int
  bk_prog_load :: int
  bk_prog_attach :: int
  bk_if_nametoindex :: "string \<Rightarrow> int"

definition bpf_zero :: bpf_state where
  "bpf_zero = \<lparr>g_bpf_map_fd = -1, g_bpf_prog_fd = -1, g_bpf_attached = False, g_bpf_ifname = [], bpf_calls = []\<rparr>"

definition bpf :: "bpf_call \<Rightarrow> bpf_state \<Rightarrow> bpf_state" where
  "bpf c s = s\<lparr>bpf_calls := bpf_calls s @ [c]\<rparr>"

definition kernel_filter_bpf_create_map :: "bpf_kernel \<Rightarrow> bpf_state \<Rightarrow> int \<times> bpf_state" where
  "kernel_filter_bpf_create_map K s =
     (if g_bpf_map_fd s \<ge> 0 then (-1, s)
      else (bk_map_create K, (bpf (Map_Create (bk_map_create K)) s)\<lparr>g_bpf_map_fd := bk_map_create K\<rparr>))"

definition kernel_filter_bpf_destroy_map :: "bpf_state \<Rightarrow> bpf_state" where
  "kernel_filter_bpf_destroy_map s =
     (if g_bpf_map_fd s \<ge> 0 then (bpf (Close (g_bpf_map_fd s)) s)\<lparr>g_bpf_map_fd := -1\<rparr> else s)"

definition kernel_filter_bpf_sync :: "bpf_kernel \<Rightarrow> u32 \<Rightarrow> u32 \<Rightarrow> bpf_state \<Rightarrow> int \<times> bpf_state" where
  "kernel_filter_bpf_sync K whitelist_enabled blocklist_enabled s =
     (if g_bpf_map_fd s < 0 then (-1, s)
      else (bk_map_update K, bpf (Map_Update (g_bpf_map_fd s) whitelist_enabled blocklist_enabled) s))"

definition kernel_filter_bpf_load :: "bpf_kernel \<Rightarrow> bpf_state \<Rightarrow> int \<times> bpf_state" where
  "kernel_filter_bpf_load K s =
     (if g_bpf_prog_fd s \<ge> 0 then (-1, s)
      else let s1 = (bpf (Prog_Load xdp_drop_on_port (bk_prog_load K)) s)\<lparr>g_bpf_prog_fd := bk_prog_load K\<rparr>
           in if g_bpf_prog_fd s1 < 0 then (-1, s1) else (0, s1))"

definition kernel_filter_bpf_unload :: "bpf_state \<Rightarrow> int \<times> bpf_state" where
  "kernel_filter_bpf_unload s =
     (0, if g_bpf_prog_fd s \<ge> 0 then (bpf (Close (g_bpf_prog_fd s)) s)\<lparr>g_bpf_prog_fd := -1\<rparr> else s)"

definition kernel_filter_bpf_attach :: "bpf_kernel \<Rightarrow> string \<Rightarrow> bpf_state \<Rightarrow> int \<times> bpf_state" where
  "kernel_filter_bpf_attach K ifname s =
     (if g_bpf_attached s then (-1, s)
      else if g_bpf_prog_fd s < 0 then (-1, s)
      else if bk_if_nametoindex K ifname \<le> 0 then (-1, s)
      else let s1 = bpf (Prog_Attach (bk_if_nametoindex K ifname) (g_bpf_prog_fd s) (bk_prog_attach K)) s
           in if bk_prog_attach K \<noteq> 0 then (-1, s1) else (0, s1\<lparr>g_bpf_attached := True, g_bpf_ifname := snprintf 64 ifname\<rparr>))"

definition kernel_filter_bpf_detach :: "bpf_kernel \<Rightarrow> bpf_state \<Rightarrow> int \<times> bpf_state" where
  "kernel_filter_bpf_detach K s =
     (if \<not> g_bpf_attached s then (-1, s)
      else if g_bpf_ifname s = [] then (-1, s)
      else if bk_if_nametoindex K (g_bpf_ifname s) \<le> 0 then (-1, s)
      else (0, (bpf (Prog_Detach (bk_if_nametoindex K (g_bpf_ifname s))) s)\<lparr>g_bpf_attached := False, g_bpf_ifname := []\<rparr>))"

definition kernel_filter_bpf_is_attached :: "bpf_state \<Rightarrow> bool" where
  "kernel_filter_bpf_is_attached s = g_bpf_attached s"

definition kernel_filter_bpf_shutdown :: "bpf_state \<Rightarrow> bpf_state" where
  "kernel_filter_bpf_shutdown s =
     (snd (kernel_filter_bpf_unload (kernel_filter_bpf_destroy_map s)))\<lparr>g_bpf_attached := False, g_bpf_ifname := []\<rparr>"

text \<open>The wrappers of \<open>kernel_filter.c\<close>.\<close>

definition kernel_filter_bpf_attach_iface :: "bpf_kernel \<Rightarrow> string \<Rightarrow> bpf_state \<Rightarrow> int \<times> bpf_state" where
  "kernel_filter_bpf_attach_iface K ifname s =
     (let (r, s1) = kernel_filter_bpf_create_map K s in
      if r \<noteq> 0 then (-1, s1)
      else let (r, s2) = kernel_filter_bpf_load K s1 in
        if r \<noteq> 0 then (-1, s2)
        else let (r, s3) = kernel_filter_bpf_attach K ifname s2 in
          if r \<noteq> 0 then (-1, s3) else (0, s3))"

definition kernel_filter_bpf_detach_iface :: "bpf_kernel \<Rightarrow> bpf_state \<Rightarrow> int \<times> bpf_state" where
  "kernel_filter_bpf_detach_iface K s = kernel_filter_bpf_detach K s"

definition kernel_filter_bpf_sync_state :: "bpf_kernel \<Rightarrow> kernel_filter \<Rightarrow> bpf_state \<Rightarrow> int \<times> bpf_state" where
  "kernel_filter_bpf_sync_state K kf s =
     (let wl = (if length (whitelist kf) > 0 then 1 else 0);
          bl = (if length (blocklist kf) > 0 then 1 else 0)
      in kernel_filter_bpf_sync K wl bl s)"

definition kernel_filter_bpf_loaded :: "bpf_state \<Rightarrow> bool" where
  "kernel_filter_bpf_loaded s = kernel_filter_bpf_is_attached s"

definition kernel_filter_bpf_cleanup :: "bpf_state \<Rightarrow> bpf_state" where
  "kernel_filter_bpf_cleanup s = kernel_filter_bpf_shutdown s"

section \<open>Descriptors\<close>

text \<open>The descriptors that the kernel gave out and that were closed, and the interface a program is attached to.\<close>

definition opened :: "bpf_call list \<Rightarrow> int list" where
  "opened cs = concat (map (\<lambda>c. case c of Map_Create d \<Rightarrow> if d \<ge> 0 then [d] else [] | Prog_Load _ d \<Rightarrow> if d \<ge> 0 then [d] else [] | _ \<Rightarrow> []) cs)"

definition closed :: "bpf_call list \<Rightarrow> int list" where
  "closed cs = concat (map (\<lambda>c. case c of Close d \<Rightarrow> [d] | _ \<Rightarrow> []) cs)"

fun attached_if :: "bpf_call list \<Rightarrow> int option \<Rightarrow> int option" where
  "attached_if [] i = i"
| "attached_if (Prog_Attach j d r # cs) i = attached_if cs (if r = 0 then Some j else i)"
| "attached_if (Prog_Detach j # cs) i = attached_if cs None"
| "attached_if (_ # cs) i = attached_if cs i"

definition held :: "bpf_state \<Rightarrow> int list" where
  "held s = filter (\<lambda>d. d \<ge> 0) [g_bpf_map_fd s, g_bpf_prog_fd s]"

definition bpf_ok :: "bpf_state \<Rightarrow> bool" where
  "bpf_ok s \<longleftrightarrow> mset (opened (bpf_calls s)) = mset (closed (bpf_calls s)) + mset (held s)"

inductive bpf_step :: "bpf_state \<Rightarrow> bpf_state \<Rightarrow> bool" where
  "bpf_step s (snd (kernel_filter_bpf_create_map K s))"
| "bpf_step s (kernel_filter_bpf_destroy_map s)"
| "bpf_step s (snd (kernel_filter_bpf_sync K wl bl s))"
| "bpf_step s (snd (kernel_filter_bpf_load K s))"
| "bpf_step s (snd (kernel_filter_bpf_unload s))"
| "bpf_step s (snd (kernel_filter_bpf_attach K ifname s))"
| "bpf_step s (snd (kernel_filter_bpf_detach K s))"
| "bpf_step s (kernel_filter_bpf_shutdown s)"
| "bpf_step s (snd (kernel_filter_bpf_attach_iface K ifname s))"

lemmas bpf_op_defs = kernel_filter_bpf_create_map_def kernel_filter_bpf_destroy_map_def kernel_filter_bpf_sync_def kernel_filter_bpf_load_def
  kernel_filter_bpf_unload_def kernel_filter_bpf_attach_def kernel_filter_bpf_detach_def kernel_filter_bpf_shutdown_def bpf_def

lemmas bpf_ok_defs = bpf_ok_def held_def opened_def closed_def

lemma bpf_ops_ok:
  assumes "bpf_ok s"
  shows "bpf_ok (snd (kernel_filter_bpf_create_map K s))" "bpf_ok (kernel_filter_bpf_destroy_map s)" "bpf_ok (snd (kernel_filter_bpf_sync K wl bl s))"
    "bpf_ok (snd (kernel_filter_bpf_load K s))" "bpf_ok (snd (kernel_filter_bpf_unload s))" "bpf_ok (snd (kernel_filter_bpf_attach K ifname s))"
    "bpf_ok (snd (kernel_filter_bpf_detach K s))" "bpf_ok (kernel_filter_bpf_shutdown s)"
  using assms by (auto simp: bpf_op_defs bpf_ok_defs Let_def)

lemma bpf_step_ok: "\<lbrakk> bpf_ok s; bpf_step s t \<rbrakk> \<Longrightarrow> bpf_ok t"
proof (erule bpf_step.cases)
  fix K ifname s'
  assume "bpf_ok s" "s = s'" "t = snd (kernel_filter_bpf_attach_iface K ifname s')"
  moreover from this have "bpf_ok (snd (kernel_filter_bpf_create_map K s'))" by (simp add: bpf_ops_ok)
  moreover from this have "bpf_ok (snd (kernel_filter_bpf_load K (snd (kernel_filter_bpf_create_map K s'))))" by (rule bpf_ops_ok)
  ultimately show "bpf_ok t"
    using bpf_ops_ok(6) by (simp add: kernel_filter_bpf_attach_iface_def case_prod_beta Let_def)
qed (simp_all add: bpf_ops_ok)

interpretation bpf_runs: invariant_system "\<lambda>s. s = bpf_zero" bpf_step bpf_ok
  by unfold_locales (simp add: bpf_zero_def bpf_ok_defs, rule bpf_step_ok)

text \<open>
  C29: No sequence of calls, whatever the kernel answers, leaks or closes twice a descriptor of the filter: at any time the descriptors
  that were opened are those closed and the ones still held, and after \<open>kernel_filter_bpf_shutdown\<close>
  each one was closed exactly as often as it was opened.
\<close>

theorem bpf_descriptors_balanced:
  assumes "reach (\<lambda>s. s = bpf_zero) bpf_step s"
  shows "mset (opened (bpf_calls s)) = mset (closed (bpf_calls s)) + mset (held s) \<and>
    (let t = kernel_filter_bpf_shutdown s in mset (opened (bpf_calls t)) = mset (closed (bpf_calls t)) \<and> held t = [])"
proof -
  have "bpf_ok s" by (rule bpf_runs.reach_inv [OF assms])
  moreover from this have "bpf_ok (kernel_filter_bpf_shutdown s)" by (rule bpf_ops_ok)
  moreover have "held (kernel_filter_bpf_shutdown s) = []" by (simp add: held_def bpf_op_defs)
  ultimately show ?thesis by (simp add: bpf_ok_def)
qed

definition kernel_sample :: bpf_kernel where
  "kernel_sample = \<lparr>bk_map_create = 3, bk_map_update = 0, bk_prog_load = 4, bk_prog_attach = 0, bk_if_nametoindex = (\<lambda>_. 2)\<rparr>"

theorem bpf_descriptors_balanced_witness:
  "let s = snd (kernel_filter_bpf_load kernel_sample (snd (kernel_filter_bpf_create_map kernel_sample bpf_zero)))
   in reach (\<lambda>s. s = bpf_zero) bpf_step s \<and> held s = [3, 4] \<and> mset (closed (bpf_calls (kernel_filter_bpf_shutdown s))) = mset [3, 4]"
proof -
  let ?s1 = "snd (kernel_filter_bpf_create_map kernel_sample bpf_zero)"
  let ?s = "snd (kernel_filter_bpf_load kernel_sample ?s1)"
  have "reach (\<lambda>s. s = bpf_zero) bpf_step bpf_zero" by (simp add: reach_start)
  then have "reach (\<lambda>s. s = bpf_zero) bpf_step ?s1" by (rule reach_step) (rule bpf_step.intros)
  then have "reach (\<lambda>s. s = bpf_zero) bpf_step ?s" by (rule reach_step) (rule bpf_step.intros)
  moreover have "held ?s = [3, 4]" "opened (bpf_calls (kernel_filter_bpf_shutdown ?s)) = [3, 4]"
    by (simp_all add: held_def opened_def bpf_op_defs kernel_sample_def bpf_zero_def)
  ultimately show ?thesis using bpf_descriptors_balanced [of ?s] by (simp add: Let_def)
qed

text \<open>
  C40: \<open>kernel_filter_bpf_attach_iface\<close> does not attach the filter. It takes the descriptor that
  \<open>kernel_filter_bpf_create_map\<close> returns for an error code, so that with every descriptor but 0 it returns -1 and
  loads nothing; and it never succeeds afterwards, since the map exists.
\<close>

theorem attach_iface_gives_up:
  assumes "bk_map_create K \<noteq> 0"
  shows "fst (kernel_filter_bpf_attach_iface K ifname s) = -1 \<and>
    g_bpf_prog_fd (snd (kernel_filter_bpf_attach_iface K ifname s)) = g_bpf_prog_fd s \<and>
    g_bpf_attached (snd (kernel_filter_bpf_attach_iface K ifname s)) = g_bpf_attached s \<and>
    attached_if (bpf_calls (snd (kernel_filter_bpf_attach_iface K ifname s))) None = attached_if (bpf_calls s) None"
proof -
  have "attached_if (cs @ [Map_Create d]) i = attached_if cs i" for cs d i
    by (induction cs i rule: attached_if.induct) auto
  then show ?thesis using assms by (simp add: kernel_filter_bpf_attach_iface_def kernel_filter_bpf_create_map_def bpf_def)
qed

theorem attach_iface_gives_up_witness:
  "let (r, s) = kernel_filter_bpf_attach_iface kernel_sample ''eth0'' bpf_zero
   in r = -1 \<and> g_bpf_map_fd s = 3 \<and> g_bpf_prog_fd s = -1 \<and> \<not> g_bpf_attached s"
  using attach_iface_gives_up [of kernel_sample "''eth0''" bpf_zero]
  by (simp add: kernel_sample_def bpf_zero_def kernel_filter_bpf_attach_iface_def kernel_filter_bpf_create_map_def bpf_def)

text \<open>
  Shutting down leaves the program attached: no detach call is made, and a later \<open>kernel_filter_bpf_detach\<close> refuses.
\<close>

theorem bpf_shutdown_keeps_filter:
  "attached_if (bpf_calls (kernel_filter_bpf_shutdown s)) None = attached_if (bpf_calls s) None \<and>
   kernel_filter_bpf_detach K (kernel_filter_bpf_shutdown s) = (-1, kernel_filter_bpf_shutdown s)"
proof -
  have "attached_if (cs @ [Close d]) i = attached_if cs i" for cs d i
    by (induction cs i rule: attached_if.induct) auto
  then show ?thesis by (simp add: bpf_op_defs)
qed

end
