(* ===== verification/Demo.thy ===== *)
theory Demo
  imports Engine_Flow
begin

text \<open>
  The demonstration that the program runs without arguments (end of \<open>engine/transport_engine.c\<close>): an
  initiator and a responder in one process that talk to each other over two loopback paths, with the handlers
  of both sides, the test messages, the file and one round of the main loop. \<open>None\<close> is an access outside
  an array. What is printed is left out.
\<close>

section \<open>State\<close>

text \<open>\<open>control_ctx_t\<close> of a side, with the rings and queues of its two paths.\<close>

record demo_side =
  sd_sess :: session
  sd_txq :: "tx_queues list"
  sd_rings :: "buf_ring list"
  sd_rxq :: "rx_queues list"
  sd_seq :: u32
  sd_locked :: bool
  sd_abr :: abr_ctx

text \<open>The variables \<open>g_ft_..\<close> of the file transfer.\<close>

record demo_ft =
  ft_sending :: bool
  ft_send_offset :: u32
  ft_send_chunk_seq :: u32
  ft_total_size :: u32
  ft_total_chunks :: u32
  ft_recving :: bool
  ft_recv_chunks :: u32
  ft_recv_total_chunks :: u32
  ft_recv_total_size :: u32
  ft_checksum :: u32
  ft_recv_checksum :: u32
  ft_done :: bool
  ft_send_done :: bool
  ft_verified :: bool

record demo =
  dm_init :: demo_side
  dm_resp :: demo_side
  dm_pool :: pool
  dm_off :: offensive
  dm_aa :: anti_analysis
  dm_kf :: kernel_filter
  dm_stats :: handshake_stats
  dm_routes :: route_table
  dm_route_sent :: bool
  dm_ft :: demo_ft
  dm_fs :: file_system
  dm_ticks :: nat
  dm_table :: session_table
  dm_store :: secure_store
  dm_monitor :: monitor

definition DEMO_FILE_PATH :: string where
  "DEMO_FILE_PATH = ''/tmp/ssm_demo_src.bin''"

definition DEMO_FILE_RCV :: string where
  "DEMO_FILE_RCV = ''/tmp/ssm_demo_rcv.bin''"

text \<open>The addresses of the peers: \<open>::1\<close> and the port of the path.\<close>

definition demo_addr :: "u16 \<Rightarrow> bytes" where
  "demo_addr port = sockaddr6 port (replicate 15 0 @ [1])"

definition peer_addr_of :: "bool \<Rightarrow> nat \<Rightarrow> bytes" where
  "peer_addr_of ini k = demo_addr (if ini then (if k = 0 then 9002 else 9004) else (if k = 0 then 9001 else 9003))"

definition side :: "bool \<Rightarrow> demo \<Rightarrow> demo_side" where
  "side ini d = (if ini then dm_init d else dm_resp d)"

definition upd_side :: "bool \<Rightarrow> (demo_side \<Rightarrow> demo_side) \<Rightarrow> demo \<Rightarrow> demo" where
  "upd_side ini f d = (if ini then d\<lparr>dm_init := f (dm_init d)\<rparr> else d\<lparr>dm_resp := f (dm_resp d)\<rparr>)"

definition side_ep :: "bool \<Rightarrow> nat \<Rightarrow> demo \<Rightarrow> endpoint" where
  "side_ep ini k d = (let s = side ini d in \<lparr>ep_sess = sd_sess s, ep_txq = sd_txq s ! k, ep_pool = dm_pool d, ep_seq = sd_seq s\<rparr>)"

definition put_side_ep :: "bool \<Rightarrow> nat \<Rightarrow> endpoint \<Rightarrow> demo \<Rightarrow> demo" where
  "put_side_ep ini k e d =
     upd_side ini (\<lambda>s. s\<lparr>sd_sess := ep_sess e, sd_txq := (sd_txq s)[k := ep_txq e], sd_seq := ep_seq e\<rparr>) (d\<lparr>dm_pool := ep_pool e\<rparr>)"

definition with_side :: "bool \<Rightarrow> nat \<Rightarrow> (endpoint \<Rightarrow> 'a \<times> endpoint) \<Rightarrow> demo \<Rightarrow> 'a \<times> demo" where
  "with_side ini k f d = (let (r, e) = f (side_ep ini k d) in (r, put_side_ep ini k e d))"

definition free_buf :: "buf_ptr \<Rightarrow> demo \<Rightarrow> demo" where
  "free_buf p d = d\<lparr>dm_pool := pool_return p (dm_pool d)\<rparr>"

definition upd_sd_sess :: "bool \<Rightarrow> (session \<Rightarrow> session) \<Rightarrow> demo \<Rightarrow> demo" where
  "upd_sd_sess ini f = upd_side ini (\<lambda>s. s\<lparr>sd_sess := f (sd_sess s)\<rparr>)"

section \<open>Test messages\<close>

text \<open>Message \<open>i\<close> of the loop; the second one is dropped to show the error correction.\<close>

definition test_chat :: "crypto_lib \<Rightarrow> bool \<Rightarrow> nat \<Rightarrow> demo \<Rightarrow> demo option" where
  "test_chat L ini i d =
     (let sel = resilience_select_path (resilience (sd_sess (side ini d)));
          k = (if sel \<ge> 2 then 0 else sel);
          d1 = upd_sd_sess ini (\<lambda>s. s\<lparr>resilience := resilience_record_tx (resilience s) k\<rparr>) d;
          msg = snprintf 64 ((if ini then ''hello from initiator! #'' else ''hey from responder! #'') @ dec (i + 1));
          dest = peer_addr_of ini k
      in case build_chat_packet (ascii msg) (side_ep ini k d1) of
           None \<Rightarrow> None
         | Some (None, e) \<Rightarrow> Some (put_side_ep ini k e d1)
         | Some (Some p, e) \<Rightarrow> do {
             (_, e1) \<leftarrow> encrypt_tx_packet L p e;
             e2 \<leftarrow> fec_tx_after_encrypt p dest e1;
             let e3 = e2\<lparr>ep_pool := buf_update p (set_dest dest SOCKADDR_IN6_SIZE) (ep_pool e2)\<rparr>;
             Some (put_side_ep ini k (if i = 1 then e3\<lparr>ep_pool := pool_return p (ep_pool e3)\<rparr> else push_control p e3) d1)
           })"

fun test_chats :: "crypto_lib \<Rightarrow> bool \<Rightarrow> nat list \<Rightarrow> demo \<Rightarrow> demo option" where
  "test_chats L ini [] d = Some d"
| "test_chats L ini (i # is) d = (case test_chat L ini i d of None \<Rightarrow> None | Some d1 \<Rightarrow> test_chats L ini is d1)"

definition route_test :: "crypto_lib \<Rightarrow> demo \<Rightarrow> demo option" where
  "route_test L d =
     (if dm_route_sent d then Some d
      else let d1 = d\<lparr>dm_route_sent := True\<rparr> in
        case relay_build_test_packet L RELAY_NODE_RESPONDER (ascii ''hello via relay!'' @ [0]) (side_ep True 0 d1) of
          None \<Rightarrow> None
        | Some (r, p, e) \<Rightarrow>
            (case p of
               Some q \<Rightarrow>
                 if r = 0
                 then Some (put_side_ep True 0 (push_chat q (e\<lparr>ep_pool := buf_update q (set_dest (peer_addr_of True 0) SOCKADDR_IN6_SIZE) (ep_pool e)\<rparr>)) d1)
                 else Some (put_side_ep True 0 e d1)
             | None \<Rightarrow> Some (put_side_ep True 0 e d1)))"

section \<open>The file\<close>

definition demo_content :: bytes where
  "demo_content = map of_nat [0..<1024]"

definition file_start :: "demo \<Rightarrow> demo" where
  "file_start d =
     (let ft = dm_ft d; fs = dm_fs d in
      if ft_sending ft \<or> ft_done ft \<or> \<not> fs_access fs DEMO_FILE_PATH then d
      else d\<lparr>dm_fs := fs\<lparr>files := (files fs)(DEMO_FILE_PATH \<mapsto> demo_content)\<rparr>,
             dm_ft := ft\<lparr>ft_checksum := file_checksum demo_content, ft_total_size := 1024, ft_total_chunks := (1024 + 1023) div 1024,
               ft_sending := True, ft_send_offset := 0, ft_send_chunk_seq := 0, ft_send_done := False, ft_recving := False, ft_recv_chunks := 0,
               ft_recv_checksum := 0, ft_verified := False\<rparr>\<rparr>)"

text \<open>One chunk per round of the main loop; it is sent in clear.\<close>

definition file_tick :: "demo \<Rightarrow> demo" where
  "file_tick d =
     (let ft = dm_ft d; s = dm_init d in
      if \<not> (ft_sending ft \<and> sess_state (sd_sess s) = SESSION_LOCKED \<and> ft_send_offset ft < ft_total_size ft) then d
      else
        let rem = ft_total_size ft - ft_send_offset ft;
            rd = (if rem > 1024 then 1024 else rem);
            d1 = upd_side True (\<lambda>s. s\<lparr>sd_seq := sd_seq s + 1\<rparr>) d;
            d2 = (case pool_get (dm_pool d1) of
                    (None, q) \<Rightarrow> d1\<lparr>dm_pool := q\<rparr>
                  | (Some p, q) \<Rightarrow>
                      let hdr = chan_fields (session_id (sd_sess s)) CH_FILE (sd_seq s) (8 + unat rd) (data (pool_mem q p));
                          b = (pool_mem q p)\<lparr>data := mem_write 28 (le_bytes 4 (ft_total_size ft)) (mem_write 24 (le_bytes 4 (ft_send_chunk_seq ft)) hdr)\<rparr>
                      in case open_read (dm_fs d) DEMO_FILE_PATH of
                           None \<Rightarrow> d1\<lparr>dm_pool := pool_return p (buf_update p (\<lambda>_. b) q)\<rparr>
                         | Some f \<Rightarrow>
                             let piece = take (unat rd) (drop (unat (ft_send_offset ft)) f);
                                 b1 = b\<lparr>data := mem_write 32 piece (data b)\<rparr>;
                                 b2 = set_dest (peer_addr_of True 0) SOCKADDR_IN6_SIZE (b1\<lparr>len := 24 + (8 + unat rd)\<rparr>);
                                 (st, r) = ring_push (tx_file (sd_txq s ! 0)) p
                             in if length piece \<noteq> unat rd then d1\<lparr>dm_pool := pool_return p (buf_update p (\<lambda>_. b1) q)\<rparr>
                                else if st \<noteq> 0 then d1\<lparr>dm_pool := pool_return p (buf_update p (\<lambda>_. b2) q)\<rparr>
                                else upd_side True (\<lambda>s. s\<lparr>sd_txq := (sd_txq s)[0 := (sd_txq s ! 0)\<lparr>tx_file := r\<rparr>]\<rparr>)
                                  (d1\<lparr>dm_pool := buf_update p (\<lambda>_. b2) q,
                                      dm_ft := ft\<lparr>ft_send_offset := ft_send_offset ft + rd, ft_send_chunk_seq := ft_send_chunk_seq ft + 1\<rparr>\<rparr>))
        in if ft_send_offset (dm_ft d2) \<ge> ft_total_size (dm_ft d2)
           then d2\<lparr>dm_ft := (dm_ft d2)\<lparr>ft_sending := False, ft_send_done := True\<rparr>\<rparr> else d2)"

text \<open>The responder stores a chunk and counts it.\<close>

definition recv_chunk :: "packet_buf \<Rightarrow> packet_view \<Rightarrow> demo \<Rightarrow> demo" where
  "recv_chunk b v d =
     (let fseq = (le_word (mem_read (payload v) 4 (data b)) :: u32); ftotal = (le_word (mem_read (payload v + 4) 4 (data b)) :: u32);
          ok = fs_access (dm_fs d) DEMO_FILE_RCV;
          d1 = (if ft_recving (dm_ft d) then d
                else d\<lparr>dm_ft := (dm_ft d)\<lparr>ft_recving := True, ft_recv_chunks := 0, ft_recv_checksum := 0, ft_recv_total_size := ftotal,
                         ft_recv_total_chunks := (ftotal + 1023) div 1024\<rparr>,
                       dm_fs := (if ok then (dm_fs d)\<lparr>files := (files (dm_fs d))(DEMO_FILE_RCV \<mapsto> [])\<rparr> else dm_fs d)\<rparr>);
          piece = mem_read (payload v + 8) (plength v - 8) (data b);
          d2 = (case (if ok then files (dm_fs d1) DEMO_FILE_RCV else None) of
                  None \<Rightarrow> d1
                | Some old \<Rightarrow>
                    if piece = [] then d1
                    else d1\<lparr>dm_fs := (dm_fs d1)\<lparr>files := (files (dm_fs d1))(DEMO_FILE_RCV \<mapsto> file_write (unat (fseq * 1024)) piece old)\<rparr>,
                            dm_ft := (dm_ft d1)\<lparr>ft_recv_checksum := fold (\<lambda>x c. c * 31 + ucast x) piece (ft_recv_checksum (dm_ft d1))\<rparr>\<rparr>);
          ft = (dm_ft d2)\<lparr>ft_recv_chunks := ft_recv_chunks (dm_ft d2) + 1\<rparr>
      in d2\<lparr>dm_ft := (if ft_recv_chunks ft = ft_recv_total_chunks ft then ft\<lparr>ft_done := True, ft_verified := True\<rparr> else ft)\<rparr>)"

section \<open>Handlers\<close>

text \<open>A step of the handshake on a side, with the answer queued on the first path.\<close>

definition demo_handshake :: "(hs_world \<Rightarrow> buf_ptr option \<times> hs_world) \<Rightarrow> bool \<Rightarrow> demo \<Rightarrow> demo" where
  "demo_handshake run ini d =
     (let s = side ini d;
          (response, w) = run \<lparr>hw_sess = sd_sess s, hw_stats = dm_stats d, hw_pool = dm_pool d, hw_seq = sd_seq s\<rparr>;
          d1 = upd_side ini (\<lambda>s. s\<lparr>sd_sess := hw_sess w, sd_seq := hw_seq w\<rparr>) (d\<lparr>dm_stats := hw_stats w, dm_pool := hw_pool w\<rparr>)
      in case response of
           None \<Rightarrow> d1
         | Some p \<Rightarrow> snd (with_side ini 0 (\<lambda>e. ((), push_control p e))
                       (d1\<lparr>dm_pool := buf_update p (set_dest (peer_addr_of ini 0) SOCKADDR_IN6_SIZE) (dm_pool d1)\<rparr>)))"

text \<open>
  After the acknowledgement of a port change the initiator plays a transport loss: it ignores heartbeats for 15
  seconds, and both sessions get the old address of their peer.
\<close>

definition simulate_loss :: "u64 \<Rightarrow> demo \<Rightarrow> demo" where
  "simulate_loss now d =
     upd_sd_sess False (\<lambda>s. s\<lparr>sess_addr := mem_write 0 (peer_addr_of False 0) (sess_addr s), sess_addr_len := SOCKADDR_IN6_SIZE\<rparr>)
       (upd_sd_sess True (\<lambda>s. s\<lparr>ignore_heartbeats_until_ms := now + 15000,
          sess_addr := mem_write 0 (peer_addr_of True 0) (sess_addr s), sess_addr_len := SOCKADDR_IN6_SIZE\<rparr>) d)"

text \<open>The handlers of a locked session; the first result says that one of them took the packet.\<close>

definition demo_locked_control :: "crypto_lib \<Rightarrow> env \<Rightarrow> bool \<Rightarrow> packet_buf \<Rightarrow> demo \<Rightarrow> bool \<times> demo" where
  "demo_locked_control L E ini b d =
     (let now = now_ms E; opc = data b ! 24 in
      if ini \<and> ignore_heartbeats_until_ms (sd_sess (dm_init d)) > now \<and> (opc = CTRL_HEARTBEAT \<or> opc = CTRL_HEARTBEAT_ACK) then (True, d)
      else let (r1, d1) = with_side ini 0 (heartbeat_handle b now) d in
      if r1 > 0 then (True, d1)
      else let (r2, d2) = with_side ini 0 (reconnect_handle b now) d1 in
      if r2 > 0 then
        (True, if ini \<and> ignore_heartbeats_until_ms (sd_sess (dm_init d2)) > 0 then upd_sd_sess True (\<lambda>s. s\<lparr>ignore_heartbeats_until_ms := 0\<rparr>) d2 else d2)
      else let (r3, d3) = with_side ini 0 (hop_and_ack b) d2 in
      if r3 > 0 then (True, if ini \<and> r3 = 2 then simulate_loss now d3 else d3)
      else let (r4, d4) = with_side ini 0 (rekey_handle L (env_seed E) b) d3 in
      (r4 > 0, d4))"

definition demo_newly_locked :: "bool \<Rightarrow> demo \<Rightarrow> bool" where
  "demo_newly_locked ini d \<longleftrightarrow> sess_state (sd_sess (side ini d)) = SESSION_LOCKED \<and> \<not> sd_locked (side ini d)"

definition control_handler_initiator :: "crypto_lib \<Rightarrow> env \<Rightarrow> buf_ptr \<Rightarrow> demo \<Rightarrow> demo option" where
  "control_handler_initiator L E p d =
     (let b = pool_mem (dm_pool d) p in
      case packet_parse b of
        None \<Rightarrow> Some (free_buf p d)
      | Some v \<Rightarrow>
          if channel_id v \<noteq> CH_CONTROL then Some (free_buf p d)
          else
            let (taken, d1) = (if sess_state (sd_sess (dm_init d)) = SESSION_LOCKED then demo_locked_control L E True b d else (False, d))
            in if taken then Some (free_buf p d1)
               else
                 let d2 = free_buf p (demo_handshake (handshake_run_as_initiator L (env_seed E) b) True d1)
                 in if \<not> demo_newly_locked True d2 then Some d2
                    else do {
                      d3 \<leftarrow> test_chats L True [0..<5] (upd_side True (\<lambda>s. s\<lparr>sd_locked := True\<rparr>) d2);
                      d4 \<leftarrow> route_test L d3;
                      let d5 = file_start d4;
                      Some (snd (with_side True 0 (port_hop_send_request (peer_addr_of True 0) (local_port (sd_sess (dm_init d5)) + 4)) d5))
                    })"

definition control_handler_responder :: "crypto_lib \<Rightarrow> env \<Rightarrow> buf_ptr \<Rightarrow> demo \<Rightarrow> demo option" where
  "control_handler_responder L E p d =
     (let b = pool_mem (dm_pool d) p; locked = (sess_state (sd_sess (dm_resp d)) = SESSION_LOCKED) in
      case packet_parse b of
        None \<Rightarrow> Some (free_buf p d)
      | Some v \<Rightarrow>
          if channel_id v \<noteq> CH_CONTROL then
            (if channel_id v = CH_ROUTE \<and> locked
             then map_option (\<lambda>(r, e). free_buf p (put_side_ep False 0 e d))
                    (relay_forward_route L b v (dm_routes d) (peer_addr_of False 0) (side_ep False 0 d))
             else if locked \<and> channel_id v = CH_FILE \<and> plength v \<ge> 8 then Some (free_buf p (recv_chunk b v d))
             else Some (free_buf p d))
          else
            let (taken, d1) = (if locked then demo_locked_control L E False b d else (False, d))
            in if taken then Some (free_buf p d1)
               else
                 let d2 = free_buf p (demo_handshake (handshake_run_as_responder L (env_sid E) (env_seed E) b) False d1)
                 in if \<not> demo_newly_locked False d2 then Some d2
                    else test_chats L False [0..<5] ((upd_side False (\<lambda>s. s\<lparr>sd_locked := True\<rparr>) d2)
                      \<lparr>dm_routes := snd (route_table_add RELAY_NODE_RESPONDER
                         (session_id (sd_sess (dm_resp d2)), Some (peer_addr_of False 0, of_nat SOCKADDR_IN6_SIZE)) route_table_init)\<rparr>))"

section \<open>The main loop\<close>

definition demo_handler :: "crypto_lib \<Rightarrow> env \<Rightarrow> bool \<Rightarrow> buf_ptr \<Rightarrow> demo \<Rightarrow> demo option" where
  "demo_handler L E ini = (if ini then control_handler_initiator L E else control_handler_responder L E)"

definition demo_world :: "bool \<Rightarrow> nat \<Rightarrow> demo \<Rightarrow> rx_world" where
  "demo_world ini k d =
     \<lparr>w_pool = dm_pool d, w_off = dm_off d, w_aa = dm_aa d, w_kf = dm_kf d, w_sess = sd_sess (side ini d), w_rxq = sd_rxq (side ini d) ! k,
      w_recovered = None,
      w_view = \<lparr>magic = 0, version = 0, flags = 0, view_session_id = 0, channel_id = 0, seq = 0, plength = 0, payload = 0,
                nonce = replicate AEAD_NONCE_SIZE 0, tag = replicate AEAD_TAG_SIZE 0, encrypted = False, path_idx = 0\<rparr>\<rparr>"

definition put_demo_world :: "bool \<Rightarrow> nat \<Rightarrow> rx_world \<Rightarrow> demo \<Rightarrow> demo" where
  "put_demo_world ini k w d =
     upd_side ini (\<lambda>s. s\<lparr>sd_sess := w_sess w, sd_rxq := (sd_rxq s)[k := w_rxq w]\<rparr>)
       (d\<lparr>dm_pool := w_pool w, dm_off := w_off w, dm_aa := w_aa w, dm_kf := w_kf w\<rparr>)"

text \<open>The packet at the ring of one path, and the packet that was recovered with it.\<close>

definition demo_rx :: "crypto_lib \<Rightarrow> env \<Rightarrow> bool \<Rightarrow> nat \<Rightarrow> demo \<Rightarrow> demo option" where
  "demo_rx L E ini k d =
     (case ring_pop (sd_rings (side ini d) ! k) of
        (None, _) \<Rightarrow> Some d
      | (Some p, r) \<Rightarrow> do {
          let d1 = upd_side ini (\<lambda>s. s\<lparr>sd_rings := (sd_rings s)[k := r]\<rparr>) d;
          (res, w) \<leftarrow> pipeline_inbound_process L (now_ms E) p (demo_world ini k d1);
          let d2 = put_demo_world ini k w d1;
          d3 \<leftarrow> (if res = PIPELINE_OK then demo_handler L E ini p d2 else Some (free_buf p d2));
          (case w_recovered w of None \<Rightarrow> Some d3 | Some q \<Rightarrow> demo_handler L E ini q d3)
        })"

definition demo_abr :: "env \<Rightarrow> bool \<Rightarrow> demo \<Rightarrow> demo" where
  "demo_abr E ini =
     upd_side ini (\<lambda>s. let (_, c, r) = abr_update (sd_abr s) (resilience (sd_sess s)) (now_ms E)
                       in s\<lparr>sd_abr := c, sd_sess := (sd_sess s)\<lparr>resilience := r\<rparr>\<rparr>)"

definition demo_liveness :: "env \<Rightarrow> demo \<Rightarrow> demo" where
  "demo_liveness E d =
     (let d1 = snd (with_side True 0 (heartbeat_tick (now_ms E)) d);
          d2 = snd (with_side False 0 (heartbeat_tick (now_ms E)) d1);
          d3 = snd (with_side True 0 (reconnect_tick (now_ms E)) d2)
      in snd (with_side False 0 (reconnect_tick (now_ms E)) d3))"

text \<open>The work after the packets: counters, adaptive error correction, heartbeats and the file.\<close>

definition demo_periodic :: "env \<Rightarrow> demo \<Rightarrow> demo" where
  "demo_periodic E d =
     (let t = (if dm_ticks d + 1 \<ge> 100 then 0 else dm_ticks d + 1);
          d1 = d\<lparr>dm_ticks := t\<rparr>;
          d2 = (if t mod 30 = 0 then demo_abr E False (demo_abr E True d1) else d1);
          d3 = (if t mod 10 = 0 then demo_liveness E d2 else d2)
      in file_tick d3)"

definition demo_round :: "crypto_lib \<Rightarrow> env \<Rightarrow> demo \<Rightarrow> demo option" where
  "demo_round L E d = do {
     d1 \<leftarrow> demo_rx L E True 0 d;
     d2 \<leftarrow> demo_rx L E False 0 d1;
     d3 \<leftarrow> demo_rx L E True 1 d2;
     d4 \<leftarrow> demo_rx L E False 1 d3;
     Some (demo_periodic E d4)
   }"

section \<open>Start\<close>

text \<open>A session for the peer of a side, with its local port and two paths.\<close>

definition demo_session :: "bool \<Rightarrow> session_table \<Rightarrow> (session \<times> session_table) option" where
  "demo_session ini t =
     (case session_alloc_for_peer t (peer_addr_of ini 0) (if ini then SESSION_DIR_OUTBOUND else SESSION_DIR_INBOUND) of
        Some (Some i, t1) \<Rightarrow>
          let s = snd (session_register_path ((sess_pool t1 ! i)\<lparr>local_port := (if ini then 9001 else 9002)\<rparr>) 1 (peer_addr_of ini 1));
              r = resilience s;
              ps = (paths r)[0 := (paths r ! 0)\<lparr>path_metrics.peer_port := htons (if ini then 9002 else 9001)\<rparr>]
          in Some (s\<lparr>resilience := r\<lparr>path_count := 2, multipath_enabled := True,
                      paths := ps[1 := (ps ! 1)\<lparr>path_metrics.peer_port := htons (if ini then 9004 else 9003)\<rparr>]\<rparr>\<rparr>, t1)
      | _ \<Rightarrow> None)"

definition init_side :: "demo_side \<Rightarrow> demo_side" where
  "init_side s = s\<lparr>sd_rings := map ring_init (sd_rings s), sd_rxq := map rx_queues_init (sd_rxq s), sd_txq := map tx_queues_init (sd_txq s),
     sd_abr := abr_init\<rparr>"

text \<open>The sessions are put in place and the hello is queued on the first path of the initiator.\<close>

definition demo_hello :: "crypto_lib \<Rightarrow> session \<Rightarrow> session \<Rightarrow> demo \<Rightarrow> bool \<times> demo" where
  "demo_hello L si sr d =
     (let (hello, q, si1, sq) = handshake_build_hello L (dm_pool d) si (sd_seq (dm_init d));
          d1 = (upd_side True (\<lambda>s. s\<lparr>sd_sess := si1, sd_seq := sq\<rparr>) (upd_sd_sess False (\<lambda>_. sr) d))\<lparr>dm_pool := q\<rparr>
      in case hello of
           None \<Rightarrow> (False, d1)
         | Some p \<Rightarrow> (True, snd (with_side True 0 (\<lambda>e. ((), push_control p e))
                       (d1\<lparr>dm_pool := buf_update p (set_dest (peer_addr_of True 0) SOCKADDR_IN6_SIZE) (dm_pool d1)\<rparr>))))"

text \<open>
  The part of \<open>transport_engine_run_demo\<close> before the loop; the result is the status with which the program ends
  when it is not 0. The rings of the second paths are set up after the hello was queued on the first one, which makes no difference.
\<close>

definition demo_start :: "crypto_lib \<Rightarrow> env \<Rightarrow> demo \<Rightarrow> int \<times> demo" where
  "demo_start L E d =
     (let d0 = d\<lparr>dm_init := init_side (dm_init d), dm_resp := init_side (dm_resp d), dm_ticks := 0, dm_store := secure_store_init (env_identity_key E) (dm_store d),
                 dm_pool := pool_init (env_malloc E), dm_routes := route_table_init, dm_kf := kernel_filter_init, dm_aa := anti_analysis_init,
                 dm_off := offensive_init, dm_monitor := snd (monitor_start (env_thread E ''monitor'') (dm_monitor d))\<rparr>
      in case demo_session True (dm_table d0) of
           None \<Rightarrow> (1, d0)
         | Some (si, t1) \<Rightarrow>
             let (key, st) = secure_store_get_identity_key (env_identity_key E) (dm_store d0);
                 (_, si1, stats) = handshake_init_initiator (env_sid E) key KEM_TYPE_MLKEM_768 si (dm_stats d0);
                 d1 = upd_sd_sess True (\<lambda>_. si1) (d0\<lparr>dm_table := t1, dm_store := st, dm_stats := stats\<rparr>)
             in case demo_session False t1 of
                  None \<Rightarrow> (1, d1)
                | Some (sr, t2) \<Rightarrow>
                    let (_, sr1) = handshake_init_responder key KEM_TYPE_MLKEM_768 sr;
                        (ok, d2) = demo_hello L si1 sr1 (d1\<lparr>dm_table := t2\<rparr>)
                    in if \<not> ok then (1, d2)
                       else if \<not> list_all (env_bind E) [9001, 9002, 9003, 9004] then (1, d2)
                       else if \<not> list_all (env_thread E) [''init-p0'', ''resp-p0'', ''init-p1'', ''resp-p1'', ''tx'', ''tx-b'', ''tx-a1'', ''tx-b1''] then (1, d2)
                       else (0, d2))"

text \<open>The receive and the transmit thread of a path.\<close>

definition demo_rx_turn :: "bool \<Rightarrow> nat \<Rightarrow> datagram list \<Rightarrow> demo \<Rightarrow> demo" where
  "demo_rx_turn ini k inbox d =
     (let (rest, q, r) = rx_thread_fn inbox (dm_pool d) (sd_rings (side ini d) ! k)
      in upd_side ini (\<lambda>s. s\<lparr>sd_rings := (sd_rings s)[k := r]\<rparr>) (d\<lparr>dm_pool := q\<rparr>))"

definition demo_tx_turn :: "bool \<Rightarrow> nat \<Rightarrow> demo \<Rightarrow> (datagram list \<times> demo) option" where
  "demo_tx_turn ini k d =
     map_option (\<lambda>(gs, qs, q). (gs, upd_side ini (\<lambda>s. s\<lparr>sd_txq := (sd_txq s)[k := qs]\<rparr>) (d\<lparr>dm_pool := q\<rparr>)))
       (tx_thread_fn (sd_txq (side ini d) ! k) (dm_pool d))"

inductive demo_step :: "crypto_lib \<Rightarrow> demo \<Rightarrow> demo \<Rightarrow> bool" for L :: crypto_lib where
  demo_step_round: "demo_round L E d = Some d' \<Longrightarrow> demo_step L d d'"
| demo_step_rx: "demo_step L d (demo_rx_turn ini k inbox d)"
| demo_step_tx: "demo_tx_turn ini k d = Some (gs, d') \<Longrightarrow> demo_step L d d'"

section \<open>Both sessions stay verified\<close>

definition demo_ok :: "demo \<Rightarrow> bool" where
  "demo_ok d \<longleftrightarrow> verified (sd_sess (dm_init d)) \<and> verified (sd_sess (dm_resp d))"

named_theorems demo_ok_intros "operations of the demonstration that keep its sessions verified"

lemma demo_ok_fields [simp]:
  "demo_ok (d\<lparr>dm_pool := q\<rparr>) = demo_ok d" "demo_ok (d\<lparr>dm_off := off\<rparr>) = demo_ok d" "demo_ok (d\<lparr>dm_aa := aa\<rparr>) = demo_ok d"
  "demo_ok (d\<lparr>dm_kf := kf\<rparr>) = demo_ok d" "demo_ok (d\<lparr>dm_stats := st\<rparr>) = demo_ok d" "demo_ok (d\<lparr>dm_routes := rt\<rparr>) = demo_ok d"
  "demo_ok (d\<lparr>dm_route_sent := b\<rparr>) = demo_ok d" "demo_ok (d\<lparr>dm_ft := ft\<rparr>) = demo_ok d" "demo_ok (d\<lparr>dm_fs := fs\<rparr>) = demo_ok d"
  "demo_ok (d\<lparr>dm_ticks := t\<rparr>) = demo_ok d" "demo_ok (d\<lparr>dm_table := tb\<rparr>) = demo_ok d" "demo_ok (d\<lparr>dm_store := ks\<rparr>) = demo_ok d"
  "demo_ok (d\<lparr>dm_monitor := m\<rparr>) = demo_ok d" "demo_ok (free_buf p d) = demo_ok d"
  by (simp_all add: demo_ok_def free_buf_def)

lemma demo_ok_side: "demo_ok d \<Longrightarrow> verified (sd_sess (side ini d))"
  by (simp add: demo_ok_def side_def)

lemma demo_ok_upd_side:
  assumes "demo_ok d" "verified (sd_sess (side ini d)) \<Longrightarrow> verified (sd_sess (f (side ini d)))"
  shows "demo_ok (upd_side ini f d)"
  using assms by (auto simp: demo_ok_def upd_side_def side_def)

lemma verified_ignore [simp]: "verified (s\<lparr>ignore_heartbeats_until_ms := t\<rparr>) = verified s"
  by (simp add: verified_def)

lemma demo_ok_sess: "\<lbrakk> demo_ok d; \<And>s. verified s \<Longrightarrow> verified (f s) \<rbrakk> \<Longrightarrow> demo_ok (upd_sd_sess ini f d)"
  unfolding upd_sd_sess_def by (rule demo_ok_upd_side) auto

lemma demo_ok_put_ep [demo_ok_intros]: "\<lbrakk> demo_ok d; verified (ep_sess e) \<rbrakk> \<Longrightarrow> demo_ok (put_side_ep ini k e d)"
  unfolding put_side_ep_def by (rule demo_ok_upd_side) auto

lemma side_ep_sess [simp]: "ep_sess (side_ep ini k d) = sd_sess (side ini d)"
  by (simp add: side_ep_def Let_def)

lemma demo_ok_with_side [demo_ok_intros]:
  assumes "demo_ok d" "keeps_verified f"
  shows "demo_ok (snd (with_side ini k f d))"
  using assms demo_ok_side [OF assms(1)] by (auto simp: with_side_def split_beta Let_def keeps_verified_def intro!: demo_ok_put_ep)

lemma demo_ok_test_chat [demo_ok_intros]:
  assumes "demo_ok d" "test_chat L ini i d = Some d'"
  shows "demo_ok d'"
proof -
  define k where "k = (if resilience_select_path (resilience (sd_sess (side ini d))) \<ge> 2 then 0 else resilience_select_path (resilience (sd_sess (side ini d))))"
  define d1 where "d1 = upd_sd_sess ini (\<lambda>s. s\<lparr>resilience := resilience_record_tx (resilience s) k\<rparr>) d"
  have d1: "demo_ok d1" unfolding d1_def using assms(1) by (rule demo_ok_sess) simp
  have e: "verified (ep_sess e)" if "build_chat_packet msg (side_ep ini k d1) = Some (x, e)" for msg x e
    using chat_sess(1) [OF that] demo_ok_side [OF d1] by simp
  have f: "verified (ep_sess e2)"
    if "build_chat_packet msg (side_ep ini k d1) = Some (x, e)" "encrypt_tx_packet L p e = Some (r, e1)" "fec_tx_after_encrypt p a e1 = Some e2" for msg x e p r e1 a e2
    using e [OF that(1)] chat_sess(2) [OF that(2)] fec_tx_sess [OF that(3)] by simp
  have c: "verified (ep_sess (push_control p e)) = verified (ep_sess e)" for p e by (simp add: push_control_def split: prod.split)
  from assms(2) show ?thesis
    unfolding test_chat_def Let_def k_def [symmetric] d1_def [symmetric]
    by (auto simp: c split: option.splits bind_splits prod.splits intro!: demo_ok_put_ep [OF d1] intro: e f)
qed

lemma demo_ok_test_chats [demo_ok_intros]: "\<lbrakk> test_chats L ini is d = Some d'; demo_ok d \<rbrakk> \<Longrightarrow> demo_ok d'"
  by (induction "is" arbitrary: d) (auto split: option.splits intro: demo_ok_test_chat)

lemma demo_ok_route_test [demo_ok_intros]:
  assumes "demo_ok d" "route_test L d = Some d'"
  shows "demo_ok d'"
proof -
  have "ep_sess e' = ep_sess e" if "relay_build_test_packet L k m e = Some (r, p, e')" for k m e r p e'
    using that by (auto simp: relay_build_test_packet_def Let_def split: prod.splits option.splits if_splits)
  then have "verified (ep_sess e)" if "relay_build_test_packet L k m (side_ep True 0 (d\<lparr>dm_route_sent := True\<rparr>)) = Some (r, p, e)" for k m r p e
    using that demo_ok_side [of "d\<lparr>dm_route_sent := True\<rparr>" True] assms(1) by fastforce
  then show ?thesis
    using assms by (auto simp: route_test_def push_chat_def Let_def intro!: demo_ok_put_ep split: option.splits prod.splits if_splits)
qed

lemma demo_ok_files [demo_ok_intros]: "demo_ok d \<Longrightarrow> demo_ok (file_start d)" "demo_ok d \<Longrightarrow> demo_ok (recv_chunk b v d)"
  by (simp_all add: file_start_def recv_chunk_def Let_def split: option.split)

lemma demo_ok_file_tick [demo_ok_intros]: "demo_ok d \<Longrightarrow> demo_ok (file_tick d)"
  by (auto simp: file_tick_def Let_def intro!: demo_ok_upd_side split: prod.split option.split)

lemma demo_ok_handshake [demo_ok_intros]:
  assumes "demo_ok d" "\<And>w. verified (hw_sess w) \<Longrightarrow> verified (hw_sess (snd (run w)))"
  shows "demo_ok (demo_handshake run ini d)"
proof -
  let ?w = "snd (run \<lparr>hw_sess = sd_sess (side ini d), hw_stats = dm_stats d, hw_pool = dm_pool d, hw_seq = sd_seq (side ini d)\<rparr>)"
  have "verified (hw_sess ?w)" using assms(2) demo_ok_side [OF assms(1)] by simp
  then have "demo_ok (upd_side ini (\<lambda>s. s\<lparr>sd_sess := hw_sess ?w, sd_seq := hw_seq ?w\<rparr>) (d\<lparr>dm_stats := hw_stats ?w, dm_pool := hw_pool ?w\<rparr>))"
    using assms(1) by (intro demo_ok_upd_side) auto
  then show ?thesis
    unfolding demo_handshake_def Let_def split_beta by (auto intro!: demo_ok_with_side send_verified split: option.split)
qed

lemma demo_ok_locked [demo_ok_intros]:
  assumes "demo_ok d"
  shows "demo_ok (snd (demo_locked_control L E ini b d))"
proof -
  have l: "demo_ok x \<Longrightarrow> demo_ok (simulate_loss now x)" for x now
    unfolding simulate_loss_def by (intro demo_ok_sess) simp_all
  have i: "demo_ok x \<Longrightarrow> demo_ok (upd_sd_sess True (\<lambda>s. s\<lparr>ignore_heartbeats_until_ms := 0\<rparr>) x)" for x
    by (rule demo_ok_sess) simp_all
  note w = demo_ok_with_side [OF _ heartbeat_verified(1)] demo_ok_with_side [OF _ reconnect_verified(1)] demo_ok_with_side [OF _ hop_verified]
    demo_ok_with_side [OF _ rekey_verified]
  show ?thesis
    unfolding demo_locked_control_def Let_def split_beta using assms by (auto intro!: w l i)
qed

lemma demo_ok_initiator [demo_ok_intros]:
  assumes "demo_ok d" "control_handler_initiator L E p d = Some d'"
  shows "demo_ok d'"
proof -
  note h = demo_ok_handshake [OF _ run_verified(1)] demo_ok_locked [OF assms(1)]
  have m: "demo_ok (upd_side True (\<lambda>s. s\<lparr>sd_locked := True\<rparr>) x)" if "demo_ok x" for x
    using that by (rule demo_ok_upd_side) simp
  have f: "demo_ok (snd (with_side True 0 (port_hop_send_request a q) (file_start x4)))"
    if "test_chats L True is (upd_side True (\<lambda>s. s\<lparr>sd_locked := True\<rparr>) x) = Some x3" "route_test L x3 = Some x4" "demo_ok x" for a q x x3 x4 "is"
    using that m by (intro demo_ok_with_side send_verified demo_ok_files) (blast intro: demo_ok_route_test demo_ok_test_chats)
  show ?thesis
    using assms h
    by (auto simp: control_handler_initiator_def Let_def split_beta split: option.splits if_splits bind_splits intro!: f)
qed

lemma demo_ok_responder [demo_ok_intros]:
  assumes "demo_ok d" "control_handler_responder L E p d = Some d'"
  shows "demo_ok d'"
proof -
  note h = demo_ok_handshake [OF _ run_verified(2)] demo_ok_locked [OF assms(1)]
  have m: "demo_ok (upd_side False (\<lambda>s. s\<lparr>sd_locked := True\<rparr>) x)" if "demo_ok x" for x
    using that by (rule demo_ok_upd_side) simp
  have r: "demo_ok (put_side_ep False 0 e d)" if "relay_forward_route L b v rt a (side_ep False 0 d) = Some (x, e)" for b v rt a x e
    using relay_sess [OF that] demo_ok_side [OF assms(1)] by (intro demo_ok_put_ep assms(1)) simp
  show ?thesis
    using assms h
    by (auto simp: control_handler_responder_def Let_def split_beta split: option.splits if_splits intro: r demo_ok_files
        elim!: demo_ok_test_chats intro!: m)
qed

lemma seq_check_verified: "verified (snd (seq_check s v)) = verified s"
  by (simp add: seq_check_def Let_def split_beta)

lemma world_checks_verified:
  "verified (w_sess (snd (snd (world_enc_check L p v w)))) = verified (w_sess w)" "verified (w_sess (snd (world_seq_check v w))) = verified (w_sess w)"
  using enc_check_verified [of L "pool_mem (w_pool w) p" v "w_sess w"]
  by (simp_all add: world_enc_check_def world_seq_check_def split_beta Let_def seq_check_verified prod_eq_iff)

lemma recovered_verified: "verified (w_sess (take_recovered L w)) = verified (w_sess w)"
  by (simp add: take_recovered_def process_fec_recovered_def split_beta Let_def world_checks_verified split: option.split)

lemma process_pipeline_verified:
  assumes "pipeline_inbound_process L now p w = Some (res, w')" "verified (w_sess w)"
  shows "verified (w_sess w')"
proof -
  obtain r w1 where w1: "pipeline_inbound_pre_crypto now p w = Some (r, w1)"
    using assms(1) by (auto simp: pipeline_inbound_process_def split: option.splits)
  have "verified (w_sess w1)" by (rule pre_crypto_verified [OF w1 assms(2)])
  then have "verified (w_sess (snd (pipeline_inbound_post_crypto L p w1)))"
    by (simp add: pipeline_inbound_post_crypto_def split_beta Let_def world_checks_verified recovered_verified)
  then show ?thesis using assms(1) w1 \<open>verified (w_sess w1)\<close>
    by (auto simp: pipeline_inbound_process_def split: if_splits)
qed

lemma demo_ok_handler: "\<lbrakk> demo_ok d; demo_handler L E ini p d = Some d' \<rbrakk> \<Longrightarrow> demo_ok d'"
  by (auto simp: demo_handler_def split: if_splits intro: demo_ok_initiator demo_ok_responder)

lemma demo_ok_rx [demo_ok_intros]:
  assumes "demo_ok d" "demo_rx L E ini k d = Some d'"
  shows "demo_ok d'"
proof (cases "ring_pop (sd_rings (side ini d) ! k)")
  case (Pair x r)
  define d1 where "d1 = upd_side ini (\<lambda>s. s\<lparr>sd_rings := (sd_rings s)[k := r]\<rparr>) d"
  have d1: "demo_ok d1" unfolding d1_def using assms(1) by (rule demo_ok_upd_side) simp
  have "verified (w_sess (demo_world ini k d1))" using demo_ok_side [OF d1] by (simp add: demo_world_def)
  then have w: "demo_ok (put_demo_world ini k w d1)" if "pipeline_inbound_process L now p (demo_world ini k d1) = Some (res, w)" for now p res w
    unfolding put_demo_world_def using d1 process_pipeline_verified [OF that] by (intro demo_ok_upd_side) auto
  show ?thesis
    using assms Pair d1 w
    by (auto simp: demo_rx_def Let_def d1_def [symmetric] split: option.splits bind_splits if_splits intro: demo_ok_handler)
       (metis demo_ok_handler demo_ok_fields(14))+
qed

lemma demo_ok_periodic [demo_ok_intros]:
  assumes "demo_ok d"
  shows "demo_ok (demo_periodic E d)"
proof -
  have a: "demo_ok (demo_abr E ini x)" if "demo_ok x" for ini x
    unfolding demo_abr_def using that by (intro demo_ok_upd_side) (simp_all add: Let_def split_beta)
  have l: "demo_ok (demo_liveness E x)" if "demo_ok x" for x
    unfolding demo_liveness_def Let_def using that by (intro demo_ok_with_side heartbeat_verified reconnect_verified)
  have "demo_ok (if b then demo_abr E False (demo_abr E True (d\<lparr>dm_ticks := t\<rparr>)) else d\<lparr>dm_ticks := t\<rparr>)" for b t
    using assms a by simp
  then show ?thesis unfolding demo_periodic_def Let_def by (intro demo_ok_file_tick) (simp only: l simp_thms split: if_split)
qed

lemma demo_ok_round [demo_ok_intros]: "\<lbrakk> demo_ok d; demo_round L E d = Some d' \<rbrakk> \<Longrightarrow> demo_ok d'"
  by (auto simp: demo_round_def split: bind_splits intro!: demo_ok_periodic) (blast intro: demo_ok_rx)

definition demo_boot :: "crypto_lib \<Rightarrow> demo \<Rightarrow> bool" where
  "demo_boot L d \<longleftrightarrow> (\<exists>E d0. demo_start L E d0 = (0, d))"

lemma demo_ok_hello:
  assumes "verified si" "verified sr"
  shows "demo_ok (snd (demo_hello L si sr d))"
proof -
  have h: "verified (fst (snd (snd (handshake_build_hello L q si sq))))" for q sq
    using assms(1) by (simp add: handshake_build_hello_def update_transcript_def verified_def split: prod.split option.split)
  have "demo_ok (upd_side True (\<lambda>s. s\<lparr>sd_sess := s1, sd_seq := sq\<rparr>) (upd_sd_sess False (\<lambda>_. sr) d))" if "verified s1" for s1 sq
    using that assms(2) by (simp add: demo_ok_def upd_side_def upd_sd_sess_def)
  then show ?thesis
    unfolding demo_hello_def Let_def split_beta by (auto simp: h intro!: demo_ok_with_side send_verified split: option.split)
qed

lemma demo_ok_start:
  assumes "demo_start L E d0 = (0, d)"
  shows "demo_ok d"
proof -
  have "verified (fst (snd (handshake_init_initiator sid key KEM_TYPE_MLKEM_768 s st)))"
    "verified (snd (handshake_init_responder key KEM_TYPE_MLKEM_768 s))" for sid key s st
    by (simp_all add: handshake_init_initiator_def handshake_init_responder_def Let_def verified_def)
  from demo_ok_hello [OF this] show ?thesis
    using assms unfolding demo_start_def Let_def split_beta by (auto split: option.splits if_splits)
qed

lemma demo_step_ok: "\<lbrakk> demo_ok d; demo_step L d d' \<rbrakk> \<Longrightarrow> demo_ok d'"
  by (auto elim!: demo_step.cases intro: demo_ok_round intro!: demo_ok_upd_side simp: demo_rx_turn_def demo_tx_turn_def split_beta)

interpretation demo_runs: invariant_system "demo_boot L" "demo_step L" demo_ok for L
  by unfold_locales (auto simp: demo_boot_def intro: demo_ok_start demo_step_ok)

text \<open>
  C21: In every state of the demonstration, whatever datagrams arrive at the four sockets and however its rounds and the
  receive and transmit threads follow each other, a side whose session is locked has verified the identity of the other.
\<close>

theorem demo_locked_verified:
  assumes "reach (demo_boot L) (demo_step L) d"
  shows "sess_state (sd_sess (side ini d)) = SESSION_LOCKED \<longrightarrow> identity_verified (hs (sd_sess (side ini d)))"
  using demo_ok_side [OF demo_runs.reach_inv [OF assms]] by (simp add: verified_def)

section \<open>The file of the demonstration\<close>

text \<open>The initiator has just started the transfer, and there is room for the packet.\<close>

definition file_ready :: "demo \<Rightarrow> bool" where
  "file_ready d \<longleftrightarrow>
     (let ft = dm_ft d; s = dm_init d in
      ft_sending ft \<and> ft_send_offset ft = 0 \<and> ft_send_chunk_seq ft = 0 \<and> ft_total_size ft = 1024 \<and>
      sess_state (sd_sess s) = SESSION_LOCKED \<and> open_read (dm_fs d) DEMO_FILE_PATH = Some demo_content \<and>
      pool_ok (dm_pool d) \<and> free_bufs (dm_pool d) \<noteq> [] \<and> (\<forall>p. buf_ok (pool_mem (dm_pool d) p)) \<and>
      sd_txq s \<noteq> [] \<and> ring_ok (tx_file (sd_txq s ! 0)) \<and> length (ring_contents (tx_file (sd_txq s ! 0))) < RING_SIZE - 1)"

lemma mem_write_join: "k + length xs \<le> length d \<Longrightarrow> mem_write (k + length xs) ys (mem_write k xs d) = mem_write k (xs @ ys) d"
  by (simp add: mem_write_def add.commute add.left_commute)

abbreviation demo_payload :: bytes where
  "demo_payload \<equiv> le_bytes 4 (0 :: u32) @ le_bytes 4 (1024 :: u32) @ demo_content"

lemma length_demo [simp]: "length demo_content = 1024"
  by (simp add: demo_content_def)

lemma file_tick_sends:
  assumes "file_ready d"
  shows "\<exists>p b. ring_contents (tx_file (sd_txq (dm_init (file_tick d)) ! 0)) = ring_contents (tx_file (sd_txq (dm_init d) ! 0)) @ [p] \<and>
    buf_ok b \<and> pool_mem (dm_pool (file_tick d)) p = set_dest (peer_addr_of True 0) SOCKADDR_IN6_SIZE
      (chan_packet (session_id (sd_sess (dm_init d))) CH_FILE demo_payload (sd_seq (dm_init d)) b) \<and>
    ft_send_done (dm_ft (file_tick d)) \<and> ft_checksum (dm_ft (file_tick d)) = ft_checksum (dm_ft d)"
proof -
  let ?s = "dm_init d"
  note f = assms [unfolded file_ready_def Let_def]
  obtain p q where q: "pool_get (dm_pool d) = (Some p, q)" "pool_mem q = pool_mem (dm_pool d)"
    using packet_pool.get_some [of "dm_pool d"] f pool_get_mem [of "dm_pool d"] by auto
  obtain r where r: "ring_push (tx_file (sd_txq ?s ! 0)) p = (0, r)" "ring_contents r = ring_contents (tx_file (sd_txq ?s ! 0)) @ [p]"
    using spsc.push_accept [of "tx_file (sd_txq ?s ! 0)" p] f by auto
  let ?b = "pool_mem q p"
  have b: "buf_ok ?b" "length (data ?b) = 1500" using f q(2) by (auto simp: buf_ok_def)
  let ?h = "chan_fields (session_id (sd_sess ?s)) CH_FILE (sd_seq ?s) 1032 (data ?b)"
  have l: "length ?h = 1500" using chan_fields_reads(1) [of "data ?b"] b(2) by simp
  have m: "mem_write 32 demo_content (mem_write 28 (le_bytes 4 (1024 :: u32)) (mem_write 24 (le_bytes 4 (0 :: u32)) ?h)) = mem_write 24 demo_payload ?h"
    using mem_write_join [of 24 "le_bytes 4 (0 :: u32)" ?h "le_bytes 4 (1024 :: u32)"]
      mem_write_join [of 24 "le_bytes 4 (0 :: u32) @ le_bytes 4 (1024 :: u32)" ?h demo_content] l by (simp add: wire_simps)
  let ?p = "chan_packet (session_id (sd_sess ?s)) CH_FILE demo_payload (sd_seq ?s) ?b"
  have c: "set_dest a n (?b\<lparr>data := mem_write 24 demo_payload ?h, len := 1056\<rparr>) = set_dest a n ?p" for a n
    by (simp add: chan_packet_def wire_simps)
  have "file_tick d = (upd_side True (\<lambda>s. s\<lparr>sd_seq := sd_seq s + 1, sd_txq := (sd_txq s)[0 := (sd_txq s ! 0)\<lparr>tx_file := r\<rparr>]\<rparr>) d)
      \<lparr>dm_pool := buf_update p (\<lambda>_. set_dest (peer_addr_of True 0) SOCKADDR_IN6_SIZE ?p) q,
       dm_ft := (dm_ft d)\<lparr>ft_send_offset := 1024, ft_send_chunk_seq := 1, ft_sending := False, ft_send_done := True\<rparr>\<rparr>"
    using f q(1) r(1) by (simp add: file_tick_def Let_def upd_side_def m c)
  then show ?thesis
    using f r(2) b(1) by (intro exI [of _ p] exI [of _ ?b]) (simp add: upd_side_def buf_update_def)
qed

text \<open>The responder has received nothing yet and may write its file.\<close>

definition file_expected :: "demo \<Rightarrow> bool" where
  "file_expected d \<longleftrightarrow> sess_state (sd_sess (dm_resp d)) = SESSION_LOCKED \<and> \<not> ft_recving (dm_ft d) \<and> fs_access (dm_fs d) DEMO_FILE_RCV"

lemma recv_demo_chunk:
  assumes "file_expected d" "payload v = 24" "plength v = 1032" "mem_read 24 1032 (data b) = demo_payload"
  shows "files (dm_fs (recv_chunk b v d)) DEMO_FILE_RCV = Some demo_content \<and> ft_done (dm_ft (recv_chunk b v d)) \<and>
    ft_recv_checksum (dm_ft (recv_chunk b v d)) = file_checksum demo_content"
proof -
  have r: "mem_read (24 + i) n (data b) = take n (drop i demo_payload)" if "i + n \<le> 1032" for i n
    using that by (simp add: assms(4) [symmetric] mem_read_def drop_take min_def add.commute)
  have "mem_read 24 4 (data b) = le_bytes 4 (0 :: u32)" "mem_read 28 4 (data b) = le_bytes 4 (1024 :: u32)" "mem_read 32 1024 (data b) = demo_content"
    using r [of 0 4] r [of 4 4] r [of 8 1024] by (simp_all add: wire_simps)
  moreover have "demo_content \<noteq> []" by (metis length_demo list.size(3) zero_neq_numeral)
  moreover have "file_write 0 demo_content [] = demo_content" by (simp add: file_write_def)
  ultimately show ?thesis
    using assms(1-3) by (simp add: recv_chunk_def file_expected_def Let_def wire_simps file_checksum_def)
qed

text \<open>
  C22: The file of the demonstration arrives. When the transfer was just started and there is room, the next round of the initiator
  queues one packet and notes that everything is sent; and a responder that gets this packet, in whatever
  buffer, ends up with a file of exactly the same content and the checksum that the initiator computed.
\<close>

theorem demo_file_arrives:
  assumes d: "file_ready d" "ft_checksum (dm_ft d) = file_checksum demo_content"
    and e: "file_expected e" "pool_mem (dm_pool e) q = pool_mem (dm_pool (file_tick d)) (last (ring_contents (tx_file (sd_txq (dm_init (file_tick d)) ! 0))))"
  shows "ft_send_done (dm_ft (file_tick d)) \<and> (\<exists>e'. control_handler_responder L E q e = Some e' \<and>
    files (dm_fs e') DEMO_FILE_RCV = files (dm_fs d) DEMO_FILE_PATH \<and> ft_done (dm_ft e') \<and>
    ft_recv_checksum (dm_ft e') = ft_checksum (dm_ft (file_tick d)))"
proof -
  obtain p b where p: "ring_contents (tx_file (sd_txq (dm_init (file_tick d)) ! 0)) = ring_contents (tx_file (sd_txq (dm_init d) ! 0)) @ [p]"
    "buf_ok b" "pool_mem (dm_pool (file_tick d)) p = set_dest (peer_addr_of True 0) SOCKADDR_IN6_SIZE
      (chan_packet (session_id (sd_sess (dm_init d))) CH_FILE demo_payload (sd_seq (dm_init d)) b)"
    "ft_send_done (dm_ft (file_tick d))" "ft_checksum (dm_ft (file_tick d)) = ft_checksum (dm_ft d)"
    using file_tick_sends [OF d(1)] by blast
  let ?c = "chan_packet (session_id (sd_sess (dm_init d))) CH_FILE demo_payload (sd_seq (dm_init d)) b"
  have m: "pool_mem (dm_pool e) q = set_dest (peer_addr_of True 0) SOCKADDR_IN6_SIZE ?c" using e(2) p(1,3) by simp
  have ld: "length demo_payload = 1032" by (simp add: wire_simps)
  then have "\<exists>v. packet_parse ?c = Some v \<and> channel_id v = CH_FILE \<and> plength v = length demo_payload \<and> payload v = HEADER_SIZE \<and> view_payload ?c v = demo_payload"
    using chan_packet_parse [OF p(2), of demo_payload "session_id (sd_sess (dm_init d))" CH_FILE "sd_seq (dm_init d)"] by auto
  then obtain v where v: "packet_parse ?c = Some v" "channel_id v = CH_FILE" "plength v = 1032" "payload v = 24" "view_payload ?c v = demo_payload"
    using ld by auto
  have "mem_read 24 1032 (data ?c) = demo_payload" using v(3-5) by (simp add: view_payload_def)
  then have "files (dm_fs (recv_chunk (pool_mem (dm_pool e) q) v e)) DEMO_FILE_RCV = Some demo_content \<and> ft_done (dm_ft (recv_chunk (pool_mem (dm_pool e) q) v e)) \<and>
      ft_recv_checksum (dm_ft (recv_chunk (pool_mem (dm_pool e) q) v e)) = file_checksum demo_content"
    using recv_demo_chunk [OF e(1) v(4,3)] m by simp
  moreover have "control_handler_responder L E q e = Some (free_buf q (recv_chunk (pool_mem (dm_pool e) q) v e))"
    using e(1) v(1-3) m by (simp add: control_handler_responder_def file_expected_def Let_def set_dest_parse)
  moreover have "files (dm_fs d) DEMO_FILE_PATH = Some demo_content"
    using d(1) by (simp add: file_ready_def Let_def open_read_def split: if_splits)
  ultimately show ?thesis using p(4,5) d(2) by (simp add: free_buf_def)
qed

section \<open>Samples\<close>

definition side_zero :: "session \<Rightarrow> demo_side" where
  "side_zero s = \<lparr>sd_sess = s, sd_txq = [tx_queues_zero, tx_queues_zero], sd_rings = [buf_ring_zero, buf_ring_zero], sd_rxq = [rx_queues_zero, rx_queues_zero],
     sd_seq = 1, sd_locked = False, sd_abr = abr_zero\<rparr>"

text \<open>The process before the demonstration, with session \<open>s\<close> on both sides.\<close>

definition demo_sample :: "session \<Rightarrow> demo" where
  "demo_sample s = \<lparr>dm_init = side_zero s, dm_resp = side_zero s, dm_pool = \<lparr>pool_mem = (\<lambda>_. buf_sample), free_stack = replicate 4096 7, top = 1\<rparr>,
     dm_off = offensive_init, dm_aa = anti_analysis_init, dm_kf = kernel_filter_init, dm_stats = stats_zero, dm_routes = route_table_init,
     dm_route_sent = False,
     dm_ft = \<lparr>ft_sending = False, ft_send_offset = 0, ft_send_chunk_seq = 0, ft_total_size = 0, ft_total_chunks = 0, ft_recving = False, ft_recv_chunks = 0,
       ft_recv_total_chunks = 0, ft_recv_total_size = 0, ft_checksum = 0, ft_recv_checksum = 0, ft_done = False, ft_send_done = False, ft_verified = False\<rparr>,
     dm_fs = \<lparr>files = (\<lambda>_. None), fs_access = (\<lambda>_. True)\<rparr>, dm_ticks = 0,
     dm_table = \<lparr>sess_pool = replicate MAX_SESSION_ENTRIES session_zero, entries = [], session_count = 0\<rparr>,
     dm_store = \<lparr>identity_key = [], key_initialized = False\<rparr>, dm_monitor = monitor_zero\<rparr>"

lemma demo_sample_starts: "fst (demo_start sample_lib env_sample (demo_sample session_zero)) = 0"
proof -
  have a: "length (peer_addr_of ini k) = 28" for ini k by (simp add: peer_addr_of_def demo_addr_def sockaddr6_def)
  have s: "\<exists>s t1. demo_session ini t = Some (s, t1) \<and> session_count t1 = session_count t + 1" if "session_count t < 32" for ini t
    using that a by (simp add: demo_session_def session_alloc_for_peer_def Let_def)
  obtain si t1 where t1: "demo_session True (dm_table (demo_sample session_zero)) = Some (si, t1)" "session_count t1 = 1"
    using s [of "dm_table (demo_sample session_zero)" True] by (auto simp: demo_sample_def)
  obtain sr t2 where t2: "demo_session False t1 = Some (sr, t2)" using s [of t1 False] t1(2) by auto
  have "fst (demo_hello sample_lib x y d)" if "dm_pool d = pool_init m" for x y d m
    using that by (simp add: demo_hello_def handshake_build_hello_def pool_get_def pool_init_def Let_def split_beta)
  then show ?thesis
    using t1(1) t2 by (simp add: demo_start_def Let_def split_beta env_sample_def upd_sd_sess_def upd_side_def)
qed

theorem demo_locked_verified_witness:
  "let d = snd (demo_start sample_lib env_sample (demo_sample session_zero)); e = demo_rx_turn False 0 [(data buf_sample, addr buf_sample)] d
   in reach (demo_boot sample_lib) (demo_step sample_lib) e \<and>
      (sess_state (sd_sess (side False e)) = SESSION_LOCKED \<longrightarrow> identity_verified (hs (sd_sess (side False e))))"
proof -
  let ?d = "snd (demo_start sample_lib env_sample (demo_sample session_zero))"
  let ?e = "demo_rx_turn False 0 [(data buf_sample, addr buf_sample)] ?d"
  have "demo_start sample_lib env_sample (demo_sample session_zero) = (0, ?d)" using demo_sample_starts by (simp add: prod_eq_iff)
  then have "demo_boot sample_lib ?d" unfolding demo_boot_def by blast
  then have "reach (demo_boot sample_lib) (demo_step sample_lib) ?d" by (rule reach_start)
  then have "reach (demo_boot sample_lib) (demo_step sample_lib) ?e" by (rule reach_step) (rule demo_step_rx)
  then show ?thesis using demo_locked_verified [of sample_lib ?e False] by (simp add: Let_def)
qed

theorem demo_file_arrives_witness:
  "let d = file_start (demo_sample enc_session_sample); q = last (ring_contents (tx_file (sd_txq (dm_init (file_tick d)) ! 0))); e = file_tick d
   in file_ready d \<and> file_expected e \<and> (\<exists>e'. control_handler_responder sample_lib env_sample q e = Some e' \<and>
        files (dm_fs e') DEMO_FILE_RCV = Some demo_content \<and> ft_done (dm_ft e'))"
proof -
  define d where "d = file_start (demo_sample enc_session_sample)"
  have d: "dm_ft d = (dm_ft (demo_sample enc_session_sample))\<lparr>ft_checksum := file_checksum demo_content, ft_total_size := 1024, ft_total_chunks := 1, ft_sending := True\<rparr>"
    "dm_fs d = \<lparr>files = [DEMO_FILE_PATH \<mapsto> demo_content], fs_access = (\<lambda>_. True)\<rparr>" "dm_init d = side_zero enc_session_sample" "dm_resp d = side_zero enc_session_sample"
    "dm_pool d = \<lparr>pool_mem = (\<lambda>_. buf_sample), free_stack = replicate 4096 7, top = 1\<rparr>"
    by (simp_all add: d_def file_start_def demo_sample_def)
  have ft: "\<not> ft_recving (dm_ft d)" "ft_checksum (dm_ft d) = file_checksum demo_content" "ft_sending (dm_ft d)" "ft_send_offset (dm_ft d) = 0"
    "ft_send_chunk_seq (dm_ft d) = 0" "ft_total_size (dm_ft d) = 1024"
    unfolding d(1) by (simp_all add: demo_sample_def)
  have "pool_ok (dm_pool d)" "free_bufs (dm_pool d) \<noteq> []" by (simp_all add: d pool_ok_def free_bufs_def)
  moreover have "ring_ok (tx_file (sd_txq (dm_init d) ! 0))" "length (ring_contents (tx_file (sd_txq (dm_init d) ! 0))) = 0" "sd_txq (dm_init d) \<noteq> []"
    by (simp_all add: d side_zero_def tx_queues_zero_def buf_ring_zero_def ring_ok_def ring_contents_def ring_count_def)
  ultimately have "file_ready d"
    using enc_session_sample_ok(2) buf_sample_ok ft by (simp add: file_ready_def d(2-5) open_read_def) (simp add: side_zero_def)
  moreover have "dm_resp (file_tick d) = dm_resp d" "ft_recving (dm_ft (file_tick d)) = ft_recving (dm_ft d)" "fs_access (dm_fs (file_tick d)) = fs_access (dm_fs d)"
    by (simp_all add: file_tick_def Let_def upd_side_def split: prod.split option.split)
  then have "file_expected (file_tick d)" using enc_session_sample_ok(2) ft(1) by (simp add: file_expected_def d side_zero_def)
  moreover note demo_file_arrives [OF calculation(1) ft(2) calculation(2) refl, of sample_lib env_sample]
  moreover have "files (dm_fs d) DEMO_FILE_PATH = Some demo_content" by (simp add: d)
  ultimately show ?thesis by (auto simp: Let_def d_def [symmetric])
qed

end
