(* ===== verification/Spec2Isabelle.thy ===== *)
theory Spec2Isabelle
  imports Ring_Threads Seq_Check Pipeline Handshake Rekey Liveness Routing Connections Group Config
    File_Transfer Media Conn_Request Identity Engine_Flow File_Flow App_Flow Bpf_Filter Demo
begin

text \<open>
  A verification library for PQCOMM (\<open>src/lib\<close> and \<open>src/app\<close>), a post-quantum secure messenger over UDP
  written in C. The file names below are relative to these two directories.

  \<^bold>\<open>The program.\<close> Received datagrams land in buffers of a fixed pool and travel through
  single-producer single-consumer rings to the inbound pipeline: parse, three filters, static
  checks, session gate, error correction, decryption, replay window, and a queue per channel.
  Outgoing payloads get a header, are encrypted and wait in six queues that the scheduler serves
  by priority. A session is established by a six-message handshake with a key encapsulation
  mechanism and is kept alive by heartbeats, reconnection, port hopping and rekeying. Around this
  core lie relaying, group rooms, file transfer, audio and video calls, connection requests, a
  peer list with discovery in the local network, the local identity and a configuration file. The
  transport engine drives all of it: the application calls it through \<open>transport_api.c\<close> and polls it
  for events, while threads serve the sockets, decrypt and watch for stalls. The application is a
  program for the terminal: it reads keys, draws panels and turns lines and events into calls of that
  interface. It can also run as a daemon without a screen or as a demonstration of two peers in one process.

  \<^bold>\<open>Conventions.\<close> Structures are records, enumerations datatypes, and every C function is one
  definition of the same name over an explicit state. \<open>uint\<close> values that can wrap are words of
  their width, lengths and offsets natural numbers, status codes integers. \<open>None\<close> stands for an
  access outside an array or another undefined behaviour of the C code. Buffers are indices into
  the pool. Time, randomness, environment variables and the file system are arguments. Log output,
  locking of memory and thread creation are left out; what the terminal application draws is modelled. Loss rates are rationals: they
  are multiples of 1/64, which a \<open>float\<close> holds exactly, except in the averages of the route table. The
  cryptographic libraries (liboqs, mbedTLS) are the record \<open>crypto_lib\<close> of functions; theorems that
  need them assume \<open>crypto_lib_ok\<close> (sizes, and that decryption and decapsulation invert encryption and
  encapsulation), and \<open>sample_lib\<close> is an instance.

  \<^bold>\<open>Theories, in the order of their dependencies, with the sources they model.\<close>
  \<^item> \<open>Prelude\<close>: byte memory, little-endian encodings, circular indices, reachable states and the
    interface \<open>invariant_system\<close>.
  \<^item> \<open>Spsc_Ring\<close>, \<open>Ring_Threads\<close> (\<open>core/ring.h\<close>): the ring as a bounded queue (interface of bounded FIFO
    queues, refinement of any run) and every interleaving of producer and consumer.
  \<^item> \<open>Packet_Pool\<close> (\<open>core/pool.c\<close>): the buffer pool as an allocator, and the race of its lock-free
    operations.
  \<^item> \<open>Scheduler\<close> (\<open>core/scheduler.c\<close>, \<open>layers/rx_demux.c\<close>): transmit priority and receive queues.
  \<^item> \<open>Resilience_Ctx\<close>, \<open>Fec\<close> (\<open>core/resilience_ctx.c\<close>): path metrics, loss windows, path selection, and the
    XOR error correction with recovery of a lost packet.
  \<^item> \<open>Session\<close> (\<open>core/session.c\<close>): session state, wiping, registration of paths and the session table.
  \<^item> \<open>Packet_Wire\<close> (\<open>layers/packet_parse.c\<close>, \<open>layers/static_shell.c\<close>): header layout, parser, static checks.
  \<^item> \<open>Seq_Check\<close> (\<open>layers/seq_check.c\<close>): the replay window against the set of accepted numbers.
  \<^item> \<open>Filters\<close> (\<open>layers/offensive.c\<close>, \<open>layers/anti_analysis.c\<close>, \<open>layers/kernel_filter.c\<close>): rate limit, scoring and
    address lists, with the interface of source tables.
  \<^item> \<open>Crypto\<close> (\<open>crypto/aead.c\<close>, \<open>hkdf.c\<close>, \<open>kem.c\<close>, \<open>secure_store.c\<close>): front ends of the primitives, key derivation
    and the key store.
  \<^item> \<open>Session_Gate\<close>, \<open>Session_Enc\<close> (\<open>layers/session_gate.c\<close>, \<open>layers/session_enc.c\<close>): which packets a session takes,
    and the encryption of data packets in place.
  \<^item> \<open>Pipeline\<close> (\<open>pipeline/pipeline_inbound.c\<close>, \<open>pipeline/pipeline_outbound.c\<close>, \<open>layers/resilience.c\<close>): both pipelines
    composed of the parts above.
  \<^item> \<open>Handshake\<close> (\<open>handshake/handshake.c\<close>): message builders, state machine and the two runners.
  \<^item> \<open>Endpoint\<close>, \<open>Rekey\<close>, \<open>Liveness\<close> (\<open>engine/rekey.c\<close>, \<open>engine/heartbeat.c\<close>, \<open>engine/reconnect.c\<close>,
    \<open>layers/port_hop.c\<close>): the control protocols of a locked session over one model of sending.
  \<^item> \<open>Keyed_Table\<close>: the interface of small keyed tables (\<open>keyed_table\<close>, \<open>keyed_table_del\<close>), interpreted by
    \<open>Routing\<close> (\<open>relay/route_table.c\<close>, \<open>relay/relay.c\<close>), \<open>Connections\<close> (\<open>connection/connection_manager.c\<close>) and
    \<open>Group\<close> (\<open>group/group.c\<close>).
  \<^item> \<open>File_Transfer\<close> (\<open>engine/file_transfer.c\<close>), \<open>Conn_Request\<close> (\<open>engine/conn_request.c\<close>), \<open>Identity\<close>
    (\<open>identity/identity.c\<close>), \<open>Config\<close> (\<open>crypto/toml_config.c\<close>), \<open>Discovery\<close> (\<open>discovery/lan_discovery.c\<close>), \<open>Media\<close>
    (jitter buffer of \<open>engine/audio_pipeline.c\<close>, \<open>engine/adaptive_bitrate.c\<close>).
  \<^item> \<open>Workers\<close> (\<open>core/udp.c\<close>, \<open>core/rx_thread.c\<close>, \<open>core/tx_thread.c\<close>, \<open>core/rx_worker.c\<close>, \<open>engine/crypto_worker.c\<close>), \<open>Monitor\<close>
    (\<open>engine/monitor.c\<close>), \<open>Calls\<close> (\<open>engine/audio_capture.c\<close>, \<open>audio_worker.c\<close>, \<open>video_capture.c\<close>, \<open>video_worker.c\<close> and the codec
    front end of \<open>audio_pipeline.c\<close>): the threads and workers.
  \<^item> \<open>Engine\<close>, \<open>Engine_Poll\<close> (\<open>engine/transport_engine.c\<close>), \<open>Api\<close> (\<open>api/transport_api.c\<close>): the engine's state and
    calls, its packet handlers and event loop, and the public interface. A node is the engine
    with the global state of the modules; the environment of a call is the record \<open>env\<close>.
  \<^item> \<open>Engine_Inv\<close>, \<open>Engine_Safe\<close>: the invariant of the engine, kept by every operation, and the step relation
    \<open>api_step\<close> of all calls and thread turns. \<open>Engine_Flow\<close>: messages through the whole engine; \<open>File_Flow\<close>: a file
    that arrives at the engine.
  \<^item> \<open>Tui_State\<close> (\<open>tui.h\<close>, \<open>tui_screen.c\<close>): the terminal and its raw mode, the state of the interface. \<open>Tui_Input\<close>
    (\<open>tui_input.c\<close>): decoding of escape sequences, the handlers of the screens, the line editor. \<open>Tui_Panels\<close>,
    \<open>Tui_Render\<close> (\<open>tui_panels.c\<close>, \<open>tui_render\<close>): every panel as the text it writes into the screen buffer.
  \<^item> \<open>App\<close> (\<open>main.c\<close>): start, events, commands, keys and one turn of the main loop, and the daemon. \<open>App_Safe\<close>: the
    invariant of the application and the interface \<open>event_client\<close> of the loops that take events, for the screen and for the daemon. \<open>App_Flow\<close>: what happens to a line
    that was typed and to the events of the engine.
  \<^item> \<open>Bpf_Filter\<close> (\<open>layers/kernel_filter_bpf.c\<close>, the wrappers in \<open>layers/kernel_filter.c\<close>): the encoded filter program, and the
    descriptors of program and map, with the answers of the kernel as the record \<open>bpf_kernel\<close>.
  \<^item> \<open>Demo\<close> (end of \<open>engine/transport_engine.c\<close>): the demonstration with both handlers, its file and its loop.

  \<^bold>\<open>What is shown.\<close> Delivery: what the outbound pipeline sends, the inbound one delivers unchanged,
  also over a relay; what a host queues arrives in the ring of the other; a chat message given to the engine
  is sealed and queued, and the engine at the other side returns it as an event; one poll runs one step of
  the handshake; parsing, encryption, error correction, file transfer, connection requests,
  the identity file (for names of one word) and the configuration file are round trips. Safety: accepted packets passed every check and are
  authentic when encrypted, rejected ones change nothing, a sequence number is accepted once, a
  session is ready only after an identity proof, in every run of the whole engine (\<open>engine_locked_verified\<close>) and in the
  handshake alone, where also the KEM secrets are wiped then (a later rekeying keeps a new one while it waits), a handshake
  completes only on a message that proves knowledge of its secrets, several paths are told apart as they were registered, both ends of
  handshake and rekeying agree on the keys. Containers: rings, pool, session table, routes, peers
  and rooms refine queues, allocators and finite maps and keep their bounds. Application: in every run
  its indices stay inside the arrays and the engine keeps its invariant (\<open>application_safe\<close>, and \<open>daemon_safe\<close> for the daemon), input codes and drawing stay
  in their bounds, the line editor is a cursor in a list, a short typed line leaves as a sealed packet, the descriptors
  of the kernel filter are closed once, and the file of the demonstration
  arrives. Defects of the code
  are theorems too: the race of the pool, repeating nonces, acceptance of plaintext, rekeying
  without authentication, the array overflow of the adaptive error correction and accepted connections that
  refuse every packet, a length taken for the number of a peer (\<open>chat_line_routed\<close>), a message shown again after a stray
  datagram (\<open>stray_datagram_repeats_message\<close>) and a descriptor taken for an error (\<open>attach_iface_gives_up\<close>); further
  ones (\<open>known_hosts_ignores_ipv6\<close>, \<open>file_send_never_sends\<close>, \<open>video_frame_overflows\<close>, \<open>jitter_push_overwrites\<close>,
  \<open>parity_packet_freed_twice\<close>, \<open>replay_across_paths\<close>, \<open>port_hop_hijack\<close>, \<open>reconnect_gives_up_at_once\<close>,
  \<open>accepted_request_goes_nowhere\<close>, \<open>repeated_chunk_loses_file\<close>, \<open>bpf_shutdown_keeps_filter\<close>) stand beside
  their components.

  \<^bold>\<open>Loops and bounds.\<close> Every loop is a fold or a terminating recursion, except the loop of the transmit
  thread, a \<open>partial_function\<close> that is shown to end (\<open>tx_thread_drains\<close>); no model uses fuel. The
  loops over files and datagrams (\<open>checksum_loop\<close>, \<open>read_lines\<close>, \<open>rx_thread_fn\<close>) terminate because each round consumes
  input. The endless loops of the worker threads are modelled by one turn each, and every
  interleaving of turns and calls is a run of \<open>api_step\<close>; a call and a turn are atomic there, and the finer
  interleavings of the rings and the pool are the subject of \<open>Ring_Threads\<close> and \<open>Packet_Pool\<close>. The loops of the
  application that poll until no event is left run over the list of environments of their polls, and are \<open>None\<close> when
  the list is too short; its main loop, that of the daemon and that of the demonstration are given by one round each and a
  step relation that interleaves the rounds with the threads.

  \<^bold>\<open>Not modelled.\<close> Creating sockets and threads, polling, \<open>fork\<close>, signals and the system log, which are calls of the
  operating system; the cryptographic libraries, Opus and the kernel's answers to the BPF calls, which are parameters, and what the kernel does with the filter program; printed
  statistics; the self test and the tests. The Windows branches are left out.
\<close>

end
